(* ===== verification/Prelude.thy ===== *)
theory Prelude
  imports Complex_Main "HOL-Library.Sublist" "HOL-Library.Code_Target_Nat"
begin

text \<open>
  What every component of the development shares: the JavaScript string and array
  operations the sources call (\<open>trim\<close>, \<open>indexOf\<close>, \<open>includes\<close>, \<open>split\<close>, \<open>join\<close>,
  \<open>slice\<close>, \<open>String(n)\<close>), the nullish and truthy fallbacks \<open>??\<close> and \<open>||\<close>, the
  JSON values a payload or a stored text is parsed into, and the generic lemmas about
  them.  A JavaScript string is a list of characters with codes below 256; a component
  that needs code units outside that range works on lists of natural numbers instead.
  A JavaScript number is a rational: every finite double is one, and the components
  only compare, take minima and maxima, and add integers of a size doubles hold exactly.
\<close>

named_theorems frame "fields an operation leaves alone"

type_synonym number = rat

section \<open>Strings and arrays\<close>

text \<open>The code units ECMAScript calls white space or line terminators (\<open>\s\<close>, \<open>trim\<close>).\<close>

definition space_unit :: "nat \<Rightarrow> bool" where
  "space_unit u \<longleftrightarrow> (9 \<le> u \<and> u \<le> 13) \<or> u = 32 \<or> u = 160 \<or> u = 5760 \<or> (8192 \<le> u \<and> u \<le> 8202)
     \<or> u = 8232 \<or> u = 8233 \<or> u = 8239 \<or> u = 8287 \<or> u = 12288 \<or> u = 65279"

definition space_char :: "char \<Rightarrow> bool" where
  "space_char c \<longleftrightarrow> space_unit (of_char c)"

text \<open>\<open>s.trim()\<close>, over any notion of white space.\<close>

definition trim_by :: "('a \<Rightarrow> bool) \<Rightarrow> 'a list \<Rightarrow> 'a list" where
  "trim_by sp s = rev (dropWhile sp (rev (dropWhile sp s)))"

definition trim :: "string \<Rightarrow> string" where
  "trim = trim_by space_char"

text \<open>\<open>toLowerCase\<close> on characters below 256.\<close>

definition lower_char :: "char \<Rightarrow> char" where
  "lower_char c = (let n = of_char c :: nat in
     if 65 \<le> n \<and> n \<le> 90 \<or> 192 \<le> n \<and> n \<le> 222 \<and> n \<noteq> 215 then char_of (n + 32) else c)"

text \<open>\<open>s.indexOf(p)\<close>: the first position of \<open>p\<close>, \<open>None\<close> where JavaScript returns \<open>-1\<close>.\<close>

fun index_of :: "'a list \<Rightarrow> 'a list \<Rightarrow> nat option" where
  "index_of p [] = (if p = [] then Some 0 else None)"
| "index_of p (c # cs) = (if prefix p (c # cs) then Some 0 else map_option Suc (index_of p cs))"

text \<open>\<open>s.includes(p)\<close>.\<close>

definition contains :: "'a list \<Rightarrow> 'a list \<Rightarrow> bool" where
  "contains s p \<longleftrightarrow> index_of p s \<noteq> None"

text \<open>\<open>s.split(c)\<close> for a one-unit separator, and \<open>xs.join(sep)\<close>.\<close>

fun split_on :: "'a \<Rightarrow> 'a list \<Rightarrow> 'a list list" where
  "split_on c [] = [[]]"
| "split_on c (x # xs) =
     (if x = c then [] # split_on c xs
      else case split_on c xs of [] \<Rightarrow> [[x]] | w # ws \<Rightarrow> (x # w) # ws)"

fun join :: "'a list \<Rightarrow> 'a list list \<Rightarrow> 'a list" where
  "join sep [] = []"
| "join sep [x] = x"
| "join sep (x # y # xs) = x @ sep @ join sep (y # xs)"

text \<open>\<open>xs.slice(-n)\<close>: the last \<open>n\<close> elements.\<close>

definition last_n :: "nat \<Rightarrow> 'a list \<Rightarrow> 'a list" where
  "last_n n xs = drop (length xs - n) xs"

text \<open>\<open>xs.findIndex(p)\<close>, \<open>None\<close> where JavaScript returns \<open>-1\<close>.\<close>

fun find_index :: "('a \<Rightarrow> bool) \<Rightarrow> 'a list \<Rightarrow> nat option" where
  "find_index P [] = None"
| "find_index P (x # xs) = (if P x then Some 0 else map_option Suc (find_index P xs))"

text \<open>The decimal digits of \<open>String(n)\<close>, as numbers from 0 to 9.\<close>

fun digits_of :: "nat \<Rightarrow> nat list" where
  "digits_of n = (if n < 10 then [n] else digits_of (n div 10) @ [n mod 10])"

declare digits_of.simps [simp del]

definition undigits :: "nat list \<Rightarrow> nat" where
  "undigits ds = foldl (\<lambda>a d. 10 * a + d) 0 ds"

definition digit_char :: "nat \<Rightarrow> char" where
  "digit_char d = char_of (48 + d)"

definition show_nat :: "nat \<Rightarrow> string" where
  "show_nat n = map digit_char (digits_of n)"

definition show_int :: "int \<Rightarrow> string" where
  "show_int i = (if i < 0 then CHR ''-'' # show_nat (nat (- i)) else show_nat (nat i))"

section \<open>Fallbacks\<close>

text \<open>
  \<open>a ?? b\<close> on an optional value, and \<open>a || b\<close> on an optional string, where the empty
  string is as falsy as \<open>undefined\<close>.
\<close>

definition nullish :: "'a option \<Rightarrow> 'a \<Rightarrow> 'a" where
  "nullish a b = (case a of None \<Rightarrow> b | Some x \<Rightarrow> x)"

definition nullish_opt :: "'a option \<Rightarrow> 'a option \<Rightarrow> 'a option" where
  "nullish_opt a b = (case a of None \<Rightarrow> b | Some x \<Rightarrow> Some x)"

definition or_string :: "string option \<Rightarrow> string \<Rightarrow> string" where
  "or_string a b = (case a of None \<Rightarrow> b | Some s \<Rightarrow> if s = [] then b else s)"

definition truthy_string :: "string option \<Rightarrow> bool" where
  "truthy_string a \<longleftrightarrow> (case a of None \<Rightarrow> False | Some s \<Rightarrow> s \<noteq> [])"

section \<open>JSON values\<close>

text \<open>An object keeps its properties in insertion order, each key once.\<close>

datatype json =
    JNull
  | JBool bool
  | JNum number
  | JStr string
  | JArr "json list"
  | JObj "(string \<times> json) list"

text \<open>Property access \<open>v.k\<close> on a parsed value: \<open>None\<close> is \<open>undefined\<close>.\<close>

fun prop_of :: "json \<Rightarrow> string \<Rightarrow> json option" where
  "prop_of (JObj kvs) k = map_of kvs k"
| "prop_of _ _ = None"

text \<open>Assignment to a property: in place, or behind the others.\<close>

definition set_prop :: "string \<Rightarrow> 'a \<Rightarrow> (string \<times> 'a) list \<Rightarrow> (string \<times> 'a) list" where
  "set_prop k v kvs = (if k \<in> fst ` set kvs then map (\<lambda>(k', v'). if k' = k then (k', v) else (k', v')) kvs else kvs @ [(k, v)])"

fun json_truthy :: "json \<Rightarrow> bool" where
  "json_truthy JNull = False"
| "json_truthy (JBool b) = b"
| "json_truthy (JNum n) = (n \<noteq> 0)"
| "json_truthy (JStr s) = (s \<noteq> [])"
| "json_truthy _ = True"

section \<open>Browser storage\<close>

text \<open>\<open>localStorage\<close>: its texts, and what it accepts; \<open>setItem\<close> throws (\<open>None\<close>) otherwise.\<close>

record LocalStorage =
  ls_items :: "string \<Rightarrow> string option"
  ls_accepts :: "string \<Rightarrow> string \<Rightarrow> bool"

definition getItem :: "LocalStorage \<Rightarrow> string \<Rightarrow> string option" where
  "getItem ls k = ls_items ls k"

definition setItem :: "LocalStorage \<Rightarrow> string \<Rightarrow> string \<Rightarrow> LocalStorage option" where
  "setItem ls k s = (if ls_accepts ls k s then Some (ls\<lparr>ls_items := (ls_items ls)(k \<mapsto> s)\<rparr>) else None)"

definition removeItem :: "LocalStorage \<Rightarrow> string \<Rightarrow> LocalStorage" where
  "removeItem ls k = ls\<lparr>ls_items := (ls_items ls)(k := None)\<rparr>"

section \<open>Lemmas on strings and arrays\<close>

lemma trim_by_Nil [simp]: "trim_by sp [] = []"
  by (simp add: trim_by_def)

lemma trim_Nil [simp]: "trim [] = []"
  by (simp add: trim_def)

lemma trim_by_id:
  "s = [] \<or> (\<not> sp (hd s) \<and> \<not> sp (last s)) \<Longrightarrow> trim_by sp s = s"
  by (auto simp: trim_by_def dropWhile_eq_self_iff [THEN iffD2] hd_rev)

lemma trim_by_trim_by: "trim_by sp (trim_by sp s) = trim_by sp s"
proof (rule trim_by_id)
  define r where "r = dropWhile sp s"
  define t where "t = dropWhile sp (rev r)"
  have ends: "t \<noteq> [] \<longrightarrow> \<not> sp (hd t)" by (auto simp: t_def hd_dropWhile)
  obtain d where d: "rev r = d @ t" unfolding t_def by (metis takeWhile_dropWhile_id)
  have "\<not> sp (last t)" if "t \<noteq> []"
  proof -
    have "last t = hd r" using d that by (metis hd_rev last_appendR rev_rev_ident)
    moreover have "r \<noteq> []" using d that by auto
    ultimately show ?thesis by (metis hd_dropWhile r_def)
  qed
  with ends show "trim_by sp s = [] \<or> \<not> sp (hd (trim_by sp s)) \<and> \<not> sp (last (trim_by sp s))"
    by (auto simp: trim_by_def hd_rev last_rev simp flip: r_def t_def)
qed

lemma trim_trim: "trim (trim s) = trim s"
  by (simp add: trim_def trim_by_trim_by)

lemma trim_by_no_space:
  assumes "\<And>c. c \<in> set s \<Longrightarrow> \<not> sp c"
  shows "trim_by sp s = s"
  using assms by (cases "s = []") (auto intro!: trim_by_id)

lemma split_unique:
  assumes "c \<notin> set a" "c \<notin> set b" "a @ c # x = b @ c # y"
  shows "a = b \<and> x = y"
  using assms
proof (induction a arbitrary: b)
  case Nil
  then show ?case by (cases b) auto
next
  case (Cons z a)
  then show ?case by (cases b) auto
qed

lemma split_on_not_Nil [simp]: "split_on c s \<noteq> []"
  by (induction s) (auto split: list.splits)

lemma split_on_none: "c \<notin> set s \<Longrightarrow> split_on c s = [s]"
  by (induction s) auto

lemma split_on_append: "c \<notin> set w \<Longrightarrow> split_on c (w @ c # s) = w # split_on c s"
  by (induction w) auto

lemma split_on_join:
  assumes "xs \<noteq> []" and "\<forall>w \<in> set xs. c \<notin> set w"
  shows "split_on c (join [c] xs) = xs"
  using assms by (induction "[c]" xs rule: join.induct) (auto simp: split_on_append split_on_none)

lemma join_split_on: "join [c] (split_on c s) = s"
proof (induction s)
  case (Cons x s)
  then show ?case by (cases "split_on c s") (auto, (cases "tl (split_on c s)"; auto)+)
qed simp

lemma split_on_no_sep: "w \<in> set (split_on c s) \<Longrightarrow> c \<notin> set w"
  by (induction s arbitrary: w) (auto split: if_splits list.splits)

lemma set_join: "set (join sep xs) \<subseteq> set sep \<union> (\<Union>w \<in> set xs. set w)"
  by (induction sep xs rule: join.induct) auto

lemma last_n_short [simp]: "length xs \<le> n \<Longrightarrow> last_n n xs = xs"
  by (simp add: last_n_def)

lemma length_last_n [simp]: "length (last_n n xs) = min n (length xs)"
  by (simp add: last_n_def)

lemma last_n_suffix: "suffix (last_n n xs) xs"
  by (simp add: last_n_def suffix_drop)

lemma find_index_Some:
  "find_index P xs = Some i \<Longrightarrow> i < length xs \<and> P (xs ! i) \<and> (\<forall>j < i. \<not> P (xs ! j))"
proof (induction xs arbitrary: i)
  case (Cons x xs)
  then show ?case
    by (auto split: if_splits simp: less_Suc_eq_0_disj)
qed simp

lemma find_index_None: "find_index P xs = None \<longleftrightarrow> (\<forall>x \<in> set xs. \<not> P x)"
  by (induction xs) auto

lemma digits_of_small: "d \<in> set (digits_of n) \<Longrightarrow> d < 10"
proof (induction n rule: digits_of.induct)
  case (1 n)
  then show ?case by (auto simp: digits_of.simps [of n] split: if_splits)
qed

lemma digits_of_not_Nil [simp]: "digits_of n \<noteq> []"
  by (subst digits_of.simps) simp

lemma undigits_append: "undigits (xs @ [d]) = 10 * undigits xs + d"
  by (simp add: undigits_def)

lemma undigits_digits_of [simp]: "undigits (digits_of n) = n"
proof (induction n rule: digits_of.induct)
  case (1 n)
  then show ?case
    by (cases "n < 10") (simp_all add: digits_of.simps [of n] undigits_append, simp add: undigits_def)
qed

section \<open>Searching for a tag\<close>

text \<open>
  \<open>index_of\<close> on a text in which the pattern is known not to start earlier.  The
  patterns the sources search for begin with a character they do not repeat, so an
  occurrence cannot straddle the end of a text that has none.
\<close>

lemma index_of_Nil [simp]: "index_of [] s = Some 0"
  by (cases s) auto

lemma index_of_Some_bound: "index_of p s = Some i \<Longrightarrow> i + length p \<le> length s"
proof (induction s arbitrary: i)
  case (Cons c s)
  then show ?case
    by (auto split: if_splits dest!: prefix_length_le)
qed (auto split: if_splits)

lemma index_of_Some_prefix: "index_of p s = Some i \<Longrightarrow> prefix p (drop i s)"
  by (induction s arbitrary: i) (auto split: if_splits)

lemma index_of_eq_take:
  assumes "index_of p s = Some i"
  shows "s = take i s @ p @ drop (i + length p) s"
proof -
  from index_of_Some_prefix [OF assms] obtain t where t: "drop i s = p @ t"
    by (auto simp: prefix_def)
  then have "drop (i + length p) s = t"
    by (metis add.commute append_eq_conv_conj drop_drop)
  with t show ?thesis by (metis append_take_drop_id)
qed

lemma index_of_None_iff: "index_of p s = None \<longleftrightarrow> \<not> (\<exists>u v. s = u @ p @ v)"
proof (induction s)
  case (Cons c s)
  show ?case
  proof
    assume "index_of p (c # s) = None"
    then have np: "\<not> prefix p (c # s)" and n: "\<not> (\<exists>u v. s = u @ p @ v)"
      using Cons by (auto split: if_splits)
    show "\<not> (\<exists>u v. c # s = u @ p @ v)"
    proof clarify
      fix u v assume "c # s = u @ p @ v"
      with np n show False by (cases u) (auto simp: prefix_def)
    qed
  next
    assume no: "\<not> (\<exists>u v. c # s = u @ p @ v)"
    have "\<not> prefix p (c # s)"
      using no by (auto simp: prefix_def) (metis append_Nil)
    moreover have "\<not> (\<exists>u v. s = u @ p @ v)"
      using no by (metis append_Cons)
    ultimately show "index_of p (c # s) = None"
      using Cons by simp
  qed
qed auto

lemma contains_iff: "contains s p \<longleftrightarrow> (\<exists>u v. s = u @ p @ v)"
  by (simp add: contains_def index_of_None_iff)

lemma index_of_first:
  assumes "\<not> contains u p" and "p \<noteq> []" and "hd p \<notin> set (tl p)"
  shows "index_of p (u @ p @ v) = Some (length u)"
  using assms(1)
proof (induction u)
  case Nil
  from assms(2) show ?case by (cases p) auto
next
  case (Cons c u)
  obtain a q where p: "p = a # q" and a: "a \<notin> set q"
    using assms(2,3) by (cases p) auto
  have "\<not> contains u p"
    using Cons.prems by (auto simp: contains_def split: if_splits)
  moreover have "\<not> prefix p (c # u @ p @ v)"
  proof
    assume "prefix p (c # u @ p @ v)"
    then have "prefix p ((c # u) @ a # q @ v)" by (auto simp: p)
    then consider "prefix p (c # u)" | q' where "p = (c # u) @ q'" "q' \<noteq> []" "prefix q' (a # q @ v)"
      unfolding prefix_append by (metis append_Nil2 prefix_order.refl)
    then show False
    proof cases
      case 1
      with Cons.prems show False by (simp add: contains_def)
    next
      case 2
      then have "a \<in> set q" by (cases q') (auto simp: p)
      with a show False by simp
    qed
  qed
  ultimately show ?case using Cons.IH by simp
qed

lemma set_prop_new: "k \<notin> fst ` set kvs \<Longrightarrow> set_prop k v kvs = kvs @ [(k, v)]"
  by (simp add: set_prop_def)

section \<open>Normal forms\<close>

text \<open>
  The contract of a routine that rewrites its input to a canonical form: it keeps the
  meaning, its result is canonical, and two canonical inputs with one meaning are equal.
\<close>

locale normaliser =
  fixes norm :: "'a \<Rightarrow> 'a"
    and dom_ok :: "'a \<Rightarrow> bool"
    and canon :: "'a \<Rightarrow> bool"
    and sem :: "'a \<Rightarrow> 'b"
  assumes norm_canon: "dom_ok x \<Longrightarrow> canon (norm x)"
    and norm_sem: "dom_ok x \<Longrightarrow> sem (norm x) = sem x"
    and canon_dom: "canon x \<Longrightarrow> dom_ok x"
    and canon_unique: "canon x \<Longrightarrow> canon y \<Longrightarrow> sem x = sem y \<Longrightarrow> x = y"
begin

lemma norm_fix: "canon x \<Longrightarrow> norm x = x"
  by (rule canon_unique) (auto intro: norm_canon norm_sem canon_dom)

lemma norm_idem: "dom_ok x \<Longrightarrow> norm (norm x) = norm x"
  by (rule norm_fix) (rule norm_canon)

lemma norm_eq_iff: "dom_ok x \<Longrightarrow> dom_ok y \<Longrightarrow> norm x = norm y \<longleftrightarrow> sem x = sem y"
  by (metis canon_unique norm_canon norm_sem)

end

end
