(* ===== verification/Status_Rules.thy ===== *)
theory Status_Rules
  imports Prelude
begin

text \<open>
  The HTTP status code rules of \<open>web/src/lib/http-status-code-rules.ts\<close>: a comma
  separated list of codes and ranges is parsed, validated against 100 to 599, sorted and
  merged, and printed back in a normal form.  The input may hold the full-width comma
  U+FF0C, so a string is here the list of its code units.
\<close>

section \<open>Data\<close>

type_synonym units = "nat list"

datatype StatusCodeRange = StatusCodeRange (range_start: nat) (range_end: nat)

record ParsedHttpStatusCodeRules =
  rules_ok :: bool
  rules_ranges :: "StatusCodeRange list"
  rules_tokens :: "units list"
  rules_normalized :: units
  rules_invalidTokens :: "units list"

text \<open>The comparison \<open>mergeRanges\<close> sorts by: the start, then the end.\<close>

instantiation StatusCodeRange :: linorder
begin

definition less_eq_StatusCodeRange :: "StatusCodeRange \<Rightarrow> StatusCodeRange \<Rightarrow> bool" where
  "less_eq_StatusCodeRange a b \<longleftrightarrow>
     range_start a < range_start b \<or> (range_start a = range_start b \<and> range_end a \<le> range_end b)"

definition less_StatusCodeRange :: "StatusCodeRange \<Rightarrow> StatusCodeRange \<Rightarrow> bool" where
  "less_StatusCodeRange a b \<longleftrightarrow>
     range_start a < range_start b \<or> (range_start a = range_start b \<and> range_end a < range_end b)"

instance
  by standard
    (auto simp: less_eq_StatusCodeRange_def less_StatusCodeRange_def StatusCodeRange.expand)

end

section \<open>Operations\<close>

definition comma :: nat where "comma = 44"
definition hyphen :: nat where "hyphen = 45"
definition wide_comma :: nat where "wide_comma = 65292"

definition isDigit :: "nat \<Rightarrow> bool" where
  "isDigit u \<longleftrightarrow> 48 \<le> u \<and> u \<le> 57"

text \<open>\<open>/^\d+$/.test(s)\<close>, false on \<open>undefined\<close>.\<close>

definition isNumber :: "units option \<Rightarrow> bool" where
  "isNumber s \<longleftrightarrow> (case s of None \<Rightarrow> False | Some t \<Rightarrow> t \<noteq> [] \<and> list_all isDigit t)"

text \<open>\<open>Number.parseInt(s, 10)\<close> on a string of digits.\<close>

definition parseInt :: "units \<Rightarrow> nat" where
  "parseInt s = undigits (map (\<lambda>u. u - 48) s)"

definition isValidCode :: "nat \<Rightarrow> bool" where
  "isValidCode code \<longleftrightarrow> 100 \<le> code \<and> code \<le> 599"

definition parseToken :: "units \<Rightarrow> StatusCodeRange option" where
  "parseToken token =
     (let cleaned = filter (\<lambda>u. \<not> space_unit u) (trim_by space_unit token) in
      if cleaned = [] then None
      else if hyphen \<in> set cleaned then
        (let parts = split_on hyphen cleaned;
             a = (case parts of x # _ \<Rightarrow> Some x | [] \<Rightarrow> None);
             b = (case parts of _ # y # _ \<Rightarrow> Some y | _ \<Rightarrow> None)
         in if \<not> isNumber a \<or> \<not> isNumber b then None
            else let start = parseInt (the a); end' = parseInt (the b)
                 in if \<not> isValidCode start \<or> \<not> isValidCode end' \<or> start > end' then None
                    else Some (StatusCodeRange start end'))
      else if \<not> isNumber (Some cleaned) then None
      else let code = parseInt cleaned
           in if \<not> isValidCode code then None else Some (StatusCodeRange code code))"

text \<open>One round of the \<open>reduce\<close>: extend the last merged range, or start a new one.\<close>

definition merge_step :: "StatusCodeRange list \<Rightarrow> StatusCodeRange \<Rightarrow> StatusCodeRange list" where
  "merge_step merged current =
     (if merged = [] then [current]
      else if range_start current > range_end (last merged) + 1 then merged @ [current]
      else butlast merged @
        [StatusCodeRange (range_start (last merged)) (max (range_end (last merged)) (range_end current))])"

definition mergeRanges :: "StatusCodeRange list \<Rightarrow> StatusCodeRange list" where
  "mergeRanges ranges = foldl merge_step [] (sort ranges)"

definition show_units :: "nat \<Rightarrow> units" where
  "show_units n = map (\<lambda>d. 48 + d) (digits_of n)"

definition range_token :: "StatusCodeRange \<Rightarrow> units" where
  "range_token r =
     (if range_start r = range_end r then show_units (range_start r)
      else show_units (range_start r) @ [hyphen] @ show_units (range_end r))"

definition segments_of :: "units \<Rightarrow> units list" where
  "segments_of raw =
     filter (\<lambda>s. s \<noteq> [])
       (map (trim_by space_unit)
         (split_on comma (map (\<lambda>u. if u = wide_comma then comma else u) raw)))"

definition parseHttpStatusCodeRules :: "units option \<Rightarrow> ParsedHttpStatusCodeRules" where
  "parseHttpStatusCodeRules input =
     (let raw = trim_by space_unit (nullish input []) in
      if raw = [] then
        \<lparr>rules_ok = True, rules_ranges = [], rules_tokens = [], rules_normalized = [],
         rules_invalidTokens = []\<rparr>
      else
        let segments = segments_of raw;
            ranges = List.map_filter parseToken segments;
            invalidTokens = filter (\<lambda>s. parseToken s = None) segments
        in if invalidTokens \<noteq> [] then
             \<lparr>rules_ok = False, rules_ranges = [], rules_tokens = [], rules_normalized = raw,
              rules_invalidTokens = invalidTokens\<rparr>
           else
             let merged = mergeRanges ranges;
                 tokens = map range_token merged
             in \<lparr>rules_ok = True, rules_ranges = merged, rules_tokens = tokens,
                 rules_normalized = join [comma] tokens, rules_invalidTokens = []\<rparr>)"

section \<open>Merging\<close>

text \<open>What a list of ranges means, and when it is in normal form.\<close>

definition codes_of :: "StatusCodeRange list \<Rightarrow> nat set" where
  "codes_of rs = (\<Union>r \<in> set rs. {range_start r..range_end r})"

definition wf_ranges :: "StatusCodeRange list \<Rightarrow> bool" where
  "wf_ranges rs \<longleftrightarrow> (\<forall>r \<in> set rs. range_start r \<le> range_end r)"

definition canonical :: "StatusCodeRange list \<Rightarrow> bool" where
  "canonical rs \<longleftrightarrow> wf_ranges rs \<and> sorted_wrt (\<lambda>a b. range_end a + 1 < range_start b) rs"

lemma codes_of_simps [simp]:
  "codes_of [] = {}"
  "codes_of (r # rs) = {range_start r..range_end r} \<union> codes_of rs"
  "codes_of (rs @ rs') = codes_of rs \<union> codes_of rs'"
  by (auto simp: codes_of_def)

lemma canonical_snoc:
  "canonical (rs @ [l]) \<longleftrightarrow>
     canonical rs \<and> range_start l \<le> range_end l \<and> (\<forall>r \<in> set rs. range_end r + 1 < range_start l)"
  by (auto simp: canonical_def wf_ranges_def sorted_wrt_append)

lemma merge_step_snoc:
  "merge_step (rs @ [l]) c =
     (if range_start c > range_end l + 1 then (rs @ [l]) @ [c]
      else rs @ [StatusCodeRange (range_start l) (max (range_end l) (range_end c))])"
  by (simp add: merge_step_def)

lemma merge_step_inv:
  assumes "canonical acc" and "range_start c \<le> range_end c"
    and "acc \<noteq> [] \<longrightarrow> range_start (last acc) \<le> range_start c"
  shows "canonical (merge_step acc c) \<and> codes_of (merge_step acc c) = codes_of acc \<union> codes_of [c]
    \<and> range_start (last (merge_step acc c)) \<le> range_start c \<and> merge_step acc c \<noteq> []"
proof (cases acc rule: rev_cases)
  case Nil
  with assms show ?thesis
    by (auto simp: merge_step_def canonical_def wf_ranges_def)
next
  case (snoc rs l)
  show ?thesis
  proof (cases "range_start c > range_end l + 1")
    case True
    moreover have "range_end r + 1 < range_start c" if "r \<in> set rs" for r
      using that assms(1) True by (fastforce simp: snoc canonical_snoc)
    ultimately show ?thesis
      using assms by (auto simp: snoc merge_step_snoc canonical_def wf_ranges_def sorted_wrt_append)
  next
    case False
    with assms show ?thesis
      by (auto simp: snoc merge_step_snoc canonical_snoc)
  qed
qed

lemma foldl_merge_step:
  assumes "canonical acc" and "wf_ranges rs" and "sorted rs"
    and "acc \<noteq> [] \<longrightarrow> (\<forall>r \<in> set rs. range_start (last acc) \<le> range_start r)"
  shows "canonical (foldl merge_step acc rs) \<and> codes_of (foldl merge_step acc rs) = codes_of acc \<union> codes_of rs"
  using assms
proof (induction rs arbitrary: acc)
  case (Cons c rs)
  let ?acc = "merge_step acc c"
  have *: "canonical ?acc \<and> codes_of ?acc = codes_of acc \<union> codes_of [c]
      \<and> range_start (last ?acc) \<le> range_start c \<and> ?acc \<noteq> []"
    using Cons.prems by (intro merge_step_inv) (auto simp: wf_ranges_def)
  moreover have "\<forall>r \<in> set rs. range_start c \<le> range_start r"
    using Cons.prems(3) by (force simp: less_eq_StatusCodeRange_def)
  ultimately have "canonical (foldl merge_step ?acc rs)
      \<and> codes_of (foldl merge_step ?acc rs) = codes_of ?acc \<union> codes_of rs"
    using Cons.prems by (intro Cons.IH) (auto simp: wf_ranges_def intro: order_trans)
  with * show ?case by auto
qed simp

lemma mergeRanges_canonical: "wf_ranges rs \<Longrightarrow> canonical (mergeRanges rs)"
  and mergeRanges_codes: "wf_ranges rs \<Longrightarrow> codes_of (mergeRanges rs) = codes_of rs"
  using foldl_merge_step [of "[]" "sort rs"]
  by (auto simp: mergeRanges_def canonical_def wf_ranges_def codes_of_def)

lemma canonical_Cons:
  "canonical (r # rs) \<longleftrightarrow>
     range_start r \<le> range_end r \<and> canonical rs \<and> (\<forall>x \<in> set rs. range_end r + 1 < range_start x)"
  by (auto simp: canonical_def wf_ranges_def)

lemma canonical_gap:
  "canonical (r # rs) \<Longrightarrow> x \<in> codes_of rs \<Longrightarrow> range_end r + 1 < x"
  by (fastforce simp: canonical_Cons codes_of_def)

text \<open>The first range of a normal form is determined by the codes: it starts at their
  minimum and ends before the first missing code.\<close>

lemma canonical_head_eq:
  assumes "canonical (r # rs)" and "canonical (s # ss)"
    and "codes_of (r # rs) = codes_of (s # ss)"
  shows "r = s \<and> codes_of rs = codes_of ss"
proof -
  have le: "range_start b \<le> range_start a"
    if "canonical (b # bs)" "codes_of (a # as) = codes_of (b # bs)" "range_start a \<le> range_end a"
    for a b as bs
  proof -
    have "range_start a \<in> codes_of (b # bs)" using that(2,3) by auto
    with that(1) show ?thesis using canonical_gap [OF that(1)]
      by (auto simp: canonical_Cons dest: canonical_gap [OF that(1)])
  qed
  have wfr: "range_start r \<le> range_end r" "range_start s \<le> range_end s"
    using assms by (auto simp: canonical_Cons)
  have st: "range_start r = range_start s"
    using le [OF assms(2,3) wfr(1)] le [OF assms(1) assms(3) [symmetric] wfr(2)] by simp
  have en: "range_end a \<le> range_end b"
    if "canonical (b # bs)" "codes_of (a # as) = codes_of (b # bs)" "range_start a = range_start b"
      "range_start b \<le> range_end b"
    for a b as bs
  proof (rule ccontr)
    assume "\<not> ?thesis"
    then have "range_end b + 1 \<in> codes_of (a # as)"
      using that(3,4) by auto
    then have "range_end b + 1 \<in> codes_of (b # bs)"
      by (simp only: that(2))
    with canonical_gap [OF that(1)] show False by auto
  qed
  have "range_end r = range_end s"
    using en [OF assms(2,3) st wfr(2)] en [OF assms(1) assms(3) [symmetric] st [symmetric] wfr(1)] by simp
  with st have eq: "r = s" by (simp add: StatusCodeRange.expand)
  have "codes_of rs = codes_of (r # rs) - {range_start r..range_end r}"
    using canonical_gap [OF assms(1)] by fastforce
  moreover have "codes_of ss = codes_of (s # ss) - {range_start s..range_end s}"
    using canonical_gap [OF assms(2)] by fastforce
  ultimately show ?thesis using eq assms(3) by simp
qed

lemma canonical_unique:
  "canonical rs \<Longrightarrow> canonical ss \<Longrightarrow> codes_of rs = codes_of ss \<Longrightarrow> rs = ss"
proof (induction rs arbitrary: ss)
  case Nil
  then show ?case by (cases ss) (auto simp: canonical_Cons)
next
  case (Cons r rs)
  then obtain s ss' where ss: "ss = s # ss'"
    by (cases ss) (auto simp: canonical_Cons)
  with Cons.prems canonical_head_eq [of r rs s ss']
  have "r = s" "codes_of rs = codes_of ss'" by auto
  with Cons show ?case by (auto simp: ss canonical_Cons)
qed

interpretation merge: normaliser mergeRanges wf_ranges canonical codes_of
  by unfold_locales
    (simp_all add: mergeRanges_canonical mergeRanges_codes canonical_unique, simp add: canonical_def)

section \<open>Printing and parsing tokens\<close>

lemma isDigit_show: "u \<in> set (show_units n) \<Longrightarrow> isDigit u"
  by (auto simp: show_units_def isDigit_def dest: digits_of_small)

lemma isDigit_not:
  assumes "isDigit u"
  shows "\<not> space_unit u" "u \<noteq> hyphen" "u \<noteq> comma" "u \<noteq> wide_comma"
  using assms by (auto simp: isDigit_def space_unit_def hyphen_def comma_def wide_comma_def)

lemma isNumber_show [simp]: "isNumber (Some (show_units n))"
  by (auto simp: isNumber_def list_all_iff isDigit_show) (simp add: show_units_def)

lemma parseInt_show [simp]: "parseInt (show_units n) = n"
  by (simp add: parseInt_def show_units_def o_def)

lemma hyphen_not_in_show [simp]: "hyphen \<notin> set (show_units n)"
  using isDigit_show isDigit_not(2) by blast

lemma show_units_not_Nil [simp]: "show_units n \<noteq> []"
  by (simp add: show_units_def)

lemma range_token_units:
  assumes "u \<in> set (range_token r)"
  shows "\<not> space_unit u" "u \<noteq> comma" "u \<noteq> wide_comma"
proof -
  from assms have "isDigit u \<or> u = hyphen"
    by (auto simp: range_token_def isDigit_show split: if_splits)
  then show "\<not> space_unit u" "u \<noteq> comma" "u \<noteq> wide_comma"
    by (auto simp: isDigit_not) (auto simp: isDigit_def hyphen_def comma_def wide_comma_def space_unit_def)
qed

lemma range_token_not_Nil [simp]: "range_token r \<noteq> []"
  by (simp add: range_token_def)

lemma range_token_clean [simp]:
  "trim_by space_unit (range_token r) = range_token r"
  "filter (\<lambda>u. \<not> space_unit u) (range_token r) = range_token r"
  by (auto intro!: trim_by_no_space simp: filter_id_conv dest: range_token_units)

lemma parseToken_range_token:
  assumes "isValidCode (range_start r)" "isValidCode (range_end r)" "range_start r \<le> range_end r"
  shows "parseToken (range_token r) = Some r"
proof (cases "range_start r = range_end r")
  case True
  then have tok: "range_token r = show_units (range_start r)" by (simp add: range_token_def)
  then have "hyphen \<notin> set (range_token r)" "isNumber (Some (range_token r))"
    "parseInt (range_token r) = range_start r"
    by simp_all
  with True assms show ?thesis
    by (simp add: parseToken_def Let_def StatusCodeRange.expand)
next
  case False
  then have "split_on hyphen (range_token r) = [show_units (range_start r), show_units (range_end r)]"
    by (simp add: range_token_def split_on_append split_on_none)
  moreover have "hyphen \<in> set (range_token r)"
    using False by (simp add: range_token_def)
  ultimately show ?thesis
    using assms by (simp add: parseToken_def Let_def StatusCodeRange.expand)
qed

section \<open>Accepted rules\<close>

definition valid_range :: "StatusCodeRange \<Rightarrow> bool" where
  "valid_range r \<longleftrightarrow> isValidCode (range_start r) \<and> isValidCode (range_end r) \<and> range_start r \<le> range_end r"

lemma parseToken_valid: "parseToken t = Some r \<Longrightarrow> valid_range r"
  by (auto simp: parseToken_def valid_range_def Let_def split: if_splits)

text \<open>The codes a single segment stands for.\<close>

definition token_codes :: "units \<Rightarrow> nat set" where
  "token_codes t = (case parseToken t of None \<Rightarrow> {} | Some r \<Rightarrow> {range_start r..range_end r})"

lemma codes_of_map_filter: "codes_of (List.map_filter parseToken ts) = (\<Union>t \<in> set ts. token_codes t)"
  by (induction ts) (auto simp: map_filter_simps token_codes_def split: option.splits)

lemma map_filter_valid: "r \<in> set (List.map_filter parseToken ts) \<Longrightarrow> valid_range r"
  by (auto simp: List.map_filter_def dest: parseToken_valid split: if_splits)

lemma wf_map_filter [simp]: "wf_ranges (List.map_filter parseToken ts)"
  by (auto simp: wf_ranges_def valid_range_def dest: map_filter_valid)

lemma isValidCode_iff: "isValidCode n \<longleftrightarrow> n \<in> {100..599}"
  by (auto simp: isValidCode_def)

lemma canonical_in_codes:
  assumes "canonical rs" "codes_of rs \<subseteq> {100..599}" "r \<in> set rs"
  shows "valid_range r"
proof -
  have "range_start r \<le> range_end r" using assms(1,3) by (auto simp: canonical_def wf_ranges_def)
  then have "range_start r \<in> codes_of rs" "range_end r \<in> codes_of rs"
    using assms(3) by (auto simp: codes_of_def)
  with assms(2) \<open>range_start r \<le> range_end r\<close> show ?thesis
    by (auto simp: valid_range_def isValidCode_iff)
qed

lemma segment_codes_valid: "(\<Union>t \<in> set ts. token_codes t) \<subseteq> {100..599}"
  by (auto simp: token_codes_def valid_range_def isValidCode_def dest!: parseToken_valid split: option.splits)

text \<open>Printing merged ranges and cutting the text into segments again.\<close>

lemma segments_of_tokens:
  assumes "rs \<noteq> []"
  shows "segments_of (join [comma] (map range_token rs)) = map range_token rs"
proof -
  let ?t = "join [comma] (map range_token rs)"
  have "wide_comma \<notin> set ?t"
    using set_join [of "[comma]" "map range_token rs"] range_token_units(3)
    by (fastforce simp: comma_def wide_comma_def)
  then have san: "map (\<lambda>u. if u = wide_comma then comma else u) ?t = ?t"
    by (intro map_idI) auto
  have "split_on comma ?t = map range_token rs"
    using assms range_token_units(2) by (intro split_on_join) auto
  then show ?thesis
    by (simp add: segments_of_def san filter_id_conv o_def)
qed

lemma trim_tokens: "trim_by space_unit (join [comma] (map range_token rs)) = join [comma] (map range_token rs)"
proof (rule trim_by_no_space)
  fix u assume "u \<in> set (join [comma] (map range_token rs))"
  with set_join [of "[comma]" "map range_token rs"] have "u = comma \<or> (\<exists>r. u \<in> set (range_token r))"
    by auto
  then show "\<not> space_unit u"
    using range_token_units(1) by (auto simp: comma_def space_unit_def)
qed

lemma join_tokens_Nil [simp]: "join [comma] (map range_token rs) = [] \<longleftrightarrow> rs = []"
  by (cases rs; cases "tl rs") auto

lemma parse_printed:
  assumes "\<forall>r \<in> set rs. valid_range r" and "mergeRanges rs = rs"
  shows "parseHttpStatusCodeRules (Some (join [comma] (map range_token rs))) =
    \<lparr>rules_ok = True, rules_ranges = rs, rules_tokens = map range_token rs,
     rules_normalized = join [comma] (map range_token rs), rules_invalidTokens = []\<rparr>"
proof (cases "rs = []")
  case True
  then show ?thesis by (simp add: parseHttpStatusCodeRules_def nullish_def)
next
  case False
  have "List.map_filter parseToken (map range_token rs) = rs"
    using assms(1) by (induction rs) (auto simp: map_filter_simps parseToken_range_token valid_range_def)
  moreover have "filter (\<lambda>s. parseToken s = None) (map range_token rs) = []"
    using assms(1) by (auto simp: filter_empty_conv parseToken_range_token valid_range_def)
  ultimately show ?thesis
    using False assms(2)
    by (simp add: parseHttpStatusCodeRules_def nullish_def Let_def trim_tokens segments_of_tokens)
qed

text \<open>The three shapes of a result.\<close>

lemma parse_rules_cases:
  fixes s :: units
  defines "raw \<equiv> trim_by space_unit s"
  defines "p \<equiv> parseHttpStatusCodeRules (Some s)"
  obtains
    (empty) "raw = []" "p = parseHttpStatusCodeRules (Some [])" "segments_of raw = []"
  | (invalid) "raw \<noteq> []" "\<exists>t \<in> set (segments_of raw). parseToken t = None"
      "p = \<lparr>rules_ok = False, rules_ranges = [], rules_tokens = [], rules_normalized = raw,
            rules_invalidTokens = filter (\<lambda>t. parseToken t = None) (segments_of raw)\<rparr>"
  | (valid) rs where "raw \<noteq> []" "\<forall>t \<in> set (segments_of raw). parseToken t \<noteq> None"
      "rs = mergeRanges (List.map_filter parseToken (segments_of raw))"
      "p = \<lparr>rules_ok = True, rules_ranges = rs, rules_tokens = map range_token rs,
            rules_normalized = join [comma] (map range_token rs), rules_invalidTokens = []\<rparr>"
proof (cases "raw = []")
  case True
  then show ?thesis
    by (intro empty) (auto simp: p_def raw_def parseHttpStatusCodeRules_def nullish_def segments_of_def)
next
  case False
  show ?thesis
  proof (cases "\<exists>t \<in> set (segments_of raw). parseToken t = None")
    case True
    with False show ?thesis
      by (intro invalid)
        (auto simp: p_def parseHttpStatusCodeRules_def nullish_def Let_def filter_empty_conv simp flip: raw_def)
  next
    case F: False
    with False show ?thesis
      by (intro valid [OF _ _ refl])
        (auto simp: p_def parseHttpStatusCodeRules_def nullish_def Let_def filter_empty_conv simp flip: raw_def)
  qed
qed

lemma rules_of_empty [simp]:
  "parseHttpStatusCodeRules (Some []) =
    \<lparr>rules_ok = True, rules_ranges = [], rules_tokens = [], rules_normalized = [], rules_invalidTokens = []\<rparr>"
  by (simp add: parseHttpStatusCodeRules_def nullish_def)

text \<open>What an accepting parse of \<open>s\<close> returns.\<close>

definition accepts :: "units \<Rightarrow> ParsedHttpStatusCodeRules \<Rightarrow> bool" where
  "accepts s p \<longleftrightarrow> canonical (rules_ranges p)
     \<and> codes_of (rules_ranges p) = (\<Union>t \<in> set (segments_of (trim_by space_unit s)). token_codes t)
     \<and> rules_tokens p = map range_token (rules_ranges p)
     \<and> rules_normalized p = join [comma] (map range_token (rules_ranges p))
     \<and> rules_invalidTokens p = []"

lemma accepted:
  assumes "rules_ok (parseHttpStatusCodeRules (Some s))"
  shows "accepts s (parseHttpStatusCodeRules (Some s))"
proof (cases rule: parse_rules_cases [of s])
  case empty
  then show ?thesis
    unfolding accepts_def empty(2) rules_of_empty by (simp add: canonical_def wf_ranges_def)
next
  case invalid
  from assms show ?thesis unfolding invalid(3) by simp
next
  case (valid rs)
  show ?thesis
    unfolding accepts_def valid(4) by (simp add: valid(3) mergeRanges_canonical mergeRanges_codes codes_of_map_filter)
qed

lemma accepted_reparse:
  assumes "rules_ok (parseHttpStatusCodeRules (Some s))"
  shows "parseHttpStatusCodeRules (Some (rules_normalized (parseHttpStatusCodeRules (Some s)))) =
    parseHttpStatusCodeRules (Some s)"
proof -
  let ?p = "parseHttpStatusCodeRules (Some s)"
  from accepted [OF assms] have acc: "accepts s ?p" .
  then have can: "canonical (rules_ranges ?p)" and sub: "codes_of (rules_ranges ?p) \<subseteq> {100..599}"
    using segment_codes_valid [of "segments_of (trim_by space_unit s)"] by (simp_all add: accepts_def)
  have "\<forall>r \<in> set (rules_ranges ?p). valid_range r" "mergeRanges (rules_ranges ?p) = rules_ranges ?p"
    using canonical_in_codes [OF can sub] merge.norm_fix [OF can] by blast+
  from parse_printed [OF this] acc assms show ?thesis
    by (simp add: accepts_def)
qed

section \<open>Properties\<close>

text \<open>
  C4: accepted rules.  Every rule text the parser accepts yields ranges that are sorted,
  pairwise disjoint and never adjacent, that cover exactly the codes its segments name,
  and that stay within 100 to 599.
\<close>

theorem parse_rules_sound:
  assumes "rules_ok (parseHttpStatusCodeRules (Some s))"
  shows "canonical (rules_ranges (parseHttpStatusCodeRules (Some s)))
    \<and> codes_of (rules_ranges (parseHttpStatusCodeRules (Some s))) =
        (\<Union>t \<in> set (segments_of (trim_by space_unit s)). token_codes t)
    \<and> codes_of (rules_ranges (parseHttpStatusCodeRules (Some s))) \<subseteq> {100..599}"
  using accepted [OF assms] segment_codes_valid [of "segments_of (trim_by space_unit s)"]
  by (simp add: accepts_def)

text \<open>The text \<open>500-504,429,505\<close>.\<close>

definition sample_rules :: units where
  "sample_rules = [53, 48, 48, 45, 53, 48, 52, 44, 52, 50, 57, 44, 53, 48, 53]"

lemma sample_rules_value:
  "parseHttpStatusCodeRules (Some sample_rules) =
    \<lparr>rules_ok = True, rules_ranges = [StatusCodeRange 429 429, StatusCodeRange 500 505],
     rules_tokens = [[52, 50, 57], [53, 48, 48, 45, 53, 48, 53]],
     rules_normalized = [52, 50, 57, 44, 53, 48, 48, 45, 53, 48, 53], rules_invalidTokens = []\<rparr>"
  by code_simp

theorem parse_rules_sound_witness:
  "codes_of (rules_ranges (parseHttpStatusCodeRules (Some sample_rules))) \<subseteq> {100..599}"
proof -
  have "rules_ok (parseHttpStatusCodeRules (Some sample_rules))"
    by (simp add: sample_rules_value)
  from parse_rules_sound [OF this] show ?thesis by blast
qed

text \<open>
  Printing and parsing.  The normalised text of accepted rules parses back to the
  very same result: ranges, tokens and normalised text.
\<close>

theorem parse_rules_roundtrip:
  assumes "rules_ok (parseHttpStatusCodeRules (Some s))"
  shows "parseHttpStatusCodeRules (Some (rules_normalized (parseHttpStatusCodeRules (Some s)))) =
    parseHttpStatusCodeRules (Some s)"
  by (rule accepted_reparse [OF assms])

theorem parse_rules_roundtrip_witness:
  "parseHttpStatusCodeRules (Some (rules_normalized (parseHttpStatusCodeRules (Some sample_rules)))) =
    parseHttpStatusCodeRules (Some sample_rules)"
  by (rule parse_rules_roundtrip) (simp add: sample_rules_value)

text \<open>
  C37: the normal form decides equivalence.  Two accepted rule texts are normalised to the
  same text exactly when they name the same set of status codes.
\<close>

theorem normalized_iff_same_codes:
  assumes "rules_ok (parseHttpStatusCodeRules (Some s))" and "rules_ok (parseHttpStatusCodeRules (Some t))"
  shows "rules_normalized (parseHttpStatusCodeRules (Some s)) = rules_normalized (parseHttpStatusCodeRules (Some t))
    \<longleftrightarrow> (\<Union>x \<in> set (segments_of (trim_by space_unit s)). token_codes x) =
       (\<Union>x \<in> set (segments_of (trim_by space_unit t)). token_codes x)"
    (is "?l \<longleftrightarrow> ?r")
proof
  assume ?l
  then have "parseHttpStatusCodeRules (Some s) = parseHttpStatusCodeRules (Some t)"
    using accepted_reparse [OF assms(1)] accepted_reparse [OF assms(2)] by metis
  with accepted [OF assms(1)] accepted [OF assms(2)] show ?r by (simp add: accepts_def)
next
  assume ?r
  with accepted [OF assms(1)] accepted [OF assms(2)]
  have "rules_ranges (parseHttpStatusCodeRules (Some s)) = rules_ranges (parseHttpStatusCodeRules (Some t))"
    by (auto simp: accepts_def intro: canonical_unique)
  with accepted [OF assms(1)] accepted [OF assms(2)] show ?l by (simp add: accepts_def)
qed

text \<open>The text \<open>" 429 , 505,500-504"\<close> with a full-width comma for its second separator.\<close>

definition sample_rules_wide :: units where
  "sample_rules_wide = [32, 52, 50, 57, 32, 44, 32, 53, 48, 53, 65292, 53, 48, 48, 45, 53, 48, 52]"

lemma sample_rules_wide_ok: "rules_ok (parseHttpStatusCodeRules (Some sample_rules_wide))"
  by code_simp

theorem normalized_iff_same_codes_witness:
  "rules_normalized (parseHttpStatusCodeRules (Some sample_rules)) =
      rules_normalized (parseHttpStatusCodeRules (Some sample_rules_wide))
    \<longleftrightarrow> (\<Union>x \<in> set (segments_of (trim_by space_unit sample_rules)). token_codes x) =
       (\<Union>x \<in> set (segments_of (trim_by space_unit sample_rules_wide)). token_codes x)"
  by (rule normalized_iff_same_codes) (simp_all add: sample_rules_value sample_rules_wide_ok)

text \<open>
  Rejected rules.  The parser rejects a text exactly when one of its segments is not a
  code or a range; it then reports precisely those segments, in order, keeps the
  trimmed text as it is and yields no range at all.
\<close>

theorem parse_rules_rejects:
  "(\<not> rules_ok (parseHttpStatusCodeRules (Some s)) \<longleftrightarrow>
      (\<exists>t \<in> set (segments_of (trim_by space_unit s)). parseToken t = None))
    \<and> rules_invalidTokens (parseHttpStatusCodeRules (Some s)) =
        filter (\<lambda>t. parseToken t = None) (segments_of (trim_by space_unit s))
    \<and> (rules_ok (parseHttpStatusCodeRules (Some s))
        \<or> rules_ranges (parseHttpStatusCodeRules (Some s)) = []
          \<and> rules_normalized (parseHttpStatusCodeRules (Some s)) = trim_by space_unit s)"
proof (cases rule: parse_rules_cases [of s])
  case empty
  show ?thesis unfolding empty(2,3) rules_of_empty by simp
next
  case invalid
  then show ?thesis unfolding invalid(3) by simp
next
  case (valid rs)
  then show ?thesis unfolding valid(4) by (auto simp: filter_empty_conv)
qed

text \<open>
  Extra range parts are dropped.  A token with two valid bounds and any further
  \<open>-\<close> separated parts is accepted as the range of its first two parts; what follows the
  second bound is neither checked nor reported.
\<close>

theorem parseToken_ignores_extra_parts:
  assumes "valid_range (StatusCodeRange a b)" and "\<forall>u \<in> set rest. \<not> space_unit u"
  shows "parseToken (show_units a @ [hyphen] @ show_units b @ [hyphen] @ rest) = Some (StatusCodeRange a b)"
proof -
  let ?t = "show_units a @ [hyphen] @ show_units b @ [hyphen] @ rest"
  have clean: "\<not> space_unit u" if "u \<in> set ?t" for u
    using that assms(2) by (auto simp: isDigit_not dest: isDigit_show) (auto simp: hyphen_def space_unit_def)
  have "trim_by space_unit ?t = ?t" "filter (\<lambda>u. \<not> space_unit u) ?t = ?t"
    using clean by (auto intro!: trim_by_no_space simp: filter_id_conv)
  moreover have "split_on hyphen ?t = show_units a # show_units b # split_on hyphen rest"
    by (simp add: split_on_append)
  ultimately show ?thesis
    using assms(1) by (simp add: parseToken_def Let_def valid_range_def)
qed

theorem parseToken_ignores_extra_parts_witness:
  "parseToken (show_units 200 @ [hyphen] @ show_units 299 @ [hyphen] @ [120, 121]) = Some (StatusCodeRange 200 299)"
  by (rule parseToken_ignores_extra_parts) (auto simp: valid_range_def isValidCode_def space_unit_def)

end
