(* ===== verification/Playground_Types.thy ===== *)
theory Playground_Types
  imports Prelude
begin

text \<open>
  The data model of the chat playground: the types of
  \<open>web/src/features/playground/types.ts\<close> and the constants of \<open>constants.ts\<close>.  An optional
  field is an \<open>option\<close>, \<open>None\<close> for \<open>undefined\<close>; \<open>errorCode?: string | null\<close> has two
  layers, \<open>Some None\<close> for \<open>null\<close>.
\<close>

section \<open>Messages\<close>

datatype MessageRole = User | Assistant | System

datatype MessageStatus = Loading | Streaming | Complete | Error

datatype PlaygroundMessageLayoutMode = Alternating | LeftAligned

record MessageVersion =
  version_id :: string
  version_content :: string

datatype PluginEventPayload =
    Interim string
  | ToolCall (call_plugin: string) (call_tool: string) (call_args: "string option")
      (call_durationMs: "number option")

record PluginEvent =
  event_payload :: PluginEventPayload
  event_id :: string

record Source =
  source_href :: string
  source_title :: string

record Reasoning =
  reason_content :: string
  reason_duration :: number
  reason_startedAt :: "number option"
  reason_completedAt :: "number option"
  reason_durationMs :: "number option"

record Message =
  msg_key :: string
  msg_from :: MessageRole
  msg_versions :: "MessageVersion list"
  msg_createdAt :: "number option"
  msg_startedAt :: "number option"
  msg_completedAt :: "number option"
  msg_durationMs :: "number option"
  msg_sources :: "Source list option"
  msg_reasoning :: "Reasoning option"
  msg_isReasoningStreaming :: "bool option"
  msg_isReasoningComplete :: "bool option"
  msg_isContentComplete :: "bool option"
  msg_pluginEvents :: "PluginEvent list option"
  msg_status :: "MessageStatus option"
  msg_errorCode :: "string option option"

section \<open>Requests and responses\<close>

datatype ContentPartType = TextPart | ImageUrlPart

record ContentPart =
  part_type :: ContentPartType
  part_text :: "string option"
  part_image_url :: "string option"

datatype MessageContent = PlainText string | Parts "ContentPart list"

record ChatCompletionMessage =
  ccm_role :: MessageRole
  ccm_content :: MessageContent

record ChatCompletionRequest =
  req_model :: string
  req_group :: "string option"
  req_messages :: "ChatCompletionMessage list"
  req_stream :: bool
  req_temperature :: "number option"
  req_top_p :: "number option"
  req_max_tokens :: "number option"
  req_frequency_penalty :: "number option"
  req_presence_penalty :: "number option"
  req_seed :: "number option"

text \<open>The part of a completion response the playground reads; every level may be absent.\<close>

record ResponseMessage =
  rm_content :: "string option"
  rm_reasoning_content :: "string option"

record ChatCompletionChoice =
  choice_message :: "ResponseMessage option"

record ChatCompletionResponse =
  resp_choices :: "ChatCompletionChoice list option"

section \<open>Configuration\<close>

record PlaygroundConfig =
  cfg_model :: string
  cfg_group :: string
  cfg_temperature :: number
  cfg_top_p :: number
  cfg_max_tokens :: number
  cfg_frequency_penalty :: number
  cfg_presence_penalty :: number
  cfg_seed :: "number option"
  cfg_stream :: bool

record ParameterEnabled =
  en_temperature :: bool
  en_top_p :: bool
  en_max_tokens :: bool
  en_frequency_penalty :: bool
  en_presence_penalty :: bool
  en_seed :: bool

record ModelOption =
  model_label :: string
  model_value :: string

record GroupOption =
  group_label :: string
  group_value :: string
  group_ratio :: number
  group_desc :: "string option"

section \<open>Constants\<close>

definition DEFAULT_GROUP :: string where
  "DEFAULT_GROUP = ''default''"

definition SHOW_PLAYGROUND_GROUP_SELECTOR :: bool where
  "SHOW_PLAYGROUND_GROUP_SELECTOR = False"

definition DEFAULT_CONFIG :: PlaygroundConfig where
  "DEFAULT_CONFIG =
     \<lparr>cfg_model = ''gpt-4o'', cfg_group = DEFAULT_GROUP, cfg_temperature = 7 / 10, cfg_top_p = 1,
      cfg_max_tokens = 4096, cfg_frequency_penalty = 0, cfg_presence_penalty = 0, cfg_seed = None,
      cfg_stream = True\<rparr>"

definition DEFAULT_PARAMETER_ENABLED :: ParameterEnabled where
  "DEFAULT_PARAMETER_ENABLED =
     \<lparr>en_temperature = True, en_top_p = True, en_max_tokens = False, en_frequency_penalty = True,
      en_presence_penalty = True, en_seed = False\<rparr>"

definition STORAGE_KEYS_CONFIG :: string where
  "STORAGE_KEYS_CONFIG = ''playground_config''"

definition STORAGE_KEYS_MESSAGES :: string where
  "STORAGE_KEYS_MESSAGES = ''playground_messages''"

definition STORAGE_KEYS_PARAMETER_ENABLED :: string where
  "STORAGE_KEYS_PARAMETER_ENABLED = ''playground_parameter_enabled''"

definition API_REQUEST_ERROR :: string where
  "API_REQUEST_ERROR = ''Request error occurred''"

definition NETWORK_ERROR :: string where
  "NETWORK_ERROR = ''Network connection failed or server not responding''"

definition PARSE_ERROR :: string where
  "PARSE_ERROR = ''Error parsing response data''"

definition STREAM_START_ERROR :: string where
  "STREAM_START_ERROR = ''Error establishing connection''"

definition CONNECTION_CLOSED :: string where
  "CONNECTION_CLOSED = ''Connection closed''"

definition INTERRUPTED :: string where
  "INTERRUPTED = ''Generation was interrupted''"

definition ERROR_MESSAGES :: "string list" where
  "ERROR_MESSAGES =
     [API_REQUEST_ERROR, NETWORK_ERROR, PARSE_ERROR, STREAM_START_ERROR, CONNECTION_CLOSED, INTERRUPTED]"

end
