(* ===== verification/Js_Text.thy ===== *)
theory Js_Text
  imports Prelude
begin

text \<open>
  Texts that hold values: numbers as \<open>Number.parseFloat\<close> and \<open>Number\<close> read them, string
  literals as \<open>JSON.stringify\<close> writes them, \<open>String(v)\<close>, the steps of an anchored regular
  expression, and the splitting of an expression at an operator outside parentheses that the
  pricing editors use.
\<close>

section \<open>Numbers\<close>

text \<open>
  \<open>Number.parseFloat\<close> reads a text up to the first character that cannot continue a decimal
  literal; \<open>NaN\<close> is \<open>None\<close>, an infinity has its sign.
\<close>

datatype js_number = Finite number | Infinite bool

definition char_digit :: "char \<Rightarrow> nat option" where
  "char_digit c = (let n = (of_char c :: nat) in if 48 \<le> n \<and> n \<le> 57 then Some (n - 48) else None)"

definition is_digit :: "char \<Rightarrow> bool" where
  "is_digit c \<longleftrightarrow> char_digit c \<noteq> None"

definition digits_value :: "string \<Rightarrow> nat" where
  "digits_value s = undigits (map (\<lambda>c. the (char_digit c)) s)"

text \<open>The exponent part, \<open>0\<close> when what follows \<open>e\<close> is not an integer.\<close>

definition exponent_of :: "string \<Rightarrow> int" where
  "exponent_of s =
     (case s of
        c # r \<Rightarrow>
          if c = CHR ''e'' \<or> c = CHR ''E'' then
            (let (sg, r') = (case r of
                   d # r'' \<Rightarrow> if d = CHR ''-'' then (- 1, r'') else if d = CHR ''+'' then (1, r'') else (1, r)
                 | [] \<Rightarrow> (1, r))
             in sg * int (digits_value (takeWhile is_digit r')))
          else 0
      | [] \<Rightarrow> 0)"

definition scale10 :: "number \<Rightarrow> int \<Rightarrow> number" where
  "scale10 x e = (if e < 0 then x / 10 ^ nat (- e) else x * 10 ^ nat e)"

definition parse_unsigned :: "string \<Rightarrow> js_number option" where
  "parse_unsigned s =
     (if prefix ''Infinity'' s then Some (Infinite True)
      else let whole = takeWhile is_digit s;
               r = dropWhile is_digit s;
               frac = (case r of c # r' \<Rightarrow> if c = CHR ''.'' then takeWhile is_digit r' else [] | [] \<Rightarrow> []);
               r2 = (case r of c # r' \<Rightarrow> if c = CHR ''.'' then dropWhile is_digit r' else r | [] \<Rightarrow> r)
           in if whole = [] \<and> frac = [] then None
              else Some (Finite (scale10
                (of_nat (digits_value whole) + of_nat (digits_value frac) / 10 ^ length frac) (exponent_of r2))))"

definition parseFloat :: "string \<Rightarrow> js_number option" where
  "parseFloat s =
     (case dropWhile space_char s of
        c # r \<Rightarrow>
          if c = CHR ''-'' then
            map_option (\<lambda>v. case v of Finite x \<Rightarrow> Finite (- x) | Infinite b \<Rightarrow> Infinite (\<not> b)) (parse_unsigned r)
          else if c = CHR ''+'' then parse_unsigned r
          else parse_unsigned (c # r)
      | [] \<Rightarrow> None)"

section \<open>Values as text\<close>

text \<open>\<open>String(v)\<close>; an array joins its elements, \<open>null\<close> as the empty string.\<close>

fun js_String :: "(number \<Rightarrow> string) \<Rightarrow> json \<Rightarrow> string" where
  "js_String show_number JNull = ''null''"
| "js_String show_number (JBool b) = (if b then ''true'' else ''false'')"
| "js_String show_number (JNum n) = show_number n"
| "js_String show_number (JStr s) = s"
| "js_String show_number (JArr xs) = join '','' (map (\<lambda>x. if x = JNull then [] else js_String show_number x) xs)"
| "js_String show_number (JObj kvs) = ''[object Object]''"

text \<open>\<open>JSON.stringify(s)\<close> on a string.\<close>

definition hex_lower :: "nat \<Rightarrow> char" where
  "hex_lower n = char_of (if n < 10 then 48 + n else 87 + n)"

definition json_escape :: "char \<Rightarrow> string" where
  "json_escape c = (let n = of_char c :: nat in
     if n = 34 then [char_of (92 :: nat), char_of (34 :: nat)]
     else if n = 92 then [char_of (92 :: nat), char_of (92 :: nat)]
     else if n = 8 then char_of (92 :: nat) # ''b''
     else if n = 9 then char_of (92 :: nat) # ''t''
     else if n = 10 then char_of (92 :: nat) # ''n''
     else if n = 12 then char_of (92 :: nat) # ''f''
     else if n = 13 then char_of (92 :: nat) # ''r''
     else if n < 32 then char_of (92 :: nat) # ''u00'' @ [hex_lower (n div 16), hex_lower (n mod 16)]
     else [c])"

definition quote_char :: char where "quote_char = char_of (34 :: nat)"

definition json_quote :: "string \<Rightarrow> string" where
  "json_quote s = quote_char # concat (map json_escape s) @ [quote_char]"

section \<open>Steps of an anchored match\<close>

text \<open>A literal; a class repeated at least once, where what follows in the pattern is outside the
  class, so that giving characters back never helps; a class repeated any number of times.\<close>

definition eat :: "string \<Rightarrow> string \<Rightarrow> string option" where
  "eat p s = (if prefix p s then Some (drop (length p) s) else None)"

definition span1 :: "(char \<Rightarrow> bool) \<Rightarrow> string \<Rightarrow> (string \<times> string) option" where
  "span1 P s = (if takeWhile P s = [] then None else Some (takeWhile P s, dropWhile P s))"

text \<open>The characters of \<open>[\d.eE+-]\<close>.\<close>

definition number_char :: "char \<Rightarrow> bool" where
  "number_char c \<longleftrightarrow> is_digit c \<or> c \<in> set ''.eE+-''"

text \<open>\<open>"([^"]+)"\<close>, the captured text and the rest.\<close>

definition plain_quoted :: "string \<Rightarrow> (string \<times> string) option" where
  "plain_quoted s = (case eat [quote_char] s of
     None \<Rightarrow> None
   | Some r \<Rightarrow> (case span1 (\<lambda>c. c \<noteq> quote_char) r of
       None \<Rightarrow> None
     | Some (w, r) \<Rightarrow> map_option (Pair w) (eat [quote_char] r)))"

text \<open>\<open>"(?:[^"\\]|\\.)*"\<close>, quotes included; the dot does not match a line terminator.\<close>

definition line_end :: "char \<Rightarrow> bool" where
  "line_end c \<longleftrightarrow> of_char c \<in> {10 :: nat, 13}"

fun quoted_body :: "string \<Rightarrow> (string \<times> string) option" where
  "quoted_body [] = None"
| "quoted_body (c # s) =
    (if c = quote_char then Some ([c], s)
     else if c = char_of (92 :: nat) then
       (case s of
          d # s' \<Rightarrow> if line_end d then None else map_option (\<lambda>(w, r). (c # d # w, r)) (quoted_body s')
        | [] \<Rightarrow> None)
     else map_option (\<lambda>(w, r). (c # w, r)) (quoted_body s))"

definition quoted_literal :: "string \<Rightarrow> (string \<times> string) option" where
  "quoted_literal s = (case eat [quote_char] s of
     None \<Rightarrow> None
   | Some r \<Rightarrow> map_option (\<lambda>(w, r). (quote_char # w, r)) (quoted_body r))"

text \<open>\<open>/^-?(?:\d+\.?\d*|\.\d+)(?:[eE][+-]?\d+)?$/\<close>.\<close>

definition all_digits :: "string \<Rightarrow> bool" where
  "all_digits s \<longleftrightarrow> list_all is_digit s"

definition mantissa_ok :: "string \<Rightarrow> bool" where
  "mantissa_ok s = (case dropWhile is_digit s of
     [] \<Rightarrow> s \<noteq> []
   | c # r \<Rightarrow> c = CHR ''.'' \<and> all_digits r \<and> (takeWhile is_digit s \<noteq> [] \<or> r \<noteq> []))"

definition exponent_ok :: "string \<Rightarrow> bool" where
  "exponent_ok s = (case s of
     [] \<Rightarrow> True
   | _ # r \<Rightarrow> (let r' = (case r of c # r'' \<Rightarrow> if c \<in> set ''+-'' then r'' else r | [] \<Rightarrow> r) in r' \<noteq> [] \<and> all_digits r'))"

definition isNumericLiteral :: "string \<Rightarrow> bool" where
  "isNumericLiteral text =
    (let s = (case text of c # r \<Rightarrow> if c = CHR ''-'' then r else text | [] \<Rightarrow> text);
         no_e = (\<lambda>c. c \<notin> set ''eE'')
     in mantissa_ok (takeWhile no_e s) \<and> exponent_ok (dropWhile no_e s))"

section \<open>Splitting outside parentheses\<close>

text \<open>The loop over the characters: \<open>depth\<close> counts the open parentheses, quotes are not considered.\<close>

definition paren_step :: "char \<Rightarrow> int" where
  "paren_step c = (if c = CHR ''('' then 1 else if c = CHR '')'' then - 1 else 0)"

function split_top :: "string \<Rightarrow> int \<Rightarrow> string \<Rightarrow> string \<Rightarrow> string list" where
  "split_top sep depth cur [] = [cur]"
| "split_top sep depth cur (c # s) =
    (let depth' = depth + paren_step c in
     if depth' = 0 \<and> prefix sep (c # s) then cur # split_top sep depth' [] (drop (length sep - 1) s)
     else split_top sep depth' (cur @ [c]) s)"
  by pat_completeness auto
termination by (relation "measure (\<lambda>(sep, depth, cur, s). length s)") auto

definition split_parts :: "string \<Rightarrow> string \<Rightarrow> string list" where
  "split_parts sep s = filter (\<lambda>p. p \<noteq> []) (map trim (split_top sep 0 [] s))"

section \<open>Lemmas\<close>

lemma eat_append [simp]: "eat p (p @ s) = Some s"
  by (simp add: eat_def)

lemma eat_Some_iff: "eat p s = Some r \<longleftrightarrow> s = p @ r"
  by (auto simp: eat_def prefix_def)

lemma eat_Nil [simp]: "eat [] s = Some s"
  by (simp add: eat_def)

lemma eat_Cons [simp]: "eat (c # p) (d # s) = (if c = d then eat p s else None)"
  by (simp add: eat_def)

lemma eat_Cons_Nil [simp]: "eat (c # p) [] = None"
  by (simp add: eat_def)

lemma span1_append:
  assumes "list_all P w" "w \<noteq> []" "r = [] \<or> \<not> P (hd r)"
  shows "span1 P (w @ r) = Some (w, r)"
proof -
  have "takeWhile P (w @ r) = w" "dropWhile P (w @ r) = r"
    using assms(1,3) by (cases r; simp add: list_all_iff takeWhile_append2 dropWhile_append2)+
  with assms(2) show ?thesis by (simp add: span1_def)
qed

lemma plain_quoted_append:
  assumes "w \<noteq> []" "quote_char \<notin> set w"
  shows "plain_quoted (quote_char # w @ quote_char # r) = Some (w, r)"
proof -
  have "list_all (\<lambda>c. c \<noteq> quote_char) w" using assms(2) by (auto simp: list_all_iff)
  from span1_append [OF this assms(1), of "quote_char # r"] show ?thesis by (simp add: plain_quoted_def)
qed

text \<open>Characters that a string literal holds as they are and that mean nothing to an expression.\<close>

definition plain_char :: "char \<Rightarrow> bool" where
  "plain_char c \<longleftrightarrow> 32 \<le> (of_char c :: nat) \<and> of_char c \<noteq> (34 :: nat) \<and> of_char c \<noteq> (92 :: nat) \<and> c \<notin> set ''()&|''"

definition plain_text :: "string \<Rightarrow> bool" where
  "plain_text w \<longleftrightarrow> list_all plain_char w"

lemma not_plain_char: "\<not> plain_char quote_char" "\<not> plain_char (char_of (92 :: nat))"
  by (simp_all add: plain_char_def quote_char_def)

lemma plain_text_no_quote: "plain_text w \<Longrightarrow> quote_char \<notin> set w"
  using not_plain_char by (auto simp: plain_text_def list_all_iff)

lemma json_escape_plain: "plain_char c \<Longrightarrow> json_escape c = [c]"
  by (simp add: plain_char_def json_escape_def Let_def)

lemma json_quote_plain: "plain_text w \<Longrightarrow> json_quote w = quote_char # w @ [quote_char]"
proof -
  assume "plain_text w"
  then have "concat (map json_escape w) = w"
    by (induction w) (auto simp: plain_text_def json_escape_plain)
  then show ?thesis by (simp add: json_quote_def)
qed

lemma quoted_body_plain:
  assumes "plain_text w"
  shows "quoted_body (w @ quote_char # r) = Some (w @ [quote_char], r)"
  using assms
proof (induction w)
  case (Cons c w)
  then have "plain_char c" by (simp add: plain_text_def)
  then have "c \<noteq> quote_char" "c \<noteq> char_of (92 :: nat)" using not_plain_char by blast+
  with Cons show ?case by (simp add: plain_text_def)
qed simp

lemma quoted_literal_plain:
  "plain_text w \<Longrightarrow> quoted_literal (quote_char # w @ quote_char # r) = Some (quote_char # w @ [quote_char], r)"
  by (simp add: quoted_literal_def quoted_body_plain)

text \<open>A numeric literal is made of the characters of \<open>[\d.eE+-]\<close>.\<close>

lemma all_digits_simps [simp]: "all_digits []" "all_digits (c # s) \<longleftrightarrow> is_digit c \<and> all_digits s"
  by (simp_all add: all_digits_def)

lemma digit_number_char: "is_digit c \<Longrightarrow> number_char c"
  by (simp add: number_char_def)

lemma all_digits_number_char: "all_digits s \<Longrightarrow> list_all number_char s"
  by (auto simp: all_digits_def list_all_iff number_char_def)

lemma takeWhile_dropWhile_all: "list_all P (takeWhile P s)"
  by (auto simp: list_all_iff dest: set_takeWhileD)

lemma mantissa_number_char: "mantissa_ok s \<Longrightarrow> list_all number_char s \<and> s \<noteq> []"
proof -
  assume ok: "mantissa_ok s"
  have digits: "list_all number_char (takeWhile is_digit s)"
    by (auto simp: list_all_iff number_char_def dest: set_takeWhileD)
  have "list_all number_char (dropWhile is_digit s)"
  proof (cases "dropWhile is_digit s")
    case Nil
    show ?thesis unfolding Nil by simp
  next
    case (Cons c r)
    with ok show ?thesis by (simp add: mantissa_ok_def number_char_def all_digits_number_char)
  qed
  then have "list_all number_char s"
    using digits list_all_append [of number_char "takeWhile is_digit s" "dropWhile is_digit s"] by simp
  moreover have "s \<noteq> []" using ok by (auto simp: mantissa_ok_def)
  ultimately show ?thesis by simp
qed

lemma exponent_number_char: "exponent_ok (dropWhile (\<lambda>c. c \<notin> set ''eE'') s) \<Longrightarrow> list_all number_char (dropWhile (\<lambda>c. c \<notin> set ''eE'') s)"
proof (cases "dropWhile (\<lambda>c. c \<notin> set ''eE'') s")
  case (Cons e r)
  then have "\<not> (e \<notin> set ''eE'')"
    by (metis (no_types, lifting) dropWhile_eq_Cons_conv)
  moreover assume "exponent_ok (dropWhile (\<lambda>c. c \<notin> set ''eE'') s)"
  ultimately show ?thesis
    using Cons by (cases r) (auto simp: exponent_ok_def number_char_def Let_def all_digits_number_char split: if_splits)
next
  case Nil
  show ?thesis unfolding Nil by simp
qed

lemma numeric_number_char:
  assumes "isNumericLiteral v"
  shows "list_all number_char v" and "v \<noteq> []"
proof -
  define s where "s = (case v of c # r \<Rightarrow> if c = CHR ''-'' then r else v | [] \<Rightarrow> v)"
  let ?no_e = "\<lambda>c. c \<notin> set ''eE''"
  have ok: "mantissa_ok (takeWhile ?no_e s)" "exponent_ok (dropWhile ?no_e s)"
    using assms by (simp_all add: isNumericLiteral_def Let_def s_def)
  have "list_all number_char (takeWhile ?no_e s @ dropWhile ?no_e s)" "s \<noteq> []"
    using mantissa_number_char [OF ok(1)] exponent_number_char [OF ok(2)] by (auto simp only: list_all_append, auto)
  then have "list_all number_char s" by simp
  with \<open>s \<noteq> []\<close> show "list_all number_char v" "v \<noteq> []"
    by (auto simp: s_def number_char_def split: list.splits if_splits)
qed

lemma number_char_plain: "number_char c \<Longrightarrow> \<not> space_char c \<and> c \<notin> set ''()&| ''"
  by (auto simp: number_char_def is_digit_def char_digit_def Let_def space_char_def space_unit_def split: if_splits)

section \<open>Splitting a joined text\<close>

definition paren_sum :: "string \<Rightarrow> int" where
  "paren_sum s = sum_list (map paren_step s)"

lemma paren_sum_simps [simp]:
  "paren_sum [] = 0" "paren_sum (c # s) = paren_step c + paren_sum s" "paren_sum (s @ t) = paren_sum s + paren_sum t"
  by (simp_all add: paren_sum_def)

text \<open>No separator that begins with \<open>a\<close> and \<open>b\<close> starts outside parentheses in a text that is read
  from a given depth and followed by the character \<open>n\<close>.\<close>

fun no_sep :: "char \<Rightarrow> char \<Rightarrow> int \<Rightarrow> string \<Rightarrow> char \<Rightarrow> bool" where
  "no_sep a b d [] n = True"
| "no_sep a b d (c # s) n =
    ((d + paren_step c = 0 \<and> c = a \<longrightarrow> hd (s @ [n]) \<noteq> b) \<and> no_sep a b (d + paren_step c) s n)"

lemma no_sep_append:
  "no_sep a b d (s @ t) n \<longleftrightarrow> no_sep a b d s (hd (t @ [n])) \<and> no_sep a b (d + paren_sum s) t n"
proof (induction s arbitrary: d)
  case (Cons c s)
  have "hd ((s @ t) @ [n]) = hd (s @ [hd (t @ [n])])" by (cases s) simp_all
  with Cons show ?case by (auto simp: algebra_simps)
qed simp

lemma split_top_text:
  assumes "no_sep a b d s (hd rest)" "rest \<noteq> []"
  shows "split_top (a # b # sep) d cur (s @ rest) = split_top (a # b # sep) (d + paren_sum s) (cur @ s) rest"
  using assms(1)
proof (induction s arbitrary: d cur)
  case (Cons c s)
  have "\<not> (d + paren_step c = 0 \<and> prefix (a # b # sep) (c # s @ rest))"
  proof
    assume *: "d + paren_step c = 0 \<and> prefix (a # b # sep) (c # s @ rest)"
    then have "c = a" "hd (s @ rest) = b" by (cases "s @ rest"; simp)+
    moreover have "hd (s @ rest) = hd (s @ [hd rest])" using assms(2) by (cases s) simp_all
    ultimately show False using Cons.prems * by simp
  qed
  then have "split_top (a # b # sep) d cur ((c # s) @ rest) = split_top (a # b # sep) (d + paren_step c) (cur @ [c]) (s @ rest)"
    by (simp only: append_Cons split_top.simps Let_def if_False)
  with Cons show ?case by (simp only: no_sep.simps) (simp add: add.assoc)
qed simp

lemma split_top_last:
  assumes "no_sep a b d s n" "n \<noteq> b"
  shows "split_top (a # b # sep) d cur s = [cur @ s]"
  using assms(1)
proof (induction s arbitrary: d cur)
  case (Cons c s)
  have "\<not> (d + paren_step c = 0 \<and> prefix (a # b # sep) (c # s))"
    using Cons.prems by (cases s) auto
  then have "split_top (a # b # sep) d cur (c # s) = split_top (a # b # sep) (d + paren_step c) (cur @ [c]) s"
    by (simp only: split_top.simps Let_def if_False)
  with Cons show ?case by (simp only: no_sep.simps) simp
qed simp

lemma split_top_sep:
  assumes "paren_step a = 0"
  shows "split_top (a # b # sep) 0 cur ((a # b # sep) @ s) = cur # split_top (a # b # sep) 0 [] s"
  using assms by (simp add: Let_def)

definition sep_free :: "char \<Rightarrow> char \<Rightarrow> string \<Rightarrow> bool" where
  "sep_free a b s \<longleftrightarrow> no_sep a b 0 s a \<and> paren_sum s = 0"

lemma split_top_join:
  assumes "paren_step a = 0" "a \<noteq> b" "ps \<noteq> []" "list_all (sep_free a b) ps"
  shows "split_top (a # b # sep) 0 [] (join (a # b # sep) ps) = ps"
  using assms(3,4)
proof (induction ps rule: induct_list012)
  case (2 p)
  then show ?case using split_top_last [of a b 0 p a sep "[]"] assms(2) by (simp add: sep_free_def)
next
  case (3 p q ps)
  let ?rest = "join (a # b # sep) (q # ps)"
  have p: "no_sep a b 0 p (hd ((a # b # sep) @ ?rest))" "paren_sum p = 0"
    using 3(4) by (simp_all add: sep_free_def)
  have "split_top (a # b # sep) 0 [] (join (a # b # sep) (p # q # ps)) =
      split_top (a # b # sep) 0 [] (p @ (a # b # sep) @ ?rest)"
    by simp
  also have "\<dots> = split_top (a # b # sep) 0 p ((a # b # sep) @ ?rest)"
    using split_top_text [OF p(1), of sep "[]"] p(2) by simp
  also have "\<dots> = p # split_top (a # b # sep) 0 [] ?rest"
    by (rule split_top_sep [OF assms(1)])
  also have "\<dots> = p # q # ps"
    using 3 by simp
  finally show ?case .
qed simp

definition trimmed :: "string \<Rightarrow> bool" where
  "trimmed s \<longleftrightarrow> s \<noteq> [] \<and> \<not> space_char (hd s) \<and> \<not> space_char (last s)"

lemma trim_trimmed: "trimmed s \<Longrightarrow> trim s = s"
  by (simp add: trimmed_def trim_def trim_by_id)

lemma dropWhile_same_length: "length (dropWhile P xs) = length xs \<Longrightarrow> xs \<noteq> [] \<Longrightarrow> \<not> P (hd xs)"
  by (cases xs) (auto simp: le_imp_less_Suc length_dropWhile_le split: if_splits dest: arg_cong [of _ _ "\<lambda>n. n \<le> length (tl xs)"])

lemma trim_fixed_trimmed:
  assumes "trim v = v" "v \<noteq> []"
  shows "trimmed v"
proof -
  let ?u = "dropWhile space_char v"
  have v: "dropWhile space_char (rev ?u) = rev v"
    using assms(1) by (simp add: trim_def trim_by_def rev_swap)
  have "length (dropWhile space_char (rev ?u)) \<le> length ?u" "length ?u \<le> length v"
    using length_dropWhile_le [of space_char "rev ?u"] by (simp_all add: length_dropWhile_le)
  with v have "length ?u = length v" by simp
  then have hd: "\<not> space_char (hd v)" by (rule dropWhile_same_length [OF _ assms(2)])
  then have "?u = v" using assms(2) by (cases v) simp_all
  with v have "length (dropWhile space_char (rev v)) = length (rev v)" by simp
  then have "\<not> space_char (hd (rev v))" by (rule dropWhile_same_length) (use assms(2) in simp)
  with hd assms(2) show ?thesis by (simp add: trimmed_def hd_rev)
qed

lemma split_parts_join:
  assumes "paren_step a = 0" "a \<noteq> b" "list_all (sep_free a b) ps" "list_all trimmed ps" "ps \<noteq> []"
  shows "split_parts (a # b # sep) (join (a # b # sep) ps) = ps"
proof -
  have "map trim ps = ps" using assms(4) by (auto simp: list_all_iff trim_trimmed intro: map_idI)
  moreover have "filter (\<lambda>p. p \<noteq> []) ps = ps"
    using assms(4) by (auto simp: list_all_iff trimmed_def filter_id_conv)
  ultimately show ?thesis
    using split_top_join [OF assms(1,2,5,3)] by (simp add: split_parts_def)
qed

lemma trimmed_append: "u \<noteq> [] \<Longrightarrow> v \<noteq> [] \<Longrightarrow> \<not> space_char (hd u) \<Longrightarrow> \<not> space_char (last v) \<Longrightarrow> trimmed (u @ v)"
  by (simp add: trimmed_def)

lemma trimmed_join:
  assumes "ps \<noteq> []" "list_all trimmed ps"
  shows "trimmed (join sep ps)"
  using assms
proof (induction ps rule: induct_list012)
  case (3 p q ps)
  then have "trimmed (join sep (q # ps))" "trimmed p" by simp_all
  then show ?case by (auto simp: trimmed_def)
qed simp_all

text \<open>A text whose parentheses are balanced: no prefix closes more than it opens.\<close>

definition balanced :: "string \<Rightarrow> bool" where
  "balanced s \<longleftrightarrow> paren_sum s = 0 \<and> (\<forall>i \<le> length s. paren_sum (take i s) \<ge> 0)"

lemma balanced_append: "balanced s \<Longrightarrow> balanced t \<Longrightarrow> balanced (s @ t)"
proof -
  assume s: "balanced s" and t: "balanced t"
  have "paren_sum (take i (s @ t)) \<ge> 0" if "i \<le> length (s @ t)" for i
    using s t that by (cases "i \<le> length s") (auto simp: balanced_def)
  with s t show ?thesis by (simp add: balanced_def)
qed

lemma balanced_flat: "list_all (\<lambda>c. paren_step c = 0) s \<Longrightarrow> balanced s"
proof -
  have "paren_sum t = 0" if "list_all (\<lambda>c. paren_step c = 0) t" for t
    using that by (induction t) simp_all
  moreover assume "list_all (\<lambda>c. paren_step c = 0) s"
  moreover from this have "list_all (\<lambda>c. paren_step c = 0) (take i s)" for i
    by (auto simp: list_all_iff dest: in_set_takeD)
  ultimately show ?thesis by (simp add: balanced_def)
qed

lemma balanced_join: "balanced sep \<Longrightarrow> list_all balanced ps \<Longrightarrow> balanced (join sep ps)"
  by (induction ps rule: induct_list012) (simp_all add: balanced_append balanced_def [of "[]"])

lemma no_sep_inside:
  assumes "\<forall>i \<le> length s. d + paren_sum (take i s) > 0"
  shows "no_sep a b d s n"
  using assms
proof (induction s arbitrary: d)
  case (Cons c s)
  have "d + paren_step c > 0" using Cons.prems by (auto dest: spec [of _ 1])
  moreover have "d + paren_step c + paren_sum (take i s) > 0" if "i \<le> length s" for i
    using Cons.prems that by (auto dest: spec [of _ "Suc i"] simp: add.assoc)
  ultimately show ?case using Cons.IH [of "d + paren_step c"] by simp
qed simp

text \<open>Nothing splits a text in parentheses.\<close>

lemma sep_free_parens:
  assumes "balanced s" "a \<noteq> CHR ''(''" "a \<noteq> CHR '')''"
  shows "sep_free a b (''('' @ s @ '')'')"
proof -
  have "no_sep a b 1 s (CHR '')'')"
    using assms(1) by (intro no_sep_inside) (auto simp: balanced_def)
  with assms show ?thesis
    by (auto simp: sep_free_def no_sep_append paren_step_def balanced_def)
qed

lemma balanced_parens: "balanced s \<Longrightarrow> balanced (''('' @ s @ '')'')"
proof -
  assume s: "balanced s"
  have "paren_sum (take i (''('' @ s @ '')'')) \<ge> 0" if "i \<le> length (''('' @ s @ '')'')" for i
  proof (cases i)
    case (Suc j)
    have "paren_sum (take j s) \<ge> 0" using s by (cases "j \<le> length s") (auto simp: balanced_def)
    moreover have "paren_sum (take (j - length s) '')'') \<ge> - 1"
      by (cases "j - length s") (simp_all add: paren_step_def)
    ultimately show ?thesis using Suc by (simp add: paren_step_def)
  qed simp
  with s show ?thesis by (simp add: balanced_def paren_step_def)
qed

lemma no_sep_absent: "b \<notin> set s \<Longrightarrow> n \<noteq> b \<Longrightarrow> no_sep a b d s n"
proof (induction s arbitrary: d)
  case (Cons c s)
  then show ?case by (cases s) auto
qed simp

text \<open>A text without \<open>&\<close> whose parentheses are balanced.\<close>

definition calm :: "string \<Rightarrow> bool" where
  "calm s \<longleftrightarrow> CHR ''&'' \<notin> set s \<and> balanced s"

lemma calm_append [intro]: "calm s \<Longrightarrow> calm t \<Longrightarrow> calm (s @ t)"
  by (simp add: calm_def balanced_append)

lemma calm_flat: "list_all (\<lambda>c. c \<notin> set ''()&'') s \<Longrightarrow> calm s"
proof -
  assume s: "list_all (\<lambda>c. c \<notin> set ''()&'') s"
  then have "balanced s" by (intro balanced_flat) (auto simp: list_all_iff paren_step_def)
  with s show ?thesis by (auto simp: calm_def list_all_iff)
qed

lemma calm_plain: "plain_text w \<Longrightarrow> calm w"
  by (rule calm_flat) (auto simp: plain_text_def plain_char_def list_all_iff)

lemma calm_numeric: "isNumericLiteral v \<Longrightarrow> calm v"
  using numeric_number_char(1) [of v] by (intro calm_flat) (auto simp: list_all_iff dest!: number_char_plain)

lemma calm_parens: "calm s \<Longrightarrow> calm (''('' @ s @ '')'')"
  unfolding calm_def using balanced_parens [of s] by auto

lemma calm_sep_free: "calm s \<Longrightarrow> sep_free (CHR '' '') (CHR ''&'') s"
  by (simp add: calm_def sep_free_def no_sep_absent balanced_def)

end
