(* ===== verification/Playground_Options.thy ===== *)
theory Playground_Options
  imports Playground_Types Js_Text
begin

text \<open>
  The playground's controls: \<open>lib/options/playground-option-utils.ts\<close>,
  \<open>lib/input/input-control-utils.ts\<close>, \<open>lib/parameters/playground-parameters.ts\<close> and the
  effects of \<open>hooks/use-playground-options.ts\<close> that follow the account's group.
\<close>

section \<open>playground-option-utils.ts\<close>

definition getModelFallback :: "ModelOption list \<Rightarrow> string \<Rightarrow> string option" where
  "getModelFallback models currentModel =
     (if list_ex (\<lambda>model. model_value model = currentModel) models \<or> models = [] then None
      else Some (model_value (hd models)))"

definition shouldClearModelForGroup :: "ModelOption list \<Rightarrow> string \<Rightarrow> bool" where
  "shouldClearModelForGroup models currentModel \<longleftrightarrow>
     currentModel \<noteq> [] \<and> \<not> list_ex (\<lambda>model. model_value model = currentModel) models"

definition getGroupFallback :: "GroupOption list \<Rightarrow> string \<Rightarrow> string option" where
  "getGroupFallback groups currentGroup =
     (if list_ex (\<lambda>group. group_value group = currentGroup) groups \<or> groups = [] then None
      else Some (nullish (map_option group_value (find (\<lambda>group. group_value group = ''default'') groups))
        (group_value (hd groups))))"

section \<open>input-control-utils.ts\<close>

record InputControlState =
  ics_canSubmit :: bool
  ics_isSelectorDisabled :: bool
  ics_shouldShowStop :: bool

definition getSubmittableInputText :: "string option \<Rightarrow> bool \<Rightarrow> string option" where
  "getSubmittableInputText body disabled =
     (if disabled \<or> \<not> truthy_string (map_option trim body) then None else body)"

definition getInputControlState ::
    "bool \<Rightarrow> GroupOption list \<Rightarrow> bool \<Rightarrow> bool \<Rightarrow> bool \<Rightarrow> ModelOption list \<Rightarrow> bool \<Rightarrow> string \<Rightarrow> InputControlState" where
  "getInputControlState disabled groups hasStopHandler isGenerating isModelLoading models showGroupList body =
     \<lparr>ics_canSubmit = (\<not> disabled \<and> length models > 0 \<and> length (trim body) > 0),
      ics_isSelectorDisabled = (disabled \<or> isModelLoading \<or> (showGroupList \<and> groups = [])),
      ics_shouldShowStop = (isGenerating \<and> hasStopHandler)\<rparr>"

section \<open>playground-parameters.ts\<close>

datatype PlaygroundParameterKey =
  Temperature | TopP | FrequencyPenalty | PresencePenalty | MaxTokens | Seed

record PlaygroundParameterControl =
  ctl_key :: PlaygroundParameterKey
  ctl_isSlider :: bool
  ctl_min :: number
  ctl_max :: number
  ctl_step :: number

definition PLAYGROUND_PARAMETER_CONTROLS :: "PlaygroundParameterControl list" where
  "PLAYGROUND_PARAMETER_CONTROLS =
     [\<lparr>ctl_key = Temperature, ctl_isSlider = True, ctl_min = 1 / 10, ctl_max = 1, ctl_step = 1 / 10\<rparr>,
      \<lparr>ctl_key = TopP, ctl_isSlider = True, ctl_min = 1 / 10, ctl_max = 1, ctl_step = 1 / 10\<rparr>,
      \<lparr>ctl_key = FrequencyPenalty, ctl_isSlider = True, ctl_min = - 2, ctl_max = 2, ctl_step = 1 / 10\<rparr>,
      \<lparr>ctl_key = PresencePenalty, ctl_isSlider = True, ctl_min = - 2, ctl_max = 2, ctl_step = 1 / 10\<rparr>,
      \<lparr>ctl_key = MaxTokens, ctl_isSlider = False, ctl_min = 0, ctl_max = 200000, ctl_step = 1\<rparr>,
      \<lparr>ctl_key = Seed, ctl_isSlider = False, ctl_min = 0, ctl_max = 2147483647, ctl_step = 1\<rparr>]"

text \<open>The input of a number field: a number, or a text for \<open>Number.parseFloat\<close>.\<close>

datatype ParameterInput = NumberInput "js_number option" | TextInput string

text \<open>\<open>Math.min(max, Math.max(min, x))\<close>.\<close>

fun clamp :: "number \<Rightarrow> number \<Rightarrow> js_number \<Rightarrow> number" where
  "clamp lo hi (Finite x) = min hi (max lo x)"
| "clamp lo hi (Infinite positive) = (if positive then hi else min hi lo)"

definition math_trunc :: "number \<Rightarrow> number" where
  "math_trunc x = of_int (if x < 0 then \<lceil>x\<rceil> else \<lfloor>x\<rfloor>)"

text \<open>\<open>Number(x.toFixed(1))\<close>: the nearest tenth, a tie away from zero.\<close>

definition to_fixed1 :: "number \<Rightarrow> number" where
  "to_fixed1 x = (if x < 0 then - (of_int \<lfloor>- x * 10 + 1 / 2\<rfloor> / 10) else of_int \<lfloor>x * 10 + 1 / 2\<rfloor> / 10)"

definition parameter_default :: "PlaygroundParameterKey \<Rightarrow> number option" where
  "parameter_default key = (if key = Seed then None else Some 0)"

definition normalizeParameterNumberValue :: "PlaygroundParameterKey \<Rightarrow> ParameterInput \<Rightarrow> number option" where
  "normalizeParameterNumberValue key value =
     (if value = TextInput [] then parameter_default key
      else
        let control = find (\<lambda>item. ctl_key item = key) PLAYGROUND_PARAMETER_CONTROLS;
            parsed = (case value of NumberInput n \<Rightarrow> n | TextInput s \<Rightarrow> parseFloat s)
        in case (control, parsed) of
             (Some c, Some n) \<Rightarrow>
               let clamped = clamp (ctl_min c) (ctl_max c) n
               in if ctl_step c \<ge> 1 then Some (math_trunc clamped) else Some (to_fixed1 clamped)
           | _ \<Rightarrow> parameter_default key)"

section \<open>use-playground-options.ts\<close>

definition queryGroup_of :: "string option \<Rightarrow> string \<Rightarrow> string" where
  "queryGroup_of userGroup currentGroup =
     (if SHOW_PLAYGROUND_GROUP_SELECTOR then currentGroup
      else or_string userGroup DEFAULT_GROUP)"

text \<open>The effect that runs when the models of a group arrive.\<close>

definition models_effect :: "ModelOption list \<Rightarrow> PlaygroundConfig \<Rightarrow> PlaygroundConfig" where
  "models_effect modelsData config =
     (case getModelFallback modelsData (cfg_model config) of
        Some fallback \<Rightarrow> if fallback \<noteq> [] then config\<lparr>cfg_model := fallback\<rparr>
          else if shouldClearModelForGroup modelsData (cfg_model config) then config\<lparr>cfg_model := []\<rparr> else config
      | None \<Rightarrow> if shouldClearModelForGroup modelsData (cfg_model config) then config\<lparr>cfg_model := []\<rparr> else config)"

definition group_effect :: "string option \<Rightarrow> PlaygroundConfig \<Rightarrow> PlaygroundConfig" where
  "group_effect userGroup config =
     (if SHOW_PLAYGROUND_GROUP_SELECTOR \<or> queryGroup_of userGroup (cfg_group config) = cfg_group config then config
      else config\<lparr>cfg_group := queryGroup_of userGroup (cfg_group config)\<rparr>)"

section \<open>Properties\<close>

lemma find_control:
  obtains c where "find (\<lambda>item. ctl_key item = key) PLAYGROUND_PARAMETER_CONTROLS = Some c"
    "c \<in> set PLAYGROUND_PARAMETER_CONTROLS" "ctl_key c = key"
  by (cases key) (auto simp: PLAYGROUND_PARAMETER_CONTROLS_def)

lemma clamp_bounds: "lo \<le> hi \<Longrightarrow> lo \<le> clamp lo hi n \<and> clamp lo hi n \<le> hi"
  by (cases n) auto

lemma math_trunc_bounds:
  assumes "of_int a \<le> x" "x \<le> of_int b" "0 \<le> a"
  shows "of_int a \<le> math_trunc x \<and> math_trunc x \<le> of_int b \<and> math_trunc x \<in> \<int>"
  using assms by (auto simp: math_trunc_def le_floor_iff floor_le_iff)

lemma to_fixed1_bounds:
  assumes "of_int a / 10 \<le> x" "x \<le> of_int b / 10"
  shows "of_int a / 10 \<le> to_fixed1 x \<and> to_fixed1 x \<le> of_int b / 10"
proof (cases "x < 0")
  case True
  have "- b \<le> \<lfloor>- x * 10 + 1 / 2\<rfloor>" "\<lfloor>- x * 10 + 1 / 2\<rfloor> \<le> - a"
    using assms by (auto simp: le_floor_iff floor_le_iff field_simps)
  then have "(of_int (- b) :: rat) \<le> of_int \<lfloor>- x * 10 + 1 / 2\<rfloor>" "(of_int \<lfloor>- x * 10 + 1 / 2\<rfloor> :: rat) \<le> of_int (- a)"
    by (simp_all only: of_int_le_iff)
  with True show ?thesis by (simp add: to_fixed1_def)
next
  case False
  have "a \<le> \<lfloor>x * 10 + 1 / 2\<rfloor>" "\<lfloor>x * 10 + 1 / 2\<rfloor> \<le> b"
    using assms by (auto simp: le_floor_iff floor_le_iff field_simps)
  then have "(of_int a :: rat) \<le> of_int \<lfloor>x * 10 + 1 / 2\<rfloor>" "(of_int \<lfloor>x * 10 + 1 / 2\<rfloor> :: rat) \<le> of_int b"
    by (simp_all only: of_int_le_iff)
  with False show ?thesis by (simp add: to_fixed1_def)
qed

definition on_grid :: "PlaygroundParameterControl \<Rightarrow> number \<Rightarrow> bool" where
  "on_grid c v \<longleftrightarrow> ctl_min c \<le> v \<and> v \<le> ctl_max c \<and> of_int \<lfloor>v / ctl_step c\<rfloor> * ctl_step c = v"

lemma control_range:
  assumes "c \<in> set PLAYGROUND_PARAMETER_CONTROLS"
  shows "ctl_min c \<le> ctl_max c" "ctl_step c \<ge> 1 \<Longrightarrow> ctl_step c = 1" "\<not> ctl_step c \<ge> 1 \<Longrightarrow> ctl_step c = 1 / 10"
    "\<exists>a b. ctl_min c = of_int a / 10 \<and> ctl_max c = of_int b / 10"
    "ctl_step c \<ge> 1 \<Longrightarrow> \<exists>a b. 0 \<le> a \<and> ctl_min c = of_int a \<and> ctl_max c = of_int b"
proof -
  show "ctl_min c \<le> ctl_max c" "ctl_step c \<ge> 1 \<Longrightarrow> ctl_step c = 1" "\<not> ctl_step c \<ge> 1 \<Longrightarrow> ctl_step c = 1 / 10"
    using assms by (auto simp: PLAYGROUND_PARAMETER_CONTROLS_def)
  have "\<exists>a b. (1 / 10 :: rat) = of_int a / 10 \<and> (1 :: rat) = of_int b / 10"
    "\<exists>a b. (- 2 :: rat) = of_int a / 10 \<and> (2 :: rat) = of_int b / 10"
    "\<exists>a b. (0 :: rat) = of_int a / 10 \<and> (200000 :: rat) = of_int b / 10"
    "\<exists>a b. (0 :: rat) = of_int a / 10 \<and> (2147483647 :: rat) = of_int b / 10"
    by (rule exI [of _ 1], rule exI [of _ 10], simp) (rule exI [of _ "- 20"], rule exI [of _ 20], simp,
      rule exI [of _ 0], rule exI [of _ 2000000], simp, rule exI [of _ 0], rule exI [of _ 21474836470], simp)
  then show "\<exists>a b. ctl_min c = of_int a / 10 \<and> ctl_max c = of_int b / 10"
    using assms by (auto simp: PLAYGROUND_PARAMETER_CONTROLS_def)
  have "\<exists>a b. (0 :: int) \<le> a \<and> (0 :: rat) = of_int a \<and> (200000 :: rat) = of_int b"
    "\<exists>a b. (0 :: int) \<le> a \<and> (0 :: rat) = of_int a \<and> (2147483647 :: rat) = of_int b"
    by (rule exI [of _ 0], rule exI [of _ 200000], simp) (rule exI [of _ 0], rule exI [of _ 2147483647], simp)
  then show "ctl_step c \<ge> 1 \<Longrightarrow> \<exists>a b. 0 \<le> a \<and> ctl_min c = of_int a \<and> ctl_max c = of_int b"
    using assms by (auto simp: PLAYGROUND_PARAMETER_CONTROLS_def)
qed

lemma to_fixed1_grid: "of_int \<lfloor>to_fixed1 x / (1 / 10)\<rfloor> * (1 / 10) = to_fixed1 x"
proof -
  have "of_int \<lfloor>- (of_int k :: rat)\<rfloor> = - (of_int k :: rat)" for k
    by (metis floor_of_int of_int_minus)
  then show ?thesis by (simp add: to_fixed1_def)
qed

lemma to_fixed1_id:
  assumes "of_int k * (1 / 10) = v"
  shows "to_fixed1 v = v"
proof -
  have "\<lfloor>of_int j + (1 / 2 :: rat)\<rfloor> = j" for j :: int
    by (simp add: floor_eq_iff)
  then have half: "of_int \<lfloor>of_int j + (1 / 2 :: rat)\<rfloor> = (of_int j :: rat)" for j :: int
    by metis
  have v: "v * 10 = of_int k" "- v * 10 = of_int (- k)" using assms by auto
  show ?thesis unfolding to_fixed1_def v half using v by auto
qed

lemma math_trunc_id: "of_int k = v \<Longrightarrow> math_trunc v = v"
  by (auto simp: math_trunc_def)

lemma normalize_number:
  assumes "find (\<lambda>item. ctl_key item = key) PLAYGROUND_PARAMETER_CONTROLS = Some c"
  shows "normalizeParameterNumberValue key (NumberInput (Some n)) =
    Some (if ctl_step c \<ge> 1 then math_trunc (clamp (ctl_min c) (ctl_max c) n) else to_fixed1 (clamp (ctl_min c) (ctl_max c) n))"
  using assms by (simp add: normalizeParameterNumberValue_def Let_def)

lemma rounded_on_grid:
  assumes "c \<in> set PLAYGROUND_PARAMETER_CONTROLS"
  shows "on_grid c (if ctl_step c \<ge> 1 then math_trunc (clamp (ctl_min c) (ctl_max c) n)
    else to_fixed1 (clamp (ctl_min c) (ctl_max c) n))"
proof (cases "ctl_step c \<ge> 1")
  case True
  from control_range(5) [OF assms True] obtain a b where ab: "0 \<le> a" "ctl_min c = of_int a" "ctl_max c = of_int b" by blast
  have "of_int a \<le> clamp (ctl_min c) (ctl_max c) n" "clamp (ctl_min c) (ctl_max c) n \<le> of_int b"
    using clamp_bounds [OF control_range(1) [OF assms]] ab by auto
  from math_trunc_bounds [OF this ab(1)] True control_range(2) [OF assms True] ab show ?thesis
    by (auto simp: on_grid_def elim: Ints_cases)
next
  case False
  from control_range(4) [OF assms] obtain a b where ab: "ctl_min c = of_int a / 10" "ctl_max c = of_int b / 10" by blast
  have "of_int a / 10 \<le> clamp (ctl_min c) (ctl_max c) n" "clamp (ctl_min c) (ctl_max c) n \<le> of_int b / 10"
    using clamp_bounds [OF control_range(1) [OF assms], of n] ab by metis+
  from to_fixed1_bounds [OF this]
  have "ctl_min c \<le> to_fixed1 (clamp (ctl_min c) (ctl_max c) n)" "to_fixed1 (clamp (ctl_min c) (ctl_max c) n) \<le> ctl_max c"
    by (simp_all only: ab)
  then show ?thesis
    unfolding if_not_P [OF False]
    unfolding on_grid_def control_range(3) [OF assms False] by (intro conjI to_fixed1_grid)
qed

lemma on_grid_fixed:
  assumes "c \<in> set PLAYGROUND_PARAMETER_CONTROLS" "on_grid c v"
  shows "(if ctl_step c \<ge> 1 then math_trunc (clamp (ctl_min c) (ctl_max c) (Finite v))
    else to_fixed1 (clamp (ctl_min c) (ctl_max c) (Finite v))) = v"
proof -
  have "clamp (ctl_min c) (ctl_max c) (Finite v) = v" using assms(2) by (simp add: on_grid_def)
  moreover have "math_trunc v = v" if "ctl_step c \<ge> 1"
    using assms(2) control_range(2) [OF assms(1) that] math_trunc_id [of "\<lfloor>v\<rfloor>" v] by (simp add: on_grid_def)
  moreover have "to_fixed1 v = v" if "\<not> ctl_step c \<ge> 1"
    using assms(2) unfolding on_grid_def control_range(3) [OF assms(1) that] by (blast intro: to_fixed1_id)
  ultimately show ?thesis by simp
qed

definition parameter_fixed_point :: "PlaygroundParameterKey \<Rightarrow> number \<Rightarrow> bool" where
  "parameter_fixed_point key v \<longleftrightarrow>
     list_ex (\<lambda>c. ctl_key c = key \<and> on_grid c v) PLAYGROUND_PARAMETER_CONTROLS \<and>
     normalizeParameterNumberValue key (NumberInput (Some (Finite v))) = Some v"

text \<open>
  Whatever is typed into a parameter's field, the stored value is the field's default
  (unset for the seed, 0 otherwise) when the input holds no number, and in every other case
  a number within the control's bounds, on its step grid, that normalising again leaves as
  it is.
\<close>

theorem parameter_in_range:
  "case (case value of NumberInput n \<Rightarrow> n | TextInput s \<Rightarrow> parseFloat s) of
     None \<Rightarrow> normalizeParameterNumberValue key value = parameter_default key
   | Some _ \<Rightarrow> (\<exists>v. normalizeParameterNumberValue key value = Some v \<and> parameter_fixed_point key v)"
proof -
  obtain c where c: "find (\<lambda>item. ctl_key item = key) PLAYGROUND_PARAMETER_CONTROLS = Some c"
    "c \<in> set PLAYGROUND_PARAMETER_CONTROLS" "ctl_key c = key" by (rule find_control)
  have fp: "parameter_fixed_point key v" if "on_grid c v" for v
    using that c on_grid_fixed [OF c(2) that]
    by (auto simp: parameter_fixed_point_def list_ex_iff normalize_number [OF c(1)])
  show ?thesis
  proof (cases "case value of NumberInput n \<Rightarrow> n | TextInput s \<Rightarrow> parseFloat s")
    case None
    then show ?thesis using c(1) by (simp add: normalizeParameterNumberValue_def Let_def)
  next
    case (Some n)
    then have "value \<noteq> TextInput []" by (auto simp: parseFloat_def)
    with Some have "normalizeParameterNumberValue key value = normalizeParameterNumberValue key (NumberInput (Some n))"
      by (simp add: normalizeParameterNumberValue_def)
    with fp [OF rounded_on_grid [OF c(2), of n]] Some show ?thesis
      by (simp add: normalize_number [OF c(1)])
  qed
qed

lemma getModelFallback_cases:
  "getModelFallback models m = (if m \<in> model_value ` set models \<or> models = [] then None else Some (model_value (hd models)))"
  by (auto simp: getModelFallback_def list_ex_iff)

text \<open>
  Once the models of a group have arrived, the selected model is one of them or none is
  selected; a model that is offered stays selected, and running the effect again changes
  nothing.
\<close>

theorem models_effect_selects:
  "(cfg_model (models_effect models config) \<in> {[]} \<union> model_value ` set models) \<and>
   (if cfg_model config \<in> model_value ` set models then models_effect models config = config
    else cfg_model (models_effect models config) = (case models of [] \<Rightarrow> [] | m # _ \<Rightarrow> model_value m)) \<and>
   models_effect models (models_effect models config) = models_effect models config"
proof -
  have clear: "shouldClearModelForGroup ms m \<longleftrightarrow> m \<noteq> [] \<and> m \<notin> model_value ` set ms" for ms m
    by (auto simp: shouldClearModelForGroup_def list_ex_iff)
  show ?thesis
    by (cases models) (auto simp: models_effect_def getModelFallback_cases clear)
qed

end
