(* ===== verification/Message_Core.thy ===== *)
theory Message_Core
  imports Playground_Types
begin

text \<open>
  One message at a time: \<open>lib/message/message-utils.ts\<close>, \<open>message-timing-utils.ts\<close>,
  \<open>message-reasoning-utils.ts\<close> (the \<open><think>\<close> parser) and the render-state helpers
  \<open>message-content-utils.ts\<close>, \<open>message-action-utils.ts\<close>, \<open>message-editor-utils.ts\<close>,
  \<open>message-error-utils.ts\<close> and \<open>message-layout-utils.ts\<close>.  The clock (\<open>Date.now()\<close>) and
  the generated ids (\<open>nanoid()\<close>) are arguments, one per call the source makes.
\<close>

section \<open>message-utils.ts\<close>

definition createMessageVersion :: "string \<Rightarrow> string \<Rightarrow> MessageVersion" where
  "createMessageVersion vid content = \<lparr>version_id = vid, version_content = content\<rparr>"

definition getCurrentVersion :: "Message \<Rightarrow> MessageVersion" where
  "getCurrentVersion message =
     (case msg_versions message of
        [] \<Rightarrow> \<lparr>version_id = ''default'', version_content = []\<rparr>
      | v # _ \<Rightarrow> v)"

definition getMessageContent :: "Message \<Rightarrow> string" where
  "getMessageContent message = version_content (getCurrentVersion message)"

definition hasMessageContent :: "Message \<Rightarrow> bool" where
  "hasMessageContent message \<longleftrightarrow> trim (getMessageContent message) \<noteq> []"

definition updateCurrentVersionContent :: "Message \<Rightarrow> string \<Rightarrow> Message" where
  "updateCurrentVersionContent message content =
     message\<lparr>msg_versions := [(getCurrentVersion message)\<lparr>version_content := content\<rparr>]\<rparr>"

definition empty_message :: "string \<Rightarrow> MessageRole \<Rightarrow> Message" where
  "empty_message k r =
     \<lparr>msg_key = k, msg_from = r, msg_versions = [], msg_createdAt = None, msg_startedAt = None,
      msg_completedAt = None, msg_durationMs = None, msg_sources = None, msg_reasoning = None,
      msg_isReasoningStreaming = None, msg_isReasoningComplete = None, msg_isContentComplete = None,
      msg_pluginEvents = None, msg_status = None, msg_errorCode = None\<rparr>"

text \<open>\<open>key\<close> and \<open>version_id\<close> are the two \<open>nanoid()\<close> results.\<close>

definition createUserMessage :: "string \<Rightarrow> string \<Rightarrow> string \<Rightarrow> number \<Rightarrow> Message" where
  "createUserMessage key vid content createdAt =
     (empty_message key User)\<lparr>msg_versions := [createMessageVersion vid content],
        msg_createdAt := Some createdAt\<rparr>"

definition createLoadingAssistantMessage :: "string \<Rightarrow> string \<Rightarrow> number \<Rightarrow> Message" where
  "createLoadingAssistantMessage key vid startedAt =
     (empty_message key Assistant)\<lparr>msg_versions := [createMessageVersion vid []],
        msg_createdAt := Some startedAt, msg_startedAt := Some startedAt, msg_reasoning := None,
        msg_isReasoningComplete := Some False, msg_isContentComplete := Some False,
        msg_isReasoningStreaming := Some False, msg_status := Some Loading\<rparr>"

definition buildMessageContent :: "string \<Rightarrow> string list \<Rightarrow> MessageContent" where
  "buildMessageContent body imageUrls =
     (let validImages = filter (\<lambda>url. trim url \<noteq> []) imageUrls in
      if validImages = [] then PlainText body
      else Parts (\<lparr>part_type = TextPart, part_text = Some body, part_image_url = None\<rparr> #
        map (\<lambda>url. \<lparr>part_type = ImageUrlPart, part_text = None, part_image_url = Some (trim url)\<rparr>)
          validImages))"

fun getTextContent :: "MessageContent \<Rightarrow> string" where
  "getTextContent (PlainText s) = s"
| "getTextContent (Parts ps) =
     (case find (\<lambda>p. part_type p = TextPart) ps of
        None \<Rightarrow> []
      | Some p \<Rightarrow> or_string (part_text p) [])"

definition formatMessageForAPI :: "Message \<Rightarrow> ChatCompletionMessage" where
  "formatMessageForAPI message =
     \<lparr>ccm_role = msg_from message, ccm_content = PlainText (version_content (getCurrentVersion message))\<rparr>"

definition isValidMessage :: "Message \<Rightarrow> bool" where
  "isValidMessage message \<longleftrightarrow>
     msg_versions message \<noteq> [] \<and> \<not> (msg_from message = Assistant \<and> \<not> hasMessageContent message)"

section \<open>message-timing-utils.ts\<close>

definition completeAssistantTiming :: "Message \<Rightarrow> number \<Rightarrow> Message" where
  "completeAssistantTiming message completedAt =
     (if msg_from message \<noteq> Assistant then message
      else let startedAt = nullish (msg_startedAt message) (nullish (msg_createdAt message) completedAt)
           in message\<lparr>msg_startedAt := Some startedAt, msg_completedAt := Some completedAt,
                msg_durationMs := Some (max 0 (completedAt - startedAt))\<rparr>)"

definition startReasoningTiming :: "Message \<Rightarrow> number \<Rightarrow> Reasoning" where
  "startReasoningTiming message startedAt =
     (case msg_reasoning message of
        None \<Rightarrow> \<lparr>reason_content = [], reason_duration = 0, reason_startedAt = Some startedAt,
                 reason_completedAt = None, reason_durationMs = None\<rparr>
      | Some r \<Rightarrow> \<lparr>reason_content = reason_content r, reason_duration = reason_duration r,
                   reason_startedAt = Some (nullish (reason_startedAt r) startedAt),
                   reason_completedAt = reason_completedAt r,
                   reason_durationMs = reason_durationMs r\<rparr>)"

definition completeReasoningTiming :: "Message \<Rightarrow> number \<Rightarrow> Message" where
  "completeReasoningTiming message completedAt =
     (case msg_reasoning message of
        None \<Rightarrow> message
      | Some r \<Rightarrow>
          if reason_durationMs r \<noteq> None then message
          else let startedAt = nullish (reason_startedAt r) (nullish (msg_startedAt message) completedAt);
                   durationMs = max 0 (completedAt - startedAt)
               in message\<lparr>msg_reasoning := Some (r\<lparr>reason_startedAt := Some startedAt,
                    reason_completedAt := Some completedAt, reason_durationMs := Some durationMs,
                    reason_duration := of_int \<lceil>durationMs / 1000\<rceil>\<rparr>)\<rparr>)"

section \<open>message-reasoning-utils.ts\<close>

record ParsedThinkTags =
  think_visibleContent :: string
  think_reasoning :: string
  think_hasUnclosedTag :: bool

definition open_tag :: string where "open_tag = ''<think>''"
definition close_tag :: string where "close_tag = ''</think>''"

text \<open>
  The \<open>while (true)\<close> loop.  \<open>rest\<close> is the content from \<open>currentPos\<close> on, so every
  \<open>indexOf\<close> with a start position is \<open>index_of\<close> on it; the result is the visible parts,
  the reasoning parts and the unclosed flag.  Each round consumes a closing tag.
\<close>

function think_loop :: "string \<Rightarrow> string list \<Rightarrow> string list \<Rightarrow> string list \<times> string list \<times> bool" where
  "think_loop rest visibleParts reasoningParts =
     (case index_of open_tag rest of
        None \<Rightarrow> (if rest \<noteq> [] then visibleParts @ [rest] else visibleParts, reasoningParts, False)
      | Some openPos \<Rightarrow>
          let visibleParts' = (if openPos > 0 then visibleParts @ [take openPos rest] else visibleParts);
              body = drop (openPos + 7) rest
          in case index_of close_tag body of
               None \<Rightarrow> (visibleParts', reasoningParts @ [body], True)
             | Some closePos \<Rightarrow>
                 think_loop (drop (closePos + 8) body) visibleParts' (reasoningParts @ [take closePos body]))"
  by pat_completeness auto
termination
proof (relation "measure (\<lambda>(rest, _, _). length rest)", goal_cases)
  case (2 rest vis reas openPos vis' body closePos)
  have "closePos + 8 \<le> length body"
    using index_of_Some_bound [OF 2(4)] by (simp add: close_tag_def)
  then show ?case by (simp add: 2(3))
qed simp

declare think_loop.simps [simp del]

definition parseThinkTags :: "string \<Rightarrow> ParsedThinkTags" where
  "parseThinkTags content =
     (if \<not> contains content open_tag then
        \<lparr>think_visibleContent = content, think_reasoning = [], think_hasUnclosedTag = False\<rparr>
      else case think_loop content [] [] of
        (visibleParts, reasoningParts, hasUnclosedTag) \<Rightarrow>
          \<lparr>think_visibleContent = trim (concat visibleParts),
           think_reasoning = trim (join [CHR 0x0A, CHR 0x0A] reasoningParts),
           think_hasUnclosedTag = hasUnclosedTag\<rparr>)"

section \<open>Render state\<close>

record MessageContentState =
  mcs_displayContent :: string
  mcs_hasSources :: bool
  mcs_isAssistant :: bool
  mcs_showLoader :: bool
  mcs_showMessageContent :: bool
  mcs_sources :: "Source list"
  mcs_hasReasoning :: bool
  mcs_reasoningContent :: "string option"

definition shouldShowMessageLoader :: "Message \<Rightarrow> bool \<Rightarrow> string \<Rightarrow> bool" where
  "shouldShowMessageLoader message isAssistant versionContent \<longleftrightarrow>
     isAssistant \<and> msg_isReasoningStreaming message \<noteq> Some True \<and>
     (msg_status message = Some Loading \<or> (msg_status message = Some Streaming \<and> versionContent = []))"

definition shouldShowMessageContent :: "Message \<Rightarrow> string \<Rightarrow> bool" where
  "shouldShowMessageContent message versionContent \<longleftrightarrow>
     (msg_from message = User \<or> msg_isReasoningStreaming message \<noteq> Some True) \<and> length versionContent > 0"

definition getDisplayContent :: "Message \<Rightarrow> string \<Rightarrow> string" where
  "getDisplayContent message versionContent =
     (if msg_from message \<noteq> Assistant then versionContent
      else if \<not> contains versionContent open_tag then versionContent
      else think_visibleContent (parseThinkTags versionContent))"

definition getMessageContentState :: "Message \<Rightarrow> string \<Rightarrow> MessageContentState" where
  "getMessageContentState message versionContent =
     (let isAssistant = (msg_from message = Assistant);
          sources = nullish (msg_sources message) [];
          reasoningContent = (if isAssistant then map_option reason_content (msg_reasoning message) else None)
      in \<lparr>mcs_displayContent = getDisplayContent message versionContent,
          mcs_hasSources = (length sources > 0),
          mcs_isAssistant = isAssistant,
          mcs_showLoader = shouldShowMessageLoader message isAssistant versionContent,
          mcs_showMessageContent = shouldShowMessageContent message versionContent,
          mcs_sources = sources,
          mcs_hasReasoning = truthy_string reasoningContent,
          mcs_reasoningContent = (if truthy_string reasoningContent then reasoningContent else None)\<rparr>)"

record MessageActionState =
  mas_content :: string
  mas_hasContent :: bool
  mas_isAssistant :: bool
  mas_isLoading :: bool
  mas_isUser :: bool

definition getMessageActionState :: "Message \<Rightarrow> MessageActionState" where
  "getMessageActionState message =
     \<lparr>mas_content = getMessageContent message, mas_hasContent = hasMessageContent message,
      mas_isAssistant = (msg_from message = Assistant),
      mas_isLoading = (msg_status message = Some Loading \<or> msg_status message = Some Streaming),
      mas_isUser = (msg_from message = User)\<rparr>"

record MessageEditorState =
  mes_canSave :: bool
  mes_hasChanged :: bool
  mes_showSaveAndSubmit :: bool

definition getMessageEditorState :: "Message \<Rightarrow> string \<Rightarrow> string \<Rightarrow> MessageEditorState" where
  "getMessageEditorState message editText originalText =
     (let hasText = length (trim editText) > 0; hasChanged = (editText \<noteq> originalText)
      in \<lparr>mes_canSave = (hasText \<and> hasChanged), mes_hasChanged = hasChanged,
          mes_showSaveAndSubmit = (msg_from message = User)\<rparr>)"

datatype MessageErrorKind = GenericError | ModelPriceError

record MessageErrorState =
  err_content :: string
  err_kind :: MessageErrorKind
  err_showSettingsLink :: bool

definition isAdminRole :: "number option \<Rightarrow> bool" where
  "isAdminRole role \<longleftrightarrow> (case role of None \<Rightarrow> False | Some r \<Rightarrow> r \<ge> 10)"

definition isErrorMessage :: "Message \<Rightarrow> bool" where
  "isErrorMessage message \<longleftrightarrow> msg_status message = Some Error"

definition getMessageErrorState :: "Message \<Rightarrow> bool \<Rightarrow> MessageErrorState option" where
  "getMessageErrorState message isAdmin =
     (if \<not> isErrorMessage message then None
      else let content = or_string (Some (getMessageContent message)) ''An unknown error occurred'';
               isModelPriceError = (msg_errorCode message = Some (Some ''model_price_error''))
           in Some \<lparr>err_content = content,
                    err_kind = (if isModelPriceError then ModelPriceError else GenericError),
                    err_showSettingsLink = (isModelPriceError \<and> isAdmin)\<rparr>)"

datatype MessageAlignment = AlignLeft | AlignRight

definition getMessageAlignment :: "Message \<Rightarrow> PlaygroundMessageLayoutMode \<Rightarrow> MessageAlignment" where
  "getMessageAlignment message layoutMode =
     (if layoutMode = LeftAligned then AlignLeft
      else if msg_from message = User then AlignRight else AlignLeft)"

section \<open>What the operations leave alone\<close>

lemma getMessageContent_update [simp]:
  "getMessageContent (updateCurrentVersionContent m c) = c"
  by (simp add: getMessageContent_def getCurrentVersion_def updateCurrentVersionContent_def)

lemma updateCurrentVersionContent_frame [frame, simp]:
  "msg_key (updateCurrentVersionContent m c) = msg_key m"
  "msg_from (updateCurrentVersionContent m c) = msg_from m"
  "msg_createdAt (updateCurrentVersionContent m c) = msg_createdAt m"
  "msg_startedAt (updateCurrentVersionContent m c) = msg_startedAt m"
  "msg_completedAt (updateCurrentVersionContent m c) = msg_completedAt m"
  "msg_durationMs (updateCurrentVersionContent m c) = msg_durationMs m"
  "msg_sources (updateCurrentVersionContent m c) = msg_sources m"
  "msg_reasoning (updateCurrentVersionContent m c) = msg_reasoning m"
  "msg_isReasoningStreaming (updateCurrentVersionContent m c) = msg_isReasoningStreaming m"
  "msg_pluginEvents (updateCurrentVersionContent m c) = msg_pluginEvents m"
  "msg_status (updateCurrentVersionContent m c) = msg_status m"
  "msg_errorCode (updateCurrentVersionContent m c) = msg_errorCode m"
  "msg_versions (updateCurrentVersionContent m c) \<noteq> []"
  by (simp_all add: updateCurrentVersionContent_def)

lemma getCurrentVersion_id [simp]:
  "version_id (getCurrentVersion (updateCurrentVersionContent m c)) = version_id (getCurrentVersion m)"
  by (simp add: getCurrentVersion_def updateCurrentVersionContent_def)

lemma updateCurrentVersionContent_twice [simp]:
  "updateCurrentVersionContent (updateCurrentVersionContent m c) d = updateCurrentVersionContent m d"
  by (simp add: updateCurrentVersionContent_def getCurrentVersion_def)

lemma completeAssistantTiming_frame [frame, simp]:
  "msg_key (completeAssistantTiming m t) = msg_key m"
  "msg_from (completeAssistantTiming m t) = msg_from m"
  "msg_versions (completeAssistantTiming m t) = msg_versions m"
  "msg_createdAt (completeAssistantTiming m t) = msg_createdAt m"
  "msg_sources (completeAssistantTiming m t) = msg_sources m"
  "msg_reasoning (completeAssistantTiming m t) = msg_reasoning m"
  "msg_isReasoningStreaming (completeAssistantTiming m t) = msg_isReasoningStreaming m"
  "msg_pluginEvents (completeAssistantTiming m t) = msg_pluginEvents m"
  "msg_status (completeAssistantTiming m t) = msg_status m"
  "msg_errorCode (completeAssistantTiming m t) = msg_errorCode m"
  by (simp_all add: completeAssistantTiming_def Let_def)

lemma completeReasoningTiming_frame [frame, simp]:
  "msg_key (completeReasoningTiming m t) = msg_key m"
  "msg_from (completeReasoningTiming m t) = msg_from m"
  "msg_versions (completeReasoningTiming m t) = msg_versions m"
  "msg_createdAt (completeReasoningTiming m t) = msg_createdAt m"
  "msg_startedAt (completeReasoningTiming m t) = msg_startedAt m"
  "msg_completedAt (completeReasoningTiming m t) = msg_completedAt m"
  "msg_durationMs (completeReasoningTiming m t) = msg_durationMs m"
  "msg_sources (completeReasoningTiming m t) = msg_sources m"
  "msg_isReasoningStreaming (completeReasoningTiming m t) = msg_isReasoningStreaming m"
  "msg_pluginEvents (completeReasoningTiming m t) = msg_pluginEvents m"
  "msg_status (completeReasoningTiming m t) = msg_status m"
  "msg_errorCode (completeReasoningTiming m t) = msg_errorCode m"
  by (simp_all add: completeReasoningTiming_def Let_def split: option.splits)

lemma completeReasoningTiming_content [simp]:
  "map_option reason_content (msg_reasoning (completeReasoningTiming m t)) =
     map_option reason_content (msg_reasoning m)"
  by (auto simp: completeReasoningTiming_def Let_def split: option.splits)

lemma startReasoningTiming_content [simp]:
  "reason_content (startReasoningTiming m t) =
     (case msg_reasoning m of None \<Rightarrow> [] | Some r \<Rightarrow> reason_content r)"
  by (simp add: startReasoningTiming_def split: option.splits)

lemma getMessageContent_versions:
  "msg_versions m = msg_versions m' \<Longrightarrow> getMessageContent m = getMessageContent m'"
  by (simp add: getMessageContent_def getCurrentVersion_def)

lemma getMessageContent_timing [simp]:
  "getMessageContent (completeAssistantTiming m t) = getMessageContent m"
  "getMessageContent (completeReasoningTiming m t) = getMessageContent m"
  by (auto intro: getMessageContent_versions)

section \<open>The think-tag parser\<close>

text \<open>
  The grammar the parser recognises: visible texts without an opening tag, each followed
  by a closed thought without a closing tag, and at the end either a visible text or a
  visible text and a thought still open.
\<close>

datatype think_end = ClosedEnd string | OpenEnd string string

fun render_end :: "think_end \<Rightarrow> string" where
  "render_end (ClosedEnd v) = v"
| "render_end (OpenEnd v t) = v @ open_tag @ t"

fun render_think :: "(string \<times> string) list \<Rightarrow> think_end \<Rightarrow> string" where
  "render_think [] e = render_end e"
| "render_think ((v, t) # ss) e = v @ open_tag @ t @ close_tag @ render_think ss e"

fun wf_end :: "think_end \<Rightarrow> bool" where
  "wf_end (ClosedEnd v) = (\<not> contains v open_tag)"
| "wf_end (OpenEnd v t) = (\<not> contains v open_tag \<and> \<not> contains t close_tag)"

definition wf_think :: "(string \<times> string) list \<Rightarrow> think_end \<Rightarrow> bool" where
  "wf_think ss e \<longleftrightarrow> (\<forall>(v, t) \<in> set ss. \<not> contains v open_tag \<and> \<not> contains t close_tag) \<and> wf_end e"

fun end_visible :: "think_end \<Rightarrow> string" where
  "end_visible (ClosedEnd v) = v"
| "end_visible (OpenEnd v t) = v"

fun end_thoughts :: "think_end \<Rightarrow> string list" where
  "end_thoughts (ClosedEnd v) = []"
| "end_thoughts (OpenEnd v t) = [t]"

fun end_open :: "think_end \<Rightarrow> bool" where
  "end_open (ClosedEnd v) = False"
| "end_open (OpenEnd v t) = True"

definition nonempty_part :: "string \<Rightarrow> string list" where
  "nonempty_part s = (if s = [] then [] else [s])"

lemma concat_nonempty_part [simp]: "concat (nonempty_part s) = s"
  by (simp add: nonempty_part_def)

lemma tags_unbordered [simp]:
  "open_tag \<noteq> []" "hd open_tag \<notin> set (tl open_tag)" "length open_tag = 7"
  "close_tag \<noteq> []" "hd close_tag \<notin> set (tl close_tag)" "length close_tag = 8"
  by (simp_all add: open_tag_def close_tag_def)

lemma think_loop_closed:
  assumes "\<not> contains v open_tag" "\<not> contains t close_tag"
  shows "think_loop (v @ open_tag @ t @ close_tag @ rest) vis reas =
    think_loop rest (vis @ nonempty_part v) (reas @ [t])"
  using index_of_first [OF assms(1), of "t @ close_tag @ rest"] index_of_first [OF assms(2), of rest]
  by (simp add: think_loop.simps [of "v @ _"] Let_def nonempty_part_def)

lemma think_loop_render:
  assumes "wf_think ss e"
  shows "\<exists>vs. think_loop (render_think ss e) vis reas =
      (vis @ vs, reas @ map snd ss @ end_thoughts e, end_open e)
    \<and> concat vs = concat (map fst ss) @ end_visible e"
  using assms
proof (induction ss arbitrary: vis reas)
  case Nil
  show ?case
  proof (cases e)
    case (ClosedEnd v)
    with Nil show ?thesis
      by (intro exI [of _ "nonempty_part v"])
        (auto simp: wf_think_def contains_def think_loop.simps [of v] nonempty_part_def)
  next
    case (OpenEnd v t)
    with Nil have "index_of open_tag (v @ open_tag @ t) = Some (length v)" "index_of close_tag t = None"
      by (auto simp: wf_think_def contains_def intro: index_of_first)
    with OpenEnd show ?thesis
      by (intro exI [of _ "nonempty_part v"])
        (simp add: think_loop.simps [of "v @ _"] Let_def nonempty_part_def)
  qed
next
  case (Cons s ss)
  obtain v t where s: "s = (v, t)" by (cases s)
  from Cons.prems have "\<not> contains v open_tag" "\<not> contains t close_tag" and "wf_think ss e"
    by (auto simp: wf_think_def s)
  with Cons.IH [of "vis @ nonempty_part v" "reas @ [t]"] obtain vs where
    "think_loop (render_think (s # ss) e) vis reas =
       ((vis @ nonempty_part v) @ vs, (reas @ [t]) @ map snd ss @ end_thoughts e, end_open e)"
    "concat vs = concat (map fst ss) @ end_visible e"
    by (auto simp: s think_loop_closed)
  then show ?case
    by (intro exI [of _ "nonempty_part v @ vs"]) (simp add: s)
qed

lemma contains_render: "contains (render_think ss e) open_tag \<or> (ss = [] \<and> (\<exists>v. e = ClosedEnd v))"
proof (cases ss)
  case Nil
  then show ?thesis by (cases e) (auto simp: contains_iff)
next
  case (Cons s ss')
  then show ?thesis by (cases s) (auto simp: contains_iff)
qed

lemma parse_render:
  assumes "wf_think ss e" and "ss \<noteq> [] \<or> end_open e"
  shows "parseThinkTags (render_think ss e) =
    \<lparr>think_visibleContent = trim (concat (map fst ss) @ end_visible e),
     think_reasoning = trim (join [CHR 0x0A, CHR 0x0A] (map snd ss @ end_thoughts e)),
     think_hasUnclosedTag = end_open e\<rparr>"
proof -
  have "contains (render_think ss e) open_tag"
    using contains_render [of ss e] assms(2) by auto
  moreover obtain vs where
    "think_loop (render_think ss e) [] [] = (vs, map snd ss @ end_thoughts e, end_open e)"
    "concat vs = concat (map fst ss) @ end_visible e"
    using think_loop_render [OF assms(1), of "[]" "[]"] by auto
  ultimately show ?thesis by (simp add: parseThinkTags_def)
qed

text \<open>Every text is one of these renderings: the parse above is the only way to read it.\<close>

lemma not_contains_take_index:
  assumes "index_of p s = Some i" and "p \<noteq> []"
  shows "\<not> contains (take i s) p"
  using assms(1)
proof (induction s arbitrary: i)
  case (Cons c s)
  show ?case
  proof (cases i)
    case 0
    with assms(2) show ?thesis by (simp add: contains_iff)
  next
    case (Suc j)
    with Cons.prems have np: "\<not> prefix p (c # s)" and j: "index_of p s = Some j"
      by (auto split: if_splits)
    have "\<not> prefix p (c # take j s)"
      using np by (metis append_Cons append_take_drop_id prefix_prefix)
    with Cons.IH [OF j] Suc show ?thesis by (simp add: contains_def)
  qed
qed (use assms(2) in auto)

lemma render_exists: "\<exists>ss e. s = render_think ss e \<and> wf_think ss e"
proof (induction s rule: measure_induct_rule [of length])
  case (less s)
  show ?case
  proof (cases "index_of open_tag s")
    case None
    then show ?thesis
      by (intro exI [of _ "[]"] exI [of _ "ClosedEnd s"]) (simp add: wf_think_def contains_def)
  next
    case (Some i)
    let ?v = "take i s" and ?b = "drop (i + 7) s"
    have s: "s = ?v @ open_tag @ ?b" and v: "\<not> contains ?v open_tag"
      using index_of_eq_take [OF Some] not_contains_take_index [OF Some] by simp_all
    show ?thesis
    proof (cases "index_of close_tag ?b")
      case None
      with s v show ?thesis
        by (intro exI [of _ "[]"] exI [of _ "OpenEnd ?v ?b"]) (simp add: wf_think_def contains_def)
    next
      case (Some j)
      let ?t = "take j ?b" and ?r = "drop (j + 8) ?b"
      have b: "?b = ?t @ close_tag @ ?r" and t: "\<not> contains ?t close_tag"
        using index_of_eq_take [OF Some] not_contains_take_index [OF Some] by simp_all
      have "length ?r < length s"
        using index_of_Some_bound [OF Some] by (simp add: close_tag_def)
      then obtain ss e where "?r = render_think ss e" "wf_think ss e"
        using less.IH by blast
      with s b v t show ?thesis
        by (intro exI [of _ "(?v, ?t) # ss"] exI [of _ e]) (auto simp: wf_think_def)
    qed
  qed
qed

section \<open>Properties\<close>

text \<open>
  Thoughts and visible text.  A text built from visible pieces and think blocks is
  taken apart exactly: the visible content is the trimmed concatenation of the visible
  pieces, the reasoning the trimmed join of the thoughts, and the unclosed flag says
  whether the last thought has no closing tag.
\<close>

theorem parseThinkTags_render:
  assumes "wf_think ss e" and "ss \<noteq> [] \<or> end_open e"
  shows "parseThinkTags (render_think ss e) =
    \<lparr>think_visibleContent = trim (concat (map fst ss) @ end_visible e),
     think_reasoning = trim (join [CHR 0x0A, CHR 0x0A] (map snd ss @ end_thoughts e)),
     think_hasUnclosedTag = end_open e\<rparr>"
  by (rule parse_render [OF assms])

theorem parseThinkTags_render_witness:
  "parseThinkTags (render_think [(''A'', ''why'')] (OpenEnd '' B'' ''more'')) =
    \<lparr>think_visibleContent = trim (concat (map fst [(''A'', ''why'')]) @ end_visible (OpenEnd '' B'' ''more'')),
     think_reasoning = trim (join [CHR 0x0A, CHR 0x0A] (map snd [(''A'', ''why'')] @ end_thoughts (OpenEnd '' B'' ''more''))),
     think_hasUnclosedTag = end_open (OpenEnd '' B'' ''more'')\<rparr>"
  by (rule parseThinkTags_render) (code_simp, simp)

text \<open>
  C10: the parser is complete.  Every content that holds an opening tag is such a text,
  so what the parser returns is determined by the pieces alone; a content without an
  opening tag is returned untouched, white space included.
\<close>

theorem parseThinkTags_complete:
  "if contains content open_tag then
     (\<exists>ss e. content = render_think ss e \<and> wf_think ss e \<and>
       parseThinkTags content =
         \<lparr>think_visibleContent = trim (concat (map fst ss) @ end_visible e),
          think_reasoning = trim (join [CHR 0x0A, CHR 0x0A] (map snd ss @ end_thoughts e)),
          think_hasUnclosedTag = end_open e\<rparr>)
   else parseThinkTags content =
     \<lparr>think_visibleContent = content, think_reasoning = [], think_hasUnclosedTag = False\<rparr>"
proof (cases "contains content open_tag")
  case True
  obtain ss e where r: "content = render_think ss e" "wf_think ss e"
    using render_exists by blast
  with True have "ss \<noteq> [] \<or> end_open e"
    by (cases ss; cases e) (auto simp: wf_think_def)
  with r parse_render [OF r(2)] True show ?thesis by auto
qed (simp add: parseThinkTags_def)

end
