(* ===== verification/Message_Streaming.thy ===== *)
theory Message_Streaming
  imports Message_Core
begin

text \<open>
  A reply while it arrives: \<open>lib/message/message-streaming-utils.ts\<close> (streamed chunks,
  finalisation, plugin events, non-streamed responses, the repair of stored messages) and
  \<open>message-update-utils.ts\<close> (updates of the last assistant message of a conversation).
  The translator \<open>t\<close> of i18next is the parameter \<open>tr\<close>.
\<close>

section \<open>Streamed chunks\<close>

definition processStreamingContent :: "Message \<Rightarrow> string option \<Rightarrow> number \<Rightarrow> Message" where
  "processStreamingContent message contentChunk now =
     (let content = version_content (getCurrentVersion message);
          fullContent = (if truthy_string contentChunk then content @ the contentChunk else content)
      in if msg_reasoning message = None \<and> \<not> contains fullContent open_tag then
           (updateCurrentVersionContent message fullContent)\<lparr>msg_isReasoningStreaming := Some False\<rparr>
         else
           let parsed = parseThinkTags fullContent;
               finalReasoning =
                 (if think_reasoning parsed \<noteq> []
                  then Some ((startReasoningTiming message now)\<lparr>reason_content := think_reasoning parsed\<rparr>)
                  else msg_reasoning message)
           in (updateCurrentVersionContent message fullContent)\<lparr>msg_reasoning := finalReasoning,
                msg_isReasoningStreaming := Some (think_hasUnclosedTag parsed)\<rparr>)"

datatype StreamChunkType = ReasoningChunk | ContentChunk

definition getAppendableChunk :: "string \<Rightarrow> string \<Rightarrow> string" where
  "getAppendableChunk currentContent chunk =
     (if currentContent = [] \<or> \<not> prefix currentContent chunk then chunk
      else drop (length currentContent) chunk)"

text \<open>\<open>now1\<close> starts the reasoning clock, \<open>now2\<close> stops it.\<close>

definition applyStreamingChunk :: "Message \<Rightarrow> StreamChunkType \<Rightarrow> string \<Rightarrow> number \<Rightarrow> number \<Rightarrow> Message" where
  "applyStreamingChunk message type chunk now1 now2 =
     (if msg_status message = Some Error then message
      else case type of
        ReasoningChunk \<Rightarrow>
          let reasoning = startReasoningTiming message now1;
              appendableChunk = getAppendableChunk (reason_content reasoning) chunk
          in message\<lparr>
               msg_reasoning := Some (reasoning\<lparr>reason_content := reason_content reasoning @ appendableChunk\<rparr>),
               msg_isReasoningStreaming := Some True, msg_status := Some Streaming\<rparr>
      | ContentChunk \<Rightarrow>
          let appendableChunk = getAppendableChunk (version_content (getCurrentVersion message)) chunk;
              contentMessage = processStreamingContent message (Some appendableChunk) now1
          in (if msg_isReasoningStreaming contentMessage = Some True then contentMessage
              else completeReasoningTiming contentMessage now2)\<lparr>msg_status := Some Streaming\<rparr>)"

section \<open>Finalisation\<close>

definition finalizeMessage :: "Message \<Rightarrow> string option \<Rightarrow> number \<Rightarrow> number \<Rightarrow> Message" where
  "finalizeMessage message apiReasoningContent now1 now2 =
     (let content = version_content (getCurrentVersion message);
          parsedThinkTags = (if contains content open_tag then Some (parseThinkTags content) else None);
          visibleContent = nullish (map_option think_visibleContent parsedThinkTags) content;
          finalReasoning =
            or_string apiReasoningContent
              (or_string (map_option reason_content (msg_reasoning message))
                (or_string (map_option think_reasoning parsedThinkTags) []));
          finalized = (updateCurrentVersionContent message visibleContent)\<lparr>
            msg_reasoning :=
              (if finalReasoning \<noteq> []
               then Some ((startReasoningTiming message now1)\<lparr>reason_content := finalReasoning\<rparr>)
               else None),
            msg_isReasoningStreaming := Some False\<rparr>
      in completeReasoningTiming finalized now2)"

definition completeAssistantMessage :: "Message \<Rightarrow> number \<Rightarrow> number \<Rightarrow> number \<Rightarrow> Message" where
  "completeAssistantMessage message now1 now2 now3 =
     completeAssistantTiming
       ((finalizeMessage message None now1 now2)\<lparr>msg_status := Some Complete\<rparr>) now3"

definition appendPluginEvent :: "Message \<Rightarrow> PluginEventPayload \<Rightarrow> string \<Rightarrow> Message" where
  "appendPluginEvent message event eid =
     (if msg_status message = Some Error then message
      else message\<lparr>msg_pluginEvents :=
        Some (nullish (msg_pluginEvents message) [] @ [\<lparr>event_payload = event, event_id = eid\<rparr>])\<rparr>)"

definition isAssistantMessageFinal :: "Message \<Rightarrow> bool" where
  "isAssistantMessageFinal message \<longleftrightarrow> msg_status message = Some Complete \<or> msg_status message = Some Error"

definition isAssistantMessagePending :: "Message \<Rightarrow> bool" where
  "isAssistantMessagePending message \<longleftrightarrow>
     msg_status message = Some Loading \<or> msg_status message = Some Streaming"

definition isPendingAssistantMessage :: "Message \<Rightarrow> bool" where
  "isPendingAssistantMessage message \<longleftrightarrow>
     msg_from message = Assistant \<and> isAssistantMessagePending message"

section \<open>Responses that are not streamed\<close>

definition first_choice :: "ChatCompletionResponse \<Rightarrow> ChatCompletionChoice option" where
  "first_choice response = (case resp_choices response of Some (c # _) \<Rightarrow> Some c | _ \<Rightarrow> None)"

definition hasChatCompletionChoice :: "ChatCompletionResponse \<Rightarrow> bool" where
  "hasChatCompletionChoice response \<longleftrightarrow> first_choice response \<noteq> None"

definition applyChatCompletionChoice ::
    "Message \<Rightarrow> ChatCompletionChoice \<Rightarrow> number \<Rightarrow> number \<Rightarrow> number \<Rightarrow> Message" where
  "applyChatCompletionChoice message choice now1 now2 now3 =
     completeAssistantTiming
       ((finalizeMessage
           (updateCurrentVersionContent message
             (or_string (Option.bind (choice_message choice) rm_content) []))
           (Option.bind (choice_message choice) rm_reasoning_content) now1 now2)
         \<lparr>msg_status := Some Complete\<rparr>) now3"

definition applyChatCompletionResponse ::
    "Message \<Rightarrow> ChatCompletionResponse \<Rightarrow> number \<Rightarrow> number \<Rightarrow> number \<Rightarrow> Message option" where
  "applyChatCompletionResponse message response now1 now2 now3 =
     (case first_choice response of
        None \<Rightarrow> None
      | Some choice \<Rightarrow> Some (applyChatCompletionChoice message choice now1 now2 now3))"

section \<open>Repair of stored messages\<close>

text \<open>The loop \<open>for (let i = n - 1; i >= 0; i--)\<close> that stops at the first hit.\<close>

fun scan_down :: "('a \<Rightarrow> bool) \<Rightarrow> 'a list \<Rightarrow> nat \<Rightarrow> nat option" where
  "scan_down P xs 0 = None"
| "scan_down P xs (Suc i) = (if P (xs ! i) then Some i else scan_down P xs i)"

definition sanitize_target :: "(string \<Rightarrow> string) \<Rightarrow> number \<Rightarrow> number \<Rightarrow> number \<Rightarrow> Message \<Rightarrow> Message" where
  "sanitize_target tr now1 now2 now3 message =
     (let finalized = finalizeMessage message None now1 now2;
          hasContent = hasMessageContent finalized;
          hasReasoning = (case msg_reasoning finalized of None \<Rightarrow> False | Some r \<Rightarrow> trim (reason_content r) \<noteq> [])
      in if hasContent \<or> hasReasoning then
           completeAssistantTiming
             (finalized\<lparr>msg_status := Some Complete, msg_isReasoningStreaming := Some False\<rparr>) now3
         else
           completeAssistantTiming
             ((updateCurrentVersionContent finalized (tr API_REQUEST_ERROR @ '': '' @ tr INTERRUPTED))
               \<lparr>msg_status := Some Error, msg_isReasoningStreaming := Some False\<rparr>) now3)"

definition sanitizeMessagesOnLoad ::
    "(string \<Rightarrow> string) \<Rightarrow> number \<Rightarrow> number \<Rightarrow> number \<Rightarrow> Message list \<Rightarrow> Message list" where
  "sanitizeMessagesOnLoad tr now1 now2 now3 messages =
     (case scan_down isPendingAssistantMessage messages (length messages) of
        None \<Rightarrow> messages
      | Some targetIndex \<Rightarrow>
          messages[targetIndex := sanitize_target tr now1 now2 now3 (messages ! targetIndex)])"

section \<open>message-update-utils.ts\<close>

definition updateLastAssistantMessage :: "Message list \<Rightarrow> (Message \<Rightarrow> Message) \<Rightarrow> Message list" where
  "updateLastAssistantMessage messages updater =
     (if messages = [] then messages
      else if msg_from (last messages) \<noteq> Assistant then messages
      else messages[length messages - 1 := updater (last messages)])"

definition error_update :: "string \<Rightarrow> string option \<Rightarrow> string \<Rightarrow> number \<Rightarrow> Message \<Rightarrow> Message" where
  "error_update errorMessage errorCode title now message =
     completeAssistantTiming
       ((updateCurrentVersionContent message (title @ '': '' @ errorMessage))
         \<lparr>msg_status := Some Error, msg_isReasoningStreaming := Some False,
          msg_errorCode := Some (if truthy_string errorCode then errorCode else None)\<rparr>) now"

definition updateAssistantMessageWithError ::
    "Message list \<Rightarrow> string \<Rightarrow> string option \<Rightarrow> string \<Rightarrow> number \<Rightarrow> Message list" where
  "updateAssistantMessageWithError messages errorMessage errorCode title now =
     updateLastAssistantMessage messages (error_update errorMessage errorCode title now)"

section \<open>The contract of a message update\<close>

text \<open>
  The list-level operations rely on one thing of the update they apply: it changes
  neither the key nor the author of a message.
\<close>

locale message_update =
  fixes f :: "Message \<Rightarrow> Message"
  assumes keeps_key [simp]: "msg_key (f m) = msg_key m"
    and keeps_from [simp]: "msg_from (f m) = msg_from m"
begin

lemma update_last_keys: "map msg_key (updateLastAssistantMessage ms f) = map msg_key ms"
  by (cases ms rule: rev_cases) (auto simp: updateLastAssistantMessage_def)

lemma update_last_roles: "map msg_from (updateLastAssistantMessage ms f) = map msg_from ms"
  by (cases ms rule: rev_cases) (auto simp: updateLastAssistantMessage_def)

lemma update_last_butlast: "butlast (updateLastAssistantMessage ms f) = butlast ms"
  by (cases ms rule: rev_cases) (auto simp: updateLastAssistantMessage_def)

lemma update_at_keys: "map msg_key (ms[i := f (ms ! i)]) = map msg_key ms"
  by (cases "i < length ms") (auto simp: list_eq_iff_nth_eq nth_list_update)

lemma update_at_roles: "map msg_from (ms[i := f (ms ! i)]) = map msg_from ms"
  by (cases "i < length ms") (auto simp: list_eq_iff_nth_eq nth_list_update)

end

lemma processStreamingContent_frame [frame, simp]:
  "msg_key (processStreamingContent m c t) = msg_key m"
  "msg_from (processStreamingContent m c t) = msg_from m"
  "msg_status (processStreamingContent m c t) = msg_status m"
  "msg_pluginEvents (processStreamingContent m c t) = msg_pluginEvents m"
  by (simp_all add: processStreamingContent_def Let_def)

lemma applyStreamingChunk_frame [frame, simp]:
  "msg_key (applyStreamingChunk m ty c t1 t2) = msg_key m"
  "msg_from (applyStreamingChunk m ty c t1 t2) = msg_from m"
  "msg_pluginEvents (applyStreamingChunk m ty c t1 t2) = msg_pluginEvents m"
  by (simp_all add: applyStreamingChunk_def Let_def split: StreamChunkType.splits)

lemma finalizeMessage_frame [frame, simp]:
  "msg_key (finalizeMessage m a t1 t2) = msg_key m"
  "msg_from (finalizeMessage m a t1 t2) = msg_from m"
  "msg_status (finalizeMessage m a t1 t2) = msg_status m"
  "msg_createdAt (finalizeMessage m a t1 t2) = msg_createdAt m"
  "msg_startedAt (finalizeMessage m a t1 t2) = msg_startedAt m"
  "msg_pluginEvents (finalizeMessage m a t1 t2) = msg_pluginEvents m"
  "msg_isReasoningStreaming (finalizeMessage m a t1 t2) = Some False"
  by (simp_all add: finalizeMessage_def Let_def)

lemma sanitize_target_frame [frame, simp]:
  "msg_key (sanitize_target tr t1 t2 t3 m) = msg_key m"
  "msg_from (sanitize_target tr t1 t2 t3 m) = msg_from m"
  by (simp_all add: sanitize_target_def Let_def)

interpretation chunk: message_update "\<lambda>m. applyStreamingChunk m ty c t1 t2" for ty c t1 t2
  by unfold_locales simp_all

interpretation complete: message_update "\<lambda>m. completeAssistantMessage m t1 t2 t3" for t1 t2 t3
  by unfold_locales (simp_all add: completeAssistantMessage_def)

interpretation plugin: message_update "\<lambda>m. appendPluginEvent m ev eid" for ev eid
  by unfold_locales (simp_all add: appendPluginEvent_def)

interpretation respond: message_update "\<lambda>m. applyChatCompletionChoice m ch t1 t2 t3" for ch t1 t2 t3
  by unfold_locales (simp_all add: applyChatCompletionChoice_def)

interpretation failed: message_update "error_update e c title t" for e c title t
  by unfold_locales (simp_all add: error_update_def)

interpretation sanitize: message_update "sanitize_target tr t1 t2 t3" for tr t1 t2 t3
  by unfold_locales simp_all

section \<open>The text a stream builds\<close>

text \<open>What one chunk makes of the text so far.\<close>

definition merged_text :: "string \<Rightarrow> string \<Rightarrow> string" where
  "merged_text content chunk = (if content \<noteq> [] \<and> prefix content chunk then chunk else content @ chunk)"

lemma append_appendable [simp]: "c @ getAppendableChunk c k = merged_text c k"
  by (auto simp: getAppendableChunk_def merged_text_def prefix_def)

lemma content_with_status [simp]:
  "getMessageContent (m\<lparr>msg_status := st\<rparr>) = getMessageContent m"
  "getMessageContent (m\<lparr>msg_reasoning := r\<rparr>) = getMessageContent m"
  "getMessageContent (m\<lparr>msg_isReasoningStreaming := b\<rparr>) = getMessageContent m"
  "getMessageContent (m\<lparr>msg_errorCode := e\<rparr>) = getMessageContent m"
  by (auto intro: getMessageContent_versions)

lemma processStreamingContent_content [simp]:
  "getMessageContent (processStreamingContent m (Some k) t) = getMessageContent m @ k"
  by (simp add: processStreamingContent_def Let_def truthy_string_def flip: getMessageContent_def)

lemma applyStreamingChunk_content:
  "getMessageContent (applyStreamingChunk m ContentChunk k t1 t2) =
     (if msg_status m = Some Error then getMessageContent m else merged_text (getMessageContent m) k)"
  by (simp add: applyStreamingChunk_def Let_def flip: getMessageContent_def)

lemma applyStreamingChunk_status:
  "msg_status (applyStreamingChunk m ty k t1 t2) =
     (if msg_status m = Some Error then Some Error else Some Streaming)"
  by (simp add: applyStreamingChunk_def Let_def split: StreamChunkType.splits)

lemma applyStreamingChunk_reasoning_content:
  "getMessageContent (applyStreamingChunk m ReasoningChunk k t1 t2) = getMessageContent m"
  by (simp add: applyStreamingChunk_def Let_def)

text \<open>A run of content chunks, each with its two clock readings.\<close>

fun stream_chunks :: "Message \<Rightarrow> (string \<times> number \<times> number) list \<Rightarrow> Message" where
  "stream_chunks m [] = m"
| "stream_chunks m ((k, t1, t2) # ks) = stream_chunks (applyStreamingChunk m ContentChunk k t1 t2) ks"

lemma stream_chunks_content:
  assumes "msg_status m \<noteq> Some Error"
  shows "getMessageContent (stream_chunks m ks) = foldl merged_text (getMessageContent m) (map fst ks)"
  using assms
  by (induction m ks rule: stream_chunks.induct)
    (auto simp: applyStreamingChunk_content applyStreamingChunk_status)

text \<open>
  A delta stream: no chunk repeats, at its start, all the text received before it.
  A snapshot stream: every chunk repeats it.
\<close>

fun delta_stream :: "string \<Rightarrow> string list \<Rightarrow> bool" where
  "delta_stream c [] = True"
| "delta_stream c (k # ks) = ((c = [] \<or> \<not> prefix c k) \<and> delta_stream (c @ k) ks)"

fun snapshot_stream :: "string \<Rightarrow> string list \<Rightarrow> bool" where
  "snapshot_stream c [] = True"
| "snapshot_stream c (k # ks) = (prefix c k \<and> snapshot_stream k ks)"

lemma foldl_merged_delta: "delta_stream c ks \<Longrightarrow> foldl merged_text c ks = c @ concat ks"
  by (induction c ks rule: delta_stream.induct) (auto simp: merged_text_def)

lemma foldl_merged_snapshot: "snapshot_stream c ks \<Longrightarrow> foldl merged_text c ks = last (c # ks)"
  by (induction c ks rule: snapshot_stream.induct) (auto simp: merged_text_def)

section \<open>The pending messages of a conversation\<close>

lemma scan_down_Some:
  "scan_down P xs n = Some i \<Longrightarrow> i < n \<and> P (xs ! i) \<and> (\<forall>j. i < j \<and> j < n \<longrightarrow> \<not> P (xs ! j))"
  by (induction n arbitrary: i) (auto split: if_splits simp: less_Suc_eq)

lemma scan_down_None: "scan_down P xs n = None \<longleftrightarrow> (\<forall>j < n. \<not> P (xs ! j))"
  by (induction n) (auto simp: less_Suc_eq)

lemma scan_down_None_set: "scan_down P xs (length xs) = None \<longleftrightarrow> (\<forall>x \<in> set xs. \<not> P x)"
  by (simp add: scan_down_None all_set_conv_all_nth)

lemma length_filter_update:
  assumes "i < length xs" "P (xs ! i)" "\<not> P y"
  shows "length (filter P (xs[i := y])) = length (filter P xs) - 1"
proof -
  have "filter P xs = filter P (take i xs) @ filter P (drop i xs)"
    by (metis append_take_drop_id filter_append)
  moreover have "drop i xs = xs ! i # drop (Suc i) xs"
    using assms(1) by (simp add: Cons_nth_drop_Suc)
  ultimately show ?thesis
    using assms by (simp add: upd_conv_take_nth_drop)
qed

lemma sanitize_target_final: "isAssistantMessageFinal (sanitize_target tr t1 t2 t3 m)"
  by (simp add: sanitize_target_def Let_def isAssistantMessageFinal_def)

lemma final_not_pending: "isAssistantMessageFinal m \<Longrightarrow> \<not> isPendingAssistantMessage m"
  by (auto simp: isAssistantMessageFinal_def isPendingAssistantMessage_def isAssistantMessagePending_def)

lemma sanitize_cases:
  obtains (none) "sanitizeMessagesOnLoad tr t1 t2 t3 ms = ms" "\<forall>m \<in> set ms. \<not> isPendingAssistantMessage m"
  | (some) i where "i < length ms" "isPendingAssistantMessage (ms ! i)"
      "\<forall>j. i < j \<and> j < length ms \<longrightarrow> \<not> isPendingAssistantMessage (ms ! j)"
      "sanitizeMessagesOnLoad tr t1 t2 t3 ms = ms[i := sanitize_target tr t1 t2 t3 (ms ! i)]"
proof (cases "scan_down isPendingAssistantMessage ms (length ms)")
  case None
  with none show ?thesis by (simp add: sanitizeMessagesOnLoad_def scan_down_None_set)
next
  case (Some i)
  with some [of i] scan_down_Some [OF Some] show ?thesis by (simp add: sanitizeMessagesOnLoad_def)
qed

lemma sanitize_keys [simp]: "map msg_key (sanitizeMessagesOnLoad tr t1 t2 t3 ms) = map msg_key ms"
  and sanitize_roles [simp]: "map msg_from (sanitizeMessagesOnLoad tr t1 t2 t3 ms) = map msg_from ms"
  by (cases rule: sanitize_cases [of tr t1 t2 t3 ms]; simp add: sanitize.update_at_keys sanitize.update_at_roles)+

section \<open>Properties\<close>

text \<open>
  Delta streams.  When no chunk starts with the whole text received before it, the
  streamed message shows exactly the text it had followed by all chunks in order, and it
  never loses the error state guard: a message already in error is left as it is.
\<close>

theorem stream_deltas_concat:
  assumes "msg_status m \<noteq> Some Error" and "delta_stream (getMessageContent m) (map fst ks)"
  shows "getMessageContent (stream_chunks m ks) = getMessageContent m @ concat (map fst ks)"
  using stream_chunks_content [OF assms(1)] foldl_merged_delta [OF assms(2)] by simp

text \<open>A fresh reply.\<close>

definition sample_reply :: Message where
  "sample_reply = createLoadingAssistantMessage ''k'' ''v'' 1000"

theorem stream_deltas_concat_witness:
  "getMessageContent (stream_chunks sample_reply [(''Hel'', 1, 1), (''lo'', 2, 2)]) = ''Hello''"
proof -
  have "getMessageContent (stream_chunks sample_reply [(''Hel'', 1, 1), (''lo'', 2, 2)]) =
    getMessageContent sample_reply @ concat (map fst [(''Hel'', 1::number, 1::number), (''lo'', 2, 2)])"
    by (rule stream_deltas_concat) code_simp+
  then show ?thesis by (simp add: sample_reply_def createLoadingAssistantMessage_def createMessageVersion_def
      getMessageContent_def getCurrentVersion_def)
qed

text \<open>
  Snapshot streams.  When every chunk repeats the text so far and extends it, the
  message shows the last chunk: nothing is duplicated.
\<close>

theorem stream_snapshots_last:
  assumes "msg_status m \<noteq> Some Error" and "snapshot_stream (getMessageContent m) (map fst ks)"
  shows "getMessageContent (stream_chunks m ks) = last (getMessageContent m # map fst ks)"
  using stream_chunks_content [OF assms(1)] foldl_merged_snapshot [OF assms(2)] by simp

theorem stream_snapshots_last_witness:
  "getMessageContent (stream_chunks sample_reply [(''Hel'', 1, 1), (''Hello'', 2, 2)]) =
    last (getMessageContent sample_reply # map fst [(''Hel'', 1::number, 1::number), (''Hello'', 2, 2)])"
  by (rule stream_snapshots_last) code_simp+

text \<open>
  A delta equal to the text so far is swallowed.  The two readings cannot be told
  apart on such a chunk, and the code takes it for a snapshot: a reply whose first token
  repeats (as in \<open>ha\<close>, \<open>ha\<close>) shows it once.
\<close>

theorem repeated_delta_swallowed:
  assumes "msg_status m \<noteq> Some Error"
  shows "getMessageContent (applyStreamingChunk m ContentChunk (getMessageContent m) t1 t2) = getMessageContent m"
  using assms by (simp add: applyStreamingChunk_content merged_text_def)

theorem repeated_delta_swallowed_witness:
  "getMessageContent (applyStreamingChunk (applyStreamingChunk sample_reply ContentChunk ''ha'' 1 1)
     ContentChunk (getMessageContent (applyStreamingChunk sample_reply ContentChunk ''ha'' 1 1)) 2 2) =
   getMessageContent (applyStreamingChunk sample_reply ContentChunk ''ha'' 1 1)"
  by (rule repeated_delta_swallowed)
    (simp add: applyStreamingChunk_status sample_reply_def createLoadingAssistantMessage_def)

text \<open>
  A completed reply.  Completing an assistant message makes it final, stops the
  reasoning indicator, keeps its identity, records a non-negative duration that ends at
  the clock reading, and shows the content without its think blocks.
\<close>

theorem completeAssistantMessage_final:
  fixes m :: Message and t1 t2 t3 :: number
  assumes "msg_from m = Assistant"
  defines "r \<equiv> completeAssistantMessage m t1 t2 t3"
  shows "isAssistantMessageFinal r \<and> msg_isReasoningStreaming r = Some False
    \<and> msg_key r = msg_key m \<and> msg_completedAt r = Some t3
    \<and> (\<exists>s d. msg_startedAt r = Some s \<and> msg_durationMs r = Some d \<and> 0 \<le> d \<and> t3 - s \<le> d)
    \<and> getMessageContent r = think_visibleContent (parseThinkTags (getMessageContent m))"
proof -
  have "getMessageContent r = think_visibleContent (parseThinkTags (getMessageContent m))"
    by (auto simp: r_def completeAssistantMessage_def finalizeMessage_def Let_def nullish_def parseThinkTags_def
        simp flip: getMessageContent_def)
  with assms(1) show ?thesis
    by (auto simp: r_def completeAssistantMessage_def isAssistantMessageFinal_def completeAssistantTiming_def Let_def)
qed

theorem completeAssistantMessage_final_witness:
  "isAssistantMessageFinal (completeAssistantMessage sample_reply 1 2 3)"
proof -
  have "msg_from sample_reply = Assistant"
    by (simp add: sample_reply_def createLoadingAssistantMessage_def empty_message_def)
  from completeAssistantMessage_final [OF this] show ?thesis by blast
qed

text \<open>
  Repair of stored messages.  Loading turns exactly one pending assistant message,
  the last one, into a final one; every other message, every key and every role is kept,
  and a conversation with several pending messages keeps all but that one pending.
\<close>

theorem sanitize_repairs_last_pending:
  "map msg_key (sanitizeMessagesOnLoad tr t1 t2 t3 ms) = map msg_key ms
   \<and> map msg_from (sanitizeMessagesOnLoad tr t1 t2 t3 ms) = map msg_from ms
   \<and> length (filter isPendingAssistantMessage (sanitizeMessagesOnLoad tr t1 t2 t3 ms)) =
      length (filter isPendingAssistantMessage ms) - 1
   \<and> length (filter (\<lambda>(m, m'). m \<noteq> m') (zip ms (sanitizeMessagesOnLoad tr t1 t2 t3 ms))) \<le> 1"
proof (cases rule: sanitize_cases [of tr t1 t2 t3 ms])
  case none
  then show ?thesis by (simp add: zip_same_conv_map filter_map o_def)
next
  case (some i)
  let ?y = "sanitize_target tr t1 t2 t3 (ms ! i)"
  have "zip ms (ms[i := ?y]) = (zip ms ms)[i := (ms ! i, ?y)]"
    using some(1) by (metis list_update_id zip_update)
  moreover have "length (filter (\<lambda>(m, m'). m \<noteq> m') ((zip ms ms)[i := (ms ! i, ?y)])) \<le> 1"
    using some(1) by (simp add: upd_conv_take_nth_drop zip_same_conv_map take_map drop_map filter_map o_def)
  moreover have "\<not> isPendingAssistantMessage ?y"
    by (rule final_not_pending) (rule sanitize_target_final)
  ultimately show ?thesis
    unfolding some(4)
    using length_filter_update [of i ms isPendingAssistantMessage ?y] some(1,2) sanitize.update_at_keys sanitize.update_at_roles
    by simp
qed

end
