(* ===== verification/Conversation.thy ===== *)
theory Conversation
  imports Message_Streaming
begin

text \<open>
  A conversation as a list of messages: \<open>lib/message/conversation-message-utils.ts\<close>
  (send, regenerate, edit, delete) and the hook \<open>hooks/use-playground-conversation.ts\<close> that
  applies them to the playground's state and hands the result to \<open>sendChat\<close>.  The \<open>nanoid()\<close>
  results are arguments, in the order the source draws them.
\<close>

section \<open>conversation-message-utils.ts\<close>

datatype js_error = TypeError

record ApplyMessageEditResult =
  edit_messages :: "Message list"
  edit_shouldSend :: bool

record ChatMessageRenderState =
  crs_alwaysShowActions :: bool
  crs_content :: string
  crs_isEditing :: bool

record fresh_ids =
  user_key :: string
  user_version :: string
  reply_key :: string
  reply_version :: string

definition appendUserMessagePair :: "Message list \<Rightarrow> string \<Rightarrow> fresh_ids \<Rightarrow> number \<Rightarrow> Message list" where
  "appendUserMessagePair messages content ids submittedAt =
     messages @
     [createUserMessage (user_key ids) (user_version ids) content submittedAt,
      createLoadingAssistantMessage (reply_key ids) (reply_version ids) submittedAt]"

definition createRegeneratedMessages :: "Message list \<Rightarrow> string \<Rightarrow> fresh_ids \<Rightarrow> number \<Rightarrow> Message list option" where
  "createRegeneratedMessages messages messageKey ids now =
     (case find_index (\<lambda>message. msg_key message = messageKey) messages of
        None \<Rightarrow> None
      | Some messageIndex \<Rightarrow>
          if msg_from (messages ! messageIndex) = User then
            Some (take (messageIndex + 1) messages @
              [createLoadingAssistantMessage (reply_key ids) (reply_version ids) now])
          else
            Some (take messageIndex messages @
              [createLoadingAssistantMessage (reply_key ids) (reply_version ids) now]))"

definition removeMessageByKey :: "Message list \<Rightarrow> string \<Rightarrow> Message list" where
  "removeMessageByKey messages messageKey = filter (\<lambda>message. msg_key message \<noteq> messageKey) messages"

text \<open>Reading \<open>.from\<close> past the end of the array raises.\<close>

definition getPreviousUserMessage :: "Message list \<Rightarrow> nat \<Rightarrow> js_error + Message option" where
  "getPreviousUserMessage messages beforeIndex =
     (if beforeIndex > length messages then Inl TypeError
      else Inr (map_option (\<lambda>index. messages ! index)
        (scan_down (\<lambda>message. msg_from message = User) messages beforeIndex)))"

definition applyMessageEdit ::
    "Message list \<Rightarrow> string \<Rightarrow> string \<Rightarrow> bool \<Rightarrow> fresh_ids \<Rightarrow> number \<Rightarrow> ApplyMessageEditResult option" where
  "applyMessageEdit messages messageKey content shouldSubmit ids submittedAt =
     (case find_index (\<lambda>message. msg_key message = messageKey) messages of
        None \<Rightarrow> None
      | Some messageIndex \<Rightarrow>
          let updatedMessages = map (\<lambda>message.
                if msg_key message = messageKey
                then (updateCurrentVersionContent message content)\<lparr>
                       msg_createdAt := (if shouldSubmit then Some submittedAt else msg_createdAt message)\<rparr>
                else message) messages
          in if \<not> shouldSubmit \<or> msg_from (updatedMessages ! messageIndex) \<noteq> User
             then Some \<lparr>edit_messages = updatedMessages, edit_shouldSend = False\<rparr>
             else Some \<lparr>edit_messages = take (messageIndex + 1) updatedMessages @
                          [createLoadingAssistantMessage (reply_key ids) (reply_version ids) submittedAt],
                        edit_shouldSend = True\<rparr>)"

definition getEditingMessageContent :: "Message list \<Rightarrow> string option \<Rightarrow> string" where
  "getEditingMessageContent messages editingKey =
     (if \<not> truthy_string editingKey then []
      else case find (\<lambda>item. msg_key item = the editingKey) messages of
        None \<Rightarrow> []
      | Some message \<Rightarrow> getMessageContent message)"

definition getChatMessageRenderState ::
    "Message list \<Rightarrow> Message \<Rightarrow> int \<Rightarrow> string option \<Rightarrow> ChatMessageRenderState" where
  "getChatMessageRenderState messages message messageIndex editingKey =
     \<lparr>crs_alwaysShowActions =
        (messageIndex = int (length messages) - 1 \<and> msg_from message = Assistant),
      crs_content = getMessageContent message,
      crs_isEditing = (editingKey = Some (msg_key message))\<rparr>"

section \<open>use-playground-conversation.ts\<close>

record ConversationState =
  conv_messages :: "Message list"
  conv_editingMessageKey :: "string option"

text \<open>A handler returns the new state and the message list it passes to \<open>sendChat\<close>, if any.\<close>

type_synonym conversation_result = "ConversationState \<times> Message list option"

definition handleSendMessage :: "ConversationState \<Rightarrow> string \<Rightarrow> fresh_ids \<Rightarrow> number \<Rightarrow> conversation_result" where
  "handleSendMessage st body ids now =
     (let nextMessages = appendUserMessagePair (conv_messages st) body ids now
      in (st\<lparr>conv_messages := nextMessages\<rparr>, Some nextMessages))"

definition handleRegenerateMessage :: "ConversationState \<Rightarrow> Message \<Rightarrow> fresh_ids \<Rightarrow> number \<Rightarrow> conversation_result" where
  "handleRegenerateMessage st message ids now =
     (case createRegeneratedMessages (conv_messages st) (msg_key message) ids now of
        None \<Rightarrow> (st, None)
      | Some nextMessages \<Rightarrow> (st\<lparr>conv_messages := nextMessages\<rparr>, Some nextMessages))"

definition handleEditMessage :: "ConversationState \<Rightarrow> Message \<Rightarrow> conversation_result" where
  "handleEditMessage st message = (st\<lparr>conv_editingMessageKey := Some (msg_key message)\<rparr>, None)"

definition handleEditOpenChange :: "ConversationState \<Rightarrow> bool \<Rightarrow> conversation_result" where
  "handleEditOpenChange st isOpen = (if \<not> isOpen then st\<lparr>conv_editingMessageKey := None\<rparr> else st, None)"

definition applyEdit :: "ConversationState \<Rightarrow> string \<Rightarrow> bool \<Rightarrow> fresh_ids \<Rightarrow> number \<Rightarrow> conversation_result" where
  "applyEdit st newContent shouldSubmit ids now =
     (if \<not> truthy_string (conv_editingMessageKey st) then (st, None)
      else case applyMessageEdit (conv_messages st) (the (conv_editingMessageKey st)) newContent shouldSubmit ids now of
        None \<Rightarrow> (st, None)
      | Some editResult \<Rightarrow>
          (st\<lparr>conv_editingMessageKey := None, conv_messages := edit_messages editResult\<rparr>,
           if edit_shouldSend editResult then Some (edit_messages editResult) else None))"

definition handleDeleteMessage :: "ConversationState \<Rightarrow> Message \<Rightarrow> conversation_result" where
  "handleDeleteMessage st message =
     (st\<lparr>conv_messages := removeMessageByKey (conv_messages st) (msg_key message)\<rparr>, None)"

section \<open>The steps of a conversation\<close>

text \<open>The ids a step draws are new to the conversation and differ from each other.\<close>

definition fresh_for :: "fresh_ids \<Rightarrow> Message list \<Rightarrow> bool" where
  "fresh_for ids ms \<longleftrightarrow> user_key ids \<notin> msg_key ` set ms \<and> reply_key ids \<notin> msg_key ` set ms
     \<and> user_key ids \<noteq> reply_key ids"

inductive conversation_step :: "ConversationState \<Rightarrow> ConversationState \<Rightarrow> Message list option \<Rightarrow> bool" where
  send: "fresh_for ids (conv_messages st) \<Longrightarrow> handleSendMessage st body ids now = (st', out) \<Longrightarrow>
     conversation_step st st' out"
| regenerate: "fresh_for ids (conv_messages st) \<Longrightarrow> handleRegenerateMessage st m ids now = (st', out) \<Longrightarrow>
     conversation_step st st' out"
| edit: "handleEditMessage st m = (st', out) \<Longrightarrow> conversation_step st st' out"
| edit_open: "handleEditOpenChange st b = (st', out) \<Longrightarrow> conversation_step st st' out"
| apply_edit: "fresh_for ids (conv_messages st) \<Longrightarrow> applyEdit st body submit ids now = (st', out) \<Longrightarrow>
     conversation_step st st' out"
| delete: "handleDeleteMessage st m = (st', out) \<Longrightarrow> conversation_step st st' out"

inductive conversation_reachable :: "ConversationState \<Rightarrow> bool" where
  start: "conversation_reachable \<lparr>conv_messages = [], conv_editingMessageKey = None\<rparr>"
| step: "conversation_reachable st \<Longrightarrow> conversation_step st st' out \<Longrightarrow> conversation_reachable st'"

abbreviation unique_keys :: "Message list \<Rightarrow> bool" where
  "unique_keys ms \<equiv> distinct (map msg_key ms)"

section \<open>Lemmas\<close>

lemma created_keys [simp]:
  "msg_key (createUserMessage k v c t) = k" "msg_key (createLoadingAssistantMessage k v t) = k"
  "msg_from (createUserMessage k v c t) = User" "msg_from (createLoadingAssistantMessage k v t) = Assistant"
  "msg_status (createLoadingAssistantMessage k v t) = Some Loading"
  by (simp_all add: createUserMessage_def createLoadingAssistantMessage_def empty_message_def)

lemma created_content [simp]:
  "getMessageContent (createUserMessage k v c t) = c" "getMessageContent (createLoadingAssistantMessage k v t) = []"
  by (simp_all add: createUserMessage_def createLoadingAssistantMessage_def createMessageVersion_def
      getMessageContent_def getCurrentVersion_def)

lemma unique_keys_append: "fresh_for ids ms \<Longrightarrow> unique_keys ms \<Longrightarrow> unique_keys (appendUserMessagePair ms c ids t)"
  by (auto simp: appendUserMessagePair_def fresh_for_def)

lemma unique_keys_take_snoc:
  "unique_keys ms \<Longrightarrow> msg_key m \<notin> msg_key ` set ms \<Longrightarrow> unique_keys (take n ms @ [m])"
  by (auto simp: take_map [symmetric] dest: in_set_takeD)

lemma unique_keys_regenerate:
  "fresh_for ids ms \<Longrightarrow> unique_keys ms \<Longrightarrow> createRegeneratedMessages ms k ids t = Some ms' \<Longrightarrow> unique_keys ms'"
  by (auto simp: createRegeneratedMessages_def fresh_for_def simp del: map_append
      intro!: unique_keys_take_snoc split: option.splits if_splits)

lemma edit_keys:
  "map msg_key (map (\<lambda>m. if msg_key m = k then (updateCurrentVersionContent m c)\<lparr>msg_createdAt := g m\<rparr> else m) ms) =
     map msg_key ms"
  by (induction ms) auto

lemma edit_key_image:
  "msg_key ` (\<lambda>m. if msg_key m = k then (updateCurrentVersionContent m c)\<lparr>msg_createdAt := g m\<rparr> else m) ` A = msg_key ` A"
  unfolding image_image by (rule image_cong) auto

lemma unique_keys_edit:
  assumes "fresh_for ids ms" "unique_keys ms" "applyMessageEdit ms k c b ids t = Some r"
  shows "unique_keys (edit_messages r)"
proof -
  let ?g = "\<lambda>m. if b then Some t else msg_createdAt m"
  let ?ms = "map (\<lambda>m. if msg_key m = k then (updateCurrentVersionContent m c)\<lparr>msg_createdAt := ?g m\<rparr> else m) ms"
  have u: "unique_keys ?ms"
    unfolding edit_keys by (rule assms(2))
  have "reply_key ids \<notin> msg_key ` set ?ms"
    using assms(1) by (simp only: list.set_map edit_key_image) (simp add: fresh_for_def)
  with u have "unique_keys (take n ?ms @ [createLoadingAssistantMessage (reply_key ids) v t])" for n v
    by (intro unique_keys_take_snoc) simp_all
  with u assms(3) show ?thesis
    by (auto simp: applyMessageEdit_def Let_def simp del: map_append split: option.splits if_splits)
qed

lemma unique_keys_remove: "unique_keys ms \<Longrightarrow> unique_keys (removeMessageByKey ms k)"
  by (simp add: removeMessageByKey_def distinct_map_filter)

lemmas handler_defs =
  handleSendMessage_def handleRegenerateMessage_def handleEditMessage_def handleEditOpenChange_def
  applyEdit_def handleDeleteMessage_def Let_def

lemma conversation_step_unique:
  "conversation_step st st' out \<Longrightarrow> unique_keys (conv_messages st) \<Longrightarrow> unique_keys (conv_messages st')"
proof (induction rule: conversation_step.induct)
  case (send ids st body now st' out)
  then show ?case by (auto simp: handler_defs intro: unique_keys_append)
next
  case (regenerate ids st m now st' out)
  then show ?case by (auto simp: handler_defs intro: unique_keys_regenerate split: option.splits)
next
  case (apply_edit ids st body submit now st' out)
  then show ?case by (auto simp: handler_defs intro: unique_keys_edit split: option.splits if_splits)
qed (auto simp: handler_defs intro: unique_keys_remove split: if_splits)

lemma appended_reply:
  "appendUserMessagePair ms c ids t \<noteq> []"
  "isPendingAssistantMessage (last (appendUserMessagePair ms c ids t))"
  by (simp_all add: appendUserMessagePair_def isPendingAssistantMessage_def isAssistantMessagePending_def)

lemma regenerated_reply:
  assumes "createRegeneratedMessages ms k ids t = Some ms'"
  obtains i where "i < length ms" "msg_key (ms ! i) = k"
    "ms' = take (if msg_from (ms ! i) = User then Suc i else i) ms @
       [createLoadingAssistantMessage (reply_key ids) (reply_version ids) t]"
proof -
  obtain i where i: "find_index (\<lambda>m. msg_key m = k) ms = Some i"
    using assms by (auto simp: createRegeneratedMessages_def split: option.splits)
  note fi = find_index_Some [OF i]
  show ?thesis
    using that [of i] assms fi
    by (auto simp: createRegeneratedMessages_def i split: if_splits)
qed

lemma pending_reply [simp]: "isPendingAssistantMessage (createLoadingAssistantMessage k v t)"
  by (simp add: isPendingAssistantMessage_def isAssistantMessagePending_def)

lemma submitted_edit:
  assumes ed: "applyMessageEdit ms k c b ids t = Some r" and snd: "edit_shouldSend r"
  obtains i where "i < length ms" "msg_key (ms ! i) = k" "\<forall>j < i. msg_key (ms ! j) \<noteq> k" "msg_from (ms ! i) = User"
    "edit_messages r = take i ms @
       [(updateCurrentVersionContent (ms ! i) c)\<lparr>msg_createdAt := Some t\<rparr>,
        createLoadingAssistantMessage (reply_key ids) (reply_version ids) t]"
proof -
  obtain i where i: "find_index (\<lambda>m. msg_key m = k) ms = Some i"
    using ed by (auto simp: applyMessageEdit_def split: option.splits)
  note fi = find_index_Some [OF i]
  let ?h = "\<lambda>m. if msg_key m = k then (updateCurrentVersionContent m c)\<lparr>msg_createdAt := Some t\<rparr> else m"
  have b: b
    using ed snd by (auto simp: applyMessageEdit_def i Let_def split: if_splits)
  have u: "msg_from (map ?h ms ! i) = User"
    and r: "edit_messages r = take (i + 1) (map ?h ms) @ [createLoadingAssistantMessage (reply_key ids) (reply_version ids) t]"
    using ed snd by (auto simp: applyMessageEdit_def i b Let_def split: if_splits cong: if_cong)
  have "map ?h (take i ms) = take i ms"
    using fi by (intro map_idI) (auto simp: in_set_conv_nth)
  then have "take (i + 1) (map ?h ms) = take i ms @ [?h (ms ! i)]"
    using fi by (simp add: take_Suc_conv_app_nth take_map)
  with fi u r that [of i] show ?thesis by simp
qed

section \<open>Properties\<close>

text \<open>
  Message keys stay unique.  In every conversation reached from the empty one by
  sending, regenerating, editing and deleting, with ids that are new when they are drawn,
  no two messages have the same key.
\<close>

theorem conversation_keys_unique:
  assumes "conversation_reachable st"
  shows "distinct (map msg_key (conv_messages st))"
  using assms
proof (induction rule: conversation_reachable.induct)
  case start
  show ?case by simp
next
  case (step st st' out)
  then show ?case by (blast intro: conversation_step_unique)
qed

definition sample_ids :: fresh_ids where
  "sample_ids = \<lparr>user_key = ''u1'', user_version = ''v1'', reply_key = ''a1'', reply_version = ''v2''\<rparr>"

definition sample_conversation :: ConversationState where
  "sample_conversation =
     fst (handleSendMessage \<lparr>conv_messages = [], conv_editingMessageKey = None\<rparr> ''Hi'' sample_ids 1000)"

lemma sample_conversation_reachable: "conversation_reachable sample_conversation"
  unfolding sample_conversation_def
  by (rule conversation_reachable.step [OF conversation_reachable.start],
      rule conversation_step.send [where ids = sample_ids])
    (auto simp: fresh_for_def sample_ids_def handleSendMessage_def Let_def)

theorem conversation_keys_unique_witness: "distinct (map msg_key (conv_messages sample_conversation))"
  by (rule conversation_keys_unique) (rule sample_conversation_reachable)

text \<open>
  What is sent ends in a pending reply.  Whatever handler asks for a chat request,
  the list it sends is the conversation it leaves behind, and its last message is a
  pending assistant message, the one the stream will fill.
\<close>

theorem sent_conversation_has_pending_reply:
  assumes "conversation_step st st' (Some sent)"
  shows "conv_messages st' = sent \<and> sent \<noteq> [] \<and> isPendingAssistantMessage (last sent)"
  using assms
proof (cases rule: conversation_step.cases)
  case (send ids body now)
  then show ?thesis by (auto simp: handler_defs appended_reply)
next
  case (regenerate ids m now)
  then show ?thesis by (auto simp: handler_defs split: option.splits elim!: regenerated_reply)
next
  case (apply_edit ids body submit now)
  then show ?thesis by (auto simp: handler_defs split: option.splits if_splits elim!: submitted_edit)
qed (auto simp: handler_defs split: if_splits)

theorem sent_conversation_has_pending_reply_witness:
  "conv_messages sample_conversation = appendUserMessagePair [] ''Hi'' sample_ids 1000
    \<and> isPendingAssistantMessage (last (appendUserMessagePair [] ''Hi'' sample_ids 1000))"
proof -
  have "conversation_step \<lparr>conv_messages = [], conv_editingMessageKey = None\<rparr> sample_conversation
      (Some (appendUserMessagePair [] ''Hi'' sample_ids 1000))"
    by (rule conversation_step.send [where ids = sample_ids and body = "''Hi''" and now = 1000])
      (simp_all add: sample_conversation_def handleSendMessage_def Let_def fresh_for_def sample_ids_def)
  from sent_conversation_has_pending_reply [OF this] show ?thesis by blast
qed

text \<open>
  Submitting an edit.  The conversation sent is the one before the edited message,
  untouched, then the edited message with the new text, then a fresh reply: everything
  after the edited message is dropped, and only user messages can be submitted.
\<close>

theorem submitted_edit_truncates:
  assumes "applyMessageEdit ms k c True ids t = Some r" and "edit_shouldSend r"
  shows "\<exists>i < length ms. msg_key (ms ! i) = k \<and> msg_from (ms ! i) = User
    \<and> take i (edit_messages r) = take i ms \<and> length (edit_messages r) = i + 2
    \<and> getMessageContent (edit_messages r ! i) = c \<and> msg_key (edit_messages r ! i) = k
    \<and> edit_messages r ! Suc i = createLoadingAssistantMessage (reply_key ids) (reply_version ids) t"
proof -
  from assms obtain i where i: "i < length ms" "msg_key (ms ! i) = k" "msg_from (ms ! i) = User"
    "edit_messages r = take i ms @
       [(updateCurrentVersionContent (ms ! i) c)\<lparr>msg_createdAt := Some t\<rparr>,
        createLoadingAssistantMessage (reply_key ids) (reply_version ids) t]"
    by (rule submitted_edit)
  have "getMessageContent ((updateCurrentVersionContent (ms ! i) c)\<lparr>msg_createdAt := Some t\<rparr>) = c"
    by (rule trans [OF getMessageContent_versions getMessageContent_update]) simp
  with i show ?thesis
    by (intro exI [of _ i]) (simp add: nth_append)
qed

theorem submitted_edit_truncates_witness:
  "\<exists>i < 2. take i (edit_messages (the (applyMessageEdit (conv_messages sample_conversation) ''u1'' ''Bye'' True sample_ids 5)))
     = take i (conv_messages sample_conversation)"
proof -
  let ?r = "the (applyMessageEdit (conv_messages sample_conversation) ''u1'' ''Bye'' True sample_ids 5)"
  have ev: "applyMessageEdit (conv_messages sample_conversation) ''u1'' ''Bye'' True sample_ids 5 = Some ?r"
    "edit_shouldSend ?r"
    by (simp_all add: sample_conversation_def handleSendMessage_def Let_def appendUserMessagePair_def
        applyMessageEdit_def sample_ids_def)
  have "length (conv_messages sample_conversation) = 2"
    by (simp add: sample_conversation_def handleSendMessage_def Let_def appendUserMessagePair_def)
  with submitted_edit_truncates [OF ev] show ?thesis by auto
qed

end
