(* ===== verification/Playground_Storage.thy ===== *)
theory Playground_Storage
  imports Message_Streaming
begin

text \<open>
  The playground's persistence: the schemas of \<open>lib/storage/storage-schema.ts\<close>, the load and
  save functions of \<open>lib/storage/storage.ts\<close> and the initial values of
  \<open>lib/state/playground-state-utils.ts\<close>.

  \<open>localStorage\<close> is a map of texts together with what it accepts: \<open>setItem\<close> throws when
  the quota is exceeded.  \<open>JSON.parse\<close> and \<open>JSON.stringify\<close> are the arguments \<open>parse\<close> and
  \<open>stringify\<close>, and zod's \<open>schema.parse\<close> is the argument \<open>zparse\<close>; \<open>None\<close> is a thrown
  error, and \<open>zod_laws\<close> lists what zod documents for the combinators the schemas use.
\<close>

section \<open>Schemas\<close>

text \<open>A zod schema; an object field carries whether it is \<open>.optional()\<close>.\<close>

datatype schema =
    ZString
  | ZNumber
  | ZBoolean
  | ZEnum "string list"
  | ZNullable schema
  | ZArray nat schema
  | ZObject "(string \<times> bool \<times> schema) list"

type_synonym zod = "schema \<Rightarrow> json \<Rightarrow> json option"

abbreviation req :: "string \<Rightarrow> schema \<Rightarrow> string \<times> bool \<times> schema" where
  "req k s \<equiv> (k, False, s)"

abbreviation opt :: "string \<Rightarrow> schema \<Rightarrow> string \<times> bool \<times> schema" where
  "opt k s \<equiv> (k, True, s)"

fun zfield :: "zod \<Rightarrow> (string \<times> json) list \<Rightarrow> string \<times> bool \<times> schema \<Rightarrow> (string \<times> json) list option" where
  "zfield zparse kvs (k, isOptional, s) =
     (case map_of kvs k of
        None \<Rightarrow> if isOptional then Some [] else None
      | Some v \<Rightarrow> map_option (\<lambda>r. [(k, r)]) (zparse s v))"

fun zobject :: "zod \<Rightarrow> (string \<times> json) list \<Rightarrow> (string \<times> bool \<times> schema) list \<Rightarrow> (string \<times> json) list option" where
  "zobject zparse kvs [] = Some []"
| "zobject zparse kvs (f # fs) =
     (case zfield zparse kvs f of
        None \<Rightarrow> None
      | Some xs \<Rightarrow> map_option ((@) xs) (zobject zparse kvs fs))"

fun zarray :: "(json \<Rightarrow> json option) \<Rightarrow> json list \<Rightarrow> json list option" where
  "zarray p [] = Some []"
| "zarray p (v # vs) = (case p v of None \<Rightarrow> None | Some r \<Rightarrow> map_option ((#) r) (zarray p vs))"

text \<open>
  What zod documents: a primitive schema accepts the values of its type, an enum the listed
  strings, a nullable schema also \<open>null\<close>, an array schema arrays long enough whose elements
  are accepted, an object schema objects whose fields are accepted, dropping unknown keys.
\<close>

definition zod_laws :: "zod \<Rightarrow> bool" where
  "zod_laws zparse \<longleftrightarrow>
     (\<forall>v. zparse ZString v = (case v of JStr _ \<Rightarrow> Some v | _ \<Rightarrow> None)) \<and>
     (\<forall>v. zparse ZNumber v = (case v of JNum _ \<Rightarrow> Some v | _ \<Rightarrow> None)) \<and>
     (\<forall>v. zparse ZBoolean v = (case v of JBool _ \<Rightarrow> Some v | _ \<Rightarrow> None)) \<and>
     (\<forall>xs v. zparse (ZEnum xs) v = (case v of JStr s \<Rightarrow> if s \<in> set xs then Some v else None | _ \<Rightarrow> None)) \<and>
     (\<forall>s v. zparse (ZNullable s) v = (if v = JNull then Some JNull else zparse s v)) \<and>
     (\<forall>n s v. zparse (ZArray n s) v =
        (case v of JArr vs \<Rightarrow> if n \<le> length vs then map_option JArr (zarray (zparse s) vs) else None | _ \<Rightarrow> None)) \<and>
     (\<forall>fs v. zparse (ZObject fs) v =
        (case v of JObj kvs \<Rightarrow> map_option JObj (zobject zparse kvs fs) | _ \<Rightarrow> None))"

definition STORAGE_VERSION :: number where
  "STORAGE_VERSION = 1"

definition MAX_STORED_MESSAGES :: nat where
  "MAX_STORED_MESSAGES = 100"

definition MAX_STORED_MESSAGES_BYTES :: nat where
  "MAX_STORED_MESSAGES_BYTES = 1024 * 1024"

definition MAX_LOADED_MESSAGES_CHARS :: nat where
  "MAX_LOADED_MESSAGES_CHARS = 120000"

definition MAX_LOADED_MESSAGE_CHARS :: nat where
  "MAX_LOADED_MESSAGE_CHARS = 40000"

definition playgroundConfigSchema :: schema where
  "playgroundConfigSchema = ZObject
     [opt ''model'' ZString, opt ''group'' ZString, opt ''temperature'' ZNumber, opt ''top_p'' ZNumber,
      opt ''max_tokens'' ZNumber, opt ''frequency_penalty'' ZNumber, opt ''presence_penalty'' ZNumber,
      opt ''seed'' (ZNullable ZNumber), opt ''stream'' ZBoolean]"

definition parameterEnabledSchema :: schema where
  "parameterEnabledSchema = ZObject
     [opt ''temperature'' ZBoolean, opt ''top_p'' ZBoolean, opt ''max_tokens'' ZBoolean,
      opt ''frequency_penalty'' ZBoolean, opt ''presence_penalty'' ZBoolean, opt ''seed'' ZBoolean]"

definition messageRoleSchema :: schema where
  "messageRoleSchema = ZEnum [''user'', ''assistant'', ''system'']"

definition messageStatusSchema :: schema where
  "messageStatusSchema = ZEnum [''loading'', ''streaming'', ''complete'', ''error'']"

definition messageVersionSchema :: schema where
  "messageVersionSchema = ZObject [req ''id'' ZString, req ''content'' ZString]"

definition sourceSchema :: schema where
  "sourceSchema = ZObject [req ''href'' ZString, req ''title'' ZString]"

definition reasoningSchema :: schema where
  "reasoningSchema = ZObject
     [req ''content'' ZString, req ''duration'' ZNumber, opt ''startedAt'' ZNumber,
      opt ''completedAt'' ZNumber, opt ''durationMs'' ZNumber]"

definition messageSchema :: schema where
  "messageSchema = ZObject
     [req ''key'' ZString, req ''from'' messageRoleSchema, req ''versions'' (ZArray 1 messageVersionSchema),
      opt ''createdAt'' ZNumber, opt ''startedAt'' ZNumber, opt ''completedAt'' ZNumber, opt ''durationMs'' ZNumber,
      opt ''sources'' (ZArray 0 sourceSchema), opt ''reasoning'' reasoningSchema,
      opt ''isReasoningStreaming'' ZBoolean, opt ''isReasoningComplete'' ZBoolean, opt ''isContentComplete'' ZBoolean,
      opt ''status'' messageStatusSchema, opt ''errorCode'' (ZNullable ZString)]"

definition messagesSchema :: schema where
  "messagesSchema = ZArray 0 messageSchema"

section \<open>Objects as values\<close>

text \<open>
  The playground's objects as the values zod and \<open>JSON.stringify\<close> see: an \<open>undefined\<close>
  property is absent.  Reading a property back is what the type assertions of the code do.
\<close>

definition opt_field :: "string \<Rightarrow> ('a \<Rightarrow> json) \<Rightarrow> 'a option \<Rightarrow> (string \<times> json) list" where
  "opt_field k enc x = (case x of None \<Rightarrow> [] | Some v \<Rightarrow> [(k, enc v)])"

fun null_or :: "('a \<Rightarrow> json) \<Rightarrow> 'a option \<Rightarrow> json" where
  "null_or enc None = JNull"
| "null_or enc (Some v) = enc v"

primrec role_text :: "MessageRole \<Rightarrow> string" where
  "role_text User = ''user''"
| "role_text Assistant = ''assistant''"
| "role_text System = ''system''"

primrec status_text :: "MessageStatus \<Rightarrow> string" where
  "status_text Loading = ''loading''"
| "status_text Streaming = ''streaming''"
| "status_text Complete = ''complete''"
| "status_text Error = ''error''"

definition version_json :: "MessageVersion \<Rightarrow> json" where
  "version_json v = JObj [(''id'', JStr (version_id v)), (''content'', JStr (version_content v))]"

definition source_json :: "Source \<Rightarrow> json" where
  "source_json s = JObj [(''href'', JStr (source_href s)), (''title'', JStr (source_title s))]"

definition reasoning_json :: "Reasoning \<Rightarrow> json" where
  "reasoning_json r = JObj
     ([(''content'', JStr (reason_content r)), (''duration'', JNum (reason_duration r))] @
      opt_field ''startedAt'' JNum (reason_startedAt r) @ opt_field ''completedAt'' JNum (reason_completedAt r) @
      opt_field ''durationMs'' JNum (reason_durationMs r))"

definition event_json :: "PluginEvent \<Rightarrow> json" where
  "event_json e = JObj
     ((case event_payload e of
         Interim body \<Rightarrow> [(''type'', JStr ''interim''), (''text'', JStr body)]
       | ToolCall p t a d \<Rightarrow> [(''type'', JStr ''tool_call''), (''plugin'', JStr p), (''tool'', JStr t)] @
           opt_field ''args'' JStr a @ opt_field ''durationMs'' JNum d) @
      [(''id'', JStr (event_id e))])"

definition message_fields :: "Message \<Rightarrow> (string \<times> json) list" where
  "message_fields m =
     [(''key'', JStr (msg_key m)), (''from'', JStr (role_text (msg_from m))),
       (''versions'', JArr (map version_json (msg_versions m)))] @
      opt_field ''createdAt'' JNum (msg_createdAt m) @ opt_field ''startedAt'' JNum (msg_startedAt m) @
      opt_field ''completedAt'' JNum (msg_completedAt m) @ opt_field ''durationMs'' JNum (msg_durationMs m) @
      opt_field ''sources'' (\<lambda>ss. JArr (map source_json ss)) (msg_sources m) @
      opt_field ''reasoning'' reasoning_json (msg_reasoning m) @
      opt_field ''isReasoningStreaming'' JBool (msg_isReasoningStreaming m) @
      opt_field ''isReasoningComplete'' JBool (msg_isReasoningComplete m) @
      opt_field ''isContentComplete'' JBool (msg_isContentComplete m) @
      opt_field ''status'' (\<lambda>s. JStr (status_text s)) (msg_status m) @
      opt_field ''errorCode'' (null_or JStr) (msg_errorCode m)"

definition message_json :: "Message \<Rightarrow> json" where
  "message_json m = JObj (message_fields m @
     opt_field ''pluginEvents'' (\<lambda>es. JArr (map event_json es)) (msg_pluginEvents m))"

definition messages_json :: "Message list \<Rightarrow> json" where
  "messages_json ms = JArr (map message_json ms)"

fun as_text :: "json option \<Rightarrow> string option" where
  "as_text (Some (JStr s)) = Some s"
| "as_text _ = None"

fun as_num :: "json option \<Rightarrow> number option" where
  "as_num (Some (JNum n)) = Some n"
| "as_num _ = None"

fun as_bool :: "json option \<Rightarrow> bool option" where
  "as_bool (Some (JBool b)) = Some b"
| "as_bool _ = None"

fun as_list :: "json option \<Rightarrow> json list option" where
  "as_list (Some (JArr vs)) = Some vs"
| "as_list _ = None"

fun as_nullable :: "(json option \<Rightarrow> 'a option) \<Rightarrow> json option \<Rightarrow> 'a option option" where
  "as_nullable dec (Some JNull) = Some None"
| "as_nullable dec v = map_option Some (dec v)"

definition text_of :: "json \<Rightarrow> string \<Rightarrow> string" where
  "text_of v k = nullish (as_text (prop_of v k)) []"

definition role_of_text :: "string \<Rightarrow> MessageRole" where
  "role_of_text s = (if s = ''user'' then User else if s = ''assistant'' then Assistant else System)"

definition status_of_text :: "string \<Rightarrow> MessageStatus" where
  "status_of_text s = (if s = ''loading'' then Loading else if s = ''streaming'' then Streaming
     else if s = ''complete'' then Complete else Error)"

definition version_of_json :: "json \<Rightarrow> MessageVersion" where
  "version_of_json v = \<lparr>version_id = text_of v ''id'', version_content = text_of v ''content''\<rparr>"

definition source_of_json :: "json \<Rightarrow> Source" where
  "source_of_json v = \<lparr>source_href = text_of v ''href'', source_title = text_of v ''title''\<rparr>"

definition reasoning_of_json :: "json \<Rightarrow> Reasoning" where
  "reasoning_of_json v =
     \<lparr>reason_content = text_of v ''content'', reason_duration = nullish (as_num (prop_of v ''duration'')) 0,
      reason_startedAt = as_num (prop_of v ''startedAt''), reason_completedAt = as_num (prop_of v ''completedAt''),
      reason_durationMs = as_num (prop_of v ''durationMs'')\<rparr>"

text \<open>A parsed message never has plugin events: the schema drops them.\<close>

definition message_of_json :: "json \<Rightarrow> Message" where
  "message_of_json v =
     \<lparr>msg_key = text_of v ''key'', msg_from = role_of_text (text_of v ''from''),
      msg_versions = map version_of_json (nullish (as_list (prop_of v ''versions'')) []),
      msg_createdAt = as_num (prop_of v ''createdAt''), msg_startedAt = as_num (prop_of v ''startedAt''),
      msg_completedAt = as_num (prop_of v ''completedAt''), msg_durationMs = as_num (prop_of v ''durationMs''),
      msg_sources = map_option (map source_of_json) (as_list (prop_of v ''sources'')),
      msg_reasoning = map_option reasoning_of_json (prop_of v ''reasoning''),
      msg_isReasoningStreaming = as_bool (prop_of v ''isReasoningStreaming''),
      msg_isReasoningComplete = as_bool (prop_of v ''isReasoningComplete''),
      msg_isContentComplete = as_bool (prop_of v ''isContentComplete''),
      msg_pluginEvents = None,
      msg_status = map_option status_of_text (as_text (prop_of v ''status'')),
      msg_errorCode = as_nullable as_text (prop_of v ''errorCode'')\<rparr>"

definition messages_of_json :: "json \<Rightarrow> Message list" where
  "messages_of_json v = map message_of_json (nullish (as_list (Some v)) [])"

record PartialConfig =
  pc_model :: "string option"
  pc_group :: "string option"
  pc_temperature :: "number option"
  pc_top_p :: "number option"
  pc_max_tokens :: "number option"
  pc_frequency_penalty :: "number option"
  pc_presence_penalty :: "number option"
  pc_seed :: "number option option"
  pc_stream :: "bool option"

definition empty_config :: PartialConfig where
  "empty_config = \<lparr>pc_model = None, pc_group = None, pc_temperature = None, pc_top_p = None, pc_max_tokens = None,
     pc_frequency_penalty = None, pc_presence_penalty = None, pc_seed = None, pc_stream = None\<rparr>"

definition config_json :: "PartialConfig \<Rightarrow> json" where
  "config_json c = JObj
     (opt_field ''model'' JStr (pc_model c) @ opt_field ''group'' JStr (pc_group c) @
      opt_field ''temperature'' JNum (pc_temperature c) @ opt_field ''top_p'' JNum (pc_top_p c) @
      opt_field ''max_tokens'' JNum (pc_max_tokens c) @
      opt_field ''frequency_penalty'' JNum (pc_frequency_penalty c) @
      opt_field ''presence_penalty'' JNum (pc_presence_penalty c) @
      opt_field ''seed'' (null_or JNum) (pc_seed c) @ opt_field ''stream'' JBool (pc_stream c))"

definition config_of_json :: "json \<Rightarrow> PartialConfig" where
  "config_of_json v =
     \<lparr>pc_model = as_text (prop_of v ''model''), pc_group = as_text (prop_of v ''group''),
      pc_temperature = as_num (prop_of v ''temperature''), pc_top_p = as_num (prop_of v ''top_p''),
      pc_max_tokens = as_num (prop_of v ''max_tokens''),
      pc_frequency_penalty = as_num (prop_of v ''frequency_penalty''),
      pc_presence_penalty = as_num (prop_of v ''presence_penalty''),
      pc_seed = as_nullable as_num (prop_of v ''seed''), pc_stream = as_bool (prop_of v ''stream'')\<rparr>"

record PartialEnabled =
  pe_temperature :: "bool option"
  pe_top_p :: "bool option"
  pe_max_tokens :: "bool option"
  pe_frequency_penalty :: "bool option"
  pe_presence_penalty :: "bool option"
  pe_seed :: "bool option"

definition empty_enabled :: PartialEnabled where
  "empty_enabled = \<lparr>pe_temperature = None, pe_top_p = None, pe_max_tokens = None,
     pe_frequency_penalty = None, pe_presence_penalty = None, pe_seed = None\<rparr>"

definition enabled_json :: "PartialEnabled \<Rightarrow> json" where
  "enabled_json e = JObj
     (opt_field ''temperature'' JBool (pe_temperature e) @ opt_field ''top_p'' JBool (pe_top_p e) @
      opt_field ''max_tokens'' JBool (pe_max_tokens e) @
      opt_field ''frequency_penalty'' JBool (pe_frequency_penalty e) @
      opt_field ''presence_penalty'' JBool (pe_presence_penalty e) @ opt_field ''seed'' JBool (pe_seed e))"

definition enabled_of_json :: "json \<Rightarrow> PartialEnabled" where
  "enabled_of_json v =
     \<lparr>pe_temperature = as_bool (prop_of v ''temperature''), pe_top_p = as_bool (prop_of v ''top_p''),
      pe_max_tokens = as_bool (prop_of v ''max_tokens''),
      pe_frequency_penalty = as_bool (prop_of v ''frequency_penalty''),
      pe_presence_penalty = as_bool (prop_of v ''presence_penalty''), pe_seed = as_bool (prop_of v ''seed'')\<rparr>"

section \<open>Local storage\<close>

text \<open>
  The reading functions return \<open>None\<close> when \<open>JSON.parse\<close> throws and \<open>Some JNull\<close> where
  the code returns \<open>null\<close>.
\<close>

definition readStoredValue :: "(string \<Rightarrow> json option) \<Rightarrow> LocalStorage \<Rightarrow> string \<Rightarrow> json option" where
  "readStoredValue parse ls k =
     (if truthy_string (getItem ls k) then parse (the (getItem ls k)) else Some JNull)"

definition readStoredMessagesValue :: "(string \<Rightarrow> json option) \<Rightarrow> LocalStorage \<Rightarrow> json option \<times> LocalStorage" where
  "readStoredMessagesValue parse ls =
     (if \<not> truthy_string (getItem ls STORAGE_KEYS_MESSAGES) then (Some JNull, ls)
      else let saved = the (getItem ls STORAGE_KEYS_MESSAGES)
           in if length saved > MAX_STORED_MESSAGES_BYTES then (Some JNull, removeItem ls STORAGE_KEYS_MESSAGES)
              else (parse saved, ls))"

fun unwrapStoredValue :: "json \<Rightarrow> json" where
  "unwrapStoredValue (JObj kvs) =
     (if map_of kvs ''version'' \<noteq> None then (case map_of kvs ''data'' of Some d \<Rightarrow> d | None \<Rightarrow> JObj kvs)
      else JObj kvs)"
| "unwrapStoredValue v = v"

definition envelope :: "json \<Rightarrow> json" where
  "envelope data = JObj [(''version'', JNum STORAGE_VERSION), (''data'', data)]"

definition writeStoredValue :: "(json \<Rightarrow> string) \<Rightarrow> LocalStorage \<Rightarrow> string \<Rightarrow> json \<Rightarrow> LocalStorage option" where
  "writeStoredValue stringify ls k data = setItem ls k (stringify (envelope data))"

section \<open>Trimming\<close>

definition trimMessages :: "Message list \<Rightarrow> Message list" where
  "trimMessages messages =
     (if length messages \<le> MAX_STORED_MESSAGES then messages else last_n MAX_STORED_MESSAGES messages)"

definition getMessageSize :: "Message \<Rightarrow> nat" where
  "getMessageSize message =
     foldl (\<lambda>total version. total + length (version_content version)) 0 (msg_versions message)
     + nullish (map_option (\<lambda>r. length (reason_content r)) (msg_reasoning message)) 0"

definition TRUNCATED_CONTENT_SUFFIX :: string where
  "TRUNCATED_CONTENT_SUFFIX = [char_of (10 :: nat), char_of (10 :: nat)] @ ''[...]''"

definition truncateText :: "string \<Rightarrow> nat \<Rightarrow> string" where
  "truncateText body maxLength =
     (if length body \<le> maxLength then body
      else if maxLength \<le> length TRUNCATED_CONTENT_SUFFIX then take maxLength body
      else take (maxLength - length TRUNCATED_CONTENT_SUFFIX) body @ TRUNCATED_CONTENT_SUFFIX)"

definition MIN_PREFIX_COLLAPSE_LENGTH :: nat where
  "MIN_PREFIX_COLLAPSE_LENGTH = 2000"

definition MIN_REPEATED_SECTION_COUNT :: nat where
  "MIN_REPEATED_SECTION_COUNT = 3"

text \<open>
  \<open>SECTION_HEADING_LINE_PATTERN\<close>, \<open>/^#{2,6}\s+\d+\.\s+.+$/gm\<close>, matched at the start of a
  line: the length of the match.  Both \<open>\s+\<close> may run over line ends.  The last one is
  greedy and gives back characters only when nothing but white space follows, up to the
  last of them that is not a line end.
\<close>

definition line_end :: "char \<Rightarrow> bool" where
  "line_end c \<longleftrightarrow> of_char c \<in> {10 :: nat, 13}"

definition digit :: "char \<Rightarrow> bool" where
  "digit c \<longleftrightarrow> 48 \<le> (of_char c :: nat) \<and> (of_char c :: nat) \<le> 57"

definition title_match :: "string \<Rightarrow> nat option" where
  "title_match s =
     (let ws = takeWhile space_char s; r = dropWhile space_char s
      in if ws = [] then None
         else if r \<noteq> [] then Some (length ws + length (takeWhile (\<lambda>c. \<not> line_end c) r))
         else let kept = rev (dropWhile line_end (rev ws))
              in if length kept \<ge> 2 then Some (length kept) else None)"

definition section_match :: "string \<Rightarrow> nat option" where
  "section_match s =
     (let hs = takeWhile (\<lambda>c. c = CHR ''#'') s; r1 = dropWhile (\<lambda>c. c = CHR ''#'') s;
          ws = takeWhile space_char r1; r2 = dropWhile space_char r1;
          ds = takeWhile digit r2; r3 = dropWhile digit r2
      in if 2 \<le> length hs \<and> length hs \<le> 6 \<and> ws \<noteq> [] \<and> ds \<noteq> [] \<and> r3 \<noteq> [] \<and> hd r3 = CHR ''.''
         then map_option (\<lambda>n. length hs + length ws + length ds + 1 + n) (title_match (tl r3))
         else None)"

record SectionOccurrence =
  occ_heading :: string
  occ_index :: nat

text \<open>\<open>text.matchAll\<close> from position \<open>i\<close>; \<open>bol\<close> tells whether a line starts there.\<close>

function section_scan :: "bool \<Rightarrow> nat \<Rightarrow> string \<Rightarrow> SectionOccurrence list" where
  "section_scan bol i [] = []"
| "section_scan bol i (c # cs) =
     (case (if bol then section_match (c # cs) else None) of
        Some n \<Rightarrow> \<lparr>occ_heading = take n (c # cs), occ_index = i\<rparr> # section_scan False (i + n) (drop (n - 1) cs)
      | None \<Rightarrow> section_scan (line_end c) (i + 1) cs)"
  by pat_completeness auto
termination by (relation "measure (\<lambda>(bol, i, s). length s)") auto

definition getSectionOccurrences :: "string \<Rightarrow> SectionOccurrence list" where
  "getSectionOccurrences body = section_scan True 0 body"

text \<open>The heading counts, as an association list in the order of the map's insertions.\<close>

fun count_heading :: "(string \<times> nat) list \<Rightarrow> string \<Rightarrow> (string \<times> nat) list" where
  "count_heading [] h = [(h, 1)]"
| "count_heading ((k, n) # counts) h = (if k = h then (k, n + 1) # counts else (k, n) # count_heading counts h)"

definition getHeadingCounts :: "SectionOccurrence list \<Rightarrow> (string \<times> nat) list" where
  "getHeadingCounts occurrences = foldl (\<lambda>counts occ. count_heading counts (occ_heading occ)) [] occurrences"

text \<open>The loop from the last occurrence down, over the reversed list.\<close>

fun repeated_loop :: "(string \<times> nat) list \<Rightarrow> SectionOccurrence list \<Rightarrow> string list \<Rightarrow> nat list \<Rightarrow> nat list" where
  "repeated_loop counts [] seen idx = idx"
| "repeated_loop counts (occ # occs) seen idx =
     (if nullish (map_of counts (occ_heading occ)) 0 < MIN_REPEATED_SECTION_COUNT \<or> occ_heading occ \<in> set seen
      then repeated_loop counts occs seen idx
      else repeated_loop counts occs (occ_heading occ # seen) (idx @ [occ_index occ]))"

definition findLastRepeatedSectionRunStart :: "string \<Rightarrow> nat option" where
  "findLastRepeatedSectionRunStart body =
     (let occurrences = getSectionOccurrences body;
          lastRepeatedIndexes = repeated_loop (getHeadingCounts occurrences) (rev occurrences) [] []
      in if lastRepeatedIndexes = [] then None else Some (foldl min (hd lastRepeatedIndexes) (tl lastRepeatedIndexes)))"

definition collapseRepeatedSectionSnapshots :: "string \<Rightarrow> string" where
  "collapseRepeatedSectionSnapshots body =
     (if length body < MIN_PREFIX_COLLAPSE_LENGTH then body
      else case findLastRepeatedSectionRunStart body of
        None \<Rightarrow> body
      | Some lastRepeatedRunStart \<Rightarrow> drop lastRepeatedRunStart body)"

section \<open>Normalisation on load\<close>

definition load_version :: "MessageVersion \<Rightarrow> MessageVersion" where
  "load_version version = version\<lparr>version_content :=
     truncateText (collapseRepeatedSectionSnapshots (version_content version)) MAX_LOADED_MESSAGE_CHARS\<rparr>"

definition version_changed :: "MessageVersion \<Rightarrow> bool" where
  "version_changed version \<longleftrightarrow>
     \<not> (version_content (load_version version) = version_content version \<and>
        collapseRepeatedSectionSnapshots (version_content version) = version_content version)"

definition load_reasoning :: "Reasoning \<Rightarrow> Reasoning" where
  "load_reasoning r = r\<lparr>reason_content := truncateText (reason_content r) MAX_LOADED_MESSAGE_CHARS\<rparr>"

definition load_changed :: "Message \<Rightarrow> bool" where
  "load_changed message \<longleftrightarrow>
     list_ex version_changed (msg_versions message) \<or>
     map_option reason_content (map_option load_reasoning (msg_reasoning message)) \<noteq>
       map_option reason_content (msg_reasoning message)"

definition load_normalized :: "Message \<Rightarrow> Message" where
  "load_normalized message =
     (if load_changed message
      then message\<lparr>msg_versions := map (\<lambda>v. if version_changed v then load_version v else v) (msg_versions message),
             msg_reasoning := map_option load_reasoning (msg_reasoning message)\<rparr>
      else message)"

definition load_finalizes :: "Message \<Rightarrow> bool" where
  "load_finalizes normalized \<longleftrightarrow>
     isAssistantMessagePending normalized \<and>
     (hasMessageContent normalized \<or>
      truthy_string (map_option (\<lambda>r. trim (reason_content r)) (msg_reasoning normalized)))"

text \<open>\<open>now0\<close> is the \<open>Date.now()\<close> of the fallback, \<open>now1\<close> and \<open>now2\<close> those of \<open>finalizeMessage\<close>.\<close>

definition normalizeStoredMessageForLoad :: "number \<Rightarrow> number \<Rightarrow> number \<Rightarrow> Message \<Rightarrow> Message" where
  "normalizeStoredMessageForLoad now0 now1 now2 message =
     (let normalized = load_normalized message
      in if \<not> load_finalizes normalized then normalized
         else
           let completedAt =
                 nullish (msg_completedAt normalized)
                   (nullish (Option.bind (msg_reasoning normalized) reason_completedAt)
                     (nullish (msg_startedAt normalized) (nullish (msg_createdAt normalized) now0)))
           in completeAssistantTiming
                ((finalizeMessage normalized None now1 now2)\<lparr>msg_status := Some Complete,
                   msg_isReasoningStreaming := Some False\<rparr>) completedAt)"

text \<open>Whether the result is another object than the argument.\<close>

definition load_new_reference :: "Message \<Rightarrow> bool" where
  "load_new_reference message \<longleftrightarrow> load_changed message \<or> load_finalizes (load_normalized message)"

text \<open>The loop from the last message down, over the reversed list.\<close>

fun size_loop :: "Message list \<Rightarrow> nat \<Rightarrow> Message list \<Rightarrow> Message list" where
  "size_loop [] totalSize result = result"
| "size_loop (message # messages) totalSize result =
     (if result \<noteq> [] \<and> totalSize + getMessageSize message > MAX_LOADED_MESSAGES_CHARS then result
      else size_loop messages (totalSize + getMessageSize message) (result @ [message]))"

definition trimMessagesByContentSize :: "Message list \<Rightarrow> Message list" where
  "trimMessagesByContentSize messages = rev (size_loop (rev messages) 0 [])"

section \<open>Load and save\<close>

definition saveMessages :: "zod \<Rightarrow> (json \<Rightarrow> string) \<Rightarrow> LocalStorage \<Rightarrow> Message list \<Rightarrow> LocalStorage" where
  "saveMessages zparse stringify ls messages =
     (case zparse messagesSchema (messages_json (trimMessages messages)) of
        None \<Rightarrow> ls
      | Some parsed \<Rightarrow> nullish (writeStoredValue stringify ls STORAGE_KEYS_MESSAGES parsed) ls)"

text \<open>
  The clock of a load: the readings for the \<open>i\<close>-th stored message and those of
  \<open>sanitizeMessagesOnLoad\<close>; \<open>tr\<close> is \<open>i18next.t\<close>.
\<close>

record LoadEnv =
  env_tr :: "string \<Rightarrow> string"
  env_now0 :: "nat \<Rightarrow> number"
  env_now1 :: "nat \<Rightarrow> number"
  env_now2 :: "nat \<Rightarrow> number"
  env_sanitize1 :: number
  env_sanitize2 :: number
  env_sanitize3 :: number

definition load_normalize_all :: "LoadEnv \<Rightarrow> Message list \<Rightarrow> Message list" where
  "load_normalize_all env parsed =
     map (\<lambda>(i, m). normalizeStoredMessageForLoad (env_now0 env i) (env_now1 env i) (env_now2 env i) m) (enumerate 0 parsed)"

definition load_sanitize :: "LoadEnv \<Rightarrow> Message list \<Rightarrow> Message list" where
  "load_sanitize env = sanitizeMessagesOnLoad (env_tr env) (env_sanitize1 env) (env_sanitize2 env) (env_sanitize3 env)"

text \<open>
  The references \<open>loadMessages\<close> compares: \<open>trimMessages\<close> returns its argument when it is
  short enough, \<open>trimMessagesByContentSize\<close> always a new array, and
  \<open>sanitizeMessagesOnLoad\<close> its argument when no reply is pending.
\<close>

definition load_must_save :: "Message list \<Rightarrow> Message list \<Rightarrow> Message list \<Rightarrow> bool" where
  "load_must_save parsed normalized sizeTrimmed \<longleftrightarrow>
     list_ex load_new_reference parsed \<or> length normalized > MAX_STORED_MESSAGES \<or> True \<or>
     list_ex isPendingAssistantMessage sizeTrimmed"

definition loadMessages ::
    "zod \<Rightarrow> (string \<Rightarrow> json option) \<Rightarrow> (json \<Rightarrow> string) \<Rightarrow> LoadEnv \<Rightarrow> LocalStorage \<Rightarrow> Message list option \<times> LocalStorage" where
  "loadMessages zparse parse stringify env ls0 =
     (let (saved, ls) = readStoredMessagesValue parse ls0
      in case saved of
           None \<Rightarrow> (None, ls)
         | Some v \<Rightarrow>
             if \<not> json_truthy v then (None, ls)
             else case zparse messagesSchema (unwrapStoredValue v) of
               None \<Rightarrow> (None, ls)
             | Some r \<Rightarrow>
                 let parsed = messages_of_json r;
                     normalized = load_normalize_all env parsed;
                     trimmed = trimMessages normalized;
                     sizeTrimmed = trimMessagesByContentSize trimmed;
                     sanitized = load_sanitize env sizeTrimmed
                 in (Some sanitized,
                     if load_must_save parsed normalized sizeTrimmed
                     then saveMessages zparse stringify ls sanitized else ls))"

definition loadConfig :: "zod \<Rightarrow> (string \<Rightarrow> json option) \<Rightarrow> LocalStorage \<Rightarrow> PartialConfig" where
  "loadConfig zparse parse ls =
     (case readStoredValue parse ls STORAGE_KEYS_CONFIG of
        None \<Rightarrow> empty_config
      | Some saved \<Rightarrow>
          if \<not> json_truthy saved then empty_config
          else case zparse playgroundConfigSchema (unwrapStoredValue saved) of
            None \<Rightarrow> empty_config
          | Some r \<Rightarrow> config_of_json r)"

definition saveConfig :: "zod \<Rightarrow> (json \<Rightarrow> string) \<Rightarrow> LocalStorage \<Rightarrow> PartialConfig \<Rightarrow> LocalStorage" where
  "saveConfig zparse stringify ls config =
     (case zparse playgroundConfigSchema (config_json config) of
        None \<Rightarrow> ls
      | Some parsed \<Rightarrow> nullish (writeStoredValue stringify ls STORAGE_KEYS_CONFIG parsed) ls)"

definition loadParameterEnabled :: "zod \<Rightarrow> (string \<Rightarrow> json option) \<Rightarrow> LocalStorage \<Rightarrow> PartialEnabled" where
  "loadParameterEnabled zparse parse ls =
     (case readStoredValue parse ls STORAGE_KEYS_PARAMETER_ENABLED of
        None \<Rightarrow> empty_enabled
      | Some saved \<Rightarrow>
          if \<not> json_truthy saved then empty_enabled
          else case zparse parameterEnabledSchema (unwrapStoredValue saved) of
            None \<Rightarrow> empty_enabled
          | Some r \<Rightarrow> enabled_of_json r)"

definition saveParameterEnabled :: "zod \<Rightarrow> (json \<Rightarrow> string) \<Rightarrow> LocalStorage \<Rightarrow> PartialEnabled \<Rightarrow> LocalStorage" where
  "saveParameterEnabled zparse stringify ls parameterEnabled =
     (case zparse parameterEnabledSchema (enabled_json parameterEnabled) of
        None \<Rightarrow> ls
      | Some parsed \<Rightarrow> nullish (writeStoredValue stringify ls STORAGE_KEYS_PARAMETER_ENABLED parsed) ls)"

definition clearPlaygroundData :: "LocalStorage \<Rightarrow> LocalStorage" where
  "clearPlaygroundData ls =
     removeItem (removeItem (removeItem ls STORAGE_KEYS_CONFIG) STORAGE_KEYS_PARAMETER_ENABLED) STORAGE_KEYS_MESSAGES"

section \<open>playground-state-utils.ts\<close>

text \<open>The spread \<open>{ ...DEFAULT_CONFIG, ...loadConfig() }\<close>.\<close>

definition getInitialPlaygroundConfig :: "zod \<Rightarrow> (string \<Rightarrow> json option) \<Rightarrow> LocalStorage \<Rightarrow> PlaygroundConfig" where
  "getInitialPlaygroundConfig zparse parse ls =
     (let c = loadConfig zparse parse ls
      in \<lparr>cfg_model = nullish (pc_model c) (cfg_model DEFAULT_CONFIG),
          cfg_group = nullish (pc_group c) (cfg_group DEFAULT_CONFIG),
          cfg_temperature = nullish (pc_temperature c) (cfg_temperature DEFAULT_CONFIG),
          cfg_top_p = nullish (pc_top_p c) (cfg_top_p DEFAULT_CONFIG),
          cfg_max_tokens = nullish (pc_max_tokens c) (cfg_max_tokens DEFAULT_CONFIG),
          cfg_frequency_penalty = nullish (pc_frequency_penalty c) (cfg_frequency_penalty DEFAULT_CONFIG),
          cfg_presence_penalty = nullish (pc_presence_penalty c) (cfg_presence_penalty DEFAULT_CONFIG),
          cfg_seed = nullish (pc_seed c) (cfg_seed DEFAULT_CONFIG),
          cfg_stream = nullish (pc_stream c) (cfg_stream DEFAULT_CONFIG)\<rparr>)"

definition getInitialParameterEnabled :: "zod \<Rightarrow> (string \<Rightarrow> json option) \<Rightarrow> LocalStorage \<Rightarrow> ParameterEnabled" where
  "getInitialParameterEnabled zparse parse ls =
     (let e = loadParameterEnabled zparse parse ls
      in \<lparr>en_temperature = nullish (pe_temperature e) (en_temperature DEFAULT_PARAMETER_ENABLED),
          en_top_p = nullish (pe_top_p e) (en_top_p DEFAULT_PARAMETER_ENABLED),
          en_max_tokens = nullish (pe_max_tokens e) (en_max_tokens DEFAULT_PARAMETER_ENABLED),
          en_frequency_penalty = nullish (pe_frequency_penalty e) (en_frequency_penalty DEFAULT_PARAMETER_ENABLED),
          en_presence_penalty = nullish (pe_presence_penalty e) (en_presence_penalty DEFAULT_PARAMETER_ENABLED),
          en_seed = nullish (pe_seed e) (en_seed DEFAULT_PARAMETER_ENABLED)\<rparr>)"

definition getInitialMessages ::
    "zod \<Rightarrow> (string \<Rightarrow> json option) \<Rightarrow> (json \<Rightarrow> string) \<Rightarrow> LoadEnv \<Rightarrow> LocalStorage \<Rightarrow> Message list \<times> LocalStorage" where
  "getInitialMessages zparse parse stringify env ls =
     (let (loaded, ls') = loadMessages zparse parse stringify env ls in (nullish loaded [], ls'))"

datatype MessageStateUpdater = NewMessages "Message list" | UpdateMessages "Message list \<Rightarrow> Message list"

primrec applyMessageStateUpdate :: "Message list \<Rightarrow> MessageStateUpdater \<Rightarrow> Message list" where
  "applyMessageStateUpdate previousMessages (NewMessages ms) = ms"
| "applyMessageStateUpdate previousMessages (UpdateMessages f) = f previousMessages"

section \<open>Encoding and decoding\<close>

lemma nullish_opt_None [simp]: "nullish_opt x None = x" "nullish_opt None y = y" "nullish_opt (Some v) y = Some v"
  by (cases x) (simp_all add: nullish_opt_def)

lemma map_of_opt_field [simp]:
  "(m ++ map_of (opt_field k e x)) k' = (if k = k' then nullish_opt (map_option e x) (m k') else m k')"
  "map_of (opt_field k e x) k' = (if k = k' then map_option e x else None)"
  by (auto simp: opt_field_def map_add_def split: option.splits)

lemma zfield_req:
  "map_of kvs k = Some v \<Longrightarrow> z s v = Some v \<Longrightarrow> zfield z kvs (req k s) = Some [(k, v)]"
  by simp

lemma zfield_opt:
  assumes "map_of kvs k = map_option e x" "\<And>v. x = Some v \<Longrightarrow> z s (e v) = Some (e v)"
  shows "zfield z kvs (opt k s) = Some (opt_field k e x)"
  using assms by (cases x) (auto simp: opt_field_def)

lemma zobject_Cons:
  "zfield z kvs f = Some xs \<Longrightarrow> zobject z kvs fs = Some ys \<Longrightarrow> zobject z kvs (f # fs) = Some (xs @ ys)"
  by simp

lemma zobject_Nil: "zobject z kvs [] = Some []"
  by simp

lemmas zobject_intros = zobject_Cons zobject_Nil zfield_req zfield_opt

declare zfield.simps [simp del] zobject.simps [simp del]

lemma zarray_map: "(\<And>x. x \<in> set xs \<Longrightarrow> p (e x) = Some (e' x)) \<Longrightarrow> zarray p (map e xs) = Some (map e' xs)"
  by (induction xs) auto

lemma zod_simps:
  assumes "zod_laws z"
  shows "z ZString (JStr s) = Some (JStr s)" "z ZNumber (JNum n) = Some (JNum n)" "z ZBoolean (JBool b) = Some (JBool b)"
    "z (ZNullable ZString) (null_or JStr c) = Some (null_or JStr c)"
    "z (ZNullable ZNumber) (null_or JNum n') = Some (null_or JNum n')"
    "z messageRoleSchema (JStr (role_text r)) = Some (JStr (role_text r))"
    "z messageStatusSchema (JStr (status_text st)) = Some (JStr (status_text st))"
    "z (ZArray k t) (JArr vs) = (if k \<le> length vs then map_option JArr (zarray (z t) vs) else None)"
  using assms
  by (cases c; cases n'; cases r; cases st; simp add: zod_laws_def messageRoleSchema_def messageStatusSchema_def)+

lemma zod_object:
  assumes "zod_laws z" "zobject z kvs fs = Some ys"
  shows "z (ZObject fs) (JObj kvs) = Some (JObj ys)"
  using assms by (simp add: zod_laws_def)

lemma zod_version:
  assumes "zod_laws z" shows "z messageVersionSchema (version_json v) = Some (version_json v)"
proof -
  have "version_json v = JObj ([(''id'', JStr (version_id v))] @ [(''content'', JStr (version_content v))] @ [])"
    by (simp add: version_json_def)
  then show ?thesis unfolding messageVersionSchema_def
    by (simp only:) (rule zod_object [OF assms], intro zobject_intros, simp_all add: zod_simps [OF assms])
qed

lemma zod_source:
  assumes "zod_laws z" shows "z sourceSchema (source_json v) = Some (source_json v)"
proof -
  have "source_json v = JObj ([(''href'', JStr (source_href v))] @ [(''title'', JStr (source_title v))] @ [])"
    by (simp add: source_json_def)
  then show ?thesis unfolding sourceSchema_def
    by (simp only:) (rule zod_object [OF assms], intro zobject_intros, simp_all add: zod_simps [OF assms])
qed

lemma zod_reasoning:
  assumes "zod_laws z" shows "z reasoningSchema (reasoning_json r) = Some (reasoning_json r)"
proof -
  have "reasoning_json r = JObj ([(''content'', JStr (reason_content r))] @ [(''duration'', JNum (reason_duration r))] @
      opt_field ''startedAt'' JNum (reason_startedAt r) @ opt_field ''completedAt'' JNum (reason_completedAt r) @
      opt_field ''durationMs'' JNum (reason_durationMs r) @ [])"
    by (simp add: reasoning_json_def)
  then show ?thesis unfolding reasoningSchema_def
    by (simp only:) (rule zod_object [OF assms], intro zobject_intros, simp_all add: zod_simps [OF assms])
qed

definition strip_events :: "Message \<Rightarrow> Message" where
  "strip_events m = m\<lparr>msg_pluginEvents := None\<rparr>"

lemma message_json_strip: "message_json (strip_events m) = JObj (message_fields m)"
  by (simp add: message_json_def strip_events_def message_fields_def opt_field_def [of "''pluginEvents''"])

lemma zod_message:
  assumes "zod_laws z" "msg_versions m \<noteq> []"
  shows "z messageSchema (message_json m) = Some (message_json (strip_events m))"
proof -
  have fields: "message_fields m =
     [(''key'', JStr (msg_key m))] @ [(''from'', JStr (role_text (msg_from m)))] @
      [(''versions'', JArr (map version_json (msg_versions m)))] @
      opt_field ''createdAt'' JNum (msg_createdAt m) @ opt_field ''startedAt'' JNum (msg_startedAt m) @
      opt_field ''completedAt'' JNum (msg_completedAt m) @ opt_field ''durationMs'' JNum (msg_durationMs m) @
      opt_field ''sources'' (\<lambda>ss. JArr (map source_json ss)) (msg_sources m) @
      opt_field ''reasoning'' reasoning_json (msg_reasoning m) @
      opt_field ''isReasoningStreaming'' JBool (msg_isReasoningStreaming m) @
      opt_field ''isReasoningComplete'' JBool (msg_isReasoningComplete m) @
      opt_field ''isContentComplete'' JBool (msg_isContentComplete m) @
      opt_field ''status'' (\<lambda>s. JStr (status_text s)) (msg_status m) @
      opt_field ''errorCode'' (null_or JStr) (msg_errorCode m) @ []"
    by (simp add: message_fields_def)
  have len: "Suc 0 \<le> length (msg_versions m)" using assms(2) by (cases "msg_versions m") auto
  have "zobject z (message_fields m @ opt_field ''pluginEvents'' (\<lambda>es. JArr (map event_json es)) (msg_pluginEvents m))
      (case messageSchema of ZObject fs \<Rightarrow> fs) = Some (message_fields m)"
    unfolding messageSchema_def schema.case
    apply (subst (2) fields)
    apply (intro zobject_intros)
    unfolding message_fields_def
    by (simp_all add: zod_simps [OF assms(1)] zod_source [OF assms(1)] zod_reasoning [OF assms(1)]
      zod_version [OF assms(1)] zarray_map [where e' = source_json] zarray_map [where e' = version_json] len)
  then show ?thesis
    unfolding message_json_strip
    unfolding message_json_def messageSchema_def schema.case by (rule zod_object [OF assms(1)])
qed

lemma zod_messages:
  assumes "zod_laws z" "\<And>m. m \<in> set ms \<Longrightarrow> msg_versions m \<noteq> []"
  shows "z messagesSchema (messages_json ms) = Some (messages_json (map strip_events ms))"
  by (simp add: messagesSchema_def messages_json_def zod_simps [OF assms(1)] zod_message [OF assms]
    zarray_map [where e' = "\<lambda>m. message_json (strip_events m)"] o_def)

lemma map_option_comp_id: "(\<And>v. f (e v) = v) \<Longrightarrow> map_option f (map_option e x) = x"
  by (cases x) auto

lemma as_inverses [simp]:
  "as_text (map_option JStr s) = s" "as_num (map_option JNum n) = n" "as_bool (map_option JBool b) = b"
  "as_list (map_option (\<lambda>v. JArr (f v)) l) = map_option f l" "as_text (map_option (\<lambda>v. JStr (g v)) y) = map_option g y"
  "as_nullable as_text (map_option (null_or JStr) c) = c" "as_nullable as_num (map_option (null_or JNum) k) = k"
  apply (cases s; cases n; cases b; cases l; cases y; simp; fail)+
  apply (cases c; simp; cases "the c"; simp)
  apply (cases k; simp; cases "the k"; simp)
  done

lemma role_status_inverse [simp]: "role_of_text (role_text r) = r" "status_of_text (status_text s) = s"
  by (cases r; cases s; simp add: role_of_text_def status_of_text_def)+

lemma version_inverse [simp]: "version_of_json (version_json v) = v"
  by (simp add: version_of_json_def version_json_def text_of_def nullish_def)

lemma source_inverse [simp]: "source_of_json (source_json v) = v"
  by (simp add: source_of_json_def source_json_def text_of_def nullish_def)

lemma reasoning_inverse [simp]: "reasoning_of_json (reasoning_json v) = v"
  by (simp add: reasoning_of_json_def reasoning_json_def text_of_def nullish_def)

lemma message_inverse: "message_of_json (message_json (strip_events m)) = strip_events m"
  unfolding message_json_strip
  by (simp add: message_of_json_def message_fields_def text_of_def strip_events_def nullish_def o_def map_option_comp_id)

lemma messages_inverse: "messages_of_json (messages_json (map strip_events ms)) = map strip_events ms"
  by (induction ms) (simp_all add: messages_of_json_def messages_json_def nullish_def message_inverse)


lemma zod_config:
  assumes "zod_laws z"
  shows "z playgroundConfigSchema (config_json c) = Some (config_json c)"
proof -
  have "config_json c = JObj (opt_field ''model'' JStr (pc_model c) @ opt_field ''group'' JStr (pc_group c) @
      opt_field ''temperature'' JNum (pc_temperature c) @ opt_field ''top_p'' JNum (pc_top_p c) @
      opt_field ''max_tokens'' JNum (pc_max_tokens c) @
      opt_field ''frequency_penalty'' JNum (pc_frequency_penalty c) @
      opt_field ''presence_penalty'' JNum (pc_presence_penalty c) @
      opt_field ''seed'' (null_or JNum) (pc_seed c) @ opt_field ''stream'' JBool (pc_stream c) @ [])"
    by (simp add: config_json_def)
  then show ?thesis unfolding playgroundConfigSchema_def
    by (simp only:) (rule zod_object [OF assms], intro zobject_intros, simp_all add: zod_simps [OF assms])
qed

lemma config_inverse: "config_of_json (config_json c) = c"
  by (simp add: config_of_json_def config_json_def option.map_ident)

lemma zod_enabled:
  assumes "zod_laws z"
  shows "z parameterEnabledSchema (enabled_json e) = Some (enabled_json e)"
proof -
  have "enabled_json e = JObj (opt_field ''temperature'' JBool (pe_temperature e) @ opt_field ''top_p'' JBool (pe_top_p e) @
      opt_field ''max_tokens'' JBool (pe_max_tokens e) @
      opt_field ''frequency_penalty'' JBool (pe_frequency_penalty e) @
      opt_field ''presence_penalty'' JBool (pe_presence_penalty e) @ opt_field ''seed'' JBool (pe_seed e) @ [])"
    by (simp add: enabled_json_def)
  then show ?thesis unfolding parameterEnabledSchema_def
    by (simp only:) (rule zod_object [OF assms], intro zobject_intros, simp_all add: zod_simps [OF assms])
qed

lemma enabled_inverse: "enabled_of_json (enabled_json e) = e"
  by (simp add: enabled_of_json_def enabled_json_def)

lemma unwrap_envelope [simp]: "unwrapStoredValue (envelope v) = v" "json_truthy (envelope v)"
  by (simp_all add: envelope_def)

section \<open>Storage laws\<close>

text \<open>
  What a typed entry of the storage promises: after an accepted save the entry reads back
  and no other entry changes; a refused save changes nothing.  The three entries of the
  playground implement it.
\<close>

locale stored_entry =
  fixes key :: string
    and save :: "(json \<Rightarrow> string) \<Rightarrow> LocalStorage \<Rightarrow> 'a \<Rightarrow> LocalStorage"
    and data_of :: "'a \<Rightarrow> json"
    and ok :: "'a \<Rightarrow> bool"
  assumes save_ok: "ok x \<Longrightarrow> save stringify ls x = nullish (setItem ls key (stringify (envelope (data_of x)))) ls"
begin

lemma save_get:
  "ok x \<Longrightarrow> getItem (save stringify ls x) k =
     (if k = key \<and> ls_accepts ls key (stringify (envelope (data_of x))) then Some (stringify (envelope (data_of x)))
      else getItem ls k)"
  by (auto simp: save_ok setItem_def getItem_def nullish_def)

lemma save_accepts: "ok x \<Longrightarrow> ls_accepts (save stringify ls x) = ls_accepts ls"
  by (auto simp: save_ok setItem_def nullish_def)

lemma save_idem:
  "ok x \<Longrightarrow> save stringify (save stringify ls x) x = save stringify ls x"
  by (auto simp: save_ok setItem_def nullish_def)

lemma save_reads:
  assumes "ok x" "ls_accepts ls key (stringify (envelope (data_of x)))" "stringify (envelope (data_of x)) \<noteq> []"
    "parse (stringify (envelope (data_of x))) = Some (envelope (data_of x))"
  shows "readStoredValue parse (save stringify ls x) key = Some (envelope (data_of x))"
  using assms by (simp add: readStoredValue_def save_get truthy_string_def)

end

interpretation config_entry: stored_entry STORAGE_KEYS_CONFIG "saveConfig z" config_json "\<lambda>_. zod_laws z" for z
  by unfold_locales (simp add: saveConfig_def zod_config writeStoredValue_def)

interpretation enabled_entry: stored_entry STORAGE_KEYS_PARAMETER_ENABLED "saveParameterEnabled z" enabled_json
    "\<lambda>_. zod_laws z" for z
  by unfold_locales (simp add: saveParameterEnabled_def zod_enabled writeStoredValue_def)

definition has_versions :: "Message list \<Rightarrow> bool" where
  "has_versions ms \<longleftrightarrow> list_all (\<lambda>m. msg_versions m \<noteq> []) ms"

definition saved_json :: "Message list \<Rightarrow> json" where
  "saved_json ms = messages_json (map strip_events (trimMessages ms))"

lemma trimMessages_suffix: "suffix (trimMessages ms) ms"
  by (simp add: trimMessages_def last_n_suffix)

lemma has_versions_trim: "has_versions ms \<Longrightarrow> has_versions (trimMessages ms)"
  using set_mono_suffix [OF trimMessages_suffix] by (auto simp: has_versions_def list_all_iff)

interpretation messages_entry: stored_entry STORAGE_KEYS_MESSAGES "saveMessages z" saved_json
    "\<lambda>ms. zod_laws z \<and> has_versions ms" for z
proof unfold_locales
  fix stringify ls and x :: "Message list" assume ok: "zod_laws z \<and> has_versions x"
  then have "\<And>m. m \<in> set (trimMessages x) \<Longrightarrow> msg_versions m \<noteq> []"
    using has_versions_trim by (auto simp: has_versions_def list_all_iff)
  with ok show "saveMessages z stringify ls x = nullish (setItem ls STORAGE_KEYS_MESSAGES (stringify (envelope (saved_json x)))) ls"
    by (simp add: saveMessages_def zod_messages writeStoredValue_def saved_json_def)
qed

lemma keys_distinct [simp]:
  "STORAGE_KEYS_CONFIG \<noteq> STORAGE_KEYS_MESSAGES" "STORAGE_KEYS_CONFIG \<noteq> STORAGE_KEYS_PARAMETER_ENABLED"
  "STORAGE_KEYS_MESSAGES \<noteq> STORAGE_KEYS_PARAMETER_ENABLED"
  by (simp_all add: STORAGE_KEYS_CONFIG_def STORAGE_KEYS_MESSAGES_def STORAGE_KEYS_PARAMETER_ENABLED_def)

section \<open>Trimming by size\<close>

definition total_size :: "Message list \<Rightarrow> nat" where
  "total_size ms = sum_list (map getMessageSize ms)"

lemma size_loop_spec:
  assumes "result \<noteq> []" "totalSize = total_size result"
  shows "\<exists>n. size_loop ms totalSize result = result @ take n ms \<and>
    (total_size (result @ take n ms) \<le> MAX_LOADED_MESSAGES_CHARS \<or> n = 0) \<and>
    (n < length ms \<longrightarrow> total_size (result @ take n ms) + getMessageSize (ms ! n) > MAX_LOADED_MESSAGES_CHARS) \<and> n \<le> length ms"
  using assms
proof (induction ms totalSize result rule: size_loop.induct)
  case (1 t r)
  then show ?case by simp
next
  case (2 m ms t r)
  show ?case
  proof (cases "t + getMessageSize m > MAX_LOADED_MESSAGES_CHARS")
    case True
    with 2 show ?thesis by (intro exI [of _ 0]) simp
  next
    case False
    have "t + getMessageSize m = total_size (r @ [m])" using 2 by (simp add: total_size_def)
    with 2 False obtain n where n: "size_loop ms (t + getMessageSize m) (r @ [m]) = (r @ [m]) @ take n ms"
      "total_size ((r @ [m]) @ take n ms) \<le> MAX_LOADED_MESSAGES_CHARS \<or> n = 0"
      "n < length ms \<longrightarrow> total_size ((r @ [m]) @ take n ms) + getMessageSize (ms ! n) > MAX_LOADED_MESSAGES_CHARS" "n \<le> length ms"
      by auto
    with 2 False show ?thesis by (intro exI [of _ "Suc n"]) (auto simp: total_size_def)
  qed
qed

lemma trim_size_spec:
  obtains pre where "ms = pre @ trimMessagesByContentSize ms"
    "ms = [] \<or> trimMessagesByContentSize ms \<noteq> []"
    "total_size (trimMessagesByContentSize ms) \<le> MAX_LOADED_MESSAGES_CHARS \<or> length (trimMessagesByContentSize ms) = 1"
    "pre = [] \<or> total_size (last pre # trimMessagesByContentSize ms) > MAX_LOADED_MESSAGES_CHARS"
proof (cases ms rule: rev_cases)
  case Nil
  then show ?thesis using that [of "[]"] by (simp add: trimMessagesByContentSize_def total_size_def)
next
  case (snoc ys y)
  from size_loop_spec [of "[y]" "getMessageSize y" "rev ys"] obtain n where n:
    "size_loop (rev ys) (getMessageSize y) [y] = y # take n (rev ys)"
    "total_size (y # take n (rev ys)) \<le> MAX_LOADED_MESSAGES_CHARS \<or> n = 0"
    "n < length ys \<longrightarrow> total_size (y # take n (rev ys)) + getMessageSize (rev ys ! n) > MAX_LOADED_MESSAGES_CHARS"
    "n \<le> length ys"
    by (auto simp: total_size_def)
  have t: "trimMessagesByContentSize ms = drop (length ys - n) ys @ [y]"
    using n(1) by (simp add: trimMessagesByContentSize_def snoc rev_take)
  have ts: "total_size (drop (length ys - n) ys @ [y]) = total_size (y # take n (rev ys))"
    using n(4) by (simp add: total_size_def take_rev rev_map [symmetric] sum_list_rev)
  show ?thesis
  proof (rule that [of "take (length ys - n) ys"])
    show "take (length ys - n) ys = [] \<or> total_size (last (take (length ys - n) ys) # trimMessagesByContentSize ms) > MAX_LOADED_MESSAGES_CHARS"
    proof (cases "n < length ys")
      case True
      moreover from True have "length ys \<le> length ys - n \<Longrightarrow> n = 0" by linarith
      ultimately have "last (take (length ys - n) ys) = rev ys ! n"
        by (subst last_conv_nth) (auto simp: rev_nth min_def)
      then show ?thesis using True n(3) ts by (simp add: t total_size_def)
    qed (use n(4) in simp)
  qed (use t ts n snoc in auto)
qed


section \<open>Loading what was saved\<close>

definition storable :: "Message \<Rightarrow> bool" where
  "storable m \<longleftrightarrow> msg_versions m \<noteq> [] \<and> \<not> load_changed m \<and> \<not> isAssistantMessagePending m"

lemma storable_strip [simp]: "storable (strip_events m) = storable m"
  by (simp add: storable_def strip_events_def load_changed_def isAssistantMessagePending_def)

lemma normalize_storable: "storable m \<Longrightarrow> normalizeStoredMessageForLoad t0 t1 t2 m = m"
  by (simp add: storable_def normalizeStoredMessageForLoad_def load_normalized_def load_finalizes_def)

lemma normalize_all_storable: "list_all storable ms \<Longrightarrow> load_normalize_all env ms = ms"
  unfolding load_normalize_all_def
  by (rule nth_equalityI) (auto simp: nth_enumerate_eq list_all_length normalize_storable)

lemma size_loop_all:
  "t + total_size ms \<le> MAX_LOADED_MESSAGES_CHARS \<Longrightarrow> size_loop ms t result = result @ ms"
  by (induction ms t result rule: size_loop.induct) (auto simp: total_size_def)

lemma total_size_rev [simp]: "total_size (rev ms) = total_size ms"
  by (simp add: total_size_def rev_map [symmetric] sum_list_rev)

lemma trim_size_all: "total_size ms \<le> MAX_LOADED_MESSAGES_CHARS \<Longrightarrow> trimMessagesByContentSize ms = ms"
  by (simp add: trimMessagesByContentSize_def size_loop_all)

lemma sanitize_none: "list_all (\<lambda>m. \<not> isPendingAssistantMessage m) ms \<Longrightarrow> load_sanitize env ms = ms"
  by (simp add: load_sanitize_def sanitizeMessagesOnLoad_def scan_down_None_set [THEN iffD2] list_all_iff)

lemma size_strip [simp]: "getMessageSize (strip_events m) = getMessageSize m"
  by (simp add: getMessageSize_def strip_events_def)

lemma strip_twice [simp]: "strip_events (strip_events m) = strip_events m"
  by (simp add: strip_events_def)

lemma total_size_strip [simp]: "total_size (map strip_events ms) = total_size ms"
  by (simp add: total_size_def o_def)

lemma load_pipeline_storable:
  assumes "list_all storable ms" "length ms \<le> MAX_STORED_MESSAGES" "total_size ms \<le> MAX_LOADED_MESSAGES_CHARS"
  shows "load_sanitize env (trimMessagesByContentSize (trimMessages (load_normalize_all env ms))) = ms"
proof -
  have "list_all (\<lambda>m. \<not> isPendingAssistantMessage m) ms"
    using assms(1) by (auto simp: list_all_iff storable_def isPendingAssistantMessage_def)
  then show ?thesis using assms by (simp add: normalize_all_storable trimMessages_def trim_size_all sanitize_none)
qed

definition fits_storage :: "LocalStorage \<Rightarrow> string \<Rightarrow> string \<Rightarrow> bool" where
  "fits_storage ls key body \<longleftrightarrow> ls_accepts ls key body \<and> body \<noteq> [] \<and> length body \<le> MAX_STORED_MESSAGES_BYTES"

lemma reload_saved:
  assumes "zod_laws zparse"
    and "parse (stringify (envelope (saved_json ms))) = Some (envelope (saved_json ms))"
    and "fits_storage ls STORAGE_KEYS_MESSAGES (stringify (envelope (saved_json ms)))"
    and "list_all storable ms" and "length ms \<le> MAX_STORED_MESSAGES" and "total_size ms \<le> MAX_LOADED_MESSAGES_CHARS"
  shows "loadMessages zparse parse stringify env (saveMessages zparse stringify ls ms) =
    (Some (map strip_events ms), saveMessages zparse stringify ls ms)"
proof -
  have hv: "has_versions ms" "has_versions (map strip_events ms)"
    using assms(4) by (auto simp: has_versions_def list_all_iff storable_def strip_events_def)
  then have ok: "zod_laws zparse \<and> has_versions ms" using assms(1) by simp
  have tr: "trimMessages ms = ms" "saved_json ms = messages_json (map strip_events ms)"
    using assms(5) by (simp_all add: trimMessages_def saved_json_def)
  have strip: "map strip_events (map strip_events ms) = map strip_events ms"
    by simp
  have same: "saved_json (map strip_events ms) = saved_json ms"
    using assms(5) by (simp add: saved_json_def trimMessages_def o_def)
  have "getItem (saveMessages zparse stringify ls ms) STORAGE_KEYS_MESSAGES = Some (stringify (envelope (saved_json ms)))"
    using messages_entry.save_get [OF ok] assms(3) by (simp add: fits_storage_def)
  then have read: "readStoredMessagesValue parse (saveMessages zparse stringify ls ms) =
    (Some (envelope (saved_json ms)), saveMessages zparse stringify ls ms)"
    using assms(2,3) by (simp add: readStoredMessagesValue_def truthy_string_def fits_storage_def Let_def)
  have z: "zparse messagesSchema (saved_json ms) = Some (saved_json ms)"
    unfolding tr(2) by (subst zod_messages [OF assms(1)]) (use hv(2) in \<open>auto simp: has_versions_def list_all_iff o_def\<close>)
  have p: "load_sanitize env (trimMessagesByContentSize (trimMessages (load_normalize_all env (map strip_events ms)))) = map strip_events ms"
    using assms(4,5,6) by (intro load_pipeline_storable) (simp_all add: list_all_iff)
  have "saveMessages zparse stringify (saveMessages zparse stringify ls ms) (map strip_events ms) =
    saveMessages zparse stringify (saveMessages zparse stringify ls ms) ms"
    using messages_entry.save_ok [of zparse "map strip_events ms"] messages_entry.save_ok [OF ok] hv(2) assms(1) same by simp
  with messages_entry.save_idem [OF ok] read z p show ?thesis
    by (simp add: loadMessages_def Let_def tr(2) messages_inverse load_must_save_def)
qed


text \<open>
  A finished conversation survives a reload.  When at most 100 messages with at most
  120000 characters in all are saved, none of them pending or subject to the collapsing and
  truncation of a load, and the storage accepts the text, loading returns them in order,
  every field intact except the plugin events, which the schema drops; the load leaves the
  storage as the save made it.  \<open>JSON.parse\<close> is only assumed to invert \<open>JSON.stringify\<close>
  on the saved value.
\<close>

theorem saved_conversation_reloads:
  assumes "zod_laws zparse"
    and "parse (stringify (envelope (saved_json ms))) = Some (envelope (saved_json ms))"
    and "fits_storage ls STORAGE_KEYS_MESSAGES (stringify (envelope (saved_json ms)))"
    and "list_all storable ms" and "length ms \<le> MAX_STORED_MESSAGES" and "total_size ms \<le> MAX_LOADED_MESSAGES_CHARS"
  shows "loadMessages zparse parse stringify env (saveMessages zparse stringify ls ms) =
    (Some (map strip_events ms), saveMessages zparse stringify ls ms)"
  using assms by (rule reload_saved)

text \<open>A zod that follows the laws.\<close>

fun zod_ref :: "schema \<Rightarrow> json \<Rightarrow> json option"
  and zod_ref_fields :: "(string \<times> bool \<times> schema) list \<Rightarrow> (string \<times> json) list \<Rightarrow> (string \<times> json) list option" where
  "zod_ref ZString v = (case v of JStr _ \<Rightarrow> Some v | _ \<Rightarrow> None)"
| "zod_ref ZNumber v = (case v of JNum _ \<Rightarrow> Some v | _ \<Rightarrow> None)"
| "zod_ref ZBoolean v = (case v of JBool _ \<Rightarrow> Some v | _ \<Rightarrow> None)"
| "zod_ref (ZEnum xs) v = (case v of JStr s \<Rightarrow> if s \<in> set xs then Some v else None | _ \<Rightarrow> None)"
| "zod_ref (ZNullable s) v = (if v = JNull then Some JNull else zod_ref s v)"
| "zod_ref (ZArray n s) v =
     (case v of JArr vs \<Rightarrow> if n \<le> length vs then map_option JArr (zarray (\<lambda>w. zod_ref s w) vs) else None | _ \<Rightarrow> None)"
| "zod_ref (ZObject fs) v = (case v of JObj kvs \<Rightarrow> map_option JObj (zod_ref_fields fs kvs) | _ \<Rightarrow> None)"
| "zod_ref_fields [] kvs = Some []"
| "zod_ref_fields ((k, isOptional, s) # fs) kvs =
     (case (case map_of kvs k of
              None \<Rightarrow> if isOptional then Some [] else None
            | Some v \<Rightarrow> map_option (\<lambda>r. [(k, r)]) (zod_ref s v)) of
        None \<Rightarrow> None
      | Some xs \<Rightarrow> map_option ((@) xs) (zod_ref_fields fs kvs))"

lemma zod_ref_laws: "zod_laws zod_ref"
proof -
  have "zobject zod_ref kvs fs = zod_ref_fields fs kvs" for kvs fs
    by (induction fs) (auto simp: zobject.simps zfield.simps cong: option.case_cong)
  then show ?thesis by (simp add: zod_laws_def split: json.split)
qed

definition sample_turn :: "Message list" where
  "sample_turn =
     [createUserMessage ''m1'' ''v1'' ''Hi'' 1,
      completeAssistantMessage (appendPluginEvent (applyStreamingChunk (createLoadingAssistantMessage ''m2'' ''v2'' 2) ContentChunk ''Hello'' 3 3)
        (Interim ''x'') ''e1'') 4 4 4]"

definition free_storage :: LocalStorage where
  "free_storage = \<lparr>ls_items = (\<lambda>_. None), ls_accepts = (\<lambda>_ _. True)\<rparr>"

definition sample_env :: LoadEnv where
  "sample_env = \<lparr>env_tr = (\<lambda>s. s), env_now0 = (\<lambda>_. 9), env_now1 = (\<lambda>_. 9), env_now2 = (\<lambda>_. 9),
     env_sanitize1 = 9, env_sanitize2 = 9, env_sanitize3 = 9\<rparr>"

theorem saved_conversation_reloads_witness:
  "loadMessages zod_ref (\<lambda>_. Some (envelope (saved_json sample_turn))) (\<lambda>_. ''text'') sample_env
      (saveMessages zod_ref (\<lambda>_. ''text'') free_storage sample_turn) =
    (Some (map strip_events sample_turn), saveMessages zod_ref (\<lambda>_. ''text'') free_storage sample_turn)"
proof (rule saved_conversation_reloads [OF zod_ref_laws])
  show "list_all storable sample_turn" by code_simp
  show "fits_storage free_storage STORAGE_KEYS_MESSAGES ''text''"
    by (simp add: fits_storage_def free_storage_def MAX_STORED_MESSAGES_BYTES_def)
  show "length sample_turn \<le> MAX_STORED_MESSAGES" by code_simp
  show "total_size sample_turn \<le> MAX_LOADED_MESSAGES_CHARS" by code_simp
qed simp

text \<open>
  A load keeps the newest messages.  What is left of a conversation is a suffix of it,
  never empty unless the conversation is, at most 100 messages, at most 120000 characters
  unless a single message is longer, and it is maximal: the next older message of the
  hundred newest would exceed the limit.
\<close>

theorem load_keeps_newest:
  "\<exists>pre. trimMessages ms = pre @ trimMessagesByContentSize (trimMessages ms) \<and>
     suffix (trimMessagesByContentSize (trimMessages ms)) ms \<and>
     (trimMessagesByContentSize (trimMessages ms) = [] \<longleftrightarrow> ms = []) \<and>
     length (trimMessagesByContentSize (trimMessages ms)) \<le> MAX_STORED_MESSAGES \<and>
     (total_size (trimMessagesByContentSize (trimMessages ms)) \<le> MAX_LOADED_MESSAGES_CHARS \<or>
      length (trimMessagesByContentSize (trimMessages ms)) = 1) \<and>
     (pre = [] \<or> total_size (last pre # trimMessagesByContentSize (trimMessages ms)) > MAX_LOADED_MESSAGES_CHARS)"
proof -
  obtain pre where pre: "trimMessages ms = pre @ trimMessagesByContentSize (trimMessages ms)"
    "trimMessages ms = [] \<or> trimMessagesByContentSize (trimMessages ms) \<noteq> []"
    "total_size (trimMessagesByContentSize (trimMessages ms)) \<le> MAX_LOADED_MESSAGES_CHARS \<or>
      length (trimMessagesByContentSize (trimMessages ms)) = 1"
    "pre = [] \<or> total_size (last pre # trimMessagesByContentSize (trimMessages ms)) > MAX_LOADED_MESSAGES_CHARS"
    by (rule trim_size_spec)
  have len: "length (trimMessages ms) \<le> MAX_STORED_MESSAGES" by (simp add: trimMessages_def)
  have "trimMessages ms = [] \<longleftrightarrow> ms = []" by (auto simp: trimMessages_def last_n_def MAX_STORED_MESSAGES_def)
  moreover have "length (trimMessagesByContentSize (trimMessages ms)) \<le> length (trimMessages ms)"
    by (subst (2) pre(1)) simp
  moreover have "suffix (trimMessagesByContentSize (trimMessages ms)) (trimMessages ms)"
    using pre(1) by (rule suffixI)
  moreover have "trimMessagesByContentSize [] = []" by (simp add: trimMessagesByContentSize_def)
  moreover from calculation(3) have "suffix (trimMessagesByContentSize (trimMessages ms)) ms"
    using trimMessages_suffix by (rule suffix_order.trans)
  ultimately show ?thesis using pre(2-4) len by (intro exI [of _ pre] conjI pre(1)) auto
qed

definition full_config :: "PlaygroundConfig \<Rightarrow> PartialConfig" where
  "full_config c = \<lparr>pc_model = Some (cfg_model c), pc_group = Some (cfg_group c), pc_temperature = Some (cfg_temperature c),
     pc_top_p = Some (cfg_top_p c), pc_max_tokens = Some (cfg_max_tokens c),
     pc_frequency_penalty = Some (cfg_frequency_penalty c), pc_presence_penalty = Some (cfg_presence_penalty c),
     pc_seed = Some (cfg_seed c), pc_stream = Some (cfg_stream c)\<rparr>"

definition full_enabled :: "ParameterEnabled \<Rightarrow> PartialEnabled" where
  "full_enabled e = \<lparr>pe_temperature = Some (en_temperature e), pe_top_p = Some (en_top_p e),
     pe_max_tokens = Some (en_max_tokens e), pe_frequency_penalty = Some (en_frequency_penalty e),
     pe_presence_penalty = Some (en_presence_penalty e), pe_seed = Some (en_seed e)\<rparr>"

text \<open>
  The settings survive a reload: after the configuration and then the enabled
  parameters are saved, the initial state of the next session is exactly what was saved,
  an unset seed included.
\<close>

theorem saved_settings_reload:
  assumes "zod_laws zparse"
    and "parse (stringify (envelope (config_json (full_config c)))) = Some (envelope (config_json (full_config c)))"
    and "parse (stringify (envelope (enabled_json (full_enabled e)))) = Some (envelope (enabled_json (full_enabled e)))"
    and "fits_storage ls STORAGE_KEYS_CONFIG (stringify (envelope (config_json (full_config c))))"
    and "fits_storage ls STORAGE_KEYS_PARAMETER_ENABLED (stringify (envelope (enabled_json (full_enabled e))))"
  shows "getInitialPlaygroundConfig zparse parse
      (saveParameterEnabled zparse stringify (saveConfig zparse stringify ls (full_config c)) (full_enabled e)) = c \<and>
    getInitialParameterEnabled zparse parse
      (saveParameterEnabled zparse stringify (saveConfig zparse stringify ls (full_config c)) (full_enabled e)) = e"
proof -
  let ?ls = "saveConfig zparse stringify ls (full_config c)"
  let ?ls' = "saveParameterEnabled zparse stringify ?ls (full_enabled e)"
  have "readStoredValue parse ?ls STORAGE_KEYS_CONFIG = Some (envelope (config_json (full_config c)))"
    using assms by (intro config_entry.save_reads) (auto simp: fits_storage_def)
  moreover have "getItem ?ls' STORAGE_KEYS_CONFIG = getItem ?ls STORAGE_KEYS_CONFIG"
    using assms(1) by (simp add: enabled_entry.save_get)
  ultimately have c: "readStoredValue parse ?ls' STORAGE_KEYS_CONFIG = Some (envelope (config_json (full_config c)))"
    unfolding readStoredValue_def by (simp only:)
  have e: "readStoredValue parse ?ls' STORAGE_KEYS_PARAMETER_ENABLED = Some (envelope (enabled_json (full_enabled e)))"
    using assms by (intro enabled_entry.save_reads) (auto simp: fits_storage_def config_entry.save_accepts)
  show ?thesis using assms(1) c e
    by (simp add: getInitialPlaygroundConfig_def getInitialParameterEnabled_def loadConfig_def loadParameterEnabled_def
      zod_config zod_enabled config_inverse enabled_inverse full_config_def full_enabled_def nullish_def)
qed

theorem saved_settings_reload_witness:
  "getInitialPlaygroundConfig zod_ref (\<lambda>s. if s = ''c'' then Some (envelope (config_json (full_config DEFAULT_CONFIG)))
        else Some (envelope (enabled_json (full_enabled DEFAULT_PARAMETER_ENABLED))))
      (saveParameterEnabled zod_ref (\<lambda>v. if v = envelope (config_json (full_config DEFAULT_CONFIG)) then ''c'' else ''e'')
        (saveConfig zod_ref (\<lambda>v. if v = envelope (config_json (full_config DEFAULT_CONFIG)) then ''c'' else ''e'')
          free_storage (full_config DEFAULT_CONFIG)) (full_enabled DEFAULT_PARAMETER_ENABLED)) = DEFAULT_CONFIG \<and>
    getInitialParameterEnabled zod_ref (\<lambda>s. if s = ''c'' then Some (envelope (config_json (full_config DEFAULT_CONFIG)))
        else Some (envelope (enabled_json (full_enabled DEFAULT_PARAMETER_ENABLED))))
      (saveParameterEnabled zod_ref (\<lambda>v. if v = envelope (config_json (full_config DEFAULT_CONFIG)) then ''c'' else ''e'')
        (saveConfig zod_ref (\<lambda>v. if v = envelope (config_json (full_config DEFAULT_CONFIG)) then ''c'' else ''e'')
          free_storage (full_config DEFAULT_CONFIG)) (full_enabled DEFAULT_PARAMETER_ENABLED)) = DEFAULT_PARAMETER_ENABLED"
proof (rule saved_settings_reload [OF zod_ref_laws])
  have ne: "envelope (enabled_json (full_enabled DEFAULT_PARAMETER_ENABLED)) \<noteq> envelope (config_json (full_config DEFAULT_CONFIG))"
    by code_simp
  show "(if (if envelope (config_json (full_config DEFAULT_CONFIG)) = envelope (config_json (full_config DEFAULT_CONFIG))
      then ''c'' else ''e'') = ''c'' then Some (envelope (config_json (full_config DEFAULT_CONFIG)))
      else Some (envelope (enabled_json (full_enabled DEFAULT_PARAMETER_ENABLED)))) = Some (envelope (config_json (full_config DEFAULT_CONFIG)))"
    by simp
  show "(if (if envelope (enabled_json (full_enabled DEFAULT_PARAMETER_ENABLED)) = envelope (config_json (full_config DEFAULT_CONFIG))
      then ''c'' else ''e'') = ''c'' then Some (envelope (config_json (full_config DEFAULT_CONFIG)))
      else Some (envelope (enabled_json (full_enabled DEFAULT_PARAMETER_ENABLED)))) = Some (envelope (enabled_json (full_enabled DEFAULT_PARAMETER_ENABLED)))"
    using ne by simp
qed (simp_all add: fits_storage_def free_storage_def MAX_STORED_MESSAGES_BYTES_def)

text \<open>Headings of one letter, each on a line, before a text without headings.\<close>

fun heading_lines :: "string \<Rightarrow> string \<Rightarrow> string" where
  "heading_lines [] pad = pad"
| "heading_lines (h # hs) pad = ''## 1. '' @ h # char_of (10 :: nat) # heading_lines hs pad"

fun heading_occs :: "nat \<Rightarrow> string \<Rightarrow> SectionOccurrence list" where
  "heading_occs i [] = []"
| "heading_occs i (h # hs) = \<lparr>occ_heading = ''## 1. '' @ [h], occ_index = i\<rparr> # heading_occs (i + 8) hs"

lemma char_classes:
  "space_char (CHR '' '')" "\<not> space_char (CHR ''1'')" "\<not> space_char (CHR ''A'')" "\<not> space_char (CHR ''B'')"
  "digit (CHR ''1'')" "\<not> digit (CHR ''.'')" "line_end (char_of (10 :: nat))" "\<not> line_end (CHR ''A'')" "\<not> line_end (CHR ''B'')"
  by code_simp+

lemma scan_pad: "section_scan bol i (replicate n (CHR ''x'')) = []"
  by (induction n arbitrary: bol i) (auto simp: section_match_def Let_def split: option.split)

lemma match_heading:
  assumes "h = CHR ''A'' \<or> h = CHR ''B''"
  shows "section_match (''## 1. '' @ h # char_of (10 :: nat) # r) = Some 7"
  using assms char_classes by (elim disjE) (simp_all add: section_match_def title_match_def Let_def)

lemma section_scan_step: "section_scan False i (c # cs) = section_scan (line_end c) (i + 1) cs"
  by simp

lemma scan_headings:
  "list_all (\<lambda>h. h = CHR ''A'' \<or> h = CHR ''B'') hs \<Longrightarrow>
   section_scan True i (heading_lines hs (replicate n (CHR ''x''))) = heading_occs i hs"
proof (induction hs arbitrary: i)
  case Nil
  then show ?case by (simp add: scan_pad)
next
  case (Cons h hs)
  let ?r = "heading_lines hs (replicate n (CHR ''x''))"
  have "section_scan True i (''## 1. '' @ h # char_of (10 :: nat) # ?r) =
    \<lparr>occ_heading = ''## 1. '' @ [h], occ_index = i\<rparr> # section_scan False (i + 7) (char_of (10 :: nat) # ?r)"
    using match_heading [of h ?r] Cons.prems by simp
  also have "section_scan False (i + 7) (char_of (10 :: nat) # ?r) = section_scan True (i + 8) ?r"
    by (simp only: section_scan_step char_classes) (simp add: add.commute)
  finally show ?case using Cons by simp
qed

lemma length_heading_lines [simp]: "length (heading_lines hs p) = 8 * length hs + length p"
  by (induction hs) auto

lemma collapse_headings:
  assumes "list_all (\<lambda>h. h = CHR ''A'' \<or> h = CHR ''B'') hs"
  shows "collapseRepeatedSectionSnapshots (heading_lines hs (replicate 2000 (CHR ''x''))) =
    (let idx = repeated_loop (getHeadingCounts (heading_occs 0 hs)) (rev (heading_occs 0 hs)) [] []
     in if idx = [] then heading_lines hs (replicate 2000 (CHR ''x''))
        else drop (foldl min (hd idx) (tl idx)) (heading_lines hs (replicate 2000 (CHR ''x''))))"
  using scan_headings [OF assms, of 0 2000]
  by (simp add: collapseRepeatedSectionSnapshots_def findLastRepeatedSectionRunStart_def
    getSectionOccurrences_def MIN_PREFIX_COLLAPSE_LENGTH_def Let_def)

text \<open>
  Collapsing repeated sections always keeps a suffix of the text, but it is not
  idempotent: a text of three sections A followed by three sections B is cut to the last A
  and the three B by one load, and to the last B by the next, since every load saves its
  result.
\<close>

theorem collapse_not_idempotent:
  "suffix (collapseRepeatedSectionSnapshots body) body \<and>
   (\<exists>t. collapseRepeatedSectionSnapshots (collapseRepeatedSectionSnapshots t) \<noteq> collapseRepeatedSectionSnapshots t)"
proof
  show "suffix (collapseRepeatedSectionSnapshots body) body"
    by (auto simp: collapseRepeatedSectionSnapshots_def suffix_drop split: option.split)
  let ?text = "\<lambda>hs. heading_lines hs (replicate 2000 (CHR ''x''))"
  have "collapseRepeatedSectionSnapshots (?text ''AAABBB'') = ?text ''ABBB''"
    by (subst collapse_headings) (simp_all add: getHeadingCounts_def MIN_REPEATED_SECTION_COUNT_def nullish_def Let_def)
  moreover have "collapseRepeatedSectionSnapshots (?text ''ABBB'') = ?text ''B''"
    by (subst collapse_headings) (simp_all add: getHeadingCounts_def MIN_REPEATED_SECTION_COUNT_def nullish_def Let_def)
  moreover have "?text ''B'' \<noteq> ?text ''ABBB''"
    by (metis length_heading_lines add_right_cancel length_Cons list.size(3) mult_cancel1 n_not_Suc_n nat.distinct(1) old.nat.inject zero_neq_numeral)
  ultimately show "\<exists>t. collapseRepeatedSectionSnapshots (collapseRepeatedSectionSnapshots t) \<noteq> collapseRepeatedSectionSnapshots t"
    by metis
qed

end
