(* ===== verification/Playground_State.thy ===== *)
theory Playground_State
  imports Playground_Storage
begin

text \<open>
  The state of a playground page, \<open>hooks/use-playground-state.ts\<close>: the configuration saved
  with every change, and the messages, loaded once by a timer after mounting and saved by a
  debounced timer that an unmount flushes.  Refs and React states are fields of a record;
  the timers fire when the environment says so.
\<close>

section \<open>State\<close>

record page =
  pg_config :: PlaygroundConfig
  pg_parameterEnabled :: ParameterEnabled
  pg_messages :: "Message list"
  pg_isLoadingMessages :: bool
  pg_saveTimer :: bool
  pg_latestMessages :: "Message list"
  pg_hasLoadedMessages :: bool
  pg_cancelled :: bool
  pg_models :: "ModelOption list"
  pg_groups :: "GroupOption list"
  pg_storage :: LocalStorage

definition mount :: "zod \<Rightarrow> (string \<Rightarrow> json option) \<Rightarrow> LocalStorage \<Rightarrow> page" where
  "mount zparse parse ls =
     \<lparr>pg_config = getInitialPlaygroundConfig zparse parse ls,
      pg_parameterEnabled = getInitialParameterEnabled zparse parse ls,
      pg_messages = [], pg_isLoadingMessages = True, pg_saveTimer = False, pg_latestMessages = [],
      pg_hasLoadedMessages = False, pg_cancelled = False, pg_models = [], pg_groups = [], pg_storage = ls\<rparr>"

section \<open>Operations\<close>

text \<open>A new timer replaces a pending one, so one flag is enough.\<close>

definition persistMessages :: "Message list \<Rightarrow> page \<Rightarrow> page" where
  "persistMessages messagesToSave p =
     (let p = p\<lparr>pg_latestMessages := messagesToSave\<rparr>
      in if \<not> pg_hasLoadedMessages p then p else p\<lparr>pg_saveTimer := True\<rparr>)"

definition save_timer :: "zod \<Rightarrow> (json \<Rightarrow> string) \<Rightarrow> page \<Rightarrow> page" where
  "save_timer zparse stringify p =
     (if \<not> pg_saveTimer p then p
      else p\<lparr>pg_saveTimer := False, pg_storage := saveMessages zparse stringify (pg_storage p) (pg_latestMessages p)\<rparr>)"

text \<open>The timer of the loading effect; it reads the storage even when the page is gone.\<close>

definition load_timer :: "zod \<Rightarrow> (string \<Rightarrow> json option) \<Rightarrow> (json \<Rightarrow> string) \<Rightarrow> LoadEnv \<Rightarrow> page \<Rightarrow> page" where
  "load_timer zparse parse stringify env p =
     (let (loaded, ls) = loadMessages zparse parse stringify env (pg_storage p);
          loadedMessages = nullish loaded [];
          p = p\<lparr>pg_storage := ls\<rparr>
      in if pg_cancelled p then p
         else p\<lparr>pg_latestMessages := loadedMessages, pg_hasLoadedMessages := True,
                pg_messages := loadedMessages, pg_isLoadingMessages := False\<rparr>)"

definition unmount_page :: "zod \<Rightarrow> (json \<Rightarrow> string) \<Rightarrow> page \<Rightarrow> page" where
  "unmount_page zparse stringify p =
     (let p = p\<lparr>pg_cancelled := True\<rparr>
      in if pg_saveTimer p
         then p\<lparr>pg_saveTimer := False, pg_storage := saveMessages zparse stringify (pg_storage p) (pg_latestMessages p)\<rparr>
         else p)"

text \<open>A change of one configuration field, \<open>{ ...prev, [key]: value }\<close>.\<close>

datatype ConfigChange =
    SetModel string | SetGroup string | SetTemperature number | SetTopP number | SetMaxTokens number
  | SetFrequencyPenalty number | SetPresencePenalty number | SetSeed "number option" | SetStream bool

primrec change_config :: "ConfigChange \<Rightarrow> PlaygroundConfig \<Rightarrow> PlaygroundConfig" where
  "change_config (SetModel v) c = c\<lparr>cfg_model := v\<rparr>"
| "change_config (SetGroup v) c = c\<lparr>cfg_group := v\<rparr>"
| "change_config (SetTemperature v) c = c\<lparr>cfg_temperature := v\<rparr>"
| "change_config (SetTopP v) c = c\<lparr>cfg_top_p := v\<rparr>"
| "change_config (SetMaxTokens v) c = c\<lparr>cfg_max_tokens := v\<rparr>"
| "change_config (SetFrequencyPenalty v) c = c\<lparr>cfg_frequency_penalty := v\<rparr>"
| "change_config (SetPresencePenalty v) c = c\<lparr>cfg_presence_penalty := v\<rparr>"
| "change_config (SetSeed v) c = c\<lparr>cfg_seed := v\<rparr>"
| "change_config (SetStream v) c = c\<lparr>cfg_stream := v\<rparr>"

definition updateConfig :: "zod \<Rightarrow> (json \<Rightarrow> string) \<Rightarrow> ConfigChange \<Rightarrow> page \<Rightarrow> page" where
  "updateConfig zparse stringify change p =
     (let updated = change_config change (pg_config p)
      in p\<lparr>pg_config := updated, pg_storage := saveConfig zparse stringify (pg_storage p) (full_config updated)\<rparr>)"

datatype EnabledKey =
  EnTemperature | EnTopP | EnMaxTokens | EnFrequencyPenalty | EnPresencePenalty | EnSeed

primrec change_enabled :: "EnabledKey \<Rightarrow> bool \<Rightarrow> ParameterEnabled \<Rightarrow> ParameterEnabled" where
  "change_enabled EnTemperature v e = e\<lparr>en_temperature := v\<rparr>"
| "change_enabled EnTopP v e = e\<lparr>en_top_p := v\<rparr>"
| "change_enabled EnMaxTokens v e = e\<lparr>en_max_tokens := v\<rparr>"
| "change_enabled EnFrequencyPenalty v e = e\<lparr>en_frequency_penalty := v\<rparr>"
| "change_enabled EnPresencePenalty v e = e\<lparr>en_presence_penalty := v\<rparr>"
| "change_enabled EnSeed v e = e\<lparr>en_seed := v\<rparr>"

definition updateParameterEnabled :: "zod \<Rightarrow> (json \<Rightarrow> string) \<Rightarrow> EnabledKey \<Rightarrow> bool \<Rightarrow> page \<Rightarrow> page" where
  "updateParameterEnabled zparse stringify k v p =
     (let updated = change_enabled k v (pg_parameterEnabled p)
      in p\<lparr>pg_parameterEnabled := updated,
           pg_storage := saveParameterEnabled zparse stringify (pg_storage p) (full_enabled updated)\<rparr>)"

definition updateMessages :: "MessageStateUpdater \<Rightarrow> page \<Rightarrow> page" where
  "updateMessages updater p =
     (let newMessages = applyMessageStateUpdate (pg_messages p) updater
      in (persistMessages newMessages p)\<lparr>pg_messages := newMessages\<rparr>)"

definition clearMessages :: "page \<Rightarrow> page" where
  "clearMessages p = updateMessages (NewMessages []) p"

definition resetConfig :: "zod \<Rightarrow> (json \<Rightarrow> string) \<Rightarrow> page \<Rightarrow> page" where
  "resetConfig zparse stringify p =
     p\<lparr>pg_config := DEFAULT_CONFIG, pg_parameterEnabled := DEFAULT_PARAMETER_ENABLED,
       pg_storage := saveParameterEnabled zparse stringify
         (saveConfig zparse stringify (pg_storage p) (full_config DEFAULT_CONFIG)) (full_enabled DEFAULT_PARAMETER_ENABLED)\<rparr>"

section \<open>Sessions\<close>

datatype page_event =
    LoadTimer LoadEnv
  | SaveTimer
  | UpdateConfig ConfigChange
  | UpdateParameterEnabled EnabledKey bool
  | UpdateMessageList MessageStateUpdater
  | ClearMessages
  | ResetConfig
  | SetModels "ModelOption list"
  | SetGroups "GroupOption list"

fun page_step :: "zod \<Rightarrow> (string \<Rightarrow> json option) \<Rightarrow> (json \<Rightarrow> string) \<Rightarrow> page_event \<Rightarrow> page \<Rightarrow> page" where
  "page_step z pa st (LoadTimer env) p = (if pg_isLoadingMessages p then load_timer z pa st env p else p)"
| "page_step z pa st SaveTimer p = save_timer z st p"
| "page_step z pa st (UpdateConfig c) p = updateConfig z st c p"
| "page_step z pa st (UpdateParameterEnabled k v) p = updateParameterEnabled z st k v p"
| "page_step z pa st (UpdateMessageList u) p = updateMessages u p"
| "page_step z pa st ClearMessages p = clearMessages p"
| "page_step z pa st ResetConfig p = resetConfig z st p"
| "page_step z pa st (SetModels ms) p = p\<lparr>pg_models := ms\<rparr>"
| "page_step z pa st (SetGroups gs) p = p\<lparr>pg_groups := gs\<rparr>"

definition page_run :: "zod \<Rightarrow> (string \<Rightarrow> json option) \<Rightarrow> (json \<Rightarrow> string) \<Rightarrow> page_event list \<Rightarrow> page \<Rightarrow> page" where
  "page_run z pa st evs p = foldl (\<lambda>p e. page_step z pa st e p) p evs"

section \<open>Nothing is lost\<close>

text \<open>The stored messages are those of a save of \<open>ms\<close>.\<close>

definition persisted :: "zod \<Rightarrow> (json \<Rightarrow> string) \<Rightarrow> Message list \<Rightarrow> LocalStorage \<Rightarrow> bool" where
  "persisted z st ms ls \<longleftrightarrow>
     (\<exists>ls0. ls_accepts ls0 = ls_accepts ls \<and>
        getItem ls STORAGE_KEYS_MESSAGES = getItem (saveMessages z st ls0 ms) STORAGE_KEYS_MESSAGES)"

definition page_inv :: "zod \<Rightarrow> (json \<Rightarrow> string) \<Rightarrow> page \<Rightarrow> bool" where
  "page_inv z st p \<longleftrightarrow>
     pg_latestMessages p = pg_messages p \<and>
     (pg_hasLoadedMessages p \<longleftrightarrow> \<not> pg_isLoadingMessages p) \<and> \<not> pg_cancelled p \<and>
     (pg_saveTimer p \<longrightarrow> pg_hasLoadedMessages p) \<and>
     (pg_hasLoadedMessages p \<longrightarrow> pg_saveTimer p \<or> pg_messages p = [] \<or> persisted z st (pg_messages p) (pg_storage p))"

lemma saves_keep_quota [simp]:
  "ls_accepts (saveMessages z st ls ms) = ls_accepts ls" "ls_accepts (saveConfig z st ls c) = ls_accepts ls"
  "ls_accepts (saveParameterEnabled z st ls e) = ls_accepts ls"
  by (simp_all add: saveMessages_def saveConfig_def saveParameterEnabled_def writeStoredValue_def setItem_def nullish_def
    split: option.split)

lemma settings_keep_messages [simp]:
  "getItem (saveConfig z st ls c) STORAGE_KEYS_MESSAGES = getItem ls STORAGE_KEYS_MESSAGES"
  "getItem (saveParameterEnabled z st ls e) STORAGE_KEYS_MESSAGES = getItem ls STORAGE_KEYS_MESSAGES"
  by (simp_all add: saveConfig_def saveParameterEnabled_def writeStoredValue_def setItem_def nullish_def getItem_def
    keys_distinct [symmetric] split: option.split)

lemma persisted_save [simp]: "persisted z st ms (saveMessages z st ls ms)"
  unfolding persisted_def by (rule exI [of _ ls]) simp

lemma persisted_settings [simp]:
  "persisted z st ms (saveConfig z st ls c) = persisted z st ms ls"
  "persisted z st ms (saveParameterEnabled z st ls e) = persisted z st ms ls"
  by (simp_all add: persisted_def)

lemma load_persists:
  assumes "loadMessages z pa st env ls = (loaded, ls')"
  shows "nullish loaded [] = [] \<or> persisted z st (nullish loaded []) ls'"
  using assms by (auto simp: loadMessages_def Let_def load_must_save_def nullish_def
    split: option.splits if_splits prod.splits)

lemma inv_mount: "page_inv z st (mount z pa ls)"
  by (simp add: page_inv_def mount_def)

lemma inv_page_step: "page_inv z st p \<Longrightarrow> page_inv z st (page_step z pa st ev p)"
proof (cases ev)
  case (LoadTimer env)
  assume p: "page_inv z st p"
  obtain loaded ls' where l: "loadMessages z pa st env (pg_storage p) = (loaded, ls')" by fastforce
  from load_persists [OF l] p l show ?thesis
    unfolding LoadTimer by (auto simp: page_inv_def load_timer_def Let_def)
qed (auto simp: page_inv_def save_timer_def updateConfig_def updateParameterEnabled_def updateMessages_def
  clearMessages_def resetConfig_def persistMessages_def Let_def)

lemma inv_page_run: "page_inv z st p \<Longrightarrow> page_inv z st (page_run z pa st evs p)"
  unfolding page_run_def by (induction evs arbitrary: p) (simp_all add: inv_page_step)

text \<open>What a load depends on: the stored text and what the storage accepts.\<close>

lemma load_cong:
  assumes "getItem ls STORAGE_KEYS_MESSAGES = getItem ls' STORAGE_KEYS_MESSAGES"
  shows "fst (loadMessages z pa st env ls) = fst (loadMessages z pa st env ls')"
  using assms by (auto simp: loadMessages_def readStoredMessagesValue_def Let_def split: option.split)

lemma unmount_persisted:
  assumes "page_inv z st p" "pg_hasLoadedMessages p" "pg_messages p \<noteq> []"
  shows "persisted z st (pg_messages p) (pg_storage (unmount_page z st p))"
  using assms by (auto simp: page_inv_def unmount_page_def Let_def)

lemma unmount_accepts [simp]: "ls_accepts (pg_storage (unmount_page z st p)) = ls_accepts (pg_storage p)"
  by (simp add: unmount_page_def Let_def)

text \<open>
  C9: a conversation survives the session.  However the messages and the settings were
  changed after loading, and whether or not the debounce timer fired, once the page is left
  the next session loads the conversation as it was shown, plugin events apart, provided it
  is finished, within the limits, and accepted by the storage.
\<close>

theorem conversation_survives_session:
  assumes "zod_laws zparse"
    and "p = page_run zparse parse stringify evs (mount zparse parse ls)"
    and "pg_hasLoadedMessages p" and "ms = pg_messages p" and "ms \<noteq> []"
    and "parse (stringify (envelope (saved_json ms))) = Some (envelope (saved_json ms))"
    and "fits_storage (pg_storage p) STORAGE_KEYS_MESSAGES (stringify (envelope (saved_json ms)))"
    and "list_all storable ms" and "length ms \<le> MAX_STORED_MESSAGES" and "total_size ms \<le> MAX_LOADED_MESSAGES_CHARS"
  shows "fst (loadMessages zparse parse stringify env (pg_storage (unmount_page zparse stringify p))) = Some (map strip_events ms)"
proof -
  have "page_inv zparse stringify p" unfolding assms(2) by (rule inv_page_run) (rule inv_mount)
  from unmount_persisted [OF this assms(3)] assms(4,5) obtain ls0 where
    ls0: "ls_accepts ls0 = ls_accepts (pg_storage p)"
      "getItem (pg_storage (unmount_page zparse stringify p)) STORAGE_KEYS_MESSAGES =
        getItem (saveMessages zparse stringify ls0 ms) STORAGE_KEYS_MESSAGES"
    by (auto simp: persisted_def)
  have "fits_storage ls0 STORAGE_KEYS_MESSAGES (stringify (envelope (saved_json ms)))"
    using assms(7) ls0(1) by (simp add: fits_storage_def)
  then have "loadMessages zparse parse stringify env (saveMessages zparse stringify ls0 ms) =
    (Some (map strip_events ms), saveMessages zparse stringify ls0 ms)"
    using assms(1,6,8-10) by (intro reload_saved)
  with load_cong [OF ls0(2)] show ?thesis by simp
qed

definition session_events :: "page_event list" where
  "session_events = [LoadTimer sample_env, UpdateConfig (SetModel ''m''), UpdateMessageList (NewMessages sample_turn)]"

theorem conversation_survives_session_witness:
  "fst (loadMessages zod_ref (\<lambda>_. Some (envelope (saved_json sample_turn))) (\<lambda>_. ''text'') sample_env
     (pg_storage (unmount_page zod_ref (\<lambda>_. ''text'') (page_run zod_ref (\<lambda>_. Some (envelope (saved_json sample_turn))) (\<lambda>_. ''text'')
       session_events (mount zod_ref (\<lambda>_. Some (envelope (saved_json sample_turn))) free_storage))))) =
    Some (map strip_events sample_turn)"
proof (rule conversation_survives_session [OF zod_ref_laws refl])
  let ?p = "page_run zod_ref (\<lambda>_. Some (envelope (saved_json sample_turn))) (\<lambda>_. ''text'')
       session_events (mount zod_ref (\<lambda>_. Some (envelope (saved_json sample_turn))) free_storage)"
  have inv: "page_inv zod_ref (\<lambda>_. ''text'') (page_run zod_ref (\<lambda>_. Some (envelope (saved_json sample_turn))) (\<lambda>_. ''text'')
       session_events (mount zod_ref (\<lambda>_. Some (envelope (saved_json sample_turn))) free_storage))"
    by (rule inv_page_run) (rule inv_mount)
  show "pg_hasLoadedMessages ?p" "sample_turn = pg_messages ?p"
    by (simp_all add: page_run_def session_events_def mount_def load_timer_def updateConfig_def updateMessages_def persistMessages_def
      Let_def split: prod.split)
  show "fits_storage (pg_storage ?p) STORAGE_KEYS_MESSAGES ''text''"
    by (simp add: page_run_def session_events_def mount_def load_timer_def updateConfig_def updateMessages_def persistMessages_def
      Let_def loadMessages_def readStoredMessagesValue_def truthy_string_def getItem_def free_storage_def fits_storage_def
      MAX_STORED_MESSAGES_BYTES_def)
  show "sample_turn \<noteq> []" by (simp add: sample_turn_def)
  show "list_all storable sample_turn" by code_simp
  show "length sample_turn \<le> MAX_STORED_MESSAGES" by code_simp
  show "total_size sample_turn \<le> MAX_LOADED_MESSAGES_CHARS" by code_simp
qed simp

end
