(* ===== verification/Chat_Wire.thy ===== *)
theory Chat_Wire
  imports Message_Core
begin

text \<open>
  What goes over the wire: \<open>lib/streaming/payload-builder.ts\<close>, \<open>stream-utils.ts\<close> and
  \<open>request-error-utils.ts\<close>.  \<open>JSON.parse\<close> is the argument \<open>json_parse\<close> (\<open>None\<close> where it
  throws) and \<open>JSON.stringify\<close> the argument \<open>json_stringify\<close>.  Incoming values are not
  validated by the source, so they stay JSON values here.
\<close>

section \<open>payload-builder.ts\<close>

definition buildChatCompletionPayload ::
    "Message list \<Rightarrow> PlaygroundConfig \<Rightarrow> ParameterEnabled \<Rightarrow> ChatCompletionRequest" where
  "buildChatCompletionPayload messages config parameterEnabled =
     \<lparr>req_model = cfg_model config,
      req_group = Some (cfg_group config),
      req_messages = map formatMessageForAPI (filter isValidMessage messages),
      req_stream = cfg_stream config,
      req_temperature = (if en_temperature parameterEnabled then Some (cfg_temperature config) else None),
      req_top_p = (if en_top_p parameterEnabled then Some (cfg_top_p config) else None),
      req_max_tokens = (if en_max_tokens parameterEnabled then Some (cfg_max_tokens config) else None),
      req_frequency_penalty =
        (if en_frequency_penalty parameterEnabled then Some (cfg_frequency_penalty config) else None),
      req_presence_penalty =
        (if en_presence_penalty parameterEnabled then Some (cfg_presence_penalty config) else None),
      req_seed = (if en_seed parameterEnabled \<and> cfg_seed config \<noteq> None then cfg_seed config else None)\<rparr>"

section \<open>stream-utils.ts\<close>

datatype StreamUpdateType = ReasoningUpdate | ContentUpdate | PluginEventUpdate

record StreamMessageUpdate =
  update_type :: StreamUpdateType
  update_chunk :: json

record StreamErrorDetails =
  stream_errorCode :: "json option"
  stream_errorMessage :: json

definition or_json :: "json option \<Rightarrow> json \<Rightarrow> json" where
  "or_json a b = (case a of None \<Rightarrow> b | Some v \<Rightarrow> if json_truthy v then v else b)"

definition truthy_json :: "json option \<Rightarrow> bool" where
  "truthy_json a \<longleftrightarrow> (case a of None \<Rightarrow> False | Some v \<Rightarrow> json_truthy v)"

definition parseStreamErrorDetails :: "(string \<Rightarrow> json option) \<Rightarrow> string option \<Rightarrow> StreamErrorDetails" where
  "parseStreamErrorDetails json_parse data =
     (let fallbackMessage = JStr (or_string data API_REQUEST_ERROR);
          fallback = \<lparr>stream_errorCode = None, stream_errorMessage = fallbackMessage\<rparr>
      in if \<not> truthy_string data then fallback
         else case json_parse (the data) of
           None \<Rightarrow> fallback
         | Some parsed \<Rightarrow>
             (case prop_of parsed ''error'' of
                None \<Rightarrow> fallback
              | Some error \<Rightarrow>
                  if \<not> json_truthy error then fallback
                  else \<lparr>stream_errorCode =
                          (if truthy_json (prop_of error ''code'') then prop_of error ''code'' else None),
                        stream_errorMessage = or_json (prop_of error ''message'') fallbackMessage\<rparr>))"

text \<open>\<open>typeof v === 'string'\<close> and \<open>typeof v === 'number'\<close>, with the value.\<close>

definition as_string :: "json option \<Rightarrow> string option" where
  "as_string v = (case v of Some (JStr s) \<Rightarrow> Some s | _ \<Rightarrow> None)"

definition as_number :: "json option \<Rightarrow> number option" where
  "as_number v = (case v of Some (JNum n) \<Rightarrow> Some n | _ \<Rightarrow> None)"

definition parsePluginEventPayload :: "json \<Rightarrow> PluginEventPayload option" where
  "parsePluginEventPayload payload =
     (if as_string (prop_of payload ''type'') = Some ''interim'' then
        map_option Interim (as_string (prop_of payload ''text''))
      else if as_string (prop_of payload ''type'') = Some ''tool_call'' then
        (case as_string (prop_of payload ''plugin'') of
           None \<Rightarrow> None
         | Some p \<Rightarrow>
             (case as_string (prop_of payload ''tool'') of
                None \<Rightarrow> None
              | Some tool \<Rightarrow>
                  Some (ToolCall p tool (as_string (prop_of payload ''args''))
                    (as_number (prop_of payload ''durationMs'')))))
      else None)"

datatype stream_parse_error = JsonSyntaxError | NullDereference

text \<open>\<open>v?.[0]\<close> on a parsed value.\<close>

fun first_item :: "json \<Rightarrow> json option" where
  "first_item (JArr (x # _)) = Some x"
| "first_item (JObj kvs) = map_of kvs ''0''"
| "first_item (JStr (c # _)) = Some (JStr [c])"
| "first_item _ = None"

definition chunk_delta :: "json \<Rightarrow> json option" where
  "chunk_delta chunk =
     Option.bind (Option.bind (prop_of chunk ''choices'') first_item) (\<lambda>c. prop_of c ''delta'')"

definition delta_updates :: "(json \<Rightarrow> string) \<Rightarrow> json \<Rightarrow> StreamMessageUpdate list" where
  "delta_updates json_stringify delta =
     (if truthy_json (prop_of delta ''reasoning_content'')
      then [\<lparr>update_type = ReasoningUpdate, update_chunk = the (prop_of delta ''reasoning_content'')\<rparr>] else []) @
     (if truthy_json (prop_of delta ''content'')
      then [\<lparr>update_type = ContentUpdate, update_chunk = the (prop_of delta ''content'')\<rparr>] else []) @
     (if truthy_json (prop_of delta ''plugin_event'')
      then [\<lparr>update_type = PluginEventUpdate,
             update_chunk = JStr (json_stringify (the (prop_of delta ''plugin_event'')))\<rparr>] else [])"

text \<open>A chunk that parses to \<open>null\<close> makes the property access throw.\<close>

definition parseStreamMessageUpdates ::
    "(string \<Rightarrow> json option) \<Rightarrow> (json \<Rightarrow> string) \<Rightarrow> string \<Rightarrow> stream_parse_error + StreamMessageUpdate list" where
  "parseStreamMessageUpdates json_parse json_stringify data =
     (case json_parse data of
        None \<Rightarrow> Inl JsonSyntaxError
      | Some JNull \<Rightarrow> Inl NullDereference
      | Some chunk \<Rightarrow>
          (case chunk_delta chunk of
             None \<Rightarrow> Inr []
           | Some delta \<Rightarrow> if json_truthy delta then Inr (delta_updates json_stringify delta) else Inr []))"

definition STREAM_DONE_MESSAGE :: string where
  "STREAM_DONE_MESSAGE = ''[DONE]''"

definition STREAM_CLOSED_READY_STATE :: int where
  "STREAM_CLOSED_READY_STATE = 2"

definition isStreamDoneMessage :: "string \<Rightarrow> bool" where
  "isStreamDoneMessage data \<longleftrightarrow> data = STREAM_DONE_MESSAGE"

definition isStreamClosedReadyState :: "int option \<Rightarrow> bool" where
  "isStreamClosedReadyState readyState \<longleftrightarrow> readyState = Some STREAM_CLOSED_READY_STATE"

definition getStreamReadyStateError :: "int option \<Rightarrow> int option \<Rightarrow> string option" where
  "getStreamReadyStateError eventReadyState status =
     (case (eventReadyState, status) of
        (Some rs, Some st) \<Rightarrow>
          if rs \<ge> STREAM_CLOSED_READY_STATE \<and> st \<noteq> 200
          then Some (''HTTP '' @ show_int st @ '': '' @ CONNECTION_CLOSED) else None
      | _ \<Rightarrow> None)"

section \<open>request-error-utils.ts\<close>

text \<open>An absent link of \<open>error?.response?.data?.error?.code\<close> is \<open>None\<close>.\<close>

record RequestErrorLike =
  rel_message :: "string option"
  rel_data_message :: "string option"
  rel_error_code :: "string option"

record RequestErrorDetails =
  red_errorCode :: "string option"
  red_errorMessage :: string

definition parseRequestErrorDetails :: "RequestErrorLike \<Rightarrow> RequestErrorDetails" where
  "parseRequestErrorDetails requestError =
     \<lparr>red_errorCode = (if truthy_string (rel_error_code requestError) then rel_error_code requestError else None),
      red_errorMessage =
        or_string (rel_data_message requestError) (or_string (rel_message requestError) API_REQUEST_ERROR)\<rparr>"

section \<open>Properties\<close>

text \<open>The wire form of a plugin event, as the backend sends it.\<close>

fun plugin_event_json :: "PluginEventPayload \<Rightarrow> json" where
  "plugin_event_json (Interim s) = JObj [(''type'', JStr ''interim''), (''text'', JStr s)]"
| "plugin_event_json (ToolCall p tool args dur) =
     JObj ([(''type'', JStr ''tool_call''), (''plugin'', JStr p), (''tool'', JStr tool)] @
       (case args of None \<Rightarrow> [] | Some a \<Rightarrow> [(''args'', JStr a)]) @
       (case dur of None \<Rightarrow> [] | Some n \<Rightarrow> [(''durationMs'', JNum n)]))"

lemma as_string_eq [simp]: "as_string v = Some s \<longleftrightarrow> v = Some (JStr s)"
  by (auto simp: as_string_def split: option.splits json.splits)

lemma as_string_JStr [simp]: "as_string (Some (JStr s)) = Some s"
  by simp

text \<open>The fields a variant requires, read off the wire value.\<close>

fun event_fields :: "json \<Rightarrow> PluginEventPayload \<Rightarrow> bool" where
  "event_fields v (Interim s) \<longleftrightarrow>
     prop_of v ''type'' = Some (JStr ''interim'') \<and> prop_of v ''text'' = Some (JStr s)"
| "event_fields v (ToolCall p tool a d) \<longleftrightarrow>
     prop_of v ''type'' = Some (JStr ''tool_call'') \<and> prop_of v ''plugin'' = Some (JStr p)
     \<and> prop_of v ''tool'' = Some (JStr tool)"

text \<open>
  Plugin events survive the wire.  Every plugin event, encoded as the backend sends
  it, is read back unchanged, and whatever the validator accepts carries the fields its
  variant requires.
\<close>

theorem plugin_event_roundtrip:
  "parsePluginEventPayload (plugin_event_json ev) = Some ev
   \<and> pred_option (event_fields v) (parsePluginEventPayload v)"
proof
  show "parsePluginEventPayload (plugin_event_json ev) = Some ev"
    by (cases ev) (auto simp: parsePluginEventPayload_def as_string_def as_number_def split: option.splits)
  show "pred_option (event_fields v) (parsePluginEventPayload v)"
    by (cases "as_string (prop_of v ''text'')") (auto simp: parsePluginEventPayload_def split: option.splits)
qed

text \<open>
  The request payload.  Empty assistant placeholders never reach the server, every
  message sent has the text and role of a message of the conversation in its order, and
  a sampling parameter is sent exactly when it is enabled (the seed only if it is set).
\<close>

theorem payload_faithful:
  fixes messages :: "Message list"
  defines "p \<equiv> buildChatCompletionPayload messages"
  shows "map (\<lambda>m. (ccm_role m, getTextContent (ccm_content m))) (req_messages (p cfg en)) =
      map (\<lambda>m. (msg_from m, getMessageContent m))
        (filter (\<lambda>m. msg_versions m \<noteq> [] \<and> \<not> (msg_from m = Assistant \<and> \<not> hasMessageContent m)) messages)
    \<and> filter (\<lambda>m. ccm_role m = Assistant \<and> trim (getTextContent (ccm_content m)) = []) (req_messages (p cfg en)) = []
    \<and> (req_temperature (p cfg en) \<noteq> None \<longleftrightarrow> en_temperature en)
    \<and> (req_top_p (p cfg en) \<noteq> None \<longleftrightarrow> en_top_p en)
    \<and> (req_max_tokens (p cfg en) \<noteq> None \<longleftrightarrow> en_max_tokens en)
    \<and> (req_frequency_penalty (p cfg en) \<noteq> None \<longleftrightarrow> en_frequency_penalty en)
    \<and> (req_presence_penalty (p cfg en) \<noteq> None \<longleftrightarrow> en_presence_penalty en)
    \<and> (req_seed (p cfg en) \<noteq> None \<longleftrightarrow> en_seed en \<and> cfg_seed cfg \<noteq> None)"
  by (simp add: p_def buildChatCompletionPayload_def o_def formatMessageForAPI_def
      filter_empty_conv isValidMessage_def [abs_def] hasMessageContent_def flip: getMessageContent_def)

end
