(* ===== verification/Stream_Controller.thy ===== *)
theory Stream_Controller
  imports Chat_Wire
begin

text \<open>
  The streaming request controller of \<open>hooks/use-stream-request.ts\<close> as a state machine.
  \<open>createStreamRequestController\<close> closes over the active source and a generation counter;
  every request adds a \<open>completed\<close> flag of its own.  A request is named by the generation
  it was given, and so is the event source it creates, since a request creates at most one.

  The state also records what leaves the controller: the callbacks with the request they
  belong to, and the sources that were closed.  \<open>getHeaders\<close>, the server-sent events
  library and the browser's event loop are the environment: an event of the machine is the
  settling of a promise, an event of a source or a call of the interface, in any order the
  environment likes.  A callback returns before the next event, and it does not call the
  controller.
\<close>

section \<open>State\<close>

datatype callback =
    OnUpdate StreamUpdateType json
  | OnComplete
  | OnError json "json option"

primrec terminal :: "callback \<Rightarrow> bool" where
  "terminal (OnUpdate _ _) = False"
| "terminal OnComplete = True"
| "terminal (OnError _ _) = True"

text \<open>A request waits for its headers, then has a source, or has returned without one.\<close>

datatype request_phase = AwaitingHeaders | HasSource | Returned

record stream_request =
  rq_phase :: request_phase
  rq_completed :: bool

record controller =
  ct_source :: "nat option"
  ct_generation :: nat
  ct_streaming :: bool
  ct_requests :: "nat \<Rightarrow> stream_request option"
  ct_closed :: "nat list"
  ct_trace :: "(nat \<times> callback) list"

definition createStreamRequestController :: controller where
  "createStreamRequestController =
     \<lparr>ct_source = None, ct_generation = 0, ct_streaming = False, ct_requests = (\<lambda>_. None), ct_closed = [], ct_trace = []\<rparr>"

datatype stream_event =
    Send
  | HeadersReady nat
  | HeadersFailed nat "string option"
  | StreamThrows nat
  | MessageEvent nat "string option"
  | ErrorEvent nat "int option" "string option"
  | ReadyStateEvent nat "int option" "int option"
  | Stop
  | Dispose

section \<open>Operations\<close>

definition close_source :: "nat option \<Rightarrow> controller \<Rightarrow> controller" where
  "close_source target c = (case target of None \<Rightarrow> c | Some s \<Rightarrow> c\<lparr>ct_closed := ct_closed c @ [s]\<rparr>)"

definition closeActiveSource :: "nat \<Rightarrow> controller \<Rightarrow> controller" where
  "closeActiveSource target c =
     (let c = close_source (Some target) c
      in if ct_source c = Some target then c\<lparr>ct_source := None, ct_streaming := False\<rparr> else c)"

definition emit :: "nat \<Rightarrow> callback \<Rightarrow> controller \<Rightarrow> controller" where
  "emit g cb c = c\<lparr>ct_trace := ct_trace c @ [(g, cb)]\<rparr>"

text \<open>The synchronous part of \<open>send\<close>, up to \<open>await runtime.getHeaders()\<close>.\<close>

definition send_request :: "controller \<Rightarrow> controller" where
  "send_request c =
     (let requestGeneration = ct_generation c + 1;
          previousSource = ct_source c;
          c = close_source previousSource (c\<lparr>ct_generation := requestGeneration, ct_source := None\<rparr>)
      in c\<lparr>ct_streaming := False,
           ct_requests := (ct_requests c)(requestGeneration \<mapsto> \<lparr>rq_phase = AwaitingHeaders, rq_completed = False\<rparr>)\<rparr>)"

definition set_phase :: "nat \<Rightarrow> request_phase \<Rightarrow> controller \<Rightarrow> controller" where
  "set_phase g ph c =
     c\<lparr>ct_requests := (ct_requests c)(g := map_option (\<lambda>r. r\<lparr>rq_phase := ph\<rparr>) (ct_requests c g))\<rparr>"

definition awaiting :: "controller \<Rightarrow> nat \<Rightarrow> bool" where
  "awaiting c g \<longleftrightarrow> map_option rq_phase (ct_requests c g) = Some AwaitingHeaders"

text \<open>The continuation of \<open>send\<close> when \<open>getHeaders\<close> rejects; a promise settles once.\<close>

definition headers_failed :: "nat \<Rightarrow> string option \<Rightarrow> controller \<Rightarrow> controller" where
  "headers_failed requestGeneration errorMessage c =
     (if \<not> awaiting c requestGeneration then c
      else
        let c = set_phase requestGeneration Returned c
        in if ct_generation c \<noteq> requestGeneration then c
           else emit requestGeneration (OnError (JStr (nullish errorMessage STREAM_START_ERROR)) None) c)"

definition headers_ready :: "nat \<Rightarrow> controller \<Rightarrow> controller" where
  "headers_ready requestGeneration c =
     (if \<not> awaiting c requestGeneration then c
      else if ct_generation c \<noteq> requestGeneration then set_phase requestGeneration Returned c
      else (set_phase requestGeneration HasSource c)\<lparr>ct_source := Some requestGeneration, ct_streaming := True\<rparr>)"

definition isCurrent :: "nat \<Rightarrow> controller \<Rightarrow> bool" where
  "isCurrent g c \<longleftrightarrow> ct_generation c = g \<and> ct_source c = Some g"

definition request_completed :: "controller \<Rightarrow> nat \<Rightarrow> bool" where
  "request_completed c g \<longleftrightarrow> map_option rq_completed (ct_requests c g) \<noteq> Some False"

definition set_completed :: "nat \<Rightarrow> controller \<Rightarrow> controller" where
  "set_completed g c =
     c\<lparr>ct_requests := (ct_requests c)(g := map_option (\<lambda>r. r\<lparr>rq_completed := True\<rparr>) (ct_requests c g))\<rparr>"

definition handleError :: "nat \<Rightarrow> json \<Rightarrow> json option \<Rightarrow> controller \<Rightarrow> controller" where
  "handleError g errorMessage errorCode c =
     (if \<not> isCurrent g c \<or> request_completed c g then c
      else closeActiveSource g (emit g (OnError errorMessage errorCode) (set_completed g c)))"

definition emit_updates :: "nat \<Rightarrow> StreamMessageUpdate list \<Rightarrow> controller \<Rightarrow> controller" where
  "emit_updates g updates c = foldl (\<lambda>c u. emit g (OnUpdate (update_type u) (update_chunk u)) c) c updates"

definition on_message :: "(string \<Rightarrow> json option) \<Rightarrow> (json \<Rightarrow> string) \<Rightarrow> nat \<Rightarrow> string option \<Rightarrow> controller \<Rightarrow> controller" where
  "on_message json_parse json_stringify g event_data c =
     (if \<not> isCurrent g c \<or> request_completed c g then c
      else
        let data = nullish event_data []
        in if isStreamDoneMessage data then emit g OnComplete (closeActiveSource g (set_completed g c))
           else case parseStreamMessageUpdates json_parse json_stringify data of
             Inr updates \<Rightarrow> emit_updates g updates c
           | Inl _ \<Rightarrow> handleError g (JStr PARSE_ERROR) None c)"

definition on_error :: "(string \<Rightarrow> json option) \<Rightarrow> nat \<Rightarrow> int option \<Rightarrow> string option \<Rightarrow> controller \<Rightarrow> controller" where
  "on_error json_parse g readyState event_data c =
     (if \<not> isCurrent g c \<or> request_completed c g then c
      else if \<not> isStreamClosedReadyState readyState then
        let details = parseStreamErrorDetails json_parse event_data
        in handleError g (stream_errorMessage details) (stream_errorCode details) c
      else c)"

definition on_readystatechange :: "nat \<Rightarrow> int option \<Rightarrow> int option \<Rightarrow> controller \<Rightarrow> controller" where
  "on_readystatechange g readyState status c =
     (if \<not> isCurrent g c \<or> request_completed c g then c
      else case getStreamReadyStateError readyState status of
        Some errorMessage \<Rightarrow> if errorMessage \<noteq> [] then handleError g (JStr errorMessage) None c else c
      | None \<Rightarrow> c)"

text \<open>\<open>nextSource.stream()\<close> throws.\<close>

definition on_stream_throws :: "nat \<Rightarrow> controller \<Rightarrow> controller" where
  "on_stream_throws g c =
     (if \<not> isCurrent g c \<or> request_completed c g then c
      else handleError g (JStr STREAM_START_ERROR) None c)"

definition cancel_stream :: "bool \<Rightarrow> controller \<Rightarrow> controller" where
  "cancel_stream notify c =
     (let activeSource = ct_source c;
          c = close_source activeSource (c\<lparr>ct_generation := ct_generation c + 1, ct_source := None\<rparr>)
      in if notify then c\<lparr>ct_streaming := False\<rparr> else c)"

fun stream_step :: "(string \<Rightarrow> json option) \<Rightarrow> (json \<Rightarrow> string) \<Rightarrow> stream_event \<Rightarrow> controller \<Rightarrow> controller" where
  "stream_step json_parse json_stringify Send c = send_request c"
| "stream_step json_parse json_stringify (HeadersReady g) c = headers_ready g c"
| "stream_step json_parse json_stringify (HeadersFailed g e) c = headers_failed g e c"
| "stream_step json_parse json_stringify (StreamThrows g) c = on_stream_throws g c"
| "stream_step json_parse json_stringify (MessageEvent g d) c = on_message json_parse json_stringify g d c"
| "stream_step json_parse json_stringify (ErrorEvent g rs d) c = on_error json_parse g rs d c"
| "stream_step json_parse json_stringify (ReadyStateEvent g rs st) c = on_readystatechange g rs st c"
| "stream_step json_parse json_stringify Stop c = cancel_stream True c"
| "stream_step json_parse json_stringify Dispose c = cancel_stream False c"

definition stream_run :: "(string \<Rightarrow> json option) \<Rightarrow> (json \<Rightarrow> string) \<Rightarrow> stream_event list \<Rightarrow> controller \<Rightarrow> controller" where
  "stream_run json_parse json_stringify evs c = foldl (\<lambda>c e. stream_step json_parse json_stringify e c) c evs"

section \<open>The protocol invariant\<close>

text \<open>The callbacks of one request.\<close>

definition callbacks_of :: "nat \<Rightarrow> (nat \<times> callback) list \<Rightarrow> callback list" where
  "callbacks_of g tr = map snd (filter (\<lambda>e. fst e = g) tr)"

definition is_open :: "controller \<Rightarrow> nat \<Rightarrow> bool" where
  "is_open c g \<longleftrightarrow> (case ct_requests c g of Some r \<Rightarrow> rq_phase r \<noteq> Returned \<and> \<not> rq_completed r | None \<Rightarrow> False)"

text \<open>
  A request that may still report has reported no end; every trace of callbacks is a run of
  updates with at most one end behind it, in the order of the requests; the active source
  belongs to the newest request, and every other source that was created is closed.
\<close>

definition controller_inv :: "controller \<Rightarrow> bool" where
  "controller_inv c \<longleftrightarrow>
     (\<forall>g. is_open c g \<longrightarrow> list_all (\<lambda>cb. \<not> terminal cb) (callbacks_of g (ct_trace c))) \<and>
     (\<forall>g. list_all (\<lambda>cb. \<not> terminal cb) (butlast (callbacks_of g (ct_trace c)))) \<and>
     sorted (map fst (ct_trace c)) \<and>
     (\<forall>g. g > ct_generation c \<longrightarrow> ct_requests c g = None) \<and>
     (\<forall>e \<in> set (ct_trace c). fst e \<le> ct_generation c) \<and>
     (\<forall>g. ct_source c = Some g \<longrightarrow> g = ct_generation c \<and> \<not> request_completed c g \<and> map_option rq_phase (ct_requests c g) = Some HasSource) \<and>
     (\<forall>g. map_option rq_phase (ct_requests c g) = Some HasSource \<and> ct_source c \<noteq> Some g \<longrightarrow> g \<in> set (ct_closed c)) \<and>
     (\<forall>g. awaiting c g \<longrightarrow> \<not> request_completed c g)"

lemma callbacks_of_snoc:
  "callbacks_of g (tr @ [(g', cb)]) = (if g = g' then callbacks_of g tr @ [cb] else callbacks_of g tr)"
  by (auto simp: callbacks_of_def)

lemmas controller_defs = close_source_def closeActiveSource_def emit_def send_request_def set_phase_def
  awaiting_def isCurrent_def request_completed_def set_completed_def is_open_def Let_def

lemma inv_init: "controller_inv createStreamRequestController"
  by (simp add: controller_inv_def createStreamRequestController_def controller_defs callbacks_of_def)

lemma callbacks_of_newer: "\<forall>e \<in> set tr. fst e \<le> n \<Longrightarrow> n < g \<Longrightarrow> callbacks_of g tr = []"
  by (auto simp: callbacks_of_def filter_empty_conv)

lemma inv_send: "controller_inv c \<Longrightarrow> controller_inv (send_request c)"
  using callbacks_of_newer [of "ct_trace c" "ct_generation c" "Suc (ct_generation c)"]
  by (auto simp: controller_inv_def controller_defs split: option.splits)

lemma inv_cancel: "controller_inv c \<Longrightarrow> controller_inv (cancel_stream notify c)"
  by (auto simp: controller_inv_def controller_defs cancel_stream_def split: option.splits)

lemma inv_headers_ready: "controller_inv c \<Longrightarrow> controller_inv (headers_ready g c)"
  by (auto simp: controller_inv_def controller_defs headers_ready_def split: option.splits)

text \<open>A current request, and one that waits for its headers, has not ended.\<close>

lemma inv_current:
  assumes "controller_inv c" "isCurrent g c"
  shows "list_all (\<lambda>cb. \<not> terminal cb) (callbacks_of g (ct_trace c))" "\<exists>r. ct_requests c g = Some r \<and> \<not> rq_completed r \<and> rq_phase r = HasSource"
    "ct_generation c = g" "ct_source c = Some g"
proof -
  show gs: "ct_generation c = g" "ct_source c = Some g" using assms(2) by (simp_all add: isCurrent_def)
  then show r: "\<exists>r. ct_requests c g = Some r \<and> \<not> rq_completed r \<and> rq_phase r = HasSource"
    using assms(1) by (auto simp: controller_inv_def request_completed_def)
  then have "is_open c g" by (auto simp: is_open_def)
  with assms(1) show "list_all (\<lambda>cb. \<not> terminal cb) (callbacks_of g (ct_trace c))" by (simp add: controller_inv_def)
qed

lemma inv_awaiting:
  assumes "controller_inv c" "awaiting c g"
  shows "list_all (\<lambda>cb. \<not> terminal cb) (callbacks_of g (ct_trace c))" "\<exists>r. ct_requests c g = Some r \<and> \<not> rq_completed r \<and> rq_phase r = AwaitingHeaders"
proof -
  show r: "\<exists>r. ct_requests c g = Some r \<and> \<not> rq_completed r \<and> rq_phase r = AwaitingHeaders"
    using assms by (auto simp: controller_inv_def request_completed_def awaiting_def)
  then have "is_open c g" by (auto simp: is_open_def)
  with assms(1) show "list_all (\<lambda>cb. \<not> terminal cb) (callbacks_of g (ct_trace c))" by (simp add: controller_inv_def)
qed

lemma inv_set_phase_Returned:
  assumes "controller_inv c" "awaiting c g"
  shows "controller_inv (set_phase g Returned c)"
  using inv_awaiting [OF assms] assms
  by (auto simp: controller_inv_def controller_defs split: option.splits)

lemma inv_emit_returned:
  assumes "controller_inv c" "list_all (\<lambda>cb. \<not> terminal cb) (callbacks_of g (ct_trace c))" "g = ct_generation c" "\<not> is_open c g"
  shows "controller_inv (emit g cb c)"
  using assms unfolding controller_inv_def
  by (intro conjI allI impI ballI) (auto simp: emit_def is_open_def callbacks_of_snoc sorted_append awaiting_def request_completed_def)

lemma inv_headers_failed:
  assumes "controller_inv c"
  shows "controller_inv (headers_failed g e c)"
proof (cases "awaiting c g")
  case True
  let ?c = "set_phase g Returned c"
  have "list_all (\<lambda>cb. \<not> terminal cb) (callbacks_of g (ct_trace ?c))" "\<not> is_open ?c g"
    using inv_awaiting [OF assms True] by (auto simp: set_phase_def is_open_def)
  with inv_set_phase_Returned [OF assms True] True show ?thesis
    by (auto simp: headers_failed_def Let_def intro: inv_emit_returned)
qed (simp add: headers_failed_def assms)

lemma inv_emit_update:
  assumes "controller_inv c" "isCurrent g c"
  shows "controller_inv (emit g (OnUpdate ty ch) c)"
  using inv_current [OF assms] assms(1) unfolding controller_inv_def
  by (intro conjI allI impI ballI) (auto simp: emit_def is_open_def callbacks_of_snoc sorted_append awaiting_def request_completed_def)

lemma inv_finish:
  assumes "controller_inv c" "isCurrent g c"
  shows "controller_inv (closeActiveSource g (set_completed g c))"
  using inv_current(2-4) [OF assms] assms(1)
  by (auto simp: controller_inv_def controller_defs split: option.splits)

lemma finish_closed:
  assumes "controller_inv c" "isCurrent g c"
  shows "\<not> is_open (closeActiveSource g (set_completed g c)) g"
    "ct_trace (closeActiveSource g (set_completed g c)) = ct_trace c"
    "ct_generation (closeActiveSource g (set_completed g c)) = ct_generation c"
  using inv_current(2) [OF assms] by (auto simp: controller_defs)

lemma emit_finish: "closeActiveSource g (emit g cb c) = emit g cb (closeActiveSource g c)"
  by (simp add: controller_defs)

lemma inv_end:
  assumes "controller_inv c" "isCurrent g c"
  shows "controller_inv (emit g cb (closeActiveSource g (set_completed g c)))"
  using inv_finish [OF assms] finish_closed [OF assms] inv_current [OF assms]
  by (intro inv_emit_returned) auto

lemma inv_handleError: "controller_inv c \<Longrightarrow> controller_inv (handleError g e code c)"
  by (simp add: handleError_def emit_finish inv_end)

lemma emit_current [simp]: "isCurrent g (emit g cb c) = isCurrent g c"
  by (simp add: isCurrent_def emit_def)

lemma inv_emit_updates:
  "controller_inv c \<Longrightarrow> isCurrent g c \<Longrightarrow> controller_inv (emit_updates g us c) \<and> isCurrent g (emit_updates g us c)"
  unfolding emit_updates_def by (induction us arbitrary: c) (simp_all add: inv_emit_update)

lemma inv_step: "controller_inv c \<Longrightarrow> controller_inv (stream_step jp js ev c)"
  by (cases ev) (auto simp: inv_send inv_cancel inv_headers_ready inv_headers_failed on_stream_throws_def
    on_message_def on_error_def on_readystatechange_def Let_def inv_handleError inv_end inv_emit_updates
    split: option.split sum.split)

lemma inv_run: "controller_inv c \<Longrightarrow> controller_inv (stream_run jp js evs c)"
  unfolding stream_run_def by (induction evs arbitrary: c) (simp_all add: inv_step)

section \<open>Superseded requests\<close>

lemma emit_updates_trace [simp]:
  "ct_trace (emit_updates g us c) = ct_trace c @ map (\<lambda>u. (g, OnUpdate (update_type u) (update_chunk u))) us"
  "ct_generation (emit_updates g us c) = ct_generation c" "ct_source (emit_updates g us c) = ct_source c"
  "ct_requests (emit_updates g us c) = ct_requests c"
  unfolding emit_updates_def by (induction us arbitrary: c) (simp_all add: emit_def)

lemma trace_frame [simp]:
  "ct_trace (closeActiveSource g c) = ct_trace c" "ct_trace (set_completed g c) = ct_trace c"
  "ct_trace (set_phase g ph c) = ct_trace c" "ct_trace (send_request c) = ct_trace c"
  "ct_trace (headers_ready g c) = ct_trace c" "ct_trace (cancel_stream n c) = ct_trace c"
  "ct_trace (emit g cb c) = ct_trace c @ [(g, cb)]"
  by (simp_all add: controller_defs headers_ready_def cancel_stream_def split: option.split)

lemma generation_frame [simp]:
  "ct_generation (closeActiveSource g c) = ct_generation c" "ct_generation (set_completed g c) = ct_generation c"
  "ct_generation (set_phase g ph c) = ct_generation c" "ct_generation (headers_ready g c) = ct_generation c"
  "ct_generation (emit g cb c) = ct_generation c" "ct_generation (send_request c) = ct_generation c + 1"
  "ct_generation (cancel_stream n c) = ct_generation c + 1"
  by (simp_all add: controller_defs headers_ready_def cancel_stream_def split: option.split)

lemma handleError_trace:
  "ct_generation (handleError g e code c) = ct_generation c"
  "g' \<noteq> ct_generation c \<Longrightarrow> callbacks_of g' (ct_trace (handleError g e code c)) = callbacks_of g' (ct_trace c)"
  by (auto simp: handleError_def isCurrent_def callbacks_of_snoc)

lemma step_generation: "ct_generation c \<le> ct_generation (stream_step jp js ev c)"
  by (cases ev) (auto simp: headers_failed_def on_stream_throws_def on_message_def on_error_def
    on_readystatechange_def handleError_trace Let_def split: option.split sum.split)

lemma callbacks_of_append: "callbacks_of g (xs @ ys) = callbacks_of g xs @ callbacks_of g ys"
  by (simp add: callbacks_of_def)

lemma callbacks_of_single [simp]: "callbacks_of g [(g', cb)] = (if g = g' then [cb] else [])"
  by (simp add: callbacks_of_def)

lemma callbacks_of_updates:
  "g' \<noteq> g \<Longrightarrow> callbacks_of g' (map (\<lambda>u. (g, f u)) us) = []"
  "callbacks_of g (map (\<lambda>u. (g, f u)) us) = map f us"
  by (induction us) (simp_all add: callbacks_of_def)

lemma step_silent:
  "g < ct_generation c \<Longrightarrow> callbacks_of g (ct_trace (stream_step jp js ev c)) = callbacks_of g (ct_trace c)"
  by (cases ev) (auto simp: headers_failed_def on_stream_throws_def on_message_def on_error_def
    on_readystatechange_def handleError_trace Let_def callbacks_of_snoc callbacks_of_append callbacks_of_updates
    isCurrent_def split: option.split sum.split)

lemma run_silent:
  "g < ct_generation c \<Longrightarrow> callbacks_of g (ct_trace (stream_run jp js evs c)) = callbacks_of g (ct_trace c)"
proof (induction evs arbitrary: c)
  case (Cons ev evs)
  have "g < ct_generation (stream_step jp js ev c)" using Cons.prems step_generation [of c jp js ev] by simp
  with Cons step_silent [of g c jp js ev] show ?case by (simp add: stream_run_def)
qed (simp add: stream_run_def)

lemma run_append: "stream_run jp js (xs @ ys) c = stream_run jp js ys (stream_run jp js xs c)"
  by (simp add: stream_run_def)

section \<open>A whole stream\<close>

definition good_data :: "(string \<Rightarrow> json option) \<Rightarrow> (json \<Rightarrow> string) \<Rightarrow> string \<Rightarrow> bool" where
  "good_data jp js d \<longleftrightarrow> \<not> isStreamDoneMessage d \<and> \<not> isl (parseStreamMessageUpdates jp js d)"

definition update_callbacks :: "(string \<Rightarrow> json option) \<Rightarrow> (json \<Rightarrow> string) \<Rightarrow> string \<Rightarrow> callback list" where
  "update_callbacks jp js d =
     map (\<lambda>u. OnUpdate (update_type u) (update_chunk u)) (projr (parseStreamMessageUpdates jp js d))"

definition live :: "nat \<Rightarrow> controller \<Rightarrow> bool" where
  "live g c \<longleftrightarrow> isCurrent g c \<and> \<not> request_completed c g"

lemma message_good:
  assumes "live g c" "good_data jp js d"
  shows "live g (on_message jp js g (Some d) c)"
    "callbacks_of g (ct_trace (on_message jp js g (Some d) c)) = callbacks_of g (ct_trace c) @ update_callbacks jp js d"
  using assms
  by (auto simp: live_def good_data_def update_callbacks_def on_message_def nullish_def isCurrent_def
    request_completed_def callbacks_of_append callbacks_of_updates split: sum.splits)

lemma messages_good:
  assumes "live g c" "list_all (good_data jp js) ds"
  shows "live g (stream_run jp js (map (\<lambda>d. MessageEvent g (Some d)) ds) c) \<and>
    callbacks_of g (ct_trace (stream_run jp js (map (\<lambda>d. MessageEvent g (Some d)) ds) c)) =
      callbacks_of g (ct_trace c) @ concat (map (update_callbacks jp js) ds)"
  using assms
proof (induction ds arbitrary: c)
  case (Cons d ds)
  from Cons.IH [OF message_good(1) [OF Cons.prems(1)]] Cons.prems message_good(2) [OF Cons.prems(1)]
  show ?case by (simp add: stream_run_def)
qed (simp add: stream_run_def)

lemma message_done:
  assumes "live g c"
  shows "callbacks_of g (ct_trace (on_message jp js g (Some STREAM_DONE_MESSAGE) c)) = callbacks_of g (ct_trace c) @ [OnComplete]"
    "ct_source (on_message jp js g (Some STREAM_DONE_MESSAGE) c) = None"
    "ct_streaming (on_message jp js g (Some STREAM_DONE_MESSAGE) c) = False"
    "g \<in> set (ct_closed (on_message jp js g (Some STREAM_DONE_MESSAGE) c))"
  using assms by (auto simp: live_def on_message_def nullish_def isStreamDoneMessage_def callbacks_of_snoc controller_defs)

lemma started_live:
  assumes "controller_inv c"
  shows "live (ct_generation c + 1) (stream_run jp js [Send, HeadersReady (ct_generation c + 1)] c)"
    "callbacks_of (ct_generation c + 1) (ct_trace (stream_run jp js [Send, HeadersReady (ct_generation c + 1)] c)) = []"
proof -
  show "live (ct_generation c + 1) (stream_run jp js [Send, HeadersReady (ct_generation c + 1)] c)"
    by (auto simp: stream_run_def live_def headers_ready_def controller_defs split: option.split)
  have "\<forall>e \<in> set (ct_trace c). fst e \<le> ct_generation c" using assms by (simp add: controller_inv_def)
  then show "callbacks_of (ct_generation c + 1) (ct_trace (stream_run jp js [Send, HeadersReady (ct_generation c + 1)] c)) = []"
    by (simp add: stream_run_def callbacks_of_newer)
qed

section \<open>Properties\<close>

text \<open>
  C3: the callback protocol.  Whatever the environment does, in whatever order, a request's
  callbacks are updates followed by at most one completion or error, the callbacks of
  different requests never interleave, and every connection that was opened is closed or is
  the active one, which belongs to the newest request.
\<close>

theorem stream_protocol:
  "let c = stream_run json_parse json_stringify evs createStreamRequestController
   in list_all (\<lambda>cb. \<not> terminal cb) (butlast (callbacks_of g (ct_trace c))) \<and>
      sorted (map fst (ct_trace c)) \<and>
      {g. map_option rq_phase (ct_requests c g) = Some HasSource} \<subseteq> set (ct_closed c) \<union> set_option (ct_source c) \<and>
      set_option (ct_source c) \<subseteq> {ct_generation c}"
proof -
  have "controller_inv (stream_run json_parse json_stringify evs createStreamRequestController)"
    by (rule inv_run) (rule inv_init)
  then show ?thesis by (auto simp: controller_inv_def Let_def)
qed

text \<open>
  Superseded requests are silent.  After a new request, a stop or an unmount, no event
  makes the controller call back for a request issued before.
\<close>

theorem superseded_silent:
  assumes "ev = Send \<or> ev = Stop \<or> ev = Dispose"
    and "g \<le> ct_generation (stream_run json_parse json_stringify evs createStreamRequestController)"
  shows "callbacks_of g (ct_trace (stream_run json_parse json_stringify (evs @ ev # later) createStreamRequestController)) =
    callbacks_of g (ct_trace (stream_run json_parse json_stringify evs createStreamRequestController))"
proof -
  let ?c = "stream_run json_parse json_stringify evs createStreamRequestController"
  have "g < ct_generation (stream_step json_parse json_stringify ev ?c)"
    "ct_trace (stream_step json_parse json_stringify ev ?c) = ct_trace ?c"
    using assms by auto
  with run_silent [of g "stream_step json_parse json_stringify ev ?c"] show ?thesis
    by (simp add: run_append stream_run_def)
qed

theorem superseded_silent_witness:
  "callbacks_of 1 (ct_trace (stream_run (\<lambda>_. None) (\<lambda>_. [])
      ([Send, HeadersReady 1] @ Stop # [MessageEvent 1 (Some ''[DONE]'')]) createStreamRequestController)) =
    callbacks_of 1 (ct_trace (stream_run (\<lambda>_. None) (\<lambda>_. []) [Send, HeadersReady 1] createStreamRequestController))"
  by (rule superseded_silent) (simp_all add: stream_run_def createStreamRequestController_def)

text \<open>
  C38: a stream is delivered in full.  In any state the controller can reach, a request whose
  headers arrive and whose events are parsable chunks followed by the done marker calls back
  with exactly the updates of the chunks, in order, and then completes; it leaves no
  connection open.
\<close>

theorem stream_delivers:
  assumes "c = stream_run json_parse json_stringify evs createStreamRequestController"
    and "list_all (good_data json_parse json_stringify) ds"
    and "g = ct_generation c + 1"
    and "c' = stream_run json_parse json_stringify
      ([Send, HeadersReady g] @ map (\<lambda>d. MessageEvent g (Some d)) ds @ [MessageEvent g (Some STREAM_DONE_MESSAGE)]) c"
  shows "callbacks_of g (ct_trace c') = concat (map (update_callbacks json_parse json_stringify) ds) @ [OnComplete] \<and>
    ct_source c' = None \<and> \<not> ct_streaming c' \<and> g \<in> set (ct_closed c')"
proof -
  have inv: "controller_inv c" unfolding assms(1) by (rule inv_run) (rule inv_init)
  let ?c1 = "stream_run json_parse json_stringify [Send, HeadersReady g] c"
  let ?c2 = "stream_run json_parse json_stringify (map (\<lambda>d. MessageEvent g (Some d)) ds) ?c1"
  have c': "c' = on_message json_parse json_stringify g (Some STREAM_DONE_MESSAGE) ?c2"
    unfolding assms(4) run_append by (simp add: stream_run_def)
  from messages_good [OF started_live(1) [OF inv] assms(2), of json_parse json_stringify]
  have "live g ?c2" "callbacks_of g (ct_trace ?c2) = concat (map (update_callbacks json_parse json_stringify) ds)"
    using started_live(2) [OF inv, of json_parse json_stringify] by (simp_all add: assms(3))
  with message_done [of g ?c2] show ?thesis by (simp add: c')
qed

definition delta_chunk :: json where
  "delta_chunk = JObj [(''choices'', JArr [JObj [(''delta'', JObj [(''content'', JStr ''Hi'')])]])]"

theorem stream_delivers_witness:
  "callbacks_of 1 (ct_trace (stream_run (\<lambda>_. Some delta_chunk) (\<lambda>_. [])
      ([Send, HeadersReady 1] @ map (\<lambda>d. MessageEvent 1 (Some d)) [''{}''] @ [MessageEvent 1 (Some STREAM_DONE_MESSAGE)])
      createStreamRequestController)) = [OnUpdate ContentUpdate (JStr ''Hi''), OnComplete]"
proof -
  have g: "(1 :: nat) = ct_generation createStreamRequestController + 1" by (simp add: createStreamRequestController_def)
  have d: "list_all (good_data (\<lambda>_. Some delta_chunk) (\<lambda>_. [])) [''{}'']" by code_simp
  have u: "concat (map (update_callbacks (\<lambda>_. Some delta_chunk) (\<lambda>_. [])) [''{}'']) = [OnUpdate ContentUpdate (JStr ''Hi'')]"
    by code_simp
  have c: "createStreamRequestController = stream_run (\<lambda>_. Some delta_chunk) (\<lambda>_. []) [] createStreamRequestController"
    by (simp add: stream_run_def)
  from stream_delivers [OF c d g refl] u show ?thesis by simp
qed

end
