(* ===== verification/Chat_Handler.thy ===== *)
theory Chat_Handler
  imports Stream_Controller Message_Streaming
begin

text \<open>
  The chat handler of \<open>hooks/use-chat-handler.ts\<close>, composed with the stream controller it
  drives.  Its refs and React states are fields of one record.  A call of
  \<open>onMessageUpdate\<close> queues an updater: React runs the updaters in order, at the call or later, so an updater is a value of \<open>message_update\<close> that checks the generation again
  when it runs.  \<open>ch_callbacks\<close> gives, for a request of the stream controller, the handler
  generation its callbacks were created with.

  \<open>tr\<close> is the translation function.  The texts a stream carries are strings, as the
  types of the source say.  The stale timer reference an unmount leaves behind guards
  nothing, since the generation has moved on, and is not kept.
\<close>

section \<open>State\<close>

record PendingStreamChunks =
  pend_generation :: nat
  pend_content :: string
  pend_reasoning :: string

datatype message_update =
    FlushChunks nat string string
  | AppendPlugin nat PluginEventPayload string
  | CompleteStream nat
  | FailStream nat string "string option" string
  | ApplyResponse nat ChatCompletionResponse
  | CompleteStopped nat

record chat =
  ch_generation :: nat
  ch_pending :: PendingStreamChunks
  ch_timer :: "nat option"
  ch_abort :: "nat option"
  ch_aborted :: "nat list"
  ch_inflight :: "nat list"
  ch_isRequesting :: bool
  ch_controller :: controller
  ch_callbacks :: "nat \<Rightarrow> nat option"
  ch_sent :: "ChatCompletionRequest list"
  ch_updates :: "message_update list"
  ch_messages :: "Message list"
  ch_toasts :: "string list"

definition mergePendingStreamChunk :: "string \<Rightarrow> string \<Rightarrow> string" where
  "mergePendingStreamChunk currentChunk nextChunk =
     (if currentChunk = [] \<or> \<not> prefix currentChunk nextChunk then currentChunk @ nextChunk else nextChunk)"

section \<open>Updaters\<close>

primrec update_generation :: "message_update \<Rightarrow> nat" where
  "update_generation (FlushChunks g _ _) = g"
| "update_generation (AppendPlugin g _ _) = g"
| "update_generation (CompleteStream g) = g"
| "update_generation (FailStream g _ _ _) = g"
| "update_generation (ApplyResponse g _) = g"
| "update_generation (CompleteStopped g) = g"

definition apply_flush :: "(nat \<Rightarrow> number) \<Rightarrow> string \<Rightarrow> string \<Rightarrow> Message \<Rightarrow> Message" where
  "apply_flush now reasoning content message =
     (let updatedMessage =
            (if reasoning \<noteq> [] then applyStreamingChunk message ReasoningChunk reasoning (now 0) (now 1) else message)
      in if content \<noteq> [] then applyStreamingChunk updatedMessage ContentChunk content (now 2) (now 3) else updatedMessage)"

text \<open>The message an updater makes of the last reply; \<open>now\<close> numbers its readings of the clock.\<close>

primrec update_message :: "(nat \<Rightarrow> number) \<Rightarrow> message_update \<Rightarrow> Message \<Rightarrow> Message" where
  "update_message now (FlushChunks g reasoning content) message = apply_flush now reasoning content message"
| "update_message now (AppendPlugin g event eid) message = appendPluginEvent message event eid"
| "update_message now (CompleteStream g) message =
     (if isAssistantMessageFinal message then message else completeAssistantMessage message (now 0) (now 1) (now 2))"
| "update_message now (FailStream g displayError errorCode errorTitle) message =
     error_update displayError errorCode errorTitle (now 0) message"
| "update_message now (ApplyResponse g response) message =
     nullish (applyChatCompletionResponse message response (now 0) (now 1) (now 2)) message"
| "update_message now (CompleteStopped g) message =
     (if isAssistantMessagePending message then completeAssistantMessage message (now 0) (now 1) (now 2) else message)"

definition run_update :: "(nat \<Rightarrow> number) \<Rightarrow> nat \<Rightarrow> message_update \<Rightarrow> Message list \<Rightarrow> Message list" where
  "run_update now currentGeneration u prev =
     (if update_generation u \<noteq> currentGeneration then prev
      else updateLastAssistantMessage prev (update_message now u))"

definition onMessageUpdate :: "message_update \<Rightarrow> chat \<Rightarrow> chat" where
  "onMessageUpdate u s = s\<lparr>ch_updates := ch_updates s @ [u]\<rparr>"

section \<open>Stream callbacks\<close>

definition discardPendingStreamUpdates :: "nat \<Rightarrow> chat \<Rightarrow> chat" where
  "discardPendingStreamUpdates generation s =
     s\<lparr>ch_timer := None, ch_pending := \<lparr>pend_generation = generation, pend_content = [], pend_reasoning = []\<rparr>\<rparr>"

definition flushStreamUpdates :: "nat \<Rightarrow> chat \<Rightarrow> chat" where
  "flushStreamUpdates generation s =
     (if generation \<noteq> ch_generation s then s
      else
        let s = s\<lparr>ch_timer := None\<rparr>;
            pendingChunks = ch_pending s
        in if pend_generation pendingChunks \<noteq> generation then s
           else if pend_reasoning pendingChunks = [] \<and> pend_content pendingChunks = [] then s
           else onMessageUpdate
             (FlushChunks generation (pend_reasoning pendingChunks) (pend_content pendingChunks))
             (s\<lparr>ch_pending := \<lparr>pend_generation = generation, pend_content = [], pend_reasoning = []\<rparr>\<rparr>))"

definition scheduleStreamFlush :: "nat \<Rightarrow> chat \<Rightarrow> chat" where
  "scheduleStreamFlush generation s =
     (if generation \<noteq> ch_generation s then s
      else if ch_timer s \<noteq> None then s
      else s\<lparr>ch_timer := Some generation\<rparr>)"

definition getDisplayError :: "(string \<Rightarrow> string) \<Rightarrow> string \<Rightarrow> string" where
  "getDisplayError tr error =
     (if error \<in> set ERROR_MESSAGES then tr error
      else if suffix ('': '' @ CONNECTION_CLOSED) error
      then take (length error - length CONNECTION_CLOSED) error @ tr CONNECTION_CLOSED
      else error)"

definition handleStreamUpdate ::
    "(string \<Rightarrow> json option) \<Rightarrow> string \<Rightarrow> nat \<Rightarrow> StreamUpdateType \<Rightarrow> string \<Rightarrow> chat \<Rightarrow> chat" where
  "handleStreamUpdate json_parse eid generation type chunk s =
     (if generation \<noteq> ch_generation s then s
      else if pend_generation (ch_pending s) \<noteq> generation then s
      else case type of
        PluginEventUpdate \<Rightarrow>
          (case Option.bind (json_parse chunk) parsePluginEventPayload of
             None \<Rightarrow> s
           | Some event \<Rightarrow> onMessageUpdate (AppendPlugin generation event eid) (flushStreamUpdates generation s))
      | ContentUpdate \<Rightarrow>
          scheduleStreamFlush generation (s\<lparr>ch_pending := (ch_pending s)
            \<lparr>pend_content := mergePendingStreamChunk (pend_content (ch_pending s)) chunk\<rparr>\<rparr>)
      | ReasoningUpdate \<Rightarrow>
          scheduleStreamFlush generation (s\<lparr>ch_pending := (ch_pending s)
            \<lparr>pend_reasoning := mergePendingStreamChunk (pend_reasoning (ch_pending s)) chunk\<rparr>\<rparr>))"

definition handleStreamComplete :: "nat \<Rightarrow> chat \<Rightarrow> chat" where
  "handleStreamComplete generation s =
     (if generation \<noteq> ch_generation s then s
      else onMessageUpdate (CompleteStream generation) ((flushStreamUpdates generation s)\<lparr>ch_isRequesting := False\<rparr>))"

definition handleStreamError :: "(string \<Rightarrow> string) \<Rightarrow> nat \<Rightarrow> string \<Rightarrow> string option \<Rightarrow> chat \<Rightarrow> chat" where
  "handleStreamError tr generation error errorCode s =
     (if generation \<noteq> ch_generation s then s
      else
        let s = (flushStreamUpdates generation s)\<lparr>ch_isRequesting := False\<rparr>;
            displayError = getDisplayError tr error
        in onMessageUpdate (FailStream generation displayError errorCode (tr API_REQUEST_ERROR))
             (s\<lparr>ch_toasts := ch_toasts s @ [displayError]\<rparr>))"

text \<open>The handler's closures behind one callback of the controller.\<close>

fun dispatch :: "(string \<Rightarrow> string) \<Rightarrow> (string \<Rightarrow> json option) \<Rightarrow> string \<Rightarrow> nat \<times> callback \<Rightarrow> chat \<Rightarrow> chat" where
  "dispatch tr json_parse eid (g, cb) s =
     (case ch_callbacks s g of
        None \<Rightarrow> s
      | Some generation \<Rightarrow>
          (case cb of
             OnUpdate type chunk \<Rightarrow>
               (case chunk of JStr k \<Rightarrow> handleStreamUpdate json_parse eid generation type k s | _ \<Rightarrow> s)
           | OnComplete \<Rightarrow> handleStreamComplete generation s
           | OnError error errorCode \<Rightarrow>
               (case error of JStr e \<Rightarrow> handleStreamError tr generation e (as_string errorCode) s | _ \<Rightarrow> s)))"

section \<open>Requests\<close>

definition sendStreamingChat :: "PlaygroundConfig \<Rightarrow> ParameterEnabled \<Rightarrow> Message list \<Rightarrow> chat \<Rightarrow> chat" where
  "sendStreamingChat config parameterEnabled messages s =
     (let generation = ch_generation s + 1;
          s = discardPendingStreamUpdates generation
                (s\<lparr>ch_generation := generation, ch_aborted := ch_aborted s @ (case ch_abort s of None \<Rightarrow> [] | Some a \<Rightarrow> [a]),
                   ch_abort := None\<rparr>);
          controller = send_request (ch_controller s)
      in s\<lparr>ch_isRequesting := True,
           ch_sent := ch_sent s @ [buildChatCompletionPayload messages config parameterEnabled],
           ch_controller := controller,
           ch_callbacks := (ch_callbacks s)(ct_generation controller \<mapsto> generation)\<rparr>)"

definition sendNonStreamingChat :: "PlaygroundConfig \<Rightarrow> ParameterEnabled \<Rightarrow> Message list \<Rightarrow> chat \<Rightarrow> chat" where
  "sendNonStreamingChat config parameterEnabled messages s =
     (let generation = ch_generation s + 1;
          s = discardPendingStreamUpdates generation
                (s\<lparr>ch_generation := generation, ch_controller := cancel_stream True (ch_controller s)\<rparr>)
      in s\<lparr>ch_aborted := ch_aborted s @ (case ch_abort s of None \<Rightarrow> [] | Some a \<Rightarrow> [a]),
           ch_abort := Some generation,
           ch_isRequesting := True,
           ch_sent := ch_sent s @ [buildChatCompletionPayload messages config parameterEnabled],
           ch_inflight := ch_inflight s @ [generation]\<rparr>)"

text \<open>The continuation of \<open>sendNonStreamingChat\<close> when the request settles.\<close>

definition response_arrived :: "(string \<Rightarrow> string) \<Rightarrow> nat \<Rightarrow> RequestErrorLike + ChatCompletionResponse \<Rightarrow> chat \<Rightarrow> chat" where
  "response_arrived tr generation result s0 =
     (if generation \<notin> set (ch_inflight s0) then s0
      else
        let s = s0\<lparr>ch_inflight := filter (\<lambda>g. g \<noteq> generation) (ch_inflight s0)\<rparr>;
            handled =
              (if generation \<in> set (ch_aborted s) \<or> ch_generation s \<noteq> generation then s
               else case result of
                 Inr response \<Rightarrow>
                   if \<not> hasChatCompletionChoice response then handleStreamError tr generation API_REQUEST_ERROR None s
                   else onMessageUpdate (ApplyResponse generation response) s
               | Inl error \<Rightarrow>
                   let details = parseRequestErrorDetails error
                   in handleStreamError tr generation (red_errorMessage details) (red_errorCode details) s)
        in if ch_generation handled = generation then handled\<lparr>ch_abort := None, ch_isRequesting := False\<rparr>
           else handled)"

definition sendChat :: "PlaygroundConfig \<Rightarrow> ParameterEnabled \<Rightarrow> Message list \<Rightarrow> chat \<Rightarrow> chat" where
  "sendChat config parameterEnabled messages s =
     (if cfg_stream config then sendStreamingChat config parameterEnabled messages s
      else sendNonStreamingChat config parameterEnabled messages s)"

definition render_update :: "(nat \<Rightarrow> number) \<Rightarrow> chat \<Rightarrow> chat" where
  "render_update now s =
     (case ch_updates s of
        [] \<Rightarrow> s
      | u # us \<Rightarrow> s\<lparr>ch_updates := us, ch_messages := run_update now (ch_generation s) u (ch_messages s)\<rparr>)"

text \<open>
  React may compute a state update at the call of \<open>setMessages\<close> when no other is queued;
  \<open>eager\<close> says whether it does.  Only \<open>stopGeneration\<close> changes the generation after such a
  call, so elsewhere this is the same as running the updater after the handler.
\<close>

definition eager_update :: "(nat \<Rightarrow> number) option \<Rightarrow> chat \<Rightarrow> chat" where
  "eager_update eager s =
     (case eager of None \<Rightarrow> s | Some now \<Rightarrow> if length (ch_updates s) = 1 then render_update now s else s)"

definition stopGeneration :: "(nat \<Rightarrow> number) option \<Rightarrow> chat \<Rightarrow> chat" where
  "stopGeneration eager s =
     (let stoppedGeneration = ch_generation s;
          s = eager_update eager (flushStreamUpdates stoppedGeneration s);
          idleGeneration = stoppedGeneration + 1;
          s = discardPendingStreamUpdates idleGeneration (s\<lparr>ch_generation := idleGeneration\<rparr>)
      in onMessageUpdate (CompleteStopped idleGeneration)
           (s\<lparr>ch_controller := cancel_stream True (ch_controller s),
              ch_aborted := ch_aborted s @ (case ch_abort s of None \<Rightarrow> [] | Some a \<Rightarrow> [a]),
              ch_abort := None, ch_isRequesting := False\<rparr>))"

definition unmount :: "chat \<Rightarrow> chat" where
  "unmount s = s\<lparr>ch_generation := ch_generation s + 1, ch_timer := None,
     ch_aborted := ch_aborted s @ (case ch_abort s of None \<Rightarrow> [] | Some a \<Rightarrow> [a]), ch_abort := None,
     ch_controller := cancel_stream False (ch_controller s)\<rparr>"

definition isGenerating :: "chat \<Rightarrow> bool" where
  "isGenerating s \<longleftrightarrow> ct_streaming (ch_controller s) \<or> ch_isRequesting s"

section \<open>Steps\<close>

datatype chat_event =
    SendChat PlaygroundConfig ParameterEnabled "Message list"
  | StopGeneration "(nat \<Rightarrow> number) option"
  | StreamEvent stream_event string
  | FlushTimer
  | ResponseArrived nat "RequestErrorLike + ChatCompletionResponse"
  | RenderUpdate "nat \<Rightarrow> number"
  | Unmount

text \<open>The events of the controller that come from its environment.\<close>

primrec from_environment :: "stream_event \<Rightarrow> bool" where
  "from_environment Send = False"
| "from_environment (HeadersReady g) = True"
| "from_environment (HeadersFailed g e) = True"
| "from_environment (StreamThrows g) = True"
| "from_environment (MessageEvent g d) = True"
| "from_environment (ErrorEvent g rs d) = True"
| "from_environment (ReadyStateEvent g rs st) = True"
| "from_environment Stop = False"
| "from_environment Dispose = False"

definition stream_event_step ::
    "(string \<Rightarrow> string) \<Rightarrow> (string \<Rightarrow> json option) \<Rightarrow> (json \<Rightarrow> string) \<Rightarrow> stream_event \<Rightarrow> string \<Rightarrow> chat \<Rightarrow> chat" where
  "stream_event_step tr json_parse json_stringify ev eid s =
     (if \<not> from_environment ev then s
      else
        let controller = stream_step json_parse json_stringify ev (ch_controller s);
            fresh = drop (length (ct_trace (ch_controller s))) (ct_trace controller)
        in foldl (\<lambda>s cb. dispatch tr json_parse eid cb s) (s\<lparr>ch_controller := controller\<rparr>) fresh)"

fun chat_step :: "(string \<Rightarrow> string) \<Rightarrow> (string \<Rightarrow> json option) \<Rightarrow> (json \<Rightarrow> string) \<Rightarrow> chat_event \<Rightarrow> chat \<Rightarrow> chat" where
  "chat_step tr jp js (SendChat config parameterEnabled messages) s = sendChat config parameterEnabled messages s"
| "chat_step tr jp js (StopGeneration eager) s = stopGeneration eager s"
| "chat_step tr jp js (StreamEvent ev eid) s = stream_event_step tr jp js ev eid s"
| "chat_step tr jp js FlushTimer s =
     (case ch_timer s of None \<Rightarrow> s | Some generation \<Rightarrow> flushStreamUpdates generation s)"
| "chat_step tr jp js (ResponseArrived generation result) s = response_arrived tr generation result s"
| "chat_step tr jp js (RenderUpdate now) s = render_update now s"
| "chat_step tr jp js Unmount s = unmount s"

definition chat_run :: "(string \<Rightarrow> string) \<Rightarrow> (string \<Rightarrow> json option) \<Rightarrow> (json \<Rightarrow> string) \<Rightarrow> chat_event list \<Rightarrow> chat \<Rightarrow> chat" where
  "chat_run tr jp js evs s = foldl (\<lambda>s e. chat_step tr jp js e s) s evs"

definition initial_chat :: "Message list \<Rightarrow> chat" where
  "initial_chat messages =
     \<lparr>ch_generation = 0, ch_pending = \<lparr>pend_generation = 0, pend_content = [], pend_reasoning = []\<rparr>,
      ch_timer = None, ch_abort = None, ch_aborted = [], ch_inflight = [], ch_isRequesting = False,
      ch_controller = createStreamRequestController, ch_callbacks = (\<lambda>_. None), ch_sent = [], ch_updates = [],
      ch_messages = messages, ch_toasts = []\<rparr>"

section \<open>The conversation is kept\<close>

interpretation updater: message_update "update_message now u" for now u
proof unfold_locales
  fix m
  show "msg_key (update_message now u m) = msg_key m"
    by (cases u) (simp_all add: apply_flush_def Let_def completeAssistantMessage_def appendPluginEvent_def error_update_def
      applyChatCompletionResponse_def applyChatCompletionChoice_def nullish_def split: option.split)
  show "msg_from (update_message now u m) = msg_from m"
    by (cases u) (simp_all add: apply_flush_def Let_def completeAssistantMessage_def appendPluginEvent_def error_update_def
      applyChatCompletionResponse_def applyChatCompletionChoice_def nullish_def split: option.split)
qed

lemmas handler_defs = discardPendingStreamUpdates_def flushStreamUpdates_def scheduleStreamFlush_def onMessageUpdate_def Let_def

lemma messages_frame [frame, simp]:
  "ch_messages (discardPendingStreamUpdates g s) = ch_messages s"
  "ch_messages (flushStreamUpdates g s) = ch_messages s"
  "ch_messages (scheduleStreamFlush g s) = ch_messages s"
  "ch_messages (onMessageUpdate u s) = ch_messages s"
  by (simp_all add: handler_defs)

lemma handler_messages [simp]:
  "ch_messages (handleStreamUpdate jp eid g ty k s) = ch_messages s"
  "ch_messages (handleStreamComplete g s) = ch_messages s"
  "ch_messages (handleStreamError tr g e code s) = ch_messages s"
  by (simp_all add: handleStreamUpdate_def handleStreamComplete_def handleStreamError_def Let_def
    split: StreamUpdateType.split option.split)

lemma dispatch_messages [simp]: "ch_messages (dispatch tr jp eid cb s) = ch_messages s"
  by (cases cb) (simp split: option.split callback.split json.split)

lemma foldl_dispatch_messages [simp]:
  "ch_messages (foldl (\<lambda>s cb. dispatch tr jp eid cb s) s cbs) = ch_messages s"
  by (induction cbs arbitrary: s) simp_all

lemma request_messages [simp]:
  "ch_messages (sendChat cfg en ms s) = ch_messages s"
  "ch_messages (unmount s) = ch_messages s" "ch_messages (response_arrived tr g r s) = ch_messages s"
  "ch_messages (stream_event_step tr jp js ev eid s) = ch_messages s"
  by (simp_all add: sendChat_def sendStreamingChat_def sendNonStreamingChat_def unmount_def
    response_arrived_def stream_event_step_def Let_def split: sum.split)

lemma stop_messages [simp]:
  "ch_messages (stopGeneration eager s) = ch_messages (eager_update eager (flushStreamUpdates (ch_generation s) s))"
  by (simp add: stopGeneration_def Let_def)

lemma run_update_keeps:
  "map msg_key (run_update now g u ms) = map msg_key ms"
  "map msg_from (run_update now g u ms) = map msg_from ms"
  "butlast (run_update now g u ms) = butlast ms"
  by (simp_all add: run_update_def updater.update_last_keys updater.update_last_roles updater.update_last_butlast)

lemma render_keeps:
  "map msg_key (ch_messages (render_update now s)) = map msg_key (ch_messages s)"
  "map msg_from (ch_messages (render_update now s)) = map msg_from (ch_messages s)"
  "butlast (ch_messages (render_update now s)) = butlast (ch_messages s)"
  by (simp_all add: render_update_def run_update_keeps split: list.split)

lemma step_keeps:
  "map msg_key (ch_messages (chat_step tr jp js ev s)) = map msg_key (ch_messages s)"
  "map msg_from (ch_messages (chat_step tr jp js ev s)) = map msg_from (ch_messages s)"
  "butlast (ch_messages (chat_step tr jp js ev s)) = butlast (ch_messages s)"
  by (cases ev; simp add: render_keeps eager_update_def split: option.split)+

lemma run_keeps:
  "map msg_key (ch_messages (chat_run tr jp js evs s)) = map msg_key (ch_messages s) \<and>
   map msg_from (ch_messages (chat_run tr jp js evs s)) = map msg_from (ch_messages s) \<and>
   butlast (ch_messages (chat_run tr jp js evs s)) = butlast (ch_messages s)"
  unfolding chat_run_def by (induction evs arbitrary: s) (simp_all add: step_keeps)

section \<open>Idle after a stop\<close>

lemma controller_frame [frame, simp]:
  "ch_controller (discardPendingStreamUpdates g s) = ch_controller s"
  "ch_controller (flushStreamUpdates g s) = ch_controller s"
  "ch_controller (scheduleStreamFlush g s) = ch_controller s"
  "ch_controller (onMessageUpdate u s) = ch_controller s"
  "ch_controller (eager_update eager s) = ch_controller s"
  by (simp_all add: handler_defs eager_update_def render_update_def split: option.split list.split)

lemma handler_controller [simp]:
  "ch_controller (handleStreamUpdate jp eid g ty k s) = ch_controller s"
  "ch_controller (handleStreamComplete g s) = ch_controller s"
  "ch_controller (handleStreamError tr g e code s) = ch_controller s"
  by (simp_all add: handleStreamUpdate_def handleStreamComplete_def handleStreamError_def Let_def
    split: StreamUpdateType.split option.split)

lemma dispatch_controller [simp]: "ch_controller (dispatch tr jp eid cb s) = ch_controller s"
  by (cases cb) (simp split: option.split callback.split json.split)

lemma foldl_dispatch_controller [simp]:
  "ch_controller (foldl (\<lambda>s cb. dispatch tr jp eid cb s) s cbs) = ch_controller s"
  by (induction cbs arbitrary: s) simp_all

lemma step_controller_inv:
  assumes "controller_inv (ch_controller s)"
  shows "controller_inv (ch_controller (chat_step tr jp js ev s))"
  using assms by (cases ev) (auto simp: sendChat_def sendStreamingChat_def sendNonStreamingChat_def stopGeneration_def
    unmount_def response_arrived_def stream_event_step_def render_update_def Let_def inv_send inv_cancel inv_step
    split: option.split sum.split list.split)

lemma run_controller_inv:
  "controller_inv (ch_controller s) \<Longrightarrow> controller_inv (ch_controller (chat_run tr jp js evs s))"
  unfolding chat_run_def by (induction evs arbitrary: s) (simp_all add: step_controller_inv)

text \<open>No generation the handler keeps is newer than the current one.\<close>

definition generations_bounded :: "chat \<Rightarrow> bool" where
  "generations_bounded s \<longleftrightarrow>
     (\<forall>u \<in> set (ch_updates s). update_generation u \<le> ch_generation s) \<and>
     (\<forall>g \<in> set (ch_inflight s). g \<le> ch_generation s) \<and>
     (\<forall>g h. ch_callbacks s g = Some h \<longrightarrow> h \<le> ch_generation s) \<and>
     (\<forall>g. ch_timer s = Some g \<longrightarrow> g \<le> ch_generation s)"

lemma bounded_handlers:
  assumes "generations_bounded s"
  shows "generations_bounded (flushStreamUpdates g s)" "generations_bounded (scheduleStreamFlush g s)"
    "generations_bounded (handleStreamComplete g s)" "generations_bounded (handleStreamError tr g e code s)"
  using assms by (auto simp: generations_bounded_def handler_defs handleStreamComplete_def handleStreamError_def)

lemma handler_generation [simp]:
  "ch_generation (flushStreamUpdates g s) = ch_generation s" "ch_generation (handleStreamError tr g e code s) = ch_generation s"
  "ch_generation (onMessageUpdate u s) = ch_generation s" "ch_generation (eager_update eager s) = ch_generation s"
  by (simp_all add: handler_defs handleStreamError_def eager_update_def render_update_def split: option.split list.split)

lemma bounded_eager:
  assumes "generations_bounded s"
  shows "generations_bounded (eager_update eager s)"
  using assms by (auto simp: generations_bounded_def eager_update_def render_update_def split: option.split list.split)

lemma bounded_stop:
  assumes "generations_bounded s"
  shows "generations_bounded (stopGeneration eager s)"
  using bounded_eager [OF bounded_handlers(1) [OF assms], of eager "ch_generation s"]
  by (auto simp: stopGeneration_def generations_bounded_def onMessageUpdate_def discardPendingStreamUpdates_def Let_def
    intro: le_SucI)

lemma bounded_update:
  assumes "generations_bounded s"
  shows "generations_bounded (handleStreamUpdate jp eid g ty k s)"
proof (cases "g = ch_generation s \<and> pend_generation (ch_pending s) = g")
  case True
  have *: "generations_bounded (s\<lparr>ch_pending := p\<rparr>)" for p using assms by (simp add: generations_bounded_def)
  have "generations_bounded (onMessageUpdate (AppendPlugin g ev eid) (flushStreamUpdates g s))" for ev
    using bounded_handlers(1) [OF assms, of g] True by (auto simp: generations_bounded_def onMessageUpdate_def)
  with True bounded_handlers(2) [OF *] assms show ?thesis
    by (auto simp: handleStreamUpdate_def split: StreamUpdateType.split option.split)
qed (use assms in \<open>auto simp: handleStreamUpdate_def\<close>)

lemma bounded_dispatch: "generations_bounded s \<Longrightarrow> generations_bounded (dispatch tr jp eid cb s)"
  by (cases cb) (simp add: bounded_handlers bounded_update split: option.split callback.split json.split)

lemma bounded_foldl:
  "generations_bounded s \<Longrightarrow> generations_bounded (foldl (\<lambda>s cb. dispatch tr jp eid cb s) s cbs)"
  by (induction cbs arbitrary: s) (simp_all add: bounded_dispatch)

lemma bounded_step: "generations_bounded s \<Longrightarrow> generations_bounded (chat_step tr jp js ev s)"
proof (cases ev)
  case (StreamEvent e eid)
  assume "generations_bounded s"
  then have "generations_bounded (s\<lparr>ch_controller := c\<rparr>)" for c by (simp add: generations_bounded_def)
  with StreamEvent \<open>generations_bounded s\<close> show ?thesis by (simp add: stream_event_step_def Let_def bounded_foldl)
next
  case (ResponseArrived g r)
  assume b: "generations_bounded s"
  let ?s = "s\<lparr>ch_inflight := filter (\<lambda>g'. g' \<noteq> g) (ch_inflight s)\<rparr>"
  have b': "generations_bounded ?s" using b by (auto simp: generations_bounded_def)
  have "generations_bounded (onMessageUpdate (ApplyResponse g rs) ?s)" if "g = ch_generation s" for rs
    using b' that by (auto simp: generations_bounded_def onMessageUpdate_def)
  moreover have upd: "generations_bounded (t\<lparr>ch_abort := a, ch_isRequesting := q\<rparr>) = generations_bounded t" for t a q
    by (simp add: generations_bounded_def)
  ultimately show ?thesis using ResponseArrived b b' bounded_handlers(4) [OF b']
    by (auto simp: response_arrived_def Let_def split: sum.split)
next
  case (StopGeneration eager)
  assume "generations_bounded s"
  with StopGeneration show ?thesis by (simp add: bounded_stop)
qed (auto simp: bounded_handlers sendChat_def sendStreamingChat_def sendNonStreamingChat_def unmount_def
  render_update_def generations_bounded_def handler_defs intro: le_SucI split: option.split list.split)


lemma bounded_run: "generations_bounded s \<Longrightarrow> generations_bounded (chat_run tr jp js evs s)"
  unfolding chat_run_def by (induction evs arbitrary: s) (simp_all add: bounded_step)

lemma initial_bounded: "generations_bounded (initial_chat ms)" "controller_inv (ch_controller (initial_chat ms))"
  by (simp_all add: generations_bounded_def initial_chat_def inv_init)

text \<open>A controller no request of which is current: no event of the environment wakes it.\<close>

definition idle_controller :: "controller \<Rightarrow> bool" where
  "idle_controller c \<longleftrightarrow> ct_source c = None \<and> ct_requests c (ct_generation c) = None \<and> \<not> ct_streaming c"

lemma idle_cancel: "controller_inv c \<Longrightarrow> idle_controller (cancel_stream True c)"
  by (auto simp: idle_controller_def controller_inv_def cancel_stream_def controller_defs split: option.split)

lemma idle_not_current: "idle_controller c \<Longrightarrow> \<not> isCurrent g c"
  by (simp add: idle_controller_def isCurrent_def)

lemma idle_headers:
  assumes "idle_controller c"
  shows "idle_controller (headers_ready g c)" "idle_controller (headers_failed g e c)"
    "ct_trace (headers_failed g e c) = ct_trace c"
proof -
  have *: "\<not> awaiting c (ct_generation c)" using assms by (simp add: idle_controller_def awaiting_def)
  have "idle_controller (set_phase g ph c)" for ph using assms by (auto simp: idle_controller_def set_phase_def)
  with assms * show "idle_controller (headers_ready g c)" "idle_controller (headers_failed g e c)"
    "ct_trace (headers_failed g e c) = ct_trace c"
    by (auto simp: headers_ready_def headers_failed_def Let_def)
qed

lemma idle_step:
  assumes "idle_controller c" "from_environment ev"
  shows "idle_controller (stream_step jp js ev c)" "ct_trace (stream_step jp js ev c) = ct_trace c"
  using assms idle_headers [OF assms(1)] idle_not_current [OF assms(1)]
  by (cases ev; simp add: on_message_def on_error_def on_readystatechange_def on_stream_throws_def)+

definition only_late_events :: "chat_event list \<Rightarrow> bool" where
  "only_late_events = list_all (\<lambda>e. case e of
     SendChat _ _ _ \<Rightarrow> False | StopGeneration _ \<Rightarrow> False | Unmount \<Rightarrow> False | _ \<Rightarrow> True)"

definition stopped :: "nat \<Rightarrow> Message list \<Rightarrow> chat \<Rightarrow> bool" where
  "stopped i ms s \<longleftrightarrow>
     ch_generation s = i \<and> idle_controller (ch_controller s) \<and> ch_timer s = None \<and> i \<notin> set (ch_inflight s) \<and>
     \<not> ch_isRequesting s \<and>
     (filter (\<lambda>u. update_generation u = i) (ch_updates s) = [CompleteStopped i] \<and> ch_messages s = ms \<or>
      filter (\<lambda>u. update_generation u = i) (ch_updates s) = [] \<and>
        (\<exists>now. ch_messages s = run_update now i (CompleteStopped i) ms))"

lemma stop_stopped:
  assumes "generations_bounded s" "controller_inv (ch_controller s)"
  shows "stopped (ch_generation s + 1) (ch_messages (stopGeneration eager s)) (stopGeneration eager s)"
proof -
  let ?f = "eager_update eager (flushStreamUpdates (ch_generation s) s)"
  have "generations_bounded ?f" by (intro bounded_eager bounded_handlers assms)
  then have "filter (\<lambda>u. update_generation u = Suc (ch_generation s)) (ch_updates ?f) = []"
    "Suc (ch_generation s) \<notin> set (ch_inflight ?f)"
    by (auto simp: generations_bounded_def filter_empty_conv)
  then show ?thesis using idle_cancel [OF assms(2)]
    by (simp add: stopped_def stopGeneration_def Let_def onMessageUpdate_def discardPendingStreamUpdates_def)
qed

lemma stopped_render:
  assumes "stopped i ms s"
  shows "stopped i ms (render_update now s)"
proof (cases "ch_updates s")
  case (Cons u us)
  show ?thesis
  proof (cases "update_generation u = i")
    case True
    with assms Cons have "u = CompleteStopped i" "ch_messages s = ms" "filter (\<lambda>u. update_generation u = i) us = []"
      by (auto simp: stopped_def)
    with assms Cons show ?thesis by (auto simp: stopped_def render_update_def)
  next
    case False
    with assms Cons show ?thesis by (simp add: stopped_def render_update_def run_update_def)
  qed
qed (use assms in \<open>simp add: render_update_def\<close>)

lemma stopped_step:
  assumes "stopped i ms s" "only_late_events [ev]"
  shows "stopped i ms (chat_step tr jp js ev s)"
proof (cases ev)
  case (StreamEvent e eid)
  then show ?thesis using assms idle_step [of "ch_controller s" e]
    by (auto simp: stream_event_step_def Let_def stopped_def)
next
  case (ResponseArrived g r)
  then have "g \<noteq> i" if "g \<in> set (ch_inflight s)" using assms that by (auto simp: stopped_def)
  with assms ResponseArrived show ?thesis by (auto simp: response_arrived_def stopped_def Let_def)
next
  case (RenderUpdate now)
  with assms show ?thesis by (simp add: stopped_render)
qed (use assms in \<open>auto simp: only_late_events_def stopped_def\<close>)

lemma stopped_run:
  "stopped i ms s \<Longrightarrow> only_late_events evs \<Longrightarrow> stopped i ms (chat_run tr jp js evs s)"
proof (induction evs arbitrary: s)
  case (Cons ev evs)
  then have "stopped i ms (chat_step tr jp js ev s)" by (intro stopped_step) (simp_all add: only_late_events_def)
  with Cons show ?case by (simp add: chat_run_def only_late_events_def)
qed (simp add: chat_run_def)

lemma chat_run_append: "chat_run tr jp js (xs @ ys) s = chat_run tr jp js ys (chat_run tr jp js xs s)"
  by (simp add: chat_run_def)

text \<open>
  C11: the chat handler edits the last reply only.  Whatever is sent, stopped, streamed or
  rendered, in any order, the conversation keeps its messages: the keys and authors of all
  of them, and everything of every message but the last.
\<close>

theorem chat_keeps_conversation:
  "map msg_key (ch_messages (chat_run tr json_parse json_stringify evs (initial_chat ms))) = map msg_key ms \<and>
   map msg_from (ch_messages (chat_run tr json_parse json_stringify evs (initial_chat ms))) = map msg_from ms \<and>
   butlast (ch_messages (chat_run tr json_parse json_stringify evs (initial_chat ms))) = butlast ms"
  using run_keeps [of tr json_parse json_stringify evs "initial_chat ms"] by (simp add: initial_chat_def)

text \<open>
  C5: a stop is final.  After generation is stopped, late chunks, end markers, errors,
  timers and responses of the stopped request change nothing until the next request: the
  handler is not generating, and the messages are those shown at the stop (with the text
  still pending then, if React applied it at once), with a pending last reply completed
  once the queued update has run.
\<close>

theorem stop_is_final:
  assumes "only_late_events later"
    and "s = chat_run tr json_parse json_stringify evs (initial_chat ms)"
    and "s' = chat_run tr json_parse json_stringify (evs @ StopGeneration eager # later) (initial_chat ms)"
    and "shown = ch_messages (eager_update eager (flushStreamUpdates (ch_generation s) s))"
  shows "\<not> isGenerating s' \<and>
    (\<exists>now. ch_messages s' = shown \<or>
       ch_messages s' = run_update now (ch_generation s + 1) (CompleteStopped (ch_generation s + 1)) shown)"
proof -
  have "s' = chat_run tr json_parse json_stringify later (stopGeneration eager s)"
    unfolding assms(2,3) by (simp add: chat_run_def)
  moreover have "generations_bounded s" "controller_inv (ch_controller s)"
    unfolding assms(2) by (simp_all add: bounded_run run_controller_inv initial_bounded)
  ultimately have "stopped (ch_generation s + 1) shown s'"
    using stop_stopped [of s eager] stopped_run assms(1,4) by simp
  then show ?thesis by (auto simp: stopped_def isGenerating_def idle_controller_def)
qed

definition pending_chat :: "Message list" where
  "pending_chat = [createUserMessage ''m1'' ''v1'' ''Hi'' 1, createLoadingAssistantMessage ''m2'' ''v2'' 1]"

definition streaming_events :: "chat_event list" where
  "streaming_events =
     [SendChat DEFAULT_CONFIG DEFAULT_PARAMETER_ENABLED pending_chat, StreamEvent (HeadersReady 1) [],
      StreamEvent (MessageEvent 1 (Some ''{}'')) []]"

theorem stop_is_final_witness:
  "\<exists>now. ch_messages (chat_run (\<lambda>s. s) (\<lambda>_. Some delta_chunk) (\<lambda>_. [])
        (streaming_events @ StopGeneration None # [StreamEvent (MessageEvent 1 (Some ''{}'')) [], FlushTimer, RenderUpdate (\<lambda>_. 5)])
        (initial_chat pending_chat)) = pending_chat \<or>
    ch_messages (chat_run (\<lambda>s. s) (\<lambda>_. Some delta_chunk) (\<lambda>_. [])
        (streaming_events @ StopGeneration None # [StreamEvent (MessageEvent 1 (Some ''{}'')) [], FlushTimer, RenderUpdate (\<lambda>_. 5)])
        (initial_chat pending_chat)) = run_update now 2 (CompleteStopped 2) pending_chat"
proof -
  let ?s = "chat_run (\<lambda>s. s) (\<lambda>_. Some delta_chunk) (\<lambda>_. []) streaming_events (initial_chat pending_chat)"
  have late: "only_late_events [StreamEvent (MessageEvent 1 (Some ''{}'')) [], FlushTimer, RenderUpdate (\<lambda>_. 5)]"
    by (simp add: only_late_events_def)
  have g: "ch_generation ?s = 1" by code_simp
  have m: "ch_messages (eager_update None (flushStreamUpdates (ch_generation ?s) ?s)) = pending_chat"
    unfolding eager_update_def by simp code_simp
  from stop_is_final [OF late refl refl refl,
      of "\<lambda>s. s" "\<lambda>_. Some delta_chunk" "\<lambda>_. []" streaming_events "None" pending_chat]
  show ?thesis unfolding m unfolding g by (simp add: numeral_2_eq_2)
qed

text \<open>
  What a stop does to the text that was not rendered.  \<open>stopGeneration\<close> flushes the
  pending chunks through an updater of the stopped generation and then moves on to the next
  one.  When React runs that updater at the call, the text is kept; when it runs it after
  the handler has returned, the flush no longer matches, and the reply is completed without
  the pending text, whatever it is.
\<close>

theorem stop_drops_pending_text:
  assumes "ch_updates s = []" and "pend_generation (ch_pending s) = ch_generation s"
    and "pend_content (ch_pending s) \<noteq> []"
  shows "ch_messages (chat_run tr json_parse json_stringify [StopGeneration None, RenderUpdate now1, RenderUpdate now2] s) =
      run_update now2 (ch_generation s + 1) (CompleteStopped (ch_generation s + 1)) (ch_messages s) \<and>
    ch_messages (chat_run tr json_parse json_stringify [StopGeneration (Some now1), RenderUpdate now2] s) =
      run_update now2 (ch_generation s + 1) (CompleteStopped (ch_generation s + 1))
        (run_update now1 (ch_generation s)
          (FlushChunks (ch_generation s) (pend_reasoning (ch_pending s)) (pend_content (ch_pending s))) (ch_messages s))"
  using assms by (simp add: chat_run_def stopGeneration_def render_update_def run_update_def handler_defs eager_update_def)

theorem stop_drops_pending_text_witness:
  "map getMessageContent (ch_messages (chat_run (\<lambda>s. s) (\<lambda>_. Some delta_chunk) (\<lambda>_. [])
      [StopGeneration None, RenderUpdate (\<lambda>_. 5), RenderUpdate (\<lambda>_. 6)]
      (chat_run (\<lambda>s. s) (\<lambda>_. Some delta_chunk) (\<lambda>_. []) streaming_events (initial_chat pending_chat)))) = [''Hi'', []]"
proof -
  let ?s = "chat_run (\<lambda>s. s) (\<lambda>_. Some delta_chunk) (\<lambda>_. []) streaming_events (initial_chat pending_chat)"
  have "ch_updates ?s = []" "pend_generation (ch_pending ?s) = ch_generation ?s" "pend_content (ch_pending ?s) \<noteq> []"
    by code_simp+
  note eq = stop_drops_pending_text [OF this, of "\<lambda>s. s" "\<lambda>_. Some delta_chunk" "\<lambda>_. []" "\<lambda>_. 5" "\<lambda>_. 6", THEN conjunct1]
  have "map getMessageContent (run_update (\<lambda>_. 6) (ch_generation ?s + 1) (CompleteStopped (ch_generation ?s + 1)) (ch_messages ?s)) = [''Hi'', []]"
    by code_simp
  then show ?thesis unfolding eq .
qed

end
