(* ===== verification/Chat_Turn.thy ===== *)
theory Chat_Turn
  imports Chat_Handler
begin

text \<open>
  The chat handler and the stream controller together: what a whole streamed turn leaves in
  the conversation, for every stream and every interleaving of its events with the flush timer
  and with React's updates.  The reference is the merging of texts: the handler merges the pieces
  it receives into batches, and the batches into the reply, by one rule, \<open>merged_text\<close>, which
  appends a text unless it repeats all that came before it.
\<close>

section \<open>Merging in batches\<close>

definition batch_text :: "string list \<Rightarrow> string" where
  "batch_text ks = foldl merged_text [] ks"

definition batches_text :: "string \<Rightarrow> string list list \<Rightarrow> string" where
  "batches_text c bss = foldl merged_text c (map batch_text bss)"

lemma merged_text_Nil [simp]: "merged_text c [] = c" "merged_text [] k = k"
  by (auto simp: merged_text_def)

lemma mergePending_merged: "mergePendingStreamChunk = merged_text"
  by (intro ext) (simp add: mergePendingStreamChunk_def merged_text_def)

lemma batch_text_simps [simp]:
  "batch_text [] = []" "batch_text (ks @ [k]) = merged_text (batch_text ks) k" "batches_text c [] = c"
  "batches_text c (bss @ [ks]) = merged_text (batches_text c bss) (batch_text ks)"
  "batches_text c (ks # bss) = batches_text (merged_text c (batch_text ks)) bss"
  by (simp_all add: batch_text_def batches_text_def)

text \<open>
  The pieces of a stream are unambiguous when neither the batching nor the reply's text can
  mistake one for a snapshot: no piece starts with the text of the pieces just before it,
  and no run of pieces starts with the whole text before it.
\<close>

definition unambiguous :: "string \<Rightarrow> string list \<Rightarrow> bool" where
  "unambiguous c ks \<longleftrightarrow>
     (\<forall>as bs cs. ks = as @ bs @ cs \<longrightarrow>
        (c @ concat as = [] \<or> \<not> prefix (c @ concat as) (concat bs)) \<and>
        (cs = [] \<or> concat bs = [] \<or> \<not> prefix (concat bs) (hd cs)))"

lemma unambiguous_batch:
  assumes "unambiguous c (as @ bs @ cs)"
  shows "batch_text bs = concat bs"
  using assms
proof (induction bs arbitrary: cs rule: rev_induct)
  case (snoc k bs)
  then have "batch_text bs = concat bs" using snoc.IH [of "k # cs"] by simp
  moreover have "concat bs = [] \<or> \<not> prefix (concat bs) k"
    using snoc.prems unfolding unambiguous_def by (metis append.assoc append_Cons append_Nil list.distinct(1) list.sel(1))
  ultimately show ?case by (auto simp: merged_text_def)
qed simp

lemma batches_unambiguous:
  assumes "unambiguous c (concat bss @ rest)"
  shows "batches_text c bss = c @ concat (concat bss)"
  using assms
proof (induction bss arbitrary: rest rule: rev_induct)
  case (snoc ks bss)
  have u: "unambiguous c (concat bss @ ks @ rest)" using snoc.prems by simp
  have "batches_text c bss = c @ concat (concat bss)" by (rule snoc.IH) (use u in simp)
  moreover have "batch_text ks = concat ks" by (rule unambiguous_batch [OF u])
  moreover have "c @ concat (concat bss) = [] \<or> \<not> prefix (c @ concat (concat bss)) (concat ks)"
    using u unfolding unambiguous_def by blast
  ultimately show ?case by (auto simp: merged_text_def)
qed simp

text \<open>When every piece repeats all the text before it, the reply is the last piece.\<close>

lemma snapshot_append: "snapshot_stream c (xs @ ys) \<longleftrightarrow> snapshot_stream c xs \<and> snapshot_stream (last (c # xs)) ys"
  by (induction c xs rule: snapshot_stream.induct) auto

lemma snapshot_prefix: "snapshot_stream c ks \<Longrightarrow> prefix c (last (c # ks))"
  by (induction c ks rule: snapshot_stream.induct) (auto intro: prefix_order.trans)

lemma snapshot_weaken: "snapshot_stream c ks \<Longrightarrow> snapshot_stream [] ks"
  by (cases ks) simp_all

lemma batches_snapshot: "snapshot_stream c (concat bss) \<Longrightarrow> batches_text c bss = last (c # concat bss)"
proof (induction bss arbitrary: c)
  case (Cons ks bss)
  then have s: "snapshot_stream c ks" "snapshot_stream (last (c # ks)) (concat bss)" by (simp_all add: snapshot_append)
  have "batch_text ks = last ([] # ks)"
    unfolding batch_text_def by (rule foldl_merged_snapshot) (rule snapshot_weaken [OF s(1)])
  then have "merged_text c (batch_text ks) = last (c # ks)"
    using snapshot_prefix [OF s(1)] by (cases "ks = []") (auto simp: merged_text_def)
  with Cons.IH [OF s(2)] show ?case by (cases "concat bss = []") auto
qed simp

section \<open>The events of a turn\<close>

text \<open>
  A stream event that is parsed, into any pieces of text, reasoning and plugin events; the
  events of a turn besides it are timers, React's updates, and changes of the connection's
  state without an error.
\<close>

definition carries :: "(string \<Rightarrow> json option) \<Rightarrow> (json \<Rightarrow> string) \<Rightarrow> string \<Rightarrow> StreamMessageUpdate list \<Rightarrow> bool" where
  "carries jp js d us \<longleftrightarrow> \<not> isStreamDoneMessage d \<and> parseStreamMessageUpdates jp js d = Inr us \<and>
     list_all (\<lambda>u. case update_chunk u of JStr k \<Rightarrow> True | _ \<Rightarrow> False) us"

definition content_piece :: "StreamMessageUpdate \<Rightarrow> string list" where
  "content_piece u = (case (update_type u, update_chunk u) of (ContentUpdate, JStr k) \<Rightarrow> [k] | _ \<Rightarrow> [])"

definition content_pieces :: "StreamMessageUpdate list \<Rightarrow> string list" where
  "content_pieces us = concat (map content_piece us)"

inductive turn_events :: "(string \<Rightarrow> json option) \<Rightarrow> (json \<Rightarrow> string) \<Rightarrow> nat \<Rightarrow> string list \<Rightarrow> chat_event list \<Rightarrow> bool"
  for jp js g where
  turn_Nil: "turn_events jp js g [] []"
| turn_Data: "carries jp js d us \<Longrightarrow> turn_events jp js g ks evs \<Longrightarrow>
    turn_events jp js g (content_pieces us @ ks) (StreamEvent (MessageEvent g (Some d)) eid # evs)"
| turn_State: "getStreamReadyStateError rs st = None \<Longrightarrow> turn_events jp js g ks evs \<Longrightarrow>
    turn_events jp js g ks (StreamEvent (ReadyStateEvent g rs st) eid # evs)"
| turn_Timer: "turn_events jp js g ks evs \<Longrightarrow> turn_events jp js g ks (FlushTimer # evs)"
| turn_Render: "turn_events jp js g ks evs \<Longrightarrow> turn_events jp js g ks (RenderUpdate now # evs)"

section \<open>The state during a turn\<close>

primrec update_content :: "message_update \<Rightarrow> string list" where
  "update_content (FlushChunks g reasoning content) = [content]"
| "update_content (AppendPlugin g event eid) = []"
| "update_content (CompleteStream g) = []"
| "update_content (FailStream g e code title) = []"
| "update_content (ApplyResponse g r) = []"
| "update_content (CompleteStopped g) = []"

primrec adds_piece :: "message_update \<Rightarrow> bool" where
  "adds_piece (FlushChunks g reasoning content) = True"
| "adds_piece (AppendPlugin g event eid) = True"
| "adds_piece (CompleteStream g) = False"
| "adds_piece (FailStream g e code title) = False"
| "adds_piece (ApplyResponse g r) = False"
| "adds_piece (CompleteStopped g) = False"

definition own_updates :: "nat \<Rightarrow> chat \<Rightarrow> message_update list" where
  "own_updates h s = filter (\<lambda>u. update_generation u = h) (ch_updates s)"

definition carry :: "message_update list \<Rightarrow> string list list \<Rightarrow> bool" where
  "carry us qs \<longleftrightarrow> list_all adds_piece us \<and> concat (map update_content us) = map batch_text qs"

definition replying :: "Message list \<Rightarrow> string \<Rightarrow> string list list \<Rightarrow> chat \<Rightarrow> bool" where
  "replying pre c as s \<longleftrightarrow> (\<exists>m. ch_messages s = pre @ [m] \<and> msg_from m = Assistant \<and>
     msg_status m \<in> {Some Loading, Some Streaming} \<and> getMessageContent m = batches_text c as)"

text \<open>The batches \<open>as\<close> are in the reply, \<open>qs\<close> wait in the queued updates, and \<open>bs\<close> are the pending pieces.\<close>

definition turn_state ::
    "nat \<Rightarrow> nat \<Rightarrow> Message list \<Rightarrow> string \<Rightarrow> string list list \<Rightarrow> string list list \<Rightarrow> string list \<Rightarrow> chat \<Rightarrow> bool" where
  "turn_state g h pre c as qs bs s \<longleftrightarrow>
     live g (ch_controller s) \<and> ch_callbacks s g = Some h \<and> ch_generation s = h \<and>
     pend_generation (ch_pending s) = h \<and> pend_content (ch_pending s) = batch_text bs \<and>
     carry (own_updates h s) qs \<and> replying pre c as s"

lemma carry_snoc:
  "carry us qs \<Longrightarrow> carry (us @ [FlushChunks h r (batch_text bs)]) (qs @ [bs])"
  "carry us qs \<Longrightarrow> carry (us @ [AppendPlugin h e eid]) qs"
  "carry [] []"
  by (simp_all add: carry_def)

lemma carry_Flush: "carry (FlushChunks h r k # us) qs \<Longrightarrow> \<exists>q qs'. qs = q # qs' \<and> k = batch_text q \<and> carry us qs'"
  by (cases qs) (auto simp: carry_def)

lemma carry_Append: "carry (AppendPlugin h e eid # us) qs \<Longrightarrow> carry us qs"
  by (simp add: carry_def)

text \<open>A flush moves the pending pieces into a queued batch, or leaves pieces without text.\<close>

lemma turn_flush:
  assumes "turn_state g h pre c as qs bs s"
  obtains qs' bs' where "turn_state g h pre c as qs' bs' (flushStreamUpdates h' s)" "concat qs' @ bs' = concat qs @ bs"
    "h' = h \<Longrightarrow> batch_text bs' = []"
proof (cases "h' = h \<and> \<not> (pend_reasoning (ch_pending s) = [] \<and> pend_content (ch_pending s) = [])")
  case True
  with assms have "turn_state g h pre c as (qs @ [bs]) [] (flushStreamUpdates h' s)"
    by (auto simp: turn_state_def handler_defs own_updates_def replying_def carry_snoc)
  then show ?thesis by (rule that) simp_all
next
  case False
  with assms have "turn_state g h pre c as qs bs (flushStreamUpdates h' s)"
    by (auto simp: turn_state_def handler_defs own_updates_def replying_def)
  then show ?thesis by (rule that) (use False assms in \<open>auto simp: turn_state_def\<close>)
qed

lemma turn_plugin:
  "turn_state g h pre c as qs bs s \<Longrightarrow> turn_state g h pre c as qs bs (onMessageUpdate (AppendPlugin h e eid) s)"
  by (auto simp: turn_state_def onMessageUpdate_def own_updates_def replying_def carry_snoc)

text \<open>One piece of a stream event.\<close>

lemma turn_update:
  assumes "turn_state g h pre c as qs bs s"
  obtains qs' bs' where
    "turn_state g h pre c as qs' bs' (dispatch tr jp eid (g, OnUpdate (update_type u) (update_chunk u)) s)"
    "concat qs' @ bs' = concat qs @ bs @ content_piece u"
proof (cases "update_chunk u")
  case (JStr k)
  have h: "ch_callbacks s g = Some h" "ch_generation s = h" "pend_generation (ch_pending s) = h" using assms by (simp_all add: turn_state_def)
  show ?thesis
  proof (cases "update_type u")
    case ContentUpdate
    have "turn_state g h pre c as qs (bs @ [k]) (dispatch tr jp eid (g, OnUpdate (update_type u) (update_chunk u)) s)"
      using assms unfolding JStr ContentUpdate
      by (auto simp: turn_state_def handleStreamUpdate_def scheduleStreamFlush_def mergePending_merged own_updates_def replying_def)
    then show ?thesis by (rule that) (simp add: content_piece_def JStr ContentUpdate)
  next
    case ReasoningUpdate
    have "turn_state g h pre c as qs bs (dispatch tr jp eid (g, OnUpdate (update_type u) (update_chunk u)) s)"
      using assms unfolding JStr ReasoningUpdate
      by (auto simp: turn_state_def handleStreamUpdate_def scheduleStreamFlush_def own_updates_def replying_def)
    then show ?thesis by (rule that) (simp add: content_piece_def ReasoningUpdate JStr)
  next
    case PluginEventUpdate
    obtain qs' bs' where f: "turn_state g h pre c as qs' bs' (flushStreamUpdates h s)" "concat qs' @ bs' = concat qs @ bs"
      by (rule turn_flush [OF assms])
    have none: "content_piece u = []" by (simp add: content_piece_def PluginEventUpdate)
    show ?thesis
    proof (cases "Option.bind (jp k) parsePluginEventPayload")
      case None
      with h have "dispatch tr jp eid (g, OnUpdate (update_type u) (update_chunk u)) s = s"
        unfolding JStr PluginEventUpdate by (simp add: handleStreamUpdate_def)
      with assms none show ?thesis by (intro that [of qs bs]) simp_all
    next
      case (Some event)
      with h have "dispatch tr jp eid (g, OnUpdate (update_type u) (update_chunk u)) s =
          onMessageUpdate (AppendPlugin h event eid) (flushStreamUpdates h s)"
        unfolding JStr PluginEventUpdate by (simp add: handleStreamUpdate_def)
      with turn_plugin [OF f(1)] f(2) none show ?thesis by (intro that [of qs' bs']) simp_all
    qed
  qed
qed (use assms that [of qs bs] in \<open>auto simp: turn_state_def content_piece_def split: StreamUpdateType.split\<close>)

lemma turn_updates:
  assumes "turn_state g h pre c as qs bs s"
  shows "\<exists>qs' bs'. turn_state g h pre c as qs' bs'
      (foldl (\<lambda>s cb. dispatch tr jp eid cb s) s (map (\<lambda>u. (g, OnUpdate (update_type u) (update_chunk u))) us)) \<and>
    concat qs' @ bs' = concat qs @ bs @ content_pieces us"
  using assms
proof (induction us arbitrary: qs bs s)
  case (Cons u us)
  obtain qs1 bs1 where 1: "turn_state g h pre c as qs1 bs1 (dispatch tr jp eid (g, OnUpdate (update_type u) (update_chunk u)) s)"
    "concat qs1 @ bs1 = concat qs @ bs @ content_piece u" by (rule turn_update [OF Cons.prems])
  from Cons.IH [OF 1(1)] obtain qs' bs' where
    "turn_state g h pre c as qs' bs' (foldl (\<lambda>s cb. dispatch tr jp eid cb s) s (map (\<lambda>u. (g, OnUpdate (update_type u) (update_chunk u))) (u # us)))"
    "concat qs' @ bs' = concat qs1 @ bs1 @ content_pieces us" by auto
  moreover have "concat qs1 @ bs1 @ content_pieces us = concat qs @ bs @ content_pieces (u # us)"
    using arg_cong [OF 1(2), of "\<lambda>x. x @ content_pieces us"] by (simp add: content_pieces_def)
  ultimately show ?case by metis
qed (auto simp: content_pieces_def)

lemma on_message_carries:
  assumes "live g c" "carries jp js d us"
  shows "live g (on_message jp js g (Some d) c)"
    "ct_trace (on_message jp js g (Some d) c) = ct_trace c @ map (\<lambda>u. (g, OnUpdate (update_type u) (update_chunk u))) us"
  using assms by (auto simp: live_def carries_def on_message_def nullish_def isCurrent_def request_completed_def)

lemma turn_controller:
  "turn_state g h pre c as qs bs s \<Longrightarrow> live g k \<Longrightarrow> turn_state g h pre c as qs bs (s\<lparr>ch_controller := k\<rparr>)"
  by (simp add: turn_state_def own_updates_def replying_def)

lemma turn_data:
  assumes "turn_state g h pre c as qs bs s" "carries jp js d us"
  shows "\<exists>qs' bs'. turn_state g h pre c as qs' bs' (chat_step tr jp js (StreamEvent (MessageEvent g (Some d)) eid) s) \<and>
    concat qs' @ bs' = concat qs @ bs @ content_pieces us"
proof -
  from assms(1) have l: "live g (ch_controller s)" by (simp add: turn_state_def)
  note om = on_message_carries [OF l assms(2)]
  from turn_updates [OF turn_controller [OF assms(1) om(1)], of tr jp eid us] om(2) show ?thesis
    by (simp add: stream_event_step_def Let_def)
qed

text \<open>React runs one updater.\<close>

lemma flush_content:
  assumes "msg_status m \<in> {Some Loading, Some Streaming}"
  shows "getMessageContent (apply_flush now r k m) = merged_text (getMessageContent m) k"
    "msg_status (apply_flush now r k m) \<in> {Some Loading, Some Streaming}" "msg_from (apply_flush now r k m) = msg_from m"
  using assms by (auto simp: apply_flush_def Let_def applyStreamingChunk_content applyStreamingChunk_status
    applyStreamingChunk_reasoning_content)

lemma plugin_content:
  assumes "msg_status m \<in> {Some Loading, Some Streaming}"
  shows "getMessageContent (appendPluginEvent m e eid) = getMessageContent m"
    "msg_status (appendPluginEvent m e eid) = msg_status m" "msg_from (appendPluginEvent m e eid) = msg_from m"
  using assms by (auto simp: appendPluginEvent_def intro: getMessageContent_versions)

lemma replying_update:
  assumes "replying pre c as s" "carry [u] qs" "ch_updates s = u # us" "update_generation u = ch_generation s"
  shows "replying pre c (as @ qs) (render_update now s)"
proof -
  obtain m where m: "ch_messages s = pre @ [m]" "msg_from m = Assistant" "msg_status m \<in> {Some Loading, Some Streaming}"
    "getMessageContent m = batches_text c as" using assms(1) by (auto simp: replying_def)
  have r: "ch_messages (render_update now s) = pre @ [update_message now u m]"
    using assms(3,4) m by (simp add: render_update_def run_update_def updateLastAssistantMessage_def)
  show ?thesis
  proof (cases u)
    case (FlushChunks h r k)
    with assms(2) obtain q where q: "qs = [q]" "k = batch_text q" by (cases qs) (auto simp: carry_def)
    show ?thesis using r flush_content [OF m(3), of now r k] m(2,4) q FlushChunks unfolding replying_def by auto
  next
    case (AppendPlugin h e eid)
    with assms(2) have "qs = []" by (simp add: carry_def)
    then show ?thesis using r plugin_content [OF m(3), of e eid] m AppendPlugin unfolding replying_def by auto
  qed (use assms(2) in \<open>simp_all add: carry_def\<close>)
qed

lemma carry_split:
  assumes "carry (u # us) qs"
  obtains q1 q2 where "qs = q1 @ q2" "carry [u] q1" "carry us q2"
proof (cases u)
  case (FlushChunks h r k)
  with assms obtain q qs' where "qs = q # qs'" "k = batch_text q" "carry us qs'" using carry_Flush by blast
  then show ?thesis using FlushChunks by (intro that [of "[q]" qs']) (simp_all add: carry_def)
next
  case (AppendPlugin h e eid)
  with assms show ?thesis by (intro that [of "[]" qs]) (simp_all add: carry_def)
qed (use assms in \<open>simp_all add: carry_def\<close>)

lemma replying_other:
  "replying pre c as s \<Longrightarrow> ch_updates s = u # us \<Longrightarrow> update_generation u \<noteq> ch_generation s \<Longrightarrow> replying pre c as (render_update now s)"
  by (simp add: replying_def render_update_def run_update_def)

lemma render_frame [simp]:
  "ch_controller (render_update now s) = ch_controller s" "ch_callbacks (render_update now s) = ch_callbacks s"
  "ch_generation (render_update now s) = ch_generation s" "ch_pending (render_update now s) = ch_pending s"
  "ch_isRequesting (render_update now s) = ch_isRequesting s" "ch_updates (render_update now s) = tl (ch_updates s)"
  by (simp_all add: render_update_def split: list.split)

lemma turn_render:
  assumes "turn_state g h pre c as qs bs s"
  shows "\<exists>as' qs'. turn_state g h pre c as' qs' bs (render_update now s) \<and> as' @ qs' = as @ qs"
proof (cases "ch_updates s")
  case Nil
  with assms show ?thesis by (auto simp: render_update_def)
next
  case (Cons u us)
  have h: "ch_generation s = h" and rep: "replying pre c as s" and own: "carry (own_updates h s) qs"
    using assms by (simp_all add: turn_state_def)
  show ?thesis
  proof (cases "update_generation u = h")
    case True
    then have "own_updates h s = u # own_updates h (render_update now s)" by (simp add: own_updates_def Cons)
    with own obtain q1 q2 where q: "qs = q1 @ q2" "carry [u] q1" "carry (own_updates h (render_update now s)) q2"
      using carry_split by metis
    have "replying pre c (as @ q1) (render_update now s)" using replying_update [OF rep q(2) Cons] True h by simp
    with assms q have "turn_state g h pre c (as @ q1) q2 bs (render_update now s)" by (simp add: turn_state_def)
    with q(1) show ?thesis by (intro exI [of _ "as @ q1"] exI [of _ q2]) simp
  next
    case False
    then have "own_updates h (render_update now s) = own_updates h s" by (simp add: own_updates_def Cons)
    with assms False h replying_other [OF rep Cons] have "turn_state g h pre c as qs bs (render_update now s)"
      by (simp add: turn_state_def)
    then show ?thesis by blast
  qed
qed

lemma turn_run:
  assumes "turn_events jp js g ks evs" "turn_state g h pre c as qs bs s"
  shows "\<exists>as' qs' bs'. turn_state g h pre c as' qs' bs' (chat_run tr jp js evs s) \<and>
    concat as' @ concat qs' @ bs' = concat as @ concat qs @ bs @ ks"
  using assms
proof (induction arbitrary: as qs bs s rule: turn_events.induct)
  case turn_Nil
  then show ?case by (auto simp: chat_run_def)
next
  case (turn_Data d us ks evs eid)
  from turn_data [OF turn_Data.prems turn_Data.hyps(1), of tr eid] obtain qs1 bs1 where
    1: "turn_state g h pre c as qs1 bs1 (chat_step tr jp js (StreamEvent (MessageEvent g (Some d)) eid) s)"
      "concat qs1 @ bs1 = concat qs @ bs @ content_pieces us" by blast
  from turn_Data.IH [OF 1(1)] obtain as' qs' bs' where
    "turn_state g h pre c as' qs' bs' (chat_run tr jp js (StreamEvent (MessageEvent g (Some d)) eid # evs) s)"
    "concat as' @ concat qs' @ bs' = concat as @ concat qs1 @ bs1 @ ks" by (auto simp: chat_run_def)
  moreover have "concat as @ concat qs1 @ bs1 @ ks = concat as @ concat qs @ bs @ content_pieces us @ ks"
    using arg_cong [OF 1(2), of "\<lambda>x. concat as @ x @ ks"] by simp
  ultimately show ?case by metis
next
  case (turn_State rs st ks evs eid)
  have "chat_step tr jp js (StreamEvent (ReadyStateEvent g rs st) eid) s = s"
    using turn_State.hyps(1) by (simp add: stream_event_step_def on_readystatechange_def Let_def)
  with turn_State.IH [OF turn_State.prems] show ?case by (simp add: chat_run_def)
next
  case (turn_Timer ks evs)
  show ?case
  proof (cases "ch_timer s")
    case None
    with turn_Timer show ?thesis by (simp add: chat_run_def)
  next
    case (Some h')
    obtain qs1 bs1 where 1: "turn_state g h pre c as qs1 bs1 (flushStreamUpdates h' s)" "concat qs1 @ bs1 = concat qs @ bs"
      by (rule turn_flush [OF turn_Timer.prems])
    have "concat as @ concat qs1 @ bs1 @ ks = concat as @ concat qs @ bs @ ks"
      using arg_cong [OF 1(2), of "\<lambda>x. concat as @ x @ ks"] by simp
    with turn_Timer.IH [OF 1(1)] Some show ?thesis by (simp add: chat_run_def)
  qed
next
  case (turn_Render ks evs now)
  from turn_render [OF turn_Render.prems, of now] obtain as1 qs1 where
    1: "turn_state g h pre c as1 qs1 bs (render_update now s)" "as1 @ qs1 = as @ qs" by blast
  have "concat as1 @ concat qs1 @ bs @ ks = concat as @ concat qs @ bs @ ks"
    using arg_cong [OF 1(2), of "\<lambda>x. concat x @ bs @ ks"] by simp
  with turn_Render.IH [OF 1(1)] show ?case by (simp add: chat_run_def)
qed

section \<open>The end of a turn\<close>

definition ending_state :: "nat \<Rightarrow> Message list \<Rightarrow> string \<Rightarrow> string list list \<Rightarrow> string list list \<Rightarrow> chat \<Rightarrow> bool" where
  "ending_state h pre c as qs s \<longleftrightarrow>
     ch_generation s = h \<and> \<not> isGenerating s \<and> replying pre c as s \<and>
     (\<exists>us. own_updates h s = us @ [CompleteStream h] \<and> carry us qs)"

definition ended_state :: "nat \<Rightarrow> Message list \<Rightarrow> string \<Rightarrow> chat \<Rightarrow> bool" where
  "ended_state h pre body s \<longleftrightarrow>
     ch_generation s = h \<and> \<not> isGenerating s \<and> own_updates h s = [] \<and>
     (\<exists>m t1 t2 t3. ch_messages s = pre @ [completeAssistantMessage m t1 t2 t3] \<and> msg_from m = Assistant \<and> getMessageContent m = body)"

lemma flush_frame [simp]:
  "ch_isRequesting (flushStreamUpdates h s) = ch_isRequesting s" "ch_callbacks (flushStreamUpdates h s) = ch_callbacks s"
  by (simp_all add: handler_defs)

lemma turn_done:
  assumes "turn_state g h pre c as qs bs s"
  obtains qs' rest where
    "ending_state h pre c as qs' (chat_step tr jp js (StreamEvent (MessageEvent g (Some STREAM_DONE_MESSAGE)) eid) s)"
    "concat qs' @ rest = concat qs @ bs" "batch_text rest = []"
proof -
  from assms have l: "live g (ch_controller s)" and cb: "ch_callbacks s g = Some h" "ch_generation s = h" by (simp_all add: turn_state_def)
  let ?c = "on_message jp js g (Some STREAM_DONE_MESSAGE) (ch_controller s)"
  let ?f = "flushStreamUpdates h s"
  have tr': "ct_trace ?c = ct_trace (ch_controller s) @ [(g, OnComplete)]"
    using l by (simp add: live_def on_message_def nullish_def isStreamDoneMessage_def)
  have st: "ct_streaming ?c = False" by (rule message_done [OF l])
  have "flushStreamUpdates h (s\<lparr>ch_controller := ?c\<rparr>) = ?f\<lparr>ch_controller := ?c\<rparr>" by (simp add: handler_defs)
  then have step: "chat_step tr jp js (StreamEvent (MessageEvent g (Some STREAM_DONE_MESSAGE)) eid) s =
    onMessageUpdate (CompleteStream h) (?f\<lparr>ch_controller := ?c, ch_isRequesting := False\<rparr>)"
    using tr' cb by (simp add: stream_event_step_def Let_def handleStreamComplete_def)
  obtain qs' bs' where f: "turn_state g h pre c as qs' bs' ?f" "concat qs' @ bs' = concat qs @ bs" "batch_text bs' = []"
    by (rule turn_flush [OF assms]) auto
  have "ending_state h pre c as qs' (chat_step tr jp js (StreamEvent (MessageEvent g (Some STREAM_DONE_MESSAGE)) eid) s)"
    using f(1) st unfolding step ending_state_def turn_state_def
    by (auto simp: isGenerating_def onMessageUpdate_def own_updates_def replying_def)
  then show ?thesis by (rule that) (rule f(2), rule f(3))
qed

lemma ended_render: "ended_state h pre body s \<Longrightarrow> ended_state h pre body (render_update now s)"
proof -
  assume e: "ended_state h pre body s"
  have "ch_messages (render_update now s) = ch_messages s"
    using e by (auto simp: ended_state_def own_updates_def render_update_def run_update_def split: list.split)
  moreover have "own_updates h (render_update now s) = []"
    using e by (auto simp: ended_state_def own_updates_def filter_empty_conv dest: list.set_sel(2) split: list.splits) (metis list.sel(2) list.set_sel(2))
  ultimately show ?thesis using e by (simp add: ended_state_def isGenerating_def)
qed

lemma ending_render:
  assumes "ending_state h pre c as qs s"
  shows "(\<exists>as' qs'. ending_state h pre c as' qs' (render_update now s) \<and> as' @ qs' = as @ qs) \<or>
    qs = [] \<and> ended_state h pre (batches_text c as) (render_update now s)"
proof (cases "ch_updates s")
  case Nil
  with assms show ?thesis by (auto simp: ending_state_def own_updates_def)
next
  case (Cons u vs)
  obtain us where us: "own_updates h s = us @ [CompleteStream h]" "carry us qs" and h: "ch_generation s = h"
    and rep: "replying pre c as s" and gen: "\<not> isGenerating s" using assms by (auto simp: ending_state_def)
  have gen': "\<not> isGenerating (render_update now s)" using gen by (simp add: isGenerating_def)
  consider "update_generation u \<noteq> h" | "update_generation u = h" "us = []" | us' where "update_generation u = h" "us = u # us'"
    using us(1) by (cases us) (auto simp: own_updates_def Cons split: if_splits)
  then show ?thesis
  proof cases
    case 1
    then have "own_updates h (render_update now s) = own_updates h s" by (simp add: own_updates_def Cons)
    with us 1 h gen' replying_other [OF rep Cons] have "ending_state h pre c as qs (render_update now s)"
      by (auto simp: ending_state_def)
    then show ?thesis by blast
  next
    case 2
    with us have u: "u = CompleteStream h" "qs = []" "own_updates h (render_update now s) = []"
      by (auto simp: own_updates_def Cons carry_def)
    from rep obtain m where m: "ch_messages s = pre @ [m]" "msg_from m = Assistant"
      "msg_status m \<in> {Some Loading, Some Streaming}" "getMessageContent m = batches_text c as" by (auto simp: replying_def)
    have "\<not> isAssistantMessageFinal m" using m(3) by (auto simp: isAssistantMessageFinal_def)
    then have "ch_messages (render_update now s) = pre @ [completeAssistantMessage m (now 0) (now 1) (now 2)]"
      using Cons u h m by (simp add: render_update_def run_update_def updateLastAssistantMessage_def)
    then have "ended_state h pre (batches_text c as) (render_update now s)"
      using u h gen' m unfolding ended_state_def by auto
    with u show ?thesis by simp
  next
    case (3 us')
    then have own: "own_updates h (render_update now s) = us' @ [CompleteStream h]" using us(1) by (simp add: own_updates_def Cons)
    from us(2) 3 obtain q1 q2 where q: "qs = q1 @ q2" "carry [u] q1" "carry us' q2" using carry_split by metis
    have "replying pre c (as @ q1) (render_update now s)" using replying_update [OF rep q(2) Cons] 3 h by simp
    with own q h gen' have "ending_state h pre c (as @ q1) q2 (render_update now s)" by (auto simp: ending_state_def)
    with q(1) show ?thesis by (intro disjI1 exI [of _ "as @ q1"] exI [of _ q2]) simp
  qed
qed

lemma ended_renders:
  "ended_state h pre body s \<Longrightarrow> ended_state h pre body (chat_run tr jp js (map RenderUpdate nows) s)"
  by (induction nows arbitrary: s) (simp_all add: chat_run_def ended_render)

lemma ending_renders:
  assumes "ending_state h pre c as qs s"
  shows "(\<exists>as' qs'. ending_state h pre c as' qs' (chat_run tr jp js (map RenderUpdate nows) s)) \<or>
    ended_state h pre (batches_text c (as @ qs)) (chat_run tr jp js (map RenderUpdate nows) s)"
  using assms
proof (induction nows arbitrary: as qs s)
  case Nil
  then show ?case by (auto simp: chat_run_def)
next
  case (Cons now nows)
  from ending_render [OF Cons.prems, of now] show ?case
  proof (elim disjE exE conjE)
    fix as' qs' assume "ending_state h pre c as' qs' (render_update now s)" "as' @ qs' = as @ qs"
    with Cons.IH show ?thesis by (simp add: chat_run_def) metis
  next
    assume "qs = []" "ended_state h pre (batches_text c as) (render_update now s)"
    with ended_renders [of h pre "batches_text c as" "render_update now s" tr jp js nows] show ?thesis
      by (simp add: chat_run_def)
  qed
qed

lemma turn_start:
  assumes "generations_bounded s" "controller_inv (ch_controller s)" "cfg_stream config"
    "ch_messages s = pre @ [m]" "msg_from m = Assistant" "isAssistantMessagePending m"
  shows "turn_state (ct_generation (ch_controller s) + 1) (ch_generation s + 1) pre (getMessageContent m) [] [] []
    (chat_run tr jp js [SendChat config en msgs, StreamEvent (HeadersReady (ct_generation (ch_controller s) + 1)) eid] s)"
proof -
  let ?g = "ct_generation (ch_controller s) + 1"
  have "live ?g (headers_ready ?g (send_request (ch_controller s)))"
    using started_live(1) [OF assms(2), of jp js] by (simp add: stream_run_def)
  moreover have "filter (\<lambda>u. update_generation u = Suc (ch_generation s)) (ch_updates s) = []"
    using assms(1) by (auto simp: generations_bounded_def filter_empty_conv)
  ultimately show ?thesis using assms(3-6)
    by (auto simp: chat_run_def turn_state_def sendChat_def sendStreamingChat_def Let_def discardPendingStreamUpdates_def
      stream_event_step_def isAssistantMessagePending_def own_updates_def replying_def carry_snoc)
qed

lemma complete_content:
  "getMessageContent (completeAssistantMessage m t1 t2 t3) = think_visibleContent (parseThinkTags (getMessageContent m))"
  by (auto simp: completeAssistantMessage_def finalizeMessage_def Let_def nullish_def parseThinkTags_def
    simp flip: getMessageContent_def)

lemma complete_status [simp]: "msg_status (completeAssistantMessage m t1 t2 t3) = Some Complete"
  by (simp add: completeAssistantMessage_def)

text \<open>
  C1: a streamed turn end to end, for every stream.  From any state the handler can reach with a
  pending last reply, a streaming request whose headers arrive, whose events are parsable and
  carry any pieces of content, reasoning and plugin events, and whose last event is the done
  marker leaves, however the flush timer and React's updates interleave with them, a completed
  last reply, every message before it as it was, and a handler that no longer reports that it is
  generating.  The text the reply was completed with is the merge of the content pieces, each in
  one batch and all in order, into the text it had (\<open>batches_text\<close>); the shown text is that text
  with its think blocks taken out.  For a server that sends increments which are not mistaken
  for snapshots (\<open>unambiguous\<close>) the merge is the plain concatenation, and for a server whose
  pieces each repeat all before them it is the last piece, whatever the batches were.
\<close>

theorem streamed_turn:
  assumes "s = chat_run tr json_parse json_stringify evs0 (initial_chat ms0)"
    and "ch_messages s = pre @ [m]" and "msg_from m = Assistant" and "isAssistantMessagePending m"
    and "cfg_stream config" and "g = ct_generation (ch_controller s) + 1"
    and "turn_events json_parse json_stringify g ks evs"
    and "s' = chat_run tr json_parse json_stringify
      ([SendChat config en msgs, StreamEvent (HeadersReady g) eid] @ evs @
       [StreamEvent (MessageEvent g (Some STREAM_DONE_MESSAGE)) eid'] @ map RenderUpdate nows) s"
    and "ch_updates s' = []"
  shows "\<not> isGenerating s' \<and>
    (\<exists>m' bss. ch_messages s' = pre @ [m'] \<and> msg_status m' = Some Complete \<and> concat bss = ks \<and>
       getMessageContent m' = think_visibleContent (parseThinkTags (batches_text (getMessageContent m) bss)) \<and>
       (unambiguous (getMessageContent m) ks \<longrightarrow> batches_text (getMessageContent m) bss = getMessageContent m @ concat ks) \<and>
       (snapshot_stream (getMessageContent m) ks \<longrightarrow> batches_text (getMessageContent m) bss = last (getMessageContent m # ks)))"
proof -
  let ?run = "chat_run tr json_parse json_stringify" and ?h = "ch_generation s + 1" and ?c = "getMessageContent m"
  have inv: "generations_bounded s" "controller_inv (ch_controller s)"
    unfolding assms(1) by (simp_all add: bounded_run run_controller_inv initial_bounded)
  note start = turn_start [OF inv assms(5,2,3,4), of tr json_parse json_stringify en msgs eid, folded assms(6)]
  let ?t = "?run evs (?run [SendChat config en msgs, StreamEvent (HeadersReady g) eid] s)"
  let ?e = "chat_step tr json_parse json_stringify (StreamEvent (MessageEvent g (Some STREAM_DONE_MESSAGE)) eid') ?t"
  from turn_run [OF assms(7) start, of tr] obtain as qs bs where
    t: "turn_state g ?h pre ?c as qs bs ?t" "concat as @ concat qs @ bs = ks" by auto
  have s': "s' = ?run (map RenderUpdate nows) ?e"
    unfolding assms(8) chat_run_append by (simp add: chat_run_def)
  obtain qs' rest where e: "ending_state ?h pre ?c as qs' ?e" "concat qs' @ rest = concat qs @ bs" "batch_text rest = []"
    by (rule turn_done [OF t(1)])
  define bss where "bss = (as @ qs') @ [rest]"
  have ks: "concat bss = ks" using e(2) t(2) by (simp add: bss_def)
  have body: "batches_text ?c bss = batches_text ?c (as @ qs')" unfolding bss_def by (simp del: append_assoc add: e(3))
  from ending_renders [OF e(1), of tr json_parse json_stringify nows, folded s']
  have "ended_state ?h pre (batches_text ?c bss) s'" using assms(9) unfolding body by (auto simp: ending_state_def own_updates_def)
  then obtain m' where "\<not> isGenerating s'" "ch_messages s' = pre @ [m']" "msg_status m' = Some Complete"
    "getMessageContent m' = think_visibleContent (parseThinkTags (batches_text ?c bss))"
    by (auto simp: ended_state_def complete_content)
  moreover have "unambiguous ?c ks \<longrightarrow> batches_text ?c bss = ?c @ concat ks"
    using batches_unambiguous [of ?c bss "[]"] ks by simp
  moreover have "snapshot_stream ?c ks \<longrightarrow> batches_text ?c bss = last (?c # ks)"
    using batches_snapshot [of ?c bss] ks by simp
  ultimately show ?thesis using ks by blast
qed

lemma unambiguous_two:
  assumes "k \<noteq> []" "\<not> prefix k k'"
  shows "unambiguous [] [k, k']"
  unfolding unambiguous_def using assms by (auto simp: Cons_eq_append_conv append_eq_Cons_conv)

text \<open>A stream of two events: reasoning with the first half of the reply, then the second half.\<close>

definition sample_stream :: "string \<Rightarrow> json option" where
  "sample_stream d = Some (JObj [(''choices'', JArr [JObj [(''delta'',
     (if d = ''first'' then JObj [(''reasoning_content'', JStr ''greet''), (''content'', JStr ''Hel'')]
      else JObj [(''content'', JStr ''lo'')]))]])])"

definition sample_turn_events :: "chat_event list" where
  "sample_turn_events =
    [StreamEvent (ReadyStateEvent 1 (Some 1) (Some 200)) [], StreamEvent (MessageEvent 1 (Some ''first'')) [], FlushTimer,
     RenderUpdate (\<lambda>_. 3), StreamEvent (MessageEvent 1 (Some ''second'')) []]"

definition sample_run :: chat where
  "sample_run = chat_run (\<lambda>s. s) sample_stream (\<lambda>_. [])
      ([SendChat DEFAULT_CONFIG DEFAULT_PARAMETER_ENABLED pending_chat, StreamEvent (HeadersReady 1) []] @ sample_turn_events @
       [StreamEvent (MessageEvent 1 (Some STREAM_DONE_MESSAGE)) []] @ map RenderUpdate [\<lambda>_. 5, \<lambda>_. 6]) (initial_chat pending_chat)"

theorem streamed_turn_witness:
  "\<not> isGenerating sample_run \<and>
   (\<exists>m'. ch_messages sample_run = [hd pending_chat, m'] \<and> msg_status m' = Some Complete \<and> getMessageContent m' = ''Hello'')"
proof -
  let ?m = "last pending_chat"
  have s: "initial_chat pending_chat = chat_run (\<lambda>s. s) sample_stream (\<lambda>_. []) [] (initial_chat pending_chat)"
    by (simp add: chat_run_def)
  have m: "ch_messages (initial_chat pending_chat) = [hd pending_chat] @ [?m]" "msg_from ?m = Assistant"
    "isAssistantMessagePending ?m" "getMessageContent ?m = []"
    by (simp_all add: initial_chat_def pending_chat_def createLoadingAssistantMessage_def empty_message_def
      isAssistantMessagePending_def getMessageContent_def getCurrentVersion_def createMessageVersion_def)
  have st: "cfg_stream DEFAULT_CONFIG" by (simp add: DEFAULT_CONFIG_def)
  have g: "1 = ct_generation (ch_controller (initial_chat pending_chat)) + 1"
    by (simp add: initial_chat_def createStreamRequestController_def)
  have 1: "carries sample_stream (\<lambda>_. []) ''first''
      [\<lparr>update_type = ReasoningUpdate, update_chunk = JStr ''greet''\<rparr>, \<lparr>update_type = ContentUpdate, update_chunk = JStr ''Hel''\<rparr>]"
    and 2: "carries sample_stream (\<lambda>_. []) ''second'' [\<lparr>update_type = ContentUpdate, update_chunk = JStr ''lo''\<rparr>]"
    unfolding carries_def by code_simp+
  have ready: "getStreamReadyStateError (Some 1) (Some 200) = None" by code_simp
  have "turn_events sample_stream (\<lambda>_. []) 1
      (content_pieces [\<lparr>update_type = ReasoningUpdate, update_chunk = JStr ''greet''\<rparr>, \<lparr>update_type = ContentUpdate, update_chunk = JStr ''Hel''\<rparr>] @
       content_pieces [\<lparr>update_type = ContentUpdate, update_chunk = JStr ''lo''\<rparr>] @ []) sample_turn_events"
    unfolding sample_turn_events_def by (intro turn_events.intros 1 2 ready)
  then have t: "turn_events sample_stream (\<lambda>_. []) 1 [''Hel'', ''lo''] sample_turn_events"
    by (simp add: content_pieces_def content_piece_def)
  have u: "ch_updates sample_run = []" by code_simp
  have un: "unambiguous (getMessageContent ?m) [''Hel'', ''lo'']" unfolding m(4) by (rule unambiguous_two) simp_all
  have p: "think_visibleContent (parseThinkTags (getMessageContent ?m @ concat [''Hel'', ''lo''])) = ''Hello''"
    unfolding m(4) by code_simp
  from streamed_turn [OF s m(1-3) st g t sample_run_def u] un p show ?thesis by fastforce
qed

end
