(* ===== verification/Account_Context.thy ===== *)
theory Account_Context
  imports Prelude
begin

text \<open>
  The account context, personal or an organization, that every request carries:
  the store of \<open>stores/account-context-store.ts\<close> with its persistence, and the operations of
  \<open>lib/account-context.ts\<close> on it.  A store is a record, an action a function on it; the
  answer of the server is an argument of the operation that awaits it.
\<close>

section \<open>Types\<close>

datatype AccountContextType = PersonalContext | OrganizationContext

record OrganizationCapabilities =
  can_view_organization :: bool
  can_view_organization_wide_data :: bool
  can_view_organization_usage :: bool
  can_view_organization_tokens :: bool
  can_view_organization_logs :: bool
  can_update_organization :: bool
  can_disable_organization :: bool
  can_enable_organization :: bool
  can_manage_members :: bool
  can_manage_member_discounts :: bool
  can_manage_member_models :: bool
  can_manage_member_quotas :: bool
  can_transfer_owner :: bool
  can_add_members_directly :: bool
  can_exit_organization :: bool
  can_view_invites :: bool
  can_create_invites :: bool
  can_revoke_invites :: bool
  can_manage_all_tokens :: bool
  can_modify_organization_group :: bool
  can_dissolve_organization :: bool
  can_view_audit :: bool
  can_view_organization_billing_summary :: bool
  show_return_organization_center :: bool
  show_return_personal_center :: bool

record AccountContext =
  ctx_type :: AccountContextType
  ctx_id :: int
  ctx_name :: string
  ctx_slug :: "string option"
  ctx_role :: "string option"
  ctx_status :: "string option"
  ctx_access_mode :: "string option"
  ctx_capabilities :: "OrganizationCapabilities option"

datatype AccountContextsStatus = ContextsIdle | ContextsLoading | ContextsReady | ContextsError

record AccountContextState =
  acs_current :: "AccountContext option"
  acs_contexts :: "AccountContext list"
  acs_status :: AccountContextsStatus

section \<open>The store\<close>

definition initial_contexts :: AccountContextState where
  "initial_contexts = \<lparr>acs_current = None, acs_contexts = [], acs_status = ContextsIdle\<rparr>"

definition setStatus :: "AccountContextsStatus \<Rightarrow> AccountContextState \<Rightarrow> AccountContextState" where
  "setStatus status s = s\<lparr>acs_status := status\<rparr>"

definition setContexts :: "AccountContext option \<Rightarrow> AccountContext list \<Rightarrow> AccountContextState \<Rightarrow> AccountContextState" where
  "setContexts current contexts s = s\<lparr>acs_current := current, acs_contexts := contexts, acs_status := ContextsReady\<rparr>"

definition setCurrent :: "AccountContext option \<Rightarrow> AccountContextState \<Rightarrow> AccountContextState" where
  "setCurrent current s = s\<lparr>acs_current := current\<rparr>"

definition reset_contexts :: "AccountContextState \<Rightarrow> AccountContextState" where
  "reset_contexts s = s\<lparr>acs_current := None, acs_contexts := [], acs_status := ContextsIdle\<rparr>"

text \<open>What the \<open>persist\<close> middleware stores, and how it merges it back; \<open>None\<close> is an absent property.\<close>

definition partialize :: "AccountContextState \<Rightarrow> AccountContext option option" where
  "partialize s = Some (acs_current s)"

definition merge_persisted :: "AccountContext option option \<Rightarrow> AccountContextState \<Rightarrow> AccountContextState" where
  "merge_persisted persisted currentState = currentState\<lparr>acs_current := nullish persisted None\<rparr>"

section \<open>Headers and cache keys\<close>

definition ACCOUNT_CONTEXT_TYPE_HEADER :: string where
  "ACCOUNT_CONTEXT_TYPE_HEADER = ''X-Account-Context-Type''"

definition ACCOUNT_CONTEXT_ID_HEADER :: string where
  "ACCOUNT_CONTEXT_ID_HEADER = ''X-Account-Context-Id''"

primrec ACCOUNT_CONTEXT_TYPE :: "AccountContextType \<Rightarrow> string" where
  "ACCOUNT_CONTEXT_TYPE PersonalContext = ''personal''"
| "ACCOUNT_CONTEXT_TYPE OrganizationContext = ''organization''"

definition current_organization :: "AccountContextState \<Rightarrow> AccountContext option" where
  "current_organization s =
     (case acs_current s of
        Some c \<Rightarrow> if ctx_type c = OrganizationContext then Some c else None
      | None \<Rightarrow> None)"

definition getAccountContextHeaders :: "AccountContextState \<Rightarrow> (string \<times> string) list" where
  "getAccountContextHeaders s =
     (case current_organization s of
        None \<Rightarrow> []
      | Some current \<Rightarrow>
          [(ACCOUNT_CONTEXT_TYPE_HEADER, ACCOUNT_CONTEXT_TYPE OrganizationContext),
           (ACCOUNT_CONTEXT_ID_HEADER, show_int (ctx_id current))])"

definition getAccountContextCacheKey :: "AccountContextState \<Rightarrow> string" where
  "getAccountContextCacheKey s =
     (case current_organization s of
        None \<Rightarrow> ACCOUNT_CONTEXT_TYPE PersonalContext
      | Some current \<Rightarrow> ACCOUNT_CONTEXT_TYPE OrganizationContext @ '':'' @ show_int (ctx_id current))"

section \<open>lib/account-context.ts\<close>

definition hasAdministrableOrganization :: "AccountContext list \<Rightarrow> bool" where
  "hasAdministrableOrganization contexts \<longleftrightarrow>
     list_ex (\<lambda>c. ctx_type c = OrganizationContext \<and> (ctx_role c = Some ''owner'' \<or> ctx_role c = Some ''admin'')) contexts"

definition isOrganizationContext :: "AccountContextState \<Rightarrow> bool" where
  "isOrganizationContext s \<longleftrightarrow> current_organization s \<noteq> None"

record AccountContextsPayload =
  payload_current :: "AccountContext option"
  payload_contexts :: "AccountContext list"

record AccountContextsResponse =
  acr_success :: bool
  acr_message :: "string option"
  acr_data :: "(AccountContext option \<times> AccountContext list option) option"

record AccountContextResponse =
  ctr_success :: bool
  ctr_message :: "string option"
  ctr_code :: "string option"
  ctr_data :: "AccountContext option"

text \<open>
  The two halves of \<open>refreshAccountContexts\<close>, before and after its request, which may
  settle in a store that has changed meanwhile; \<open>Inl\<close> is the error thrown.
\<close>

definition refresh_contexts_start :: "AccountContextState \<Rightarrow> AccountContextState" where
  "refresh_contexts_start s = setStatus ContextsLoading s"

definition refreshAccountContexts ::
    "'e + AccountContextsResponse option \<Rightarrow> AccountContextState \<Rightarrow> ('e + AccountContextsPayload) \<times> AccountContextState" where
  "refreshAccountContexts result s =
     (case result of
        Inl e \<Rightarrow> (Inl e, setStatus ContextsError s)
      | Inr res \<Rightarrow>
          let data = Option.bind res acr_data;
              payload = \<lparr>payload_current = nullish (map_option fst data) None,
                         payload_contexts = nullish (Option.bind data snd) []\<rparr>
          in (Inr payload, setContexts (payload_current payload) (payload_contexts payload) s))"

datatype switch_error = RequestError | SwitchFailed string

definition switchAccountContext ::
    "switch_error + AccountContextResponse option \<Rightarrow> AccountContextState \<Rightarrow> (switch_error + AccountContext) \<times> AccountContextState" where
  "switchAccountContext result s =
     (case result of
        Inl e \<Rightarrow> (Inl e, s)
      | Inr res \<Rightarrow>
          (case Option.bind res ctr_data of
             None \<Rightarrow> (Inl (SwitchFailed (or_string (Option.bind res ctr_message) ''Failed to switch account context'')), s)
           | Some context \<Rightarrow> (Inr context, setCurrent (Some context) s)))"

section \<open>Decimal numbers are unambiguous\<close>

lemma of_char_digit: "d < 10 \<Longrightarrow> of_char (digit_char d) = (48 + d :: nat)"
  unfolding digit_char_def of_char_of by (rule mod_less) simp

lemma digit_char_inj: "a < 10 \<Longrightarrow> b < 10 \<Longrightarrow> digit_char a = digit_char b \<Longrightarrow> a = b"
  by (metis of_char_digit add_left_cancel)

lemma map_digit_char_inj:
  "\<forall>d \<in> set xs. d < 10 \<Longrightarrow> \<forall>d \<in> set ys. d < 10 \<Longrightarrow> map digit_char xs = map digit_char ys \<Longrightarrow> xs = ys"
proof (induction xs arbitrary: ys)
  case (Cons x xs)
  then obtain y ys' where ys: "ys = y # ys'" by (cases ys) auto
  have "digit_char x = digit_char y" "map digit_char xs = map digit_char ys'" using Cons.prems(3) by (simp_all add: ys)
  moreover have "x < 10" "y < 10" "\<forall>d \<in> set xs. d < 10" "\<forall>d \<in> set ys'. d < 10" using Cons.prems(1,2) by (simp_all add: ys)
  ultimately have "x = y" "xs = ys'" by (blast intro: digit_char_inj Cons.IH)+
  then show ?case by (simp add: ys)
qed simp

lemma show_nat_inj:
  assumes "show_nat a = show_nat b"
  shows "a = b"
proof -
  have "digits_of a = digits_of b"
    using assms digits_of_small unfolding show_nat_def by (intro map_digit_char_inj) auto
  then show ?thesis by (metis undigits_digits_of)
qed

lemma show_nat_no_sign: "show_nat n \<noteq> CHR ''-'' # s"
proof
  assume "show_nat n = CHR ''-'' # s"
  then have "CHR ''-'' \<in> set (map digit_char (digits_of n))" by (simp add: show_nat_def)
  then obtain d where d: "d \<in> set (digits_of n)" "CHR ''-'' = digit_char d" by auto
  from of_char_digit [OF digits_of_small [OF d(1)]] have "of_char (CHR ''-'') = (48 + d :: nat)" using d(2) by simp
  then show False by simp
qed

lemma show_int_inj [simp]: "show_int a = show_int b \<longleftrightarrow> a = b"
proof
  assume eq: "show_int a = show_int b"
  consider "a < 0" "b < 0" | "a < 0" "\<not> b < 0" | "\<not> a < 0" "b < 0" | "\<not> a < 0" "\<not> b < 0" by blast
  then show "a = b"
  proof cases
    case 1
    then have "nat (- a) = nat (- b)" using eq by (intro show_nat_inj) (simp add: show_int_def)
    with 1 show ?thesis by simp
  next
    case 2
    then show ?thesis using eq show_nat_no_sign [of "nat b" "show_nat (nat (- a))"] by (simp add: show_int_def)
  next
    case 3
    then show ?thesis using eq show_nat_no_sign [of "nat a" "show_nat (nat (- b))"] by (simp add: show_int_def)
  next
    case 4
    then have "nat a = nat b" using eq by (intro show_nat_inj) (simp add: show_int_def)
    with 4 show ?thesis by simp
  qed
qed simp

section \<open>Properties\<close>

text \<open>
  The context part of a cache key is exact: two requests have the same context key if
  and only if they carry the same context headers, so a response of one context is never
  handed to a request of another, and one context is never split in two.
\<close>

theorem context_key_iff_headers:
  "getAccountContextCacheKey s = getAccountContextCacheKey s' \<longleftrightarrow>
   getAccountContextHeaders s = getAccountContextHeaders s'"
  by (auto simp: getAccountContextCacheKey_def getAccountContextHeaders_def split: option.splits)

text \<open>
  The context store.  After a restart the selected context is the persisted one and
  everything else is fetched anew; after a reset no context header is sent; a refresh
  adopts exactly what the server answered, a failed one changes the status only; and a
  switch selects the confirmed context or, on any failure, nothing.
\<close>

theorem context_store_laws:
  "merge_persisted (partialize s) initial_contexts = initial_contexts\<lparr>acs_current := acs_current s\<rparr> \<and>
   getAccountContextHeaders (reset_contexts s) = [] \<and> \<not> isOrganizationContext (reset_contexts s) \<and>
   snd (refreshAccountContexts (Inl e) s) = s\<lparr>acs_status := ContextsError\<rparr> \<and>
   (case refreshAccountContexts (Inr res :: unit + AccountContextsResponse option) s of
      (Inr p, s') \<Rightarrow> s' = \<lparr>acs_current = payload_current p, acs_contexts = payload_contexts p, acs_status = ContextsReady\<rparr>
    | _ \<Rightarrow> False) \<and>
   (case switchAccountContext sw s of
      (Inr c, s') \<Rightarrow> s' = s\<lparr>acs_current := Some c\<rparr> \<and> (\<exists>r. sw = Inr (Some r) \<and> ctr_data r = Some c)
    | (Inl _, s') \<Rightarrow> s' = s)"
  by (auto simp: merge_persisted_def partialize_def initial_contexts_def nullish_def reset_contexts_def
    getAccountContextHeaders_def current_organization_def isOrganizationContext_def refreshAccountContexts_def
    switchAccountContext_def setStatus_def setContexts_def setCurrent_def Let_def
    split: sum.split option.split Option.bind_split)

end
