(* ===== verification/Auth_Session.thy ===== *)
theory Auth_Session
  imports Account_Context
begin

text \<open>
  The login session: the store of \<open>stores/auth-store.ts\<close>, the session hint of
  \<open>lib/session-hint.ts\<close>, the events of \<open>lib/auth-session-sync.ts\<close> and the refresh of
  \<open>lib/auth-session.ts\<close>.

  \<open>world\<close> is what the module shares with the rest of the application: the two stores, the
  module's \<open>authEpoch\<close> and the events published to other tabs.  A refresh awaits the server
  and its retry delays; while it does, the rest of the application may change the world by
  the operations of \<open>session_op\<close>.  What the environment does is the argument \<open>env\<close>: for
  the k-th request of a refresh, the operations that run while it is in flight, its answer,
  and the operations that run during a delay behind it.  A refresh returns the list of the
  actions it and its environment performed.  A user is a validated JSON object, kept whole.
\<close>

section \<open>The store\<close>

record LoginSession =
  sess_sid :: string
  sess_current :: bool
  sess_login_method :: string
  sess_ip :: string
  sess_user_agent :: string
  sess_created_at :: number
  sess_last_active_at :: number
  sess_expires_at :: number

record AuthUser =
  user_id :: number
  user_username :: string
  user_role :: number
  user_value :: json

record AuthBundle =
  bundle_access_token :: string
  bundle_token_type :: string
  bundle_access_expires_at :: number
  bundle_user :: AuthUser
  bundle_session :: LoginSession

datatype AuthBootstrapState = BootIdle | BootChecking | BootComplete

record AuthState =
  auth_user :: "AuthUser option"
  auth_accessToken :: "string option"
  auth_accessExpiresAt :: "number option"
  auth_session :: "LoginSession option"
  auth_pending2FAFlowToken :: "string option"
  auth_bootstrapState :: AuthBootstrapState

definition initial_auth :: AuthState where
  "initial_auth = \<lparr>auth_user = None, auth_accessToken = None, auth_accessExpiresAt = None, auth_session = None,
     auth_pending2FAFlowToken = None, auth_bootstrapState = BootIdle\<rparr>"

definition setBundle :: "AuthBundle \<Rightarrow> AuthState \<Rightarrow> AuthState" where
  "setBundle bundle a = a\<lparr>auth_user := Some (bundle_user bundle), auth_accessToken := Some (bundle_access_token bundle),
     auth_accessExpiresAt := Some (bundle_access_expires_at bundle), auth_session := Some (bundle_session bundle),
     auth_pending2FAFlowToken := None, auth_bootstrapState := BootComplete\<rparr>"

definition setUser :: "AuthUser option \<Rightarrow> AuthState \<Rightarrow> AuthState" where
  "setUser user a = a\<lparr>auth_user := user\<rparr>"

definition setPending2FAFlowToken :: "string option \<Rightarrow> AuthState \<Rightarrow> AuthState" where
  "setPending2FAFlowToken flowToken a = a\<lparr>auth_pending2FAFlowToken := flowToken\<rparr>"

definition setBootstrapState :: "AuthBootstrapState \<Rightarrow> AuthState \<Rightarrow> AuthState" where
  "setBootstrapState b a = a\<lparr>auth_bootstrapState := b\<rparr>"

definition reset_auth :: "AuthBootstrapState \<Rightarrow> AuthState \<Rightarrow> AuthState" where
  "reset_auth b a = a\<lparr>auth_user := None, auth_accessToken := None, auth_accessExpiresAt := None, auth_session := None,
     auth_pending2FAFlowToken := None, auth_bootstrapState := b\<rparr>"

section \<open>Validation of responses\<close>

fun isRecord :: "json \<Rightarrow> bool" where
  "isRecord (JObj _) = True"
| "isRecord (JArr _) = True"
| "isRecord _ = False"

definition str_prop :: "json \<Rightarrow> string \<Rightarrow> string option" where
  "str_prop v k = (case prop_of v k of Some (JStr s) \<Rightarrow> Some s | _ \<Rightarrow> None)"

definition num_prop :: "json \<Rightarrow> string \<Rightarrow> number option" where
  "num_prop v k = (case prop_of v k of Some (JNum n) \<Rightarrow> Some n | _ \<Rightarrow> None)"

definition bool_prop :: "json \<Rightarrow> string \<Rightarrow> bool option" where
  "bool_prop v k = (case prop_of v k of Some (JBool b) \<Rightarrow> Some b | _ \<Rightarrow> None)"

definition isAuthUser :: "json \<Rightarrow> bool" where
  "isAuthUser v \<longleftrightarrow> isRecord v \<and>
     (case num_prop v ''id'' of Some n \<Rightarrow> of_int \<lfloor>n\<rfloor> = n \<and> n > 0 | None \<Rightarrow> False) \<and>
     str_prop v ''username'' \<noteq> None \<and> num_prop v ''role'' \<noteq> None"

definition isLoginSession :: "json \<Rightarrow> bool" where
  "isLoginSession v \<longleftrightarrow> isRecord v \<and>
     truthy_string (str_prop v ''sid'') \<and> bool_prop v ''current'' \<noteq> None \<and> str_prop v ''login_method'' \<noteq> None \<and>
     str_prop v ''ip'' \<noteq> None \<and> str_prop v ''user_agent'' \<noteq> None \<and> num_prop v ''created_at'' \<noteq> None \<and>
     num_prop v ''last_active_at'' \<noteq> None \<and> num_prop v ''expires_at'' \<noteq> None"

definition hasValidTokenFields :: "json \<Rightarrow> bool" where
  "hasValidTokenFields v \<longleftrightarrow>
     truthy_string (str_prop v ''access_token'') \<and> truthy_string (str_prop v ''token_type'') \<and>
     (case num_prop v ''access_expires_at'' of Some n \<Rightarrow> n > 0 | None \<Rightarrow> False)"

definition isAuthBundle :: "json \<Rightarrow> bool" where
  "isAuthBundle v \<longleftrightarrow> isRecord v \<and> hasValidTokenFields v \<and>
     (case prop_of v ''user'' of Some u \<Rightarrow> isAuthUser u | None \<Rightarrow> False) \<and>
     (case prop_of v ''session'' of Some s \<Rightarrow> isLoginSession s | None \<Rightarrow> False)"

definition isAuthTokenRotation :: "json \<Rightarrow> bool" where
  "isAuthTokenRotation v \<longleftrightarrow> isRecord v \<and> hasValidTokenFields v \<and> str_prop v ''token_type'' = Some ''Bearer'' \<and>
     (case prop_of v ''session'' of Some s \<Rightarrow> isLoginSession s \<and> bool_prop s ''current'' = Some True | None \<Rightarrow> False)"

text \<open>The typed reading of a validated value.\<close>

definition user_of_json :: "json \<Rightarrow> AuthUser" where
  "user_of_json v = \<lparr>user_id = nullish (num_prop v ''id'') 0, user_username = nullish (str_prop v ''username'') [],
     user_role = nullish (num_prop v ''role'') 0, user_value = v\<rparr>"

definition session_of_json :: "json \<Rightarrow> LoginSession" where
  "session_of_json v =
     \<lparr>sess_sid = nullish (str_prop v ''sid'') [], sess_current = nullish (bool_prop v ''current'') False,
      sess_login_method = nullish (str_prop v ''login_method'') [], sess_ip = nullish (str_prop v ''ip'') [],
      sess_user_agent = nullish (str_prop v ''user_agent'') [], sess_created_at = nullish (num_prop v ''created_at'') 0,
      sess_last_active_at = nullish (num_prop v ''last_active_at'') 0, sess_expires_at = nullish (num_prop v ''expires_at'') 0\<rparr>"

definition bundle_of_json :: "json \<Rightarrow> AuthBundle" where
  "bundle_of_json v =
     \<lparr>bundle_access_token = nullish (str_prop v ''access_token'') [], bundle_token_type = nullish (str_prop v ''token_type'') [],
      bundle_access_expires_at = nullish (num_prop v ''access_expires_at'') 0,
      bundle_user = user_of_json (nullish (prop_of v ''user'') JNull),
      bundle_session = session_of_json (nullish (prop_of v ''session'') JNull)\<rparr>"

definition parseBundle :: "json option \<Rightarrow> AuthBundle option" where
  "parseBundle v = (case v of Some j \<Rightarrow> if isAuthBundle j then Some (bundle_of_json j) else None | None \<Rightarrow> None)"

section \<open>The world\<close>

datatype sync_kind = Authenticated_event | Signed_out_event

record world =
  w_auth :: AuthState
  w_contexts :: AccountContextState
  w_epoch :: nat
  w_published :: "(sync_kind \<times> string) list"

definition current_sid :: "world \<Rightarrow> string option" where
  "current_sid w = map_option sess_sid (auth_session (w_auth w))"

definition publishAuthSessionEvent :: "sync_kind \<Rightarrow> string \<Rightarrow> world \<Rightarrow> world" where
  "publishAuthSessionEvent kind sid w =
     (if sid = [] then w else w\<lparr>w_published := w_published w @ [(kind, sid)]\<rparr>)"

definition applyAuthBundle :: "AuthBundle \<Rightarrow> bool \<Rightarrow> world \<Rightarrow> world" where
  "applyAuthBundle bundle synchronizeTabs w =
     (let previousSID = current_sid w;
          w = w\<lparr>w_epoch := w_epoch w + 1, w_auth := setBundle bundle (w_auth w)\<rparr>
      in if synchronizeTabs \<and> previousSID \<noteq> Some (sess_sid (bundle_session bundle))
         then publishAuthSessionEvent Authenticated_event (sess_sid (bundle_session bundle)) w else w)"

datatype AuthRotationError = InvalidRotation | NoActiveSession | SessionMismatch

definition applyAuthRotation :: "json \<Rightarrow> world \<Rightarrow> AuthRotationError option \<times> world" where
  "applyAuthRotation value w =
     (if \<not> isAuthTokenRotation value then (Some InvalidRotation, w)
      else case (auth_user (w_auth w), auth_session (w_auth w)) of
        (Some user, Some session) \<Rightarrow>
          let rotated = session_of_json (nullish (prop_of value ''session'') JNull)
          in if sess_sid rotated \<noteq> sess_sid session then (Some SessionMismatch, w)
             else (None, applyAuthBundle
               \<lparr>bundle_access_token = nullish (str_prop value ''access_token'') [],
                bundle_token_type = nullish (str_prop value ''token_type'') [],
                bundle_access_expires_at = nullish (num_prop value ''access_expires_at'') 0,
                bundle_user = user, bundle_session = rotated\<rparr> False w)
      | _ \<Rightarrow> (Some NoActiveSession, w))"

definition clearAuthentication :: "bool \<Rightarrow> AuthBootstrapState \<Rightarrow> world \<Rightarrow> world" where
  "clearAuthentication synchronizeTabs bootstrapState w =
     (let sid = current_sid w;
          w = w\<lparr>w_epoch := w_epoch w + 1, w_auth := reset_auth bootstrapState (w_auth w),
                w_contexts := reset_contexts (w_contexts w)\<rparr>
      in if synchronizeTabs \<and> truthy_string sid then publishAuthSessionEvent Signed_out_event (the sid) w else w)"

text \<open>What the rest of the application may do while a refresh waits.\<close>

datatype session_op =
    OpLogin AuthBundle bool
  | OpRotate json
  | OpClear bool AuthBootstrapState
  | OpSetUser "AuthUser option"
  | OpSetPending2FA "string option"
  | OpSetBootstrap AuthBootstrapState
  | OpContexts AccountContextState

primrec run_op :: "session_op \<Rightarrow> world \<Rightarrow> world" where
  "run_op (OpLogin b sync) w = applyAuthBundle b sync w"
| "run_op (OpRotate v) w = snd (applyAuthRotation v w)"
| "run_op (OpClear sync b) w = clearAuthentication sync b w"
| "run_op (OpSetUser u) w = w\<lparr>w_auth := setUser u (w_auth w)\<rparr>"
| "run_op (OpSetPending2FA t) w = w\<lparr>w_auth := setPending2FAFlowToken t (w_auth w)\<rparr>"
| "run_op (OpSetBootstrap b) w = w\<lparr>w_auth := setBootstrapState b (w_auth w)\<rparr>"
| "run_op (OpContexts c) w = w\<lparr>w_contexts := c\<rparr>"

section \<open>The refresh\<close>

record AuthRefreshHTTPResponse =
  rr_status :: nat
  rr_data :: "json option"
  rr_error :: "json option"

datatype refresh_error = Superseded | RequestFailed "json option"

datatype RefreshOutcome =
    Authenticated AuthBundle
  | Anonymous
  | TransientError refresh_error
  | OutOfSync "string option"

record refresh_env =
  env_during_request :: "session_op list"
  env_response :: AuthRefreshHTTPResponse
  env_during_wait :: "session_op list"

text \<open>The actions of a refresh: its environment's, its request, and its writes.\<close>

datatype action =
    Env session_op
  | Sent "string option"
  | Accept AuthBundle
  | Clear bool AuthBootstrapState
  | ResetIdle
  | MarkTransient

primrec run_action :: "action \<Rightarrow> world \<Rightarrow> world" where
  "run_action (Env op) w = run_op op w"
| "run_action (Sent sid) w = w"
| "run_action (Accept b) w = applyAuthBundle b False w"
| "run_action (Clear sync b) w = clearAuthentication sync b w"
| "run_action ResetIdle w = w\<lparr>w_auth := reset_auth BootIdle (w_auth w)\<rparr>"
| "run_action MarkTransient w = w\<lparr>w_auth := setBootstrapState BootIdle (w_auth w)\<rparr>"

definition run_actions :: "action list \<Rightarrow> world \<Rightarrow> world" where
  "run_actions as w = foldl (\<lambda>w a. run_action a w) w as"

definition refreshRaceDelays :: "nat list" where
  "refreshRaceDelays = [80, 200, 500]"

definition response_code :: "AuthRefreshHTTPResponse \<Rightarrow> string option" where
  "response_code r = Option.bind (rr_data r) (\<lambda>d. if isRecord d then str_prop d ''code'' else None)"

definition response_bundle :: "AuthRefreshHTTPResponse \<Rightarrow> AuthBundle option" where
  "response_bundle r =
     (case rr_data r of
        Some d \<Rightarrow> if isRecord d \<and> bool_prop d ''success'' = Some True then parseBundle (prop_of d ''data'') else None
      | None \<Rightarrow> None)"

text \<open>
  \<open>run\<close> of \<open>createRefreshRunner\<close>, with the runtime of \<open>runRefresh\<close>: the action list it
  adds to \<open>tr\<close>, and the outcome.  \<open>k\<close> counts the requests.
\<close>

function refresh_run ::
    "(nat \<Rightarrow> refresh_env) \<Rightarrow> nat \<Rightarrow> world \<Rightarrow> nat \<Rightarrow> nat \<Rightarrow> bool \<Rightarrow> action list \<Rightarrow> RefreshOutcome \<times> action list" where
  "refresh_run env e w0 k raceAttempt allowMismatchRetry tr =
     (if w_epoch (run_actions tr w0) \<noteq> e then (TransientError Superseded, tr)
      else
        let tr = tr @ Sent (current_sid (run_actions tr w0)) # map Env (env_during_request (env k));
            response = env_response (env k)
        in if w_epoch (run_actions tr w0) \<noteq> e then (TransientError Superseded, tr)
           else case response_bundle response of
             Some bundle \<Rightarrow> (Authenticated bundle, tr @ [Accept bundle])
           | None \<Rightarrow>
               if rr_status response = 409 \<and> response_code response = Some ''AUTH_REFRESH_RACE'' then
                 (if raceAttempt < length refreshRaceDelays
                  then refresh_run env e w0 (k + 1) (raceAttempt + 1) allowMismatchRetry
                    (tr @ map Env (env_during_wait (env k)))
                  else (OutOfSync (response_code response), tr @ [Clear False BootComplete]))
               else if rr_status response = 409 \<and> response_code response = Some ''AUTH_SESSION_MISMATCH'' then
                 (if allowMismatchRetry then refresh_run env e w0 (k + 1) 0 False (tr @ [ResetIdle])
                  else (OutOfSync (response_code response), tr @ [Clear False BootComplete]))
               else if rr_status response = 401 then (Anonymous, tr @ [Clear True BootComplete])
               else if rr_status response = 0 \<or> rr_status response \<ge> 500 \<or> rr_status response = 429 then
                 (TransientError (RequestFailed (nullish_opt (rr_error response) (rr_data response))), tr @ [MarkTransient])
               else (OutOfSync (Some (nullish (response_code response) ''AUTH_INVALID_REFRESH_RESPONSE'')),
                 tr @ [Clear False BootComplete]))"
  by pat_completeness auto
termination
  by (relation "measure (\<lambda>(env, e, w, k, race, allow, tr). (if allow then 4 else 0) + (3 - race))")
    (auto simp: refreshRaceDelays_def)

declare refresh_run.simps [simp del]

text \<open>
  \<open>performRefreshWithBrowserLock\<close> and the refresh of \<open>refreshAuthentication\<close>: the epoch is
  read when the refresh is asked for, and \<open>queued\<close> runs while it waits for the lock.
\<close>

definition performRefreshWithBrowserLock :: "session_op list \<Rightarrow> (nat \<Rightarrow> refresh_env) \<Rightarrow> world \<Rightarrow> RefreshOutcome \<times> action list" where
  "performRefreshWithBrowserLock queued env w = refresh_run env (w_epoch w) w 0 0 True (map Env queued)"

definition refreshAuthentication :: "session_op list \<Rightarrow> (nat \<Rightarrow> refresh_env) \<Rightarrow> world \<Rightarrow> RefreshOutcome \<times> world" where
  "refreshAuthentication queued env w =
     (let (outcome, tr) = performRefreshWithBrowserLock queued env w in (outcome, run_actions tr w))"

section \<open>Resolving and headers\<close>

definition seconds :: "number \<Rightarrow> number" where
  "seconds now = of_int \<lfloor>now / 1000\<rfloor>"

definition currentValidAuthBundle :: "number \<Rightarrow> world \<Rightarrow> AuthBundle option" where
  "currentValidAuthBundle now w =
     (case (auth_user (w_auth w), auth_accessToken (w_auth w), auth_accessExpiresAt (w_auth w), auth_session (w_auth w)) of
        (Some user, Some token, Some expires, Some session) \<Rightarrow>
          if token = [] \<or> expires = 0 \<or> expires \<le> seconds now then None
          else Some \<lparr>bundle_access_token = token, bundle_token_type = ''Bearer'', bundle_access_expires_at = expires,
                     bundle_user = user, bundle_session = session\<rparr>
      | _ \<Rightarrow> None)"

definition resolveAuthentication :: "number \<Rightarrow> session_op list \<Rightarrow> (nat \<Rightarrow> refresh_env) \<Rightarrow> world \<Rightarrow> RefreshOutcome \<times> world" where
  "resolveAuthentication now queued env w =
     (case currentValidAuthBundle now w of
        Some bundle \<Rightarrow> (Authenticated bundle, w\<lparr>w_auth := setBootstrapState BootComplete (w_auth w)\<rparr>)
      | None \<Rightarrow>
          if auth_bootstrapState (w_auth w) = BootComplete \<and>
             \<not> (auth_user (w_auth w) \<noteq> None \<and> auth_session (w_auth w) \<noteq> None)
          then (Anonymous, w)
          else refreshAuthentication queued env (w\<lparr>w_auth := setBootstrapState BootChecking (w_auth w)\<rparr>))"

text \<open>The session hint: a cookie of the page, read from the text of \<open>document.cookie\<close>.\<close>

definition SESSION_HINT_COOKIE_NAME :: string where
  "SESSION_HINT_COOKIE_NAME = ''new_api_has_session''"

fun read_cookie_parts :: "string list \<Rightarrow> string \<Rightarrow> string option" where
  "read_cookie_parts [] name = None"
| "read_cookie_parts (part # parts) name =
     (case index_of ''='' part of
        None \<Rightarrow> read_cookie_parts parts name
      | Some separator \<Rightarrow>
          if trim (take separator part) \<noteq> name then read_cookie_parts parts name
          else Some (trim (drop (separator + 1) part)))"

definition readCookie :: "string \<Rightarrow> string \<Rightarrow> string option" where
  "readCookie cookieHeader name = read_cookie_parts (split_on (CHR '';'') cookieHeader) name"

text \<open>\<open>None\<close> is a page without a \<open>document\<close>.\<close>

definition hasSessionHint :: "string option \<Rightarrow> bool" where
  "hasSessionHint cookie =
     (case cookie of None \<Rightarrow> True | Some header \<Rightarrow> readCookie header SESSION_HINT_COOKIE_NAME \<noteq> None)"

definition bootstrapAuthentication ::
    "string option \<Rightarrow> number \<Rightarrow> session_op list \<Rightarrow> (nat \<Rightarrow> refresh_env) \<Rightarrow> world \<Rightarrow> RefreshOutcome \<times> world" where
  "bootstrapAuthentication cookie now queued env w =
     (if currentValidAuthBundle now w = None \<and> \<not> hasSessionHint cookie \<and>
         auth_user (w_auth w) = None \<and> auth_session (w_auth w) = None
      then (Anonymous, w)
      else resolveAuthentication now queued env w)"

definition getCommonHeaders :: "world \<Rightarrow> (string \<times> string) list" where
  "getCommonHeaders w =
     [(''Content-Type'', ''application/json'')] @
     (if truthy_string (auth_accessToken (w_auth w))
      then [(''Authorization'', ''Bearer '' @ the (auth_accessToken (w_auth w)))] else []) @
     getAccountContextHeaders (w_contexts w)"

definition token_valid_after :: "number \<Rightarrow> world \<Rightarrow> bool" where
  "token_valid_after limit w \<longleftrightarrow>
     truthy_string (auth_accessToken (w_auth w)) \<and>
     (case auth_accessExpiresAt (w_auth w) of None \<Rightarrow> False | Some t \<Rightarrow> t \<noteq> 0 \<and> t > limit)"

datatype header_error = HeaderRequestFailed refresh_error | SessionExpired

text \<open>\<open>now1\<close> is the clock before the refresh, \<open>now2\<close> the one behind it.\<close>

definition getFreshAuthHeaders ::
    "number \<Rightarrow> number \<Rightarrow> session_op list \<Rightarrow> (nat \<Rightarrow> refresh_env) \<Rightarrow> world \<Rightarrow>
     (header_error + (string \<times> string) list) \<times> world" where
  "getFreshAuthHeaders now1 now2 queued env w =
     (if token_valid_after (seconds now1 + 60) w then (Inr (getCommonHeaders w), w)
      else
        let (outcome, w') = refreshAuthentication queued env w
        in (case outcome of
              Authenticated _ \<Rightarrow> Inr (getCommonHeaders w')
            | _ \<Rightarrow>
                if token_valid_after (seconds now2) w' then Inr (getCommonHeaders w')
                else (case outcome of TransientError e \<Rightarrow> Inl (HeaderRequestFailed e) | _ \<Rightarrow> Inl SessionExpired), w'))"

section \<open>A refresh acts in its own epoch\<close>

primrec runner_action :: "action \<Rightarrow> bool" where
  "runner_action (Env op) = False"
| "runner_action (Sent sid) = True"
| "runner_action (Accept b) = True"
| "runner_action (Clear sync b) = True"
| "runner_action ResetIdle = True"
| "runner_action MarkTransient = True"

fun acts_in_epoch :: "nat \<Rightarrow> world \<Rightarrow> action list \<Rightarrow> bool" where
  "acts_in_epoch e w [] = True"
| "acts_in_epoch e w (a # as) = ((\<not> runner_action a \<or> w_epoch w = e) \<and> acts_in_epoch e (run_action a w) as)"

lemma run_actions_append: "run_actions (xs @ ys) w = run_actions ys (run_actions xs w)"
  by (simp add: run_actions_def)

lemma run_actions_simps [simp]:
  "run_actions [] w = w" "run_actions (a # as) w = run_actions as (run_action a w)"
  by (simp_all add: run_actions_def)

lemma acts_append: "acts_in_epoch e w (xs @ ys) \<longleftrightarrow> acts_in_epoch e w xs \<and> acts_in_epoch e (run_actions xs w) ys"
  by (induction xs arbitrary: w) auto

lemma acts_env [simp]: "acts_in_epoch e w (map Env ops)"
  by (induction ops arbitrary: w) auto

text \<open>One round of the runner, as a case rule.\<close>

lemma refresh_run_cases:
  obtains (stale) "w_epoch (run_actions tr w0) \<noteq> e" "refresh_run env e w0 k r al tr = (TransientError Superseded, tr)"
  | (request) tr' where "w_epoch (run_actions tr w0) = e"
      "tr' = tr @ Sent (current_sid (run_actions tr w0)) # map Env (env_during_request (env k))"
      "(w_epoch (run_actions tr' w0) \<noteq> e \<and> refresh_run env e w0 k r al tr = (TransientError Superseded, tr')) \<or>
       (w_epoch (run_actions tr' w0) = e \<and>
        ((\<exists>b. response_bundle (env_response (env k)) = Some b \<and>
            refresh_run env e w0 k r al tr = (Authenticated b, tr' @ [Accept b])) \<or>
         (r < 3 \<and> refresh_run env e w0 k r al tr =
            refresh_run env e w0 (k + 1) (r + 1) al (tr' @ map Env (env_during_wait (env k)))) \<or>
         (al \<and> refresh_run env e w0 k r al tr = refresh_run env e w0 (k + 1) 0 False (tr' @ [ResetIdle])) \<or>
         (\<exists>code. refresh_run env e w0 k r al tr = (OutOfSync code, tr' @ [Clear False BootComplete])) \<or>
         refresh_run env e w0 k r al tr = (Anonymous, tr' @ [Clear True BootComplete]) \<or>
         (\<exists>err. refresh_run env e w0 k r al tr = (TransientError (RequestFailed err), tr' @ [MarkTransient]))))"
proof (cases "w_epoch (run_actions tr w0) = e")
  case False
  then show ?thesis by (intro stale) (simp_all add: refresh_run.simps [of env e w0 k r al tr])
next
  case True
  let ?tr = "tr @ Sent (current_sid (run_actions tr w0)) # map Env (env_during_request (env k))"
  show ?thesis
    by (rule request [OF True refl], subst (1 2 3 4 5 6 7) refresh_run.simps [of env e w0 k r al tr])
      (simp add: True Let_def refreshRaceDelays_def split: option.split)
qed

section \<open>Reasoning about a refresh\<close>

text \<open>
  What has to be shown to conclude \<open>Q\<close> of every outcome and trace: an invariant \<open>I\<close> before
  a request that becomes \<open>J\<close> behind it, both depending on the attempts left.
\<close>

locale refresh_contract =
  fixes e :: nat and w0 :: world
    and I J :: "nat \<Rightarrow> bool \<Rightarrow> action list \<Rightarrow> bool"
    and Q :: "RefreshOutcome \<Rightarrow> action list \<Rightarrow> bool"
  assumes send: "I r al tr \<Longrightarrow> w_epoch (run_actions tr w0) = e \<Longrightarrow>
      J r al (tr @ Sent (current_sid (run_actions tr w0)) # map Env ops)"
    and race: "J r al tr \<Longrightarrow> w_epoch (run_actions tr w0) = e \<Longrightarrow> r < 3 \<Longrightarrow> I (r + 1) al (tr @ map Env ops)"
    and mismatch: "J r True tr \<Longrightarrow> w_epoch (run_actions tr w0) = e \<Longrightarrow> I 0 False (tr @ [ResetIdle])"
    and accept: "J r al tr \<Longrightarrow> w_epoch (run_actions tr w0) = e \<Longrightarrow> response_bundle resp = Some b \<Longrightarrow>
      Q (Authenticated b) (tr @ [Accept b])"
    and out_of_sync: "J r al tr \<Longrightarrow> w_epoch (run_actions tr w0) = e \<Longrightarrow> Q (OutOfSync code) (tr @ [Clear False BootComplete])"
    and anonymous: "J r al tr \<Longrightarrow> w_epoch (run_actions tr w0) = e \<Longrightarrow> Q Anonymous (tr @ [Clear True BootComplete])"
    and transient: "J r al tr \<Longrightarrow> w_epoch (run_actions tr w0) = e \<Longrightarrow>
      Q (TransientError (RequestFailed err)) (tr @ [MarkTransient])"
    and superseded: "I r al tr \<or> J r al tr \<Longrightarrow> w_epoch (run_actions tr w0) \<noteq> e \<Longrightarrow> Q (TransientError Superseded) tr"
begin

lemma run_sound: "I r al tr \<Longrightarrow> Q (fst (refresh_run env e w0 k r al tr)) (snd (refresh_run env e w0 k r al tr))"
proof (induction "(if al then 4 else 0) + (3 - r)" arbitrary: k r al tr rule: less_induct)
  case less
  show ?case
  proof (cases rule: refresh_run_cases [of tr w0 e env k r al])
    case stale
    with less.prems show ?thesis using superseded [of r al tr] by simp
  next
    case (request tr')
    from less.prems request(1,2) have J: "J r al tr'" by (simp add: send)
    from request(3) show ?thesis
    proof (elim disjE conjE exE)
      assume "r < 3" "w_epoch (run_actions tr' w0) = e"
        "refresh_run env e w0 k r al tr = refresh_run env e w0 (k + 1) (r + 1) al (tr' @ map Env (env_during_wait (env k)))"
      with J less.hyps [of al "r + 1" "tr' @ map Env (env_during_wait (env k))" "k + 1"] race show ?thesis by simp
    next
      assume "al" "w_epoch (run_actions tr' w0) = e"
        "refresh_run env e w0 k r al tr = refresh_run env e w0 (k + 1) 0 False (tr' @ [ResetIdle])"
      with J less.hyps [of False 0 "tr' @ [ResetIdle]" "k + 1"] mismatch show ?thesis by simp
    qed (use J accept out_of_sync anonymous transient superseded [of r al tr'] in auto)
  qed
qed

end

text \<open>Every action of the refresh happens in the epoch it started in.\<close>

interpretation epoch_contract: refresh_contract e w0 "\<lambda>_ _. acts_in_epoch e w0" "\<lambda>_ _. acts_in_epoch e w0" "\<lambda>_. acts_in_epoch e w0"
  for e w0
  by unfold_locales (auto simp: acts_append)

primrec is_sent :: "action \<Rightarrow> bool" where
  "is_sent (Env op) = False"
| "is_sent (Sent sid) = True"
| "is_sent (Accept b) = False"
| "is_sent (Clear sync b) = False"
| "is_sent ResetIdle = False"
| "is_sent MarkTransient = False"

definition requests :: "action list \<Rightarrow> nat" where
  "requests tr = length (filter is_sent tr)"

lemma requests_simps [simp]:
  "requests (xs @ ys) = requests xs + requests ys" "requests (a # as) = (if is_sent a then 1 else 0) + requests as"
  "requests [] = 0" "requests (map Env ops) = 0"
  by (simp_all add: requests_def filter_map o_def)

text \<open>A refresh has eight requests: four with the session it knows, four without.\<close>

interpretation bound_contract: refresh_contract e w0
    "\<lambda>r al tr. r \<le> 3 \<and> requests tr + (if al then 4 else 0) + (4 - r) \<le> 8"
    "\<lambda>r al tr. r \<le> 3 \<and> requests tr + (if al then 4 else 0) + (3 - r) \<le> 8"
    "\<lambda>_ tr. requests tr \<le> 8"
  for e w0
  by unfold_locales (auto split: if_splits)

text \<open>Once there is a request in the trace, it stays there.\<close>

interpretation sent_contract: refresh_contract e w0 "\<lambda>_ _ tr. requests tr \<ge> 1" "\<lambda>_ _ tr. requests tr \<ge> 1" "\<lambda>_ tr. requests tr \<ge> 1"
  for e w0
  by unfold_locales auto

lemma first_request:
  assumes "w_epoch (run_actions tr w0) = e"
  shows "requests (snd (refresh_run env e w0 k r al tr)) \<ge> 1"
proof (cases rule: refresh_run_cases [of tr w0 e env k r al])
  case stale
  with assms show ?thesis by simp
next
  case (request tr')
  then have tr': "requests tr' \<ge> 1" by simp
  from request(3) show ?thesis
  proof (elim disjE conjE exE)
    assume "refresh_run env e w0 k r al tr = refresh_run env e w0 (k + 1) (r + 1) al (tr' @ map Env (env_during_wait (env k)))"
    then show ?thesis using sent_contract.run_sound [of "tr' @ map Env (env_during_wait (env k))"] tr' by simp
  next
    assume "refresh_run env e w0 k r al tr = refresh_run env e w0 (k + 1) 0 False (tr' @ [ResetIdle])"
    then show ?thesis using sent_contract.run_sound [of "tr' @ [ResetIdle]"] tr' by simp
  qed (use tr' in auto)
qed

text \<open>What the stores hold for each outcome.\<close>

definition signed_out :: "world \<Rightarrow> bool" where
  "signed_out w \<longleftrightarrow> auth_user (w_auth w) = None \<and> auth_accessToken (w_auth w) = None \<and>
     auth_accessExpiresAt (w_auth w) = None \<and> auth_session (w_auth w) = None \<and>
     auth_bootstrapState (w_auth w) = BootComplete \<and> getAccountContextHeaders (w_contexts w) = []"

definition holds_bundle :: "AuthBundle \<Rightarrow> world \<Rightarrow> bool" where
  "holds_bundle b w \<longleftrightarrow> auth_user (w_auth w) = Some (bundle_user b) \<and>
     auth_accessToken (w_auth w) = Some (bundle_access_token b) \<and>
     auth_accessExpiresAt (w_auth w) = Some (bundle_access_expires_at b) \<and>
     auth_session (w_auth w) = Some (bundle_session b) \<and> auth_bootstrapState (w_auth w) = BootComplete \<and>
     bundle_access_token b \<noteq> [] \<and> sess_sid (bundle_session b) \<noteq> [] \<and> 0 < bundle_access_expires_at b"

primrec outcome_holds :: "nat \<Rightarrow> RefreshOutcome \<Rightarrow> world \<Rightarrow> bool" where
  "outcome_holds e (Authenticated b) w = holds_bundle b w"
| "outcome_holds e Anonymous w = signed_out w"
| "outcome_holds e (OutOfSync code) w = signed_out w"
| "outcome_holds e (TransientError err) w =
     (case err of Superseded \<Rightarrow> w_epoch w \<noteq> e | RequestFailed _ \<Rightarrow> auth_bootstrapState (w_auth w) = BootIdle)"

lemma published_frame [simp]:
  "w_auth (publishAuthSessionEvent k sid w) = w_auth w" "w_contexts (publishAuthSessionEvent k sid w) = w_contexts w"
  "w_epoch (publishAuthSessionEvent k sid w) = w_epoch w"
  by (simp_all add: publishAuthSessionEvent_def)

lemma clear_world:
  "w_auth (clearAuthentication sync b w) = reset_auth b (w_auth w)"
  "w_contexts (clearAuthentication sync b w) = reset_contexts (w_contexts w)"
  "w_epoch (clearAuthentication sync b w) = w_epoch w + 1"
  by (simp_all add: clearAuthentication_def Let_def)

lemma apply_world:
  "w_auth (applyAuthBundle b sync w) = setBundle b (w_auth w)"
  "w_contexts (applyAuthBundle b sync w) = w_contexts w"
  "w_epoch (applyAuthBundle b sync w) = w_epoch w + 1"
  by (simp_all add: applyAuthBundle_def Let_def)

lemma clear_signed_out: "signed_out (clearAuthentication sync BootComplete w)"
  by (simp add: signed_out_def clear_world reset_auth_def reset_contexts_def getAccountContextHeaders_def current_organization_def)

lemma response_bundle_valid:
  assumes "response_bundle resp = Some b"
  shows "bundle_access_token b \<noteq> []" "sess_sid (bundle_session b) \<noteq> []" "0 < bundle_access_expires_at b"
proof -
  from assms obtain v where v: "isAuthBundle v" "b = bundle_of_json v"
    by (auto simp: response_bundle_def parseBundle_def split: option.splits if_splits)
  then show "bundle_access_token b \<noteq> []" "sess_sid (bundle_session b) \<noteq> []" "0 < bundle_access_expires_at b"
    by (auto simp: isAuthBundle_def hasValidTokenFields_def isLoginSession_def bundle_of_json_def session_of_json_def
      truthy_string_def nullish_def split: option.splits)
qed

lemma accept_holds: "response_bundle resp = Some b \<Longrightarrow> holds_bundle b (applyAuthBundle b sync w)"
  by (simp add: holds_bundle_def apply_world setBundle_def response_bundle_valid)

interpretation outcome_contract: refresh_contract e w0 "\<lambda>_ _ _. True" "\<lambda>_ _ _. True"
    "\<lambda>out tr. outcome_holds e out (run_actions tr w0)"
  for e w0
  by unfold_locales (auto simp: run_actions_append accept_holds clear_signed_out setBootstrapState_def)

section \<open>Properties\<close>

lemma refresh_trace_facts:
  "acts_in_epoch (w_epoch w) w (snd (performRefreshWithBrowserLock queued env w))"
  "requests (snd (performRefreshWithBrowserLock queued env w)) \<le> 8"
  "outcome_holds (w_epoch w) (fst (performRefreshWithBrowserLock queued env w))
     (run_actions (snd (performRefreshWithBrowserLock queued env w)) w)"
  unfolding performRefreshWithBrowserLock_def
  by (rule epoch_contract.run_sound bound_contract.run_sound outcome_contract.run_sound; simp)+

text \<open>
  C2: a superseded refresh touches nothing.  Whatever logins, logouts, rotations and other
  changes happen while a refresh waits for the browser lock, the server or a retry delay,
  it sends requests and writes the stores only as long as no login, rotation or logout has
  happened since it was asked for; and it sends at most eight requests, so it ends.
\<close>

theorem refresh_acts_only_in_its_epoch:
  "acts_in_epoch (w_epoch w) w (snd (performRefreshWithBrowserLock queued env w)) \<and>
   requests (snd (performRefreshWithBrowserLock queued env w)) \<le> 8 \<and>
   snd (refreshAuthentication queued env w) = run_actions (snd (performRefreshWithBrowserLock queued env w)) w"
  by (simp add: refresh_trace_facts refreshAuthentication_def split_beta)

text \<open>
  C6: the outcome of a refresh agrees with the stores.  Authenticated: the store holds
  exactly the validated bundle that is returned, with a non-empty token and session.
  Anonymous or out of sync: no user, token, session or account context is left.  A failed
  request leaves the session check open for another try.  Superseded: a newer login or
  logout has taken over.
\<close>

theorem refresh_outcome_matches_store:
  "outcome_holds (w_epoch w) (fst (refreshAuthentication queued env w)) (snd (refreshAuthentication queued env w))"
  using refresh_trace_facts(3) [of w queued env] by (simp add: refreshAuthentication_def split_beta)

lemma common_headers_token:
  "truthy_string (auth_accessToken (w_auth w)) \<Longrightarrow>
   (''Authorization'', ''Bearer '' @ the (auth_accessToken (w_auth w))) \<in> set (getCommonHeaders w)"
  by (simp add: getCommonHeaders_def)

text \<open>
  Headers for a request outside axios.  Either an error is raised, or the headers
  returned are those of the current stores and carry a bearer token; an error is raised
  only when no unexpired token is left, and an expired session is reported only when the
  refresh did not fail transiently.
\<close>

theorem fresh_headers_authorized:
  "case getFreshAuthHeaders now1 now2 queued env w of
     (Inr hs, w') \<Rightarrow> hs = getCommonHeaders w' \<and>
       (\<exists>token. token \<noteq> [] \<and> auth_accessToken (w_auth w') = Some token \<and> (''Authorization'', ''Bearer '' @ token) \<in> set hs)
   | (Inl err, w') \<Rightarrow> \<not> token_valid_after (seconds now2) w' \<and>
       (err = SessionExpired \<longleftrightarrow> (fst (refreshAuthentication queued env w) = Anonymous \<or>
          (\<exists>code. fst (refreshAuthentication queued env w) = OutOfSync code)))"
proof (cases "token_valid_after (seconds now1 + 60) w")
  case True
  then obtain token where "token \<noteq> []" "auth_accessToken (w_auth w) = Some token"
    by (auto simp: token_valid_after_def truthy_string_def split: option.splits)
  with True common_headers_token [of w] show ?thesis by (simp add: getFreshAuthHeaders_def truthy_string_def)
next
  case False
  obtain out w' where r: "refreshAuthentication queued env w = (out, w')" by fastforce
  have holds: "outcome_holds (w_epoch w) out w'"
    using refresh_trace_facts(3) [of w queued env] r by (simp add: refreshAuthentication_def split_beta)
  have hdr: "\<exists>token. token \<noteq> [] \<and> auth_accessToken (w_auth w') = Some token \<and>
      (''Authorization'', ''Bearer '' @ token) \<in> set (getCommonHeaders w')" if "truthy_string (auth_accessToken (w_auth w'))"
    using that common_headers_token [OF that] by (auto simp: truthy_string_def split: option.splits)
  show ?thesis
  proof (cases out)
    case (Authenticated b)
    with holds have "truthy_string (auth_accessToken (w_auth w'))" by (simp add: holds_bundle_def truthy_string_def)
    from hdr [OF this] Authenticated False r show ?thesis by (simp add: getFreshAuthHeaders_def)
  qed (use False r hdr in \<open>auto simp: getFreshAuthHeaders_def token_valid_after_def\<close>)
qed

text \<open>
  The session hint is an optimisation only.  A page that boots without a hint and
  without a session in memory reports anonymous and changes nothing, in particular it does
  not record a finished check; so the next time authentication matters, the server is asked
  and its answer decides.
\<close>

theorem hintless_boot_recoverable:
  assumes "\<not> hasSessionHint cookie" and "w_auth w = initial_auth"
  shows "bootstrapAuthentication cookie now queued env w = (Anonymous, w) \<and>
    resolveAuthentication now queued' env' w =
      refreshAuthentication queued' env' (w\<lparr>w_auth := setBootstrapState BootChecking (w_auth w)\<rparr>) \<and>
    requests (snd (performRefreshWithBrowserLock [] env' (w\<lparr>w_auth := setBootstrapState BootChecking (w_auth w)\<rparr>))) \<ge> 1"
proof (intro conjI)
  show "bootstrapAuthentication cookie now queued env w = (Anonymous, w)"
    using assms by (simp add: bootstrapAuthentication_def currentValidAuthBundle_def initial_auth_def)
  show "resolveAuthentication now queued' env' w =
      refreshAuthentication queued' env' (w\<lparr>w_auth := setBootstrapState BootChecking (w_auth w)\<rparr>)"
    using assms by (simp add: resolveAuthentication_def currentValidAuthBundle_def initial_auth_def)
  let ?w = "w\<lparr>w_auth := setBootstrapState BootChecking (w_auth w)\<rparr>"
  show "requests (snd (performRefreshWithBrowserLock [] env' ?w)) \<ge> 1"
    unfolding performRefreshWithBrowserLock_def by (rule first_request) simp
qed

definition blank_world :: world where
  "blank_world = \<lparr>w_auth = initial_auth, w_contexts = initial_contexts, w_epoch = 0, w_published = []\<rparr>"

definition quiet_env :: "AuthRefreshHTTPResponse \<Rightarrow> refresh_env" where
  "quiet_env r = \<lparr>env_during_request = [], env_response = r, env_during_wait = []\<rparr>"

definition unauthorized :: AuthRefreshHTTPResponse where
  "unauthorized = \<lparr>rr_status = 401, rr_data = None, rr_error = None\<rparr>"

theorem hintless_boot_recoverable_witness:
  "bootstrapAuthentication (Some ''theme=dark'') 0 [] (\<lambda>_. quiet_env unauthorized) blank_world = (Anonymous, blank_world)"
proof -
  have "\<not> hasSessionHint (Some ''theme=dark'')" by code_simp
  from hintless_boot_recoverable [OF this, of blank_world] show ?thesis by (simp add: blank_world_def)
qed

text \<open>
  A token rotation keeps the session.  It either raises an error and changes nothing,
  or replaces the token and its expiry within the same session of the same user, without
  an event for other tabs and with the account context untouched.
\<close>

theorem rotation_keeps_session:
  "case applyAuthRotation value w of
     (Some err, w') \<Rightarrow> w' = w
   | (None, w') \<Rightarrow> auth_user (w_auth w') = auth_user (w_auth w) \<and> current_sid w' = current_sid w \<and>
       w_contexts w' = w_contexts w \<and> w_published w' = w_published w \<and>
       auth_accessToken (w_auth w') = str_prop value ''access_token'' \<and>
       auth_accessExpiresAt (w_auth w') = num_prop value ''access_expires_at'' \<and> w_epoch w' = w_epoch w + 1"
  by (auto simp: applyAuthRotation_def applyAuthBundle_def setBundle_def current_sid_def isAuthTokenRotation_def
    hasValidTokenFields_def truthy_string_def nullish_def Let_def split: option.splits)

text \<open>
  A session mismatch leaves the account context behind.  When the server answers that
  the refresh cookie belongs to another session and the retry signs that session in, the
  account context of the session before is still selected, whoever the new user is:
  the retry resets the login store only, unlike every other way to clear a login.
\<close>

theorem mismatch_retry_keeps_account_context:
  assumes "env 0 = quiet_env r0" and "env 1 = quiet_env r1"
    and "rr_status r0 = 409" and "response_code r0 = Some ''AUTH_SESSION_MISMATCH''" and "response_bundle r0 = None"
    and "response_bundle r1 = Some b"
  shows "fst (refreshAuthentication [] env w) = Authenticated b \<and>
    w_contexts (snd (refreshAuthentication [] env w)) = w_contexts w \<and>
    auth_user (w_auth (snd (refreshAuthentication [] env w))) = Some (bundle_user b)"
proof -
  have "refresh_run env (w_epoch w) w 1 0 False [Sent (current_sid w), ResetIdle] =
      (Authenticated b, [Sent (current_sid w), ResetIdle, Sent None, Accept b])"
    unfolding refresh_run.simps [of env _ w 1] using assms(2,6) by (simp add: quiet_env_def current_sid_def reset_auth_def)
  then have "performRefreshWithBrowserLock [] env w = (Authenticated b, [Sent (current_sid w), ResetIdle, Sent None, Accept b])"
    unfolding performRefreshWithBrowserLock_def refresh_run.simps [of env _ w 0]
    using assms(1,3,4,5) by (simp add: quiet_env_def)
  then show ?thesis by (simp add: refreshAuthentication_def apply_world setBundle_def)
qed

definition login_json :: "number \<Rightarrow> string \<Rightarrow> json" where
  "login_json uid sid = JObj [(''success'', JBool True), (''data'', JObj
     [(''access_token'', JStr ''t''), (''token_type'', JStr ''Bearer''), (''access_expires_at'', JNum 9000),
      (''user'', JObj [(''id'', JNum uid), (''username'', JStr ''u''), (''role'', JNum 1)]),
      (''session'', JObj [(''sid'', JStr sid), (''current'', JBool True), (''login_method'', JStr ''password''),
         (''ip'', JStr []), (''user_agent'', JStr []), (''created_at'', JNum 1), (''last_active_at'', JNum 1),
         (''expires_at'', JNum 9000)])])]"

definition login_response :: "number \<Rightarrow> string \<Rightarrow> AuthRefreshHTTPResponse" where
  "login_response uid sid = \<lparr>rr_status = 200, rr_data = Some (login_json uid sid), rr_error = None\<rparr>"

definition mismatch_response :: AuthRefreshHTTPResponse where
  "mismatch_response = \<lparr>rr_status = 409, rr_data = Some (JObj [(''code'', JStr ''AUTH_SESSION_MISMATCH'')]), rr_error = None\<rparr>"

definition organization_world :: world where
  "organization_world = applyAuthBundle (bundle_of_json (the (prop_of (login_json 1 ''s1'') ''data''))) False
     (blank_world\<lparr>w_contexts := setCurrent (Some \<lparr>ctx_type = OrganizationContext, ctx_id = 7, ctx_name = ''Org'',
        ctx_slug = None, ctx_role = None, ctx_status = None, ctx_access_mode = None, ctx_capabilities = None\<rparr>) initial_contexts\<rparr>)"

theorem mismatch_retry_keeps_account_context_witness:
  "map_option user_id (auth_user (w_auth organization_world)) = Some 1 \<and>
   map_option user_id (auth_user (w_auth (snd (refreshAuthentication []
     (\<lambda>k. quiet_env (if k = 0 then mismatch_response else login_response 2 ''s2'')) organization_world)))) = Some 2 \<and>
   getAccountContextHeaders (w_contexts (snd (refreshAuthentication []
     (\<lambda>k. quiet_env (if k = 0 then mismatch_response else login_response 2 ''s2'')) organization_world))) =
     [(ACCOUNT_CONTEXT_TYPE_HEADER, ''organization''), (ACCOUNT_CONTEXT_ID_HEADER, ''7'')]"
proof -
  let ?b = "bundle_of_json (the (prop_of (login_json 2 ''s2'') ''data''))"
  let ?env = "\<lambda>k :: nat. quiet_env (if k = 0 then mismatch_response else login_response 2 ''s2'')"
  have r: "rr_status mismatch_response = 409" "response_code mismatch_response = Some ''AUTH_SESSION_MISMATCH''"
    "response_bundle mismatch_response = None"
    by (simp_all add: mismatch_response_def response_code_def response_bundle_def str_prop_def bool_prop_def)
  have b: "response_bundle (login_response 2 ''s2'') = Some ?b"
    by (simp add: response_bundle_def login_response_def login_json_def bool_prop_def parseBundle_def isAuthBundle_def
      hasValidTokenFields_def isAuthUser_def isLoginSession_def str_prop_def num_prop_def truthy_string_def)
  have u: "user_id (bundle_user ?b) = 2" "map_option user_id (auth_user (w_auth organization_world)) = Some 1"
    by (simp_all add: login_json_def bundle_of_json_def user_of_json_def num_prop_def nullish_def organization_world_def
      apply_world setBundle_def)
  have c: "getAccountContextHeaders (w_contexts organization_world) =
      [(ACCOUNT_CONTEXT_TYPE_HEADER, ''organization''), (ACCOUNT_CONTEXT_ID_HEADER, ''7'')]"
    unfolding organization_world_def apply_world by code_simp
  have e: "?env 0 = quiet_env mismatch_response" "?env 1 = quiet_env (login_response 2 ''s2'')" by simp_all
  from mismatch_retry_keeps_account_context [OF e r b, of organization_world] u c show ?thesis by simp
qed

section \<open>auth-session-sync.ts\<close>

record AuthSessionSyncEvent =
  sync_kind_of :: sync_kind
  sync_sid :: string
  sync_source :: string
  sync_nonce :: string
  sync_timestamp :: number

primrec sync_kind_text :: "sync_kind \<Rightarrow> string" where
  "sync_kind_text Authenticated_event = ''authenticated''"
| "sync_kind_text Signed_out_event = ''signed_out''"

text \<open>An event as it travels through the channel.\<close>

definition sync_event_json :: "AuthSessionSyncEvent \<Rightarrow> json" where
  "sync_event_json ev = JObj [(''kind'', JStr (sync_kind_text (sync_kind_of ev))), (''sid'', JStr (sync_sid ev)),
     (''source'', JStr (sync_source ev)), (''nonce'', JStr (sync_nonce ev)), (''timestamp'', JNum (sync_timestamp ev))]"

definition isAuthSessionSyncEvent :: "json \<Rightarrow> bool" where
  "isAuthSessionSyncEvent v \<longleftrightarrow> isRecord v \<and>
     (str_prop v ''kind'' = Some ''authenticated'' \<or> str_prop v ''kind'' = Some ''signed_out'') \<and>
     truthy_string (str_prop v ''sid'') \<and> str_prop v ''source'' \<noteq> None \<and> str_prop v ''nonce'' \<noteq> None \<and>
     num_prop v ''timestamp'' \<noteq> None"

definition sync_event_of_json :: "json \<Rightarrow> AuthSessionSyncEvent" where
  "sync_event_of_json v =
     \<lparr>sync_kind_of = (if str_prop v ''kind'' = Some ''authenticated'' then Authenticated_event else Signed_out_event),
      sync_sid = nullish (str_prop v ''sid'') [], sync_source = nullish (str_prop v ''source'') [],
      sync_nonce = nullish (str_prop v ''nonce'') [], sync_timestamp = nullish (num_prop v ''timestamp'') 0\<rparr>"

text \<open>\<open>deliver\<close>, for a tab with its own \<open>authSyncSource\<close>: the event the listener gets, if any.\<close>

definition deliver_event :: "string \<Rightarrow> number \<Rightarrow> json \<Rightarrow> AuthSessionSyncEvent option" where
  "deliver_event authSyncSource now v =
     (if isAuthSessionSyncEvent v \<and> str_prop v ''source'' \<noteq> Some authSyncSource \<and>
         \<bar>now - nullish (num_prop v ''timestamp'') 0\<bar> < 60000
      then Some (sync_event_of_json v) else None)"

definition sync_event :: "sync_kind \<Rightarrow> string \<Rightarrow> string \<Rightarrow> string \<Rightarrow> number \<Rightarrow> AuthSessionSyncEvent" where
  "sync_event kind sid source nonce now =
     \<lparr>sync_kind_of = kind, sync_sid = sid, sync_source = source, sync_nonce = nonce, sync_timestamp = now\<rparr>"

text \<open>
  Events between tabs.  What one tab publishes reaches a listener of another tab
  unchanged exactly while it is less than a minute old, and is never delivered to the tab
  that published it.
\<close>

theorem sync_event_delivery:
  assumes "sid \<noteq> []"
  shows "deliver_event other now' (sync_event_json (sync_event kind sid source nonce now)) =
    (if other \<noteq> source \<and> \<bar>now' - now\<bar> < 60000 then Some (sync_event kind sid source nonce now) else None)"
  using assms by (cases kind) (auto simp: deliver_event_def sync_event_json_def sync_event_def isAuthSessionSyncEvent_def
    sync_event_of_json_def str_prop_def num_prop_def truthy_string_def nullish_def)

theorem sync_event_delivery_witness:
  "deliver_event ''tab2'' 1500 (sync_event_json (sync_event Signed_out_event ''s1'' ''tab1'' ''n'' 1000)) =
    Some (sync_event Signed_out_event ''s1'' ''tab1'' ''n'' 1000)"
  by (subst sync_event_delivery) simp_all

end
