(* ===== verification/Routing.thy ===== *)
theory Routing
  imports Prelude
begin

text \<open>
  Paths: the deployment prefix of \<open>lib/base-path.ts\<close> and the redirects of
  \<open>lib/legacy-route.ts\<close>.  The \<open>URL\<close> parser belongs to the platform: a location is given by
  its parsed parts, the path, the query parameters in order and the fragment.
\<close>

section \<open>base-path.ts\<close>

definition slash :: "char \<Rightarrow> bool" where
  "slash c \<longleftrightarrow> c = CHR ''/''"

definition normalizeBasePath :: "string option \<Rightarrow> string" where
  "normalizeBasePath raw =
     (case raw of
        None \<Rightarrow> []
      | Some s \<Rightarrow> let trimmed = trim_by slash s in if trimmed = [] then [] else ''/'' @ trimmed)"

definition basePath_of :: "string option \<Rightarrow> string option \<Rightarrow> string" where
  "basePath_of injected compiledBasePath = normalizeBasePath (nullish_opt injected compiledBasePath)"

text \<open>\<open>/^(?:[a-z][a-z0-9+.-]*:|\/\/)/i\<close>\<close>

definition ascii_letter :: "char \<Rightarrow> bool" where
  "ascii_letter c \<longleftrightarrow> (let n = (of_char c :: nat) in (65 \<le> n \<and> n \<le> 90) \<or> (97 \<le> n \<and> n \<le> 122))"

definition scheme_char :: "char \<Rightarrow> bool" where
  "scheme_char c \<longleftrightarrow> ascii_letter c \<or> (48 \<le> (of_char c :: nat) \<and> (of_char c :: nat) \<le> 57) \<or> c \<in> set ''+.-''"

definition absoluteUrl :: "string \<Rightarrow> bool" where
  "absoluteUrl path \<longleftrightarrow>
     prefix ''//'' path \<or>
     (case path of
        c # r \<Rightarrow> ascii_letter c \<and> prefix '':'' (dropWhile scheme_char r)
      | [] \<Rightarrow> False)"

definition withBasePath :: "string \<Rightarrow> string \<Rightarrow> string" where
  "withBasePath basePath path =
     (if basePath = [] \<or> path = [] then path
      else if absoluteUrl path then path
      else basePath @ (if prefix ''/'' path then [] else ''/'') @ path)"

section \<open>legacy-route.ts\<close>

record location =
  loc_pathname :: string
  loc_search :: "(string \<times> string) list"
  loc_hash :: string

definition legacyConsoleRoutes :: "(string \<times> string) list" where
  "legacyConsoleRoutes =
     [(''/console'', ''/dashboard''), (''/console/models'', ''/models''), (''/console/deployment'', ''/models/deployments''),
      (''/console/subscription'', ''/subscriptions''), (''/console/channel'', ''/channels''), (''/console/token'', ''/keys''),
      (''/console/playground'', ''/playground''), (''/console/redemption'', ''/redemption-codes''), (''/console/user'', ''/users''),
      (''/console/personal'', ''/profile''), (''/console/log'', ''/usage-logs''), (''/console/midjourney'', ''/usage-logs/drawing''),
      (''/console/task'', ''/usage-logs/task'')]"

definition legacySettingsTabs :: "(string \<times> string) list" where
  "legacySettingsTabs =
     [(''operation'', ''/system-settings/operations/behavior''), (''dashboard'', ''/system-settings/content/dashboard''),
      (''chats'', ''/system-settings/content/chat''), (''drawing'', ''/system-settings/content/drawing''),
      (''payment'', ''/system-settings/billing/payment''), (''ratio'', ''/system-settings/billing/model-pricing''),
      (''ratelimit'', ''/system-settings/security/rate-limit''), (''models'', ''/system-settings/models/global''),
      (''model-deployment'', ''/system-settings/models/model-deployment''),
      (''performance'', ''/system-settings/operations/performance''), (''system'', ''/system-settings/site/system-info''),
      (''other'', ''/system-settings/site/system-info'')]"

definition normalizeLegacyPath :: "string \<Rightarrow> string" where
  "normalizeLegacyPath pathname = (if pathname = ''/'' then pathname else rev (dropWhile slash (rev pathname)))"

text \<open>\<open>target\<close> has no query of its own, so the parameters of the source are all there are.\<close>

definition buildTargetHref :: "string \<Rightarrow> location \<Rightarrow> location" where
  "buildTargetHref targetPath source =
     \<lparr>loc_pathname = targetPath, loc_search = loc_search source, loc_hash = loc_hash source\<rparr>"

text \<open>\<open>None\<close> is a text the \<open>URL\<close> constructor rejects.\<close>

definition resolveLegacyRoute :: "location option \<Rightarrow> location option" where
  "resolveLegacyRoute href =
     (case href of
        None \<Rightarrow> None
      | Some source \<Rightarrow>
          let pathname = normalizeLegacyPath (loc_pathname source)
          in if pathname = ''/login'' then Some (buildTargetHref ''/sign-in'' source)
             else if pathname = ''/forbidden'' then Some (buildTargetHref ''/403'' source)
             else if pathname = ''/console/topup'' then Some (buildTargetHref ''/wallet'' source)
             else if pathname = ''/console/setting'' then
               (let tab = nullish (map_of (loc_search source) ''tab'') []
                in Some (buildTargetHref (nullish (map_of legacySettingsTabs tab) ''/system-settings'') source))
             else if pathname = ''/console/chat'' then Some (buildTargetHref ''/dashboard'' source)
             else if prefix ''/console/chat/'' pathname then
               (let chatID = drop (length ''/console/chat/'') pathname
                in Some (buildTargetHref (if chatID \<noteq> [] then ''/chat/'' @ chatID else ''/dashboard'') source))
             else case map_of legacyConsoleRoutes pathname of
               Some target \<Rightarrow> Some (buildTargetHref target source)
             | None \<Rightarrow>
                 if prefix ''/console/'' pathname then Some (buildTargetHref ''/dashboard'' source) else None)"

section \<open>Properties\<close>

lemma trim_by_ends:
  assumes "trim_by sp s \<noteq> []"
  shows "\<not> sp (hd (trim_by sp s))" "\<not> sp (last (trim_by sp s))"
proof -
  let ?t = "dropWhile sp s"
  let ?r = "dropWhile sp (rev ?t)"
  have r: "?r \<noteq> []" using assms by (simp add: trim_by_def)
  then show "\<not> sp (last (trim_by sp s))" by (simp add: trim_by_def last_rev hd_dropWhile)
  have "rev ?t = takeWhile sp (rev ?t) @ ?r" by simp
  then have "?t = rev ?r @ rev (takeWhile sp (rev ?t))" by (metis rev_append rev_rev_ident)
  then have "hd ?t = hd (rev ?r)" using r by (metis hd_append2 rev_is_Nil_conv)
  moreover have "?t \<noteq> []" using r by (metis dropWhile.simps(1) rev.simps(1))
  ultimately show "\<not> sp (hd (trim_by sp s))" by (metis hd_dropWhile trim_by_def)
qed

definition canonical_base :: "string \<Rightarrow> bool" where
  "canonical_base b \<longleftrightarrow> b = [] \<or> (\<exists>c r. b = CHR ''/'' # c # r \<and> \<not> slash c \<and> \<not> slash (last (c # r)))"

lemma normalize_canonical: "canonical_base (normalizeBasePath raw)"
proof (cases raw)
  case (Some s)
  show ?thesis
  proof (cases "trim_by slash s")
    case (Cons c r)
    with trim_by_ends [of slash s] show ?thesis by (auto simp: normalizeBasePath_def Some Let_def canonical_base_def)
  qed (simp add: normalizeBasePath_def Some canonical_base_def)
qed (simp add: normalizeBasePath_def canonical_base_def)

lemma canonical_fixed:
  assumes "canonical_base b"
  shows "normalizeBasePath (Some b) = b"
proof (cases "b = []")
  case False
  then obtain c r where b: "b = CHR ''/'' # c # r" "\<not> slash c" "\<not> slash (last (c # r))"
    using assms by (auto simp: canonical_base_def)
  have "trim_by slash b = c # r"
    using b(2,3) trim_by_id [of "c # r" slash] by (simp add: b(1) trim_by_def slash_def)
  then show ?thesis by (simp add: normalizeBasePath_def b(1))
qed (simp add: normalizeBasePath_def)

text \<open>
  The deployment prefix.  Whatever prefix is injected or compiled in, it is reduced to
  the empty text or to one leading slash without a trailing one, a value of that form is
  kept, an injected prefix wins over the compiled one, and an app path is put behind the
  prefix with exactly one slash between them while absolute URLs are left alone.
\<close>

theorem base_path_canonical:
  "canonical_base (basePath_of injected compiled) \<and>
   normalizeBasePath (Some (basePath_of injected compiled)) = basePath_of injected compiled \<and>
   basePath_of (Some served) compiled = normalizeBasePath (Some served) \<and>
   withBasePath (basePath_of injected compiled) (''/api'' @ r) = basePath_of injected compiled @ ''/api'' @ r \<and>
   withBasePath (basePath_of injected compiled) (''https:'' @ r) = ''https:'' @ r"
proof -
  have "\<not> absoluteUrl (''/api'' @ r)" by (simp add: absoluteUrl_def ascii_letter_def)
  moreover have "absoluteUrl (''https:'' @ r)" by (simp add: absoluteUrl_def ascii_letter_def scheme_char_def)
  ultimately show ?thesis
    using normalize_canonical canonical_fixed
    by (auto simp: basePath_of_def withBasePath_def nullish_opt_def)
qed

definition legacy_targets :: "string list" where
  "legacy_targets = [''/sign-in'', ''/403'', ''/wallet'', ''/dashboard'', ''/system-settings''] @
     map snd legacyConsoleRoutes @ map snd legacySettingsTabs"

lemma target_not_legacy:
  assumes "t \<in> set legacy_targets"
  shows "resolveLegacyRoute (Some (buildTargetHref t source)) = None"
proof -
  have "list_all (\<lambda>t. \<not> prefix ''/console'' (normalizeLegacyPath t) \<and> normalizeLegacyPath t \<noteq> ''/login'' \<and>
      normalizeLegacyPath t \<noteq> ''/forbidden'') legacy_targets"
    by code_simp
  with assms have t: "\<not> prefix ''/console'' (normalizeLegacyPath t)" "normalizeLegacyPath t \<noteq> ''/login''"
    "normalizeLegacyPath t \<noteq> ''/forbidden''" by (auto simp: list_all_iff)
  have m: "map_of legacyConsoleRoutes (normalizeLegacyPath t) = None"
    using t(1) by (auto simp: legacyConsoleRoutes_def)
  show ?thesis using t m by (auto simp: resolveLegacyRoute_def buildTargetHref_def Let_def prefix_def)
qed

lemma normalize_prefix: "prefix (normalizeLegacyPath p) p"
proof -
  have "suffix (dropWhile slash (rev p)) (rev p)" by (rule suffix_dropWhile)
  then have "prefix (rev (dropWhile slash (rev p))) p" by (simp add: suffix_to_prefix)
  then show ?thesis by (simp add: normalizeLegacyPath_def)
qed

lemma chat_not_legacy: "resolveLegacyRoute (Some (buildTargetHref (''/chat/'' @ cid) source)) = None"
proof -
  have p: "prefix (normalizeLegacyPath (''/chat/'' @ cid)) (''/chat/'' @ cid)" by (rule normalize_prefix)
  have "\<not> prefix ''/console'' (normalizeLegacyPath (''/chat/'' @ cid))"
  proof
    assume "prefix ''/console'' (normalizeLegacyPath (''/chat/'' @ cid))"
    with p have "prefix ''/console'' (''/chat/'' @ cid)" by (meson prefix_order.trans)
    then show False by simp
  qed
  moreover from p have "normalizeLegacyPath (''/chat/'' @ cid) \<noteq> ''/login''" "normalizeLegacyPath (''/chat/'' @ cid) \<noteq> ''/forbidden''"
    by auto
  moreover from calculation(1) have "map_of legacyConsoleRoutes (normalizeLegacyPath (''/chat/'' @ cid)) = None"
    by (auto simp: legacyConsoleRoutes_def)
  ultimately show ?thesis
    by (auto simp: resolveLegacyRoute_def buildTargetHref_def Let_def prefix_def)
qed

lemma settings_target: "nullish (map_of legacySettingsTabs tab) ''/system-settings'' \<in> set legacy_targets"
proof (cases "map_of legacySettingsTabs tab")
  case (Some t)
  then have "t \<in> set (map snd legacySettingsTabs)" by (force dest: map_of_SomeD)
  then show ?thesis by (simp add: Some nullish_def legacy_targets_def)
qed (simp add: nullish_def legacy_targets_def)

lemma console_target: "map_of legacyConsoleRoutes p = Some t \<Longrightarrow> t \<in> set legacy_targets"
  by (force simp: legacy_targets_def dest: map_of_SomeD)

lemma resolve_target:
  assumes "resolveLegacyRoute (Some source) = Some t"
  obtains p where "t = buildTargetHref p source" "p \<in> set legacy_targets \<or> (\<exists>cid. p = ''/chat/'' @ cid)"
proof -
  have fixed: "''/sign-in'' \<in> set legacy_targets" "''/403'' \<in> set legacy_targets" "''/wallet'' \<in> set legacy_targets"
    "''/dashboard'' \<in> set legacy_targets" by (simp_all add: legacy_targets_def)
  show ?thesis
    by (rule that [of "loc_pathname t"])
      (use assms fixed settings_target console_target in
        \<open>auto simp: resolveLegacyRoute_def Let_def buildTargetHref_def split: if_splits option.splits\<close>)
qed

text \<open>
  Legacy links.  A redirect keeps the query and the fragment and leads to a page that
  is not redirected again, so following it ends; and every link below \<open>/console\<close> is
  redirected somewhere, only other paths are left alone.
\<close>

theorem legacy_redirect_ends:
  "case resolveLegacyRoute (Some source) of
     Some t \<Rightarrow> loc_search t = loc_search source \<and> loc_hash t = loc_hash source \<and> resolveLegacyRoute (Some t) = None
   | None \<Rightarrow> \<not> prefix ''/console/'' (normalizeLegacyPath (loc_pathname source)) \<and>
       normalizeLegacyPath (loc_pathname source) \<notin> {''/console'', ''/login'', ''/forbidden''}"
proof (cases "resolveLegacyRoute (Some source)")
  case None
  then show ?thesis
    by (auto simp: resolveLegacyRoute_def Let_def legacyConsoleRoutes_def split: if_splits option.splits)
next
  case (Some t)
  then obtain p where p: "t = buildTargetHref p source" "p \<in> set legacy_targets \<or> (\<exists>cid. p = ''/chat/'' @ cid)"
    by (rule resolve_target)
  then have "resolveLegacyRoute (Some t) = None" using target_not_legacy chat_not_legacy by auto
  with Some p(1) show ?thesis by (simp add: buildTargetHref_def)
qed

end
