(* ===== verification/Http_Client.thy ===== *)
theory Http_Client
  imports Auth_Session Routing
begin

text \<open>
  The HTTP client of \<open>lib/http-client.ts\<close> with the error codes of
  \<open>lib/server-error-message.ts\<close>: the headers every request gets, the deduplication of GET
  requests in flight, and the interceptor that refreshes the session on a 401 and sends the
  request once more.  axios itself is the environment: \<open>server k\<close> is its answer to the k-th
  request, a response body or an error object.  \<open>t\<close>, the translation, is left out of the
  toasts: a text the server error table knows is named by its code.
\<close>

section \<open>server-error-message.ts\<close>

definition serverErrorMessageKeys :: "string list" where
  "serverErrorMessageKeys =
     [''AUTH_SESSION_LIMIT'', ''AUTH_SESSION_ISSUANCE_LIMIT'', ''TELEGRAM_BIND_DISABLED'', ''TELEGRAM_BIND_INVALID_REQUEST'',
      ''TELEGRAM_BIND_FLOW_INVALID'', ''TELEGRAM_BIND_SESSION_INVALID'', ''TELEGRAM_BIND_ALREADY_BOUND'',
      ''TELEGRAM_BIND_USER_DELETED'', ''TELEGRAM_BIND_USER_DISABLED'', ''TELEGRAM_BIND_INTERNAL_ERROR'',
      ''organization_context_mismatch'', ''organization_access_denied'', ''organization_disabled'', ''organization_dissolved'',
      ''organization_limit_exceeded'', ''organization_name_conflict'', ''insufficient_organization_quota'',
      ''insufficient_organization_member_quota'', ''organization_idempotency_conflict'',
      ''organization_idempotency_key_required'', ''organization_confirmation_mismatch'',
      ''organization_billing_session_conflict'', ''organization_member_operation_forbidden'',
      ''organization_operation_blocked'', ''organization_invite_unavailable'', ''organization_invite_delivery_failed'',
      ''organization_invite_delivery_in_progress'', ''organization_invite_recipient_rejected'',
      ''organization_invite_already_sent'', ''organization_join_rule_invalid'',
      ''organization_join_rule_email_verification_disabled'', ''organization_token_responsible_member_disabled'',
      ''organization_token_responsible_user_disabled'', ''organization_token_enable_forbidden'']"

definition serverErrorPayload :: "json \<Rightarrow> json option" where
  "serverErrorPayload value =
     (if \<not> isRecord value then None
      else case prop_of value ''response'' of
        Some response \<Rightarrow>
          (case prop_of response ''data'' of
             Some data \<Rightarrow> if isRecord response \<and> isRecord data then Some data else Some value
           | None \<Rightarrow> Some value)
      | None \<Rightarrow> Some value)"

definition getServerErrorMessageKey :: "json \<Rightarrow> string option" where
  "getServerErrorMessageKey value =
     (case Option.bind (serverErrorPayload value) (\<lambda>payload. str_prop payload ''code'') of
        Some code \<Rightarrow> if code \<in> set serverErrorMessageKeys then Some code else None
      | None \<Rightarrow> None)"

definition getServerErrorCode :: "json \<Rightarrow> string option" where
  "getServerErrorCode value =
     (let code = Option.bind (serverErrorPayload value) (\<lambda>payload. str_prop payload ''code'')
      in if truthy_string code then code else None)"

section \<open>Requests\<close>

record ApiRequestConfig =
  rc_url :: string
  rc_params :: "json option"
  rc_headers :: "(string \<times> string) list"
  rc_skipBusinessError :: bool
  rc_skipErrorHandler :: bool
  rc_disableDuplicate :: bool
  rc_skipAuthRefresh :: bool
  rc_authRetry :: bool
  rc_acceptAuthRotation :: bool
  rc_skipAccountContext :: bool

datatype toast = ServerErrorToast string | MessageToast json | RequestFailedToast | SessionExpiredToast

record http =
  hs_world :: world
  hs_pathname :: string
  hs_redirects :: "string list"
  hs_toasts :: "toast list"
  hs_sent :: "(ApiRequestConfig \<times> (string \<times> string) list) list"
  hs_inflight :: "(string \<times> nat) list"
  hs_next :: nat

definition isPlatformAdminRequest :: "string \<Rightarrow> bool" where
  "isPlatformAdminRequest url \<longleftrightarrow> prefix ''/api/admin'' url"

definition set_header :: "string \<Rightarrow> string \<Rightarrow> (string \<times> string) list \<Rightarrow> (string \<times> string) list" where
  "set_header name value headers =
     (if name \<in> fst ` set headers then map (\<lambda>(n, v). if n = name then (n, value) else (n, v)) headers
      else headers @ [(name, value)])"

text \<open>The request interceptor: the headers a request leaves with.\<close>

definition request_headers :: "world \<Rightarrow> ApiRequestConfig \<Rightarrow> (string \<times> string) list" where
  "request_headers w config =
     (let accessToken = auth_accessToken (w_auth w);
          headers = (if truthy_string accessToken
                     then set_header ''Authorization'' (''Bearer '' @ the accessToken) (rc_headers config)
                     else rc_headers config)
      in if \<not> rc_skipAccountContext config \<and> \<not> isPlatformAdminRequest (rc_url config)
         then foldl (\<lambda>hs (name, value). set_header name value hs) headers (getAccountContextHeaders (w_contexts w))
         else headers)"

text \<open>The config an error carries: the interceptor wrote the headers into it.\<close>

definition sent_config :: "world \<Rightarrow> ApiRequestConfig \<Rightarrow> ApiRequestConfig" where
  "sent_config w config = config\<lparr>rc_headers := request_headers w config\<rparr>"

definition send_http :: "ApiRequestConfig \<Rightarrow> http \<Rightarrow> http" where
  "send_http config h = h\<lparr>hs_sent := hs_sent h @ [(config, request_headers (hs_world h) config)], hs_next := hs_next h + 1\<rparr>"

section \<open>Deduplication\<close>

text \<open>The key of a GET; \<open>stringify\<close> is \<open>JSON.stringify\<close>.\<close>

definition get_key :: "(json \<Rightarrow> string) \<Rightarrow> world \<Rightarrow> ApiRequestConfig \<Rightarrow> string" where
  "get_key stringify w config =
     (let params = (case rc_params config of Some p \<Rightarrow> if json_truthy p then stringify p else ''{}'' | None \<Rightarrow> ''{}'');
          sessionSID = or_string (current_sid w) ''anonymous''
      in sessionSID @ '':'' @ getAccountContextCacheKey (w_contexts w) @ '':'' @ rc_url config @ ''?'' @ params)"



section \<open>Responses and errors\<close>

definition redirectToSignIn :: "string \<Rightarrow> http \<Rightarrow> http" where
  "redirectToSignIn basePath h =
     (let signInPath = withBasePath basePath ''/sign-in''
      in if hs_pathname h \<noteq> signInPath then h\<lparr>hs_redirects := hs_redirects h @ [signInPath]\<rparr> else h)"

definition add_toast :: "toast \<Rightarrow> http \<Rightarrow> http" where
  "add_toast m h = h\<lparr>hs_toasts := hs_toasts h @ [m]\<rparr>"

definition message_toast :: "json option \<Rightarrow> toast" where
  "message_toast m = (case m of Some v \<Rightarrow> if json_truthy v then MessageToast v else RequestFailedToast | None \<Rightarrow> RequestFailedToast)"

text \<open>The success interceptor; a rejected rotation is thrown.\<close>

definition on_response :: "ApiRequestConfig \<Rightarrow> json \<Rightarrow> http \<Rightarrow> AuthRotationError option \<times> http" where
  "on_response config data h =
     (let (err, w) = (if rc_acceptAuthRotation config \<and> bool_prop data ''success'' = Some True
                      then applyAuthRotation (nullish (prop_of data ''data'') JNull) (hs_world h)
                      else (None, hs_world h));
          h = h\<lparr>hs_world := w\<rparr>
      in if err \<noteq> None then (err, h)
         else if \<not> rc_skipBusinessError config \<and> bool_prop data ''success'' = Some False
         then (None, add_toast (case getServerErrorMessageKey data of
                Some code \<Rightarrow> ServerErrorToast code | None \<Rightarrow> message_toast (prop_of data ''message'')) h)
         else (None, h))"

definition error_status :: "json \<Rightarrow> number option" where
  "error_status error = Option.bind (prop_of error ''response'') (\<lambda>r. num_prop r ''status'')"

text \<open>The error interceptor on a 401: \<open>Inr\<close> is the config of the retry, \<open>Inl\<close> the error thrown.\<close>

definition on_unauthorized ::
    "string \<Rightarrow> session_op list \<Rightarrow> (nat \<Rightarrow> refresh_env) \<Rightarrow> ApiRequestConfig \<Rightarrow> json \<Rightarrow> http \<Rightarrow> (json + ApiRequestConfig) \<times> http" where
  "on_unauthorized basePath queued env config error h =
     (if \<not> rc_skipAuthRefresh config \<and> \<not> rc_authRetry config then
        let config = config\<lparr>rc_authRetry := True\<rparr>;
            (outcome, w) = refreshAuthentication queued env (hs_world h);
            h = h\<lparr>hs_world := w\<rparr>
        in (case outcome of
              Authenticated _ \<Rightarrow>
                let token = auth_accessToken (w_auth w)
                in (Inr (if truthy_string token
                         then config\<lparr>rc_headers := set_header ''Authorization'' (''Bearer '' @ the token) (rc_headers config)\<rparr>
                         else config), h)
            | TransientError _ \<Rightarrow> (Inl error, h)
            | _ \<Rightarrow> (Inl error, redirectToSignIn basePath
                     (if rc_skipErrorHandler config then h else add_toast SessionExpiredToast h)))
      else if rc_authRetry config then
        let h = h\<lparr>hs_world := clearAuthentication False BootComplete (hs_world h)\<rparr>
        in (Inl error, redirectToSignIn basePath
             (if rc_skipErrorHandler config then h else add_toast SessionExpiredToast h))
      else (Inl error, if rc_skipErrorHandler config then h else add_toast SessionExpiredToast h))"

definition on_other_error :: "ApiRequestConfig \<Rightarrow> json \<Rightarrow> http \<Rightarrow> http" where
  "on_other_error config error h =
     (if rc_skipErrorHandler config then h
      else
        let h = (if getServerErrorCode error = Some ''organization_context_mismatch''
                 then h\<lparr>hs_world := (hs_world h)\<lparr>w_contexts := setCurrent None (w_contexts (hs_world h))\<rparr>\<rparr> else h)
        in add_toast (case getServerErrorMessageKey error of
             Some code \<Rightarrow> ServerErrorToast code
           | None \<Rightarrow>
               (let m = Option.bind (Option.bind (prop_of error ''response'') (\<lambda>r. prop_of r ''data'')) (\<lambda>d. prop_of d ''message'')
                in case message_toast m of RequestFailedToast \<Rightarrow> message_toast (prop_of error ''message'') | m \<Rightarrow> m)) h)"

definition on_http_error ::
    "string \<Rightarrow> session_op list \<Rightarrow> (nat \<Rightarrow> refresh_env) \<Rightarrow> ApiRequestConfig \<Rightarrow> json \<Rightarrow> http \<Rightarrow> (json + ApiRequestConfig) \<times> http" where
  "on_http_error basePath queued env config error h =
     (if error_status error = Some 401 then on_unauthorized basePath queued env config error h
      else (Inl error, on_other_error config error h))"

text \<open>
  A whole request: sent, answered, and sent again if the error interceptor says so.
  \<open>refresh k\<close> is the environment of the refresh the k-th answer may cause: what runs while
  it waits for the lock, and its requests.  Nothing but the interceptor stops the repetition; a
  request that is repeated forever is \<open>None\<close>.
\<close>

datatype http_failure = Rejected json | RotationFailed AuthRotationError

partial_function (option) api_request ::
    "string \<Rightarrow> (nat \<Rightarrow> json + json) \<Rightarrow> (nat \<Rightarrow> session_op list \<times> (nat \<Rightarrow> refresh_env)) \<Rightarrow> nat \<Rightarrow> ApiRequestConfig \<Rightarrow> http \<Rightarrow>
     ((http_failure + json) \<times> http) option" where
  "api_request basePath server refresh k config h =
     (case server k of
        Inr data \<Rightarrow>
          (case on_response config data (send_http config h) of
             (e, h') \<Rightarrow> (case e of None \<Rightarrow> Some (Inr data, h') | Some e \<Rightarrow> Some (Inl (RotationFailed e), h')))
      | Inl error \<Rightarrow>
          (case on_http_error basePath (fst (refresh k)) (snd (refresh k)) (sent_config (hs_world h) config) error (send_http config h) of
             (r, h') \<Rightarrow> (case r of
                Inr retry \<Rightarrow> api_request basePath server refresh (k + 1) retry h'
              | Inl e \<Rightarrow> Some (Inl (Rejected e), h'))))"

section \<open>One retry\<close>

lemma retry_marked:
  assumes "on_http_error basePath queued env config error h = (Inr retry, h')"
  shows "rc_authRetry retry" "\<not> rc_authRetry config" "\<not> rc_skipAuthRefresh config" "rc_url retry = rc_url config"
  using assms by (auto simp: on_http_error_def on_unauthorized_def Let_def split: if_splits prod.splits RefreshOutcome.splits)

lemma error_keeps_sent:
  assumes "on_http_error basePath queued env config error h = (r, h')"
  shows "hs_sent h' = hs_sent h"
  using assms by (auto simp: on_http_error_def on_unauthorized_def on_other_error_def redirectToSignIn_def add_toast_def Let_def
    split: prod.splits RefreshOutcome.splits if_splits)

lemma response_keeps_sent:
  assumes "on_response config data h = (e, h')"
  shows "hs_sent h' = hs_sent h"
  using assms by (auto simp: on_response_def add_toast_def Let_def split: prod.splits if_splits)

lemma sent_config_flags [simp]:
  "rc_authRetry (sent_config w config) = rc_authRetry config" "rc_url (sent_config w config) = rc_url config"
  "rc_skipAuthRefresh (sent_config w config) = rc_skipAuthRefresh config"
  "rc_skipAccountContext (sent_config w config) = rc_skipAccountContext config"
  by (simp_all add: sent_config_def)

lemma send_world [simp]: "hs_world (send_http config h) = hs_world h"
  by (simp add: send_http_def)


text \<open>One round of a request: it ends, or a marked retry of a 401 follows.\<close>

lemma unauthorized_only:
  assumes "on_http_error basePath queued env config error h = (Inr retry, h')"
  shows "error_status error = Some 401"
  using assms by (simp add: on_http_error_def split: if_splits)

lemma api_request_round:
  obtains (ended) r h' where "hs_sent h' = hs_sent (send_http config h)" "api_request basePath server refresh k config h = Some (r, h')"
  | (retried) retry h' error where "hs_sent h' = hs_sent (send_http config h)" "rc_authRetry retry" "\<not> rc_authRetry config"
      "\<not> rc_skipAuthRefresh config" "server k = Inl error" "error_status error = Some 401"
      "api_request basePath server refresh k config h = api_request basePath server refresh (k + 1) retry h'"
proof (cases "server k")
  case (Inr data)
  obtain e h' where r: "on_response config data (send_http config h) = (e, h')" by fastforce
  show ?thesis
    by (rule ended [OF response_keeps_sent [OF r], of "case e of None \<Rightarrow> Inr data | Some e \<Rightarrow> Inl (RotationFailed e)"])
      (subst api_request.simps, simp add: Inr r split: option.split)
next
  case (Inl error)
  obtain r h' where r: "on_http_error basePath (fst (refresh k)) (snd (refresh k)) (sent_config (hs_world h) config) error (send_http config h) = (r, h')" by fastforce
  show ?thesis
  proof (cases r)
    case (Inr retry)
    note m = retry_marked [OF r [unfolded Inr], simplified] and u = unauthorized_only [OF r [unfolded Inr]]
    show ?thesis
      by (rule retried [OF error_keeps_sent [OF r] m(1-3) Inl u]) (subst api_request.simps, simp add: Inl r Inr)
  next
    case e: (Inl e)
    show ?thesis
      by (rule ended [OF error_keeps_sent [OF r], of "Inl (Rejected e)"]) (subst api_request.simps, simp add: Inl r e)
  qed
qed

section \<open>Keys\<close>







section \<open>Requests in flight\<close>







definition plain_config :: "string \<Rightarrow> ApiRequestConfig" where
  "plain_config url = \<lparr>rc_url = url, rc_params = None, rc_headers = [], rc_skipBusinessError = False,
     rc_skipErrorHandler = False, rc_disableDuplicate = False, rc_skipAuthRefresh = False, rc_authRetry = False,
     rc_acceptAuthRotation = False, rc_skipAccountContext = False\<rparr>"

definition idle_http :: "world \<Rightarrow> http" where
  "idle_http w = \<lparr>hs_world = w, hs_pathname = ''/'', hs_redirects = [], hs_toasts = [], hs_sent = [], hs_inflight = [], hs_next = 0\<rparr>"


text \<open>
  Deduplication does not look at the request's options.  A GET that opts out of the
  account context and one that does not have the same key, so in an organization the second
  is answered by the first although it would have carried other headers.
\<close>

theorem shared_get_ignores_context_option:
  "get_key stringify w (plain_config url) = get_key stringify w ((plain_config url)\<lparr>rc_skipAccountContext := True\<rparr>) \<and>
   (\<exists>w url. request_headers w (plain_config url) \<noteq> request_headers w ((plain_config url)\<lparr>rc_skipAccountContext := True\<rparr>))"
proof
  show "get_key stringify w (plain_config url) = get_key stringify w ((plain_config url)\<lparr>rc_skipAccountContext := True\<rparr>)"
    by (simp add: get_key_def plain_config_def)
  have "request_headers organization_world (plain_config ''/api/usage'') \<noteq>
      request_headers organization_world ((plain_config ''/api/usage'')\<lparr>rc_skipAccountContext := True\<rparr>)"
    unfolding organization_world_def applyAuthBundle_def by code_simp
  then show "\<exists>w url. request_headers w (plain_config url) \<noteq> request_headers w ((plain_config url)\<lparr>rc_skipAccountContext := True\<rparr>)"
    by blast
qed

text \<open>
  C39: a request ends, and is sent at most twice.  Whatever the server answers and the refresh
  does, the call returns; it was sent once, and a second time only when the first answer was a
  401, the request allows a refresh and is not a retry itself, and then marked as a retry, so
  that a retry is never repeated.
\<close>

theorem request_retried_once:
  "\<exists>r h' extra. api_request basePath server refresh k config h = Some (r, h') \<and>
     hs_sent h' = hs_sent h @ (config, request_headers (hs_world h) config) # extra \<and> length extra \<le> 1 \<and>
     (extra \<noteq> [] \<longrightarrow> \<not> rc_authRetry config \<and> \<not> rc_skipAuthRefresh config \<and> rc_authRetry (fst (hd extra)) \<and>
        (\<exists>error. server k = Inl error \<and> error_status error = Some 401))"
proof (cases rule: api_request_round [of config h basePath server refresh k])
  case (ended r h')
  then show ?thesis by (auto simp: send_http_def)
next
  case first: (retried retry h1 error)
  show ?thesis
  proof (cases rule: api_request_round [of retry h1 basePath server refresh "k + 1"])
    case (ended r h')
    have "hs_sent h' = hs_sent h @ (config, request_headers (hs_world h) config) # [(retry, request_headers (hs_world h1) retry)]"
      using ended(1) first(1) by (simp add: send_http_def)
    with first ended(2) show ?thesis by fastforce
  qed (use first(2) in simp)
qed

text \<open>
  A retry that is refused ends the session.  When the request fails with a 401 although
  the session was refreshed just before, the stores hold no login and no account context
  afterwards, and the page goes to the sign-in form of the deployment unless it is there.
\<close>

theorem refused_retry_signs_out:
  assumes "rc_authRetry config" and "error_status error = Some 401"
    and "on_http_error basePath queued env config error h = (r, h')"
  shows "r = Inl error \<and> signed_out (hs_world h') \<and>
    hs_redirects h' = hs_redirects h @
      (if hs_pathname h = withBasePath basePath ''/sign-in'' then [] else [withBasePath basePath ''/sign-in''])"
  using assms clear_signed_out [of False "hs_world h"]
  by (auto simp: on_http_error_def on_unauthorized_def redirectToSignIn_def add_toast_def Let_def)

definition unauthorized_error :: json where
  "unauthorized_error = JObj [(''response'', JObj [(''status'', JNum 401)])]"

text \<open>A server that always answers 401, against an ordinary request and a retry.\<close>

theorem request_retried_once_witness:
  "(\<exists>r h'. api_request [] (\<lambda>_. Inl unauthorized_error) (\<lambda>_. ([], \<lambda>_. quiet_env (login_response 1 ''s1''))) 0
      (plain_config ''/api/usage'') (idle_http organization_world) = Some (r, h') \<and> length (hs_sent h') \<le> 2) \<and>
   (\<exists>r h'. api_request [] (\<lambda>_. Inl unauthorized_error) (\<lambda>_. ([], \<lambda>_. quiet_env (login_response 1 ''s1''))) 0
      ((plain_config ''/api/usage'')\<lparr>rc_authRetry := True\<rparr>) (idle_http organization_world) = Some (r, h') \<and> length (hs_sent h') = 1)"
proof -
  have "hs_sent (idle_http organization_world) = []" by (simp add: idle_http_def)
  then show ?thesis
    using request_retried_once [of "[]" "\<lambda>_. Inl unauthorized_error" "\<lambda>_. ([], \<lambda>_. quiet_env (login_response 1 ''s1''))" 0
        "plain_config ''/api/usage''" "idle_http organization_world"]
      request_retried_once [of "[]" "\<lambda>_. Inl unauthorized_error" "\<lambda>_. ([], \<lambda>_. quiet_env (login_response 1 ''s1''))" 0
        "(plain_config ''/api/usage'')\<lparr>rc_authRetry := True\<rparr>" "idle_http organization_world"]
    by fastforce
qed

theorem refused_retry_signs_out_witness:
  "signed_out (hs_world (snd (on_http_error ''/cuberouter'' [] (\<lambda>_. quiet_env unauthorized)
      ((plain_config ''/api/usage'')\<lparr>rc_authRetry := True\<rparr>) unauthorized_error (idle_http organization_world)))) \<and>
   hs_redirects (snd (on_http_error ''/cuberouter'' [] (\<lambda>_. quiet_env unauthorized)
      ((plain_config ''/api/usage'')\<lparr>rc_authRetry := True\<rparr>) unauthorized_error (idle_http organization_world))) =
     [''/cuberouter/sign-in'']"
proof -
  have a: "rc_authRetry ((plain_config ''/api/usage'')\<lparr>rc_authRetry := True\<rparr>)" by simp
  have b: "error_status unauthorized_error = Some 401"
    by (simp add: error_status_def unauthorized_error_def num_prop_def)
  have p: "withBasePath ''/cuberouter'' ''/sign-in'' = ''/cuberouter/sign-in''" by code_simp
  from refused_retry_signs_out [OF a b surjective_pairing, of "''/cuberouter''" "[]" "\<lambda>_. quiet_env unauthorized" "idle_http organization_world"] p
  show ?thesis by (simp add: idle_http_def)
qed

section \<open>Headers of a retry\<close>

lemma map_of_set_header: "map_of (set_header name value headers) = (map_of headers)(name \<mapsto> value)"
proof -
  have "map_of (map (\<lambda>(n, v). if n = name then (n, value) else (n, v)) hs) m =
      (if m = name then if map_of hs name = None then None else Some value else map_of hs m)" for hs m
    by (induction hs) auto
  moreover have "name \<in> fst ` set headers \<longleftrightarrow> map_of headers name \<noteq> None"
    by (metis map_of_eq_None_iff)
  ultimately show ?thesis by (auto simp: set_header_def map_add_def fun_eq_iff split: option.split)
qed

text \<open>
  A retry keeps the account context of its first attempt.  The failed attempt's headers
  stay in the config that is sent again and the request interceptor only adds headers, so a
  request that is retried when the user is back in the personal context still names the
  organization it was first sent for.
\<close>

theorem retry_keeps_context_headers:
  assumes "on_http_error basePath queued env (sent_config w config) error h = (Inr retry, h')"
    and "getAccountContextHeaders (w_contexts (hs_world h')) = []"
  shows "map_of (request_headers (hs_world h') retry) ACCOUNT_CONTEXT_ID_HEADER =
    map_of (request_headers w config) ACCOUNT_CONTEXT_ID_HEADER"
proof -
  have ne: "ACCOUNT_CONTEXT_ID_HEADER \<noteq> ''Authorization''" by (simp add: ACCOUNT_CONTEXT_ID_HEADER_def)
  from assms(1) have "map_of (rc_headers retry) ACCOUNT_CONTEXT_ID_HEADER = map_of (request_headers w config) ACCOUNT_CONTEXT_ID_HEADER"
    using ne by (auto simp: on_http_error_def on_unauthorized_def sent_config_def Let_def map_of_set_header
      split: if_splits prod.splits RefreshOutcome.splits)
  with assms(2) ne show ?thesis by (simp add: request_headers_def Let_def map_of_set_header)
qed

definition retried_usage :: "(json + ApiRequestConfig) \<times> http" where
  "retried_usage = on_http_error [] [OpContexts initial_contexts] (\<lambda>_. quiet_env (login_response 1 ''s1''))
     (sent_config organization_world (plain_config ''/api/usage'')) unauthorized_error (idle_http organization_world)"

theorem retry_keeps_context_headers_witness:
  "\<exists>retry h'. retried_usage = (Inr retry, h') \<and> current_organization (w_contexts (hs_world h')) = None \<and>
     map_of (request_headers (hs_world h') retry) ACCOUNT_CONTEXT_ID_HEADER = Some ''7''"
proof -
  have e: "case retried_usage of (Inr _, h') \<Rightarrow> current_organization (w_contexts (hs_world h')) = None | _ \<Rightarrow> False"
    by code_simp
  then obtain retry h' where r: "retried_usage = (Inr retry, h')" "current_organization (w_contexts (hs_world h')) = None"
    by (auto split: prod.splits sum.splits)
  have "map_of (request_headers organization_world (plain_config ''/api/usage'')) ACCOUNT_CONTEXT_ID_HEADER = Some ''7''"
    by code_simp
  moreover have "getAccountContextHeaders (w_contexts (hs_world h')) = []"
    using r(2) by (simp add: getAccountContextHeaders_def)
  ultimately show ?thesis using r retry_keeps_context_headers [OF r(1) [unfolded retried_usage_def]] by auto
qed

end
