(* ===== verification/Access_Rules.thy ===== *)
theory Access_Rules
  imports Auth_Session Js_Text
begin

text \<open>
  What a user may see and do: the roles of \<open>lib/roles.ts\<close> and \<open>lib/role-guards.ts\<close>, the
  permission matrix of \<open>lib/admin-permissions.ts\<close>, and the navigation modules of
  \<open>lib/nav-modules.ts\<close>, which an administrator stores as a JSON text in the server status.

  A permission matrix, a record of records, is a map of maps.  The navigation modules are a
  JavaScript object with known and unknown keys, read by key only and never enumerated: a
  map.  The stored settings, whose entries are enumerated, are a JSON object.  \<open>parse\<close> and \<open>stringify\<close> are those of JSON, \<open>show_number\<close> is \<open>String\<close> on numbers.
  Keys every object inherits (such as \<open>constructor\<close>) are left aside.
\<close>

section \<open>Roles and permissions\<close>

definition ROLE_GUEST :: number where "ROLE_GUEST = 0"
definition ROLE_USER :: number where "ROLE_USER = 1"
definition ROLE_OPS :: number where "ROLE_OPS = 5"
definition ROLE_ADMIN :: number where "ROLE_ADMIN = 10"
definition ROLE_SUPER_ADMIN :: number where "ROLE_SUPER_ADMIN = 100"

lemmas role_defs = ROLE_GUEST_def ROLE_USER_def ROLE_OPS_def ROLE_ADMIN_def ROLE_SUPER_ADMIN_def

definition ROLE_LABEL_KEYS :: "(number \<times> string) list" where
  "ROLE_LABEL_KEYS =
     [(ROLE_SUPER_ADMIN, ''Super Admin''), (ROLE_ADMIN, ''Admin''), (ROLE_OPS, ''Ops''), (ROLE_USER, ''User''),
      (ROLE_GUEST, ''Guest'')]"

definition getRoleLabelKey :: "number option \<Rightarrow> string" where
  "getRoleLabelKey role = nullish (Option.bind role (map_of ROLE_LABEL_KEYS)) (the (map_of ROLE_LABEL_KEYS ROLE_GUEST))"

definition isOps :: "number option \<Rightarrow> bool" where
  "isOps role \<longleftrightarrow> nullish role ROLE_GUEST \<ge> ROLE_OPS"

definition isAdmin :: "number option \<Rightarrow> bool" where
  "isAdmin role \<longleftrightarrow> nullish role ROLE_GUEST \<ge> ROLE_ADMIN"

type_synonym AdminPermissionMatrix = "string \<Rightarrow> (string \<Rightarrow> bool option) option"

record PermissionActionDef =
  pa_action :: string
  pa_label_key :: string
  pa_description_key :: string

record PermissionResourceDef =
  pr_resource :: string
  pr_label_key :: string
  pr_actions :: "PermissionActionDef list"

record PermissionRoleDef =
  role_key :: string
  role_name :: string
  role_built_in :: bool
  role_superuser :: bool
  role_grants :: "AdminPermissionMatrix option"

record PermissionCatalog =
  cat_resources :: "PermissionResourceDef list"
  cat_roles :: "PermissionRoleDef list"

definition ADMIN_ROLE_KEY :: string where "ADMIN_ROLE_KEY = ''admin''"

definition hasPermission :: "AuthUser option \<Rightarrow> string \<Rightarrow> string \<Rightarrow> bool" where
  "hasPermission user resource action =
     (case user of
        None \<Rightarrow> False
      | Some u \<Rightarrow>
          if user_role u = ROLE_SUPER_ADMIN then True
          else Option.bind (Option.bind (Option.bind (prop_of (user_value u) ''permissions'')
            (\<lambda>p. prop_of p ''admin_permissions'')) (\<lambda>m. prop_of m resource)) (\<lambda>r. prop_of r action) = Some (JBool True))"

definition roleGrants :: "PermissionCatalog \<Rightarrow> string \<Rightarrow> AdminPermissionMatrix" where
  "roleGrants catalog roleKey =
     nullish (Option.bind (find (\<lambda>role. role_key role = roleKey) (cat_roles catalog)) role_grants) Map.empty"

definition matrix_get :: "AdminPermissionMatrix \<Rightarrow> string \<Rightarrow> string \<Rightarrow> bool option" where
  "matrix_get m resource action = Option.bind (m resource) (\<lambda>r. r action)"

definition permission_value :: "AdminPermissionMatrix option \<Rightarrow> PermissionCatalog \<Rightarrow> string \<Rightarrow> string \<Rightarrow> bool" where
  "permission_value v catalog resource action =
     nullish (nullish_opt (Option.bind v (\<lambda>m. matrix_get m resource action))
       (matrix_get (roleGrants catalog ADMIN_ROLE_KEY) resource action)) False"

definition normalize_actions :: "AdminPermissionMatrix option \<Rightarrow> PermissionCatalog \<Rightarrow> PermissionResourceDef \<Rightarrow> string \<Rightarrow> bool option" where
  "normalize_actions v catalog resource =
     foldl (\<lambda>actions action. actions(pa_action action \<mapsto> permission_value v catalog (pr_resource resource) (pa_action action)))
       Map.empty (pr_actions resource)"

definition normalizeAdminPermissions :: "AdminPermissionMatrix option \<Rightarrow> PermissionCatalog \<Rightarrow> AdminPermissionMatrix" where
  "normalizeAdminPermissions v catalog =
     foldl (\<lambda>normalized resource. normalized(pr_resource resource \<mapsto> normalize_actions v catalog resource))
       Map.empty (cat_resources catalog)"

section \<open>Navigation modules\<close>

record ModuleAccess =
  ma_enabled :: bool
  ma_requireAuth :: bool

datatype nav_value = NavBool bool | NavAccess ModuleAccess

type_synonym HeaderNavModules = "string \<rightharpoonup> nav_value"

datatype HeaderNavModule = Rankings | Pricing

primrec module_key :: "HeaderNavModule \<Rightarrow> string" where
  "module_key Rankings = ''rankings''"
| "module_key Pricing = ''pricing''"

definition open_access :: ModuleAccess where
  "open_access = \<lparr>ma_enabled = True, ma_requireAuth = False\<rparr>"

definition DEFAULT_HEADER_NAV_MODULES :: HeaderNavModules where
  "DEFAULT_HEADER_NAV_MODULES =
     [''home'' \<mapsto> NavBool True, ''console'' \<mapsto> NavBool True, ''media_studio'' \<mapsto> NavBool True,
      ''pricing'' \<mapsto> NavAccess open_access, ''rankings'' \<mapsto> NavAccess open_access, ''docs'' \<mapsto> NavBool True, ''about'' \<mapsto> NavBool True]"

fun parseHeaderNavBoolean :: "json option \<Rightarrow> bool \<Rightarrow> bool" where
  "parseHeaderNavBoolean (Some (JBool b)) fallback = b"
| "parseHeaderNavBoolean (Some (JNum n)) fallback = (if n = 1 then True else if n = 0 then False else fallback)"
| "parseHeaderNavBoolean (Some (JStr s)) fallback =
     (let normalized = map lower_char (trim s)
      in if normalized = ''true'' \<or> normalized = ''1'' then True
         else if normalized = ''false'' \<or> normalized = ''0'' then False else fallback)"
| "parseHeaderNavBoolean _ fallback = fallback"

fun is_scalar :: "json \<Rightarrow> bool" where
  "is_scalar (JBool b) = True"
| "is_scalar (JNum n) = True"
| "is_scalar (JStr s) = True"
| "is_scalar _ = False"

definition parseAccess :: "json \<Rightarrow> ModuleAccess \<Rightarrow> ModuleAccess" where
  "parseAccess raw fallback =
     (if is_scalar raw then
        \<lparr>ma_enabled = parseHeaderNavBoolean (Some raw) (ma_enabled fallback), ma_requireAuth = ma_requireAuth fallback\<rparr>
      else if isRecord raw then
        \<lparr>ma_enabled = parseHeaderNavBoolean (prop_of raw ''enabled'') (ma_enabled fallback),
         ma_requireAuth = parseHeaderNavBoolean (prop_of raw ''requireAuth'') (ma_requireAuth fallback)\<rparr>
      else fallback)"

text \<open>\<open>None\<close> is \<open>null\<close>; a parsed \<open>JNull\<close> is falsy as well.\<close>

definition parseHeaderNavRecord :: "(string \<Rightarrow> json option) \<Rightarrow> (number \<Rightarrow> string) \<Rightarrow> json option \<Rightarrow> json option" where
  "parseHeaderNavRecord parse show_number raw =
     (case raw of
        None \<Rightarrow> None
      | Some v \<Rightarrow>
          if \<not> json_truthy v \<or> trim (js_String show_number v) = [] then None
          else if isRecord v then Some v
          else parse (js_String show_number v))"

definition object_entries :: "json \<Rightarrow> (string \<times> json) list" where
  "object_entries v =
     (case v of
        JObj kvs \<Rightarrow> kvs
      | JArr xs \<Rightarrow> map (\<lambda>(i, x). (show_nat i, x)) (enumerate 0 xs)
      | JStr s \<Rightarrow> map (\<lambda>(i, c). (show_nat i, JStr [c])) (enumerate 0 s)
      | _ \<Rightarrow> [])"

definition access_of :: "string \<Rightarrow> HeaderNavModules \<Rightarrow> ModuleAccess" where
  "access_of key modules = (case modules key of Some (NavAccess a) \<Rightarrow> a | _ \<Rightarrow> open_access)"

text \<open>One round of the loop over the entries.\<close>

definition nav_entry :: "HeaderNavModules \<Rightarrow> string \<times> json \<Rightarrow> HeaderNavModules" where
  "nav_entry result entry =
     (let (key, v) = entry
      in if key = ''pricing'' \<or> key = ''rankings'' then result(key \<mapsto> NavAccess (parseAccess v (access_of key result)))
         else
           let fallback = (case result key of Some (NavBool b) \<Rightarrow> Some b | _ \<Rightarrow> None)
           in if fallback \<noteq> None \<or> is_scalar v
              then result(key \<mapsto> NavBool (parseHeaderNavBoolean (Some v) (nullish fallback True)))
              else result)"

definition parseHeaderNavModules :: "(string \<Rightarrow> json option) \<Rightarrow> (number \<Rightarrow> string) \<Rightarrow> json option \<Rightarrow> HeaderNavModules" where
  "parseHeaderNavModules parse show_number raw =
     (case parseHeaderNavRecord parse show_number raw of
        None \<Rightarrow> DEFAULT_HEADER_NAV_MODULES
      | Some parsed \<Rightarrow>
          if \<not> json_truthy parsed then DEFAULT_HEADER_NAV_MODULES
          else foldl nav_entry DEFAULT_HEADER_NAV_MODULES (object_entries parsed))"

definition parseHeaderNavModulesFromStatus :: "(string \<Rightarrow> json option) \<Rightarrow> (number \<Rightarrow> string) \<Rightarrow> json option \<Rightarrow> HeaderNavModules" where
  "parseHeaderNavModulesFromStatus parse show_number status =
     parseHeaderNavModules parse show_number (Option.bind status (\<lambda>s. prop_of s ''HeaderNavModules''))"

definition STATUS_KEY :: string where "STATUS_KEY = ''status''"

definition getCachedStatus :: "(string \<Rightarrow> json option) \<Rightarrow> LocalStorage \<Rightarrow> json option" where
  "getCachedStatus parse ls = (if truthy_string (getItem ls STATUS_KEY) then parse (the (getItem ls STATUS_KEY)) else None)"

definition cacheStatus :: "(json \<Rightarrow> string) \<Rightarrow> json option \<Rightarrow> LocalStorage \<Rightarrow> LocalStorage" where
  "cacheStatus stringify status ls =
     (case status of
        Some s \<Rightarrow> if json_truthy s then nullish (setItem ls STATUS_KEY (stringify s)) ls else ls
      | None \<Rightarrow> ls)"

definition getModuleAccessFromStatus ::
    "(string \<Rightarrow> json option) \<Rightarrow> (number \<Rightarrow> string) \<Rightarrow> json option \<Rightarrow> HeaderNavModule \<Rightarrow> ModuleAccess" where
  "getModuleAccessFromStatus parse show_number status nav =
     access_of (module_key nav) (parseHeaderNavModulesFromStatus parse show_number status)"

definition getModuleAccess :: "(string \<Rightarrow> json option) \<Rightarrow> (number \<Rightarrow> string) \<Rightarrow> LocalStorage \<Rightarrow> HeaderNavModule \<Rightarrow> ModuleAccess" where
  "getModuleAccess parse show_number ls nav = getModuleAccessFromStatus parse show_number (getCachedStatus parse ls) nav"

text \<open>\<open>result\<close> is what \<open>getStatus()\<close> settles with, \<open>None\<close> when it rejects.\<close>

definition getFreshModuleAccess ::
    "(string \<Rightarrow> json option) \<Rightarrow> (json \<Rightarrow> string) \<Rightarrow> (number \<Rightarrow> string) \<Rightarrow> json option option \<Rightarrow> HeaderNavModule \<Rightarrow>
     LocalStorage \<Rightarrow> ModuleAccess \<times> LocalStorage" where
  "getFreshModuleAccess parse stringify show_number result nav ls =
     (case result of
        None \<Rightarrow> (\<lparr>ma_enabled = False, ma_requireAuth = True\<rparr>, ls)
      | Some status \<Rightarrow> (getModuleAccessFromStatus parse show_number status nav, cacheStatus stringify status ls))"

definition isHeaderNavModuleEnabled :: "(string \<Rightarrow> json option) \<Rightarrow> (number \<Rightarrow> string) \<Rightarrow> LocalStorage \<Rightarrow> string \<Rightarrow> bool" where
  "isHeaderNavModuleEnabled parse show_number ls nav =
     (case getCachedStatus parse ls of
        Some status \<Rightarrow>
          if \<not> json_truthy status then True
          else parseHeaderNavModulesFromStatus parse show_number (Some status) nav \<noteq> Some (NavBool False)
      | None \<Rightarrow> True)"

definition isSidebarModuleEnabled ::
    "(string \<Rightarrow> json option) \<Rightarrow> (number \<Rightarrow> string) \<Rightarrow> LocalStorage \<Rightarrow> string \<Rightarrow> string \<Rightarrow> bool" where
  "isSidebarModuleEnabled parse show_number ls section nav =
     (case getCachedStatus parse ls of
        None \<Rightarrow> True
      | Some status \<Rightarrow>
          if \<not> json_truthy status then True
          else case prop_of status ''SidebarModulesAdmin'' of
            None \<Rightarrow> True
          | Some raw \<Rightarrow>
              if \<not> json_truthy raw \<or> trim (js_String show_number raw) = [] then True
              else case Option.bind (parse (js_String show_number raw)) (\<lambda>parsed. prop_of parsed section) of
                None \<Rightarrow> True
              | Some sectionConfig \<Rightarrow>
                  if \<not> json_truthy sectionConfig then True
                  else \<not> (prop_of sectionConfig ''enabled'' = Some (JBool False) \<or> prop_of sectionConfig nav = Some (JBool False)))"

section \<open>The permission matrix\<close>

lemma foldl_upd:
  "foldl (\<lambda>m x. m(f x \<mapsto> g x)) m0 xs k = (case find (\<lambda>x. f x = k) (rev xs) of Some x \<Rightarrow> Some (g x) | None \<Rightarrow> m0 k)"
  by (induction xs arbitrary: m0 rule: rev_induct) auto

lemma normalize_actions_eq:
  "normalize_actions v catalog d a =
     (if a \<in> pa_action ` set (pr_actions d) then Some (permission_value v catalog (pr_resource d) a) else None)"
proof (cases "find (\<lambda>x. pa_action x = a) (rev (pr_actions d))")
  case None
  then have "a \<notin> pa_action ` set (pr_actions d)" by (auto simp: find_None_iff)
  with None show ?thesis by (simp add: normalize_actions_def foldl_upd)
next
  case (Some x)
  then have "x \<in> set (rev (pr_actions d))" "pa_action x = a" by (auto simp: find_Some_iff simp del: set_rev)
  with Some show ?thesis by (auto simp: normalize_actions_def foldl_upd)
qed

lemma normalize_lookup:
  "normalizeAdminPermissions v catalog r =
     map_option (\<lambda>d a. if a \<in> pa_action ` set (pr_actions d) then Some (permission_value v catalog r a) else None)
       (find (\<lambda>d. pr_resource d = r) (rev (cat_resources catalog)))"
proof (cases "find (\<lambda>d. pr_resource d = r) (rev (cat_resources catalog))")
  case None
  then show ?thesis by (simp add: normalizeAdminPermissions_def foldl_upd)
next
  case (Some d)
  then have "pr_resource d = r" by (auto simp: find_Some_iff)
  with Some show ?thesis
    by (simp add: normalizeAdminPermissions_def foldl_upd normalize_actions_eq fun_eq_iff)
qed

lemma normalize_again:
  "normalizeAdminPermissions (Some (normalizeAdminPermissions v catalog)) catalog = normalizeAdminPermissions v catalog"
proof
  fix r
  show "normalizeAdminPermissions (Some (normalizeAdminPermissions v catalog)) catalog r = normalizeAdminPermissions v catalog r"
  proof (cases "find (\<lambda>d. pr_resource d = r) (rev (cat_resources catalog))")
    case (Some d)
    have "permission_value (Some (normalizeAdminPermissions v catalog)) catalog r a = permission_value v catalog r a"
      if "a \<in> pa_action ` set (pr_actions d)" for a
      using that Some unfolding permission_value_def [of "Some _"]
      by (simp add: matrix_get_def normalize_lookup nullish_def nullish_opt_def)
    with Some show ?thesis by (auto simp: normalize_lookup fun_eq_iff)
  qed (simp add: normalize_lookup)
qed

text \<open>
  The permission editor.  The normalised matrix has an entry for exactly the resources
  and actions of the catalogue (of the last definition, if a resource is listed twice), its
  value is the explicit one, else the grant of the admin role, else a refusal, and
  normalising again changes nothing.
\<close>

theorem permissions_normalized:
  "(case find (\<lambda>d. pr_resource d = r) (rev (cat_resources catalog)) of
      None \<Rightarrow> normalizeAdminPermissions v catalog r = None
    | Some d \<Rightarrow> matrix_get (normalizeAdminPermissions v catalog) r a =
        (if a \<in> pa_action ` set (pr_actions d)
         then Some (case Option.bind v (\<lambda>m. matrix_get m r a) of
             Some explicit \<Rightarrow> explicit
           | None \<Rightarrow> (case matrix_get (roleGrants catalog ADMIN_ROLE_KEY) r a of Some b \<Rightarrow> b | None \<Rightarrow> False))
         else None)) \<and>
   normalizeAdminPermissions (Some (normalizeAdminPermissions v catalog)) catalog = normalizeAdminPermissions v catalog"
proof
  show "case find (\<lambda>d. pr_resource d = r) (rev (cat_resources catalog)) of
      None \<Rightarrow> normalizeAdminPermissions v catalog r = None
    | Some d \<Rightarrow> matrix_get (normalizeAdminPermissions v catalog) r a =
        (if a \<in> pa_action ` set (pr_actions d)
         then Some (case Option.bind v (\<lambda>m. matrix_get m r a) of
             Some explicit \<Rightarrow> explicit
           | None \<Rightarrow> (case matrix_get (roleGrants catalog ADMIN_ROLE_KEY) r a of Some b \<Rightarrow> b | None \<Rightarrow> False))
         else None)"
    by (simp add: normalize_lookup matrix_get_def permission_value_def nullish_def nullish_opt_def split: option.split)
qed (rule normalize_again)

section \<open>Navigation modules are typed\<close>

text \<open>
  The entries of the stored settings are taken one by one, and each touches its own key
  only, so with every key once the value of a key comes from its entry alone.
\<close>

definition access_key :: "string \<Rightarrow> bool" where
  "access_key k \<longleftrightarrow> k = ''pricing'' \<or> k = ''rankings''"

lemma nav_entry_other: "k \<noteq> key \<Longrightarrow> nav_entry m (key, v) k = m k"
  by (simp add: nav_entry_def Let_def)

lemma nav_entry_access: "access_key k \<Longrightarrow> nav_entry m (k, v) k = Some (NavAccess (parseAccess v (access_of k m)))"
  by (simp add: nav_entry_def access_key_def)

lemma nav_entry_switch:
  assumes "\<not> access_key k"
  shows "nav_entry m (k, v) k =
    (case m k of
       Some (NavBool b) \<Rightarrow> Some (NavBool (parseHeaderNavBoolean (Some v) b))
     | old \<Rightarrow> if is_scalar v then Some (NavBool (parseHeaderNavBoolean (Some v) True)) else old)"
  using assms by (auto simp: nav_entry_def access_key_def Let_def nullish_def split: option.split nav_value.split)

lemma nav_entry_local: "m k = m' k \<Longrightarrow> nav_entry m (k, v) k = nav_entry m' (k, v) k"
  by (cases "access_key k") (simp_all add: nav_entry_access nav_entry_switch access_of_def)

lemma nav_entries_at:
  assumes "distinct (map fst es)"
  shows "foldl nav_entry m es k = (case map_of es k of None \<Rightarrow> m k | Some v \<Rightarrow> nav_entry m (k, v) k)"
  using assms
proof (induction es arbitrary: m)
  case (Cons e es)
  obtain key v where e: "e = (key, v)" by fastforce
  from Cons have IH: "foldl nav_entry (nav_entry m e) es k =
      (case map_of es k of None \<Rightarrow> nav_entry m e k | Some v \<Rightarrow> nav_entry (nav_entry m e) (k, v) k)" by simp
  show ?case
  proof (cases "k = key")
    case True
    with Cons.prems e have "map_of es k = None" by (simp add: map_of_eq_None_iff)
    with IH e True show ?thesis by simp
  next
    case False
    then have same: "nav_entry m e k = m k" by (simp add: e nav_entry_other)
    have "nav_entry (nav_entry m e) (k, w) k = nav_entry m (k, w) k" for w by (rule nav_entry_local) (rule same)
    with IH e False same show ?thesis by (simp split: option.split)
  qed
qed simp

section \<open>What the settings say\<close>

text \<open>The settings cached with the server status, an empty list when there are none.\<close>

definition nav_settings :: "(string \<Rightarrow> json option) \<Rightarrow> (number \<Rightarrow> string) \<Rightarrow> json option \<Rightarrow> (string \<times> json) list" where
  "nav_settings parse show_number status =
     (case parseHeaderNavRecord parse show_number (Option.bind status (\<lambda>s. prop_of s ''HeaderNavModules'')) of
        Some v \<Rightarrow> object_entries v
      | None \<Rightarrow> [])"

lemma falsy_no_entries: "\<not> json_truthy v \<Longrightarrow> object_entries v = []"
  by (cases v) (simp_all add: object_entries_def)

lemma modules_of_settings:
  "parseHeaderNavModulesFromStatus parse show_number status =
     foldl nav_entry DEFAULT_HEADER_NAV_MODULES (nav_settings parse show_number status)"
  by (simp add: parseHeaderNavModulesFromStatus_def parseHeaderNavModules_def nav_settings_def falsy_no_entries split: option.split)

text \<open>The spellings of an explicit yes and of an explicit no.\<close>

definition says_on :: "json option \<Rightarrow> bool" where
  "says_on v \<longleftrightarrow> v = Some (JBool True) \<or> v = Some (JNum 1) \<or>
     (\<exists>s. v = Some (JStr s) \<and> map lower_char (trim s) \<in> {''true'', ''1''})"

definition says_off :: "json option \<Rightarrow> bool" where
  "says_off v \<longleftrightarrow> v = Some (JBool False) \<or> v = Some (JNum 0) \<or>
     (\<exists>s. v = Some (JStr s) \<and> map lower_char (trim s) \<in> {''false'', ''0''})"

lemma boolean_default_on: "parseHeaderNavBoolean v True \<longleftrightarrow> \<not> says_off v"
  by (cases "(v, True)" rule: parseHeaderNavBoolean.cases) (simp_all add: says_off_def Let_def)

lemma boolean_default_off: "parseHeaderNavBoolean v False \<longleftrightarrow> says_on v"
  by (cases "(v, False)" rule: parseHeaderNavBoolean.cases) (simp_all add: says_on_def Let_def)

text \<open>
  The member an access rule is read from: a scalar setting stands for \<open>enabled\<close>, an object
  has its own members.
\<close>

definition enabled_setting :: "(string \<times> json) list \<Rightarrow> string \<Rightarrow> json option" where
  "enabled_setting settings k =
     Option.bind (map_of settings k) (\<lambda>v. if is_scalar v then Some v else prop_of v ''enabled'')"

definition auth_setting :: "(string \<times> json) list \<Rightarrow> string \<Rightarrow> json option" where
  "auth_setting settings k = Option.bind (map_of settings k) (\<lambda>v. prop_of v ''requireAuth'')"

lemma prop_of_plain: "\<not> isRecord v \<Longrightarrow> prop_of v k = None"
  by (cases v) simp_all

lemma says_nothing [simp]: "\<not> says_off None" "\<not> says_on None"
  by (simp_all add: says_off_def says_on_def)

lemma scalar_no_member: "is_scalar v \<Longrightarrow> prop_of v k = None"
  by (cases v) simp_all

lemma parseAccess_open:
  "parseAccess v open_access =
     \<lparr>ma_enabled = \<not> says_off (if is_scalar v then Some v else prop_of v ''enabled''), ma_requireAuth = says_on (prop_of v ''requireAuth'')\<rparr>"
  by (simp add: parseAccess_def open_access_def boolean_default_on boolean_default_off prop_of_plain scalar_no_member)

lemma default_access: "access_key k \<Longrightarrow> DEFAULT_HEADER_NAV_MODULES k = Some (NavAccess open_access)"
  by (auto simp: access_key_def DEFAULT_HEADER_NAV_MODULES_def)

lemma default_switch: "\<not> access_key k \<Longrightarrow> k \<in> dom DEFAULT_HEADER_NAV_MODULES \<Longrightarrow> DEFAULT_HEADER_NAV_MODULES k = Some (NavBool True)"
  by (auto simp: access_key_def DEFAULT_HEADER_NAV_MODULES_def split: if_splits)

lemma access_from_settings:
  assumes "distinct (map fst settings)" "access_key k"
  shows "foldl nav_entry DEFAULT_HEADER_NAV_MODULES settings k =
    Some (NavAccess \<lparr>ma_enabled = \<not> says_off (enabled_setting settings k), ma_requireAuth = says_on (auth_setting settings k)\<rparr>)"
proof (cases "map_of settings k")
  case None
  with assms(2) show ?thesis
    by (simp add: nav_entries_at [OF assms(1)] default_access enabled_setting_def auth_setting_def open_access_def)
next
  case (Some v)
  with assms(2) show ?thesis
    by (simp add: nav_entries_at [OF assms(1)] nav_entry_access access_of_def default_access parseAccess_open
      enabled_setting_def auth_setting_def)
qed

lemma switch_from_settings:
  assumes "distinct (map fst settings)" "\<not> access_key k"
  shows "foldl nav_entry DEFAULT_HEADER_NAV_MODULES settings k =
    (if k \<in> dom DEFAULT_HEADER_NAV_MODULES \<or> (\<exists>v. map_of settings k = Some v \<and> is_scalar v)
     then Some (NavBool (\<not> says_off (map_of settings k))) else None)"
proof (cases "k \<in> dom DEFAULT_HEADER_NAV_MODULES")
  case True
  with assms(2) show ?thesis
    by (simp add: nav_entries_at [OF assms(1)] nav_entry_switch default_switch boolean_default_on split: option.split)
next
  case False
  then have "DEFAULT_HEADER_NAV_MODULES k = None" by auto
  with False assms(2) show ?thesis
    by (simp add: nav_entries_at [OF assms(1)] nav_entry_switch boolean_default_on split: option.split)
qed

text \<open>A setting that is an explicit no is a scalar, and without a status there is none.\<close>

lemma says_off_scalar: "says_off (map_of settings k) \<Longrightarrow> \<exists>v. map_of settings k = Some v \<and> is_scalar v"
  by (auto simp: says_off_def)

lemma no_status_no_settings: "(case status of Some s \<Rightarrow> \<not> json_truthy s | None \<Rightarrow> True) \<Longrightarrow> nav_settings parse show_number status = []"
  by (cases status; cases "the status") (simp_all add: nav_settings_def parseHeaderNavRecord_def)

lemma module_key_access [simp]: "access_key (module_key nav)"
  by (cases nav) (simp_all add: access_key_def)

text \<open>
  C40: the pages an administrator closes are exactly the pages the settings cached with the
  server status say are closed.  Pricing and rankings are disabled exactly if their setting,
  or its member \<open>enabled\<close>, is an explicit no (\<open>false\<close>, \<open>0\<close> or a text saying so in any case),
  and need a login exactly if their member \<open>requireAuth\<close> is an explicit yes.  Any other module
  is off exactly if its setting is an explicit no; it is listed if it is one of the known
  ones or its setting is a scalar.  Missing, malformed and unparsable settings change
  nothing.  An object has each of its keys once.
\<close>

theorem pages_closed_exactly:
  assumes "settings = nav_settings parse show_number (getCachedStatus parse ls)"
    and "distinct (map fst settings)"
    and "\<not> access_key k"
  shows "getModuleAccess parse show_number ls nav =
      \<lparr>ma_enabled = \<not> says_off (enabled_setting settings (module_key nav)), ma_requireAuth = says_on (auth_setting settings (module_key nav))\<rparr> \<and>
    isHeaderNavModuleEnabled parse show_number ls k = (\<not> says_off (map_of settings k)) \<and>
    parseHeaderNavModulesFromStatus parse show_number (getCachedStatus parse ls) k =
      (if k \<in> dom DEFAULT_HEADER_NAV_MODULES \<or> (\<exists>v. map_of settings k = Some v \<and> is_scalar v)
       then Some (NavBool (\<not> says_off (map_of settings k))) else None)"
proof (intro conjI)
  note read = modules_of_settings [of parse show_number "getCachedStatus parse ls", folded assms(1)]
  show "getModuleAccess parse show_number ls nav =
      \<lparr>ma_enabled = \<not> says_off (enabled_setting settings (module_key nav)), ma_requireAuth = says_on (auth_setting settings (module_key nav))\<rparr>"
    by (simp add: getModuleAccess_def getModuleAccessFromStatus_def read access_of_def access_from_settings [OF assms(2)])
  show switch: "parseHeaderNavModulesFromStatus parse show_number (getCachedStatus parse ls) k =
      (if k \<in> dom DEFAULT_HEADER_NAV_MODULES \<or> (\<exists>v. map_of settings k = Some v \<and> is_scalar v)
       then Some (NavBool (\<not> says_off (map_of settings k))) else None)"
    by (simp add: read switch_from_settings [OF assms(2,3)])
  show "isHeaderNavModuleEnabled parse show_number ls k = (\<not> says_off (map_of settings k))"
    using switch assms(1) says_off_scalar [of settings k] no_status_no_settings [of "getCachedStatus parse ls" parse show_number]
    by (auto simp: isHeaderNavModuleEnabled_def split: option.split if_splits)
qed

definition half_closed :: json where
  "half_closed = JObj [(''HeaderNavModules'',
     JObj [(''7'', JBool False), (''pricing'', JObj [(''requireAuth'', JStr '' TRUE'')]), (''rankings'', JNum 0), (''docs'', JStr ''Off''),
           (''about'', JStr ''False ''), (''blog'', JArr [])])]"

definition half_closed_storage :: LocalStorage where
  "half_closed_storage = \<lparr>ls_items = [''status'' \<mapsto> ''s''], ls_accepts = (\<lambda>_ _. True)\<rparr>"

definition half_closed_settings :: "(string \<times> json) list" where
  "half_closed_settings = nav_settings (\<lambda>_. Some half_closed) (\<lambda>_. []) (getCachedStatus (\<lambda>_. Some half_closed) half_closed_storage)"

lemma half_closed_read:
  "distinct (map fst half_closed_settings)"
  "enabled_setting half_closed_settings ''pricing'' = None"
  "auth_setting half_closed_settings ''pricing'' = Some (JStr '' TRUE'')"
  "enabled_setting half_closed_settings ''rankings'' = Some (JNum 0)"
  "auth_setting half_closed_settings ''rankings'' = None"
  "map_of half_closed_settings ''about'' = Some (JStr ''False '')"
  "map_of half_closed_settings ''docs'' = Some (JStr ''Off'')"
  "map_of half_closed_settings ''7'' = Some (JBool False)"
  "map_of half_closed_settings ''blog'' = Some (JArr [])"
  by code_simp+

lemma half_closed_says:
  "says_on (Some (JStr '' TRUE''))" "says_off (Some (JNum 0))" "says_off (Some (JStr ''False ''))"
  "\<not> says_off (Some (JStr ''Off''))"
proof -
  have "map lower_char (trim '' TRUE'') = ''true''" "map lower_char (trim ''False '') = ''false''"
    "map lower_char (trim ''Off'') = ''off''" by code_simp+
  then show "says_on (Some (JStr '' TRUE''))" "says_off (Some (JNum 0))" "says_off (Some (JStr ''False ''))"
    "\<not> says_off (Some (JStr ''Off''))" by (simp_all add: says_on_def says_off_def)
qed

theorem pages_closed_exactly_witness:
  "getModuleAccess (\<lambda>_. Some half_closed) (\<lambda>_. []) half_closed_storage Pricing = \<lparr>ma_enabled = True, ma_requireAuth = True\<rparr> \<and>
   getModuleAccess (\<lambda>_. Some half_closed) (\<lambda>_. []) half_closed_storage Rankings = \<lparr>ma_enabled = False, ma_requireAuth = False\<rparr> \<and>
   \<not> isHeaderNavModuleEnabled (\<lambda>_. Some half_closed) (\<lambda>_. []) half_closed_storage ''about'' \<and>
   isHeaderNavModuleEnabled (\<lambda>_. Some half_closed) (\<lambda>_. []) half_closed_storage ''docs'' \<and>
   parseHeaderNavModulesFromStatus (\<lambda>_. Some half_closed) (\<lambda>_. []) (getCachedStatus (\<lambda>_. Some half_closed) half_closed_storage) ''blog'' = None"
proof -
  note use = pages_closed_exactly [OF half_closed_settings_def half_closed_read(1)]
  have plain: "\<not> access_key ''about''" "\<not> access_key ''docs''" "\<not> access_key ''blog''" "''blog'' \<notin> dom DEFAULT_HEADER_NAV_MODULES"
    by (simp_all add: access_key_def DEFAULT_HEADER_NAV_MODULES_def)
  from use [OF plain(1), of Pricing] use [OF plain(2), of Rankings] use [OF plain(3), of Pricing] plain(4)
  show ?thesis by (simp add: half_closed_read half_closed_says)
qed

section \<open>Navigation modules survive being stored\<close>

fun is_access :: "nav_value \<Rightarrow> bool" where
  "is_access (NavAccess a) = True"
| "is_access (NavBool b) = False"

text \<open>The type of the modules: an access rule exactly under the two keys that have one.\<close>

definition nav_typed :: "(string \<times> nav_value) list \<Rightarrow> bool" where
  "nav_typed m \<longleftrightarrow> distinct (map fst m) \<and> dom DEFAULT_HEADER_NAV_MODULES \<subseteq> fst ` set m \<and>
     list_all (\<lambda>(k, v). access_key k \<longleftrightarrow> is_access v) m"

primrec nav_value_json :: "nav_value \<Rightarrow> json" where
  "nav_value_json (NavBool b) = JBool b"
| "nav_value_json (NavAccess a) = JObj [(''enabled'', JBool (ma_enabled a)), (''requireAuth'', JBool (ma_requireAuth a))]"

definition nav_json :: "(string \<times> nav_value) list \<Rightarrow> json" where
  "nav_json m = JObj (map (\<lambda>(k, v). (k, nav_value_json v)) m)"

lemma parseAccess_json: "parseAccess (nav_value_json (NavAccess a)) fallback = a"
  by (simp add: parseAccess_def)

lemma nav_entry_json:
  assumes "access_key k \<longleftrightarrow> is_access v"
  shows "nav_entry m (k, nav_value_json v) = m(k \<mapsto> v)"
  using assms by (cases v) (auto simp: nav_entry_def access_key_def parseAccess_json simp del: nav_value_json.simps(2))

text \<open>
  What the administrator saves is what every page reads: navigation modules of the right
  type, written as JSON and parsed from the status, are the same modules.
\<close>

theorem nav_modules_roundtrip:
  assumes "nav_typed m" and "parse body = Some (nav_json m)" and "trim body \<noteq> []"
  shows "parseHeaderNavModules parse show_number (Some (JStr body)) = map_of m"
proof
  fix k
  let ?es = "map (\<lambda>(k, v). (k, nav_value_json v)) m"
  have keys: "map fst ?es = map fst m" by (simp add: case_prod_beta)
  have d: "distinct (map fst ?es)" unfolding keys using assms(1) by (simp add: nav_typed_def)
  have entry: "map_of ?es k = map_option nav_value_json (map_of m k)" by (simp add: map_of_map)
  have "nav_entry DEFAULT_HEADER_NAV_MODULES (k, nav_value_json v) k = Some v" if "map_of m k = Some v" for v
    using assms(1) map_of_SomeD [OF that] by (subst nav_entry_json) (auto simp: nav_typed_def list_all_iff)
  moreover have "DEFAULT_HEADER_NAV_MODULES k = None" if "map_of m k = None"
    using assms(1) that by (auto simp: nav_typed_def map_of_eq_None_iff domIff)
  ultimately have "foldl nav_entry DEFAULT_HEADER_NAV_MODULES ?es k = map_of m k"
    by (simp add: nav_entries_at [OF d] entry split: option.split)
  moreover have "body \<noteq> []" using assms(3) by auto
  ultimately show "parseHeaderNavModules parse show_number (Some (JStr body)) k = map_of m k" using assms(2,3)
    by (simp add: parseHeaderNavModules_def parseHeaderNavRecord_def object_entries_def nav_json_def)
qed

definition closed_site :: "(string \<times> nav_value) list" where
  "closed_site =
     [(''home'', NavBool False), (''console'', NavBool True), (''media_studio'', NavBool False),
      (''pricing'', NavAccess \<lparr>ma_enabled = True, ma_requireAuth = True\<rparr>),
      (''rankings'', NavAccess \<lparr>ma_enabled = False, ma_requireAuth = False\<rparr>), (''docs'', NavBool True), (''about'', NavBool False),
      (''blog'', NavBool True)]"

theorem nav_modules_roundtrip_witness:
  "parseHeaderNavModules (\<lambda>_. Some (nav_json closed_site)) (\<lambda>_. []) (Some (JStr ''{}'')) = map_of closed_site"
proof (rule nav_modules_roundtrip)
  show "nav_typed closed_site"
    by (simp add: nav_typed_def closed_site_def DEFAULT_HEADER_NAV_MODULES_def access_key_def)
  show "trim ''{}'' \<noteq> []" by code_simp
qed simp

text \<open>
  Page access fails closed and agrees with the cache.  If the server cannot be asked, a
  guarded page is refused; if it answers, the decision is that of its settings, and it stays
  the decision of every later check that only looks at the cached status.
\<close>

theorem fresh_access_cached:
  assumes "parse (stringify status) = Some status" and "json_truthy status" and "stringify status \<noteq> []"
    and "ls_accepts ls STATUS_KEY (stringify status)"
    and "getFreshModuleAccess parse stringify show_number (Some (Some status)) nav ls = (access, ls')"
  shows "getModuleAccess parse show_number ls' other = getModuleAccessFromStatus parse show_number (Some status) other \<and>
    access = getModuleAccess parse show_number ls' nav \<and>
    fst (getFreshModuleAccess parse stringify show_number None nav ls) = \<lparr>ma_enabled = False, ma_requireAuth = True\<rparr>"
  using assms by (auto simp: getFreshModuleAccess_def getModuleAccess_def cacheStatus_def getCachedStatus_def setItem_def getItem_def
    nullish_def truthy_string_def)

definition members_only :: json where
  "members_only = JObj [(''HeaderNavModules'', JObj [(''pricing'', JObj [(''requireAuth'', JBool True)])])]"

theorem fresh_access_cached_witness:
  "getModuleAccess (\<lambda>_. Some members_only) (\<lambda>_. []) (snd (getFreshModuleAccess (\<lambda>_. Some members_only) (\<lambda>_. ''s'') (\<lambda>_. [])
      (Some (Some members_only)) Pricing \<lparr>ls_items = Map.empty, ls_accepts = (\<lambda>_ _. True)\<rparr>)) Pricing =
    \<lparr>ma_enabled = True, ma_requireAuth = True\<rparr>"
proof -
  have v: "getModuleAccessFromStatus (\<lambda>_. Some members_only) (\<lambda>_. []) (Some members_only) Pricing =
      \<lparr>ma_enabled = True, ma_requireAuth = True\<rparr>" by code_simp
  have "json_truthy members_only" by (simp add: members_only_def)
  from fresh_access_cached [OF _ this _ _ surjective_pairing, of "\<lambda>_. Some members_only" "\<lambda>_. ''s''"
      "\<lparr>ls_items = Map.empty, ls_accepts = (\<lambda>_ _. True)\<rparr>" "\<lambda>_. []" Pricing Pricing]
  show ?thesis by (simp add: v)
qed

end
