(* ===== verification/Organization_Idempotency.thy ===== *)
theory Organization_Idempotency
  imports Prelude "HOL-Library.Char_ord" "HOL-Library.List_Lexorder"
begin

text \<open>
  The retry keys of \<open>features/organization/lib/organization-idempotency.ts\<close>.  A mutating
  request carries an idempotency key; the key is remembered under a slot built from the
  operation, its target and a fingerprint of the payload, in memory and in
  \<open>sessionStorage\<close>, until the request succeeds.

  A payload is a JavaScript value that may hold \<open>undefined\<close> members.  \<open>JSON.stringify\<close> is the
  argument \<open>stringify\<close> (on payloads) and \<open>json_text\<close> (on records), \<open>JSON.parse\<close> is \<open>parse\<close>.
  The random part of a key is an argument of the call that draws it.
\<close>

section \<open>Payloads\<close>

datatype jsval =
    VUndefined
  | VNull
  | VBool bool
  | VNum number
  | VStr string
  | VArr "jsval list"
  | VObj "(string \<times> jsval) list"

definition defined_member :: "string \<times> jsval \<Rightarrow> bool" where
  "defined_member kv \<longleftrightarrow> snd kv \<noteq> VUndefined"

text \<open>\<open>Object.keys(source).sort()\<close> sorts by code units, which is the order on strings here.\<close>

function normalizePayload :: "jsval \<Rightarrow> jsval" where
  "normalizePayload (VArr xs) = VArr (map normalizePayload xs)"
| "normalizePayload (VObj kvs) =
     VObj (map (\<lambda>kv. (fst kv, normalizePayload (snd kv))) (filter defined_member (sort_key fst kvs)))"
| "normalizePayload VUndefined = VUndefined"
| "normalizePayload VNull = VNull"
| "normalizePayload (VBool b) = VBool b"
| "normalizePayload (VNum n) = VNum n"
| "normalizePayload (VStr s) = VStr s"
  by pat_completeness auto
termination
proof (relation "measure size", goal_cases)
  case (2 xs x)
  then show ?case by (simp add: size_list_estimation' le_imp_less_Suc)
next
  case (3 kvs kv)
  then have "kv \<in> set kvs" by auto
  then have "size_prod (\<lambda>_. 0) size kv \<le> size_list (size_prod (\<lambda>_. 0) size) kvs"
    by (rule size_list_estimation') simp
  then show ?case by (cases kv) simp
qed simp

definition fingerprintIdempotencyPayload :: "(jsval \<Rightarrow> string) \<Rightarrow> jsval \<Rightarrow> string" where
  "fingerprintIdempotencyPayload stringify payload =
     stringify (normalizePayload (if payload = VUndefined \<or> payload = VNull then VObj [] else payload))"

section \<open>Slots\<close>

definition STORAGE_PREFIX :: string where
  "STORAGE_PREFIX = ''cuberouter:organization-idempotency:''"

text \<open>\<open>encodeURIComponent\<close> on characters below 256: one or two bytes of UTF-8 each.\<close>

definition unreserved :: "char \<Rightarrow> bool" where
  "unreserved c \<longleftrightarrow> (let n = of_char c :: nat in
     48 \<le> n \<and> n \<le> 57 \<or> 65 \<le> n \<and> n \<le> 90 \<or> 97 \<le> n \<and> n \<le> 122 \<or> n \<in> {45, 95, 46, 33, 126, 42, 39, 40, 41})"

definition hex_digit :: "nat \<Rightarrow> char" where
  "hex_digit d = char_of (if d < 10 then 48 + d else 55 + d)"

definition percent :: "nat \<Rightarrow> string" where
  "percent n = [CHR ''%'', hex_digit (n div 16), hex_digit (n mod 16)]"

definition encode_char :: "char \<Rightarrow> string" where
  "encode_char c =
     (let n = of_char c :: nat
      in if unreserved c then [c] else if n < 128 then percent n else percent (192 + n div 64) @ percent (128 + n mod 64))"

definition encodeURIComponent :: "string \<Rightarrow> string" where
  "encodeURIComponent s = concat (map encode_char s)"

definition storageSlot :: "string \<Rightarrow> string \<Rightarrow> string \<Rightarrow> string" where
  "storageSlot operation targetId fingerprint =
     STORAGE_PREFIX @ encodeURIComponent operation @ '':'' @ encodeURIComponent targetId @ '':'' @ encodeURIComponent fingerprint"

section \<open>Records\<close>

record IdempotencyRecord =
  rec_fingerprint :: string
  rec_key :: json

record idempotency =
  im_memory :: "string \<Rightarrow> IdempotencyRecord option"
  im_storage :: "LocalStorage option"

definition record_json :: "IdempotencyRecord \<Rightarrow> json" where
  "record_json r = JObj [(''fingerprint'', JStr (rec_fingerprint r)), (''key'', rec_key r)]"

definition record_of_json :: "json \<Rightarrow> IdempotencyRecord option" where
  "record_of_json v =
     (case (prop_of v ''key'', prop_of v ''fingerprint'') of
        (Some key, Some (JStr fingerprint)) \<Rightarrow>
          if json_truthy key then Some \<lparr>rec_fingerprint = fingerprint, rec_key = key\<rparr> else None
      | _ \<Rightarrow> None)"

definition readRecord :: "(string \<Rightarrow> json option) \<Rightarrow> string \<Rightarrow> idempotency \<Rightarrow> IdempotencyRecord option \<times> idempotency" where
  "readRecord parse slot s =
     (case im_memory s slot of
        Some memoryRecord \<Rightarrow> (Some memoryRecord, s)
      | None \<Rightarrow>
          (case im_storage s of
             None \<Rightarrow> (None, s)
           | Some storage \<Rightarrow>
               (case parse (nullish (getItem storage slot) ''null'') of
                  None \<Rightarrow> (None, s\<lparr>im_storage := Some (removeItem storage slot)\<rparr>)
                | Some v \<Rightarrow>
                    (case record_of_json v of
                       Some r \<Rightarrow> (Some r, s\<lparr>im_memory := (im_memory s)(slot \<mapsto> r)\<rparr>)
                     | None \<Rightarrow> (None, s)))))"

definition writeRecord :: "(json \<Rightarrow> string) \<Rightarrow> string \<Rightarrow> IdempotencyRecord \<Rightarrow> idempotency \<Rightarrow> idempotency" where
  "writeRecord json_text slot r s =
     s\<lparr>im_memory := (im_memory s)(slot \<mapsto> r),
       im_storage := map_option (\<lambda>storage. nullish (setItem storage slot (json_text (record_json r))) storage) (im_storage s)\<rparr>"

definition generateKey :: "string \<Rightarrow> string \<Rightarrow> string \<Rightarrow> string" where
  "generateKey operation targetId uuid = operation @ '':'' @ targetId @ '':'' @ uuid"

text \<open>A request as its caller names it: the operation, the target and the payload.\<close>

record intent =
  in_operation :: string
  in_target :: string
  in_payload :: jsval

definition intent_fingerprint :: "(jsval \<Rightarrow> string) \<Rightarrow> intent \<Rightarrow> string" where
  "intent_fingerprint stringify i = fingerprintIdempotencyPayload stringify (in_payload i)"

definition intent_slot :: "(jsval \<Rightarrow> string) \<Rightarrow> intent \<Rightarrow> string" where
  "intent_slot stringify i = storageSlot (in_operation i) (in_target i) (intent_fingerprint stringify i)"

definition getOrCreateOrganizationIdempotencyKey ::
    "(jsval \<Rightarrow> string) \<Rightarrow> (string \<Rightarrow> json option) \<Rightarrow> (json \<Rightarrow> string) \<Rightarrow> intent \<Rightarrow> string \<Rightarrow> idempotency \<Rightarrow> json \<times> idempotency" where
  "getOrCreateOrganizationIdempotencyKey stringify parse json_text i uuid s =
     (let fingerprint = intent_fingerprint stringify i;
          slot = intent_slot stringify i;
          (existing, s) = readRecord parse slot s;
          fresh = JStr (generateKey (in_operation i) (in_target i) uuid)
      in case existing of
           Some r \<Rightarrow> if rec_fingerprint r = fingerprint then (rec_key r, s)
             else (fresh, writeRecord json_text slot \<lparr>rec_fingerprint = fingerprint, rec_key = fresh\<rparr> s)
         | None \<Rightarrow> (fresh, writeRecord json_text slot \<lparr>rec_fingerprint = fingerprint, rec_key = fresh\<rparr> s))"

definition clearOrganizationIdempotencyKey ::
    "(jsval \<Rightarrow> string) \<Rightarrow> (string \<Rightarrow> json option) \<Rightarrow> intent \<Rightarrow> idempotency \<Rightarrow> idempotency" where
  "clearOrganizationIdempotencyKey stringify parse i s =
     (let fingerprint = intent_fingerprint stringify i;
          slot = intent_slot stringify i;
          (existing, s) = readRecord parse slot s
      in case existing of
           Some r \<Rightarrow> if rec_fingerprint r \<noteq> fingerprint then s
             else s\<lparr>im_memory := (im_memory s)(slot := None), im_storage := map_option (\<lambda>st. removeItem st slot) (im_storage s)\<rparr>
         | None \<Rightarrow> s)"

section \<open>Requests\<close>

text \<open>
  \<open>withOrganizationIdempotencyKey\<close>, cut at its awaits.  A promise has a number; \<open>fl_pending\<close>
  holds the requests that have not settled, \<open>fl_inFlight\<close> is the source's map, and the log
  (newest first) records what was sent and what succeeded.  A reload keeps the storage only.
\<close>

datatype log_entry = Sent string json | Succeeded string

record flights =
  fl_keys :: idempotency
  fl_inFlight :: "(string \<times> nat) list"
  fl_pending :: "(nat \<times> intent) list"
  fl_next :: nat
  fl_log :: "log_entry list"

datatype flight_event =
    Call intent string
  | Settled nat bool
  | Ended nat
  | Reload

definition call_request ::
    "(jsval \<Rightarrow> string) \<Rightarrow> (string \<Rightarrow> json option) \<Rightarrow> (json \<Rightarrow> string) \<Rightarrow> intent \<Rightarrow> string \<Rightarrow> flights \<Rightarrow> nat \<times> flights" where
  "call_request stringify parse json_text i uuid s =
     (let slot = intent_slot stringify i
      in case map_of (fl_inFlight s) slot of
           Some existing \<Rightarrow> (existing, s)
         | None \<Rightarrow>
             let (key, keys) = getOrCreateOrganizationIdempotencyKey stringify parse json_text i uuid (fl_keys s);
                 n = fl_next s
             in (n, s\<lparr>fl_keys := keys, fl_inFlight := (slot, n) # fl_inFlight s, fl_pending := (n, i) # fl_pending s,
                      fl_next := n + 1, fl_log := Sent slot key # fl_log s\<rparr>))"

text \<open>\<open>request(key)\<close> settles; a success clears the key.\<close>

definition request_settled :: "(jsval \<Rightarrow> string) \<Rightarrow> (string \<Rightarrow> json option) \<Rightarrow> nat \<Rightarrow> bool \<Rightarrow> flights \<Rightarrow> flights" where
  "request_settled stringify parse n ok s =
     (case map_of (fl_pending s) n of
        None \<Rightarrow> s
      | Some i \<Rightarrow>
          let s = s\<lparr>fl_pending := filter (\<lambda>(m, _). m \<noteq> n) (fl_pending s)\<rparr>
          in if ok then s\<lparr>fl_keys := clearOrganizationIdempotencyKey stringify parse i (fl_keys s),
                          fl_log := Succeeded (intent_slot stringify i) # fl_log s\<rparr>
             else s)"

text \<open>The \<open>finally\<close> behind it.\<close>

definition flight_ended :: "nat \<Rightarrow> flights \<Rightarrow> flights" where
  "flight_ended n s =
     (if n \<in> fst ` set (fl_pending s) then s
      else s\<lparr>fl_inFlight := filter (\<lambda>(_, m). m \<noteq> n) (fl_inFlight s)\<rparr>)"

definition reload_page :: "flights \<Rightarrow> flights" where
  "reload_page s = s\<lparr>fl_keys := (fl_keys s)\<lparr>im_memory := Map.empty\<rparr>, fl_inFlight := [], fl_pending := []\<rparr>"

fun flight_step ::
    "(jsval \<Rightarrow> string) \<Rightarrow> (string \<Rightarrow> json option) \<Rightarrow> (json \<Rightarrow> string) \<Rightarrow> flight_event \<Rightarrow> flights \<Rightarrow> flights" where
  "flight_step stringify parse json_text (Call i uuid) s = snd (call_request stringify parse json_text i uuid s)"
| "flight_step stringify parse json_text (Settled n ok) s = request_settled stringify parse n ok s"
| "flight_step stringify parse json_text (Ended n) s = flight_ended n s"
| "flight_step stringify parse json_text Reload s = reload_page s"

definition flight_run ::
    "(jsval \<Rightarrow> string) \<Rightarrow> (string \<Rightarrow> json option) \<Rightarrow> (json \<Rightarrow> string) \<Rightarrow> flight_event list \<Rightarrow> flights \<Rightarrow> flights" where
  "flight_run stringify parse json_text evs s = foldl (\<lambda>s e. flight_step stringify parse json_text e s) s evs"

definition new_page :: "LocalStorage option \<Rightarrow> flights" where
  "new_page storage =
     \<lparr>fl_keys = \<lparr>im_memory = Map.empty, im_storage = storage\<rparr>, fl_inFlight = [], fl_pending = [], fl_next = 0, fl_log = []\<rparr>"

section \<open>What a payload means\<close>

text \<open>
  The meaning of a payload: an object is the map of its defined members, whatever their
  order.  \<open>wf_payload\<close>: every object inside has each key once, as JavaScript objects do, and no
  array holds \<open>undefined\<close>, which JSON would write as \<open>null\<close>.
\<close>

datatype meaning =
    MUndefined
  | MNull
  | MBool bool
  | MNum number
  | MStr string
  | MArr "meaning list"
  | MObj "string \<Rightarrow> meaning option"

primrec payload_meaning :: "jsval \<Rightarrow> meaning" where
  "payload_meaning VUndefined = MUndefined"
| "payload_meaning VNull = MNull"
| "payload_meaning (VBool b) = MBool b"
| "payload_meaning (VNum n) = MNum n"
| "payload_meaning (VStr s) = MStr s"
| "payload_meaning (VArr xs) = MArr (map payload_meaning xs)"
| "payload_meaning (VObj kvs) =
     MObj (\<lambda>k. case map_of (map (map_prod (\<lambda>k. k) payload_meaning) kvs) k of
       Some m \<Rightarrow> if m = MUndefined then None else Some m | None \<Rightarrow> None)"

primrec wf_payload :: "jsval \<Rightarrow> bool" where
  "wf_payload VUndefined = True"
| "wf_payload VNull = True"
| "wf_payload (VBool b) = True"
| "wf_payload (VNum n) = True"
| "wf_payload (VStr s) = True"
| "wf_payload (VArr xs) = (VUndefined \<notin> set xs \<and> list_all (\<lambda>b. b) (map wf_payload xs))"
| "wf_payload (VObj kvs) = (distinct (map fst kvs) \<and> list_all snd (map (map_prod (\<lambda>k. k) wf_payload) kvs))"

primrec normal_payload :: "jsval \<Rightarrow> bool" where
  "normal_payload VUndefined = True"
| "normal_payload VNull = True"
| "normal_payload (VBool b) = True"
| "normal_payload (VNum n) = True"
| "normal_payload (VStr s) = True"
| "normal_payload (VArr xs) = (VUndefined \<notin> set xs \<and> list_all (\<lambda>b. b) (map normal_payload xs))"
| "normal_payload (VObj kvs) =
     (sorted (map fst kvs) \<and> distinct (map fst kvs) \<and> list_all defined_member kvs \<and>
      list_all snd (map (map_prod (\<lambda>k. k) normal_payload) kvs))"

lemma meaning_undefined [simp]: "payload_meaning v = MUndefined \<longleftrightarrow> v = VUndefined"
  by (cases v) auto

lemma meaning_scalar:
  "MUndefined = payload_meaning v \<longleftrightarrow> VUndefined = v" "MNull = payload_meaning v \<longleftrightarrow> VNull = v"
  "MBool b = payload_meaning v \<longleftrightarrow> VBool b = v" "MNum n = payload_meaning v \<longleftrightarrow> VNum n = v"
  "MStr s = payload_meaning v \<longleftrightarrow> VStr s = v"
  by (cases v; auto)+

lemma normalize_undefined [simp]:
  "normalizePayload v = VUndefined \<longleftrightarrow> v = VUndefined" "VUndefined = normalizePayload v \<longleftrightarrow> v = VUndefined"
  by (cases v; auto)+

lemma obj_meaning:
  "payload_meaning (VObj kvs) =
     MObj (\<lambda>k. case map_of kvs k of Some v \<Rightarrow> if v = VUndefined then None else Some (payload_meaning v) | None \<Rightarrow> None)"
proof -
  have "map_of (map (map_prod (\<lambda>k. k) payload_meaning) kvs) k = map_option payload_meaning (map_of kvs k)" for k
    by (induction kvs) auto
  then show ?thesis by (auto simp: fun_eq_iff split: option.split)
qed

lemma distinct_keys_sort: "distinct (map fst kvs) \<Longrightarrow> distinct (map fst (sort_key fst kvs))"
  by (simp add: distinct_map)

lemma map_of_sort_key:
  assumes "distinct (map fst kvs)"
  shows "map_of (sort_key fst kvs) = map_of kvs"
  by (rule map_of_inject_set [THEN iffD2, OF distinct_keys_sort [OF assms] assms]) simp

lemma map_of_filter_defined:
  "distinct (map fst kvs) \<Longrightarrow> map_of (filter defined_member kvs) k = (case map_of kvs k of Some v \<Rightarrow> if v = VUndefined then None else Some v | None \<Rightarrow> None)"
proof (induction kvs)
  case (Cons kv kvs)
  then have "fst kv = k \<Longrightarrow> map_of kvs k = None" by (auto simp: map_of_eq_None_iff)
  with Cons show ?case by (cases kv) (auto simp: defined_member_def)
qed simp

lemma map_of_second: "map_of (map (\<lambda>kv. (fst kv, f (snd kv))) kvs) k = map_option f (map_of kvs k)"
  by (induction kvs) auto

lemma normalize_wf: "wf_payload v \<Longrightarrow> normal_payload (normalizePayload v) \<and> payload_meaning (normalizePayload v) = payload_meaning v"
proof (induction v rule: normalizePayload.induct)
  case (1 xs)
  then show ?case by (auto simp: list_all_iff)
next
  case (2 kvs)
  let ?n = "map (\<lambda>kv. (fst kv, normalizePayload (snd kv))) (filter defined_member (sort_key fst kvs))"
  have d: "distinct (map fst kvs)" using 2(2) by simp
  have d': "distinct (map fst (sort_key fst kvs))" by (rule distinct_keys_sort [OF d])
  have keys: "map fst ?n = map fst (filter defined_member (sort_key fst kvs))" by simp
  have ih: "normal_payload (normalizePayload (snd kv)) \<and> payload_meaning (normalizePayload (snd kv)) = payload_meaning (snd kv)"
    if "kv \<in> set (filter defined_member (sort_key fst kvs))" for kv
    using 2(1) [OF that] 2(2) that by (auto simp: list_all_iff)
  have "sorted (map fst ?n)" unfolding keys by (rule sorted_filter) simp
  moreover have "distinct (map fst ?n)" unfolding keys using d' by (rule distinct_map_filter)
  ultimately have "normal_payload (VObj ?n)" using ih by (auto simp: list_all_iff defined_member_def)
  moreover have "payload_meaning (VObj ?n) = payload_meaning (VObj kvs)"
  proof -
    have m: "map_of ?n k = map_option normalizePayload (case map_of kvs k of Some v \<Rightarrow> if v = VUndefined then None else Some v | None \<Rightarrow> None)" for k
      by (simp add: map_of_second map_of_filter_defined [OF d'] map_of_sort_key [OF d])
    have "payload_meaning (normalizePayload v) = payload_meaning v" if "map_of kvs k = Some v" "v \<noteq> VUndefined" for k v
      using ih [of "(k, v)"] map_of_SomeD [OF that(1)] that(2) by (simp add: defined_member_def)
    then show ?thesis unfolding obj_meaning m by (auto simp: fun_eq_iff split: option.split)
  qed
  ultimately show ?case by simp
qed simp_all

lemma normal_wf: "normal_payload v \<Longrightarrow> wf_payload v"
  by (induction v) (auto simp: list_all_iff)

text \<open>Two normal objects with the same members are the same list.\<close>

lemma normal_members:
  assumes "normal_payload (VObj kvs)"
  shows "payload_meaning (VObj kvs) = MObj (\<lambda>k. map_option payload_meaning (map_of kvs k))"
proof -
  have "v \<noteq> VUndefined" if "map_of kvs k = Some v" for k v
    using assms map_of_SomeD [OF that] by (auto simp: list_all_iff defined_member_def)
  then show ?thesis unfolding obj_meaning by (auto simp: fun_eq_iff split: option.split)
qed

lemma assoc_by_keys:
  assumes "map fst xs = map fst ys" "distinct (map fst xs)"
    "\<And>k v w. map_of xs k = Some v \<Longrightarrow> map_of ys k = Some w \<Longrightarrow> v = w"
  shows "xs = ys"
proof (rule nth_equalityI)
  show len: "length xs = length ys" using assms(1) by (metis length_map)
  fix i
  assume i: "i < length xs"
  then have key: "fst (xs ! i) = fst (ys ! i)" using assms(1) len by (metis nth_map)
  have "map_of xs (fst (xs ! i)) = Some (snd (xs ! i))" using i assms(2) by (intro map_of_is_SomeI) simp_all
  moreover have "map_of ys (fst (ys ! i)) = Some (snd (ys ! i))"
    using i len assms(1,2) by (intro map_of_is_SomeI) simp_all
  ultimately show "xs ! i = ys ! i" using assms(3) key by (metis prod.expand)
qed

lemma normal_unique:
  "normal_payload v \<Longrightarrow> normal_payload w \<Longrightarrow> payload_meaning v = payload_meaning w \<Longrightarrow> v = w"
proof (induction v arbitrary: w)
  case (VArr xs)
  then obtain ys where ys: "w = VArr ys" "map payload_meaning xs = map payload_meaning ys" by (cases w) auto
  have "xs = ys"
  proof (rule nth_equalityI)
    show len: "length xs = length ys" using ys(2) by (metis length_map)
    fix i
    assume i: "i < length xs"
    then have "payload_meaning (xs ! i) = payload_meaning (ys ! i)" using ys(2) len by (metis nth_map)
    with VArr.IH [of "xs ! i" "ys ! i"] VArr.prems(1,2) ys(1) i len show "xs ! i = ys ! i" by (simp add: list_all_length)
  qed
  with ys show ?case by simp
next
  case (VObj kvs)
  then obtain kvs' where w: "w = VObj kvs'" by (cases w) auto
  have m: "map_option payload_meaning (map_of kvs k) = map_option payload_meaning (map_of kvs' k)" for k
    using VObj.prems(3) unfolding w normal_members [OF VObj.prems(1)] normal_members [OF VObj.prems(2) [unfolded w]]
    by (simp add: fun_eq_iff)
  have "fst ` set kvs = fst ` set kvs'"
    using m by (auto simp: set_eq_iff) (metis (no_types, lifting) map_of_eq_None_iff image_eqI fst_conv option.map_disc_iff)+
  then have keys: "map fst kvs = map fst kvs'"
    using VObj.prems(1,2) w by (intro sorted_distinct_set_unique) simp_all
  have "kvs = kvs'"
  proof (rule assoc_by_keys [OF keys])
    show "distinct (map fst kvs)" using VObj.prems(1) by simp
    fix k u u'
    assume u: "map_of kvs k = Some u" "map_of kvs' k = Some u'"
    note in_set = map_of_SomeD [OF u(1)] map_of_SomeD [OF u(2)]
    from m [of k] u have "payload_meaning u = payload_meaning u'" by simp
    moreover have "normal_payload u" "normal_payload u'" using in_set VObj.prems(1,2) w by (auto simp: list_all_iff)
    ultimately show "u = u'" using VObj.IH [of "(k, u)" u u'] in_set(1) by simp
  qed
  with w show ?case by simp
qed (simp_all add: meaning_scalar)

interpretation payloads: normaliser normalizePayload wf_payload normal_payload payload_meaning
  by unfold_locales (simp_all add: normalize_wf normal_wf normal_unique)

section \<open>Slots are unambiguous\<close>

lemma of_hex_digit: "d < 16 \<Longrightarrow> of_char (hex_digit d) = (if d < 10 then 48 + d else 55 + d :: nat)"
  unfolding hex_digit_def of_char_of by auto

lemma hex_digit_inj: "a < 16 \<Longrightarrow> b < 16 \<Longrightarrow> hex_digit a = hex_digit b \<longleftrightarrow> a = b"
proof
  assume "a < 16" "b < 16" "hex_digit a = hex_digit b"
  then have "(if a < 10 then 48 + a else 55 + a) = (if b < 10 then 48 + b else 55 + b)"
    using of_hex_digit [of a] of_hex_digit [of b] by simp
  then show "a = b" by (simp split: if_splits)
qed simp

lemma char_code: "(of_char c :: nat) < 256"
  by simp

lemma percent_reserved: "\<not> unreserved (CHR ''%'')" "\<not> unreserved (CHR '':'')"
  by (simp_all add: unreserved_def)

lemma encode_char_prefix:
  assumes "prefix (encode_char a) (encode_char b)"
  shows "a = b"
proof -
  let ?a = "of_char a :: nat" and ?b = "of_char b :: nat"
  have eq: "?a = ?b \<Longrightarrow> a = b" by simp
  have hd: "hd (percent n @ r) = CHR ''%''" for n r by (simp add: percent_def)
  show ?thesis
  proof (cases "unreserved a")
    case True
    then have "encode_char a = [a]" by (simp add: encode_char_def)
    with assms True percent_reserved(1) show ?thesis
      by (auto simp: encode_char_def percent_def Let_def split: if_splits)
  next
    case na: False
    then have nb: "\<not> unreserved b"
      using assms by (auto simp: encode_char_def percent_def Let_def split: if_splits)
    have split: "prefix (percent m @ x) (percent n @ y) \<longleftrightarrow> m = n \<and> prefix x y" if "m < 256" "n < 256" for m n x y
      using that by (simp add: percent_def hex_digit_inj) (metis div_mult_mod_eq)
    have "encode_char c = percent (if (of_char c :: nat) < 128 then of_char c else 192 + of_char c div 64) @
        (if (of_char c :: nat) < 128 then [] else percent (128 + of_char c mod 64))" if "\<not> unreserved c" for c
      using that by (simp add: encode_char_def Let_def)
    note enc = this [OF na] this [OF nb]
    have small: "?a div 64 < 4" "?b div 64 < 4" "?a mod 64 < 64" "?b mod 64 < 64"
      using char_code [of a] char_code [of b] by (simp_all add: less_mult_imp_div_less)
    show ?thesis
    proof (cases "?a < 128 \<or> ?b < 128")
      case True
      with assms small have "?a = ?b" unfolding enc by (subst (asm) split) (auto split: if_splits)
      then show ?thesis by (rule eq)
    next
      case False
      with assms small have "?a div 64 = ?b div 64 \<and> prefix (percent (128 + ?a mod 64) @ []) (percent (128 + ?b mod 64) @ [])"
        unfolding enc by (subst (asm) split) auto
      with small have "?a div 64 = ?b div 64" "?a mod 64 = ?b mod 64" by (subst (asm) split; simp)+
      then have "?a = ?b" by (metis div_mult_mod_eq)
      then show ?thesis by (rule eq)
    qed
  qed
qed

lemma encode_inj: "encodeURIComponent s = encodeURIComponent t \<Longrightarrow> s = t"
proof (induction s arbitrary: t)
  case Nil
  then show ?case by (cases t) (auto simp: encodeURIComponent_def encode_char_def percent_def Let_def split: if_splits)
next
  case (Cons a s)
  have ne: "encode_char c \<noteq> []" for c by (simp add: encode_char_def percent_def Let_def)
  obtain b t' where t: "t = b # t'" using Cons.prems ne by (cases t) (auto simp: encodeURIComponent_def)
  have eq: "encode_char a @ encodeURIComponent s = encode_char b @ encodeURIComponent t'"
    using Cons.prems t by (simp add: encodeURIComponent_def)
  then have "prefix (encode_char a) (encode_char b) \<or> prefix (encode_char b) (encode_char a)"
    by (metis prefix_same_cases prefixI)
  then have "a = b" using encode_char_prefix by metis
  with eq Cons.IH t show ?case by simp
qed

lemma hex_not_colon: "d < 16 \<Longrightarrow> hex_digit d \<noteq> CHR '':''"
  using of_hex_digit [of d] by (auto split: if_splits)

lemma encode_no_colon: "CHR '':'' \<notin> set (encodeURIComponent s)"
proof -
  have "CHR '':'' \<notin> set (percent n)" if "n < 256" for n
    using hex_not_colon [of "n div 16"] hex_not_colon [of "n mod 16"] less_mult_imp_div_less [of n 16 16] that
    by (auto simp: percent_def)
  moreover have "192 + (of_char c :: nat) div 64 < 256" "128 + (of_char c :: nat) mod 64 < 256" for c
    using less_mult_imp_div_less [of "of_char c" 4 64] char_code [of c] by auto
  ultimately show ?thesis using percent_reserved(2)
    by (auto simp: encodeURIComponent_def encode_char_def Let_def split: if_splits)
qed

lemma storageSlot_inj:
  "storageSlot op t f = storageSlot op' t' f' \<longleftrightarrow> op = op' \<and> t = t' \<and> f = f'"
proof
  assume "storageSlot op t f = storageSlot op' t' f'"
  then have 1: "encodeURIComponent op @ CHR '':'' # (encodeURIComponent t @ CHR '':'' # encodeURIComponent f) =
      encodeURIComponent op' @ CHR '':'' # (encodeURIComponent t' @ CHR '':'' # encodeURIComponent f')"
    by (simp add: storageSlot_def)
  note 2 = split_unique [OF encode_no_colon encode_no_colon 1]
  note 3 = split_unique [OF encode_no_colon encode_no_colon 2 [THEN conjunct2]]
  from 2 3 show "op = op' \<and> t = t' \<and> f = f'" using encode_inj by blast
qed simp

text \<open>Two calls that ask for the same.\<close>

definition same_intent :: "intent \<Rightarrow> intent \<Rightarrow> bool" where
  "same_intent i j \<longleftrightarrow> in_operation i = in_operation j \<and> in_target i = in_target j \<and> payload_meaning (in_payload i) = payload_meaning (in_payload j)"

lemma slot_same_intent:
  assumes "inj_on stringify {normalizePayload (in_payload i), normalizePayload (in_payload j)}"
    and "wf_payload (in_payload i)" "wf_payload (in_payload j)"
    and "in_payload i \<notin> {VUndefined, VNull}" "in_payload j \<notin> {VUndefined, VNull}"
  shows "intent_slot stringify i = intent_slot stringify j \<longleftrightarrow> same_intent i j"
proof -
  have fp: "intent_fingerprint stringify x = stringify (normalizePayload (in_payload x))" if "in_payload x \<notin> {VUndefined, VNull}" for x
    using that by (simp add: intent_fingerprint_def fingerprintIdempotencyPayload_def)
  have "stringify (normalizePayload (in_payload i)) = stringify (normalizePayload (in_payload j)) \<longleftrightarrow>
      normalizePayload (in_payload i) = normalizePayload (in_payload j)"
    using assms(1) by (rule inj_on_eq_iff) simp_all
  then show ?thesis using assms by (simp add: same_intent_def intent_slot_def storageSlot_inj fp payloads.norm_eq_iff)
qed

text \<open>
  C27: a slot stands for one intent.  Two calls use the same slot exactly when they name the
  same operation, the same target and payloads that mean the same, whatever the order of
  their members and whichever optional members are spelled out as \<open>undefined\<close>.
  \<open>JSON.stringify\<close> is only assumed to tell the two payloads apart where they differ after
  normalisation.
\<close>

theorem same_slot_iff_same_intent:
  assumes "inj_on stringify {normalizePayload (in_payload i), normalizePayload (in_payload j)}"
    and "wf_payload (in_payload i)" and "wf_payload (in_payload j)"
    and "in_payload i \<notin> {VUndefined, VNull}" and "in_payload j \<notin> {VUndefined, VNull}"
  shows "intent_slot stringify i = intent_slot stringify j \<longleftrightarrow>
    in_operation i = in_operation j \<and> in_target i = in_target j \<and>
    payload_meaning (in_payload i) = payload_meaning (in_payload j)"
  using slot_same_intent [OF assms] by (simp add: same_intent_def)

section \<open>The records as a map\<close>

text \<open>What the module writes: records whose key is a non-empty text.\<close>

definition string_key :: "IdempotencyRecord \<Rightarrow> bool" where
  "string_key r \<longleftrightarrow> (case rec_key r of JStr k \<Rightarrow> k \<noteq> [] | _ \<Rightarrow> False)"

definition storage_laws :: "(string \<Rightarrow> json option) \<Rightarrow> (json \<Rightarrow> string) \<Rightarrow> bool" where
  "storage_laws parse json_text \<longleftrightarrow> parse ''null'' = Some JNull \<and> 
     (\<forall>r. string_key r \<longrightarrow> parse (json_text (record_json r)) = Some (record_json r))"

definition stored_text :: "idempotency \<Rightarrow> string \<Rightarrow> string option" where
  "stored_text ks slot = Option.bind (im_storage ks) (\<lambda>st. getItem st slot)"

definition accepts_all :: "LocalStorage option \<Rightarrow> bool" where
  "accepts_all storage \<longleftrightarrow> (case storage of Some st \<Rightarrow> (\<forall>k v. ls_accepts st k v) | None \<Rightarrow> False)"

text \<open>
  Memory and storage together hold the records \<open>f\<close>: memory is a part of them, the storage
  holds nothing else, and a record is in one of the two; in the storage, if \<open>durable\<close>.
\<close>

definition represents :: "(json \<Rightarrow> string) \<Rightarrow> bool \<Rightarrow> idempotency \<Rightarrow> (string \<Rightarrow> IdempotencyRecord option) \<Rightarrow> bool" where
  "represents json_text durable ks f \<longleftrightarrow>
     (\<forall>slot. im_memory ks slot = None \<or> im_memory ks slot = f slot) \<and>
     (\<forall>slot t. stored_text ks slot = Some t \<longrightarrow> (\<exists>r. f slot = Some r \<and> t = json_text (record_json r))) \<and>
     (\<forall>slot r. f slot = Some r \<longrightarrow> string_key r \<and>
        (im_memory ks slot = Some r \<or> stored_text ks slot = Some (json_text (record_json r)))) \<and>
     (durable \<longrightarrow> accepts_all (im_storage ks) \<and>
        (\<forall>slot r. f slot = Some r \<longrightarrow> stored_text ks slot = Some (json_text (record_json r))))"

lemma record_inverse: "string_key r \<Longrightarrow> record_of_json (record_json r) = Some r"
  by (cases "rec_key r") (auto simp: record_of_json_def record_json_def string_key_def)

lemma rep_memory: "represents json_text durable ks f \<Longrightarrow> im_memory ks slot = Some r \<Longrightarrow> f slot = Some r"
  unfolding represents_def by (metis option.distinct(1))

lemma rep_none: "represents json_text durable ks f \<Longrightarrow> f slot = None \<Longrightarrow> stored_text ks slot = None"
  unfolding represents_def by (metis option.distinct(1) option.exhaust)

lemma rep_read:
  assumes "storage_laws parse json_text" "represents json_text durable ks f"
  obtains ks' where "readRecord parse slot ks = (f slot, ks')" "represents json_text durable ks' f"
proof (cases "im_memory ks slot")
  case (Some r)
  then have "f slot = Some r" using rep_memory [OF assms(2)] by simp
  with Some that [of ks] assms(2) show ?thesis by (simp add: readRecord_def)
next
  case None
  show ?thesis
  proof (cases "f slot")
    case fn: None
    then have "stored_text ks slot = None" by (rule rep_none [OF assms(2)])
    with None assms(1) have "readRecord parse slot ks = (None, ks)"
      by (cases "im_storage ks") (auto simp: readRecord_def stored_text_def storage_laws_def nullish_def record_of_json_def)
    with fn that [of ks] assms(2) show ?thesis by simp
  next
    case (Some r)
    then have r: "string_key r" "stored_text ks slot = Some (json_text (record_json r))"
      using assms(2) None unfolding represents_def by (metis option.distinct(1))+
    then obtain st where st: "im_storage ks = Some st" "getItem st slot = Some (json_text (record_json r))"
      by (auto simp: stored_text_def split: Option.bind_splits)
    let ?ks = "ks\<lparr>im_memory := (im_memory ks)(slot \<mapsto> r)\<rparr>"
    have "represents json_text durable ?ks f" using assms(2) Some r
      unfolding represents_def by (auto simp: stored_text_def)
    with that [of ?ks] None Some st assms(1) r show ?thesis
      by (simp add: readRecord_def storage_laws_def nullish_def record_inverse)
  qed
qed

lemma rep_write:
  assumes "represents json_text durable ks f" "f slot = None" "string_key r"
  shows "represents json_text durable (writeRecord json_text slot r ks) (f(slot \<mapsto> r))"
proof -
  let ?ks = "writeRecord json_text slot r ks"
  have none: "stored_text ks slot = None" by (rule rep_none [OF assms(1,2)])
  have mem: "im_memory ?ks = (im_memory ks)(slot \<mapsto> r)" by (simp add: writeRecord_def)
  have acc: "accepts_all (im_storage ?ks) = accepts_all (im_storage ks)"
    by (auto simp: writeRecord_def accepts_all_def setItem_def nullish_def split: option.split)
  have other: "stored_text ?ks s' = stored_text ks s'" if "s' \<noteq> slot" for s'
    using that by (auto simp: writeRecord_def stored_text_def setItem_def getItem_def nullish_def split: Option.bind_split)
  have at: "stored_text ?ks slot = Some (json_text (record_json r)) \<or> stored_text ?ks slot = None"
    using none by (auto simp: writeRecord_def stored_text_def setItem_def getItem_def nullish_def split: Option.bind_splits)
  have "stored_text ?ks slot = Some (json_text (record_json r))" if "accepts_all (im_storage ks)"
    using that by (auto simp: writeRecord_def stored_text_def setItem_def getItem_def nullish_def accepts_all_def split: option.splits)
  with assms mem acc other at show ?thesis unfolding represents_def by (auto simp: fun_upd_def)
qed

lemma rep_remove:
  assumes "represents json_text durable ks f"
  shows "represents json_text durable
    (ks\<lparr>im_memory := (im_memory ks)(slot := None), im_storage := map_option (\<lambda>st. removeItem st slot) (im_storage ks)\<rparr>) (f(slot := None))"
proof -
  let ?ks = "ks\<lparr>im_memory := (im_memory ks)(slot := None), im_storage := map_option (\<lambda>st. removeItem st slot) (im_storage ks)\<rparr>"
  have "stored_text ?ks s' = (if s' = slot then None else stored_text ks s')" for s'
    by (auto simp: stored_text_def removeItem_def getItem_def split: Option.bind_split)
  moreover have "accepts_all (im_storage ?ks) = accepts_all (im_storage ks)"
    by (auto simp: accepts_all_def removeItem_def split: option.split)
  ultimately show ?thesis using assms unfolding represents_def by (auto simp: fun_upd_def)
qed

lemma rep_reload: "represents json_text True ks f \<Longrightarrow> represents json_text True (ks\<lparr>im_memory := Map.empty\<rparr>) f"
  by (auto simp: represents_def stored_text_def)

lemma rep_get_key:
  assumes "storage_laws parse json_text" "represents json_text durable ks f"
    and "\<And>r. f (intent_slot stringify i) = Some r \<Longrightarrow> rec_fingerprint r = intent_fingerprint stringify i"
  obtains ks' where
    "getOrCreateOrganizationIdempotencyKey stringify parse json_text i uuid ks =
       (case f (intent_slot stringify i) of Some r \<Rightarrow> rec_key r | None \<Rightarrow> JStr (generateKey (in_operation i) (in_target i) uuid), ks')"
    "represents json_text durable ks' (case f (intent_slot stringify i) of
       Some r \<Rightarrow> f
     | None \<Rightarrow> f(intent_slot stringify i \<mapsto>
         \<lparr>rec_fingerprint = intent_fingerprint stringify i, rec_key = JStr (generateKey (in_operation i) (in_target i) uuid)\<rparr>))"
proof -
  let ?slot = "intent_slot stringify i"
  obtain ks1 where read: "readRecord parse ?slot ks = (f ?slot, ks1)" "represents json_text durable ks1 f"
    using rep_read [OF assms(1,2)] .
  show ?thesis
  proof (cases "f ?slot")
    case None
    with read that show ?thesis
      by (simp add: getOrCreateOrganizationIdempotencyKey_def Let_def rep_write generateKey_def string_key_def)
  next
    case (Some r)
    with read assms(3) that show ?thesis by (simp add: getOrCreateOrganizationIdempotencyKey_def Let_def)
  qed
qed

lemma rep_clear_key:
  assumes "storage_laws parse json_text" "represents json_text durable ks f"
    and "\<And>r. f (intent_slot stringify i) = Some r \<Longrightarrow> rec_fingerprint r = intent_fingerprint stringify i"
  shows "represents json_text durable (clearOrganizationIdempotencyKey stringify parse i ks) (f(intent_slot stringify i := None))"
proof -
  let ?slot = "intent_slot stringify i"
  obtain ks1 where read: "readRecord parse ?slot ks = (f ?slot, ks1)" "represents json_text durable ks1 f"
    using rep_read [OF assms(1,2)] .
  show ?thesis
  proof (cases "f ?slot")
    case None
    then have "f(?slot := None) = f" by auto
    with None read show ?thesis by (simp add: clearOrganizationIdempotencyKey_def Let_def)
  next
    case (Some r)
    with read assms(3) show ?thesis by (simp add: clearOrganizationIdempotencyKey_def Let_def rep_remove)
  qed
qed

section \<open>The protocol\<close>

text \<open>The key a slot is bound to after a history: that of its last request, until one succeeds.\<close>

primrec current_key :: "string \<Rightarrow> log_entry list \<Rightarrow> json option" where
  "current_key slot [] = None"
| "current_key slot (e # older) =
     (case e of
        Sent slot' key \<Rightarrow> if slot' = slot then Some key else current_key slot older
      | Succeeded slot' \<Rightarrow> if slot' = slot then None else current_key slot older)"

text \<open>Every request repeats the key its slot is bound to, or carries one never sent for it.\<close>

primrec disciplined :: "log_entry list \<Rightarrow> bool" where
  "disciplined [] = True"
| "disciplined (e # older) =
     (disciplined older \<and>
      (case e of
         Sent slot key \<Rightarrow>
           (case current_key slot older of
              Some bound \<Rightarrow> key = bound
            | None \<Rightarrow> Sent slot key \<notin> set older)
       | Succeeded _ \<Rightarrow> True))"

definition uuids :: "flight_event list \<Rightarrow> string list" where
  "uuids evs = concat (map (\<lambda>e. case e of Call _ u \<Rightarrow> [u] | _ \<Rightarrow> []) evs)"

text \<open>
  In the invariant, \<open>owner\<close> gives the intent an identifier was drawn for: a key that was sent was generated for the intent of its slot.
\<close>

definition flight_inv :: "(jsval \<Rightarrow> string) \<Rightarrow> (json \<Rightarrow> string) \<Rightarrow> (string \<Rightarrow> intent) \<Rightarrow> bool \<Rightarrow> string set \<Rightarrow> flights \<Rightarrow> bool" where
  "flight_inv stringify json_text owner durable used s \<longleftrightarrow>
     (\<exists>f. represents json_text durable (fl_keys s) f \<and>
        (\<forall>slot. map_option rec_key (f slot) = current_key slot (fl_log s)) \<and>
        (\<forall>i r. f (intent_slot stringify i) = Some r \<longrightarrow> rec_fingerprint r = intent_fingerprint stringify i)) \<and>
     (\<forall>slot key. Sent slot key \<in> set (fl_log s) \<longrightarrow>
        (\<exists>u \<in> used. slot = intent_slot stringify (owner u) \<and> key = JStr (generateKey (in_operation (owner u)) (in_target (owner u)) u))) \<and>
     disciplined (fl_log s)"

lemma generateKey_inj: "generateKey op t u = generateKey op t v \<longleftrightarrow> u = v"
  by (simp add: generateKey_def)

lemma slot_parts:
  "intent_slot stringify i = intent_slot stringify j \<Longrightarrow>
   in_operation i = in_operation j \<and> in_target i = in_target j \<and> intent_fingerprint stringify i = intent_fingerprint stringify j"
  by (simp add: intent_slot_def storageSlot_inj)

lemma current_key_sent: "current_key slot entries = Some key \<Longrightarrow> Sent slot key \<in> set entries"
  by (induction entries) (auto split: log_entry.splits if_splits)

lemma inv_mono: "flight_inv stringify json_text owner durable used s \<Longrightarrow> used \<subseteq> used' \<Longrightarrow> flight_inv stringify json_text owner durable used' s"
  unfolding flight_inv_def by (meson subsetD)

lemma inv_call:
  assumes laws: "storage_laws parse json_text" and inv: "flight_inv stringify json_text owner durable used s" and new: "u \<notin> used" and owner: "owner u = i"
  shows "flight_inv stringify json_text owner durable (insert u used) (snd (call_request stringify parse json_text i u s))"
proof (cases "map_of (fl_inFlight s) (intent_slot stringify i)")
  case (Some n)
  with inv inv_mono [OF inv] show ?thesis by (auto simp: call_request_def Let_def)
next
  case None
  let ?slot = "intent_slot stringify i" and ?fresh = "JStr (generateKey (in_operation i) (in_target i) u)"
  from inv obtain f where f: "represents json_text durable (fl_keys s) f"
    "\<And>slot. map_option rec_key (f slot) = current_key slot (fl_log s)"
    "\<And>i r. f (intent_slot stringify i) = Some r \<Longrightarrow> rec_fingerprint r = intent_fingerprint stringify i"
    by (auto simp: flight_inv_def)
  from inv have sent: "\<exists>u \<in> used. slot = intent_slot stringify (owner u) \<and> key = JStr (generateKey (in_operation (owner u)) (in_target (owner u)) u)"
    if "Sent slot key \<in> set (fl_log s)" for slot key using that by (auto simp: flight_inv_def)
  have disc: "disciplined (fl_log s)" using inv by (simp add: flight_inv_def)
  let ?key = "case f ?slot of Some r \<Rightarrow> rec_key r | None \<Rightarrow> ?fresh"
  let ?f = "case f ?slot of Some r \<Rightarrow> f | None \<Rightarrow> f(?slot \<mapsto> \<lparr>rec_fingerprint = intent_fingerprint stringify i, rec_key = ?fresh\<rparr>)"
  obtain ks where ks: "getOrCreateOrganizationIdempotencyKey stringify parse json_text i u (fl_keys s) = (?key, ks)"
    "represents json_text durable ks ?f"
    using rep_get_key [OF laws f(1,3)] .
  have s': "fl_keys (snd (call_request stringify parse json_text i u s)) = ks"
    "fl_log (snd (call_request stringify parse json_text i u s)) = Sent ?slot ?key # fl_log s"
    using None ks(1) by (simp_all add: call_request_def Let_def)
  have keys: "map_option rec_key (?f slot) = current_key slot (Sent ?slot ?key # fl_log s)" for slot
    using f(2) [of slot] f(2) [of ?slot] by (auto split: option.split)
  have fps: "rec_fingerprint r = intent_fingerprint stringify j" if "?f (intent_slot stringify j) = Some r" for j r
    using that f(3) slot_parts [of stringify i j] by (auto split: option.splits if_splits)
  have unsent: "Sent ?slot ?fresh \<notin> set (fl_log s)"
  proof
    assume "Sent ?slot ?fresh \<in> set (fl_log s)"
    from sent [OF this] obtain v where v: "v \<in> used" "?slot = intent_slot stringify (owner v)"
      "?fresh = JStr (generateKey (in_operation (owner v)) (in_target (owner v)) v)" by blast
    from slot_parts [OF v(2)] v(3) have "u = v" by (simp add: generateKey_inj)
    with v(1) new show False by simp
  qed
  have key_from: "\<exists>u' \<in> insert u used. ?slot = intent_slot stringify (owner u') \<and> ?key = JStr (generateKey (in_operation (owner u')) (in_target (owner u')) u')"
  proof (cases "f ?slot")
    case (Some r)
    then have "current_key ?slot (fl_log s) = Some (rec_key r)" using f(2) [of ?slot] by simp
    then have "Sent ?slot (rec_key r) \<in> set (fl_log s)" by (rule current_key_sent)
    from sent [OF this] Some show ?thesis by simp
  qed (simp add: owner)
  have disc': "disciplined (Sent ?slot ?key # fl_log s)" using disc unsent f(2) [of ?slot] by (auto split: option.split)
  have sent': "\<exists>v \<in> insert u used. slot = intent_slot stringify (owner v) \<and> key = JStr (generateKey (in_operation (owner v)) (in_target (owner v)) v)"
    if "Sent slot key \<in> set (Sent ?slot ?key # fl_log s)" for slot key
  proof (cases "Sent slot key = Sent ?slot ?key")
    case True
    then show ?thesis using key_from by simp
  next
    case False
    with that have "Sent slot key \<in> set (fl_log s)" by auto
    from sent [OF this] show ?thesis by blast
  qed
  have rep: "\<exists>f. represents json_text durable ks f \<and> (\<forall>slot. map_option rec_key (f slot) = current_key slot (Sent ?slot ?key # fl_log s)) \<and>
      (\<forall>i r. f (intent_slot stringify i) = Some r \<longrightarrow> rec_fingerprint r = intent_fingerprint stringify i)"
    by (rule exI [of _ ?f]) (use ks(2) keys fps in blast)
  show ?thesis unfolding flight_inv_def s' using rep sent' disc' by blast
qed

lemma inv_settled:
  assumes laws: "storage_laws parse json_text" and inv: "flight_inv stringify json_text owner durable used s"
  shows "flight_inv stringify json_text owner durable used (request_settled stringify parse n ok s)"
proof (cases "map_of (fl_pending s) n")
  case None
  with inv show ?thesis by (simp add: request_settled_def)
next
  case (Some i)
  let ?slot = "intent_slot stringify i"
  from inv obtain f where f: "represents json_text durable (fl_keys s) f"
    "\<And>slot. map_option rec_key (f slot) = current_key slot (fl_log s)"
    "\<And>i r. f (intent_slot stringify i) = Some r \<Longrightarrow> rec_fingerprint r = intent_fingerprint stringify i"
    by (auto simp: flight_inv_def)
  show ?thesis
  proof (cases ok)
    case True
    have "represents json_text durable (clearOrganizationIdempotencyKey stringify parse i (fl_keys s)) (f(?slot := None))"
      using rep_clear_key [OF laws f(1,3)] .
    moreover have "map_option rec_key ((f(?slot := None)) slot) = current_key slot (Succeeded ?slot # fl_log s)" for slot
      using f(2) by simp
    moreover have "rec_fingerprint r = intent_fingerprint stringify j" if "(f(?slot := None)) (intent_slot stringify j) = Some r" for j r
      using that f(3) by (simp split: if_splits)
    ultimately have rep: "\<exists>f. represents json_text durable (clearOrganizationIdempotencyKey stringify parse i (fl_keys s)) f \<and>
        (\<forall>slot. map_option rec_key (f slot) = current_key slot (Succeeded ?slot # fl_log s)) \<and>
        (\<forall>i r. f (intent_slot stringify i) = Some r \<longrightarrow> rec_fingerprint r = intent_fingerprint stringify i)" by blast
    have s': "fl_keys (request_settled stringify parse n ok s) = clearOrganizationIdempotencyKey stringify parse i (fl_keys s)"
      "fl_log (request_settled stringify parse n ok s) = Succeeded ?slot # fl_log s"
      using Some True by (simp_all add: request_settled_def)
    show ?thesis unfolding flight_inv_def s' using rep inv by (simp add: flight_inv_def)
  next
    case False
    with Some inv show ?thesis by (simp add: request_settled_def flight_inv_def)
  qed
qed

lemma inv_reload:
  assumes "flight_inv stringify json_text owner True used s"
  shows "flight_inv stringify json_text owner True used (reload_page s)"
  using assms by (auto simp: flight_inv_def reload_page_def dest: rep_reload)

lemma inv_ended: "flight_inv stringify json_text owner durable used s \<Longrightarrow> flight_inv stringify json_text owner durable used (flight_ended n s)"
  by (simp add: flight_inv_def flight_ended_def)

lemma inv_flight_run:
  assumes "storage_laws parse json_text"
  shows "flight_inv stringify json_text owner durable used s \<Longrightarrow> distinct (uuids evs) \<Longrightarrow> set (uuids evs) \<inter> used = {} \<Longrightarrow>
    durable \<or> Reload \<notin> set evs \<Longrightarrow> (\<And>i u. Call i u \<in> set evs \<Longrightarrow> owner u = i) \<Longrightarrow>
    flight_inv stringify json_text owner durable (used \<union> set (uuids evs)) (flight_run stringify parse json_text evs s)"
proof (induction evs arbitrary: s used)
  case (Cons e evs)
  have run: "flight_run stringify parse json_text (e # evs) s = flight_run stringify parse json_text evs (flight_step stringify parse json_text e s)"
    by (simp add: flight_run_def)
  show ?case
  proof (cases e)
    case (Call i u)
    have "flight_inv stringify json_text owner durable (insert u used) (flight_step stringify parse json_text e s)"
      unfolding Call flight_step.simps by (rule inv_call [OF assms Cons.prems(1)]) (use Cons.prems(3,5) Call in \<open>simp_all add: uuids_def\<close>)
    from Cons.IH [OF this] Cons.prems Call show ?thesis unfolding run by (simp add: uuids_def Un_commute)
  next
    case (Settled n ok)
    with Cons.IH [OF inv_settled [OF assms Cons.prems(1)]] Cons.prems show ?thesis unfolding run by (simp add: uuids_def)
  next
    case (Ended n)
    with Cons.IH [OF inv_ended [OF Cons.prems(1)]] Cons.prems show ?thesis unfolding run by (simp add: uuids_def)
  next
    case Reload
    then have "durable" using Cons.prems(4) by simp
    then have "flight_inv stringify json_text owner durable used (flight_step stringify parse json_text e s)"
      using inv_reload Cons.prems(1) Reload by simp
    with Reload Cons.IH [OF this] Cons.prems show ?thesis unfolding run by (simp add: uuids_def)
  qed
qed (simp add: flight_run_def uuids_def)

lemma inv_new_page:
  assumes "durable \<longrightarrow> accepts_all storage" "\<And>st. storage = Some st \<Longrightarrow> ls_items st = Map.empty"
  shows "flight_inv stringify json_text owner durable {} (new_page storage)"
proof -
  have "stored_text (fl_keys (new_page storage)) slot = None" for slot
    using assms(2) by (cases storage) (auto simp: new_page_def stored_text_def getItem_def)
  then have "represents json_text durable (fl_keys (new_page storage)) Map.empty"
    using assms(1) by (simp add: represents_def new_page_def)
  then show ?thesis by (auto simp: flight_inv_def new_page_def intro!: exI [of _ Map.empty])
qed

text \<open>The intents a history calls.\<close>

definition called :: "flight_event list \<Rightarrow> intent list" where
  "called evs = concat (map (\<lambda>e. case e of Call i _ \<Rightarrow> [i] | _ \<Rightarrow> []) evs)"

text \<open>
  Identifiers of one shape, as \<open>randomUUID\<close> and its replacement draw them: none is another one with more in front of it.
\<close>

definition separate :: "string list \<Rightarrow> bool" where
  "separate us \<longleftrightarrow> distinct us \<and> list_all (\<lambda>u. list_all (\<lambda>v. \<not> suffix (CHR '':'' # u) v) us) us"

lemma key_uuid:
  assumes "separate us" "u \<in> set us" "v \<in> set us" "generateKey op t u = generateKey op' t' v"
  shows "u = v"
proof -
  have no: "\<not> suffix (CHR '':'' # u) v" "\<not> suffix (CHR '':'' # v) u" using assms(1-3) by (auto simp: separate_def list_all_iff)
  have "suffix (CHR '':'' # w) (generateKey o' t'' w)" for w o' t'' by (rule suffixI [of _ "o' @ CHR '':'' # t''"]) (simp add: generateKey_def)
  from this [of u op t] this [of v op' t', folded assms(4)] have "suffix (CHR '':'' # u) (CHR '':'' # v) \<or> suffix (CHR '':'' # v) (CHR '':'' # u)" by (rule suffix_same_cases)
  with no show ?thesis by (auto simp: suffix_Cons)
qed

lemma call_owner: "distinct (uuids evs) \<Longrightarrow> Call i u \<in> set evs \<Longrightarrow> Call j u \<in> set evs \<Longrightarrow> i = j"
proof (induction evs)
  case (Cons e evs)
  have in_uuids: "u \<in> set (uuids evs)" if "Call k u \<in> set evs" for k using that by (force simp: uuids_def)
  from Cons show ?case by (cases e) (auto simp: uuids_def dest: in_uuids [unfolded uuids_def])
qed simp

lemma run_invariant:
  assumes "storage_laws parse json_text" "distinct (uuids evs)"
    and "Reload \<notin> set evs \<or> accepts_all storage" "\<forall>st \<in> set_option storage. ls_items st = Map.empty"
  shows "\<exists>owner. flight_inv stringify json_text owner (accepts_all storage) (set (uuids evs)) (flight_run stringify parse json_text evs (new_page storage))"
proof -
  define owner where "owner u = (SOME i. Call i u \<in> set evs)" for u
  have owner: "owner u = i" if "Call i u \<in> set evs" for i u
    using call_owner [OF assms(2) that] someI [of "\<lambda>i. Call i u \<in> set evs", OF that] by (simp add: owner_def)
  have "flight_inv stringify json_text owner (accepts_all storage) {} (new_page storage)"
    using assms(4) by (intro inv_new_page) auto
  from inv_flight_run [OF assms(1) this assms(2)] assms(3) owner show ?thesis by auto
qed

lemma keys_of_one_slot:
  assumes "flight_inv stringify json_text owner durable (set us) s" "separate us"
    and "Sent slot key \<in> set (fl_log s)" "Sent slot' key \<in> set (fl_log s)"
  shows "slot = slot'"
proof -
  have "\<exists>u \<in> set us. sl = intent_slot stringify (owner u) \<and> key = JStr (generateKey (in_operation (owner u)) (in_target (owner u)) u)"
    if "Sent sl key \<in> set (fl_log s)" for sl using assms(1) that unfolding flight_inv_def by blast
  from this [OF assms(3)] this [OF assms(4)] obtain u v where uv: "u \<in> set us" "v \<in> set us"
    "slot = intent_slot stringify (owner u)" "slot' = intent_slot stringify (owner v)"
    "generateKey (in_operation (owner u)) (in_target (owner u)) u = generateKey (in_operation (owner v)) (in_target (owner v)) v"
    by auto
  from key_uuid [OF assms(2) uv(1,2,5)] uv(3,4) show ?thesis by simp
qed

text \<open>
  C26: retries are safe.  However calls, answers and page reloads interleave, a request for an
  intent carries the key of the request before it as long as none has succeeded, and a key
  never sent for it otherwise (\<open>disciplined\<close>, by slots); two calls have the same slot exactly when
  they are the same intent, by operation, target and meaning of the payload; and a key that was
  sent for one intent is never sent for another.  The identifiers drawn are assumed to be new
  and of one shape, \<open>JSON.stringify\<close> to tell the payloads of the history apart where they differ
  after normalisation, \<open>JSON.parse\<close> to read back a record, and, if the page is reloaded, the storage
  to accept what is written.
\<close>

theorem retries_reuse_keys:
  assumes "storage_laws parse json_text" and "separate (uuids evs)"
    and "Reload \<notin> set evs \<or> accepts_all storage" and "\<forall>st \<in> set_option storage. ls_items st = Map.empty"
    and "inj_on stringify ((\<lambda>i. normalizePayload (in_payload i)) ` set (called evs))"
    and "\<forall>i \<in> set (called evs). wf_payload (in_payload i) \<and> in_payload i \<notin> {VUndefined, VNull}"
    and "entries = fl_log (flight_run stringify parse json_text evs (new_page storage))"
  shows "disciplined entries \<and>
    (\<forall>i \<in> set (called evs). \<forall>j \<in> set (called evs).
      (intent_slot stringify i = intent_slot stringify j \<longleftrightarrow> same_intent i j) \<and>
      (\<forall>key. Sent (intent_slot stringify i) key \<in> set entries \<and> Sent (intent_slot stringify j) key \<in> set entries \<longrightarrow> same_intent i j))"
proof -
  have "distinct (uuids evs)" using assms(2) by (simp add: separate_def)
  from run_invariant [OF assms(1) this assms(3,4)] obtain owner where
    inv: "flight_inv stringify json_text owner (accepts_all storage) (set (uuids evs)) (flight_run stringify parse json_text evs (new_page storage))" by blast
  have slots: "intent_slot stringify i = intent_slot stringify j \<longleftrightarrow> same_intent i j" if "i \<in> set (called evs)" "j \<in> set (called evs)" for i j
    using that assms(6) inj_on_subset [OF assms(5), of "{normalizePayload (in_payload i), normalizePayload (in_payload j)}"]
    by (intro slot_same_intent) auto
  have "disciplined entries" using inv by (simp add: flight_inv_def assms(7))
  with slots keys_of_one_slot [OF inv assms(2), folded assms(7)] show ?thesis by blast
qed

text \<open>A pair of functions with the laws: the fingerprint with its length in front, then the key.\<close>

definition sample_json_text :: "json \<Rightarrow> string" where
  "sample_json_text v =
     (case (prop_of v ''fingerprint'', prop_of v ''key'') of
        (Some (JStr f), Some (JStr k)) \<Rightarrow> replicate (length f) (CHR ''x'') @ '':'' @ f @ k
      | _ \<Rightarrow> ''null'')"

definition sample_parse :: "string \<Rightarrow> json option" where
  "sample_parse t =
     (if t = ''null'' then Some JNull
      else let n = length (takeWhile (\<lambda>c. c = CHR ''x'') t); rest = drop (n + 1) t
        in Some (record_json \<lparr>rec_fingerprint = take n rest, rec_key = JStr (drop n rest)\<rparr>))"

lemma sample_laws: "storage_laws sample_parse sample_json_text"
proof -
  have "sample_parse (sample_json_text (record_json r)) = Some (record_json r)" if "string_key r" for r
  proof -
    obtain k where k: "rec_key r = JStr k" using \<open>string_key r\<close> by (cases "rec_key r") (auto simp: string_key_def)
    let ?t = "replicate (length (rec_fingerprint r)) (CHR ''x'') @ CHR '':'' # rec_fingerprint r @ k"
    have "takeWhile (\<lambda>c. c = CHR ''x'') ?t = replicate (length (rec_fingerprint r)) (CHR ''x'')"
      by (subst takeWhile_append2) auto
    moreover have "?t \<noteq> ''null''" by (cases "length (rec_fingerprint r)") auto
    ultimately show ?thesis using k by (simp add: sample_parse_def sample_json_text_def record_json_def Let_def)
  qed
  then show ?thesis by (simp add: storage_laws_def sample_parse_def)
qed

definition disable_intent :: intent where
  "disable_intent = \<lparr>in_operation = ''disable-member'', in_target = ''7'', in_payload = VObj [(''reason'', VStr ''left''), (''note'', VUndefined)]\<rparr>"

definition reason_text :: "jsval \<Rightarrow> string" where
  "reason_text v = (case v of VObj ((_, VStr s) # _) \<Rightarrow> s | _ \<Rightarrow> [])"

definition disable_for :: "string \<Rightarrow> intent" where
  "disable_for reason = disable_intent\<lparr>in_payload := VObj [(''note'', VUndefined), (''reason'', VStr reason)]\<rparr>"

text \<open>
  A call that fails, one for another reason beside it, a reload, and the retry of the first, with its members written in another
  order; then, after its success, the same request once more.
\<close>

definition retry_history :: "flight_event list" where
  "retry_history = [Call disable_intent ''u1'', Call (disable_for ''spam'') ''u2'', Settled 0 False, Ended 0, Reload,
     Call (disable_for ''left'') ''u3'', Settled 2 True, Ended 2, Call disable_intent ''u4'']"

definition sample_log :: "log_entry list" where
  "sample_log = fl_log (flight_run reason_text sample_parse sample_json_text retry_history
     (new_page (Some \<lparr>ls_items = Map.empty, ls_accepts = (\<lambda>_ _. True)\<rparr>)))"

theorem retries_reuse_keys_witness:
  "disciplined sample_log \<and>
   (\<forall>key. \<not> (Sent (intent_slot reason_text disable_intent) key \<in> set sample_log \<and>
      Sent (intent_slot reason_text (disable_for ''spam'')) key \<in> set sample_log)) \<and>
   map (\<lambda>e. case e of Sent _ key \<Rightarrow> Some key | Succeeded _ \<Rightarrow> None) (rev sample_log) =
     [Some (JStr ''disable-member:7:u1''), Some (JStr ''disable-member:7:u2''), Some (JStr ''disable-member:7:u1''), None,
      Some (JStr ''disable-member:7:u4'')]"
proof -
  have called: "set (called retry_history) = {disable_intent, disable_for ''spam'', disable_for ''left''}"
    by (auto simp: called_def retry_history_def)
  have n: "normalizePayload (in_payload disable_intent) = VObj [(''reason'', VStr ''left'')]"
    "normalizePayload (in_payload (disable_for r)) = VObj [(''reason'', VStr r)]" for r
    by (simp_all add: disable_intent_def disable_for_def defined_member_def)
  have inj: "inj_on reason_text ((\<lambda>i. normalizePayload (in_payload i)) ` set (called retry_history))"
    unfolding called image_insert n image_empty by (auto simp: inj_on_def reason_text_def)
  have wf: "\<forall>i \<in> set (called retry_history). wf_payload (in_payload i) \<and> in_payload i \<notin> {VUndefined, VNull}"
    unfolding called by (simp add: disable_intent_def disable_for_def)
  have sep: "separate (uuids retry_history)" by code_simp
  have st: "Reload \<notin> set retry_history \<or> accepts_all (Some \<lparr>ls_items = Map.empty, ls_accepts = (\<lambda>_ _. True)\<rparr>)"
    "\<forall>st \<in> set_option (Some \<lparr>ls_items = Map.empty, ls_accepts = (\<lambda>_ _. True)\<rparr>). ls_items st = Map.empty"
    by (simp_all add: accepts_all_def)
  have "\<not> same_intent disable_intent (disable_for ''spam'')"
    by (simp add: same_intent_def disable_intent_def disable_for_def obj_meaning fun_eq_iff)
  moreover note retries_reuse_keys [OF sample_laws sep st inj wf sample_log_def]
  moreover have "disable_intent \<in> set (called retry_history)" "disable_for ''spam'' \<in> set (called retry_history)" unfolding called by simp_all
  moreover have "map (\<lambda>e. case e of Sent _ key \<Rightarrow> Some key | Succeeded _ \<Rightarrow> None) (rev sample_log) =
     [Some (JStr ''disable-member:7:u1''), Some (JStr ''disable-member:7:u2''), Some (JStr ''disable-member:7:u1''), None,
      Some (JStr ''disable-member:7:u4'')]" by code_simp
  ultimately show ?thesis by blast
qed

theorem same_slot_iff_same_intent_witness:
  "intent_slot reason_text disable_intent = intent_slot reason_text (disable_for ''left'') \<and>
   intent_slot reason_text disable_intent \<noteq> intent_slot reason_text (disable_for ''spam'')"
proof -
  have n: "normalizePayload (in_payload disable_intent) = VObj [(''reason'', VStr ''left'')]"
    "normalizePayload (in_payload (disable_for r)) = VObj [(''reason'', VStr r)]" for r
    by (simp_all add: disable_intent_def disable_for_def defined_member_def)
  have wf: "wf_payload (in_payload disable_intent)" "wf_payload (in_payload (disable_for r))" for r
    by (simp_all add: disable_intent_def disable_for_def)
  have nn: "in_payload disable_intent \<notin> {VUndefined, VNull}" "in_payload (disable_for r) \<notin> {VUndefined, VNull}" for r
    by (simp_all add: disable_intent_def disable_for_def)
  have "inj_on reason_text {VObj [(''reason'', VStr ''left'')], VObj [(''reason'', VStr r)]}" for r
    by (auto simp: inj_on_def reason_text_def)
  from same_slot_iff_same_intent [of reason_text disable_intent "disable_for r" for r, unfolded n, OF this wf nn]
  show ?thesis by (simp add: disable_intent_def disable_for_def obj_meaning fun_eq_iff)
qed

section \<open>One request per intent\<close>

definition flights_ok :: "(jsval \<Rightarrow> string) \<Rightarrow> flights \<Rightarrow> bool" where
  "flights_ok stringify s \<longleftrightarrow>
     distinct (map fst (fl_inFlight s)) \<and> distinct (map fst (fl_pending s)) \<and>
     (\<forall>(n, i) \<in> set (fl_pending s). (intent_slot stringify i, n) \<in> set (fl_inFlight s) \<and> n < fl_next s)"

lemma ok_call:
  assumes "flights_ok stringify s"
  shows "flights_ok stringify (snd (call_request stringify parse json_text i u s))"
proof (cases "map_of (fl_inFlight s) (intent_slot stringify i)")
  case (Some n)
  with assms show ?thesis by (simp add: call_request_def)
next
  case None
  then have "intent_slot stringify i \<notin> fst ` set (fl_inFlight s)" by (simp add: map_of_eq_None_iff)
  moreover have "fl_next s \<notin> fst ` set (fl_pending s)" using assms by (auto simp: flights_ok_def)
  ultimately show ?thesis using assms None
    by (auto simp: call_request_def flights_ok_def Let_def split_beta intro: less_SucI)
qed

lemma ok_settled: "flights_ok stringify s \<Longrightarrow> flights_ok stringify (request_settled stringify parse n ok s)"
  by (auto simp: request_settled_def flights_ok_def Let_def distinct_map_filter split: option.split)

lemma ok_ended: "flights_ok stringify s \<Longrightarrow> flights_ok stringify (flight_ended n s)"
  by (force simp: flight_ended_def flights_ok_def distinct_map_filter)

lemma ok_run: "flights_ok stringify s \<Longrightarrow> flights_ok stringify (flight_run stringify parse json_text evs s)"
  unfolding flight_run_def
proof (induction evs arbitrary: s)
  case (Cons e evs)
  have "flights_ok stringify (flight_step stringify parse json_text e s)"
    using Cons.prems by (cases e) (simp_all add: ok_call ok_settled ok_ended, simp add: flights_ok_def reload_page_def)
  with Cons.IH show ?case by simp
qed simp

text \<open>
  A double click is one request.  At no time are two requests for the same intent
  waiting for an answer.
\<close>

theorem one_request_per_intent:
  "distinct (map (\<lambda>(n, i). intent_slot stringify i)
     (fl_pending (flight_run stringify parse json_text evs (new_page storage))))"
proof -
  let ?s = "flight_run stringify parse json_text evs (new_page storage)"
  have "flights_ok stringify (new_page storage)" by (simp add: flights_ok_def new_page_def)
  then have ok: "flights_ok stringify ?s" by (rule ok_run)
  have "n = m \<and> i = j" if "(n, i) \<in> set (fl_pending ?s)" "(m, j) \<in> set (fl_pending ?s)" "intent_slot stringify i = intent_slot stringify j" for n m i j
  proof -
    have slots: "(intent_slot stringify i, n) \<in> set (fl_inFlight ?s)" "(intent_slot stringify j, m) \<in> set (fl_inFlight ?s)"
      using ok that(1,2) unfolding flights_ok_def by blast+
    have d: "distinct (map fst (fl_inFlight ?s))" "distinct (map fst (fl_pending ?s))" using ok by (simp_all add: flights_ok_def)
    have "n = m" by (rule eq_key_imp_eq_value [OF d(1) slots(1) [unfolded that(3)] slots(2)])
    moreover have "i = j" by (rule eq_key_imp_eq_value [OF d(2) that(1)]) (use \<open>n = m\<close> that(2) in simp)
    ultimately show ?thesis by simp
  qed
  then have "inj_on (\<lambda>(n, i). intent_slot stringify i) (set (fl_pending ?s))" by (auto simp: inj_on_def)
  moreover have "distinct (fl_pending ?s)" using ok by (simp add: flights_ok_def distinct_map)
  ultimately show ?thesis by (simp add: distinct_map)
qed

end
