(* ===== verification/Studio_Storage.thy ===== *)
theory Studio_Storage
  imports Prelude "HOL-Library.Char_ord" "HOL-Library.List_Lexorder"
begin

text \<open>
  The data of the media studio (\<open>features/media-studio/workflow-types.ts\<close>) and its database in
  the browser (\<open>lib/studio-storage.ts\<close> and \<open>pendingStudioImage\<close> of \<open>lib/image-jobs.ts\<close>): a store
  of finished jobs with a limited size, and one slot for the image job that is under way, which
  all tabs of an account share.  An IndexedDB transaction is one function on the database; what
  makes it fail (a database that cannot be opened, a full disk) is the argument \<open>failure\<close>, and a
  failed transaction changes nothing.  The lemmas show what a transaction keeps and which jobs
  the history keeps.
\<close>

section \<open>Data\<close>

datatype Mode = Create | Edit

datatype Quality = Fast | Standard | High

record StudioAsset =
  asset_id :: string
  asset_url :: string
  asset_mime :: string

record MarkPoint =
  mp_x :: number
  mp_y :: number

datatype MarkTool = Rectangle | Lasso | Brush

datatype MarkColor = Blue | Red | Green | White

record ImageMark =
  mark_id :: "string option"
  mark_tool :: MarkTool
  mark_color :: MarkColor
  mark_width :: number
  mark_points :: "MarkPoint list"

datatype MarkupKind = Region | Annotation

record ReferenceMarkup =
  markup_referenceID :: string
  markup_kind :: MarkupKind
  markup_marks :: "ImageMark list"

record MaskRegion =
  mr_x :: number
  mr_y :: number
  mr_width :: number
  mr_height :: number

record WorkflowDraft =
  wd_markup :: "ReferenceMarkup option"
  wd_user_prompt :: "string option"
  wd_mode :: Mode
  wd_model :: string
  wd_prompt :: string
  wd_size :: string
  wd_count :: number
  wd_quality :: Quality
  wd_references :: "StudioAsset list"
  wd_steps :: "number option"
  wd_cfg :: "number option"
  wd_seed :: "number option"
  wd_mask :: "MaskRegion list option"
  wd_parent_id :: "string option"

record WorkflowJob =
  wj_id :: string
  wj_created_at :: number
  wj_request :: WorkflowDraft
  wj_images :: "StudioAsset list"
  wj_elapsed_ms :: number
  wj_request_id :: "string option"

text \<open>\<open>cancelRequested\<close> is optional in the source and only tested for truth.\<close>

record PendingStudioImage =
  pi_key :: string
  pi_epoch :: string
  pi_draft :: WorkflowDraft
  pi_started :: number
  pi_cancelRequested :: bool

text \<open>The object store \<open>jobs\<close> is the list of its entries in the order of their keys, the slot
  \<open>image\<close> of the store \<open>pending\<close> is empty or holds one record.\<close>

record studio_db =
  db_jobs :: "WorkflowJob list"
  db_pending :: "PendingStudioImage option"

section \<open>Opening the database\<close>

definition MAX_SAFE_INTEGER :: number where "MAX_SAFE_INTEGER = 9007199254740991"

definition isSafeInteger :: "number \<Rightarrow> bool" where
  "isSafeInteger n = (of_int \<lfloor>n\<rfloor> = n \<and> \<bar>n\<bar> \<le> MAX_SAFE_INTEGER)"

definition SIGN_IN :: string where "SIGN_IN = ''Sign in to use Media Studio.''"

definition studioDatabase :: "number \<Rightarrow> string option \<Rightarrow> string option" where
  "studioDatabase owner failure = (if \<not> isSafeInteger owner \<or> owner \<le> 0 then Some SIGN_IN else failure)"

section \<open>The pending slot\<close>

text \<open>The argument \<open>value\<close> of \<open>pendingStudioImage\<close>: \<open>undefined\<close>, \<open>null\<close> or a record.\<close>

datatype pending_value = ReadPending | DeletePending | PutPending PendingStudioImage

definition PENDING_CONFLICT :: string where
  "PENDING_CONFLICT = ''Reconnect to your previous image job before generating again.''"

definition pendingStudioImage ::
    "number \<Rightarrow> string option \<Rightarrow> pending_value \<Rightarrow> bool \<Rightarrow> string option \<Rightarrow> studio_db \<Rightarrow>
     (string + PendingStudioImage option) \<times> studio_db" where
  "pendingStudioImage owner failure v claim expectedKey db =
    (case studioDatabase owner failure of
      Some e \<Rightarrow> (Inl e, db)
    | None \<Rightarrow>
      let result = db_pending db in
      if v = ReadPending \<or> truthy_string expectedKey \<and> map_option pi_key result \<noteq> expectedKey
      then (Inr result, db)
      else if claim \<and> result \<noteq> None then (Inl PENDING_CONFLICT, db)
      else case v of
        PutPending r \<Rightarrow> (Inr (Some r), db\<lparr>db_pending := Some r\<rparr>)
      | _ \<Rightarrow> (Inr None, db\<lparr>db_pending := None\<rparr>))"

section \<open>The history\<close>

definition MAX_ENTRIES :: nat where "MAX_ENTRIES = 50"
definition MAX_BYTES :: nat where "MAX_BYTES = 100 * 1024 * 1024"

definition listStudioJobs :: "number \<Rightarrow> string option \<Rightarrow> studio_db \<Rightarrow> string + WorkflowJob list" where
  "listStudioJobs owner failure db =
    (case studioDatabase owner failure of
      Some e \<Rightarrow> Inl e
    | None \<Rightarrow> Inr (sort_key (\<lambda>j. - wj_created_at j) (db_jobs db)))"

definition is_data_url :: "string \<Rightarrow> bool" where
  "is_data_url u \<longleftrightarrow> map lower_char (take 5 u) = ''data:''"

definition delete_job :: "string \<Rightarrow> WorkflowJob list \<Rightarrow> WorkflowJob list" where
  "delete_job i js = filter (\<lambda>j. wj_id j \<noteq> i) js"

definition put_job :: "WorkflowJob \<Rightarrow> WorkflowJob list \<Rightarrow> WorkflowJob list" where
  "put_job j js = insort_key wj_id j (delete_job (wj_id j) js)"

text \<open>The loop over the sorted entries, as the ids it deletes; \<open>len\<close> is the length of the JSON text
  of a job.\<close>

fun prune_ids :: "(WorkflowJob \<Rightarrow> nat) \<Rightarrow> nat \<Rightarrow> nat \<Rightarrow> WorkflowJob list \<Rightarrow> string list" where
  "prune_ids len index bytes [] = []"
| "prune_ids len index bytes (entry # entries) =
    (let bytes' = bytes + len entry * 2; rest = prune_ids len (index + 1) bytes' entries in
     if index \<ge> MAX_ENTRIES \<or> bytes' > MAX_BYTES then wj_id entry # rest else rest)"

definition pruned :: "(WorkflowJob \<Rightarrow> nat) \<Rightarrow> WorkflowJob list \<Rightarrow> WorkflowJob list" where
  "pruned len js =
    foldl (\<lambda>acc i. delete_job i acc) js (prune_ids len 0 0 (sort_key (\<lambda>j. - wj_created_at j) js))"

definition NOT_SELF_CONTAINED :: string where
  "NOT_SELF_CONTAINED = ''This result could not be saved locally. Download it before leaving this page.''"
definition TOO_LARGE :: string where
  "TOO_LARGE = ''This result is too large for local history. Download it before leaving this page.''"

definition recovery_changed :: "string option \<Rightarrow> bool \<Rightarrow> studio_db \<Rightarrow> bool" where
  "recovery_changed expectedPendingKey resultCommitted db =
    (truthy_string expectedPendingKey \<and>
     (case db_pending db of
       None \<Rightarrow> True
     | Some current \<Rightarrow> Some (pi_key current) \<noteq> expectedPendingKey \<or> pi_cancelRequested current \<and> \<not> resultCommitted))"

definition saveStudioJob ::
    "(WorkflowJob \<Rightarrow> nat) \<Rightarrow> number \<Rightarrow> string option \<Rightarrow> WorkflowJob \<Rightarrow> string option \<Rightarrow> bool \<Rightarrow> studio_db \<Rightarrow>
     (string + bool) \<times> studio_db" where
  "saveStudioJob len owner failure job expectedPendingKey resultCommitted db =
    (if list_ex (\<lambda>a. \<not> is_data_url (asset_url a)) (wj_images job @ wd_references (wj_request job))
     then (Inl NOT_SELF_CONTAINED, db)
     else if len job * 2 > MAX_BYTES then (Inl TOO_LARGE, db)
     else case studioDatabase owner failure of
       Some e \<Rightarrow> (Inl e, db)
     | None \<Rightarrow>
       if recovery_changed expectedPendingKey resultCommitted db then (Inr False, db)
       else (Inr True, db\<lparr>db_jobs := pruned len (put_job job (db_jobs db))\<rparr>))"

definition deleteStudioJob :: "number \<Rightarrow> string option \<Rightarrow> string option \<Rightarrow> studio_db \<Rightarrow> string option \<times> studio_db" where
  "deleteStudioJob owner failure i db =
    (case studioDatabase owner failure of
      Some e \<Rightarrow> (Some e, db)
    | None \<Rightarrow> (None, db\<lparr>db_jobs := (if truthy_string i then delete_job (nullish i []) (db_jobs db) else [])\<rparr>))"

section \<open>What a transaction keeps\<close>

definition wf_jobs :: "WorkflowJob list \<Rightarrow> bool" where
  "wf_jobs js \<longleftrightarrow> sorted (map wj_id js) \<and> distinct (map wj_id js)"

lemma wf_jobs_filter: "wf_jobs js \<Longrightarrow> wf_jobs (filter P js)"
  by (auto simp: wf_jobs_def intro: sorted_filter distinct_map_filter)

lemma set_put_job: "set (put_job j js) = insert j {x \<in> set js. wj_id x \<noteq> wj_id j}"
  by (auto simp: put_job_def delete_job_def set_insort_key)

lemma distinct_insort_key:
  "distinct (map f xs) \<Longrightarrow> f x \<notin> f ` set xs \<Longrightarrow> distinct (map f (insort_key f x xs))"
  by (induction xs) (auto simp: set_insort_key)

lemma wf_jobs_put: "wf_jobs js \<Longrightarrow> wf_jobs (put_job j js)"
  using wf_jobs_filter [of js "\<lambda>x. wj_id x \<noteq> wj_id j"]
  by (auto simp: wf_jobs_def put_job_def delete_job_def sorted_insort_key intro!: distinct_insort_key)

lemma foldl_delete_job: "foldl (\<lambda>acc i. delete_job i acc) js ids = filter (\<lambda>j. wj_id j \<notin> set ids) js"
  by (induction ids arbitrary: js) (auto simp: delete_job_def intro: filter_cong)

lemma pruned_filter:
  "pruned len js = filter (\<lambda>j. wj_id j \<notin> set (prune_ids len 0 0 (sort_key (\<lambda>j. - wj_created_at j) js))) js"
  by (simp add: pruned_def foldl_delete_job)

lemma wf_jobs_pruned: "wf_jobs js \<Longrightarrow> wf_jobs (pruned len js)"
  by (simp add: pruned_filter wf_jobs_filter)

lemma saveStudioJob_wf:
  "wf_jobs (db_jobs db) \<Longrightarrow> wf_jobs (db_jobs (snd (saveStudioJob len owner failure job k c db)))"
  by (auto simp: saveStudioJob_def wf_jobs_put wf_jobs_pruned split: option.split)

lemma saveStudioJob_pending [simp]:
  "db_pending (snd (saveStudioJob len owner failure job k c db)) = db_pending db"
  by (auto simp: saveStudioJob_def split: option.split)

lemma saveStudioJob_not_saved:
  "fst (saveStudioJob len owner failure job k c db) \<noteq> Inr True \<Longrightarrow> snd (saveStudioJob len owner failure job k c db) = db"
  by (auto simp: saveStudioJob_def split: option.splits if_splits)

lemma saveStudioJob_saved:
  assumes "fst (saveStudioJob len owner failure job (Some k) c db) = Inr True" and "k \<noteq> []"
  shows "\<exists>r. db_pending db = Some r \<and> pi_key r = k \<and> (pi_cancelRequested r \<longrightarrow> c)"
  using assms by (auto simp: saveStudioJob_def recovery_changed_def truthy_string_def split: option.splits if_splits)

lemma pendingStudioImage_jobs [simp]:
  "db_jobs (snd (pendingStudioImage owner failure v claim e db)) = db_jobs db"
  by (auto simp: pendingStudioImage_def Let_def split: option.split pending_value.split)

lemma pendingStudioImage_read [simp]:
  "snd (pendingStudioImage owner failure ReadPending claim e db) = db"
  by (auto simp: pendingStudioImage_def Let_def split: option.split)

lemma pendingStudioImage_read_result:
  "fst (pendingStudioImage owner failure ReadPending claim e db) = Inr r \<Longrightarrow> r = db_pending db"
  by (auto simp: pendingStudioImage_def Let_def split: option.splits)

lemma pendingStudioImage_failed:
  "fst (pendingStudioImage owner failure v claim e db) = Inl x \<Longrightarrow>
   snd (pendingStudioImage owner failure v claim e db) = db"
  by (auto simp: pendingStudioImage_def Let_def split: option.splits if_splits pending_value.splits)

lemma claim_result:
  "pendingStudioImage owner failure (PutPending r) True None db = (Inr x, db') \<Longrightarrow>
   db_pending db = None \<and> db_pending db' = Some r"
  by (auto simp: pendingStudioImage_def Let_def truthy_string_def split: option.splits if_splits)

section \<open>An exclusive slot\<close>

text \<open>
  The contract the image jobs rely on: a claim succeeds only on an empty slot, a release that
  names a key acts only on the record with that key, and a marking keeps the key.  A history of
  successful claims and releases is then one that a mutual exclusion allows: they alternate, and
  a release always ends the claim before it (\<open>replay\<close>).
\<close>

datatype 'k slot_entry = SlotClaimed 'k | SlotReleased 'k

fun replay_entry :: "'k option option \<Rightarrow> 'k slot_entry \<Rightarrow> 'k option option" where
  "replay_entry (Some None) (SlotClaimed k) = Some (Some k)"
| "replay_entry (Some (Some k)) (SlotReleased k') = (if k = k' then Some None else None)"
| "replay_entry _ _ = None"

definition replay :: "'k option \<Rightarrow> 'k slot_entry list \<Rightarrow> 'k option option" where
  "replay h es = foldl replay_entry (Some h) es"

lemma replay_Nil [simp]: "replay h [] = Some h"
  by (simp add: replay_def)

lemma replay_snoc [simp]: "replay h (es @ [e]) = replay_entry (replay h es) e"
  by (simp add: replay_def)

locale exclusive_slot =
  fixes holder :: "'s \<Rightarrow> 'k option"
    and key_of :: "'r \<Rightarrow> 'k"
    and claim_as :: "'r \<Rightarrow> 's \<Rightarrow> 's option"
    and release_as :: "'k \<Rightarrow> 's \<Rightarrow> 's option"
    and mark_as :: "'r \<Rightarrow> 's \<Rightarrow> 's option"
    and valid :: "'k \<Rightarrow> bool"
  assumes claimed: "claim_as r s = Some s' \<Longrightarrow> holder s = None \<and> holder s' = Some (key_of r)"
    and released: "valid k \<Longrightarrow> release_as k s = Some s' \<Longrightarrow> holder s' = (if holder s = Some k then None else holder s)"
    and marked: "valid (key_of r) \<Longrightarrow> mark_as r s = Some s' \<Longrightarrow> holder s' = holder s"
begin

lemma replay_claim:
  "replay h es = Some (holder s) \<Longrightarrow> claim_as r s = Some s' \<Longrightarrow>
   replay h (es @ [SlotClaimed (key_of r)]) = Some (holder s')"
  using claimed [of r s s'] by simp

lemma replay_release:
  "replay h es = Some (holder s) \<Longrightarrow> valid k \<Longrightarrow> release_as k s = Some s' \<Longrightarrow> holder s = Some k \<Longrightarrow>
   replay h (es @ [SlotReleased k]) = Some (holder s')"
  using released [of k s s'] by simp

lemma foreign_release:
  "valid k \<Longrightarrow> release_as k s = Some s' \<Longrightarrow> holder s \<noteq> Some k \<Longrightarrow> holder s' = holder s"
  using released [of k s s'] by simp

lemma claim_twice: "claim_as r s = Some s' \<Longrightarrow> claim_as r' s' = None"
  using claimed [of r s s'] claimed [of r' s'] by (cases "claim_as r' s'") auto

end

definition slot_key :: "studio_db \<Rightarrow> string option" where
  "slot_key db = map_option pi_key (db_pending db)"

definition committed :: "(string + 'a) \<times> studio_db \<Rightarrow> studio_db option" where
  "committed t = (case t of (Inr _, db) \<Rightarrow> Some db | (Inl _, _) \<Rightarrow> None)"

interpretation pending_slot: exclusive_slot slot_key pi_key
  "\<lambda>r db. committed (pendingStudioImage owner failure (PutPending r) True None db)"
  "\<lambda>k db. committed (pendingStudioImage owner failure DeletePending False (Some k) db)"
  "\<lambda>r db. committed (pendingStudioImage owner failure (PutPending r) False (Some (pi_key r)) db)"
  "\<lambda>k. k \<noteq> []"
  for owner failure
  by unfold_locales
    (auto simp: pendingStudioImage_def Let_def truthy_string_def slot_key_def committed_def
      split: option.splits if_splits)

section \<open>What the history keeps\<close>

definition job_bytes :: "(WorkflowJob \<Rightarrow> nat) \<Rightarrow> WorkflowJob list \<Rightarrow> nat" where
  "job_bytes len js = sum_list (map (\<lambda>j. len j * 2) js)"

definition history_fits :: "(WorkflowJob \<Rightarrow> nat) \<Rightarrow> WorkflowJob list \<Rightarrow> bool" where
  "history_fits len js \<longleftrightarrow> length js \<le> MAX_ENTRIES \<and> job_bytes len js \<le> MAX_BYTES"

definition newest_first :: "WorkflowJob list \<Rightarrow> WorkflowJob list" where
  "newest_first js = sort_key (\<lambda>j. - wj_created_at j) js"

lemma prune_ids_full:
  "i \<ge> MAX_ENTRIES \<or> b > MAX_BYTES \<Longrightarrow> prune_ids len i b es = map wj_id es"
  by (induction es arbitrary: i b) (auto simp: Let_def)

lemma prune_ids_split:
  "\<exists>kept dropped. es = kept @ dropped \<and> prune_ids len i b es = map wj_id dropped \<and>
     (kept \<noteq> [] \<longrightarrow> i + length kept \<le> MAX_ENTRIES \<and> b + job_bytes len kept \<le> MAX_BYTES) \<and>
     (dropped \<noteq> [] \<longrightarrow> i + length kept \<ge> MAX_ENTRIES \<or> b + job_bytes len (kept @ [hd dropped]) > MAX_BYTES)"
proof (induction es arbitrary: i b)
  case Nil
  then show ?case by simp
next
  case (Cons e es)
  show ?case
  proof (cases "i \<ge> MAX_ENTRIES \<or> b + len e * 2 > MAX_BYTES")
    case True
    then have "prune_ids len i b (e # es) = map wj_id (e # es)"
      by (auto simp: Let_def intro!: prune_ids_full)
    with True show ?thesis
      by (intro exI [of _ "[]"] exI [of _ "e # es"]) (simp add: job_bytes_def)
  next
    case False
    obtain kept dropped where IH: "es = kept @ dropped"
      "prune_ids len (Suc i) (b + len e * 2) es = map wj_id dropped"
      "kept \<noteq> [] \<longrightarrow> Suc i + length kept \<le> MAX_ENTRIES \<and> b + len e * 2 + job_bytes len kept \<le> MAX_BYTES"
      "dropped \<noteq> [] \<longrightarrow> Suc i + length kept \<ge> MAX_ENTRIES \<or> b + len e * 2 + job_bytes len (kept @ [hd dropped]) > MAX_BYTES"
      using Cons.IH [of "Suc i" "b + len e * 2"] by blast
    have "prune_ids len i b (e # es) = map wj_id dropped"
      using False IH(2) by (simp add: Let_def not_less)
    with False IH show ?thesis
      by (intro exI [of _ "e # kept"] exI [of _ dropped]) (auto simp: job_bytes_def)
  qed
qed

lemma pruned_newest:
  assumes "distinct (map wj_id js)"
  shows "\<exists>kept dropped. newest_first js = kept @ dropped \<and> newest_first (pruned len js) = kept \<and>
    history_fits len kept \<and> (dropped \<noteq> [] \<longrightarrow> \<not> history_fits len (kept @ [hd dropped]))"
proof -
  obtain kept dropped where *: "newest_first js = kept @ dropped"
    "prune_ids len 0 0 (newest_first js) = map wj_id dropped"
    "kept \<noteq> [] \<longrightarrow> length kept \<le> MAX_ENTRIES \<and> job_bytes len kept \<le> MAX_BYTES"
    "dropped \<noteq> [] \<longrightarrow> length kept \<ge> MAX_ENTRIES \<or> job_bytes len (kept @ [hd dropped]) > MAX_BYTES"
    using prune_ids_split [of "newest_first js" len 0 0, unfolded add_0] by blast
  have "distinct (map wj_id (newest_first js))"
    using assms by (auto simp: newest_first_def distinct_map)
  then have apart: "filter (\<lambda>j. wj_id j \<notin> wj_id ` set dropped) (kept @ dropped) = kept"
    unfolding *(1) by (auto simp: filter_id_conv filter_empty_conv)
  have "newest_first (pruned len js) = filter (\<lambda>j. wj_id j \<notin> wj_id ` set dropped) (newest_first js)"
    using *(2) by (simp add: pruned_filter newest_first_def filter_sort)
  with * apart show ?thesis
    by (intro exI [of _ kept] exI [of _ dropped]) (auto simp: history_fits_def job_bytes_def)
qed

text \<open>C35: Saving a result keeps the newest results: what the history lists afterwards is the longest
  prefix of the saved jobs, newest first, that stays within 50 entries and 100 MB.\<close>

theorem history_keeps_newest:
  assumes "wf_jobs (db_jobs db)"
    and "saveStudioJob len owner failure job k c db = (Inr True, db')"
  shows "\<exists>kept dropped.
    newest_first (put_job job (db_jobs db)) = kept @ dropped \<and>
    listStudioJobs owner None db' = Inr kept \<and> history_fits len kept \<and>
    (dropped = [] \<or> \<not> history_fits len (kept @ [hd dropped]))"
proof -
  have db': "studioDatabase owner None = None" "db_jobs db' = pruned len (put_job job (db_jobs db))"
    using assms(2) by (auto simp: saveStudioJob_def studioDatabase_def split: if_splits option.splits)
  have "distinct (map wj_id (put_job job (db_jobs db)))"
    using wf_jobs_put [OF assms(1)] by (simp add: wf_jobs_def)
  from pruned_newest [OF this, of len] db' show ?thesis
    by (auto simp: listStudioJobs_def newest_first_def)
qed

definition sample_draft :: WorkflowDraft where
  "sample_draft = \<lparr>wd_markup = None, wd_user_prompt = None, wd_mode = Create, wd_model = ''m'', wd_prompt = ''a cat'',
     wd_size = ''1024x1024'', wd_count = 1, wd_quality = Standard, wd_references = [], wd_steps = None, wd_cfg = None,
     wd_seed = None, wd_mask = None, wd_parent_id = None\<rparr>"

definition sample_job :: "string \<Rightarrow> number \<Rightarrow> WorkflowJob" where
  "sample_job i t = \<lparr>wj_id = i, wj_created_at = t, wj_request = sample_draft,
     wj_images = [\<lparr>asset_id = ''x'', asset_url = ''DATA:image/png;base64,AA'', asset_mime = ''image/png''\<rparr>],
     wj_elapsed_ms = 5, wj_request_id = None\<rparr>"

definition sample_history :: studio_db where
  "sample_history = \<lparr>db_jobs = [sample_job ''a'' 3, sample_job ''b'' 9], db_pending = None\<rparr>"

theorem history_keeps_newest_witness:
  "wf_jobs (db_jobs sample_history) \<and>
   saveStudioJob (\<lambda>_. 20 * 1024 * 1024) 7 None (sample_job ''c'' 5) None False sample_history =
     (Inr True, sample_history\<lparr>db_jobs := [sample_job ''b'' 9, sample_job ''c'' 5]\<rparr>) \<and>
   (\<exists>kept dropped.
     newest_first (put_job (sample_job ''c'' 5) (db_jobs sample_history)) = kept @ dropped \<and>
     listStudioJobs 7 None (sample_history\<lparr>db_jobs := [sample_job ''b'' 9, sample_job ''c'' 5]\<rparr>) = Inr kept \<and>
     history_fits (\<lambda>_. 20 * 1024 * 1024) kept \<and>
     (dropped = [] \<or> \<not> history_fits (\<lambda>_. 20 * 1024 * 1024) (kept @ [hd dropped])))"
proof (intro conjI)
  show wf: "wf_jobs (db_jobs sample_history)"
    by code_simp
  show saved: "saveStudioJob (\<lambda>_. 20 * 1024 * 1024) 7 None (sample_job ''c'' 5) None False sample_history =
     (Inr True, sample_history\<lparr>db_jobs := [sample_job ''b'' 9, sample_job ''c'' 5]\<rparr>)"
    by code_simp
  show "\<exists>kept dropped.
     newest_first (put_job (sample_job ''c'' 5) (db_jobs sample_history)) = kept @ dropped \<and>
     listStudioJobs 7 None (sample_history\<lparr>db_jobs := [sample_job ''b'' 9, sample_job ''c'' 5]\<rparr>) = Inr kept \<and>
     history_fits (\<lambda>_. 20 * 1024 * 1024) kept \<and>
     (dropped = [] \<or> \<not> history_fits (\<lambda>_. 20 * 1024 * 1024) (kept @ [hd dropped]))"
    by (rule history_keeps_newest [OF wf saved])
qed

text \<open>The limit is applied to the result that is being saved too: an old result is deleted in the
  very transaction that saves it, and the caller is told that it was saved.\<close>

lemma saved_job_pruned:
  "saveStudioJob (\<lambda>_. 20 * 1024 * 1024) 7 None (sample_job ''c'' 2) None False sample_history = (Inr True, sample_history)"
  by code_simp

end
