(* ===== verification/Image_Jobs.thy ===== *)
theory Image_Jobs
  imports Studio_Storage "HOL-Library.Multiset"
begin

text \<open>
  The image jobs of the media studio (\<open>lib/image-jobs.ts\<close> with the hook \<open>use-workflow.ts\<close>).  A job
  is prepared, its key is claimed in the account's database, it is posted once, polled, its result
  fetched, saved to the history, acknowledged and forgotten; the user may cancel, discard or
  reconnect, in any tab.  Every \<open>await\<close> of the source is a constructor of \<open>call\<close>, what the code
  does when the awaited promise settles is one definition, and the events of all tabs of an account
  interleave in any order over one database.  An aborted signal is an answer that rejects.  The
  theorems say what the log of a run can hold: which keys are posted, when a record disappears, and
  what a cancellation prevents.
\<close>

section \<open>Data\<close>

datatype job_state = Queued | Running | Cancelling | Cancelled | Completed | Failed | Expired | Released | Reconnecting

record ImageJobStatus =
  ij_id :: string
  ij_key :: string
  ij_epoch :: string
  ij_state :: job_state
  ij_ahead :: number
  ij_error :: "string option"
  ij_recovery_pending :: bool
  ij_cancel_requested :: bool
  ij_result_committed :: bool
  ij_created_at :: number

record ImageQueueConfig =
  iq_enabled :: bool
  iq_models :: "string list option"
  iq_access :: bool

text \<open>What a promise can be rejected with: an axios error with its status, the code and message of
  the server's body and its own message; another \<open>Error\<close>; or any other value.\<close>

datatype studio_error =
    AxiosError "nat option" "json option" "json option" string
  | ErrorMessage string
  | OtherReason

fun workflowError :: "studio_error \<Rightarrow> string" where
  "workflowError (AxiosError _ _ (Some (JStr m)) _) = m"
| "workflowError (AxiosError _ _ _ m) = m"
| "workflowError (ErrorMessage m) = m"
| "workflowError OtherReason = ''Image operation could not be completed.''"

definition imageJobMessage :: "string option \<Rightarrow> string" where
  "imageJobMessage code =
    (if code = Some ''output_blocked'' then ''This image did not pass output review. Try a different idea.''
     else if code = Some ''output_check_unavailable'' then ''Image review is unavailable. No image was released.''
     else if code = Some ''studio_audit_unavailable'' then ''Image auditing is unavailable. No image was released.''
     else if code = Some ''studio_account_busy''
       then ''Your account already has a pending image job. Reconnect before trying again.''
     else if code = Some ''studio_access_denied'' then ''Your account does not have access to the image queue.''
     else if code = Some ''studio_capacity_unavailable''
       then ''Image workers are temporarily unavailable. Try again later.''
     else if code = Some ''studio_scope_changed''
       then ''Your image access or billing account changed. Review your draft and try again.''
     else if code = Some ''studio_epoch_changed''
       then ''Could not reach the gateway for this image job. Reconnect to recover it.''
     else if code = Some ''studio_queue_full'' then ''The image queue is full. Try again later.''
     else ''The image job could not complete. Your draft has been kept.'')"

fun qualitySteps :: "Quality \<Rightarrow> number" where
  "qualitySteps Fast = 20"
| "qualitySteps Standard = 30"
| "qualitySteps High = 50"

definition serverImageSteps :: "Quality \<Rightarrow> number" where
  "serverImageSteps q = (if q = Standard then 40 else qualitySteps q)"

definition effective_draft :: "WorkflowDraft \<Rightarrow> WorkflowDraft" where
  "effective_draft d = d\<lparr>wd_steps := Some (nullish (wd_steps d) (serverImageSteps (wd_quality d))),
     wd_cfg := Some (nullish (wd_cfg d) 1), wd_seed := Some (nullish (wd_seed d) 42)\<rparr>"

section \<open>Calls, tabs and the world\<close>

text \<open>A call of the hook, by the promise it waits for.\<close>

datatype call =
    CheckingPending WorkflowDraft
  | Preparing WorkflowDraft
  | FetchingSession WorkflowDraft
  | Claiming PendingStudioImage
  | Posting PendingStudioImage
  | ClearingRejected PendingStudioImage studio_error
  | Polling PendingStudioImage
  | ReadingLatest PendingStudioImage ImageJobStatus
  | SendingCancel PendingStudioImage
  | FetchingResult PendingStudioImage ImageJobStatus
  | CheckingRecovery PendingStudioImage ImageJobStatus string
  | Waiting PendingStudioImage
  | Saving PendingStudioImage ImageJobStatus WorkflowJob
  | Acking PendingStudioImage WorkflowJob
  | ClearingAcked PendingStudioImage WorkflowJob
  | Generating
  | SavingDirect WorkflowJob string
  | RefreshingPending
  | ReadingOnMount
  | MarkingCancel PendingStudioImage ImageJobStatus
  | SendingUserCancel
  | Discarding PendingStudioImage
  | Finished

datatype answer =
    TxDone
  | TxFailed string
  | Rejects studio_error
  | PreparedBody nat
  | SessionEpoch string
  | PostDone
  | JobStatus ImageJobStatus
  | ResultBlob string nat string
  | TimerFired
  | DirectResult WorkflowJob string

record tab_state =
  tab_pending :: "PendingStudioImage option"
  tab_queueStatus :: "ImageJobStatus option"
  tab_selected :: "WorkflowJob option"
  tab_warning :: string

text \<open>The log records what leaves the browser and what a transaction changed.\<close>

datatype entry =
    Claimed string
  | Posted string string
  | Refused string
  | Removed string
  | Saved string bool
  | Acked string
  | Discarded string
  | CancelMarked string
  | CancelSent string

record studio =
  st_db :: studio_db
  st_tabs :: "nat \<Rightarrow> tab_state"
  st_calls :: "(nat \<times> call) list"
  st_log :: "entry list"

definition set_call :: "nat \<Rightarrow> call \<Rightarrow> studio \<Rightarrow> studio" where
  "set_call p c s = s\<lparr>st_calls := (st_calls s)[p := (fst (st_calls s ! p), c)]\<rparr>"

definition upd_tab :: "nat \<Rightarrow> (tab_state \<Rightarrow> tab_state) \<Rightarrow> studio \<Rightarrow> studio" where
  "upd_tab p f s = (let tab = fst (st_calls s ! p) in s\<lparr>st_tabs := (st_tabs s)(tab := f (st_tabs s tab))\<rparr>)"

definition logged :: "entry list \<Rightarrow> studio \<Rightarrow> studio" where
  "logged es s = s\<lparr>st_log := st_log s @ es\<rparr>"

text \<open>A mutation that throws runs \<open>onError\<close>, one that returns a job runs \<open>onSuccess\<close>.\<close>

definition fail_call :: "nat \<Rightarrow> studio \<Rightarrow> studio" where
  "fail_call p = set_call p RefreshingPending"

definition succeed :: "nat \<Rightarrow> WorkflowJob \<Rightarrow> string \<Rightarrow> studio \<Rightarrow> studio" where
  "succeed p job notice s = set_call p Finished (upd_tab p (\<lambda>t. t\<lparr>tab_selected := Some job, tab_warning := notice\<rparr>) s)"

section \<open>Transactions of a call\<close>

fun tx_failure :: "answer \<Rightarrow> string option option" where
  "tx_failure TxDone = Some None"
| "tx_failure (TxFailed e) = Some (Some e)"
| "tx_failure _ = None"

definition read_pending ::
    "number \<Rightarrow> string option \<Rightarrow> (PendingStudioImage option \<Rightarrow> studio \<Rightarrow> studio) \<Rightarrow> (studio \<Rightarrow> studio) \<Rightarrow> studio \<Rightarrow> studio" where
  "read_pending owner failure k other s =
    (case fst (pendingStudioImage owner failure ReadPending False None (st_db s)) of Inr r \<Rightarrow> k r s | Inl _ \<Rightarrow> other s)"

definition delete_pending ::
    "number \<Rightarrow> string option \<Rightarrow> string \<Rightarrow> (studio \<Rightarrow> studio) \<Rightarrow> (string \<Rightarrow> studio \<Rightarrow> studio) \<Rightarrow> studio \<Rightarrow> studio" where
  "delete_pending owner failure key k other s =
    (case pendingStudioImage owner failure DeletePending False (Some key) (st_db s) of
      (Inr _, db) \<Rightarrow> k (logged (if slot_key (st_db s) = Some key then [Removed key] else []) (s\<lparr>st_db := db\<rparr>))
    | (Inl e, _) \<Rightarrow> other e s)"

section \<open>Submitting\<close>

definition MAX_BODY :: nat where "MAX_BODY = 16 * 1024 * 1024"

definition on_session :: "nat \<Rightarrow> WorkflowDraft \<Rightarrow> string \<Rightarrow> string \<Rightarrow> number \<Rightarrow> studio \<Rightarrow> studio" where
  "on_session p d epoch newId now =
    set_call p (Claiming \<lparr>pi_key = newId, pi_epoch = epoch, pi_draft = effective_draft d, pi_started = now,
      pi_cancelRequested = False\<rparr>)"

definition on_claimed :: "number \<Rightarrow> nat \<Rightarrow> PendingStudioImage \<Rightarrow> string option \<Rightarrow> studio \<Rightarrow> studio" where
  "on_claimed owner p r failure s =
    (case pendingStudioImage owner failure (PutPending r) True None (st_db s) of
      (Inl _, _) \<Rightarrow> fail_call p s
    | (Inr _, db) \<Rightarrow> set_call p (Posting r) (logged [Claimed (pi_key r), Posted (pi_key r) (pi_epoch r)] (s\<lparr>st_db := db\<rparr>)))"

fun definite_refusal :: "studio_error \<Rightarrow> bool" where
  "definite_refusal (AxiosError status code _ _) =
    (nullish status 0 \<in> {400, 401, 403, 409, 413, 429} \<or>
     code \<in> {Some (JStr ''studio_capacity_unavailable''), Some (JStr ''studio_access_unavailable''),
             Some (JStr ''output_check_unavailable'')})"
| "definite_refusal _ = False"

fun post_error :: "studio_error \<Rightarrow> studio_error" where
  "post_error (AxiosError _ (Some (JStr code)) _ _) = ErrorMessage (imageJobMessage (Some code))"
| "post_error e = e"

text \<open>After the POST the hook stores the record and starts to collect.\<close>

definition on_posted :: "nat \<Rightarrow> PendingStudioImage \<Rightarrow> answer \<Rightarrow> studio \<Rightarrow> studio" where
  "on_posted p r a s =
    (case a of
      PostDone \<Rightarrow> set_call p (Polling r) (upd_tab p (\<lambda>t. t\<lparr>tab_pending := Some r\<rparr>) s)
    | Rejects e \<Rightarrow>
        if definite_refusal e then set_call p (ClearingRejected r (post_error e)) (logged [Refused (pi_key r)] s)
        else fail_call p s
    | _ \<Rightarrow> s)"

section \<open>Collecting\<close>

definition unavailable :: "PendingStudioImage \<Rightarrow> job_state \<Rightarrow> ImageJobStatus" where
  "unavailable r state = \<lparr>ij_id = [], ij_key = pi_key r, ij_epoch = pi_epoch r, ij_state = state, ij_ahead = 0,
     ij_error = None, ij_recovery_pending = False, ij_cancel_requested = False, ij_result_committed = False,
     ij_created_at = pi_started r\<rparr>"

definition set_queueStatus :: "nat \<Rightarrow> ImageJobStatus \<Rightarrow> studio \<Rightarrow> studio" where
  "set_queueStatus p st = upd_tab p (\<lambda>t. t\<lparr>tab_queueStatus := Some st\<rparr>)"

fun error_status :: "studio_error \<Rightarrow> nat option" where
  "error_status (AxiosError status _ _ _) = status"
| "error_status _ = None"

definition handleLookupError :: "nat \<Rightarrow> PendingStudioImage \<Rightarrow> studio_error \<Rightarrow> studio \<Rightarrow> studio" where
  "handleLookupError p r e s =
    (if error_status e = Some 409 then fail_call p (set_queueStatus p (unavailable r Reconnecting) s)
     else if error_status e = Some 404 then fail_call p (set_queueStatus p (unavailable r Expired) s)
     else fail_call p s)"

definition on_status :: "nat \<Rightarrow> PendingStudioImage \<Rightarrow> ImageJobStatus \<Rightarrow> studio \<Rightarrow> studio" where
  "on_status p r st s =
    (if ij_epoch st \<noteq> pi_epoch r then fail_call p (set_queueStatus p (unavailable r Reconnecting) s)
     else if ij_state st = Cancelled \<and> \<not> ij_recovery_pending st then set_call p Finished (set_queueStatus p st s)
     else set_call p (ReadingLatest r st) (set_queueStatus p st s))"

definition send_cancel :: "nat \<Rightarrow> PendingStudioImage \<Rightarrow> ImageJobStatus \<Rightarrow> studio \<Rightarrow> studio" where
  "send_cancel p r st s = set_call p (SendingCancel r) (logged [CancelSent (ij_id st)] s)"

definition cancel_due :: "PendingStudioImage \<Rightarrow> ImageJobStatus \<Rightarrow> PendingStudioImage option \<Rightarrow> bool" where
  "cancel_due r st latest =
    (case latest of
      None \<Rightarrow> False
    | Some l \<Rightarrow> pi_key l = pi_key r \<and> pi_cancelRequested l \<and> \<not> ij_result_committed st \<and>
        \<not> ij_cancel_requested st \<and> ij_state st \<in> {Queued, Running, Completed})"

definition on_latest :: "nat \<Rightarrow> PendingStudioImage \<Rightarrow> ImageJobStatus \<Rightarrow> PendingStudioImage option \<Rightarrow> studio \<Rightarrow> studio" where
  "on_latest p r st latest s =
    (if cancel_due r st latest then send_cancel p r st s
     else if ij_state st = Completed then set_call p (FetchingResult r st) s
     else if ij_state st \<notin> {Queued, Running, Cancelling, Cancelled} then fail_call p s
     else set_call p (Waiting r) s)"

definition MAX_RESULT :: nat where "MAX_RESULT = 12 * 1024 * 1024"

definition on_result :: "nat \<Rightarrow> PendingStudioImage \<Rightarrow> ImageJobStatus \<Rightarrow> answer \<Rightarrow> studio \<Rightarrow> studio" where
  "on_result p r st a s =
    (case a of
      ResultBlob mime bytes url \<Rightarrow>
        if mime \<noteq> ''image/png'' \<or> bytes > MAX_RESULT then fail_call p s
        else set_call p (CheckingRecovery r st url) s
    | Rejects e \<Rightarrow> handleLookupError p r e s
    | _ \<Rightarrow> s)"

definition collected_job :: "PendingStudioImage \<Rightarrow> ImageJobStatus \<Rightarrow> string \<Rightarrow> string \<Rightarrow> number \<Rightarrow> WorkflowJob" where
  "collected_job r st url newId now = \<lparr>wj_id = ij_id st, wj_created_at = ij_created_at st, wj_request = pi_draft r,
     wj_images = [\<lparr>asset_id = newId, asset_url = url, asset_mime = ''image/png''\<rparr>],
     wj_elapsed_ms = now - pi_started r, wj_request_id = Some (ij_id st)\<rparr>"

definition on_recovery ::
    "nat \<Rightarrow> PendingStudioImage \<Rightarrow> ImageJobStatus \<Rightarrow> string \<Rightarrow> string \<Rightarrow> number \<Rightarrow> PendingStudioImage option \<Rightarrow> studio \<Rightarrow> studio" where
  "on_recovery p r st url newId now recovery s =
    (case recovery of
      None \<Rightarrow> fail_call p s
    | Some l \<Rightarrow>
        if pi_key l \<noteq> pi_key r then fail_call p s
        else if pi_cancelRequested l \<and> \<not> ij_result_committed st then send_cancel p r st s
        else set_call p (Saving r st (collected_job r st url newId now)) s)"

section \<open>Saving, acknowledging and forgetting\<close>

definition on_save :: "(WorkflowJob \<Rightarrow> nat) \<Rightarrow> number \<Rightarrow> nat \<Rightarrow> PendingStudioImage \<Rightarrow> ImageJobStatus \<Rightarrow> WorkflowJob \<Rightarrow> string option \<Rightarrow> studio \<Rightarrow> studio" where
  "on_save len owner p r st job failure s =
    (case saveStudioJob len owner failure job (Some (pi_key r)) (ij_result_committed st) (st_db s) of
      (Inl e, _) \<Rightarrow> succeed p job e s
    | (Inr False, _) \<Rightarrow> fail_call p s
    | (Inr True, db) \<Rightarrow> set_call p (Acking r job) (logged [Saved (pi_key r) (ij_result_committed st)] (s\<lparr>st_db := db\<rparr>)))"

definition on_ack :: "nat \<Rightarrow> PendingStudioImage \<Rightarrow> WorkflowJob \<Rightarrow> answer \<Rightarrow> studio \<Rightarrow> studio" where
  "on_ack p r job a s =
    (case a of
      PostDone \<Rightarrow> set_call p (ClearingAcked r job) (logged [Acked (pi_key r)] s)
    | Rejects e \<Rightarrow> succeed p job (workflowError e) s
    | _ \<Rightarrow> s)"

definition on_acked_cleared :: "number \<Rightarrow> nat \<Rightarrow> PendingStudioImage \<Rightarrow> WorkflowJob \<Rightarrow> string option \<Rightarrow> studio \<Rightarrow> studio" where
  "on_acked_cleared owner p r job failure =
    delete_pending owner failure (pi_key r)
      (\<lambda>s. succeed p job [] (upd_tab p (\<lambda>t. t\<lparr>tab_pending := None, tab_queueStatus := None\<rparr>) s))
      (\<lambda>e. succeed p job e)"

definition on_save_direct :: "(WorkflowJob \<Rightarrow> nat) \<Rightarrow> number \<Rightarrow> nat \<Rightarrow> WorkflowJob \<Rightarrow> string \<Rightarrow> string option \<Rightarrow> studio \<Rightarrow> studio" where
  "on_save_direct len owner p job warning failure s =
    (case saveStudioJob len owner failure job None False (st_db s) of
      (Inl e, _) \<Rightarrow> succeed p job e s
    | (Inr False, _) \<Rightarrow> fail_call p s
    | (Inr True, db) \<Rightarrow> succeed p job warning (s\<lparr>st_db := db\<rparr>))"

section \<open>The user's other actions\<close>

definition on_marked :: "number \<Rightarrow> nat \<Rightarrow> PendingStudioImage \<Rightarrow> ImageJobStatus \<Rightarrow> string option \<Rightarrow> studio \<Rightarrow> studio" where
  "on_marked owner p r st failure s =
    (case pendingStudioImage owner failure (PutPending (r\<lparr>pi_cancelRequested := True\<rparr>)) False (Some (pi_key r)) (st_db s) of
      (Inl _, _) \<Rightarrow> set_call p Finished s
    | (Inr _, db) \<Rightarrow>
        set_call p SendingUserCancel
          (logged ((if slot_key (st_db s) = Some (pi_key r) then [CancelMarked (pi_key r)] else []) @ [CancelSent (ij_id st)])
            (s\<lparr>st_db := db\<rparr>)))"

definition on_discarded :: "number \<Rightarrow> nat \<Rightarrow> PendingStudioImage \<Rightarrow> string option \<Rightarrow> studio \<Rightarrow> studio" where
  "on_discarded owner p r failure =
    delete_pending owner failure (pi_key r)
      (\<lambda>s. set_call p Finished (upd_tab p (\<lambda>t. t\<lparr>tab_pending := None, tab_queueStatus := None\<rparr>) s))
      (\<lambda>_. set_call p Finished)"

definition start_collecting :: "nat \<Rightarrow> PendingStudioImage \<Rightarrow> studio \<Rightarrow> studio" where
  "start_collecting p r s =
    set_call p (Polling r) (upd_tab p (\<lambda>t. t\<lparr>tab_pending := Some r, tab_selected := None, tab_warning := []\<rparr>) s)"

section \<open>Events\<close>

text \<open>What a call does when the promise it waits for settles; \<open>newId\<close> and \<open>now\<close> are what the id
  generator and the clock return then.  An answer that does not fit the promise is ignored.\<close>

definition resume_call ::
    "(WorkflowJob \<Rightarrow> nat) \<Rightarrow> number \<Rightarrow> nat \<Rightarrow> answer \<Rightarrow> string \<Rightarrow> number \<Rightarrow> call \<Rightarrow> studio \<Rightarrow> studio" where
  "resume_call len owner p a newId now c s =
    (let tx = (\<lambda>k. case tx_failure a of None \<Rightarrow> s | Some failure \<Rightarrow> k failure s) in
     case c of
       CheckingPending d \<Rightarrow>
         tx (\<lambda>f. read_pending owner f (\<lambda>r. if r = None then set_call p (Preparing d) else fail_call p) (fail_call p))
     | Preparing d \<Rightarrow>
         (case a of PreparedBody bytes \<Rightarrow> if bytes > MAX_BODY then fail_call p s else set_call p (FetchingSession d) s
          | Rejects e \<Rightarrow> fail_call p s | _ \<Rightarrow> s)
     | FetchingSession d \<Rightarrow>
         (case a of SessionEpoch epoch \<Rightarrow> on_session p d epoch newId now s | Rejects e \<Rightarrow> fail_call p s | _ \<Rightarrow> s)
     | Claiming r \<Rightarrow> tx (on_claimed owner p r)
     | Posting r \<Rightarrow> on_posted p r a s
     | ClearingRejected r e \<Rightarrow> tx (\<lambda>f. delete_pending owner f (pi_key r) (fail_call p) (\<lambda>_. fail_call p))
     | Polling r \<Rightarrow>
         (case a of JobStatus st \<Rightarrow> on_status p r st s | Rejects e \<Rightarrow> handleLookupError p r e s | _ \<Rightarrow> s)
     | ReadingLatest r st \<Rightarrow> tx (\<lambda>f. read_pending owner f (on_latest p r st) (fail_call p))
     | SendingCancel r \<Rightarrow>
         (case a of PostDone \<Rightarrow> set_call p (Polling r) s | Rejects e \<Rightarrow> handleLookupError p r e s | _ \<Rightarrow> s)
     | FetchingResult r st \<Rightarrow> on_result p r st a s
     | CheckingRecovery r st url \<Rightarrow> tx (\<lambda>f. read_pending owner f (on_recovery p r st url newId now) (fail_call p))
     | Waiting r \<Rightarrow> (case a of TimerFired \<Rightarrow> set_call p (Polling r) s | Rejects e \<Rightarrow> fail_call p s | _ \<Rightarrow> s)
     | Saving r st job \<Rightarrow> tx (on_save len owner p r st job)
     | Acking r job \<Rightarrow> on_ack p r job a s
     | ClearingAcked r job \<Rightarrow> tx (on_acked_cleared owner p r job)
     | Generating \<Rightarrow>
         (case a of DirectResult job warning \<Rightarrow> set_call p (SavingDirect job warning) s | Rejects e \<Rightarrow> fail_call p s | _ \<Rightarrow> s)
     | SavingDirect job warning \<Rightarrow> tx (on_save_direct len owner p job warning)
     | RefreshingPending \<Rightarrow>
         tx (\<lambda>f. read_pending owner f (\<lambda>r s. set_call p Finished (upd_tab p (\<lambda>t. t\<lparr>tab_pending := r\<rparr>) s)) (set_call p Finished))
     | ReadingOnMount \<Rightarrow>
         tx (\<lambda>f. read_pending owner f
               (\<lambda>r. case r of None \<Rightarrow> set_call p Finished | Some r \<Rightarrow> start_collecting p r) (set_call p Finished))
     | MarkingCancel r st \<Rightarrow> tx (on_marked owner p r st)
     | SendingUserCancel \<Rightarrow>
         (case a of PostDone \<Rightarrow> set_call p Finished s | Rejects e \<Rightarrow> set_call p Finished s | _ \<Rightarrow> s)
     | Discarding r \<Rightarrow> tx (on_discarded owner p r)
     | Finished \<Rightarrow> s)"

datatype event =
    Generate nat "ImageQueueConfig option" WorkflowDraft
  | Mount nat
  | Reconnect nat
  | CancelClick nat
  | DiscardClick nat
  | DeleteHistory nat "string option" "string option"
  | Answer nat answer string number

definition new_call :: "nat \<Rightarrow> call \<Rightarrow> studio \<Rightarrow> studio" where
  "new_call tab c s = s\<lparr>st_calls := st_calls s @ [(tab, c)]\<rparr>"

definition queued_generation :: "ImageQueueConfig \<Rightarrow> WorkflowDraft \<Rightarrow> bool" where
  "queued_generation config d \<longleftrightarrow> iq_enabled config \<and>
    (case iq_models config of None \<Rightarrow> False | Some models \<Rightarrow> wd_model d \<in> set models)"

definition reset_output :: "nat \<Rightarrow> studio \<Rightarrow> studio" where
  "reset_output tab s = s\<lparr>st_tabs := (st_tabs s)(tab := (st_tabs s tab)\<lparr>tab_selected := None, tab_warning := []\<rparr>)\<rparr>"

definition delete_history :: "number \<Rightarrow> nat \<Rightarrow> string option \<Rightarrow> string option \<Rightarrow> studio \<Rightarrow> studio" where
  "delete_history owner tab failure i s =
    (case deleteStudioJob owner failure i (st_db s) of
      (Some e, _) \<Rightarrow> s
    | (None, db) \<Rightarrow>
        let t = st_tabs s tab;
            t' = (if \<not> truthy_string i \<or> map_option wj_id (tab_selected t) = i then t\<lparr>tab_selected := None\<rparr> else t)
        in s\<lparr>st_db := db, st_tabs := (st_tabs s)(tab := t')\<rparr>)"

fun studio_step :: "(WorkflowJob \<Rightarrow> nat) \<Rightarrow> number \<Rightarrow> event \<Rightarrow> studio \<Rightarrow> studio" where
  "studio_step len owner (Generate tab None d) s = new_call tab RefreshingPending s"
| "studio_step len owner (Generate tab (Some config) d) s =
    new_call tab (if queued_generation config d then CheckingPending d else Generating) (reset_output tab s)"
| "studio_step len owner (Mount tab) s = new_call tab ReadingOnMount s"
| "studio_step len owner (Reconnect tab) s =
    (case tab_pending (st_tabs s tab) of
      None \<Rightarrow> s
    | Some r \<Rightarrow> new_call tab (Polling r) (reset_output tab s))"
| "studio_step len owner (CancelClick tab) s =
    (case (tab_pending (st_tabs s tab), tab_queueStatus (st_tabs s tab)) of
      (Some r, Some st) \<Rightarrow> new_call tab (MarkingCancel r st) s
    | _ \<Rightarrow> s)"
| "studio_step len owner (DiscardClick tab) s =
    (case tab_pending (st_tabs s tab) of
      None \<Rightarrow> s\<lparr>st_tabs := (st_tabs s)(tab := (st_tabs s tab)\<lparr>tab_queueStatus := None\<rparr>)\<rparr>
    | Some r \<Rightarrow> new_call tab (Discarding r) (logged [Discarded (pi_key r)] s))"
| "studio_step len owner (DeleteHistory tab failure i) s = delete_history owner tab failure i s"
| "studio_step len owner (Answer p a newId now) s =
    (if p < length (st_calls s) then resume_call len owner p a newId now (snd (st_calls s ! p)) s else s)"

definition studio_run :: "(WorkflowJob \<Rightarrow> nat) \<Rightarrow> number \<Rightarrow> event list \<Rightarrow> studio \<Rightarrow> studio" where
  "studio_run len owner es s = foldl (\<lambda>s e. studio_step len owner e s) s es"

definition empty_tab :: tab_state where
  "empty_tab = \<lparr>tab_pending = None, tab_queueStatus = None, tab_selected = None, tab_warning = []\<rparr>"

definition opened :: "studio_db \<Rightarrow> studio" where
  "opened db = \<lparr>st_db = db, st_tabs = (\<lambda>_. empty_tab), st_calls = [], st_log = []\<rparr>"

section \<open>Histories\<close>

text \<open>A property of each entry of a log and what precedes it.\<close>

definition history_ok :: "('a list \<Rightarrow> 'a \<Rightarrow> bool) \<Rightarrow> 'a list \<Rightarrow> bool" where
  "history_ok R es \<longleftrightarrow> (\<forall>i < length es. R (take i es) (es ! i))"

lemma history_ok_Nil [simp]: "history_ok R []"
  by (simp add: history_ok_def)

lemma history_ok_snoc [simp]: "history_ok R (es @ [e]) \<longleftrightarrow> history_ok R es \<and> R es e"
  by (auto simp: history_ok_def nth_append less_Suc_eq)

lemma history_ok_pair [simp]: "history_ok R (es @ [a, b]) \<longleftrightarrow> history_ok R es \<and> R es a \<and> R (es @ [a]) b"
  using history_ok_snoc [of R "es @ [a]" b] by simp

fun entry_slot :: "entry \<Rightarrow> string slot_entry list" where
  "entry_slot (Claimed k) = [SlotClaimed k]"
| "entry_slot (Removed k) = [SlotReleased k]"
| "entry_slot _ = []"

definition slot_entries :: "entry list \<Rightarrow> string slot_entry list" where
  "slot_entries es = concat (map entry_slot es)"

fun entry_claim :: "entry \<Rightarrow> string list" where
  "entry_claim (Claimed k) = [k]"
| "entry_claim _ = []"

definition claimed_keys :: "entry list \<Rightarrow> string list" where
  "claimed_keys es = concat (map entry_claim es)"

lemma slot_entries_simps [simp]:
  "slot_entries [] = []" "slot_entries (e # es) = entry_slot e @ slot_entries es"
  "slot_entries (es @ es') = slot_entries es @ slot_entries es'"
  by (simp_all add: slot_entries_def)

lemma claimed_keys_simps [simp]:
  "claimed_keys [] = []" "claimed_keys (e # es) = entry_claim e @ claimed_keys es"
  "claimed_keys (es @ es') = claimed_keys es @ claimed_keys es'"
  by (simp_all add: claimed_keys_def)

lemma claimed_keys_iff: "k \<in> set (claimed_keys es) \<longleftrightarrow> Claimed k \<in> set es"
proof -
  have "k \<in> set (entry_claim e) \<longleftrightarrow> e = Claimed k" for e by (cases e) auto
  then show ?thesis by (auto simp: claimed_keys_def)
qed

text \<open>What may be logged behind a given log: a key is posted once, after it was claimed; a record is
  removed only when the server refused its job, when the saved result was acknowledged, or when the
  user discarded it; a result is acknowledged only after it was saved, and saved only when the user
  has not cancelled the job or the server had already committed the result.\<close>

fun entry_ok :: "entry list \<Rightarrow> entry \<Rightarrow> bool" where
  "entry_ok past (Posted k _) = (Claimed k \<in> set past \<and> (\<forall>epoch. Posted k epoch \<notin> set past))"
| "entry_ok past (Removed k) = (Refused k \<in> set past \<or> Acked k \<in> set past \<or> Discarded k \<in> set past)"
| "entry_ok past (Acked k) = (\<exists>c. Saved k c \<in> set past)"
| "entry_ok past (Saved k c) = (CancelMarked k \<in> set past \<longrightarrow> c)"
| "entry_ok past _ = True"

section \<open>The invariant\<close>

fun call_record :: "call \<Rightarrow> PendingStudioImage option" where
  "call_record (Claiming r) = Some r"
| "call_record (Posting r) = Some r"
| "call_record (ClearingRejected r _) = Some r"
| "call_record (Polling r) = Some r"
| "call_record (ReadingLatest r _) = Some r"
| "call_record (SendingCancel r) = Some r"
| "call_record (FetchingResult r _) = Some r"
| "call_record (CheckingRecovery r _ _) = Some r"
| "call_record (Waiting r) = Some r"
| "call_record (Saving r _ _) = Some r"
| "call_record (Acking r _) = Some r"
| "call_record (ClearingAcked r _) = Some r"
| "call_record (MarkingCancel r _) = Some r"
| "call_record (Discarding r) = Some r"
| "call_record _ = None"

fun call_reason :: "entry list \<Rightarrow> call \<Rightarrow> bool" where
  "call_reason es (ClearingRejected r _) = (Refused (pi_key r) \<in> set es)"
| "call_reason es (Acking r _) = (\<exists>c. Saved (pi_key r) c \<in> set es)"
| "call_reason es (ClearingAcked r _) = (Acked (pi_key r) \<in> set es)"
| "call_reason es (Discarding r) = (Discarded (pi_key r) \<in> set es)"
| "call_reason es _ = True"

definition keyed :: "PendingStudioImage option \<Rightarrow> bool" where
  "keyed r \<longleftrightarrow> (case r of None \<Rightarrow> True | Some r \<Rightarrow> pi_key r \<noteq> [])"

lemma keyed_simps [simp]: "keyed None" "keyed (Some r) \<longleftrightarrow> pi_key r \<noteq> []"
  by (simp_all add: keyed_def)

definition call_ok :: "entry list \<Rightarrow> call \<Rightarrow> bool" where
  "call_ok es c \<longleftrightarrow> keyed (call_record c) \<and> call_reason es c"

fun claiming_key :: "call \<Rightarrow> string list" where
  "claiming_key (Claiming r) = [pi_key r]"
| "claiming_key _ = []"

definition claims :: "(nat \<times> call) list \<Rightarrow> string multiset" where
  "claims cs = mset (concat (map (claiming_key \<circ> snd) cs))"

text \<open>Keys are fresh: the ids drawn so far differ from each other and from the key the database
  held at the start, and none is empty.\<close>

definition fresh_ids :: "string option \<Rightarrow> string list \<Rightarrow> bool" where
  "fresh_ids h ids \<longleftrightarrow> distinct ids \<and> h \<notin> Some ` set ids \<and> [] \<notin> set ids"

definition slot_inv :: "string option \<Rightarrow> studio_db \<Rightarrow> entry list \<Rightarrow> bool" where
  "slot_inv h db es \<longleftrightarrow>
    replay h (slot_entries es) = Some (slot_key db) \<and> keyed (db_pending db) \<and>
    (\<forall>k. slot_key db = Some k \<or> CancelMarked k \<in> set es \<longrightarrow> Claimed k \<in> set es \<or> h = Some k) \<and>
    (\<forall>r. db_pending db = Some r \<and> CancelMarked (pi_key r) \<in> set es \<longrightarrow> pi_cancelRequested r)"

definition log_inv :: "entry list \<Rightarrow> bool" where
  "log_inv es \<longleftrightarrow> history_ok entry_ok es \<and> (\<forall>k epoch. Posted k epoch \<in> set es \<longrightarrow> Claimed k \<in> set es)"

definition studio_inv :: "string option \<Rightarrow> string list \<Rightarrow> studio \<Rightarrow> bool" where
  "studio_inv h ids s \<longleftrightarrow>
    slot_inv h (st_db s) (st_log s) \<and> log_inv (st_log s) \<and>
    (\<forall>x \<in> set (st_calls s). call_ok (st_log s) (snd x)) \<and>
    (\<forall>tab. keyed (tab_pending (st_tabs s tab))) \<and>
    mset (claimed_keys (st_log s)) + claims (st_calls s) \<subseteq># mset ids"

lemma studio_simps [simp]:
  "st_db (set_call p c s) = st_db s" "st_log (set_call p c s) = st_log s" "st_tabs (set_call p c s) = st_tabs s"
  "st_calls (set_call p c s) = (st_calls s)[p := (fst (st_calls s ! p), c)]"
  "st_db (upd_tab p f s) = st_db s" "st_log (upd_tab p f s) = st_log s" "st_calls (upd_tab p f s) = st_calls s"
  "st_db (logged es s) = st_db s" "st_log (logged es s) = st_log s @ es" "st_calls (logged es s) = st_calls s"
  "st_tabs (logged es s) = st_tabs s"
  "st_db (new_call tab c s) = st_db s" "st_log (new_call tab c s) = st_log s" "st_tabs (new_call tab c s) = st_tabs s"
  "st_calls (new_call tab c s) = st_calls s @ [(tab, c)]"
  "st_db (reset_output tab s) = st_db s" "st_log (reset_output tab s) = st_log s" "st_calls (reset_output tab s) = st_calls s"
  by (simp_all add: set_call_def upd_tab_def logged_def new_call_def reset_output_def Let_def)

lemma logged_Nil [simp]: "logged [] s = s"
  by (simp add: logged_def)

lemma call_reason_mono: "call_reason es c \<Longrightarrow> call_reason (es @ es') c"
  by (cases c) auto

lemma call_ok_mono: "call_ok es c \<Longrightarrow> call_ok (es @ es') c"
  by (simp add: call_ok_def call_reason_mono)

lemma claims_update:
  assumes "p < length cs"
  shows "claims (cs[p := x]) + mset (claiming_key (snd (cs ! p))) = claims cs + mset (claiming_key (snd x))"
proof -
  have "cs = take p cs @ cs ! p # drop (Suc p) cs"
    using assms by (simp add: id_take_nth_drop)
  then have "claims cs = claims (take p cs) + mset (claiming_key (snd (cs ! p))) + claims (drop (Suc p) cs)"
    by (metis (no_types, lifting) claims_def comp_apply concat.simps(2) concat_append list.simps(9) map_append mset_append union_assoc)
  moreover have "claims (cs[p := x]) = claims (take p cs) + mset (claiming_key (snd x)) + claims (drop (Suc p) cs)"
    using assms by (simp add: upd_conv_take_nth_drop claims_def)
  ultimately show ?thesis by (simp add: ac_simps)
qed

lemma claims_snoc [simp]: "claims (cs @ [x]) = claims cs + mset (claiming_key (snd x))"
  by (simp add: claims_def)

lemma studio_inv_call:
  assumes "studio_inv h ids s" "p < length (st_calls s)"
  shows "call_ok (st_log s) (snd (st_calls s ! p))"
  using assms by (simp add: studio_inv_def)

lemma inv_set_call:
  assumes "studio_inv h ids s" "p < length (st_calls s)" "call_ok (st_log s) c" "claiming_key c = []"
  shows "studio_inv h ids (set_call p c s)"
proof -
  have "claims ((st_calls s)[p := (fst (st_calls s ! p), c)]) + mset (claiming_key (snd (st_calls s ! p))) =
      claims (st_calls s)"
    using claims_update [OF assms(2), of "(fst (st_calls s ! p), c)"] assms(4) by simp
  then have "claims ((st_calls s)[p := (fst (st_calls s ! p), c)]) \<subseteq># claims (st_calls s)"
    by (metis mset_subset_eq_add_left)
  then have "mset (claimed_keys (st_log s)) + claims ((st_calls s)[p := (fst (st_calls s ! p), c)]) \<subseteq># mset ids"
    using assms(1) unfolding studio_inv_def by (meson subset_mset.add_left_mono subset_mset.order_trans)
  with assms show ?thesis
    by (auto simp: studio_inv_def dest: in_set_conv_nth [THEN iffD1] dest!: set_update_subset_insert [THEN subsetD])
qed

lemma inv_upd_tab:
  assumes "studio_inv h ids s" "\<And>t. keyed (tab_pending t) \<Longrightarrow> keyed (tab_pending (f t))"
  shows "studio_inv h ids (upd_tab p f s)"
  using assms by (simp add: studio_inv_def upd_tab_def Let_def)

lemma inv_new_call:
  assumes "studio_inv h ids s" "call_ok (st_log s) c" "claiming_key c = []"
  shows "studio_inv h ids (new_call tab c s)"
  using assms by (auto simp: studio_inv_def)

lemma inv_reset_output: "studio_inv h ids s \<Longrightarrow> studio_inv h ids (reset_output tab s)"
  by (simp add: studio_inv_def reset_output_def)

fun plain_entry :: "entry \<Rightarrow> bool" where
  "plain_entry (Refused _) = True"
| "plain_entry (Acked _) = True"
| "plain_entry (Discarded _) = True"
| "plain_entry (CancelSent _) = True"
| "plain_entry _ = False"

lemma plain_entry_slot: "plain_entry e \<Longrightarrow> slot_inv h db (es @ [e]) = slot_inv h db es"
  by (cases e) (auto simp: slot_inv_def)

lemma plain_entry_log: "plain_entry e \<Longrightarrow> log_inv es \<Longrightarrow> entry_ok es e \<Longrightarrow> log_inv (es @ [e])"
  by (cases e) (auto simp: log_inv_def)

lemma plain_entry_claim: "plain_entry e \<Longrightarrow> entry_claim e = []"
  by (cases e) auto

lemma inv_logged:
  assumes "studio_inv h ids s" "plain_entry e" "entry_ok (st_log s) e"
  shows "studio_inv h ids (logged [e] s)"
  using assms by (auto simp: studio_inv_def plain_entry_slot plain_entry_log plain_entry_claim call_ok_mono)

lemma inv_more_ids: "studio_inv h ids s \<Longrightarrow> studio_inv h (ids @ [i]) s"
  by (auto simp: studio_inv_def intro: subset_mset.order_trans)


lemma sub_mset_distinct:
  assumes "mset xs \<subseteq># mset ys" "distinct ys"
  shows "distinct xs \<and> set xs \<subseteq> set ys"
proof -
  have "count (mset xs) a \<le> count (mset ys) a" for a
    using assms(1) by (rule mset_subset_eq_count)
  moreover have "count (mset ys) a \<le> 1" for a
    using assms(2) by (simp add: distinct_count_atmost_1)
  ultimately have "count (mset xs) a \<le> 1" for a
    by (meson le_trans)
  then have "count (mset xs) a = (if a \<in> set xs then 1 else 0)" for a
    by (metis count_mset_0_iff le_neq_implies_less less_one)
  then have "distinct xs" by (simp add: distinct_count_atmost_1)
  with assms(1) show ?thesis using set_mset_mono by fastforce
qed

lemma inv_session:
  assumes "studio_inv h ids s" "p < length (st_calls s)" "i \<noteq> []"
  shows "studio_inv h (ids @ [i]) (on_session p d epoch i now s)"
proof -
  let ?cs = "(st_calls s)[p := (fst (st_calls s ! p), Claiming \<lparr>pi_key = i, pi_epoch = epoch,
     pi_draft = effective_draft d, pi_started = now, pi_cancelRequested = False\<rparr>)]"
  have "claims ?cs + mset (claiming_key (snd (st_calls s ! p))) = claims (st_calls s) + {#i#}"
    using claims_update [OF assms(2)] by simp
  then have "claims ?cs \<subseteq># claims (st_calls s) + {#i#}"
    by (metis mset_subset_eq_add_left)
  moreover have "mset (claimed_keys (st_log s)) + (claims (st_calls s) + {#i#}) \<subseteq># mset (ids @ [i])"
    using assms(1) by (simp add: studio_inv_def)
  ultimately have "mset (claimed_keys (st_log s)) + claims ?cs \<subseteq># mset (ids @ [i])"
    by (meson subset_mset.add_left_mono subset_mset.order_trans)
  with assms show ?thesis
    by (auto simp: studio_inv_def on_session_def call_ok_def dest!: set_update_subset_insert [THEN subsetD])
qed

lemma slot_inv_claim:
  assumes "slot_inv h db es" "pendingStudioImage owner f (PutPending r) True None db = (Inr x, db')"
    and "pi_key r \<noteq> []" "Claimed (pi_key r) \<notin> set es" "h \<noteq> Some (pi_key r)"
  shows "slot_inv h db' (es @ [Claimed (pi_key r), Posted (pi_key r) epoch])"
proof -
  have empty: "db_pending db = None" and new: "db_pending db' = Some r"
    using claim_result [OF assms(2)] by simp_all
  have "replay h (slot_entries es @ [SlotClaimed (pi_key r)]) = Some (slot_key db')"
    using assms(1,2) by (intro pending_slot.replay_claim [where owner = owner and failure = f and s = db]) (simp_all add: slot_inv_def committed_def)
  moreover have "CancelMarked (pi_key r) \<notin> set es"
    using assms(1,4,5) by (auto simp: slot_inv_def)
  ultimately show ?thesis
    using assms(1,3) by (auto simp: slot_inv_def slot_key_def new empty)
qed

lemma inv_claimed:
  assumes inv: "studio_inv h ids s" and fresh: "fresh_ids h ids" and p: "p < length (st_calls s)"
    and at: "snd (st_calls s ! p) = Claiming r"
  shows "studio_inv h ids (on_claimed owner p r f s)"
proof (cases "pendingStudioImage owner f (PutPending r) True None (st_db s)")
  case (Pair res db)
  show ?thesis
  proof (cases res)
    case (Inl e)
    with Pair show ?thesis
      using inv p by (simp add: on_claimed_def fail_call_def inv_set_call call_ok_def)
  next
    case (Inr x)
    let ?k = "pi_key r" and ?es = "st_log s" and ?cs = "(st_calls s)[p := (fst (st_calls s ! p), Posting r)]"
    have k: "?k \<noteq> []"
      using studio_inv_call [OF inv p] at by (simp add: call_ok_def)
    have "claims ?cs + {#?k#} = claims (st_calls s)"
      using claims_update [OF p, of "(fst (st_calls s ! p), Posting r)"] at by simp
    then have eq: "mset (claimed_keys ?es) + {#?k#} + claims ?cs = mset (claimed_keys ?es) + claims (st_calls s)"
      by (metis union_assoc union_commute)
    have sub: "mset (claimed_keys ?es) + {#?k#} + claims ?cs \<subseteq># mset ids"
      using inv unfolding eq studio_inv_def by blast
    then have "mset (claimed_keys ?es @ [?k]) \<subseteq># mset ids"
      by (metis mset_append mset_single_iff_right mset_subset_eq_add_left subset_mset.order_trans)
    then have "distinct (claimed_keys ?es @ [?k])" "?k \<in> set ids"
      using fresh sub_mset_distinct [of "claimed_keys ?es @ [?k]" ids] by (auto simp: fresh_ids_def)
    then have new: "Claimed ?k \<notin> set ?es" "h \<noteq> Some ?k"
      using fresh by (auto simp: claimed_keys_iff fresh_ids_def)
    have "log_inv (?es @ [Claimed ?k, Posted ?k (pi_epoch r)])"
      using inv new(1) by (auto simp: studio_inv_def log_inv_def)
    moreover have "slot_inv h db (?es @ [Claimed ?k, Posted ?k (pi_epoch r)])"
      using inv k new Pair Inr by (intro slot_inv_claim [where owner = owner and f = f]) (auto simp: studio_inv_def)
    moreover have "mset (claimed_keys (?es @ [Claimed ?k, Posted ?k (pi_epoch r)])) + claims ?cs \<subseteq># mset ids"
      using sub by simp
    moreover have "call_ok (?es @ [Claimed ?k, Posted ?k (pi_epoch r)]) (snd x)" if "x \<in> set ?cs" for x
    proof (cases "x \<in> set (st_calls s)")
      case True
      then show ?thesis using inv by (auto simp: studio_inv_def intro: call_ok_mono)
    next
      case False
      then show ?thesis using set_update_subset_insert [THEN subsetD, OF that] k by (simp add: call_ok_def)
    qed
    ultimately show ?thesis
      using inv Pair Inr by (simp add: on_claimed_def studio_inv_def)
  qed
qed


lemma inv_db_same_slot:
  "studio_inv h ids s \<Longrightarrow> db_pending db = db_pending (st_db s) \<Longrightarrow> studio_inv h ids (s\<lparr>st_db := db\<rparr>)"
  by (simp add: studio_inv_def slot_inv_def slot_key_def)

lemma inv_delete:
  assumes inv: "studio_inv h ids s" and k: "k \<noteq> []" and just: "entry_ok (st_log s) (Removed k)"
    and cont: "\<And>s'. studio_inv h ids s' \<Longrightarrow> st_calls s' = st_calls s \<Longrightarrow> studio_inv h ids (cont s')"
    and other: "\<And>e. studio_inv h ids (other e s)"
  shows "studio_inv h ids (delete_pending owner f k cont other s)"
proof (cases "pendingStudioImage owner f DeletePending False (Some k) (st_db s)")
  case (Pair res db)
  show ?thesis
  proof (cases res)
    case (Inl e)
    with Pair other show ?thesis by (simp add: delete_pending_def)
  next
    case (Inr x)
    have comm: "committed (pendingStudioImage owner f DeletePending False (Some k) (st_db s)) = Some db"
      by (simp add: Pair Inr committed_def)
    show ?thesis
    proof (cases "slot_key (st_db s) = Some k")
      case True
      have none: "db_pending db = None"
        using pending_slot.released [OF k comm] True by (simp add: slot_key_def)
      have "replay h (slot_entries (st_log s) @ [SlotReleased k]) = Some (slot_key db)"
        using inv k comm True by (intro pending_slot.replay_release [where owner = owner and failure = f and s = "st_db s"])
          (simp_all add: studio_inv_def slot_inv_def)
      then have "slot_inv h db (st_log s @ [Removed k])"
        using inv none by (auto simp: studio_inv_def slot_inv_def slot_key_def)
      then have "studio_inv h ids (logged [Removed k] (s\<lparr>st_db := db\<rparr>))"
        using inv just by (auto simp: studio_inv_def log_inv_def call_ok_mono)
      then show ?thesis using Pair Inr True cont by (simp add: delete_pending_def)
    next
      case False
      then have "db_pending db = db_pending (st_db s)"
        using Pair Inr k by (auto simp: pendingStudioImage_def Let_def truthy_string_def slot_key_def split: option.splits if_splits)
      then have "studio_inv h ids (s\<lparr>st_db := db\<rparr>)"
        by (rule inv_db_same_slot [OF inv])
      then show ?thesis using Pair Inr False cont by (simp add: delete_pending_def)
    qed
  qed
qed

lemma inv_saved:
  assumes inv: "studio_inv h ids s" and k: "k \<noteq> []"
    and saved: "saveStudioJob len owner f job (Some k) c (st_db s) = (Inr True, db)"
  shows "studio_inv h ids (logged [Saved k c] (s\<lparr>st_db := db\<rparr>))"
proof -
  have same: "db_pending db = db_pending (st_db s)"
    using saveStudioJob_pending [of len owner f job "Some k" c "st_db s"] saved by simp
  have "CancelMarked k \<in> set (st_log s) \<Longrightarrow> c"
    using saveStudioJob_saved [of len owner f job k c "st_db s"] saved k inv
    by (auto simp: studio_inv_def slot_inv_def)
  then show ?thesis
    using inv_db_same_slot [OF inv same]
    by (auto simp: studio_inv_def slot_inv_def log_inv_def call_ok_mono)
qed

lemma inv_marked:
  assumes inv: "studio_inv h ids s" and k: "pi_key r \<noteq> []"
    and marked: "pendingStudioImage owner f (PutPending (r\<lparr>pi_cancelRequested := True\<rparr>)) False (Some (pi_key r)) (st_db s) = (Inr x, db)"
  shows "studio_inv h ids (logged ((if slot_key (st_db s) = Some (pi_key r) then [CancelMarked (pi_key r)] else []) @ [CancelSent i])
    (s\<lparr>st_db := db\<rparr>))"
proof (cases "slot_key (st_db s) = Some (pi_key r)")
  case True
  then have db: "db_pending db = Some (r\<lparr>pi_cancelRequested := True\<rparr>)"
    using marked k by (auto simp: pendingStudioImage_def Let_def truthy_string_def slot_key_def split: option.splits if_splits)
  then have "slot_inv h db (st_log s @ [CancelMarked (pi_key r), CancelSent i])"
    using inv True k by (auto simp: studio_inv_def slot_inv_def slot_key_def)
  with True inv show ?thesis
    by (auto simp: studio_inv_def log_inv_def call_ok_mono)
next
  case False
  then have "db_pending db = db_pending (st_db s)"
    using marked k by (auto simp: pendingStudioImage_def Let_def truthy_string_def slot_key_def split: option.splits if_splits)
  with False show ?thesis
    by (simp add: inv_logged inv_db_same_slot [OF inv])
qed

lemma inv_fail_call: "studio_inv h ids s \<Longrightarrow> p < length (st_calls s) \<Longrightarrow> studio_inv h ids (fail_call p s)"
  by (simp add: fail_call_def inv_set_call call_ok_def)

lemma inv_finished: "studio_inv h ids s \<Longrightarrow> p < length (st_calls s) \<Longrightarrow> studio_inv h ids (set_call p Finished s)"
  by (simp add: inv_set_call call_ok_def)

lemma inv_succeed: "studio_inv h ids s \<Longrightarrow> p < length (st_calls s) \<Longrightarrow> studio_inv h ids (succeed p job n s)"
  by (simp add: succeed_def inv_finished inv_upd_tab)

lemma inv_queueStatus: "studio_inv h ids s \<Longrightarrow> studio_inv h ids (set_queueStatus p st s)"
  by (simp add: set_queueStatus_def inv_upd_tab)

lemma set_queueStatus_simps [simp]:
  "st_calls (set_queueStatus p st s) = st_calls s" "st_log (set_queueStatus p st s) = st_log s"
  by (simp_all add: set_queueStatus_def)

lemma inv_lookup_error: "studio_inv h ids s \<Longrightarrow> p < length (st_calls s) \<Longrightarrow> studio_inv h ids (handleLookupError p r e s)"
  by (simp add: handleLookupError_def inv_fail_call inv_queueStatus)

lemma inv_read:
  assumes "studio_inv h ids s" "\<And>r. keyed r \<Longrightarrow> studio_inv h ids (k r s)" "studio_inv h ids (other s)"
  shows "studio_inv h ids (read_pending owner f k other s)"
proof (cases "fst (pendingStudioImage owner f ReadPending False None (st_db s))")
  case (Inl e)
  with assms(3) show ?thesis by (simp add: read_pending_def)
next
  case (Inr r)
  then have "keyed r"
    using assms(1) pendingStudioImage_read_result [of owner f False None "st_db s" r] by (simp add: studio_inv_def slot_inv_def)
  with assms(2) Inr show ?thesis by (simp add: read_pending_def)
qed

lemmas inv_steps = inv_set_call inv_upd_tab inv_fail_call inv_finished inv_succeed inv_queueStatus inv_lookup_error inv_logged


lemma inv_on_posted:
  "studio_inv h ids s \<Longrightarrow> p < length (st_calls s) \<Longrightarrow> pi_key r \<noteq> [] \<Longrightarrow> studio_inv h ids (on_posted p r a s)"
  by (cases a) (simp_all add: on_posted_def inv_steps call_ok_def)

lemma inv_on_status:
  "studio_inv h ids s \<Longrightarrow> p < length (st_calls s) \<Longrightarrow> pi_key r \<noteq> [] \<Longrightarrow> studio_inv h ids (on_status p r st s)"
  by (simp add: on_status_def inv_steps call_ok_def)

lemma inv_send_cancel:
  "studio_inv h ids s \<Longrightarrow> p < length (st_calls s) \<Longrightarrow> pi_key r \<noteq> [] \<Longrightarrow> studio_inv h ids (send_cancel p r st s)"
  by (simp add: send_cancel_def inv_steps call_ok_def)

lemma inv_on_latest:
  "studio_inv h ids s \<Longrightarrow> p < length (st_calls s) \<Longrightarrow> pi_key r \<noteq> [] \<Longrightarrow> studio_inv h ids (on_latest p r st latest s)"
  by (simp add: on_latest_def inv_send_cancel inv_steps call_ok_def)

lemma inv_on_result:
  "studio_inv h ids s \<Longrightarrow> p < length (st_calls s) \<Longrightarrow> pi_key r \<noteq> [] \<Longrightarrow> studio_inv h ids (on_result p r st a s)"
  by (cases a) (simp_all add: on_result_def inv_steps call_ok_def)

lemma inv_on_recovery:
  "studio_inv h ids s \<Longrightarrow> p < length (st_calls s) \<Longrightarrow> pi_key r \<noteq> [] \<Longrightarrow>
   studio_inv h ids (on_recovery p r st url i now recovery s)"
  by (cases recovery) (simp_all add: on_recovery_def inv_send_cancel inv_steps call_ok_def)

lemma inv_on_save:
  assumes "studio_inv h ids s" "p < length (st_calls s)" "pi_key r \<noteq> []"
  shows "studio_inv h ids (on_save len owner p r st job f s)"
proof (cases "saveStudioJob len owner f job (Some (pi_key r)) (ij_result_committed st) (st_db s)")
  case (Pair res db)
  consider e where "res = Inl e" | "res = Inr False" | "res = Inr True" by (metis sum.exhaust_sel)
  then show ?thesis
  proof cases
    case 3
    with Pair assms have "studio_inv h ids (logged [Saved (pi_key r) (ij_result_committed st)] (s\<lparr>st_db := db\<rparr>))"
      by (intro inv_saved) simp_all
    with Pair 3 assms show ?thesis
      by (auto simp: on_save_def call_ok_def intro!: inv_set_call)
  qed (use Pair assms in \<open>simp_all add: on_save_def inv_steps\<close>)
qed

lemma inv_on_ack:
  "studio_inv h ids s \<Longrightarrow> p < length (st_calls s) \<Longrightarrow> call_ok (st_log s) (Acking r job) \<Longrightarrow> studio_inv h ids (on_ack p r job a s)"
  by (cases a) (auto simp: on_ack_def call_ok_def intro!: inv_steps)

lemma inv_on_acked_cleared:
  "studio_inv h ids s \<Longrightarrow> p < length (st_calls s) \<Longrightarrow> call_ok (st_log s) (ClearingAcked r job) \<Longrightarrow>
   studio_inv h ids (on_acked_cleared owner p r job f s)"
  unfolding on_acked_cleared_def by (rule inv_delete) (simp_all add: call_ok_def inv_steps)

lemma inv_on_discarded:
  "studio_inv h ids s \<Longrightarrow> p < length (st_calls s) \<Longrightarrow> call_ok (st_log s) (Discarding r) \<Longrightarrow>
   studio_inv h ids (on_discarded owner p r f s)"
  unfolding on_discarded_def by (rule inv_delete) (simp_all add: call_ok_def inv_steps)

lemma inv_on_save_direct:
  assumes "studio_inv h ids s" "p < length (st_calls s)"
  shows "studio_inv h ids (on_save_direct len owner p job w f s)"
proof (cases "saveStudioJob len owner f job None False (st_db s)")
  case (Pair res db)
  then have "db_pending db = db_pending (st_db s)"
    using saveStudioJob_pending [of len owner f job None False "st_db s"] by simp
  with assms Pair show ?thesis
    by (auto simp: on_save_direct_def inv_steps inv_db_same_slot split: sum.split bool.split)
qed

lemma inv_on_marked:
  assumes "studio_inv h ids s" "p < length (st_calls s)" "pi_key r \<noteq> []"
  shows "studio_inv h ids (on_marked owner p r st f s)"
proof (cases "pendingStudioImage owner f (PutPending (r\<lparr>pi_cancelRequested := True\<rparr>)) False (Some (pi_key r)) (st_db s)")
  case (Pair res db)
  show ?thesis
  proof (cases res)
    case (Inr x)
    note inv_marked [OF assms(1,3) Pair [unfolded Inr], of "ij_id st"]
    with assms Pair Inr show ?thesis by (simp add: on_marked_def inv_set_call call_ok_def)
  qed (use assms Pair in \<open>simp add: on_marked_def inv_steps\<close>)
qed

lemma inv_start_collecting:
  "studio_inv h ids s \<Longrightarrow> p < length (st_calls s) \<Longrightarrow> pi_key r \<noteq> [] \<Longrightarrow> studio_inv h ids (start_collecting p r s)"
  by (simp add: start_collecting_def inv_steps call_ok_def)

lemma inv_resume:
  assumes inv: "studio_inv h ids s" and p: "p < length (st_calls s)" and fresh: "fresh_ids h (ids @ [i])"
  shows "studio_inv h (ids @ [i]) (resume_call len owner p a i now (snd (st_calls s ! p)) s)"
proof -
  note ok = studio_inv_call [OF inv p]
  have fresh': "fresh_ids h ids" and i: "i \<noteq> []" using fresh by (auto simp: fresh_ids_def)
  have inv': "studio_inv h (ids @ [i]) s" using inv by (rule inv_more_ids)
  note steps = inv_read inv_set_call inv_upd_tab inv_fail_call inv_finished inv_succeed inv_lookup_error
  show ?thesis
  proof (cases "snd (st_calls s ! p)")
    case (FetchingSession d)
    then show ?thesis
      using inv p i by (cases a) (simp_all add: resume_call_def inv_session inv_more_ids inv_fail_call)
  next
    case (Claiming r)
    with inv p fresh' show ?thesis
      by (cases "tx_failure a") (auto simp: resume_call_def intro!: inv_more_ids inv_claimed)
  next
    case (ClearingRejected r e)
    with ok have "studio_inv h (ids @ [i]) (delete_pending owner f (pi_key r) (fail_call p) (\<lambda>_. fail_call p) s)" for f
      using inv' p by (intro inv_delete) (simp_all add: call_ok_def inv_fail_call)
    with ClearingRejected inv' show ?thesis
      by (cases "tx_failure a") (simp_all add: resume_call_def)
  next
    case (ReadingLatest r st)
    with ok inv' p show ?thesis
      by (cases "tx_failure a") (auto simp: resume_call_def call_ok_def intro!: inv_read inv_on_latest inv_fail_call)
  next
    case (CheckingRecovery r st url)
    with ok inv' p show ?thesis
      by (cases "tx_failure a") (auto simp: resume_call_def call_ok_def intro!: inv_read inv_on_recovery inv_fail_call)
  next
    case (ReadingOnMount)
    with inv' p show ?thesis
      by (cases "tx_failure a")
        (auto simp: resume_call_def intro!: inv_read inv_finished inv_start_collecting split: option.split)
  next
    case RefreshingPending
    with inv' p show ?thesis
      by (cases "tx_failure a") (auto simp: resume_call_def intro!: inv_read inv_finished inv_upd_tab)
  next
    case (CheckingPending d)
    with inv' p show ?thesis
      by (cases "tx_failure a") (auto simp: resume_call_def call_ok_def intro!: inv_read inv_set_call inv_fail_call)
  next
    case (Preparing d)
    with inv' p show ?thesis
      by (cases a) (simp_all add: resume_call_def call_ok_def inv_steps)
  next
    case (Polling r)
    with ok inv' p show ?thesis
      by (cases a) (simp_all add: resume_call_def call_ok_def inv_steps inv_on_status)
  next
    case (SendingCancel r)
    with ok inv' p show ?thesis
      by (cases a) (simp_all add: resume_call_def call_ok_def inv_steps)
  next
    case (Waiting r)
    with ok inv' p show ?thesis
      by (cases a) (simp_all add: resume_call_def call_ok_def inv_steps)
  next
    case Generating
    with inv' p show ?thesis
      by (cases a) (simp_all add: resume_call_def call_ok_def inv_steps)
  next
    case SendingUserCancel
    with inv' p show ?thesis
      by (cases a) (simp_all add: resume_call_def call_ok_def inv_steps)
  qed (use ok inv' p in \<open>cases "tx_failure a"; simp add: resume_call_def call_ok_def inv_on_posted inv_on_result inv_on_save
      inv_on_ack inv_on_acked_cleared inv_on_save_direct inv_on_marked inv_on_discarded\<close>)+
qed

fun event_ids :: "event \<Rightarrow> string list" where
  "event_ids (Answer _ _ i _) = [i]"
| "event_ids _ = []"

definition drawn_ids :: "event list \<Rightarrow> string list" where
  "drawn_ids es = concat (map event_ids es)"

lemma inv_delete_history: "studio_inv h ids s \<Longrightarrow> studio_inv h ids (delete_history owner tab f i s)"
  by (cases "studioDatabase owner f")
    (simp_all add: delete_history_def deleteStudioJob_def Let_def studio_inv_def slot_inv_def slot_key_def)

lemma studio_step_inv:
  assumes inv: "studio_inv h ids s" and fresh: "fresh_ids h (ids @ event_ids e)"
  shows "studio_inv h (ids @ event_ids e) (studio_step len owner e s)"
proof -
  have tabs: "keyed (tab_pending (st_tabs s tab))" for tab
    using inv by (simp add: studio_inv_def)
  show ?thesis
  proof (cases e)
    case (Generate tab config d)
    with inv show ?thesis by (cases config) (simp_all add: inv_new_call inv_reset_output call_ok_def)
  next
    case (Mount tab)
    with inv show ?thesis by (simp add: inv_new_call call_ok_def)
  next
    case (Reconnect tab)
    with inv tabs [of tab] show ?thesis
      by (cases "tab_pending (st_tabs s tab)") (simp_all add: inv_new_call inv_reset_output call_ok_def)
  next
    case (CancelClick tab)
    with inv tabs [of tab] show ?thesis
      by (auto simp: inv_new_call call_ok_def split: option.split)
  next
    case (DiscardClick tab)
    show ?thesis
    proof (cases "tab_pending (st_tabs s tab)")
      case None
      with inv DiscardClick show ?thesis by (simp add: studio_inv_def)
    next
      case (Some r)
      with inv DiscardClick tabs [of tab] show ?thesis by (simp add: inv_new_call inv_logged call_ok_def)
    qed
  next
    case (DeleteHistory tab f i)
    with inv show ?thesis by (simp add: inv_delete_history)
  next
    case (Answer p a i now)
    with inv fresh inv_resume [OF inv, of p i len owner a now] show ?thesis
      by (simp add: inv_more_ids)
  qed
qed

lemma fresh_ids_prefix: "fresh_ids h (ids @ ids') \<Longrightarrow> fresh_ids h ids"
  by (auto simp: fresh_ids_def)

lemma studio_run_inv:
  assumes "studio_inv h ids s" "fresh_ids h (ids @ drawn_ids es)"
  shows "studio_inv h (ids @ drawn_ids es) (studio_run len owner es s)"
  using assms
proof (induction es arbitrary: s ids)
  case Nil
  then show ?case by (simp add: studio_run_def drawn_ids_def)
next
  case (Cons e es)
  then have "fresh_ids h (ids @ event_ids e)"
    by (auto simp: drawn_ids_def intro: fresh_ids_prefix)
  then have "studio_inv h (ids @ event_ids e) (studio_step len owner e s)"
    using Cons.prems(1) by (intro studio_step_inv)
  from Cons.IH [OF this] Cons.prems(2) show ?case
    by (simp add: studio_run_def drawn_ids_def)
qed

lemma opened_inv: "keyed (db_pending db) \<Longrightarrow> studio_inv (slot_key db) [] (opened db)"
  by (simp add: studio_inv_def slot_inv_def log_inv_def opened_def empty_tab_def claims_def)

lemmas studio_inv_run = studio_run_inv [OF opened_inv, simplified]


section \<open>Properties\<close>

lemma history_ok_at: "history_ok R (past @ e # rest) \<Longrightarrow> R past e"
  by (auto simp: history_ok_def dest: spec [of _ "length past"])

lemma run_log_ok:
  assumes "keyed (db_pending db)" "fresh_ids (slot_key db) (drawn_ids es)"
  shows "history_ok entry_ok (st_log (studio_run len owner es (opened db)))"
  using studio_inv_run [OF assms, of len owner] by (simp add: studio_inv_def log_inv_def)

text \<open>C15: However the tabs of an account interleave and whatever server, database and user do, at most
  one image job is under way: claims and removals of the shared record alternate, every removal
  is of the record claimed before it, and the database holds what the last of them left.\<close>

theorem one_job_at_a_time:
  assumes "keyed (db_pending db)" "fresh_ids (slot_key db) (drawn_ids es)"
  shows "replay (slot_key db) (slot_entries (st_log (studio_run len owner es (opened db)))) =
    Some (slot_key (st_db (studio_run len owner es (opened db))))"
  using studio_inv_run [OF assms, of len owner] by (simp add: studio_inv_def slot_inv_def)

text \<open>C18: A job is posted at most once, and only after its key was saved in the database.\<close>

theorem job_posted_once:
  assumes "keyed (db_pending db)" "fresh_ids (slot_key db) (drawn_ids es)"
    and "st_log (studio_run len owner es (opened db)) = past @ Posted k epoch # rest"
  shows "Claimed k \<in> set past \<and> (\<forall>epoch'. Posted k epoch' \<notin> set (past @ rest))"
proof -
  have ok: "history_ok entry_ok (past @ Posted k epoch # rest)"
    using run_log_ok [OF assms(1,2), of len owner] assms(3) by simp
  have "Posted k epoch' \<notin> set rest" for epoch'
  proof
    assume "Posted k epoch' \<in> set rest"
    then obtain u v where "rest = u @ Posted k epoch' # v" by (meson split_list)
    with ok have "history_ok entry_ok ((past @ Posted k epoch # u) @ Posted k epoch' # v)" by simp
    from history_ok_at [OF this] show False by (auto dest: spec [of _ epoch])
  qed
  with history_ok_at [OF ok] show ?thesis by simp
qed

text \<open>C16: The record of a job stays in the database until the server has refused the job, the user has
  discarded it, or its result was saved to the history and then acknowledged: a lost answer, a
  failed transaction or a closed tab never loses a job.\<close>

theorem record_kept_until_settled:
  assumes "keyed (db_pending db)" "fresh_ids (slot_key db) (drawn_ids es)"
    and "st_log (studio_run len owner es (opened db)) = past @ Removed k # rest"
  shows "Refused k \<in> set past \<or> Discarded k \<in> set past \<or>
    (\<exists>u v c. past = u @ Acked k # v \<and> Saved k c \<in> set u)"
proof -
  have ok: "history_ok entry_ok (past @ Removed k # rest)"
    using run_log_ok [OF assms(1,2), of len owner] assms(3) by simp
  show ?thesis
  proof (cases "Acked k \<in> set past")
    case True
    then obtain u v where uv: "past = u @ Acked k # v" by (meson split_list)
    with ok have "history_ok entry_ok (u @ Acked k # (v @ Removed k # rest))" by simp
    from history_ok_at [OF this] uv show ?thesis by auto
  next
    case False
    with history_ok_at [OF ok] show ?thesis by auto
  qed
qed

text \<open>C17: Once the user's cancellation of a job is in the database, no tab saves a result of that job
  any more, unless the server had committed the result before.\<close>

theorem cancelled_not_saved:
  assumes "keyed (db_pending db)" "fresh_ids (slot_key db) (drawn_ids es)"
    and "st_log (studio_run len owner es (opened db)) = past @ Saved k c # rest"
    and "CancelMarked k \<in> set past"
  shows "c"
  using run_log_ok [OF assms(1,2), of len owner] history_ok_at [of entry_ok past "Saved k c" rest] assms(3,4) by simp

section \<open>A reload recovers a job\<close>






lemma studio_run_simps [simp]:
  "studio_run len owner [] s = s"
  "studio_run len owner (e # es) s = studio_run len owner es (studio_step len owner e s)"
  "studio_run len owner (es @ es') s = studio_run len owner es' (studio_run len owner es s)"
  by (simp_all add: studio_run_def)





definition sample_status :: "job_state \<Rightarrow> bool \<Rightarrow> ImageJobStatus" where
  "sample_status state c = \<lparr>ij_id = ''j'', ij_key = ''k'', ij_epoch = ''e'', ij_state = state, ij_ahead = 0, ij_error = None,
     ij_recovery_pending = False, ij_cancel_requested = False, ij_result_committed = c, ij_created_at = 8\<rparr>"

definition queue_on :: ImageQueueConfig where
  "queue_on = \<lparr>iq_enabled = True, iq_models = Some [''m''], iq_access = True\<rparr>"

text \<open>A generation that the user cancels in the database, too late: the server has committed the result.\<close>

definition late_cancel :: "event list" where
  "late_cancel = [Generate 0 (Some queue_on) sample_draft, Answer 0 TxDone ''1'' 0, Answer 0 (PreparedBody 100) ''2'' 0,
     Answer 0 (SessionEpoch ''e'') ''k'' 1, Answer 0 TxDone ''3'' 1, Answer 0 PostDone ''4'' 2,
     Answer 0 (JobStatus (sample_status Running False)) ''5'' 3, Answer 0 TxDone ''6'' 3, CancelClick 0,
     Answer 1 TxDone ''7'' 4, Answer 0 TimerFired ''8'' 8, Answer 0 (JobStatus (sample_status Completed True)) ''9'' 9,
     Answer 0 TxDone ''10'' 9, Answer 0 (ResultBlob ''image/png'' 5 ''data:image/png;base64,AA'') ''11'' 9,
     Answer 0 TxDone ''12'' 9, Answer 0 TxDone ''13'' 9, Answer 0 PostDone ''14'' 9, Answer 0 TxDone ''15'' 9]"

definition no_job :: studio_db where
  "no_job = \<lparr>db_jobs = [], db_pending = None\<rparr>"

lemma late_cancel_hyps: "keyed (db_pending no_job)" "fresh_ids (slot_key no_job) (drawn_ids late_cancel)"
  by (code_simp, code_simp)

lemma late_cancel_log:
  "st_log (studio_run (\<lambda>_. 10) 7 late_cancel (opened no_job)) =
    [Claimed ''k'', Posted ''k'' ''e'', CancelMarked ''k'', CancelSent ''j'', Saved ''k'' True, Acked ''k'', Removed ''k'']"
  by code_simp

theorem one_job_at_a_time_witness:
  "keyed (db_pending no_job) \<and> fresh_ids (slot_key no_job) (drawn_ids late_cancel) \<and>
   replay (slot_key no_job) (slot_entries (st_log (studio_run (\<lambda>_. 10) 7 late_cancel (opened no_job)))) =
     Some (slot_key (st_db (studio_run (\<lambda>_. 10) 7 late_cancel (opened no_job))))"
  using one_job_at_a_time [OF late_cancel_hyps] late_cancel_hyps by blast

theorem job_posted_once_witness:
  "keyed (db_pending no_job) \<and> fresh_ids (slot_key no_job) (drawn_ids late_cancel) \<and>
   st_log (studio_run (\<lambda>_. 10) 7 late_cancel (opened no_job)) =
     [Claimed ''k''] @ Posted ''k'' ''e'' # [CancelMarked ''k'', CancelSent ''j'', Saved ''k'' True, Acked ''k'', Removed ''k''] \<and>
   Claimed ''k'' \<in> set [Claimed ''k'']"
  using job_posted_once [OF late_cancel_hyps, where past = "[Claimed ''k'']"] late_cancel_log late_cancel_hyps by simp

theorem record_kept_until_settled_witness:
  "keyed (db_pending no_job) \<and> fresh_ids (slot_key no_job) (drawn_ids late_cancel) \<and>
   (\<exists>u v c. [Claimed ''k'', Posted ''k'' ''e'', CancelMarked ''k'', CancelSent ''j'', Saved ''k'' True, Acked ''k''] =
      u @ Acked ''k'' # v \<and> Saved ''k'' c \<in> set u)"
  using record_kept_until_settled [OF late_cancel_hyps, where rest = "[]" and k = "''k''" and len = "\<lambda>_. 10" and owner = 7 and
      past = "[Claimed ''k'', Posted ''k'' ''e'', CancelMarked ''k'', CancelSent ''j'', Saved ''k'' True, Acked ''k'']"]
    late_cancel_log late_cancel_hyps by auto

theorem cancelled_not_saved_witness:
  "\<exists>past c rest. keyed (db_pending no_job) \<and> fresh_ids (slot_key no_job) (drawn_ids late_cancel) \<and>
     st_log (studio_run (\<lambda>_. 10) 7 late_cancel (opened no_job)) = past @ Saved ''k'' c # rest \<and>
     CancelMarked ''k'' \<in> set past \<and> c"
proof -
  let ?past = "[Claimed ''k'', Posted ''k'' ''e'', CancelMarked ''k'', CancelSent ''j'']"
  have log: "st_log (studio_run (\<lambda>_. 10) 7 late_cancel (opened no_job)) = ?past @ Saved ''k'' True # [Acked ''k'', Removed ''k'']"
    by (simp add: late_cancel_log)
  have marked: "CancelMarked ''k'' \<in> set ?past" by simp
  from cancelled_not_saved [OF late_cancel_hyps log marked] log marked late_cancel_hyps show ?thesis by blast
qed




end
