(* ===== verification/Billing_Rules.thy ===== *)
theory Billing_Rules
  imports Js_Text
begin

text \<open>
  The request rules of a billing expression (\<open>features/pricing/lib/billing-expr.ts\<close>): factors of the
  form \<open>(condition ? multiplier : 1)\<close> behind the price, which an administrator edits as rows of a
  form.  The editor builds the text from the rows and reads the rows back from the text, so the
  theorems are round trips, and what does not survive one.  A regular expression is written as the
  steps of its match; \<open>parse\<close> is \<open>JSON.parse\<close> (\<open>None\<close> when it throws) and \<open>show_number\<close> is \<open>String\<close> on
  numbers.
\<close>

section \<open>Conditions\<close>

definition MATCH_EQ :: string where "MATCH_EQ = ''eq''"
definition MATCH_CONTAINS :: string where "MATCH_CONTAINS = ''contains''"
definition MATCH_GT :: string where "MATCH_GT = ''gt''"
definition MATCH_GTE :: string where "MATCH_GTE = ''gte''"
definition MATCH_LT :: string where "MATCH_LT = ''lt''"
definition MATCH_LTE :: string where "MATCH_LTE = ''lte''"
definition MATCH_EXISTS :: string where "MATCH_EXISTS = ''exists''"
definition MATCH_RANGE :: string where "MATCH_RANGE = ''range''"

lemmas match_defs = MATCH_EQ_def MATCH_CONTAINS_def MATCH_GT_def MATCH_GTE_def MATCH_LT_def MATCH_LTE_def
  MATCH_EXISTS_def MATCH_RANGE_def

datatype TimeFunc = Hour | Minute | Weekday | Month | Day

definition TIME_FUNCS :: "TimeFunc list" where
  "TIME_FUNCS = [Hour, Minute, Weekday, Month, Day]"

fun timeFunc_name :: "TimeFunc \<Rightarrow> string" where
  "timeFunc_name Hour = ''hour''"
| "timeFunc_name Minute = ''minute''"
| "timeFunc_name Weekday = ''weekday''"
| "timeFunc_name Month = ''month''"
| "timeFunc_name Day = ''day''"

datatype ConditionSource = SourceParam | SourceHeader

record ParamHeaderCondition =
  ph_source :: ConditionSource
  ph_path :: string
  ph_mode :: string
  ph_value :: string

record TimeCondition =
  tc_timeFunc :: TimeFunc
  tc_timezone :: string
  tc_mode :: string
  tc_value :: string
  tc_rangeStart :: string
  tc_rangeEnd :: string

datatype RequestCondition = TimeCond TimeCondition | ParamHeaderCond ParamHeaderCondition

record RequestRuleGroup =
  rg_conditions :: "RequestCondition list"
  rg_multiplier :: string

section \<open>Values of a time function\<close>

fun TIME_FUNC_RANGES :: "TimeFunc \<Rightarrow> number \<times> number" where
  "TIME_FUNC_RANGES Hour = (0, 23)"
| "TIME_FUNC_RANGES Minute = (0, 59)"
| "TIME_FUNC_RANGES Weekday = (0, 6)"
| "TIME_FUNC_RANGES Month = (1, 12)"
| "TIME_FUNC_RANGES Day = (1, 31)"

text \<open>\<open>Number(text)\<close> of a numeric literal.\<close>

definition literal_number :: "string \<Rightarrow> number" where
  "literal_number text = (case parseFloat text of Some (Finite x) \<Rightarrow> x | _ \<Rightarrow> 0)"

definition isTimeValueInRange :: "TimeFunc \<Rightarrow> string \<Rightarrow> bool" where
  "isTimeValueInRange f text =
    (isNumericLiteral text \<and>
     (let v = literal_number text; (lo, hi) = TIME_FUNC_RANGES f in of_int \<lfloor>v\<rfloor> = v \<and> lo \<le> v \<and> v \<le> hi))"

section \<open>Parsing\<close>

definition splitTopLevelMultiply :: "string \<Rightarrow> string list" where
  "splitTopLevelMultiply = split_parts '' * ''"

definition splitTopLevelAnd :: "string \<Rightarrow> string list" where
  "splitTopLevelAnd = split_parts '' && ''"

text \<open>The result \<open>None\<close> is \<open>null\<close>; \<open>String(parsedValue)\<close> is applied by the caller.\<close>

definition parseExprLiteral :: "(string \<Rightarrow> json option) \<Rightarrow> string \<Rightarrow> json option" where
  "parseExprLiteral parse raw =
    (let text = trim raw in
     if text = ''true'' \<or> text = ''false'' then Some (JStr text)
     else if isNumericLiteral text then Some (JStr text)
     else case parse text of Some JNull \<Rightarrow> None | r \<Rightarrow> r)"

text \<open>\<open>(hour|minute|weekday|month|day)\("([^"]+)"\)\<close>.\<close>

definition time_call :: "string \<Rightarrow> (TimeFunc \<times> string \<times> string) option" where
  "time_call s =
    (case find (\<lambda>f. prefix (timeFunc_name f @ ''('') s) TIME_FUNCS of
      None \<Rightarrow> None
    | Some f \<Rightarrow> (case plain_quoted (drop (length (timeFunc_name f) + 1) s) of
        None \<Rightarrow> None
      | Some (z, r) \<Rightarrow> map_option (\<lambda>r. (f, z, r)) (eat '')'' r)))"

text \<open>\<open>fn("tz") >= a (?:&&|\|\|) \1("\2") < b\<close>, with the rest.\<close>

definition call_text :: "TimeFunc \<Rightarrow> string \<Rightarrow> string" where
  "call_text f z = timeFunc_name f @ ''('' @ [quote_char] @ z @ [quote_char] @ '')''"

definition time_range :: "string \<Rightarrow> (TimeFunc \<times> string \<times> string \<times> string \<times> string) option" where
  "time_range s =
    (case time_call s of
      None \<Rightarrow> None
    | Some (f, z, r) \<Rightarrow> (case eat '' >= '' r of
        None \<Rightarrow> None
      | Some r \<Rightarrow> (case span1 number_char r of
          None \<Rightarrow> None
        | Some (a, r) \<Rightarrow> (case (if prefix '' && '' r then eat '' && '' r else eat '' || '' r) of
            None \<Rightarrow> None
          | Some r \<Rightarrow> (case eat (call_text f z @ '' < '') r of
              None \<Rightarrow> None
            | Some r \<Rightarrow> (case span1 number_char r of
                None \<Rightarrow> None
              | Some (b, r) \<Rightarrow> Some (f, z, a, b, r)))))))"

definition range_match :: "string \<Rightarrow> (TimeFunc \<times> string \<times> string \<times> string) option" where
  "range_match s =
    (case time_range s of
      Some (f, z, a, b, []) \<Rightarrow> Some (f, z, a, b)
    | _ \<Rightarrow> (case eat ''('' s of
        None \<Rightarrow> None
      | Some s \<Rightarrow> (case time_range s of
          Some (f, z, a, b, r) \<Rightarrow> (if r = '')'' then Some (f, z, a, b) else None)
        | None \<Rightarrow> None)))"

text \<open>\<open>(==|>=|<) \<close>, the mode it stands for and the rest.\<close>

definition time_operator :: "string \<Rightarrow> (string \<times> string) option" where
  "time_operator s =
    (if prefix ''== '' s then Some (MATCH_EQ, drop 3 s)
     else if prefix ''>= '' s then Some (MATCH_GTE, drop 3 s)
     else if prefix ''< '' s then Some (MATCH_LT, drop 2 s) else None)"

definition scalar_match :: "string \<Rightarrow> (TimeFunc \<times> string \<times> string \<times> string) option" where
  "scalar_match s =
    (case time_call s of
      None \<Rightarrow> None
    | Some (f, z, r) \<Rightarrow> (case eat '' '' r of
        None \<Rightarrow> None
      | Some r \<Rightarrow> (case time_operator r of
          None \<Rightarrow> None
        | Some (mode, r) \<Rightarrow> (case span1 number_char r of
            None \<Rightarrow> None
          | Some (v, r) \<Rightarrow> if r = [] then Some (f, z, mode, v) else None))))"

definition tryParseTimeCondition :: "string \<Rightarrow> TimeCondition option" where
  "tryParseTimeCondition expr =
    (case range_match expr of
      Some (f, z, a, b) \<Rightarrow>
        if \<not> isTimeValueInRange f a \<or> \<not> isTimeValueInRange f b then None
        else Some \<lparr>tc_timeFunc = f, tc_timezone = z, tc_mode = MATCH_RANGE, tc_value = [], tc_rangeStart = a, tc_rangeEnd = b\<rparr>
    | None \<Rightarrow> (case scalar_match expr of
        Some (f, z, mode, v) \<Rightarrow>
          if \<not> isTimeValueInRange f v then None
          else Some \<lparr>tc_timeFunc = f, tc_timezone = z, tc_mode = mode, tc_value = v, tc_rangeStart = [], tc_rangeEnd = []\<rparr>
      | None \<Rightarrow> None))"

text \<open>\<open>header("([^"]+)")\<close> and \<open>param("([^"]+)")\<close>.\<close>

fun source_name :: "ConditionSource \<Rightarrow> string" where
  "source_name SourceParam = ''param''"
| "source_name SourceHeader = ''header''"

definition source_call :: "ConditionSource \<Rightarrow> string \<Rightarrow> (string \<times> string) option" where
  "source_call src s =
    (case eat (source_name src @ ''('') s of
      None \<Rightarrow> None
    | Some r \<Rightarrow> (case plain_quoted r of
        None \<Rightarrow> None
      | Some (p, r) \<Rightarrow> map_option (Pair p) (eat '')'' r)))"

text \<open>The patterns of \<open>tryParseRequestCondition\<close>, in their order.\<close>

definition exists_match :: "ConditionSource \<Rightarrow> string \<Rightarrow> string \<Rightarrow> string option" where
  "exists_match src tail s = (case source_call src s of Some (p, r) \<Rightarrow> if r = tail then Some p else None | None \<Rightarrow> None)"

definition has_match :: "ConditionSource \<Rightarrow> string \<Rightarrow> (string \<times> string) option" where
  "has_match src s =
    (case eat ''has('' s of
      None \<Rightarrow> None
    | Some r \<Rightarrow> (case source_call src r of
        None \<Rightarrow> None
      | Some (p, r) \<Rightarrow> (case eat '', '' r of
          None \<Rightarrow> None
        | Some r \<Rightarrow> (case quoted_literal r of
            None \<Rightarrow> None
          | Some (v, r) \<Rightarrow> if r = '')'' then Some (p, v) else None))))"

definition guarded_match :: "(string \<Rightarrow> (string \<times> 'a) option) \<Rightarrow> string \<Rightarrow> (string \<times> 'a) option" where
  "guarded_match m s =
    (case source_call SourceParam s of
      None \<Rightarrow> None
    | Some (p, r) \<Rightarrow> (case eat '' != nil && '' r of
        None \<Rightarrow> None
      | Some r \<Rightarrow> (case m r of
          Some (p', v) \<Rightarrow> if p = p' then Some (p, v) else None
        | None \<Rightarrow> None)))"

definition comparison_operator :: "string \<Rightarrow> (string \<times> string) option" where
  "comparison_operator s =
    (if prefix ''> '' s then Some (MATCH_GT, drop 2 s)
     else if prefix ''>= '' s then Some (MATCH_GTE, drop 3 s)
     else if prefix ''< '' s then Some (MATCH_LT, drop 2 s)
     else if prefix ''<= '' s then Some (MATCH_LTE, drop 3 s) else None)"

definition compare_match :: "string \<Rightarrow> (string \<times> string \<times> string) option" where
  "compare_match s =
    (case source_call SourceParam s of
      None \<Rightarrow> None
    | Some (p, r) \<Rightarrow> (case eat '' '' r of
        None \<Rightarrow> None
      | Some r \<Rightarrow> (case comparison_operator r of
          None \<Rightarrow> None
        | Some (mode, r) \<Rightarrow> (case span1 number_char r of
            None \<Rightarrow> None
          | Some (v, r) \<Rightarrow> if r = [] then Some (p, mode, v) else None))))"

definition equals_match :: "string \<Rightarrow> (ConditionSource \<times> string \<times> string) option" where
  "equals_match s =
    (let src = (if prefix ''param('' s then SourceParam else SourceHeader) in
     case source_call src s of
       None \<Rightarrow> None
     | Some (p, r) \<Rightarrow> (case eat '' == '' r of
         None \<Rightarrow> None
       | Some r \<Rightarrow> if r = [] \<or> list_ex line_end r then None else Some (src, p, r)))"

definition ph_cond :: "ConditionSource \<Rightarrow> string \<Rightarrow> string \<Rightarrow> string \<Rightarrow> RequestCondition" where
  "ph_cond src path mode v = ParamHeaderCond \<lparr>ph_source = src, ph_path = path, ph_mode = mode, ph_value = v\<rparr>"

text \<open>\<open>Inl\<close> is the exception of \<open>JSON.parse\<close> on a literal with a bad escape, \<open>Inr None\<close> is \<open>null\<close>.\<close>

definition contains_cond ::
    "(string \<Rightarrow> json option) \<Rightarrow> (number \<Rightarrow> string) \<Rightarrow> ConditionSource \<Rightarrow> string \<times> string \<Rightarrow> unit + RequestCondition option" where
  "contains_cond parse show_number src pv =
    (case parse (snd pv) of
      None \<Rightarrow> Inl ()
    | Some v \<Rightarrow> Inr (Some (ph_cond src (fst pv) MATCH_CONTAINS (js_String show_number v))))"

definition tryParseRequestCondition ::
    "(string \<Rightarrow> json option) \<Rightarrow> (number \<Rightarrow> string) \<Rightarrow> string \<Rightarrow> unit + RequestCondition option" where
  "tryParseRequestCondition parse show_number expr =
    (case tryParseTimeCondition expr of
      Some tc \<Rightarrow> Inr (Some (TimeCond tc))
    | None \<Rightarrow> (case exists_match SourceHeader ('' != '' @ [quote_char, quote_char]) expr of
        Some p \<Rightarrow> Inr (Some (ph_cond SourceHeader p MATCH_EXISTS []))
      | None \<Rightarrow> (case exists_match SourceParam '' != nil'' expr of
          Some p \<Rightarrow> Inr (Some (ph_cond SourceParam p MATCH_EXISTS []))
        | None \<Rightarrow> (case has_match SourceHeader expr of
            Some pv \<Rightarrow> contains_cond parse show_number SourceHeader pv
          | None \<Rightarrow> (case guarded_match (has_match SourceParam) expr of
              Some pv \<Rightarrow> contains_cond parse show_number SourceParam pv
            | None \<Rightarrow> (case guarded_match compare_match expr of
                Some (p, mode, v) \<Rightarrow> Inr (Some (ph_cond SourceParam p mode v))
              | None \<Rightarrow> (case equals_match expr of
                  Some (src, p, r) \<Rightarrow>
                    Inr (map_option (\<lambda>v. ph_cond src p MATCH_EQ (js_String show_number v)) (parseExprLiteral parse r))
                | None \<Rightarrow> Inr None)))))))"

definition tryParseTimeRangePair :: "string \<Rightarrow> string \<Rightarrow> RequestCondition option" where
  "tryParseTimeRangePair lower upper =
    (case (tryParseTimeCondition lower, tryParseTimeCondition upper) of
      (Some a, Some b) \<Rightarrow>
        if tc_timeFunc a \<noteq> tc_timeFunc b \<or> tc_timezone a \<noteq> tc_timezone b then None
        else if tc_mode a \<noteq> MATCH_GTE \<or> tc_mode b \<noteq> MATCH_LT then None
        else Some (TimeCond \<lparr>tc_timeFunc = tc_timeFunc a, tc_timezone = tc_timezone a, tc_mode = MATCH_RANGE, tc_value = [],
          tc_rangeStart = tc_value a, tc_rangeEnd = tc_value b\<rparr>)
    | _ \<Rightarrow> None)"

text \<open>The loop over the parts between \<open>&&\<close>.\<close>

fun parse_and_parts ::
    "(string \<Rightarrow> json option) \<Rightarrow> (number \<Rightarrow> string) \<Rightarrow> string list \<Rightarrow> unit + RequestCondition list option" where
  "parse_and_parts parse show_number [] = Inr (Some [])"
| "parse_and_parts parse show_number [part] =
    (case tryParseRequestCondition parse show_number (trim part) of
      Inl e \<Rightarrow> Inl e
    | Inr r \<Rightarrow> Inr (map_option (\<lambda>c. [c]) r))"
| "parse_and_parts parse show_number (part # next # parts) =
    (case (if trim next = [] then None else tryParseTimeRangePair (trim part) (trim next)) of
      Some c \<Rightarrow> (case parse_and_parts parse show_number parts of Inl e \<Rightarrow> Inl e | Inr r \<Rightarrow> Inr (map_option ((#) c) r))
    | None \<Rightarrow> (case tryParseRequestCondition parse show_number (trim part) of
        Inl e \<Rightarrow> Inl e
      | Inr None \<Rightarrow> Inr None
      | Inr (Some c) \<Rightarrow> (case parse_and_parts parse show_number (next # parts) of
          Inl e \<Rightarrow> Inl e | Inr r \<Rightarrow> Inr (map_option ((#) c) r))))"

definition tryParseRequestConditions ::
    "(string \<Rightarrow> json option) \<Rightarrow> (number \<Rightarrow> string) \<Rightarrow> string \<Rightarrow> unit + RequestCondition list option" where
  "tryParseRequestConditions parse show_number s =
    (case tryParseTimeCondition (trim s) of
      Some tc \<Rightarrow> Inr (Some [TimeCond tc])
    | None \<Rightarrow> (case parse_and_parts parse show_number (splitTopLevelAnd s) of
        Inr (Some []) \<Rightarrow> Inr None
      | r \<Rightarrow> r))"

text \<open>\<open>/^\((.+) \? ([\d.eE+-]+) : 1\)$/s\<close>, matched from the end, where it is unambiguous.\<close>

definition factor_match :: "string \<Rightarrow> (string \<times> string) option" where
  "factor_match part =
    (case eat ''('' part of
      None \<Rightarrow> None
    | Some s \<Rightarrow> (case eat (rev '' : 1)'') (rev s) of
        None \<Rightarrow> None
      | Some r \<Rightarrow> (case span1 number_char r of
          None \<Rightarrow> None
        | Some (m, r) \<Rightarrow> (case eat (rev '' ? '') r of
            None \<Rightarrow> None
          | Some r \<Rightarrow> if r = [] then None else Some (rev r, rev m)))))"

definition tryParseRuleGroupFactor ::
    "(string \<Rightarrow> json option) \<Rightarrow> (number \<Rightarrow> string) \<Rightarrow> string \<Rightarrow> unit + RequestRuleGroup option" where
  "tryParseRuleGroupFactor parse show_number part =
    (case factor_match part of
      None \<Rightarrow> Inr None
    | Some (c, m) \<Rightarrow> (case tryParseRequestConditions parse show_number c of
        Inl e \<Rightarrow> Inl e
      | Inr r \<Rightarrow> Inr (map_option (\<lambda>cs. \<lparr>rg_conditions = cs, rg_multiplier = m\<rparr>) r)))"

fun parse_factors ::
    "(string \<Rightarrow> json option) \<Rightarrow> (number \<Rightarrow> string) \<Rightarrow> string list \<Rightarrow> unit + RequestRuleGroup list option" where
  "parse_factors parse show_number [] = Inr (Some [])"
| "parse_factors parse show_number (part # parts) =
    (case tryParseRuleGroupFactor parse show_number part of
      Inl e \<Rightarrow> Inl e
    | Inr None \<Rightarrow> Inr None
    | Inr (Some g) \<Rightarrow> (case parse_factors parse show_number parts of
        Inl e \<Rightarrow> Inl e | Inr r \<Rightarrow> Inr (map_option ((#) g) r)))"

definition tryParseRequestRuleExpr ::
    "(string \<Rightarrow> json option) \<Rightarrow> (number \<Rightarrow> string) \<Rightarrow> string \<Rightarrow> unit + RequestRuleGroup list option" where
  "tryParseRequestRuleExpr parse show_number expr =
    (let trimmed = trim expr in
     if trimmed = [] then Inr (Some []) else parse_factors parse show_number (splitTopLevelMultiply trimmed))"

text \<open>The rules a request met, as its log entry records them.\<close>

record RequestRuleTrace =
  rt_cond :: string
  rt_multiplier :: number
  rt_matched :: bool

record TracedRuleGroup = RequestRuleGroup +
  rg_conditionText :: string
  rg_matched :: bool

definition traced_group ::
    "(string \<Rightarrow> json option) \<Rightarrow> (number \<Rightarrow> string) \<Rightarrow> RequestRuleTrace \<Rightarrow> unit + TracedRuleGroup" where
  "traced_group parse show_number rule =
    (case tryParseRequestConditions parse show_number (trim (rt_cond rule)) of
      Inl e \<Rightarrow> Inl e
    | Inr r \<Rightarrow> Inr \<lparr>rg_conditions = nullish r [], rg_multiplier = show_number (rt_multiplier rule),
        rg_conditionText = trim (rt_cond rule), rg_matched = rt_matched rule\<rparr>)"

fun requestRuleGroupsFromTrace ::
    "(string \<Rightarrow> json option) \<Rightarrow> (number \<Rightarrow> string) \<Rightarrow> RequestRuleTrace list \<Rightarrow> unit + TracedRuleGroup list" where
  "requestRuleGroupsFromTrace parse show_number [] = Inr []"
| "requestRuleGroupsFromTrace parse show_number (rule # rules) =
    (case traced_group parse show_number rule of
      Inl e \<Rightarrow> Inl e
    | Inr g \<Rightarrow> (case requestRuleGroupsFromTrace parse show_number rules of Inl e \<Rightarrow> Inl e | Inr gs \<Rightarrow> Inr (g # gs)))"

section \<open>Combining and splitting\<close>

fun parens_closed_early :: "int \<Rightarrow> string \<Rightarrow> bool" where
  "parens_closed_early depth [] = False"
| "parens_closed_early depth [c] = False"
| "parens_closed_early depth (c # d # s) =
    (depth + paren_step c = 0 \<or> parens_closed_early (depth + paren_step c) (d # s))"

definition hasFullOuterParens :: "string \<Rightarrow> bool" where
  "hasFullOuterParens expr \<longleftrightarrow>
    prefix ''('' expr \<and> suffix '')'' expr \<and> \<not> parens_closed_early 0 expr \<and> sum_list (map paren_step expr) = 0"

lemma trim_length: "length (trim s) \<le> length s"
proof -
  have "length (dropWhile P (rev (dropWhile P s))) \<le> length s" for P :: "char \<Rightarrow> bool"
    using length_dropWhile_le [of P "rev (dropWhile P s)"] length_dropWhile_le [of P s] by simp
  then show ?thesis by (simp add: trim_def trim_by_def)
qed

function unwrap_loop :: "string \<Rightarrow> string" where
  "unwrap_loop current = (if hasFullOuterParens current then unwrap_loop (trim (butlast (tl current))) else current)"
  by pat_completeness auto
termination
proof (relation "measure length")
  fix current :: string
  assume "hasFullOuterParens current"
  then have "current \<noteq> []" by (auto simp: hasFullOuterParens_def)
  moreover have "length (trim (butlast (tl current))) \<le> length current - 2"
    using trim_length [of "butlast (tl current)"] by simp
  ultimately show "(trim (butlast (tl current)), current) \<in> measure length"
    by (cases current) auto
qed simp

declare unwrap_loop.simps [simp del]

definition unwrapOuterParens :: "string \<Rightarrow> string" where
  "unwrapOuterParens expr = unwrap_loop (trim expr)"

definition is_rule_part :: "(string \<Rightarrow> json option) \<Rightarrow> (number \<Rightarrow> string) \<Rightarrow> string \<Rightarrow> unit + bool" where
  "is_rule_part parse show_number part =
    (case tryParseRequestRuleExpr parse show_number part of
      Inl e \<Rightarrow> Inl e
    | Inr None \<Rightarrow> Inr False
    | Inr (Some gs) \<Rightarrow> Inr (gs \<noteq> []))"

fun classify_parts :: "(string \<Rightarrow> json option) \<Rightarrow> (number \<Rightarrow> string) \<Rightarrow> string list \<Rightarrow> unit + string list \<times> string list" where
  "classify_parts parse show_number [] = Inr ([], [])"
| "classify_parts parse show_number (part # parts) =
    (case is_rule_part parse show_number part of
      Inl e \<Rightarrow> Inl e
    | Inr rule \<Rightarrow> (case classify_parts parse show_number parts of
        Inl e \<Rightarrow> Inl e
      | Inr (rules, bases) \<Rightarrow> Inr (if rule then (part # rules, bases) else (rules, part # bases))))"

text \<open>The billing expression and the request rules.\<close>

definition splitBillingExprAndRequestRules ::
    "(string \<Rightarrow> json option) \<Rightarrow> (number \<Rightarrow> string) \<Rightarrow> string \<Rightarrow> unit + string \<times> string" where
  "splitBillingExprAndRequestRules parse show_number expr =
    (let trimmed = trim expr; parts = splitTopLevelMultiply trimmed in
     if trimmed = [] then Inr ([], [])
     else if length parts \<le> 1 then Inr (trimmed, [])
     else case classify_parts parse show_number parts of
       Inl e \<Rightarrow> Inl e
     | Inr (rules, bases) \<Rightarrow>
         if rules = [] \<or> length bases \<noteq> 1 then Inr (trimmed, [])
         else Inr (unwrapOuterParens (hd bases), join '' * '' rules))"

definition combineBillingExpr :: "string \<Rightarrow> string \<Rightarrow> string" where
  "combineBillingExpr baseExpr requestRuleExpr =
    (let base = trim baseExpr; rules = trim requestRuleExpr in
     if base = [] then [] else if rules = [] then base else ''('' @ base @ '') * '' @ rules)"

section \<open>Rows of the editor\<close>

definition createEmptyCondition :: ParamHeaderCondition where
  "createEmptyCondition = \<lparr>ph_source = SourceParam, ph_path = [], ph_mode = MATCH_EQ, ph_value = []\<rparr>"

definition createEmptyTimeCondition :: TimeCondition where
  "createEmptyTimeCondition = \<lparr>tc_timeFunc = Hour, tc_timezone = ''Asia/Shanghai'', tc_mode = MATCH_GTE, tc_value = [],
    tc_rangeStart = [], tc_rangeEnd = []\<rparr>"

definition createEmptyRuleGroup :: RequestRuleGroup where
  "createEmptyRuleGroup = \<lparr>rg_conditions = [ParamHeaderCond createEmptyCondition], rg_multiplier = []\<rparr>"

definition createEmptyTimeRuleGroup :: RequestRuleGroup where
  "createEmptyTimeRuleGroup = \<lparr>rg_conditions = [TimeCond createEmptyTimeCondition], rg_multiplier = []\<rparr>"

section \<open>Building\<close>

definition time_modes :: "string list" where
  "time_modes = [MATCH_EQ, MATCH_GTE, MATCH_LT, MATCH_RANGE]"

fun getRequestRuleMatchOptions :: "ConditionSource \<Rightarrow> string list" where
  "getRequestRuleMatchOptions SourceHeader = [MATCH_EQ, MATCH_CONTAINS, MATCH_EXISTS]"
| "getRequestRuleMatchOptions SourceParam =
    [MATCH_EQ, MATCH_CONTAINS, MATCH_EXISTS, MATCH_GT, MATCH_GTE, MATCH_LT, MATCH_LTE]"

fun normalizeCondition :: "RequestCondition \<Rightarrow> RequestCondition" where
  "normalizeCondition (TimeCond c) = TimeCond (c\<lparr>
     tc_timezone := (if tc_timezone c = [] then ''Asia/Shanghai'' else tc_timezone c),
     tc_mode := (if tc_mode c \<in> set time_modes then tc_mode c else MATCH_GTE)\<rparr>)"
| "normalizeCondition (ParamHeaderCond c) = ParamHeaderCond (c\<lparr>
     ph_mode := (if ph_mode c \<in> set (getRequestRuleMatchOptions (ph_source c)) then ph_mode c else MATCH_EQ)\<rparr>)"

definition buildExprLiteral :: "string \<Rightarrow> string \<Rightarrow> string" where
  "buildExprLiteral mode v =
    (let text = trim v in
     if mode = MATCH_CONTAINS then json_quote text
     else if text = ''true'' \<or> text = ''false'' then text
     else if isNumericLiteral text then text
     else json_quote text)"

definition time_op :: "string \<Rightarrow> string" where
  "time_op mode = (if mode = MATCH_GTE then ''>='' else if mode = MATCH_LT then ''<'' else ''=='')"

fun time_condition_of :: "RequestCondition \<Rightarrow> TimeCondition \<Rightarrow> TimeCondition" where
  "time_condition_of (TimeCond c) d = c"
| "time_condition_of (ParamHeaderCond _) d = d"

definition buildTimeConditionExpr :: "TimeCondition \<Rightarrow> string" where
  "buildTimeConditionExpr cond =
    (let n = time_condition_of (normalizeCondition (TimeCond cond)) cond;
         f = tc_timeFunc n;
         fn = timeFunc_name f @ ''('' @ json_quote (tc_timezone n) @ '')'' in
     if tc_mode n = MATCH_RANGE then
       (let s = trim (tc_rangeStart n); e = trim (tc_rangeEnd n) in
        if \<not> isTimeValueInRange f s \<or> \<not> isTimeValueInRange f e then []
        else if literal_number s > literal_number e then fn @ '' >= '' @ s @ '' || '' @ fn @ '' < '' @ e
        else fn @ '' >= '' @ s @ '' && '' @ fn @ '' < '' @ e)
     else
       (let v = trim (tc_value n) in
        if \<not> isTimeValueInRange f v then [] else fn @ '' '' @ time_op (tc_mode n) @ '' '' @ v))"

definition comparison_op :: "string \<Rightarrow> string" where
  "comparison_op mode = (if mode = MATCH_GT then ''>'' else if mode = MATCH_GTE then ''>='' else if mode = MATCH_LT then ''<'' else ''<='')"

fun buildRequestConditionExpr :: "RequestCondition \<Rightarrow> string" where
  "buildRequestConditionExpr (TimeCond c) = buildTimeConditionExpr c"
| "buildRequestConditionExpr (ParamHeaderCond c) =
    (let src = ph_source c;
         mode = (if ph_mode c \<in> set (getRequestRuleMatchOptions src) then ph_mode c else MATCH_EQ);
         path = trim (ph_path c);
         sourceExpr = source_name src @ ''('' @ json_quote path @ '')'';
         v = ph_value c in
     if path = [] then []
     else if mode = MATCH_EXISTS then
       (if src = SourceHeader then sourceExpr @ '' != '' @ [quote_char, quote_char] else sourceExpr @ '' != nil'')
     else if mode = MATCH_CONTAINS then
       (if src = SourceHeader then ''has('' @ sourceExpr @ '', '' @ buildExprLiteral mode v @ '')''
        else sourceExpr @ '' != nil && has('' @ sourceExpr @ '', '' @ buildExprLiteral mode v @ '')'')
     else if mode \<in> {MATCH_GT, MATCH_GTE, MATCH_LT, MATCH_LTE} then
       (if \<not> isNumericLiteral (trim v) then []
        else sourceExpr @ '' != nil && '' @ sourceExpr @ '' '' @ comparison_op mode @ '' '' @ trim v)
     else sourceExpr @ '' == '' @ buildExprLiteral mode v)"

definition buildRuleGroupFactor :: "RequestRuleGroup \<Rightarrow> string" where
  "buildRuleGroupFactor g =
    (let multiplier = trim (rg_multiplier g);
         condExprs = filter (\<lambda>e. e \<noteq> []) (map buildRequestConditionExpr (rg_conditions g)) in
     if \<not> isNumericLiteral multiplier then []
     else if condExprs = [] then []
     else
       let combined =
         (if length condExprs = 1 then hd condExprs
          else join '' && '' (map (\<lambda>e. if contains e '' || '' then ''('' @ e @ '')'' else e) condExprs))
       in ''('' @ combined @ '' ? '' @ multiplier @ '' : 1)'')"

definition buildRequestRuleExpr :: "RequestRuleGroup list \<Rightarrow> string" where
  "buildRequestRuleExpr groups = join '' * '' (filter (\<lambda>f. f \<noteq> []) (map buildRuleGroupFactor groups))"

end
