(* ===== verification/Task_Pricing.thy ===== *)
theory Task_Pricing
  imports Js_Text "HOL-Library.Char_ord" "HOL-Library.List_Lexorder"
begin

text \<open>
  Prices of asynchronous tasks (\<open>features/pricing/lib/task-expr.ts\<close>).  A plugin declares which facts of
  a task it reports, numbers with a unit and enumerations; an administrator fills a matrix with one
  row per combination of the enumerations, which is stored as a list of tiers tried in order.  The
  theorems say that the tiers charge every combination as its row says, and that the matrix is
  recovered from its tiers.

  An object is the list of its properties in order.  \<open>rank\<close> gives the collation key behind
  \<open>localeCompare\<close>, \<open>to_number\<close> is \<open>Number\<close> on a text (\<open>None\<close> when the result is not finite), and prices
  are finite numbers.
\<close>

section \<open>Data\<close>

datatype BillingUsageUnit = UnitSecond | UnitCount | UnitToken | UnitCredit

datatype FieldType = NumberField | BooleanField

record BillingUsageFieldSchema =
  fs_type :: "FieldType option"
  fs_unit :: "BillingUsageUnit option"
  fs_enum :: "string list option"

type_synonym BillingUsageSchema = "(string \<times> BillingUsageFieldSchema) list"

record TaskVisualCondition =
  vc_field :: string
  vc_value :: string

record TaskVisualTier =
  vt_label :: string
  vt_conditions :: "TaskVisualCondition list"
  vt_constant :: number
  vt_unitPrices :: "(string \<times> number) list"

record TaskMatrixRow =
  mx_combination :: "(string \<times> string) list"
  mx_constant :: number
  mx_unitPrices :: "(string \<times> number) list"

datatype sample_value = SampleNumber number | SampleText string

type_synonym sample = "string \<Rightarrow> sample_value option"

datatype preview_part = ConstantPart number | UsagePart string number number number

record TaskPreviewResult =
  pr_tier :: TaskVisualTier
  pr_total :: number
  pr_parts :: "preview_part list"

definition TASK_TOKEN_PRICE_SCALE :: number where "TASK_TOKEN_PRICE_SCALE = 1000000"

section \<open>Fields and combinations\<close>

definition getTaskNumberFields :: "(string \<Rightarrow> string) \<Rightarrow> BillingUsageSchema \<Rightarrow> BillingUsageSchema" where
  "getTaskNumberFields rank schema =
    sort_key (rank \<circ> fst) (filter (\<lambda>(f, d). fs_type d = Some NumberField \<and> fs_unit d \<noteq> None) schema)"

definition enum_values :: "BillingUsageFieldSchema \<Rightarrow> string list" where
  "enum_values d = nullish (fs_enum d) []"

definition getTaskEnumFields :: "(string \<Rightarrow> string) \<Rightarrow> BillingUsageSchema \<Rightarrow> BillingUsageSchema" where
  "getTaskEnumFields rank schema = sort_key (rank \<circ> fst) (filter (\<lambda>(f, d). enum_values d \<noteq> []) schema)"

definition extend_combinations :: "(string \<times> string) list list \<Rightarrow> string \<times> BillingUsageFieldSchema \<Rightarrow> (string \<times> string) list list" where
  "extend_combinations combinations fd = concat (map (\<lambda>c. map (\<lambda>v. set_prop (fst fd) v c) (enum_values (snd fd))) combinations)"

definition getTaskEnumCombinations :: "(string \<Rightarrow> string) \<Rightarrow> BillingUsageSchema \<Rightarrow> (string \<times> string) list list" where
  "getTaskEnumCombinations rank schema = foldl extend_combinations [[]] (getTaskEnumFields rank schema)"

definition zero_prices :: "(string \<Rightarrow> string) \<Rightarrow> BillingUsageSchema \<Rightarrow> (string \<times> number) list" where
  "zero_prices rank schema = map (\<lambda>(f, d). (f, 0)) (getTaskNumberFields rank schema)"

definition createDefaultTaskVisualConfig :: "(string \<Rightarrow> string) \<Rightarrow> BillingUsageSchema \<Rightarrow> TaskVisualTier list" where
  "createDefaultTaskVisualConfig rank schema =
    [\<lparr>vt_label = ''base'', vt_conditions = [], vt_constant = 0, vt_unitPrices = zero_prices rank schema\<rparr>]"

definition createDefaultTaskMatrixConfig :: "(string \<Rightarrow> string) \<Rightarrow> BillingUsageSchema \<Rightarrow> TaskMatrixRow list" where
  "createDefaultTaskMatrixConfig rank schema =
    map (\<lambda>c. \<lparr>mx_combination = c, mx_constant = 0, mx_unitPrices = zero_prices rank schema\<rparr>) (getTaskEnumCombinations rank schema)"

section \<open>From the matrix to tiers\<close>

definition taskMatrixRowLabel :: "(string \<Rightarrow> string) \<Rightarrow> (string \<times> string) list \<Rightarrow> string" where
  "taskMatrixRowLabel rank combination =
    (let values = map snd (sort_key (rank \<circ> fst) combination) in
     if values \<noteq> [] then join [char_of (183 :: nat)] values else ''base'')"

definition row_prices :: "BillingUsageSchema \<Rightarrow> (string \<times> number) list \<Rightarrow> (string \<times> number) list" where
  "row_prices numberFields prices = map (\<lambda>(f, d). (f, nullish (map_of prices f) 0)) numberFields"

definition combination_conditions :: "(string \<Rightarrow> string) \<Rightarrow> (string \<times> string) list \<Rightarrow> TaskVisualCondition list" where
  "combination_conditions rank c = map (\<lambda>(f, v). \<lparr>vc_field = f, vc_value = v\<rparr>) (sort_key (rank \<circ> fst) c)"

definition row_tier :: "(string \<Rightarrow> string) \<Rightarrow> BillingUsageSchema \<Rightarrow> bool \<Rightarrow> TaskMatrixRow \<Rightarrow> TaskVisualTier" where
  "row_tier rank numberFields is_last row =
    \<lparr>vt_label = taskMatrixRowLabel rank (mx_combination row),
     vt_conditions = (if is_last then [] else combination_conditions rank (mx_combination row)),
     vt_constant = mx_constant row, vt_unitPrices = row_prices numberFields (mx_unitPrices row)\<rparr>"

definition uniform_rows :: "BillingUsageSchema \<Rightarrow> TaskMatrixRow \<Rightarrow> TaskMatrixRow list \<Rightarrow> bool" where
  "uniform_rows numberFields firstRow rows =
    list_all (\<lambda>row. mx_constant row = mx_constant firstRow \<and>
      list_all (\<lambda>(f, d). map_of (mx_unitPrices row) f = map_of (mx_unitPrices firstRow) f) numberFields) rows"

definition taskMatrixToTiers :: "(string \<Rightarrow> string) \<Rightarrow> TaskMatrixRow list \<Rightarrow> BillingUsageSchema \<Rightarrow> TaskVisualTier list" where
  "taskMatrixToTiers rank rows schema =
    (let numberFields = getTaskNumberFields rank schema in
     case rows of
       [] \<Rightarrow> []
     | firstRow # _ \<Rightarrow>
       if numberFields = [] then []
       else if uniform_rows numberFields firstRow rows then
         [\<lparr>vt_label = ''base'', vt_conditions = [], vt_constant = mx_constant firstRow,
           vt_unitPrices = row_prices numberFields (mx_unitPrices firstRow)\<rparr>]
       else map (\<lambda>(i, row). row_tier rank numberFields (i = length rows - 1) row) (enumerate 0 rows))"

section \<open>From tiers to the matrix\<close>

definition taskMatrixCombinationKey :: "BillingUsageSchema \<Rightarrow> (string \<times> string) list \<Rightarrow> string option list" where
  "taskMatrixCombinationKey enumFields combination = map (\<lambda>(f, d). map_of combination f) enumFields"

text \<open>The values a tier's conditions give to the fields; \<open>None\<close> for a field named twice or a value
  that is not declared.\<close>

fun condition_values :: "BillingUsageSchema \<Rightarrow> TaskVisualCondition list \<Rightarrow> (string \<times> string) list \<Rightarrow> (string \<times> string) list option" where
  "condition_values schema [] acc = Some acc"
| "condition_values schema (c # cs) acc =
    (if vc_field c \<in> fst ` set acc then None
     else case map_of schema (vc_field c) of
       None \<Rightarrow> None
     | Some d \<Rightarrow> if vc_value c \<in> set (enum_values d) then condition_values schema cs (acc @ [(vc_field c, vc_value c)]) else None)"

fun tiers_by_combination ::
    "BillingUsageSchema \<Rightarrow> BillingUsageSchema \<Rightarrow> TaskVisualTier list \<Rightarrow> (string option list \<times> TaskVisualTier) list \<Rightarrow>
     (string option list \<times> TaskVisualTier) list option" where
  "tiers_by_combination schema enumFields [] acc = Some acc"
| "tiers_by_combination schema enumFields (tier # tiers) acc =
    (if length (vt_conditions tier) \<noteq> length enumFields then None
     else case condition_values schema (vt_conditions tier) [] of
       None \<Rightarrow> None
     | Some vals \<Rightarrow>
         if length vals \<noteq> length enumFields then None
         else
           let combination = map (\<lambda>(f, d). (f, nullish (map_of vals f) [])) enumFields;
               key = taskMatrixCombinationKey enumFields combination in
           if key \<in> fst ` set acc then None else tiers_by_combination schema enumFields tiers (acc @ [(key, tier)]))"

definition matrix_row :: "BillingUsageSchema \<Rightarrow> (string \<times> string) list \<Rightarrow> TaskVisualTier \<Rightarrow> TaskMatrixRow" where
  "matrix_row numberFields c tier =
    \<lparr>mx_combination = c, mx_constant = vt_constant tier, mx_unitPrices = row_prices numberFields (vt_unitPrices tier)\<rparr>"

fun matrix_rows ::
    "BillingUsageSchema \<Rightarrow> BillingUsageSchema \<Rightarrow> (string option list \<times> TaskVisualTier) list \<Rightarrow> (string \<times> string) list list \<Rightarrow>
     TaskMatrixRow list option" where
  "matrix_rows numberFields enumFields byKey [] = Some []"
| "matrix_rows numberFields enumFields byKey (c # cs) =
    (case map_of byKey (taskMatrixCombinationKey enumFields c) of
      None \<Rightarrow> None
    | Some tier \<Rightarrow> map_option ((#) (matrix_row numberFields c tier)) (matrix_rows numberFields enumFields byKey cs))"

text \<open>The rest of \<open>tryParseTaskMatrixConfig\<close>, once the expression has been parsed into tiers.\<close>

definition taskTiersToMatrix :: "(string \<Rightarrow> string) \<Rightarrow> BillingUsageSchema \<Rightarrow> TaskVisualTier list \<Rightarrow> TaskMatrixRow list option" where
  "taskTiersToMatrix rank schema tiers =
    (let enumFields = getTaskEnumFields rank schema;
         numberFields = getTaskNumberFields rank schema;
         combinations = getTaskEnumCombinations rank schema in
     if tiers = [] then None
     else if length tiers = 1 \<and> vt_conditions (hd tiers) = [] then
       Some (map (\<lambda>c. matrix_row numberFields c (hd tiers)) combinations)
     else if length tiers \<noteq> length combinations then None
     else if vt_conditions (last tiers) \<noteq> [] then None
     else case tiers_by_combination schema enumFields (butlast tiers) [] of
       None \<Rightarrow> None
     | Some byKey \<Rightarrow>
         (case filter (\<lambda>c. taskMatrixCombinationKey enumFields c \<notin> fst ` set byKey) combinations of
           [missing] \<Rightarrow>
             matrix_rows numberFields enumFields (byKey @ [(taskMatrixCombinationKey enumFields missing, last tiers)]) combinations
         | _ \<Rightarrow> None))"

section \<open>The preview\<close>

definition tier_matches :: "sample \<Rightarrow> TaskVisualTier \<Rightarrow> bool" where
  "tier_matches sample tier = list_all (\<lambda>c. sample (vc_field c) = Some (SampleText (vc_value c))) (vt_conditions tier)"

definition matched_tier :: "TaskVisualTier list \<Rightarrow> sample \<Rightarrow> TaskVisualTier" where
  "matched_tier tiers sample = (case find (tier_matches sample) (butlast tiers) of Some t \<Rightarrow> t | None \<Rightarrow> last tiers)"

fun sample_number :: "(string \<Rightarrow> number option) \<Rightarrow> sample_value option \<Rightarrow> number option" where
  "sample_number to_number (Some (SampleNumber n)) = Some n"
| "sample_number to_number (Some (SampleText s)) = to_number s"
| "sample_number to_number None = None"

definition usage_amount :: "BillingUsageSchema option \<Rightarrow> string \<Rightarrow> number \<Rightarrow> number \<Rightarrow> number" where
  "usage_amount schema f quantity unitPrice =
    (case Option.bind schema (\<lambda>s. map_of s f) of
      Some d \<Rightarrow> if fs_unit d = Some UnitToken then quantity * unitPrice / TASK_TOKEN_PRICE_SCALE else quantity * unitPrice
    | None \<Rightarrow> quantity * unitPrice)"

fun usage_parts ::
    "(string \<Rightarrow> number option) \<Rightarrow> BillingUsageSchema option \<Rightarrow> sample \<Rightarrow> (string \<times> number) list \<Rightarrow> preview_part list \<Rightarrow> number \<Rightarrow>
     (preview_part list \<times> number) option" where
  "usage_parts to_number schema sample [] parts subtotal = Some (parts, subtotal)"
| "usage_parts to_number schema sample ((f, unitPrice) # prices) parts subtotal =
    (if unitPrice < 0 then None
     else if unitPrice = 0 then usage_parts to_number schema sample prices parts subtotal
     else case sample_number to_number (sample f) of
       None \<Rightarrow> None
     | Some quantity \<Rightarrow>
         if quantity < 0 then None
         else let amount = usage_amount schema f quantity unitPrice in
           usage_parts to_number schema sample prices (parts @ [UsagePart f amount quantity unitPrice]) (subtotal + amount))"

definition evaluateTaskVisualConfig ::
    "(string \<Rightarrow> number option) \<Rightarrow> TaskVisualTier list \<Rightarrow> sample \<Rightarrow> BillingUsageSchema option \<Rightarrow> TaskPreviewResult option" where
  "evaluateTaskVisualConfig to_number tiers sample schema =
    (if tiers = [] then None
     else
       let tier = matched_tier tiers sample; constant = vt_constant tier in
       if constant < 0 then None
       else
         case usage_parts to_number schema sample (vt_unitPrices tier)
           (if constant > 0 then [ConstantPart constant] else []) (if constant > 0 then constant else 0) of
           None \<Rightarrow> None
         | Some (parts, subtotal) \<Rightarrow> Some \<lparr>pr_tier = tier, pr_total = subtotal, pr_parts = parts\<rparr>)"

section \<open>Normal form of tiers\<close>

definition normalizeTaskVisualConfig :: "(string \<Rightarrow> string) \<Rightarrow> TaskVisualTier list \<Rightarrow> BillingUsageSchema \<Rightarrow> TaskVisualTier list" where
  "normalizeTaskVisualConfig rank tiers schema =
    (if tiers = [] then createDefaultTaskVisualConfig rank schema
     else map (\<lambda>(i, tier).
       \<lparr>vt_label = (if vt_label tier \<noteq> [] then vt_label tier else if i = 0 then ''base'' else ''tier_'' @ show_nat (i + 1)),
        vt_conditions = filter (\<lambda>c. case map_of (getTaskEnumFields rank schema) (vc_field c) of
            None \<Rightarrow> False | Some d \<Rightarrow> vc_value c \<in> set (enum_values d)) (vt_conditions tier),
        vt_constant = (if vt_constant tier \<ge> 0 then vt_constant tier else 0),
        vt_unitPrices = map (\<lambda>(f, d). (f, case map_of (vt_unitPrices tier) f of None \<Rightarrow> 0 | Some v \<Rightarrow> if v \<ge> 0 then v else 0))
          (getTaskNumberFields rank schema)\<rparr>) (enumerate 0 tiers))"

section \<open>Combinations\<close>

definition schema_ok :: "BillingUsageSchema \<Rightarrow> bool" where
  "schema_ok schema \<longleftrightarrow> distinct (map fst schema) \<and> list_all (\<lambda>(f, d). distinct (enum_values d)) schema"

text \<open>A combination of the fields: one declared value each, in the order of the fields.\<close>

definition combination_of :: "BillingUsageSchema \<Rightarrow> (string \<times> string) list \<Rightarrow> bool" where
  "combination_of fs c \<longleftrightarrow> list_all2 (\<lambda>(f, d) (g, v). g = f \<and> v \<in> set (enum_values d)) fs c"

lemma combination_keys: "combination_of fs c \<Longrightarrow> map fst c = map fst fs"
  unfolding combination_of_def by (induction rule: list_all2_induct) auto

lemma combination_snoc:
  "combination_of (fs @ [fd]) c \<longleftrightarrow> (\<exists>c' v. c = c' @ [(fst fd, v)] \<and> combination_of fs c' \<and> v \<in> set (enum_values (snd fd)))"
proof -
  have one: "list_all2 (\<lambda>(f, d) (g, v). g = f \<and> v \<in> set (enum_values d)) [fd] vs \<longleftrightarrow>
      (\<exists>v. vs = [(fst fd, v)] \<and> v \<in> set (enum_values (snd fd)))" for vs
    by (cases fd) (auto simp: list_all2_Cons1)
  show ?thesis
    unfolding combination_of_def list_all2_append1 one
  proof (intro iffI; elim exE conjE)
    fix c' v assume "c = c' @ [(fst fd, v)]" "list_all2 (\<lambda>(f, d) (g, v). g = f \<and> v \<in> set (enum_values d)) fs c'"
      "v \<in> set (enum_values (snd fd))"
    then show "\<exists>us vs. c = us @ vs \<and> length us = length fs \<and> length vs = length [fd] \<and>
        list_all2 (\<lambda>(f, d) (g, v). g = f \<and> v \<in> set (enum_values d)) fs us \<and>
        (\<exists>v. vs = [(fst fd, v)] \<and> v \<in> set (enum_values (snd fd)))"
      by (intro exI [of _ c'] exI [of _ "[(fst fd, v)]"]) (simp add: list_all2_lengthD)
  qed auto
qed

lemma combinations_spec:
  assumes "distinct (map fst fs)" "list_all (\<lambda>(f, d). distinct (enum_values d)) fs"
  shows "(c \<in> set (foldl extend_combinations [[]] fs) \<longleftrightarrow> combination_of fs c) \<and> distinct (foldl extend_combinations [[]] fs)"
  using assms
proof (induction fs arbitrary: c rule: rev_induct)
  case Nil
  then show ?case by (auto simp: combination_of_def)
next
  case (snoc fd fs)
  let ?cs = "foldl extend_combinations [[]] fs"
  have IH: "c \<in> set ?cs \<longleftrightarrow> combination_of fs c" "distinct ?cs" for c
    using snoc by auto
  have new: "set_prop (fst fd) v c = c @ [(fst fd, v)]" if "c \<in> set ?cs" for c v
  proof (rule set_prop_new)
    have "map fst c = map fst fs" using that IH(1) combination_keys by blast
    then have "set (map fst c) = set (map fst fs)" by (rule arg_cong)
    then have "fst ` set c = fst ` set fs" by simp
    moreover have "fst fd \<notin> fst ` set fs" using snoc.prems(1) by simp
    ultimately show "fst fd \<notin> fst ` set c" by simp
  qed
  have ext: "extend_combinations ?cs fd = concat (map (\<lambda>c. map (\<lambda>v. c @ [(fst fd, v)]) (enum_values (snd fd))) ?cs)"
    by (simp only: extend_combinations_def [of ?cs fd], intro arg_cong [of _ _ concat] map_cong refl) (simp add: new)
  have vals: "distinct (enum_values (snd fd))" using snoc.prems(2) by (cases fd) simp
  have "distinct (extend_combinations ?cs fd)"
  proof (cases "enum_values (snd fd) = []")
    case True
    then have "extend_combinations ?cs fd = []" unfolding ext by simp
    then show ?thesis by simp
  next
    case False
    then obtain v where v: "v \<in> set (enum_values (snd fd))" by (cases "enum_values (snd fd)") auto
    have "inj_on (\<lambda>c. map (\<lambda>v. c @ [(fst fd, v)]) (enum_values (snd fd))) (set ?cs)"
      using v by (auto simp: inj_on_def map_eq_conv)
    then show ?thesis
      unfolding ext
    proof (intro distinct_concat)
      show "distinct (map (\<lambda>c. map (\<lambda>v. c @ [(fst fd, v)]) (enum_values (snd fd))) ?cs)"
        using \<open>inj_on _ _\<close> IH(2) by (simp only: distinct_map)
      fix ys assume "ys \<in> set (map (\<lambda>c. map (\<lambda>v. c @ [(fst fd, v)]) (enum_values (snd fd))) ?cs)"
      then obtain c where ys: "ys = map (\<lambda>v. c @ [(fst fd, v)]) (enum_values (snd fd))" by auto
      show "distinct ys" unfolding ys distinct_map using vals by (simp add: inj_on_def)
      fix zs assume "zs \<in> set (map (\<lambda>c. map (\<lambda>v. c @ [(fst fd, v)]) (enum_values (snd fd))) ?cs)" "ys \<noteq> zs"
      then obtain c' where zs: "zs = map (\<lambda>v. c' @ [(fst fd, v)]) (enum_values (snd fd))" by auto
      with ys \<open>ys \<noteq> zs\<close> have "c \<noteq> c'" by blast
      then show "set ys \<inter> set zs = {}" unfolding ys zs by auto
    qed
  qed
  moreover have "c \<in> set (extend_combinations ?cs fd) \<longleftrightarrow> combination_of (fs @ [fd]) c"
    unfolding ext combination_snoc using IH(1) by auto
  ultimately show ?case by simp
qed

lemma enum_fields_ok:
  assumes "schema_ok schema"
  shows "distinct (map fst (getTaskEnumFields rank schema))"
    "list_all (\<lambda>(f, d). distinct (enum_values d)) (getTaskEnumFields rank schema)"
    "set (getTaskEnumFields rank schema) \<subseteq> set schema"
proof -
  have "distinct (map fst (filter P schema))" for P
    using assms by (auto simp: schema_ok_def intro: distinct_map_filter)
  then show "distinct (map fst (getTaskEnumFields rank schema))"
    unfolding getTaskEnumFields_def by (metis (no_types, lifting) distinct_map distinct_sort set_sort)
  show "set (getTaskEnumFields rank schema) \<subseteq> set schema" by (auto simp: getTaskEnumFields_def)
  then show "list_all (\<lambda>(f, d). distinct (enum_values d)) (getTaskEnumFields rank schema)"
    using assms by (auto simp: schema_ok_def list_all_iff)
qed

lemma combinations_of_schema:
  assumes "schema_ok schema"
  shows "c \<in> set (getTaskEnumCombinations rank schema) \<longleftrightarrow> combination_of (getTaskEnumFields rank schema) c"
    and "distinct (getTaskEnumCombinations rank schema)"
  using combinations_spec [OF enum_fields_ok(1,2) [OF assms]] by (simp_all add: getTaskEnumCombinations_def)

text \<open>Two combinations are told apart by a field.\<close>

lemma combinations_differ:
  assumes "map fst c = map fst c'" "c \<noteq> c'"
  obtains f v v' where "(f, v) \<in> set c" "(f, v') \<in> set c'" "v \<noteq> v'"
proof -
  have len: "length c = length c'" using assms(1) by (metis length_map)
  then obtain i where i: "i < length c" "c ! i \<noteq> c' ! i" using assms(2) nth_equalityI by blast
  have "fst (c ! i) = fst (c' ! i)" using assms(1) i(1) len by (metis nth_map)
  with i(2) have "snd (c ! i) \<noteq> snd (c' ! i)" by (simp add: prod_eq_iff)
  moreover have "(fst (c ! i), snd (c ! i)) \<in> set c" "(fst (c ! i), snd (c' ! i)) \<in> set c'"
    using i(1) len \<open>fst (c ! i) = fst (c' ! i)\<close> by (simp_all add: prod_eq_iff nth_mem) (metis nth_mem prod.collapse)
  ultimately show thesis using that by blast
qed

section \<open>Every combination is charged by its row\<close>

text \<open>The rows of a matrix stand for the combinations, in order.\<close>

definition matrix_for :: "(string \<Rightarrow> string) \<Rightarrow> BillingUsageSchema \<Rightarrow> TaskMatrixRow list \<Rightarrow> bool" where
  "matrix_for rank schema rows \<longleftrightarrow> map mx_combination rows = getTaskEnumCombinations rank schema"

definition agrees :: "sample \<Rightarrow> (string \<times> string) list \<Rightarrow> bool" where
  "agrees sample c \<longleftrightarrow> list_all (\<lambda>(f, v). sample f = Some (SampleText v)) c"

lemma tier_matches_row: "tier_matches sample (row_tier rank nf False row) \<longleftrightarrow> agrees sample (mx_combination row)"
  by (auto simp: tier_matches_def row_tier_def combination_conditions_def agrees_def list_all_iff split: prod.splits)

lemma row_agrees_once:
  assumes "schema_ok schema" "matrix_for rank schema rows" "i < length rows" "j < length rows"
    and "agrees sample (mx_combination (rows ! i))" "agrees sample (mx_combination (rows ! j))"
  shows "i = j"
proof (rule ccontr)
  assume "i \<noteq> j"
  let ?c = "mx_combination (rows ! i)" and ?c' = "mx_combination (rows ! j)"
  have nth: "getTaskEnumCombinations rank schema ! i = ?c" "getTaskEnumCombinations rank schema ! j = ?c'"
    using assms(2-4) by (metis matrix_for_def nth_map)+
  have len: "length (getTaskEnumCombinations rank schema) = length rows" using assms(2) by (metis matrix_for_def length_map)
  have "?c \<noteq> ?c'"
    using combinations_of_schema(2) [OF assms(1), of rank] nth len \<open>i \<noteq> j\<close> assms(3,4) by (metis nth_eq_iff_index_eq)
  moreover have "map fst ?c = map fst ?c'"
    using combinations_of_schema(1) [OF assms(1)] combination_keys nth len assms(3,4) by (metis nth_mem)
  ultimately obtain f v v' where d: "(f, v) \<in> set ?c" "(f, v') \<in> set ?c'" "v \<noteq> v'" using combinations_differ by metis
  moreover have "sample f = Some (SampleText v)" if "agrees sample c" "(f, v) \<in> set c" for c v
    using that by (fastforce simp: agrees_def list_all_iff)
  ultimately have "Some (SampleText v) = Some (SampleText v')" using assms(5,6) by metis
  with d(3) show False by simp
qed

lemma enumerated_tiers:
  assumes "rows \<noteq> []"
  shows "map (\<lambda>(i, row). row_tier rank nf (i = length rows - 1) row) (enumerate 0 rows) =
    map (row_tier rank nf False) (butlast rows) @ [row_tier rank nf True (last rows)]"
proof (rule nth_equalityI)
  fix i assume "i < length (map (\<lambda>(i, row). row_tier rank nf (i = length rows - 1) row) (enumerate 0 rows))"
  then have "i < length rows - 1 \<or> i = length rows - 1" "i < length rows" by auto
  with assms show "map (\<lambda>(i, row). row_tier rank nf (i = length rows - 1) row) (enumerate 0 rows) ! i =
      (map (row_tier rank nf False) (butlast rows) @ [row_tier rank nf True (last rows)]) ! i"
    by (auto simp: nth_append nth_butlast last_conv_nth nth_enumerate_eq less_Suc_eq)
qed (use assms in simp)

lemma tiers_of_rows:
  assumes "rows = r # rs" "\<not> uniform_rows (getTaskNumberFields rank schema) r rows" "getTaskNumberFields rank schema \<noteq> []"
  shows "taskMatrixToTiers rank rows schema =
    map (row_tier rank (getTaskNumberFields rank schema) False) (butlast rows) @
    [row_tier rank (getTaskNumberFields rank schema) True (last rows)]"
proof -
  have "rows \<noteq> []" using assms(1) by simp
  from enumerated_tiers [OF this, of rank "getTaskNumberFields rank schema"] assms(2,3) show ?thesis
    unfolding taskMatrixToTiers_def Let_def by (subst (1) assms(1)) (simp only: list.case if_False)
qed

lemma find_row:
  assumes "schema_ok schema" "matrix_for rank schema rows" "i < length rows" "agrees sample (mx_combination (rows ! i))"
  shows "find (tier_matches sample) (map (row_tier rank nf False) (butlast rows)) =
    (if i = length rows - 1 then None else Some (row_tier rank nf False (rows ! i)))"
proof -
  have only: "tier_matches sample (map (row_tier rank nf False) (butlast rows) ! j) \<longleftrightarrow> j = i" if "j < length rows - 1" for j
    using row_agrees_once [OF assms(1-3) _ assms(4), of j] assms(4) that by (auto simp: tier_matches_row nth_butlast)
  show ?thesis
  proof (cases "i = length rows - 1")
    case True
    have "\<not> tier_matches sample t" if "t \<in> set (map (row_tier rank nf False) (butlast rows))" for t
      using that only True by (metis in_set_conv_nth length_butlast length_map less_irrefl)
    then show ?thesis using True by (simp add: find_None_iff)
  next
    case False
    then have "i < length rows - 1" using assms(3) by simp
    then show ?thesis
      using only False by (auto simp: find_Some_iff nth_butlast intro!: exI [of _ i])
  qed
qed

lemma matched_row:
  assumes "schema_ok schema" "matrix_for rank schema rows" "getTaskNumberFields rank schema \<noteq> []"
    and "i < length rows" "agrees sample (mx_combination (rows ! i))"
  shows "taskMatrixToTiers rank rows schema \<noteq> [] \<and>
    vt_constant (matched_tier (taskMatrixToTiers rank rows schema) sample) = mx_constant (rows ! i) \<and>
    vt_unitPrices (matched_tier (taskMatrixToTiers rank rows schema) sample) =
      row_prices (getTaskNumberFields rank schema) (mx_unitPrices (rows ! i))"
proof -
  let ?nf = "getTaskNumberFields rank schema"
  obtain r rs where rows: "rows = r # rs" using assms(4) by (cases rows) auto
  show ?thesis
  proof (cases "uniform_rows ?nf r rows")
    case True
    then have "mx_constant (rows ! i) = mx_constant r" "row_prices ?nf (mx_unitPrices (rows ! i)) = row_prices ?nf (mx_unitPrices r)"
      using nth_mem [OF assms(4)] by (fastforce simp: uniform_rows_def row_prices_def list_all_iff)+
    with True rows assms(3) show ?thesis by (simp add: taskMatrixToTiers_def matched_tier_def)
  next
    case False
    note tiers = tiers_of_rows [OF rows False assms(3)]
    have "last rows = rows ! i" if "i = length rows - 1" using that rows by (simp add: last_conv_nth)
    then show ?thesis
      unfolding tiers matched_tier_def using find_row [OF assms(1,2,4,5), of ?nf] by (auto simp: row_tier_def)
  qed
qed

definition charge :: "(string \<Rightarrow> number option) \<Rightarrow> BillingUsageSchema \<Rightarrow> sample \<Rightarrow> string \<times> number \<Rightarrow> number" where
  "charge to_number schema sample fp =
    (case sample_number to_number (sample (fst fp)) of None \<Rightarrow> 0 | Some q \<Rightarrow> usage_amount (Some schema) (fst fp) q (snd fp))"

definition chargeable :: "(string \<Rightarrow> number option) \<Rightarrow> sample \<Rightarrow> string \<times> number \<Rightarrow> bool" where
  "chargeable to_number sample fp \<longleftrightarrow> snd fp \<ge> 0 \<and>
    (snd fp > 0 \<longrightarrow> (case sample_number to_number (sample (fst fp)) of None \<Rightarrow> False | Some q \<Rightarrow> q \<ge> 0))"

lemma usage_total:
  assumes "list_all (chargeable to_number sample) prices"
  shows "\<exists>parts'. usage_parts to_number (Some schema) sample prices parts t =
    Some (parts', t + sum_list (map (charge to_number schema sample) prices))"
  using assms
proof (induction prices arbitrary: parts t)
  case (Cons fp prices)
  obtain f p where fp: "fp = (f, p)" by (cases fp)
  show ?case
  proof (cases "p = 0")
    case True
    then have "charge to_number schema sample fp = 0"
      by (auto simp: fp charge_def usage_amount_def split: option.split)
    with Cons True fp show ?thesis by simp
  next
    case False
    with Cons.prems fp obtain q where q: "sample_number to_number (sample f) = Some q" "q \<ge> 0" "p > 0"
      by (auto simp: chargeable_def split: option.splits)
    then have "charge to_number schema sample fp = usage_amount (Some schema) f q p" by (simp add: charge_def fp)
    then show ?thesis
      using Cons.IH [of "parts @ [UsagePart f (usage_amount (Some schema) f q p) q p]" "t + usage_amount (Some schema) f q p"]
        Cons.prems q fp by (simp add: Let_def add.assoc)
  qed
qed simp

text \<open>The tiers made from a price matrix charge every task as the matrix says: whatever combination
  of enumeration values a task reports, the preview totals the constant of that combination's row
  and its unit prices times the reported quantities, tokens per million.\<close>

theorem matrix_row_charged:
  assumes "schema_ok schema" "matrix_for rank schema rows" "getTaskNumberFields rank schema \<noteq> []"
    and "row \<in> set rows" "agrees sample (mx_combination row)" "mx_constant row \<ge> 0"
    and "list_all (chargeable to_number sample) (row_prices (getTaskNumberFields rank schema) (mx_unitPrices row))"
  shows "map_option pr_total (evaluateTaskVisualConfig to_number (taskMatrixToTiers rank rows schema) sample (Some schema)) =
    Some (mx_constant row +
      sum_list (map (charge to_number schema sample) (row_prices (getTaskNumberFields rank schema) (mx_unitPrices row))))"
proof -
  obtain i where i: "i < length rows" "rows ! i = row" using assms(4) by (metis in_set_conv_nth)
  note m = matched_row [OF assms(1-3) i(1), of sample, unfolded i(2), OF assms(5)]
  let ?c = "mx_constant row"
  obtain parts where "usage_parts to_number (Some schema) sample (row_prices (getTaskNumberFields rank schema) (mx_unitPrices row))
      (if ?c > 0 then [ConstantPart ?c] else []) (if ?c > 0 then ?c else 0) =
      Some (parts, (if ?c > 0 then ?c else 0) + sum_list (map (charge to_number schema sample) (row_prices (getTaskNumberFields rank schema) (mx_unitPrices row))))"
    using usage_total [OF assms(7)] by blast
  with m assms(6) show ?thesis by (auto simp: evaluateTaskVisualConfig_def Let_def)
qed

section \<open>The matrix is recovered from its tiers\<close>

lemma field_order:
  assumes "combination_of (getTaskEnumFields rank schema) c"
  shows "sort_key (rank \<circ> fst) c = c"
proof (rule sort_key_id_if_sorted)
  have "map (rank \<circ> fst) c = map rank (map fst c)" by simp
  also have "\<dots> = map (rank \<circ> fst) (getTaskEnumFields rank schema)" using combination_keys [OF assms] by simp
  finally show "sorted (map (rank \<circ> fst) c)" by (simp add: getTaskEnumFields_def)
qed

definition declared :: "BillingUsageSchema \<Rightarrow> (string \<times> string) list \<Rightarrow> bool" where
  "declared schema c \<longleftrightarrow> list_all (\<lambda>(f, v). \<exists>d. map_of schema f = Some d \<and> v \<in> set (enum_values d)) c"

lemma combination_declared:
  assumes "schema_ok schema" "combination_of (getTaskEnumFields rank schema) c"
  shows "declared schema c"
  unfolding declared_def list_all_length
proof (intro allI impI)
  fix i assume i: "i < length c"
  let ?ef = "getTaskEnumFields rank schema"
  obtain f d where fd: "?ef ! i = (f, d)" by (cases "?ef ! i")
  obtain g v where gv: "c ! i = (g, v)" by (cases "c ! i")
  have len: "i < length ?ef" using i assms(2) by (metis combination_of_def list_all2_lengthD)
  have "g = f \<and> v \<in> set (enum_values d)" using assms(2) len fd gv by (auto simp: combination_of_def list_all2_conv_all_nth)
  moreover have "(f, d) \<in> set schema" using len fd enum_fields_ok(3) [OF assms(1)] by (metis nth_mem subsetD)
  then have "map_of schema f = Some d" using assms(1) by (simp add: schema_ok_def)
  ultimately show "case c ! i of (f, v) \<Rightarrow> \<exists>d. map_of schema f = Some d \<and> v \<in> set (enum_values d)" by (simp add: gv)
qed

lemma conditions_read:
  assumes "declared schema c" "distinct (map fst (acc @ c))"
  shows "condition_values schema (map (\<lambda>(f, v). \<lparr>vc_field = f, vc_value = v\<rparr>) c) acc = Some (acc @ c)"
  using assms
proof (induction c arbitrary: acc)
  case (Cons fv c)
  obtain f v where fv: "fv = (f, v)" by (cases fv)
  with Cons.prems obtain d where "map_of schema f = Some d" "v \<in> set (enum_values d)" by (auto simp: declared_def)
  moreover have "f \<notin> fst ` set acc" using Cons.prems(2) fv by auto
  moreover have "declared schema c" "distinct (map fst ((acc @ [fv]) @ c))" using Cons.prems by (auto simp: declared_def)
  ultimately show ?case using Cons.IH [of "acc @ [fv]"] by (simp add: fv)
qed simp

lemma combination_rebuilt:
  assumes "combination_of ef c" "distinct (map fst ef)"
  shows "map (\<lambda>(f, d). (f, nullish (map_of c f) [])) ef = c"
proof (rule nth_equalityI)
  have len: "length ef = length c" using assms(1) by (simp add: combination_of_def list_all2_lengthD)
  then show "length (map (\<lambda>(f, d). (f, nullish (map_of c f) [])) ef) = length c" by simp
  fix i assume "i < length (map (\<lambda>(f, d). (f, nullish (map_of c f) [])) ef)"
  then have i: "i < length c" using len by simp
  have "distinct (map fst c)" using combination_keys [OF assms(1)] assms(2) by simp
  then have "map_of c (fst (c ! i)) = Some (snd (c ! i))" using i by simp
  moreover have "fst (ef ! i) = fst (c ! i)" using combination_keys [OF assms(1)] i len by (metis nth_map)
  ultimately show "map (\<lambda>(f, d). (f, nullish (map_of c f) [])) ef ! i = c ! i"
    using i len by (simp add: case_prod_beta prod_eq_iff nullish_def)
qed

lemma combination_key_determines:
  assumes "combination_of ef c" "combination_of ef c'" "distinct (map fst ef)"
    and "taskMatrixCombinationKey ef c = taskMatrixCombinationKey ef c'"
  shows "c = c'"
proof -
  have "map_of c f = map_of c' f" if "(f, d) \<in> set ef" for f d
    using assms(4) that by (auto simp: taskMatrixCombinationKey_def map_eq_conv)
  then have "map (\<lambda>(f, d). (f, nullish (map_of c f) [])) ef = map (\<lambda>(f, d). (f, nullish (map_of c' f) [])) ef"
    by (auto simp: map_eq_conv)
  then show ?thesis using combination_rebuilt [OF assms(1,3)] combination_rebuilt [OF assms(2,3)] by simp
qed

abbreviation row_key :: "BillingUsageSchema \<Rightarrow> TaskMatrixRow \<Rightarrow> string option list" where
  "row_key ef row \<equiv> taskMatrixCombinationKey ef (mx_combination row)"

lemma tiers_read:
  assumes "schema_ok schema" "ef = getTaskEnumFields rank schema"
    and "list_all (\<lambda>row. combination_of ef (mx_combination row)) rows" "distinct (map fst acc @ map (row_key ef) rows)"
  shows "tiers_by_combination schema ef (map (row_tier rank nf False) rows) acc =
    Some (acc @ map (\<lambda>row. (row_key ef row, row_tier rank nf False row)) rows)"
  using assms(3,4)
proof (induction rows arbitrary: acc)
  case (Cons row rows)
  let ?c = "mx_combination row"
  have c: "combination_of ef ?c" using Cons.prems by simp
  have keys: "distinct (map fst ef)" using enum_fields_ok(1) [OF assms(1)] assms(2) by simp
  have conds: "vt_conditions (row_tier rank nf False row) = map (\<lambda>(f, v). \<lparr>vc_field = f, vc_value = v\<rparr>) ?c"
    using field_order c assms(2) by (simp add: row_tier_def combination_conditions_def)
  have "condition_values schema (vt_conditions (row_tier rank nf False row)) [] = Some ([] @ ?c)"
    unfolding conds
    by (rule conditions_read) (use c assms(1,2) keys combination_declared combination_keys [OF c] in auto)
  moreover have "length ?c = length ef" using c by (simp add: combination_of_def list_all2_lengthD)
  moreover have "row_key ef row \<notin> fst ` set acc" using Cons.prems(2) by auto
  moreover have "tiers_by_combination schema ef (map (row_tier rank nf False) rows) (acc @ [(row_key ef row, row_tier rank nf False row)]) =
      Some ((acc @ [(row_key ef row, row_tier rank nf False row)]) @ map (\<lambda>row. (row_key ef row, row_tier rank nf False row)) rows)"
    by (rule Cons.IH) (use Cons.prems in auto)
  ultimately show ?case
    using combination_rebuilt [OF c keys] by (simp add: conds)
qed simp

text \<open>A row keeps one price per number field, in the order of the fields, as the editor's rows do.\<close>

definition row_normal :: "BillingUsageSchema \<Rightarrow> TaskMatrixRow \<Rightarrow> bool" where
  "row_normal nf row \<longleftrightarrow> mx_unitPrices row = row_prices nf (mx_unitPrices row)"

lemma row_prices_again:
  assumes "distinct (map fst nf)"
  shows "row_prices nf (row_prices nf prices) = row_prices nf prices"
proof -
  have "map_of (row_prices nf prices) f = Some (nullish (map_of prices f) 0)" if "(f, d) \<in> set nf" for f d
    using that assms by (intro map_of_is_SomeI) (auto simp: row_prices_def comp_def case_prod_beta rev_image_eqI)
  then have "map (\<lambda>(f, d). (f, nullish (map_of (row_prices nf prices) f) 0)) nf = map (\<lambda>(f, d). (f, nullish (map_of prices f) 0)) nf"
    by (auto simp: map_eq_conv nullish_def)
  then show ?thesis by (simp only: row_prices_def)
qed

lemma number_fields_distinct: "schema_ok schema \<Longrightarrow> distinct (map fst (getTaskNumberFields rank schema))"
  unfolding getTaskNumberFields_def
  by (metis (no_types, lifting) distinct_map distinct_map_filter distinct_sort schema_ok_def set_sort)

lemma row_recovered:
  assumes "distinct (map fst nf)" "row_normal nf row"
  shows "matrix_row nf (mx_combination row) (row_tier rank nf b row) = row"
  using assms row_prices_again [OF assms(1), of "mx_unitPrices row"] by (simp add: matrix_row_def row_tier_def row_normal_def)

lemma rows_recovered:
  assumes "distinct (map fst nf)" "list_all (row_normal nf) rows"
    and "\<And>row. row \<in> set rows \<Longrightarrow> \<exists>b. map_of byKey (row_key ef row) = Some (row_tier rank nf b row)"
  shows "matrix_rows nf ef byKey (map mx_combination rows) = Some rows"
  using assms(2,3)
proof (induction rows)
  case (Cons row rows)
  then obtain b where "map_of byKey (row_key ef row) = Some (row_tier rank nf b row)" by auto
  with Cons row_recovered [OF assms(1)] show ?case by simp
qed simp

lemma one_missing:
  assumes "distinct (map k (rs @ [r]))"
  shows "filter (\<lambda>x. k x \<notin> set (map k rs)) (rs @ [r]) = [r]"
proof -
  have "filter (\<lambda>x. k x \<notin> set (map k rs)) rs = []" by (simp add: filter_empty_conv)
  with assms show ?thesis by simp
qed

lemma row_keys_distinct:
  assumes "schema_ok schema" "matrix_for rank schema rows"
  shows "distinct (map (row_key (getTaskEnumFields rank schema)) rows)"
    and "list_all (\<lambda>row. combination_of (getTaskEnumFields rank schema) (mx_combination row)) rows"
proof -
  let ?ef = "getTaskEnumFields rank schema" and ?cs = "getTaskEnumCombinations rank schema"
  have cs: "map mx_combination rows = ?cs" using assms(2) by (simp add: matrix_for_def)
  have "inj_on (taskMatrixCombinationKey ?ef) (set ?cs)"
    using combinations_of_schema(1) [OF assms(1)] combination_key_determines enum_fields_ok(1) [OF assms(1)]
    by (metis inj_onI)
  then have "distinct (map (taskMatrixCombinationKey ?ef) ?cs)"
    using combinations_of_schema(2) [OF assms(1)] by (simp add: distinct_map)
  then show "distinct (map (row_key ?ef) rows)" unfolding cs [symmetric] by (simp add: comp_def)
  have "combination_of ?ef (mx_combination row)" if "row \<in> set rows" for row
    using combinations_of_schema(1) [OF assms(1), of "mx_combination row" rank] that unfolding cs [symmetric] by simp
  then show "list_all (\<lambda>row. combination_of ?ef (mx_combination row)) rows" by (simp add: list_all_iff)
qed

lemma distinct_rows_recovered:
  assumes "schema_ok schema" "matrix_for rank schema (rs @ [r])" "rs \<noteq> []"
    and "nf = getTaskNumberFields rank schema" "list_all (row_normal nf) (rs @ [r])"
  shows "taskTiersToMatrix rank schema (map (row_tier rank nf False) rs @ [row_tier rank nf True r]) = Some (rs @ [r])"
proof -
  let ?ef = "getTaskEnumFields rank schema"
  let ?byKey = "map (\<lambda>row. (row_key ?ef row, row_tier rank nf False row)) rs"
  let ?all = "?byKey @ [(row_key ?ef r, row_tier rank nf True r)]"
  have cs: "getTaskEnumCombinations rank schema = map mx_combination (rs @ [r])" using assms(2) by (simp add: matrix_for_def)
  note keys = row_keys_distinct [OF assms(1,2)]
  have nd: "distinct (map fst nf)" using number_fields_distinct [OF assms(1)] assms(4) by simp
  have read: "tiers_by_combination schema ?ef (map (row_tier rank nf False) rs) [] = Some ?byKey"
    using tiers_read [OF assms(1) refl, where rows = rs and acc = "[]"] keys by simp
  have fsts: "fst ` set ?byKey = set (map (row_key ?ef) rs)" by (simp add: image_image)
  have missing: "filter (\<lambda>c. taskMatrixCombinationKey ?ef c \<notin> fst ` set ?byKey) (getTaskEnumCombinations rank schema) = [mx_combination r]"
    unfolding cs filter_map fsts using one_missing [OF keys(1)] by (simp add: comp_def)
  have da: "distinct (map fst ?all)" using keys(1) by (simp add: comp_def)
  have "\<exists>b. (row_key ?ef row, row_tier rank nf b row) \<in> set ?all" if "row \<in> set (rs @ [r])" for row
    using that by auto
  then have "matrix_rows nf ?ef ?all (map mx_combination (rs @ [r])) = Some (rs @ [r])"
    using map_of_is_SomeI [OF da] by (intro rows_recovered [OF nd assms(5), where rank = rank]) meson
  moreover have "length (map (row_tier rank nf False) rs @ [row_tier rank nf True r]) = length (getTaskEnumCombinations rank schema)"
    unfolding cs by simp
  moreover have "vt_conditions (row_tier rank nf True r) = []" by (simp add: row_tier_def)
  ultimately show ?thesis
    unfolding taskTiersToMatrix_def Let_def assms(4) [symmetric] using assms(3) read missing cs by simp
qed

lemma uniform_recovered:
  assumes "schema_ok schema" "matrix_for rank schema (r # rs)" "nf = getTaskNumberFields rank schema"
    and "list_all (row_normal nf) (r # rs)" "uniform_rows nf r (r # rs)"
    and "vt_conditions tier = []" "vt_constant tier = mx_constant r" "vt_unitPrices tier = row_prices nf (mx_unitPrices r)"
  shows "taskTiersToMatrix rank schema [tier] = Some (r # rs)"
proof -
  have cs: "getTaskEnumCombinations rank schema = map mx_combination (r # rs)" using assms(2) by (simp add: matrix_for_def)
  have nd: "distinct (map fst nf)" using number_fields_distinct [OF assms(1)] assms(3) by simp
  have "matrix_row nf (mx_combination row) tier = row" if row: "row \<in> set (r # rs)" for row
  proof -
    have "mx_constant row = mx_constant r" "row_prices nf (mx_unitPrices row) = row_prices nf (mx_unitPrices r)"
      using row assms(5) by (fastforce simp: uniform_rows_def row_prices_def list_all_iff)+
    moreover have "row_normal nf row" using assms(4) row by (auto simp: list_all_iff)
    ultimately show ?thesis
      using assms(7,8) row_prices_again [OF nd, of "mx_unitPrices r"] by (simp add: matrix_row_def row_normal_def)
  qed
  then have "map (\<lambda>c. matrix_row nf c tier) (map mx_combination (r # rs)) = r # rs"
    by (simp add: map_idI)
  then show ?thesis unfolding taskTiersToMatrix_def Let_def assms(3) [symmetric] cs using assms(6) by simp
qed

text \<open>A price matrix survives being stored as tiers: the tiers made from a full matrix, shortened
  to one when all rows agree and with the last combination left to the fallback, are read back as
  exactly the rows they were made from.\<close>

theorem price_matrix_roundtrip:
  assumes "schema_ok schema" "matrix_for rank schema rows" "rows \<noteq> []" "getTaskNumberFields rank schema \<noteq> []"
    and "list_all (row_normal (getTaskNumberFields rank schema)) rows"
  shows "taskTiersToMatrix rank schema (taskMatrixToTiers rank rows schema) = Some rows"
proof -
  let ?nf = "getTaskNumberFields rank schema"
  obtain r rs where rows: "rows = r # rs" using assms(3) by (cases rows) auto
  show ?thesis
  proof (cases "uniform_rows ?nf r rows")
    case True
    with uniform_recovered [OF assms(1) _ refl] assms rows show ?thesis by (simp add: taskMatrixToTiers_def)
  next
    case False
    have snoc: "rows = butlast rows @ [last rows]" using assms(3) by simp
    have "uniform_rows ?nf r [r]" by (auto simp: uniform_rows_def list_all_iff)
    with False rows have "butlast rows \<noteq> []" by (cases rs) auto
    then show ?thesis
      unfolding tiers_of_rows [OF rows False assms(4)]
      using distinct_rows_recovered [OF assms(1) _ _ refl, of rank "butlast rows" "last rows"] assms(2,5) snoc by simp
  qed
qed

section \<open>A video plugin\<close>

text \<open>Two resolutions priced apart, by the second and by the million tokens.\<close>

definition video_schema :: BillingUsageSchema where
  "video_schema =
    [(''tokens'', \<lparr>fs_type = Some NumberField, fs_unit = Some UnitToken, fs_enum = None\<rparr>),
     (''size'', \<lparr>fs_type = None, fs_unit = None, fs_enum = Some [''720p'', ''1080p'']\<rparr>),
     (''seconds'', \<lparr>fs_type = Some NumberField, fs_unit = Some UnitSecond, fs_enum = None\<rparr>)]"

definition video_rows :: "TaskMatrixRow list" where
  "video_rows =
    [\<lparr>mx_combination = [(''size'', ''720p'')], mx_constant = 1, mx_unitPrices = [(''seconds'', 2), (''tokens'', 3)]\<rparr>,
     \<lparr>mx_combination = [(''size'', ''1080p'')], mx_constant = 1, mx_unitPrices = [(''seconds'', 5), (''tokens'', 3)]\<rparr>]"

definition video_sample :: sample where
  "video_sample = map_of [(''size'', SampleText ''1080p''), (''seconds'', SampleNumber 4), (''tokens'', SampleNumber 2000000)]"

lemma video_ok:
  "schema_ok video_schema" "matrix_for (\<lambda>s. s) video_schema video_rows" "getTaskNumberFields (\<lambda>s. s) video_schema \<noteq> []"
  "list_all (row_normal (getTaskNumberFields (\<lambda>s. s) video_schema)) video_rows"
  by code_simp+

theorem price_matrix_roundtrip_witness:
  "taskTiersToMatrix (\<lambda>s. s) video_schema (taskMatrixToTiers (\<lambda>s. s) video_rows video_schema) = Some video_rows"
  by (rule price_matrix_roundtrip) (use video_ok in \<open>simp_all add: video_rows_def\<close>)

lemma video_row:
  "video_rows ! 1 \<in> set video_rows" "agrees video_sample (mx_combination (video_rows ! 1))" "mx_constant (video_rows ! 1) \<ge> 0"
  "list_all (chargeable (\<lambda>s. None) video_sample)
     (row_prices (getTaskNumberFields (\<lambda>s. s) video_schema) (mx_unitPrices (video_rows ! 1)))"
  by code_simp+

lemma video_charge:
  "mx_constant (video_rows ! 1) + sum_list (map (charge (\<lambda>s. None) video_schema video_sample)
     (row_prices (getTaskNumberFields (\<lambda>s. s) video_schema) (mx_unitPrices (video_rows ! 1)))) = 27"
  by code_simp

theorem matrix_row_charged_witness:
  "map_option pr_total (evaluateTaskVisualConfig (\<lambda>s. None) (taskMatrixToTiers (\<lambda>s. s) video_rows video_schema) video_sample
    (Some video_schema)) = Some 27"
  using matrix_row_charged [OF video_ok(1-3) video_row] by (simp only: video_charge)

end
