(* ===== verification/Task_Expr.thy ===== *)
theory Task_Expr
  imports Billing_Rules Task_Pricing
begin

text \<open>
  The text of a task price (\<open>parseTaskTiersFromExpr\<close> of \<open>billing-expr.ts\<close> and the expression functions of
  \<open>task-expr.ts\<close>): a chain of conditions and tiers such as
  \<open>u("size") == "720p" ? tier("720p", 1 + u("seconds") * 2) : tier("base", u("seconds") * 5)\<close>.  The
  scanners know quotes and parentheses; each loop over the characters is a recursion whose arguments
  are the variables of the loop.  \<open>parse\<close> is \<open>JSON.parse\<close> and \<open>show_number\<close> is \<open>String\<close> on numbers.
\<close>

section \<open>Scanning\<close>

definition backslash :: char where "backslash = char_of (92 :: nat)"

text \<open>The variables \<open>quoted\<close> and \<open>escaped\<close> after a character inside quotes.\<close>

definition in_quotes :: "bool \<Rightarrow> char \<Rightarrow> bool \<times> bool" where
  "in_quotes escaped c = (if escaped then (True, False) else if c = backslash then (True, True) else (c \<noteq> quote_char, False))"

fun find_top :: "char \<Rightarrow> int \<Rightarrow> bool \<Rightarrow> bool \<Rightarrow> nat \<Rightarrow> string \<Rightarrow> nat option" where
  "find_top target depth quoted escaped i [] = None"
| "find_top target depth quoted escaped i (c # s) =
    (if quoted then (case in_quotes escaped c of (q, e) \<Rightarrow> find_top target depth q e (i + 1) s)
     else if c = quote_char then find_top target depth True escaped (i + 1) s
     else if c = CHR ''('' then find_top target (depth + 1) False escaped (i + 1) s
     else if c = CHR '')'' then (if depth - 1 < 0 then None else find_top target (depth - 1) False escaped (i + 1) s)
     else if depth = 0 \<and> c = target then Some i
     else find_top target depth False escaped (i + 1) s)"

definition findTaskTopLevelCharacter :: "string \<Rightarrow> char \<Rightarrow> nat option" where
  "findTaskTopLevelCharacter expression target = find_top target 0 False False 0 expression"

fun find_colon :: "int \<Rightarrow> bool \<Rightarrow> bool \<Rightarrow> nat \<times> nat \<Rightarrow> string \<Rightarrow> nat option" where
  "find_colon depth quoted escaped ti [] = None"
| "find_colon depth quoted escaped (ternaryDepth, i) (c # s) =
    (if quoted then (case in_quotes escaped c of (q, e) \<Rightarrow> find_colon depth q e (ternaryDepth, i + 1) s)
     else if c = quote_char then find_colon depth True escaped (ternaryDepth, i + 1) s
     else if c = CHR ''('' then find_colon (depth + 1) False escaped (ternaryDepth, i + 1) s
     else if c = CHR '')'' then (if depth - 1 < 0 then None else find_colon (depth - 1) False escaped (ternaryDepth, i + 1) s)
     else if depth \<noteq> 0 then find_colon depth False escaped (ternaryDepth, i + 1) s
     else if c = CHR ''?'' then find_colon depth False escaped (ternaryDepth + 1, i + 1) s
     else if c \<noteq> CHR '':'' then find_colon depth False escaped (ternaryDepth, i + 1) s
     else if ternaryDepth = 0 then Some i
     else find_colon depth False escaped (ternaryDepth - 1, i + 1) s)"

definition findTaskTernaryColon :: "string \<Rightarrow> nat \<Rightarrow> nat option" where
  "findTaskTernaryColon expression questionIndex =
    find_colon 0 False False (0, questionIndex + 1) (drop (questionIndex + 1) expression)"

text \<open>The two operators of \<open>splitTaskTopLevel\<close>; \<open>cur\<close> is the text since \<open>start\<close>, and its last character is the
  one before the current.\<close>

fun split_and :: "int \<Rightarrow> bool \<Rightarrow> bool \<Rightarrow> string \<Rightarrow> string \<Rightarrow> string list" where
  "split_and depth quoted escaped cur [] = [cur]"
| "split_and depth quoted escaped cur (c # s) =
    (if quoted then (case in_quotes escaped c of (q, e) \<Rightarrow> split_and depth q e (cur @ [c]) s)
     else if c = quote_char then split_and depth True escaped (cur @ [c]) s
     else if c = CHR ''('' then split_and (depth + 1) False escaped (cur @ [c]) s
     else if c = CHR '')'' then split_and (depth - 1) False escaped (cur @ [c]) s
     else if depth = 0 \<and> c = CHR ''&'' then
       (case s of
         d # s' \<Rightarrow> if d = CHR ''&'' then cur # split_and depth False escaped [] s' else split_and depth False escaped (cur @ [c]) s
       | [] \<Rightarrow> [cur @ [c]])
     else split_and depth False escaped (cur @ [c]) s)"

fun split_plus :: "int \<Rightarrow> bool \<Rightarrow> bool \<Rightarrow> string \<Rightarrow> string \<Rightarrow> string list" where
  "split_plus depth quoted escaped cur [] = [cur]"
| "split_plus depth quoted escaped cur (c # s) =
    (if quoted then (case in_quotes escaped c of (q, e) \<Rightarrow> split_plus depth q e (cur @ [c]) s)
     else if c = quote_char then split_plus depth True escaped (cur @ [c]) s
     else if c = CHR ''('' then split_plus (depth + 1) False escaped (cur @ [c]) s
     else if c = CHR '')'' then split_plus (depth - 1) False escaped (cur @ [c]) s
     else if depth = 0 \<and> c = CHR ''+'' \<and> (cur = [] \<or> last cur \<notin> set ''eE'') then cur # split_plus depth False escaped [] s
     else split_plus depth False escaped (cur @ [c]) s)"

definition splitTaskTopLevelAnd :: "string \<Rightarrow> string list" where
  "splitTaskTopLevelAnd expression = filter (\<lambda>p. p \<noteq> []) (map trim (split_and 0 False False [] expression))"

definition splitTaskTopLevelPlus :: "string \<Rightarrow> string list" where
  "splitTaskTopLevelPlus expression = filter (\<lambda>p. p \<noteq> []) (map trim (split_plus 0 False False [] expression))"

section \<open>Parsing\<close>

text \<open>\<open>JSON.parse\<close> where a string is expected.\<close>

definition parse_string :: "(string \<Rightarrow> json option) \<Rightarrow> string \<Rightarrow> string option" where
  "parse_string parse s = (case parse s of Some (JStr t) \<Rightarrow> Some t | _ \<Rightarrow> None)"

abbreviation skip_spaces :: "string \<Rightarrow> string" where
  "skip_spaces s \<equiv> dropWhile space_char s"

text \<open>\<open>u\(\s*("(?:[^"\\]|\\.)*")\s*\)\s*\<close>, the literal and the rest.\<close>

definition usage_call :: "string \<Rightarrow> (string \<times> string) option" where
  "usage_call s =
    (case eat ''u('' s of
      None \<Rightarrow> None
    | Some r \<Rightarrow> (case quoted_literal (skip_spaces r) of
        None \<Rightarrow> None
      | Some (lit, r) \<Rightarrow> map_option (\<lambda>r. (lit, skip_spaces r)) (eat '')'' (skip_spaces r))))"

definition condition_match :: "string \<Rightarrow> (string \<times> string) option" where
  "condition_match part =
    (case usage_call part of
      None \<Rightarrow> None
    | Some (f, r) \<Rightarrow> (case eat ''=='' r of
        None \<Rightarrow> None
      | Some r \<Rightarrow> (case quoted_literal (skip_spaces r) of
          Some (v, []) \<Rightarrow> Some (f, v)
        | _ \<Rightarrow> None)))"

definition parse_condition :: "(string \<Rightarrow> json option) \<Rightarrow> BillingUsageSchema \<Rightarrow> string \<Rightarrow> TaskVisualCondition option" where
  "parse_condition parse schema part =
    (case condition_match part of
      None \<Rightarrow> None
    | Some (f, v) \<Rightarrow> (case (parse_string parse f, parse_string parse v) of
        (Some field, Some v) \<Rightarrow>
          (case map_of schema field of
            Some d \<Rightarrow> if v \<in> set (enum_values d) then Some \<lparr>vc_field = field, vc_value = v\<rparr> else None
          | None \<Rightarrow> None)
      | _ \<Rightarrow> None))"

fun parse_conditions :: "(string \<Rightarrow> json option) \<Rightarrow> BillingUsageSchema \<Rightarrow> string list \<Rightarrow> TaskVisualCondition list option" where
  "parse_conditions parse schema [] = Some []"
| "parse_conditions parse schema (part # parts) =
    (case parse_condition parse schema part of
      None \<Rightarrow> None
    | Some c \<Rightarrow> map_option ((#) c) (parse_conditions parse schema parts))"

definition parseTaskConditions :: "(string \<Rightarrow> json option) \<Rightarrow> string \<Rightarrow> BillingUsageSchema \<Rightarrow> TaskVisualCondition list option" where
  "parseTaskConditions parse expression schema =
    (case parse_conditions parse schema (splitTaskTopLevelAnd expression) of
      Some [] \<Rightarrow> None
    | r \<Rightarrow> r)"

text \<open>\<open>u("field") * number\<close>, with the rest behind the number: \<open>None\<close> for no match, and whether the rest is
  \<open>/ 1000000\<close>.\<close>

definition price_match :: "string \<Rightarrow> (string \<times> string \<times> bool) option" where
  "price_match term =
    (case usage_call term of
      None \<Rightarrow> None
    | Some (f, r) \<Rightarrow> (case eat ''*'' r of
        None \<Rightarrow> None
      | Some r \<Rightarrow>
          (let w = takeWhile number_char (skip_spaces r); r = dropWhile number_char (skip_spaces r) in
           if \<not> isNumericLiteral w then None
           else if r = [] then Some (f, w, False)
           else (case eat ''/'' (skip_spaces r) of
             None \<Rightarrow> None
           | Some r \<Rightarrow> if skip_spaces r = ''1000000'' then Some (f, w, True) else None))))"

text \<open>The members every object inherits, which the operator \<open>in\<close> finds.\<close>

definition inherited_members :: "string list" where
  "inherited_members = [''constructor'', ''__defineGetter__'', ''__defineSetter__'', ''hasOwnProperty'', ''__lookupGetter__'',
    ''__lookupSetter__'', ''isPrototypeOf'', ''propertyIsEnumerable'', ''toString'', ''valueOf'', ''__proto__'', ''toLocaleString'']"

record parsed_terms =
  pt_unitPrices :: "(string \<times> number) list"
  pt_constant :: number
  pt_hasConstant :: bool

definition parse_term :: "(string \<Rightarrow> json option) \<Rightarrow> BillingUsageSchema \<Rightarrow> parsed_terms \<Rightarrow> string \<Rightarrow> parsed_terms option" where
  "parse_term parse schema st term =
    (if isNumericLiteral term then
       (if pt_hasConstant st \<or> literal_number term < 0 then None
        else Some (st\<lparr>pt_constant := literal_number term, pt_hasConstant := True\<rparr>))
     else case price_match term of
       None \<Rightarrow> None
     | Some (lit, w, scaled) \<Rightarrow> (case parse_string parse lit of
         None \<Rightarrow> None
       | Some field \<Rightarrow> (case map_of schema field of
           None \<Rightarrow> None
         | Some d \<Rightarrow>
             if fs_type d \<noteq> Some NumberField \<or> fs_unit d = None \<or> field \<in> fst ` set (pt_unitPrices st) \<or>
                field \<in> set inherited_members \<or> literal_number w < 0 then None
             else if (fs_unit d = Some UnitToken) \<noteq> scaled then None
             else Some (st\<lparr>pt_unitPrices := pt_unitPrices st @ [(field, literal_number w)]\<rparr>))))"

fun parse_terms :: "(string \<Rightarrow> json option) \<Rightarrow> BillingUsageSchema \<Rightarrow> parsed_terms \<Rightarrow> string list \<Rightarrow> parsed_terms option" where
  "parse_terms parse schema st [] = Some st"
| "parse_terms parse schema st (term # terms) =
    (case parse_term parse schema st term of None \<Rightarrow> None | Some st' \<Rightarrow> parse_terms parse schema st' terms)"

definition parseTaskTierCall ::
    "(string \<Rightarrow> json option) \<Rightarrow> string \<Rightarrow> TaskVisualCondition list \<Rightarrow> BillingUsageSchema \<Rightarrow> TaskVisualTier option" where
  "parseTaskTierCall parse expression conditions schema =
    (let trimmed = trim expression; inner = butlast (drop 5 trimmed) in
     if \<not> prefix ''tier('' trimmed \<or> \<not> suffix '')'' trimmed then None
     else case findTaskTopLevelCharacter inner CHR '','' of
       None \<Rightarrow> None
     | Some comma \<Rightarrow> (case parse_string parse (trim (take comma inner)) of
         None \<Rightarrow> None
       | Some label \<Rightarrow>
           (case parse_terms parse schema \<lparr>pt_unitPrices = [], pt_constant = 0, pt_hasConstant = False\<rparr>
              (splitTaskTopLevelPlus (drop (comma + 1) inner)) of
             None \<Rightarrow> None
           | Some st \<Rightarrow>
               if pt_unitPrices st = [] then None
               else Some \<lparr>vt_label = label, vt_conditions = conditions, vt_constant = pt_constant st, vt_unitPrices = pt_unitPrices st\<rparr>)))"

text \<open>\<open>/^v(\d+):([\s\S]*)$/\<close>, the body.\<close>

definition stripExprVersion :: "string \<Rightarrow> nat \<times> string" where
  "stripExprVersion s =
    (case s of
      c # r \<Rightarrow>
        (let ds = takeWhile is_digit r in
         if c = CHR ''v'' \<and> ds \<noteq> [] \<and> prefix '':'' (dropWhile is_digit r) then (digits_value ds, tl (dropWhile is_digit r)) else (1, s))
    | [] \<Rightarrow> (1, []))"

function parse_tiers :: "(string \<Rightarrow> json option) \<Rightarrow> BillingUsageSchema \<Rightarrow> string \<Rightarrow> TaskVisualTier list option" where
  "parse_tiers parse schema remaining =
    (if remaining = [] then Some []
     else case findTaskTopLevelCharacter remaining CHR ''?'' of
       None \<Rightarrow> map_option (\<lambda>t. [t]) (parseTaskTierCall parse remaining [] schema)
     | Some q \<Rightarrow> (case findTaskTernaryColon remaining q of
         None \<Rightarrow> None
       | Some colon \<Rightarrow> (case parseTaskConditions parse (trim (take q remaining)) schema of
           None \<Rightarrow> None
         | Some conditions \<Rightarrow> (case parseTaskTierCall parse (trim (drop (q + 1) (take colon remaining))) conditions schema of
             None \<Rightarrow> None
           | Some tier \<Rightarrow> map_option ((#) tier) (parse_tiers parse schema (trim (drop (colon + 1) remaining)))))))"
  by pat_completeness auto
termination
proof (relation "measure (\<lambda>(parse, schema, remaining). length remaining)")
  fix parse :: "string \<Rightarrow> json option" and schema :: BillingUsageSchema and remaining :: string and colon :: nat
  assume "remaining \<noteq> []"
  with trim_length [of "drop (colon + 1) remaining"]
  show "((parse, schema, trim (drop (colon + 1) remaining)), parse, schema, remaining) \<in> measure (\<lambda>(parse, schema, remaining). length remaining)"
    by (cases remaining) auto
qed simp

declare parse_tiers.simps [simp del]

definition parseTaskTiersFromExpr ::
    "(string \<Rightarrow> json option) \<Rightarrow> (number \<Rightarrow> string) \<Rightarrow> string \<Rightarrow> BillingUsageSchema \<Rightarrow> TaskVisualTier list" where
  "parseTaskTiersFromExpr parse show_number exprStr schema =
    (if exprStr = [] \<or> schema = [] then []
     else case splitBillingExprAndRequestRules parse show_number exprStr of
       Inl _ \<Rightarrow> []
     | Inr (billingExpr, _) \<Rightarrow> nullish (parse_tiers parse schema (trim (snd (stripExprVersion billingExpr)))) [])"

section \<open>Generating\<close>

definition price_term :: "(number \<Rightarrow> string) \<Rightarrow> (string \<times> number) list \<Rightarrow> string \<times> BillingUsageFieldSchema \<Rightarrow> string" where
  "price_term show_number unitPrices fd =
    ''u('' @ json_quote (fst fd) @ '') * '' @ show_number (nullish (map_of unitPrices (fst fd)) 0) @
    (if fs_unit (snd fd) = Some UnitToken then '' / 1000000'' else [])"

definition generateTaskTierBody :: "(number \<Rightarrow> string) \<Rightarrow> TaskVisualTier \<Rightarrow> BillingUsageSchema \<Rightarrow> string" where
  "generateTaskTierBody show_number tier numberFields =
    join '' + '' ((if vt_constant tier > 0 then [show_number (vt_constant tier)] else []) @
      map (price_term show_number (vt_unitPrices tier)) numberFields)"

definition generateTaskTierCall :: "(number \<Rightarrow> string) \<Rightarrow> TaskVisualTier \<Rightarrow> BillingUsageSchema \<Rightarrow> string" where
  "generateTaskTierCall show_number tier numberFields =
    ''tier('' @ json_quote (vt_label tier) @ '', '' @ generateTaskTierBody show_number tier numberFields @ '')''"

definition generateTaskCondition :: "TaskVisualCondition list \<Rightarrow> string" where
  "generateTaskCondition conditions =
    join '' && '' (map (\<lambda>c. ''u('' @ json_quote (vc_field c) @ '') == '' @ json_quote (vc_value c)) conditions)"

fun generate_parts :: "(number \<Rightarrow> string) \<Rightarrow> BillingUsageSchema \<Rightarrow> TaskVisualTier list \<Rightarrow> string list option" where
  "generate_parts show_number numberFields [] = Some []"
| "generate_parts show_number numberFields [tier] = Some [generateTaskTierCall show_number tier numberFields]"
| "generate_parts show_number numberFields (tier # tier' # tiers) =
    (if generateTaskCondition (vt_conditions tier) = [] then None
     else map_option ((#) (generateTaskCondition (vt_conditions tier) @ '' ? '' @ generateTaskTierCall show_number tier numberFields))
       (generate_parts show_number numberFields (tier' # tiers)))"

definition generateTaskExprFromConfig ::
    "(string \<Rightarrow> string) \<Rightarrow> (number \<Rightarrow> string) \<Rightarrow> TaskVisualTier list \<Rightarrow> BillingUsageSchema \<Rightarrow> string" where
  "generateTaskExprFromConfig rank show_number tiers schema =
    (let numberFields = getTaskNumberFields rank schema; normalized = normalizeTaskVisualConfig rank tiers schema in
     if numberFields = [] then []
     else case normalized of
       [tier] \<Rightarrow> generateTaskTierCall show_number tier numberFields
     | _ \<Rightarrow> (case generate_parts show_number numberFields normalized of None \<Rightarrow> [] | Some parts \<Rightarrow> join '' : '' parts))"

definition tryParseTaskVisualConfig ::
    "(string \<Rightarrow> string) \<Rightarrow> (string \<Rightarrow> json option) \<Rightarrow> (number \<Rightarrow> string) \<Rightarrow> string \<Rightarrow> BillingUsageSchema \<Rightarrow> TaskVisualTier list option" where
  "tryParseTaskVisualConfig rank parse show_number expression schema =
    (let tiers = parseTaskTiersFromExpr parse show_number expression schema in
     if expression = [] \<or> tiers = [] then None else Some (normalizeTaskVisualConfig rank tiers schema))"

definition tryParseTaskMatrixConfig ::
    "(string \<Rightarrow> string) \<Rightarrow> (string \<Rightarrow> json option) \<Rightarrow> (number \<Rightarrow> string) \<Rightarrow> string \<Rightarrow> BillingUsageSchema \<Rightarrow> TaskMatrixRow list option" where
  "tryParseTaskMatrixConfig rank parse show_number expression schema =
    (if expression = [] then None else taskTiersToMatrix rank schema (parseTaskTiersFromExpr parse show_number expression schema))"

record BillingUsageExample =
  ue_label :: string
  ue_facts :: sample

definition evaluateTaskUsageExamples ::
    "(string \<Rightarrow> string) \<Rightarrow> (string \<Rightarrow> json option) \<Rightarrow> (number \<Rightarrow> string) \<Rightarrow> (string \<Rightarrow> number option) \<Rightarrow> string \<Rightarrow>
     BillingUsageSchema option \<Rightarrow> BillingUsageExample list \<Rightarrow> unit + (string \<times> number) list" where
  "evaluateTaskUsageExamples rank parse show_number to_number expression schema examples =
    (case schema of
      None \<Rightarrow> Inr []
    | Some s \<Rightarrow>
        if expression = [] \<or> examples = [] then Inr []
        else (case splitBillingExprAndRequestRules parse show_number expression of
          Inl e \<Rightarrow> Inl e
        | Inr (billingExpr, _) \<Rightarrow> (case tryParseTaskVisualConfig rank parse show_number billingExpr s of
            None \<Rightarrow> Inr []
          | Some config \<Rightarrow> Inr (List.map_filter (\<lambda>x.
              map_option (\<lambda>r. (ue_label x, pr_total r)) (evaluateTaskVisualConfig to_number config (ue_facts x) (Some s))) examples))))"

text \<open>What is used of \<open>String\<close> on a number: it is shown as a literal of its value.\<close>

definition number_law :: "(number \<Rightarrow> string) \<Rightarrow> number \<Rightarrow> bool" where
  "number_law show_number x \<longleftrightarrow> isNumericLiteral (show_number x) \<and> literal_number (show_number x) = x"

end
