(* ===== verification/Billing_Matching.thy ===== *)
theory Billing_Matching
  imports Billing_Rules
begin

text \<open>
  What the patterns of the rule parser do to the texts the rule editor writes: which pattern a text
  matches and with which parts, that no other pattern matches it, and where a text of several
  conditions is cut.
\<close>

section \<open>Matching what was built\<close>

definition scalar_text :: "TimeFunc \<Rightarrow> string \<Rightarrow> string \<Rightarrow> string \<Rightarrow> string" where
  "scalar_text f z mode v = call_text f z @ '' '' @ time_op mode @ '' '' @ v"

definition zone_ok :: "string \<Rightarrow> bool" where
  "zone_ok z \<longleftrightarrow> plain_text z \<and> z \<noteq> []"

lemma json_call: "zone_ok z \<Longrightarrow> timeFunc_name f @ ''('' @ json_quote z @ '')'' = call_text f z"
  by (simp add: zone_ok_def json_quote_plain call_text_def)

lemma in_range_numeric: "isTimeValueInRange f v \<Longrightarrow> isNumericLiteral v"
  by (simp add: isTimeValueInRange_def)

lemma find_timeFunc: "find (\<lambda>g. prefix (timeFunc_name g @ ''('') (timeFunc_name f @ ''('' @ s)) TIME_FUNCS = Some f"
  by (cases f) (simp_all add: TIME_FUNCS_def)

lemma time_call_fn:
  assumes "zone_ok z"
  shows "time_call (call_text f z @ r) = Some (f, z, r)"
proof -
  have "plain_quoted (quote_char # z @ quote_char # '')'' @ r) = Some (z, '')'' @ r)"
    using assms plain_quoted_append [of z "'')'' @ r"] by (simp add: zone_ok_def plain_text_no_quote)
  moreover have "find (\<lambda>g. prefix (timeFunc_name g @ ''('') (call_text f z @ r)) TIME_FUNCS = Some f"
    using find_timeFunc [of f "quote_char # z @ quote_char # '')'' @ r"] by (simp add: call_text_def)
  moreover have "drop (length (timeFunc_name f) + 1) (call_text f z @ r) = quote_char # z @ quote_char # '')'' @ r"
    by (simp add: call_text_def)
  ultimately show ?thesis by (simp add: time_call_def)
qed

lemma time_call_None: "(\<And>f. \<not> prefix (timeFunc_name f @ ''('') s) \<Longrightarrow> time_call s = None"
  by (simp add: time_call_def find_None_iff [THEN iffD2])

lemma time_call_other:
  "time_call (''param('' @ s) = None" "time_call (''header('' @ s) = None" "time_call (''has('' @ s) = None" "time_call (''('' @ s) = None"
proof -
  have "\<not> prefix (timeFunc_name f @ ''('') (''param('' @ s)" "\<not> prefix (timeFunc_name f @ ''('') (''header('' @ s)"
    and "\<not> prefix (timeFunc_name f @ ''('') (''has('' @ s)" "\<not> prefix (timeFunc_name f @ ''('') (''('' @ s)" for f
    by (cases f; simp)+
  then show "time_call (''param('' @ s) = None" "time_call (''header('' @ s) = None" "time_call (''has('' @ s) = None"
    and "time_call (''('' @ s) = None"
    by (intro time_call_None; blast)+
qed

lemma time_call_shape: "time_call s = Some (f, z, r) \<Longrightarrow> prefix (timeFunc_name f @ ''('') s"
  by (auto simp: time_call_def find_Some_iff split: option.splits)

lemma call_text_head: "\<exists>c s. call_text f z = c # s \<and> c \<noteq> CHR ''('' \<and> \<not> space_char c"
  by (cases f) (simp_all add: call_text_def space_char_def space_unit_def)

lemma eat_paren_fn [simp]: "eat ''('' (call_text f z @ r) = None"
  using call_text_head [of f z] by auto

definition stops :: "string \<Rightarrow> bool" where
  "stops r \<longleftrightarrow> r = [] \<or> \<not> number_char (hd r)"

lemma span1_numeric: "isNumericLiteral v \<Longrightarrow> stops r \<Longrightarrow> span1 number_char (v @ r) = Some (v, r)"
  using numeric_number_char [of v] by (simp add: span1_append stops_def)

lemma time_range_fn:
  assumes "zone_ok z" "isNumericLiteral a" "stops r"
  shows "time_range (call_text f z @ '' >= '' @ a @ r) =
    (case (if prefix '' && '' r then eat '' && '' r else eat '' || '' r) of
      None \<Rightarrow> None
    | Some r \<Rightarrow> (case eat (call_text f z @ '' < '') r of
        None \<Rightarrow> None
      | Some r \<Rightarrow> (case span1 number_char r of None \<Rightarrow> None | Some (b, r) \<Rightarrow> Some (f, z, a, b, r))))"
  using span1_numeric [OF assms(2,3)] time_call_fn [OF assms(1), of f "'' >= '' @ a @ r"]
  by (simp add: time_range_def cong: option.case_cong)

lemma time_range_built:
  assumes "zone_ok z" "isNumericLiteral a" "isNumericLiteral b" "stops r" "sep = '' && '' \<or> sep = '' || ''"
  shows "time_range (call_text f z @ '' >= '' @ a @ sep @ call_text f z @ '' < '' @ b @ r) = Some (f, z, a, b, r)"
proof -
  have stop: "stops (sep @ call_text f z @ '' < '' @ b @ r)"
    using assms(5) by (auto simp: stops_def number_char_def is_digit_def char_digit_def)
  have eaten: "(if prefix '' && '' (sep @ t) then eat '' && '' (sep @ t) else eat '' || '' (sep @ t)) = Some t" for t
    using assms(5) by auto
  show ?thesis
    unfolding time_range_fn [OF assms(1,2) stop] eaten
    using eat_append [of "call_text f z @ '' < ''" "b @ r"] span1_numeric [OF assms(3,4)] by simp
qed

lemma time_range_not_lower:
  assumes "zone_ok z" "mode = MATCH_EQ \<or> mode = MATCH_LT"
  shows "time_range (scalar_text f z mode v @ r) = None"
  using assms time_call_fn [OF assms(1), of f "'' '' @ time_op mode @ '' '' @ v @ r"]
  by (auto simp: time_range_def scalar_text_def time_op_def match_defs)

lemma scalar_match_built:
  assumes "zone_ok z" "isNumericLiteral v" "stops r" "mode \<in> {MATCH_EQ, MATCH_GTE, MATCH_LT}"
  shows "scalar_match (scalar_text f z mode v @ r) = (if r = [] then Some (f, z, mode, v) else None)"
proof -
  have "time_operator (time_op mode @ '' '' @ v @ r) = Some (mode, v @ r)"
    using assms(4) by (auto simp: time_operator_def time_op_def match_defs)
  then show ?thesis
    using time_call_fn [OF assms(1), of f "'' '' @ time_op mode @ '' '' @ v @ r"] span1_numeric [OF assms(2,3)]
    by (simp add: scalar_match_def scalar_text_def)
qed

lemma scalar_match_other: "time_call s = None \<Longrightarrow> scalar_match s = None"
  by (simp add: scalar_match_def)

lemma time_range_other: "time_call s = None \<Longrightarrow> time_range s = None"
  by (simp add: time_range_def)

text \<open>A condition that starts with neither a time function nor a parenthesis is no time condition.\<close>

lemma no_time_condition: "time_call s = None \<Longrightarrow> eat ''('' s = None \<Longrightarrow> tryParseTimeCondition s = None"
  by (simp add: tryParseTimeCondition_def range_match_def scalar_match_other time_range_other)

lemma parse_scalar:
  assumes "zone_ok z" "isTimeValueInRange f v" "mode \<in> {MATCH_EQ, MATCH_GTE, MATCH_LT}"
  shows "tryParseTimeCondition (scalar_text f z mode v) = Some
    \<lparr>tc_timeFunc = f, tc_timezone = z, tc_mode = mode, tc_value = v, tc_rangeStart = [], tc_rangeEnd = []\<rparr>"
proof -
  note num = in_range_numeric [OF assms(2)]
  have "time_range (scalar_text f z mode v) = None"
  proof (cases "mode = MATCH_GTE")
    case True
    with time_range_fn [OF assms(1) num, of "[]" f] show ?thesis
      by (simp add: scalar_text_def time_op_def stops_def)
  next
    case False
    with time_range_not_lower [OF assms(1), of mode f v "[]"] assms(3) show ?thesis by auto
  qed
  then have "range_match (scalar_text f z mode v) = None"
    by (simp add: range_match_def scalar_text_def)
  with scalar_match_built [OF assms(1) num _ assms(3), of "[]" f] assms(2) show ?thesis
    by (simp add: tryParseTimeCondition_def stops_def)
qed

lemma parse_range:
  assumes "zone_ok z" "isTimeValueInRange f a" "isTimeValueInRange f b" "sep = '' && '' \<or> sep = '' || ''"
  shows "tryParseTimeCondition (call_text f z @ '' >= '' @ a @ sep @ call_text f z @ '' < '' @ b) = Some
      \<lparr>tc_timeFunc = f, tc_timezone = z, tc_mode = MATCH_RANGE, tc_value = [], tc_rangeStart = a, tc_rangeEnd = b\<rparr>"
    and "tryParseTimeCondition (''('' @ call_text f z @ '' >= '' @ a @ sep @ call_text f z @ '' < '' @ b @ '')'') = Some
      \<lparr>tc_timeFunc = f, tc_timezone = z, tc_mode = MATCH_RANGE, tc_value = [], tc_rangeStart = a, tc_rangeEnd = b\<rparr>"
proof -
  note built = time_range_built [OF assms(1) in_range_numeric [OF assms(2)] in_range_numeric [OF assms(3)] _ assms(4), of _ f]
  have "stops '')''" by (simp add: stops_def number_char_def is_digit_def char_digit_def)
  then show "tryParseTimeCondition (call_text f z @ '' >= '' @ a @ sep @ call_text f z @ '' < '' @ b) = Some
      \<lparr>tc_timeFunc = f, tc_timezone = z, tc_mode = MATCH_RANGE, tc_value = [], tc_rangeStart = a, tc_rangeEnd = b\<rparr>"
    and "tryParseTimeCondition (''('' @ call_text f z @ '' >= '' @ a @ sep @ call_text f z @ '' < '' @ b @ '')'') = Some
      \<lparr>tc_timeFunc = f, tc_timezone = z, tc_mode = MATCH_RANGE, tc_value = [], tc_rangeStart = a, tc_rangeEnd = b\<rparr>"
    using built [of "[]"] built [of "'')''"] time_range_other [OF time_call_other(4)] assms(2,3)
    by (simp_all add: tryParseTimeCondition_def range_match_def stops_def)
qed

definition source_text :: "ConditionSource \<Rightarrow> string \<Rightarrow> string" where
  "source_text src p = source_name src @ ''('' @ [quote_char] @ p @ [quote_char] @ '')''"

definition path_ok :: "string \<Rightarrow> bool" where
  "path_ok p \<longleftrightarrow> plain_text p \<and> trimmed p"

definition value_ok :: "string \<Rightarrow> bool" where
  "value_ok v \<longleftrightarrow> plain_text v \<and> trim v = v"

lemma path_nonempty: "path_ok p \<Longrightarrow> p \<noteq> []"
  by (auto simp: path_ok_def trimmed_def)

lemma json_source: "path_ok p \<Longrightarrow> source_name src @ ''('' @ json_quote p @ '')'' = source_text src p"
  by (simp add: path_ok_def json_quote_plain source_text_def)

lemma source_call_text:
  assumes "path_ok p"
  shows "source_call src (source_text src p @ r) = Some (p, r)"
proof -
  have "eat (source_name src @ ''('') (source_text src p @ r) = Some (quote_char # p @ quote_char # '')'' @ r)"
    using eat_append [of "source_name src @ ''(''" "quote_char # p @ quote_char # '')'' @ r"] by (simp add: source_text_def)
  then show ?thesis
    using plain_quoted_append [of p "'')'' @ r"] path_nonempty [OF assms] assms
    by (simp add: source_call_def path_ok_def plain_text_no_quote)
qed

lemma source_call_other: "src \<noteq> src' \<Longrightarrow> source_call src (source_text src' p @ r) = None"
  by (cases src; cases src') (simp_all add: source_call_def source_text_def)

lemma source_call_has: "source_call src (''has('' @ r) = None"
  by (cases src) (simp_all add: source_call_def)

lemma time_call_source: "time_call (source_text src p @ r) = None"
  using time_call_other(1) [of "[quote_char] @ p @ [quote_char] @ '')'' @ r"] time_call_other(2) [of "[quote_char] @ p @ [quote_char] @ '')'' @ r"]
  by (cases src) (simp_all add: source_text_def)

lemma no_time_source: "tryParseTimeCondition (source_text src p @ r) = None"
  by (rule no_time_condition [OF time_call_source]) (cases src; simp add: source_text_def)

lemma no_time_has: "tryParseTimeCondition (''has('' @ r) = None"
  by (rule no_time_condition [OF time_call_other(3)]) simp

lemma eat_has_source [simp]: "eat ''has('' (source_text src p @ r) = None"
  by (cases src) (simp_all add: source_text_def)

text \<open>What is used of \<open>JSON.parse\<close>: it reads a plain string literal.\<close>

definition json_law :: "(string \<Rightarrow> json option) \<Rightarrow> bool" where
  "json_law parse \<longleftrightarrow> (\<forall>s. plain_text s \<longrightarrow> parse (json_quote s) = Some (JStr s))"

lemma parse_exists:
  assumes "path_ok p"
  shows "tryParseRequestCondition parse sn (source_text SourceHeader p @ '' != '' @ [quote_char, quote_char]) =
      Inr (Some (ph_cond SourceHeader p MATCH_EXISTS []))"
    and "tryParseRequestCondition parse sn (source_text SourceParam p @ '' != nil'') =
      Inr (Some (ph_cond SourceParam p MATCH_EXISTS []))"
  using assms
  by (simp_all add: tryParseRequestCondition_def no_time_source exists_match_def source_call_text source_call_other)

lemma parse_contains:
  assumes "path_ok p" "value_ok v" "json_law parse"
  shows "tryParseRequestCondition parse sn (''has('' @ source_text SourceHeader p @ '', '' @ json_quote v @ '')'') =
      Inr (Some (ph_cond SourceHeader p MATCH_CONTAINS v))"
proof -
  have "has_match SourceHeader (''has('' @ source_text SourceHeader p @ '', '' @ json_quote v @ '')'') = Some (p, json_quote v)"
    using assms source_call_text [OF assms(1), of SourceHeader "'', '' @ json_quote v @ '')''"] quoted_literal_plain [of v "'')''"]
    by (simp add: has_match_def value_ok_def json_quote_plain)
  then show ?thesis
    using assms(3) source_call_has
    unfolding tryParseRequestCondition_def no_time_has exists_match_def
    using assms(2) by (simp add: contains_cond_def json_law_def value_ok_def)
qed

lemma quote_not_number: "\<not> number_char quote_char"
  by code_simp

lemma trimmed_json_quote: "trimmed (json_quote v)"
  by (simp add: trimmed_def json_quote_def quote_char_def space_char_def space_unit_def)

lemma literal_trimmed: "value_ok v \<Longrightarrow> v \<noteq> [] \<Longrightarrow> trimmed v"
  by (simp add: value_ok_def trim_fixed_trimmed)

lemma literal_built:
  assumes "value_ok v" "json_law parse"
  shows "parseExprLiteral parse (buildExprLiteral MATCH_EQ v) = Some (JStr v)" "buildExprLiteral MATCH_EQ v \<noteq> []"
    and "\<not> list_ex line_end (buildExprLiteral MATCH_EQ v)"
proof -
  have v: "trim v = v" "plain_text v" using assms(1) by (simp_all add: value_ok_def)
  have quoted: "trim (json_quote v) = json_quote v" by (rule trim_trimmed [OF trimmed_json_quote])
  have "\<not> isNumericLiteral (json_quote v)"
    using numeric_number_char(1) [of "json_quote v"] quote_not_number by (auto simp: json_quote_def)
  moreover have "json_quote v \<noteq> ''true''" "json_quote v \<noteq> ''false''" by (auto simp: json_quote_def quote_char_def)
  ultimately show "parseExprLiteral parse (buildExprLiteral MATCH_EQ v) = Some (JStr v)"
    using assms(2) v quoted by (simp add: parseExprLiteral_def buildExprLiteral_def Let_def json_law_def match_defs)
  show "buildExprLiteral MATCH_EQ v \<noteq> []"
    using v(1) numeric_number_char(2) [of v] by (auto simp: buildExprLiteral_def Let_def json_quote_def)
  have "\<not> line_end c" if "plain_char c" for c
    using that by (auto simp: plain_char_def line_end_def)
  moreover have "\<not> line_end quote_char" by (simp add: line_end_def quote_char_def)
  ultimately have "\<not> list_ex line_end v" "\<not> list_ex line_end (json_quote v)"
    using v(2) by (auto simp: json_quote_plain plain_text_def list_all_iff list_ex_iff)
  with v(1) show "\<not> list_ex line_end (buildExprLiteral MATCH_EQ v)"
    by (auto simp: buildExprLiteral_def Let_def)
qed

lemma parse_equals:
  assumes "path_ok p" "value_ok v" "json_law parse"
  shows "tryParseRequestCondition parse sn (source_text src p @ '' == '' @ buildExprLiteral MATCH_EQ v) =
    Inr (Some (ph_cond src p MATCH_EQ v))"
proof -
  let ?s = "source_text src p @ '' == '' @ buildExprLiteral MATCH_EQ v"
  have call: "source_call src ?s = Some (p, '' == '' @ buildExprLiteral MATCH_EQ v)"
    using source_call_text [OF assms(1), of src] .
  have other: "source_call src' ?s = None" if "src' \<noteq> src" for src'
    by (rule source_call_other) (use that in simp)
  have "exists_match src' t ?s = None" if "t = '' != nil'' \<or> t = '' != '' @ [quote_char, quote_char]" for src' t
    using call other [of src'] that by (cases "src' = src") (auto simp: exists_match_def)
  moreover have "has_match src' ?s = None" for src' by (simp add: has_match_def)
  moreover have "guarded_match m ?s = None" for m :: "string \<Rightarrow> (string \<times> string \<times> string) option"
    using call other [of SourceParam] by (cases "src = SourceParam") (auto simp: guarded_match_def)
  moreover have "guarded_match m ?s = None" for m :: "string \<Rightarrow> (string \<times> string) option"
    using call other [of SourceParam] by (cases "src = SourceParam") (auto simp: guarded_match_def)
  moreover have "equals_match ?s = Some (src, p, buildExprLiteral MATCH_EQ v)"
  proof -
    have "(if prefix ''param('' ?s then SourceParam else SourceHeader) = src"
      by (cases src) (simp_all add: source_text_def)
    then show ?thesis
      using call literal_built(2,3) [OF assms(2,3)] by (simp add: equals_match_def Let_def)
  qed
  ultimately show ?thesis
    using literal_built(1) [OF assms(2,3)] no_time_source by (simp add: tryParseRequestCondition_def)
qed

section \<open>Rows that survive\<close>

text \<open>A row as the parser returns it: the unused fields are empty, a value of a time function is in
  range, the texts are plain, and the row is none of the guarded comparisons on a parameter.\<close>

definition time_normal :: "TimeCondition \<Rightarrow> bool" where
  "time_normal c \<longleftrightarrow> zone_ok (tc_timezone c) \<and>
    (if tc_mode c = MATCH_RANGE then tc_value c = [] \<and> isTimeValueInRange (tc_timeFunc c) (tc_rangeStart c) \<and>
        isTimeValueInRange (tc_timeFunc c) (tc_rangeEnd c)
     else tc_mode c \<in> {MATCH_EQ, MATCH_GTE, MATCH_LT} \<and> tc_rangeStart c = [] \<and> tc_rangeEnd c = [] \<and>
        isTimeValueInRange (tc_timeFunc c) (tc_value c))"

definition ph_normal :: "ParamHeaderCondition \<Rightarrow> bool" where
  "ph_normal c \<longleftrightarrow> path_ok (ph_path c) \<and>
    (ph_mode c = MATCH_EXISTS \<and> ph_value c = [] \<or> ph_mode c = MATCH_EQ \<and> value_ok (ph_value c) \<or>
     ph_mode c = MATCH_CONTAINS \<and> ph_source c = SourceHeader \<and> value_ok (ph_value c))"

primrec cond_normal :: "RequestCondition \<Rightarrow> bool" where
  "cond_normal (TimeCond c) = time_normal c"
| "cond_normal (ParamHeaderCond c) = ph_normal c"

text \<open>Two neighbouring rows that the parser would merge into one range.\<close>

fun bounds_meet :: "RequestCondition \<Rightarrow> RequestCondition \<Rightarrow> bool" where
  "bounds_meet (TimeCond a) (TimeCond b) \<longleftrightarrow> tc_mode a = MATCH_GTE \<and> tc_mode b = MATCH_LT \<and>
     tc_timeFunc a = tc_timeFunc b \<and> tc_timezone a = tc_timezone b"
| "bounds_meet _ _ = False"

fun no_bounds_meet :: "RequestCondition list \<Rightarrow> bool" where
  "no_bounds_meet (c # d # cs) \<longleftrightarrow> \<not> bounds_meet c d \<and> no_bounds_meet (d # cs)"
| "no_bounds_meet _ = True"

definition group_normal :: "RequestRuleGroup \<Rightarrow> bool" where
  "group_normal g \<longleftrightarrow> rg_conditions g \<noteq> [] \<and> list_all cond_normal (rg_conditions g) \<and>
    no_bounds_meet (rg_conditions g) \<and> isNumericLiteral (rg_multiplier g)"

text \<open>The text of a condition, cut where it is split.\<close>

definition range_text :: "string \<Rightarrow> TimeCondition \<Rightarrow> string" where
  "range_text sep c = call_text (tc_timeFunc c) (tc_timezone c) @ '' >= '' @ tc_rangeStart c @ sep @
     call_text (tc_timeFunc c) (tc_timezone c) @ '' < '' @ tc_rangeEnd c"

definition within_day :: "TimeCondition \<Rightarrow> bool" where
  "within_day c \<longleftrightarrow> literal_number (tc_rangeStart c) \<le> literal_number (tc_rangeEnd c)"

primrec cond_parts :: "RequestCondition \<Rightarrow> string list" where
  "cond_parts (TimeCond c) =
    (let f = tc_timeFunc c; z = tc_timezone c in
     if tc_mode c \<noteq> MATCH_RANGE then [scalar_text f z (tc_mode c) (tc_value c)]
     else if within_day c then [scalar_text f z MATCH_GTE (tc_rangeStart c), scalar_text f z MATCH_LT (tc_rangeEnd c)]
     else [''('' @ range_text '' || '' c @ '')''])"
| "cond_parts (ParamHeaderCond c) =
    [if ph_mode c = MATCH_EXISTS then source_text (ph_source c) (ph_path c) @
       (if ph_source c = SourceHeader then '' != '' @ [quote_char, quote_char] else '' != nil'')
     else if ph_mode c = MATCH_CONTAINS then ''has('' @ source_text SourceHeader (ph_path c) @ '', '' @ json_quote (ph_value c) @ '')''
     else source_text (ph_source c) (ph_path c) @ '' == '' @ buildExprLiteral MATCH_EQ (ph_value c)]"

lemma numeric_trim: "isNumericLiteral v \<Longrightarrow> trim v = v"
  using numeric_number_char(1) [of v] unfolding trim_def
  by (intro trim_by_no_space) (auto simp: list_all_iff dest: number_char_plain)

lemma time_mode_cases:
  assumes "time_normal c"
  obtains "tc_mode c = MATCH_RANGE" "tc_value c = []" "isTimeValueInRange (tc_timeFunc c) (tc_rangeStart c)"
      "isTimeValueInRange (tc_timeFunc c) (tc_rangeEnd c)" "zone_ok (tc_timezone c)"
  | "tc_mode c \<noteq> MATCH_RANGE" "tc_mode c \<in> {MATCH_EQ, MATCH_GTE, MATCH_LT}" "tc_rangeStart c = []" "tc_rangeEnd c = []"
      "isTimeValueInRange (tc_timeFunc c) (tc_value c)" "zone_ok (tc_timezone c)"
  using assms by (auto simp: time_normal_def split: if_splits)

lemma build_time:
  assumes "time_normal c"
  shows "buildTimeConditionExpr c =
    (if tc_mode c = MATCH_RANGE then range_text (if within_day c then '' && '' else '' || '') c
     else scalar_text (tc_timeFunc c) (tc_timezone c) (tc_mode c) (tc_value c))"
  using assms
proof (cases rule: time_mode_cases)
  case 1
  then have "tc_timezone c \<noteq> []" by (simp add: zone_ok_def)
  with 1 numeric_trim [OF in_range_numeric [OF 1(3)]] numeric_trim [OF in_range_numeric [OF 1(4)]] json_call [OF 1(5), of "tc_timeFunc c"]
  show ?thesis
    by (simp add: buildTimeConditionExpr_def time_modes_def range_text_def within_day_def Let_def not_le [symmetric])
next
  case 2
  then have "tc_timezone c \<noteq> []" by (simp add: zone_ok_def)
  with 2 numeric_trim [OF in_range_numeric [OF 2(5)]] json_call [OF 2(6), of "tc_timeFunc c"] show ?thesis
    by (auto simp: buildTimeConditionExpr_def time_modes_def scalar_text_def Let_def)
qed

lemma build_ph:
  assumes "ph_normal c"
  shows "buildRequestConditionExpr (ParamHeaderCond c) = hd (cond_parts (ParamHeaderCond c))"
proof -
  have p: "trim (ph_path c) = ph_path c" "ph_path c \<noteq> []"
    using assms by (auto simp: ph_normal_def path_ok_def trim_trimmed trimmed_def)
  have src: "source_name src @ ''('' @ json_quote (ph_path c) @ '')'' = source_text src (ph_path c)" for src
    by (rule json_source) (use assms in \<open>simp add: ph_normal_def\<close>)
  from assms consider "ph_mode c = MATCH_EXISTS" | "ph_mode c = MATCH_EQ" "value_ok (ph_value c)"
    | "ph_mode c = MATCH_CONTAINS" "ph_source c = SourceHeader" "value_ok (ph_value c)"
    by (auto simp: ph_normal_def)
  then show ?thesis
  proof cases
    case 1
    then show ?thesis using p src [of "ph_source c"] by (cases "ph_source c") (simp_all add: match_defs Let_def)
  next
    case 2
    then show ?thesis using p src [of "ph_source c"] by (cases "ph_source c") (simp_all add: match_defs Let_def)
  next
    case 3
    then show ?thesis using p src [of SourceHeader] by (simp add: match_defs Let_def buildExprLiteral_def value_ok_def)
  qed
qed

lemma range_text_bar: "contains (range_text '' || '' c) '' || ''"
  unfolding contains_iff range_text_def
  by (intro exI [of _ "call_text (tc_timeFunc c) (tc_timezone c) @ '' >= '' @ tc_rangeStart c"]
        exI [of _ "call_text (tc_timeFunc c) (tc_timezone c) @ '' < '' @ tc_rangeEnd c"]) simp

lemma no_bar: "CHR ''|'' \<notin> set s \<Longrightarrow> \<not> contains s '' || ''"
  by (auto simp: contains_iff)

lemma bar_free_texts:
  "zone_ok z \<Longrightarrow> CHR ''|'' \<notin> set (call_text f z)" "path_ok p \<Longrightarrow> CHR ''|'' \<notin> set (source_text src p)"
  "isNumericLiteral v \<Longrightarrow> CHR ''|'' \<notin> set v" "plain_text w \<Longrightarrow> CHR ''|'' \<notin> set w"
  "plain_text w \<Longrightarrow> CHR ''|'' \<notin> set (json_quote w)"
proof -
  have plain: "CHR ''|'' \<notin> set w" if "plain_text w" for w
    using that by (auto simp: plain_text_def list_all_iff plain_char_def)
  have q: "quote_char \<noteq> CHR ''|''" by code_simp
  show "zone_ok z \<Longrightarrow> CHR ''|'' \<notin> set (call_text f z)"
    using plain [of z] q by (cases f) (auto simp: zone_ok_def call_text_def)
  show "path_ok p \<Longrightarrow> CHR ''|'' \<notin> set (source_text src p)"
    using plain [of p] q by (cases src) (auto simp: path_ok_def source_text_def)
  show "isNumericLiteral v \<Longrightarrow> CHR ''|'' \<notin> set v"
    using numeric_number_char(1) [of v] by (auto simp: list_all_iff dest!: number_char_plain)
  show "plain_text w \<Longrightarrow> CHR ''|'' \<notin> set w" by (rule plain)
  show "plain_text w \<Longrightarrow> CHR ''|'' \<notin> set (json_quote w)"
    using plain [of w] q by (auto simp: json_quote_plain)
qed

lemma calm_texts:
  "zone_ok z \<Longrightarrow> calm (call_text f z)" "path_ok p \<Longrightarrow> calm (source_text src p)" "plain_text w \<Longrightarrow> calm (json_quote w)"
proof -
  have "calm [quote_char]" by (rule calm_flat) code_simp
  then have quoted: "calm ([quote_char] @ w @ [quote_char])" if "plain_text w" for w
    using calm_plain [OF that] by (intro calm_append)
  have name: "calm (timeFunc_name f)" "calm (source_name src)" for f src
    by (cases f; simp add: calm_flat) (cases src; simp add: calm_flat)
  show "zone_ok z \<Longrightarrow> calm (call_text f z)"
    using calm_append [OF name(1) [of f] calm_parens [OF quoted [of z]]] by (simp add: zone_ok_def call_text_def)
  show "path_ok p \<Longrightarrow> calm (source_text src p)"
    using calm_append [OF name(2) [of src] calm_parens [OF quoted [of p]]] by (simp add: path_ok_def source_text_def)
  show "plain_text w \<Longrightarrow> calm (json_quote w)" using quoted [of w] by (simp add: json_quote_plain)
qed

lemma time_op_text: "calm (time_op mode)" "CHR ''|'' \<notin> set (time_op mode)"
  by (simp_all add: time_op_def calm_flat)

lemma calm_spaces: "calm '' ''" "calm '' >= ''" "calm '' < ''" "calm '' || ''" "calm '' == ''" "calm '' != nil''" "calm ''has''" "calm '', ''"
  by (simp_all add: calm_flat)

lemma scalar_text_facts:
  assumes "zone_ok z" "isNumericLiteral v"
  shows "calm (scalar_text f z mode v)" "CHR ''|'' \<notin> set (scalar_text f z mode v)" "trimmed (scalar_text f z mode v)"
proof -
  show "calm (scalar_text f z mode v)" unfolding scalar_text_def
    by (intro calm_append calm_texts calm_spaces time_op_text calm_numeric assms)
  show "CHR ''|'' \<notin> set (scalar_text f z mode v)"
    using bar_free_texts(1,3) assms time_op_text(2) [of mode] by (auto simp: scalar_text_def)
  have "v \<noteq> []" "\<not> space_char (last v)"
    using numeric_number_char [OF assms(2)] by (auto simp: list_all_iff dest: number_char_plain)
  then show "trimmed (scalar_text f z mode v)"
    using call_text_head [of f z] by (auto simp: scalar_text_def trimmed_def)
qed

lemma range_text_facts:
  assumes "zone_ok (tc_timezone c)" "isNumericLiteral (tc_rangeStart c)" "isNumericLiteral (tc_rangeEnd c)"
  shows "calm (range_text '' || '' c)" "trimmed (''('' @ range_text sep c @ '')'')"
proof -
  show "calm (range_text '' || '' c)" unfolding range_text_def
    by (intro calm_append calm_texts calm_spaces calm_numeric assms)
  show "trimmed (''('' @ range_text sep c @ '')'')"
    by (simp add: trimmed_def space_char_def space_unit_def)
qed

lemma literal_facts:
  assumes "value_ok v"
  shows "calm (buildExprLiteral MATCH_EQ v)" "CHR ''|'' \<notin> set (buildExprLiteral MATCH_EQ v)" "trimmed (buildExprLiteral MATCH_EQ v)"
proof -
  have v: "trim v = v" "plain_text v" using assms by (simp_all add: value_ok_def)
  show "calm (buildExprLiteral MATCH_EQ v)"
    using calm_plain [OF v(2)] calm_texts(3) [OF v(2)] v(1) by (simp add: buildExprLiteral_def Let_def)
  show "CHR ''|'' \<notin> set (buildExprLiteral MATCH_EQ v)"
    using bar_free_texts(4,5) [OF v(2)] v(1) by (simp add: buildExprLiteral_def Let_def)
  show "trimmed (buildExprLiteral MATCH_EQ v)"
    using v(1) literal_trimmed [OF assms] numeric_number_char(2) [of v] trimmed_json_quote [of v]
    by (auto simp: buildExprLiteral_def Let_def)
qed

lemma source_text_head: "\<exists>c s. source_text src p = c # s \<and> \<not> space_char c"
  by (cases src) (simp_all add: source_text_def space_char_def space_unit_def)

lemma ph_part_facts:
  assumes "ph_normal c"
  shows "calm (hd (cond_parts (ParamHeaderCond c)))" "CHR ''|'' \<notin> set (hd (cond_parts (ParamHeaderCond c)))"
    "trimmed (hd (cond_parts (ParamHeaderCond c)))"
proof -
  let ?s = "source_text (ph_source c) (ph_path c)" and ?p = "hd (cond_parts (ParamHeaderCond c))"
  have path: "path_ok (ph_path c)" using assms by (simp add: ph_normal_def)
  have s: "calm ?s" "CHR ''|'' \<notin> set ?s" using calm_texts(2) bar_free_texts(2) path by simp_all
  obtain h t where head: "?s = h # t" "\<not> space_char h" using source_text_head by blast
  have quotes: "calm [quote_char, quote_char]" "quote_char \<noteq> CHR ''|''" "\<not> space_char quote_char"
    by (rule calm_flat, code_simp) code_simp+
  from assms consider (ex) "ph_mode c = MATCH_EXISTS" | (eq) "ph_mode c = MATCH_EQ" "value_ok (ph_value c)"
    | (has) "ph_mode c = MATCH_CONTAINS" "ph_source c = SourceHeader" "value_ok (ph_value c)"
    by (auto simp: ph_normal_def)
  then have "calm ?p \<and> CHR ''|'' \<notin> set ?p \<and> trimmed ?p"
  proof cases
    case ex
    have "calm ('' != '' @ [quote_char, quote_char])"
      using quotes(1) by (intro calm_append) (simp_all add: calm_flat)
    then have "calm (?s @ '' != '' @ [quote_char, quote_char])" "calm (?s @ '' != nil'')"
      using s(1) calm_spaces(6) by (blast intro: calm_append)+
    with ex s head quotes show ?thesis by (auto simp: trimmed_def space_char_def space_unit_def)
  next
    case eq
    note lit = literal_facts [OF eq(2)]
    have "calm (?s @ '' == '' @ buildExprLiteral MATCH_EQ (ph_value c))"
      using s(1) lit(1) calm_spaces(5) by (blast intro: calm_append)
    with eq s head lit show ?thesis by (auto simp: match_defs trimmed_def)
  next
    case has
    have v: "plain_text (ph_value c)" using has by (simp add: value_ok_def)
    have "calm (''has'' @ ''('' @ (?s @ '', '' @ json_quote (ph_value c)) @ '')'')"
      using s(1) calm_texts(3) [OF v] calm_spaces(7,8) by (blast intro: calm_append calm_parens)
    with has s bar_free_texts(5) [OF v] show ?thesis
      by (simp add: match_defs trimmed_def space_char_def space_unit_def)
  qed
  then show "calm ?p" "CHR ''|'' \<notin> set ?p" "trimmed ?p" by simp_all
qed

lemma parts_facts:
  assumes "cond_normal c" "p \<in> set (cond_parts c)"
  shows "calm p \<and> trimmed p"
proof (cases c)
  case (TimeCond t)
  with assms have "time_normal t" by simp
  then show ?thesis
  proof (cases rule: time_mode_cases)
    case 1
    with TimeCond assms(2) scalar_text_facts range_text_facts calm_parens show ?thesis
      by (auto simp: Let_def in_range_numeric split: if_splits)
  next
    case 2
    with TimeCond assms(2) scalar_text_facts show ?thesis by (auto simp: Let_def in_range_numeric)
  qed
next
  case (ParamHeaderCond h)
  with assms ph_part_facts [of h] show ?thesis by simp
qed

lemma parts_nonempty [simp]: "cond_parts c \<noteq> []"
  by (cases c) (simp_all add: Let_def)

lemma build_parts:
  assumes "cond_normal c"
  shows "(if contains (buildRequestConditionExpr c) '' || '' then ''('' @ buildRequestConditionExpr c @ '')''
     else buildRequestConditionExpr c) = join '' && '' (cond_parts c)"
proof (cases c)
  case (TimeCond t)
  with assms have t: "time_normal t" by simp
  then show ?thesis
  proof (cases rule: time_mode_cases)
    case 1
    have joined: "join '' && '' [scalar_text (tc_timeFunc t) (tc_timezone t) MATCH_GTE (tc_rangeStart t),
        scalar_text (tc_timeFunc t) (tc_timezone t) MATCH_LT (tc_rangeEnd t)] = range_text '' && '' t"
      by (simp add: scalar_text_def range_text_def time_op_def match_defs)
    have "CHR ''|'' \<notin> set (range_text '' && '' t)"
      using bar_free_texts(1,3) 1 in_range_numeric by (auto simp: range_text_def)
    from no_bar [OF this] joined TimeCond build_time [OF t] 1 range_text_bar [of t] show ?thesis
      by (auto simp: Let_def)
  next
    case 2
    have "CHR ''|'' \<notin> set (scalar_text (tc_timeFunc t) (tc_timezone t) (tc_mode t) (tc_value t))"
      using scalar_text_facts 2 in_range_numeric by blast
    from no_bar [OF this] TimeCond build_time [OF t] 2 show ?thesis by (simp add: Let_def)
  qed
next
  case (ParamHeaderCond h)
  with assms have h: "ph_normal h" by simp
  have "join '' && '' (cond_parts (ParamHeaderCond h)) = hd (cond_parts (ParamHeaderCond h))" by simp
  with ParamHeaderCond build_ph [OF h] no_bar [OF ph_part_facts(2) [OF h]] show ?thesis
    by (simp only: if_False)
qed

lemma join_concat:
  assumes "list_all (\<lambda>ps. ps \<noteq> []) pss"
  shows "join sep (map (join sep) pss) = join sep (concat pss)"
  using assms
proof (induction pss rule: induct_list012)
  case (3 ps qs pss)
  have cat: "join sep (ps @ rs) = join sep ps @ sep @ join sep rs" if "ps \<noteq> []" "rs \<noteq> []" for ps rs
    using that(1)
  proof (induction ps rule: induct_list012)
    case (2 p)
    with that(2) show ?case by (cases rs) simp_all
  qed simp_all
  from 3 have "concat (qs # pss) \<noteq> []" by simp
  with 3 cat [of ps "concat (qs # pss)"] show ?case by simp
qed simp_all

end
