(* ===== verification/Task_Scanning.thy ===== *)
theory Task_Scanning
  imports Task_Expr Billing_Matching
begin

text \<open>
  What the scanners of task expressions do on texts of literals, parentheses and other characters.  The
  four loops share the contract \<open>scanner\<close>, from which it follows once what they pass over.
\<close>

section \<open>What the scanners pass over\<close>

text \<open>A scanner passes over a text when it comes out behind it as it went in, with the text counted in.\<close>

definition skips :: "(int \<Rightarrow> bool \<Rightarrow> bool \<Rightarrow> 'a \<Rightarrow> string \<Rightarrow> 'r) \<Rightarrow> ('a \<Rightarrow> char \<Rightarrow> 'a) \<Rightarrow> int \<Rightarrow> 'a \<Rightarrow> string \<Rightarrow> bool" where
  "skips f step d a w \<longleftrightarrow> (\<forall>s. f d False False a (w @ s) = f d False False (foldl step a w) s)"

lemma skipsD: "skips f step d a w \<Longrightarrow> f d False False a (w @ s) = f d False False (foldl step a w) s"
  by (simp add: skips_def)

lemma skips_append: "skips f step d a u \<Longrightarrow> skips f step d (foldl step a u) v \<Longrightarrow> skips f step d a (u @ v)"
  by (simp add: skips_def)

lemma skips_Nil [simp]: "skips f step d a []"
  by (simp add: skips_def)

text \<open>Texts of single characters that satisfy a condition, of plain string literals and of parenthesised
  texts.\<close>

inductive tame :: "(char \<Rightarrow> bool) \<Rightarrow> string \<Rightarrow> bool" where
  tame_Nil: "tame P []"
| tame_char: "P c \<Longrightarrow> c \<notin> {quote_char, CHR ''('', CHR '')''} \<Longrightarrow> tame P w \<Longrightarrow> tame P (c # w)"
| tame_quoted: "plain_text q \<Longrightarrow> tame P w \<Longrightarrow> tame P (json_quote q @ w)"
| tame_parens: "tame (\<lambda>_. True) v \<Longrightarrow> tame P w \<Longrightarrow> tame P (''('' @ v @ '')'' @ w)"

text \<open>The contract of a scanner: quotes, parentheses, and the characters that make it act.\<close>

locale scanner =
  fixes f :: "int \<Rightarrow> bool \<Rightarrow> bool \<Rightarrow> 'a \<Rightarrow> string \<Rightarrow> 'r" and step :: "'a \<Rightarrow> char \<Rightarrow> 'a" and acts :: "'a \<Rightarrow> char \<Rightarrow> bool"
  assumes quote_opens: "f d False False a (quote_char # s) = f d True False (step a quote_char) s"
    and quote_closes: "f d True False a (quote_char # s) = f d False False (step a quote_char) s"
    and quoted_char: "plain_char c \<Longrightarrow> f d True False a (c # s) = f d True False (step a c) s"
    and paren_opens: "f d False False a (CHR ''('' # s) = f (d + 1) False False (step a CHR ''('') s"
    and paren_closes: "d > 0 \<Longrightarrow> f d False False a (CHR '')'' # s) = f (d - 1) False False (step a CHR '')'') s"
    and passes: "c \<notin> {quote_char, CHR ''('', CHR '')''} \<Longrightarrow> d \<noteq> 0 \<or> \<not> acts a c \<Longrightarrow>
      f d False False a (c # s) = f d False False (step a c) s"
begin

lemma quoted_text: "plain_text q \<Longrightarrow> f d True False a (q @ s) = f d True False (foldl step a q) s"
  by (induction q arbitrary: a) (simp_all add: plain_text_def quoted_char)

lemma skips_quoted: "plain_text q \<Longrightarrow> skips f step d a (json_quote q)"
  unfolding skips_def
  by (simp add: json_quote_plain quote_opens quoted_text quote_closes)

lemma skips_char: "c \<notin> {quote_char, CHR ''('', CHR '')''} \<Longrightarrow> d \<noteq> 0 \<or> \<not> acts a c \<Longrightarrow> skips f step d a [c]"
  by (simp add: skips_def passes)

lemma skips_parens:
  assumes "d \<ge> 0" "skips f step (d + 1) (step a CHR ''('') v"
  shows "skips f step d a (''('' @ v @ '')'')"
  unfolding skips_def using assms by (simp add: paren_opens skipsD [OF assms(2)] paren_closes)

lemma skips_tame:
  assumes "tame P w" "d \<ge> 0" "d > 0 \<or> (\<forall>a c. P c \<longrightarrow> \<not> acts a c)"
  shows "skips f step d a w"
  using assms
proof (induction arbitrary: d a rule: tame.induct)
  case (tame_char P c w)
  then have "d \<noteq> 0 \<or> \<not> acts a c" by auto
  then have "skips f step d a ([c] @ w)" using tame_char by (intro skips_append skips_char) auto
  then show ?case by simp
next
  case (tame_quoted q P w)
  then show ?case by (intro skips_append skips_quoted) auto
next
  case (tame_parens v P w)
  have "skips f step d a ((''('' @ v @ '')'') @ w)"
    using tame_parens by (intro skips_append skips_parens) auto
  then show ?case by simp
qed simp

end

lemma in_quotes_simps [simp]:
  "in_quotes False quote_char = (False, False)" "plain_char c \<Longrightarrow> in_quotes False c = (True, False)"
  using not_plain_char by (auto simp: in_quotes_def backslash_def quote_char_def)

lemma plain_not_special: "plain_char c \<Longrightarrow> c \<noteq> quote_char"
  using not_plain_char by blast

lemma quote_char_neq [simp]:
  "quote_char \<noteq> CHR ''(''" "quote_char \<noteq> CHR '')''" "CHR ''('' \<noteq> quote_char" "CHR '')'' \<noteq> quote_char"
  by code_simp+

interpretation top_scan: scanner "find_top target" "\<lambda>i c. i + 1" "\<lambda>i c. c = target" for target
  by unfold_locales auto

interpretation colon_scan: scanner find_colon "\<lambda>(t, i) c. (t, i + 1)" "\<lambda>ti c. c = CHR ''?'' \<or> c = CHR '':''"
  by unfold_locales (auto split: prod.splits)

interpretation and_scan: scanner split_and "\<lambda>cur c. cur @ [c]" "\<lambda>cur c. c = CHR ''&''"
  by unfold_locales auto

interpretation plus_scan: scanner split_plus "\<lambda>cur c. cur @ [c]" "\<lambda>cur c. c = CHR ''+'' \<and> (cur = [] \<or> last cur \<notin> set ''eE'')"
  by unfold_locales auto

section \<open>Tame texts\<close>

lemma tame_append: "tame P u \<Longrightarrow> tame P v \<Longrightarrow> tame P (u @ v)"
proof (induction rule: tame.induct)
  case (tame_parens v' P w)
  then show ?case using tame.tame_parens [of v' P "w @ v"] by simp
next
  case (tame_quoted q P w)
  then show ?case using tame.tame_quoted [of q P "w @ v"] by simp
qed (auto intro: tame.intros)

lemma tame_flat: "list_all (\<lambda>c. P c \<and> c \<notin> {quote_char, CHR ''('', CHR '')''}) w \<Longrightarrow> tame P w"
  by (induction w) (auto intro: tame.intros)

lemma tame_json: "plain_text q \<Longrightarrow> tame P (json_quote q)"
  using tame_quoted [OF _ tame_Nil] by simp

lemma tame_bracket: "tame (\<lambda>_. True) v \<Longrightarrow> tame P (''('' @ v @ '')'')"
  using tame_parens [OF _ tame_Nil] by simp

lemma tame_weaken: "tame P w \<Longrightarrow> (\<And>c. P c \<Longrightarrow> Q c) \<Longrightarrow> tame Q w"
  by (induction rule: tame.induct) (auto intro: tame.intros simp only:)

lemma tame_number: "list_all number_char w \<Longrightarrow> (\<And>c. number_char c \<Longrightarrow> P c) \<Longrightarrow> tame P w"
  using quote_not_number number_char_plain by (intro tame_flat) (fastforce simp: list_all_iff)

lemma paren_step_plain: "plain_char c \<Longrightarrow> paren_step c = 0" "paren_step quote_char = 0"
  by (auto simp: plain_char_def paren_step_def)

lemma tame_balanced: "tame P w \<Longrightarrow> balanced w"
proof (induction rule: tame.induct)
  case (tame_char P c w)
  then have "balanced [c]" by (intro balanced_flat) (auto simp: paren_step_def)
  with tame_char have "balanced ([c] @ w)" by (intro balanced_append)
  then show ?case by simp
next
  case (tame_quoted q P w)
  then have "balanced (json_quote q)"
    by (intro balanced_flat) (auto simp: json_quote_plain plain_text_def list_all_iff paren_step_plain)
  with tame_quoted show ?case by (intro balanced_append)
next
  case (tame_parens v P w)
  have "balanced ((''('' @ v @ '')'') @ w)" using tame_parens by (intro balanced_append balanced_parens)
  then show ?case by simp
qed (simp add: balanced_def)

section \<open>Steps of the scanners\<close>

lemma quote_CHR: "quote_char = CHR 0x22"
  by code_simp

lemma fold_count: "foldl (\<lambda>i c. i + 1) i w = i + length w"
  by (induction w arbitrary: i) simp_all

lemma fold_colon: "foldl (\<lambda>(t, i) c. (t, i + 1)) (t, i) w = (t, i + length w)"
  by (induction w arbitrary: i) simp_all

lemma fold_cur: "foldl (\<lambda>cur c. cur @ [c]) cur w = cur @ w"
  by (induction w arbitrary: cur) simp_all

lemma find_top_skip: "tame (\<lambda>c. c \<noteq> target) w \<Longrightarrow> find_top target 0 False False i (w @ s) = find_top target 0 False False (i + length w) s"
proof -
  assume "tame (\<lambda>c. c \<noteq> target) w"
  then have "skips (find_top target) (\<lambda>i c. i + 1) 0 i w" by (rule top_scan.skips_tame) auto
  from skipsD [OF this, of s] show ?thesis unfolding fold_count .
qed

lemma find_top_found:
  assumes "tame (\<lambda>c. c \<noteq> target) w" "target \<notin> {quote_char, CHR ''('', CHR '')''}"
  shows "findTaskTopLevelCharacter (w @ target # s) target = Some (length w)"
  using find_top_skip [OF assms(1), of 0 "target # s"] assms(2) by (simp add: findTaskTopLevelCharacter_def)

lemma find_top_absent:
  assumes "tame (\<lambda>c. c \<noteq> target) w"
  shows "findTaskTopLevelCharacter w target = None"
  using find_top_skip [OF assms, of 0 "[]"] by (simp add: findTaskTopLevelCharacter_def)

lemma find_colon_found:
  assumes "tame (\<lambda>c. c \<notin> {CHR ''?'', CHR '':''}) w" "length u = q"
  shows "findTaskTernaryColon (u @ CHR ''?'' # w @ CHR '':'' # s) q = Some (q + 1 + length w)"
proof -
  have "find_colon 0 False False (0, q + 1) (w @ CHR '':'' # s) = find_colon 0 False False (0, q + 1 + length w) (CHR '':'' # s)"
  proof -
    have "skips find_colon (\<lambda>(t, i) c. (t, i + 1)) 0 (0, q + 1) w" using assms(1) by (rule colon_scan.skips_tame) auto
    from skipsD [OF this, of "CHR '':'' # s"] show ?thesis unfolding fold_colon .
  qed
  then show ?thesis using assms(2) by (simp add: findTaskTernaryColon_def quote_CHR)
qed

lemma trim_spaced:
  assumes "trimmed p" "list_all space_char u" "list_all space_char v"
  shows "trim (u @ p @ v) = p"
proof -
  have p: "p \<noteq> []" "\<not> space_char (hd p)" "\<not> space_char (last p)" using assms(1) by (simp_all add: trimmed_def)
  have "dropWhile space_char (u @ p @ v) = p @ v"
    using assms(2) p by (cases p) (simp_all add: dropWhile_append2 list_all_iff)
  moreover have "dropWhile space_char (rev v @ rev p) = rev p"
  proof (cases "rev p")
    case (Cons a r)
    then have "\<not> space_char a" using p by (simp add: last_rev [symmetric] rev_eq_Cons_iff)
    then have "dropWhile space_char (rev v @ a # r) = a # r" using assms(3) by (subst dropWhile_append2) (auto simp: list_all_iff)
    with Cons show ?thesis by simp
  qed (use p in simp)
  ultimately show ?thesis by (simp add: trim_def trim_by_def)
qed

abbreviation blank :: "string \<Rightarrow> bool" where "blank u \<equiv> u = [] \<or> u = '' ''"

lemma trim_blank:
  assumes "trimmed p" "blank u" "blank v"
  shows "trim (u @ p @ v) = p"
  using assms by (intro trim_spaced) (auto simp: space_char_def space_unit_def)

lemma split_and_join:
  assumes "list_all (tame (\<lambda>c. c \<noteq> CHR ''&'')) ps" "list_all trimmed ps" "ps \<noteq> []" "blank u"
  shows "map trim (split_and 0 False False u (join '' && '' ps)) = ps"
  using assms
proof (induction ps arbitrary: u rule: induct_list012)
  case (2 p)
  have "split_and 0 False False u (p @ []) = [u @ p]"
  proof -
    have "skips split_and (\<lambda>cur c. cur @ [c]) 0 u p" using 2 by (intro and_scan.skips_tame) auto
    from skipsD [OF this, of "[]"] show ?thesis unfolding fold_cur by simp
  qed
  moreover have "trim (u @ p @ []) = p" using 2 by (intro trim_blank) auto
  ultimately show ?case by simp
next
  case (3 p q ps)
  have "tame (\<lambda>c. c \<noteq> CHR ''&'') (p @ '' '')" using 3 by (intro tame_append tame_flat [of _ "'' ''"]) (auto simp: quote_CHR)
  then have "split_and 0 False False u ((p @ '' '') @ ''&& '' @ join '' && '' (q # ps)) =
      (u @ p @ '' '') # split_and 0 False False [] ('' '' @ join '' && '' (q # ps))"
  proof -
    assume "tame (\<lambda>c. c \<noteq> CHR ''&'') (p @ '' '')"
    then have "skips split_and (\<lambda>cur c. cur @ [c]) 0 u (p @ '' '')" by (intro and_scan.skips_tame) auto
    from skipsD [OF this] show ?thesis unfolding fold_cur by (simp add: quote_CHR)
  qed
  also have "split_and 0 False False [] ('' '' @ join '' && '' (q # ps)) = split_and 0 False False '' '' (join '' && '' (q # ps))"
    by (simp add: quote_CHR)
  finally have "map trim (split_and 0 False False u ((p @ '' '') @ ''&& '' @ join '' && '' (q # ps))) =
      trim (u @ p @ '' '') # map trim (split_and 0 False False '' '' (join '' && '' (q # ps)))" by simp
  also have "\<dots> = p # q # ps"
    using 3(2) [of "'' ''"] 3(3-) trim_blank [of p u "'' ''"] by simp
  finally show ?case by simp
qed simp

text \<open>A text the splitting at plus signs passes over.\<close>

definition plus_free :: "string \<Rightarrow> bool" where
  "plus_free w \<longleftrightarrow> (\<forall>cur. skips split_plus (\<lambda>cur c. cur @ [c]) 0 cur w)"

lemma plus_free_append: "plus_free u \<Longrightarrow> plus_free v \<Longrightarrow> plus_free (u @ v)"
  by (simp add: plus_free_def skips_append)

lemma plus_free_tame: "tame (\<lambda>c. c \<noteq> CHR ''+'') w \<Longrightarrow> plus_free w"
  unfolding plus_free_def by (intro allI plus_scan.skips_tame) auto

lemma split_plus_join:
  assumes "list_all plus_free ps" "list_all trimmed ps" "ps \<noteq> []" "blank u"
  shows "map trim (split_plus 0 False False u (join '' + '' ps)) = ps"
  using assms
proof (induction ps arbitrary: u rule: induct_list012)
  case (2 p)
  have "split_plus 0 False False u (p @ []) = split_plus 0 False False (u @ p) []"
  proof -
    have "skips split_plus (\<lambda>cur c. cur @ [c]) 0 u p" using 2 by (simp add: plus_free_def)
    from skipsD [OF this, of "[]"] show ?thesis unfolding fold_cur .
  qed
  moreover have "trim (u @ p @ []) = p" using 2 by (intro trim_blank) auto
  ultimately show ?case by simp
next
  case (3 p q ps)
  have "plus_free (p @ '' '')" using 3 by (intro plus_free_append plus_free_tame [OF tame_flat [of _ "'' ''"]]) (auto simp: quote_CHR)
  then have "split_plus 0 False False u ((p @ '' '') @ ''+ '' @ join '' + '' (q # ps)) = split_plus 0 False False (u @ p @ '' '') (''+ '' @ join '' + '' (q # ps))"
  proof -
    assume "plus_free (p @ '' '')"
    then have "skips split_plus (\<lambda>cur c. cur @ [c]) 0 u (p @ '' '')" by (simp only: plus_free_def)
    from skipsD [OF this] show ?thesis unfolding fold_cur by simp
  qed
  also have "\<dots> = (u @ p @ '' '') # split_plus 0 False False '' '' (join '' + '' (q # ps))"
    by (simp add: quote_CHR)
  finally have "map trim (split_plus 0 False False u ((p @ '' '') @ ''+ '' @ join '' + '' (q # ps))) =
      trim (u @ p @ '' '') # map trim (split_plus 0 False False '' '' (join '' + '' (q # ps)))" by simp
  also have "\<dots> = p # q # ps"
    using 3(2) [of "'' ''"] 3(3-) trim_blank [of p u "'' ''"] by simp
  finally show ?case by simp
qed simp

end
