(* ===== verification/Task_Roundtrip.thy ===== *)
theory Task_Roundtrip
  imports Task_Scanning
begin

text \<open>
  The generated text of a task price is read back: its numbers, conditions, terms and tiers, a chain of
  tiers, and what normalizing leaves of a configuration.
\<close>

section \<open>Numbers in terms\<close>

text \<open>In a numeric literal a plus sign follows the \<open>e\<close> of an exponent.\<close>

definition plus_after_e :: "string \<Rightarrow> bool" where
  "plus_after_e w \<longleftrightarrow> (\<forall>u v. w = u @ CHR ''+'' # v \<longrightarrow> u \<noteq> [] \<and> last u \<in> set ''eE'')"

lemma plus_after_e_free:
  assumes "plus_after_e w" "list_all number_char w"
  shows "plus_free w"
  using assms
proof (induction w rule: rev_induct)
  case (snoc c w)
  have pre: "plus_after_e w" using snoc.prems(1) by (auto simp: plus_after_e_def)
  have c: "c \<notin> {quote_char, CHR ''('', CHR '')''}" using snoc.prems(2) number_char_plain quote_not_number by fastforce
  have "c = CHR ''+'' \<Longrightarrow> w \<noteq> [] \<and> last w \<in> set ''eE''" using snoc.prems(1) by (auto simp: plus_after_e_def)
  then have "skips split_plus (\<lambda>cur c. cur @ [c]) 0 (cur @ w) [c]" for cur
    using c by (intro plus_scan.skips_char) (auto simp: last_append)
  then show ?case using snoc pre by (auto simp: plus_free_def fold_cur intro!: skips_append)
qed (simp add: plus_free_def)

lemma digits_no_plus: "all_digits s \<Longrightarrow> CHR ''+'' \<notin> set s"
  by (auto simp: all_digits_def list_all_iff is_digit_def char_digit_def)

lemma mantissa_no_plus: "mantissa_ok s \<Longrightarrow> CHR ''+'' \<notin> set s"
proof -
  assume ok: "mantissa_ok s"
  have "CHR ''+'' \<notin> set (takeWhile is_digit s)" by (auto dest!: set_takeWhileD simp: is_digit_def char_digit_def)
  moreover have "CHR ''+'' \<notin> set (dropWhile is_digit s)"
  proof (cases "dropWhile is_digit s")
    case (Cons c r)
    then have "c = CHR ''.''" "all_digits r" using ok by (simp_all add: mantissa_ok_def)
    then show ?thesis unfolding Cons using digits_no_plus by auto
  next
    case Nil
    show ?thesis unfolding Nil by simp
  qed
  ultimately show ?thesis by (metis Un_iff set_append takeWhile_dropWhile_id)
qed

lemma exponent_plus:
  assumes "exponent_ok x" "x = [] \<or> hd x \<in> set ''eE''"
  shows "plus_after_e x"
  unfolding plus_after_e_def
proof (intro allI impI)
  fix u v assume x: "x = u @ CHR ''+'' # v"
  then have "x \<noteq> []" by simp
  then obtain e r where er: "x = e # r" "e \<in> set ''eE''" using assms(2) by (metis list.collapse)
  with x obtain u' where u: "u = e # u'" "r = u' @ CHR ''+'' # v" by (cases u) auto
  have "u' = []"
  proof (rule ccontr)
    assume "u' \<noteq> []"
    then obtain c u'' where c: "u' = c # u''" by (cases u') auto
    with assms(1) er(1) u(2) have "all_digits (u'' @ CHR ''+'' # v)"
      by (auto simp: exponent_ok_def Let_def all_digits_def split: if_splits)
    then show False using digits_no_plus by fastforce
  qed
  with u er(2) show "u \<noteq> [] \<and> last u \<in> set ''eE''" by simp
qed

lemma plus_after_e_append:
  assumes "CHR ''+'' \<notin> set m" "plus_after_e x"
  shows "plus_after_e (m @ x)"
  unfolding plus_after_e_def
proof (intro allI impI)
  fix u v assume "m @ x = u @ CHR ''+'' # v"
  with assms(1) obtain u' where u: "u = m @ u'" "x = u' @ CHR ''+'' # v" by (auto simp: append_eq_append_conv2 append_eq_Cons_conv)
  with assms(2) have "u' \<noteq> [] \<and> last u' \<in> set ''eE''" by (simp add: plus_after_e_def)
  with u(1) show "u \<noteq> [] \<and> last u \<in> set ''eE''" by auto
qed

lemma numeric_plus:
  assumes "isNumericLiteral w"
  shows "plus_free w"
proof (rule plus_after_e_free)
  show "list_all number_char w" using numeric_number_char(1) [OF assms] .
  define s where "s = (case w of c # r \<Rightarrow> if c = CHR ''-'' then r else w | [] \<Rightarrow> w)"
  let ?no_e = "\<lambda>c. c \<notin> set ''eE''"
  have ok: "mantissa_ok (takeWhile ?no_e s)" "exponent_ok (dropWhile ?no_e s)"
    using assms by (simp_all add: isNumericLiteral_def Let_def s_def)
  have "dropWhile ?no_e s = [] \<or> hd (dropWhile ?no_e s) \<in> set ''eE''" using hd_dropWhile [of ?no_e s] by blast
  then have s: "plus_after_e s"
    using plus_after_e_append [OF mantissa_no_plus [OF ok(1)] exponent_plus [OF ok(2)]] by simp
  show "plus_after_e w"
  proof (cases "w = s")
    case False
    then have "w = ''-'' @ s" by (auto simp: s_def split: list.splits if_splits)
    then show ?thesis using plus_after_e_append [OF _ s, of "''-''"] by simp
  qed (use s in simp)
qed

section \<open>Conditions\<close>

text \<open>The texts a price may hold: plain ones without an asterisk.\<close>

definition task_text :: "string \<Rightarrow> bool" where
  "task_text s \<longleftrightarrow> plain_text s \<and> CHR ''*'' \<notin> set s"

definition condition_text :: "TaskVisualCondition \<Rightarrow> string" where
  "condition_text c = ''u('' @ json_quote (vc_field c) @ '') == '' @ json_quote (vc_value c)"

definition condition_plain :: "TaskVisualCondition \<Rightarrow> bool" where
  "condition_plain c \<longleftrightarrow> task_text (vc_field c) \<and> task_text (vc_value c)"

lemma quote_not_space: "\<not> space_char quote_char"
  by code_simp

lemma skip_quoted: "plain_text q \<Longrightarrow> skip_spaces (json_quote q @ r) = json_quote q @ r"
  by (simp add: json_quote_plain quote_not_space)

lemma literal_read: "plain_text q \<Longrightarrow> quoted_literal (json_quote q @ r) = Some (json_quote q, r)"
  by (simp add: json_quote_plain quoted_literal_plain)

lemma usage_call_text:
  assumes "plain_text q" "r = [] \<or> hd r = CHR '' ''"
  shows "usage_call (''u('' @ json_quote q @ '')'' @ r) = Some (json_quote q, skip_spaces r)"
  using assms(1) skip_quoted [of q "'')'' @ r"] literal_read [of q "'')'' @ r"]
  by (simp add: usage_call_def space_char_def space_unit_def)

lemma condition_parsed:
  assumes "condition_plain c" "json_law parse" "map_of schema (vc_field c) = Some d" "vc_value c \<in> set (enum_values d)"
  shows "parse_condition parse schema (condition_text c) = Some c"
proof -
  have q: "plain_text (vc_field c)" "plain_text (vc_value c)" using assms(1) by (simp_all add: condition_plain_def task_text_def)
  have "condition_match (condition_text c) = Some (json_quote (vc_field c), json_quote (vc_value c))"
    using usage_call_text [OF q(1), of "'' == '' @ json_quote (vc_value c)"] skip_quoted [OF q(2), of "[]"] literal_read [OF q(2), of "[]"]
    by (simp add: condition_match_def condition_text_def space_char_def space_unit_def)
  then show ?thesis
    using assms(2-4) q by (simp add: parse_condition_def parse_string_def json_law_def)
qed

lemma conditions_parsed:
  assumes "list_all condition_plain cs" "json_law parse"
    and "list_all (\<lambda>c. \<exists>d. map_of schema (vc_field c) = Some d \<and> vc_value c \<in> set (enum_values d)) cs"
  shows "parse_conditions parse schema (map condition_text cs) = Some cs"
  using assms(1,3) by (induction cs) (auto simp: condition_parsed [OF _ assms(2)])

lemma condition_tame: "condition_plain c \<Longrightarrow> P CHR ''u'' \<Longrightarrow> P CHR '' '' \<Longrightarrow> P CHR ''='' \<Longrightarrow> tame P (condition_text c)"
proof -
  assume c: "condition_plain c" and P: "P CHR ''u''" "P CHR '' ''" "P CHR ''=''"
  have "tame P (''u'' @ (''('' @ json_quote (vc_field c) @ '')'') @ '' == '' @ json_quote (vc_value c))"
    using c P by (intro tame_append tame_bracket tame_json tame_flat [of _ "''u''"] tame_flat [of _ "'' == ''"])
      (simp_all add: condition_plain_def task_text_def quote_CHR)
  then show ?thesis by (simp add: condition_text_def)
qed

lemma condition_trimmed: "trimmed (condition_text c)"
  by (simp add: condition_text_def trimmed_def json_quote_def space_char_def space_unit_def quote_CHR)

lemma task_conditions_parsed:
  assumes "list_all condition_plain cs" "json_law parse" "cs \<noteq> []"
    and "list_all (\<lambda>c. \<exists>d. map_of schema (vc_field c) = Some d \<and> vc_value c \<in> set (enum_values d)) cs"
  shows "parseTaskConditions parse (generateTaskCondition cs) schema = Some cs"
proof -
  let ?ps = "map condition_text cs"
  have gen: "generateTaskCondition cs = join '' && '' ?ps" by (simp add: generateTaskCondition_def condition_text_def [abs_def])
  have "list_all (tame (\<lambda>c. c \<noteq> CHR ''&'')) ?ps" "list_all trimmed ?ps"
    using assms(1) by (auto simp: list_all_iff condition_trimmed intro!: condition_tame)
  then have "map trim (split_and 0 False False [] (join '' && '' ?ps)) = ?ps" using assms(3) by (intro split_and_join) auto
  moreover have "filter (\<lambda>p. p \<noteq> []) ?ps = ?ps" by (auto simp: filter_id_conv condition_text_def)
  ultimately have "splitTaskTopLevelAnd (generateTaskCondition cs) = ?ps" by (simp add: splitTaskTopLevelAnd_def gen)
  then show ?thesis using conditions_parsed [OF assms(1,2,4)] assms(3) by (cases cs) (simp_all add: parseTaskConditions_def)
qed

section \<open>Terms\<close>

definition field_plain :: "string \<times> BillingUsageFieldSchema \<Rightarrow> bool" where
  "field_plain fd \<longleftrightarrow> task_text (fst fd) \<and> fst fd \<notin> set inherited_members"

definition price_of :: "(string \<times> number) list \<Rightarrow> string \<Rightarrow> number" where
  "price_of prices f = nullish (map_of prices f) 0"

definition price_text :: "(number \<Rightarrow> string) \<Rightarrow> string \<times> BillingUsageFieldSchema \<Rightarrow> number \<Rightarrow> string" where
  "price_text show_number fd x =
    ''u('' @ json_quote (fst fd) @ '') * '' @ show_number x @ (if fs_unit (snd fd) = Some UnitToken then '' / 1000000'' else [])"

lemma price_term_text: "price_term show_number prices fd = price_text show_number fd (price_of prices (fst fd))"
  by (simp add: price_term_def price_text_def price_of_def)

lemma number_read:
  assumes "isNumericLiteral w" "r = [] \<or> hd r = CHR '' ''"
  shows "takeWhile number_char (w @ r) = w" "dropWhile number_char (w @ r) = r" "skip_spaces (w @ r) = w @ r"
proof -
  note w = numeric_number_char [OF assms(1)]
  have "r = [] \<or> \<not> number_char (hd r)" using assms(2) by (auto simp: number_char_def is_digit_def char_digit_def)
  from span1_append [OF w this] w(2) show "takeWhile number_char (w @ r) = w" "dropWhile number_char (w @ r) = r"
    by (simp_all add: span1_def split: if_splits)
  obtain c v where c: "w = c # v" using w(2) by (cases w) auto
  with w(1) number_char_plain have "\<not> space_char c" by simp
  with c show "skip_spaces (w @ r) = w @ r" by simp
qed

lemma price_matched:
  assumes "task_text (fst fd)" "isNumericLiteral (show_number x)"
  shows "price_match (price_text show_number fd x) = Some (json_quote (fst fd), show_number x, fs_unit (snd fd) = Some UnitToken)"
proof -
  let ?r = "if fs_unit (snd fd) = Some UnitToken then '' / 1000000'' else []"
  have "usage_call (price_text show_number fd x) = Some (json_quote (fst fd), ''* '' @ show_number x @ ?r)"
    using usage_call_text [of "fst fd" "'' * '' @ show_number x @ ?r"] assms(1)
    by (simp add: price_text_def task_text_def space_char_def space_unit_def)
  moreover have "skip_spaces ('' '' @ show_number x @ ?r) = show_number x @ ?r"
    using number_read(3) [OF assms(2), of ?r] by (simp add: space_char_def space_unit_def)
  ultimately show ?thesis
    using number_read(1,2) [OF assms(2), of ?r] assms(2)
    by (simp add: price_match_def Let_def space_char_def space_unit_def)
qed

lemma price_not_numeric: "\<not> isNumericLiteral (price_text show_number fd x)"
proof
  assume "isNumericLiteral (price_text show_number fd x)"
  from numeric_number_char(1) [OF this] have "number_char (CHR ''u'')" by (simp add: price_text_def)
  then show False by (simp add: number_char_def is_digit_def char_digit_def)
qed

lemma price_parsed:
  assumes "field_plain (f, d)" "json_law parse" "number_law show_number x" "x \<ge> 0"
    and "map_of schema f = Some d" "fs_type d = Some NumberField" "fs_unit d \<noteq> None" "f \<notin> fst ` set (pt_unitPrices st)"
  shows "parse_term parse schema st (price_text show_number (f, d) x) = Some (st\<lparr>pt_unitPrices := pt_unitPrices st @ [(f, x)]\<rparr>)"
  using assms price_matched [of "(f, d)" show_number x] price_not_numeric
  by (auto simp: parse_term_def field_plain_def number_law_def parse_string_def json_law_def task_text_def)

lemma prices_parsed:
  assumes "json_law parse" "\<And>f. number_law show_number (price_of prices f)" "list_all field_plain nf" "\<And>f. price_of prices f \<ge> 0"
    and "list_all (\<lambda>(f, d). map_of schema f = Some d \<and> fs_type d = Some NumberField \<and> fs_unit d \<noteq> None) nf"
    and "distinct (map fst (pt_unitPrices st) @ map fst nf)"
  shows "parse_terms parse schema st (map (price_term show_number prices) nf) =
    Some (st\<lparr>pt_unitPrices := pt_unitPrices st @ map (\<lambda>(f, d). (f, price_of prices f)) nf\<rparr>)"
  using assms(3,5,6)
proof (induction nf arbitrary: st)
  case (Cons fd nf)
  obtain f d where fd: "fd = (f, d)" by (cases fd)
  let ?st = "st\<lparr>pt_unitPrices := pt_unitPrices st @ [(f, price_of prices f)]\<rparr>"
  have "f \<notin> fst ` set (pt_unitPrices st)" using Cons.prems(3) fd by auto
  then have "parse_term parse schema st (price_term show_number prices fd) = Some ?st"
    using Cons.prems(1,2) fd assms(4) by (simp add: price_term_text price_parsed [OF _ assms(1,2)])
  moreover have "parse_terms parse schema ?st (map (price_term show_number prices) nf) =
      Some (?st\<lparr>pt_unitPrices := pt_unitPrices ?st @ map (\<lambda>(f, d). (f, price_of prices f)) nf\<rparr>)"
    by (rule Cons.IH) (use Cons.prems fd in auto)
  ultimately show ?case by (simp add: fd)
qed simp

definition tier_terms :: "(number \<Rightarrow> string) \<Rightarrow> BillingUsageSchema \<Rightarrow> TaskVisualTier \<Rightarrow> string list" where
  "tier_terms show_number nf tier =
    (if vt_constant tier > 0 then [show_number (vt_constant tier)] else []) @ map (price_term show_number (vt_unitPrices tier)) nf"

text \<open>Tiers in normal form for the number fields.\<close>

definition tier_normal :: "BillingUsageSchema \<Rightarrow> TaskVisualTier \<Rightarrow> bool" where
  "tier_normal nf tier \<longleftrightarrow> vt_constant tier \<ge> 0 \<and> list_all (\<lambda>fx. snd fx \<ge> 0) (vt_unitPrices tier) \<and>
    vt_unitPrices tier = map (\<lambda>(f, d). (f, price_of (vt_unitPrices tier) f)) nf"

definition fields_ok :: "BillingUsageSchema \<Rightarrow> BillingUsageSchema \<Rightarrow> bool" where
  "fields_ok schema nf \<longleftrightarrow> distinct (map fst nf) \<and> list_all field_plain nf \<and>
    list_all (\<lambda>(f, d). map_of schema f = Some d \<and> fs_type d = Some NumberField \<and> fs_unit d \<noteq> None) nf"

lemma price_nonneg: "list_all (\<lambda>fx. snd fx \<ge> 0) prices \<Longrightarrow> price_of prices f \<ge> 0"
  by (auto simp: price_of_def nullish_def list_all_iff split: option.splits dest!: map_of_SomeD)

text \<open>The law for the numbers of a tier.\<close>

definition tier_law :: "(number \<Rightarrow> string) \<Rightarrow> TaskVisualTier \<Rightarrow> bool" where
  "tier_law show_number tier \<longleftrightarrow> list_all (number_law show_number) (0 # vt_constant tier # map snd (vt_unitPrices tier))"

lemma price_law: "tier_law show_number tier \<Longrightarrow> number_law show_number (price_of (vt_unitPrices tier) f)"
  by (auto simp: tier_law_def price_of_def nullish_def list_all_iff split: option.splits dest!: map_of_SomeD)

lemma constant_law: "tier_law show_number tier \<Longrightarrow> number_law show_number (vt_constant tier)"
  by (simp add: tier_law_def)

lemma terms_parsed:
  assumes "json_law parse" "tier_law show_number tier" "fields_ok schema nf" "tier_normal nf tier"
  shows "parse_terms parse schema \<lparr>pt_unitPrices = [], pt_constant = 0, pt_hasConstant = False\<rparr> (tier_terms show_number nf tier) =
    Some \<lparr>pt_unitPrices = vt_unitPrices tier, pt_constant = vt_constant tier, pt_hasConstant = vt_constant tier > 0\<rparr>"
proof -
  have pos: "price_of (vt_unitPrices tier) f \<ge> 0" for f using assms(4) by (intro price_nonneg) (simp add: tier_normal_def)
  have up: "map (\<lambda>(f, d). (f, price_of (vt_unitPrices tier) f)) nf = vt_unitPrices tier" using assms(4) by (simp add: tier_normal_def)
  have run: "pt_unitPrices st = [] \<Longrightarrow> parse_terms parse schema st (map (price_term show_number (vt_unitPrices tier)) nf) =
      Some (st\<lparr>pt_unitPrices := vt_unitPrices tier\<rparr>)" for st
    using prices_parsed [OF assms(1) price_law [OF assms(2)], where nf = nf and schema = schema and st = st] pos assms(3) up by (simp add: fields_ok_def)
  show ?thesis
  proof (cases "vt_constant tier > 0")
    case True
    then have "isNumericLiteral (show_number (vt_constant tier))" "literal_number (show_number (vt_constant tier)) = vt_constant tier"
      using constant_law [OF assms(2)] by (simp_all add: number_law_def)
    with True run show ?thesis by (simp add: tier_terms_def parse_term_def)
  next
    case False
    then have "vt_constant tier = 0" using assms(4) by (simp add: tier_normal_def)
    with run show ?thesis by (simp add: tier_terms_def)
  qed
qed

section \<open>Tiers\<close>

lemma price_plus_free:
  assumes "task_text (fst fd)" "isNumericLiteral (show_number x)"
  shows "plus_free (price_text show_number fd x)" "trimmed (price_text show_number fd x)"
proof -
  have "plus_free ((''u'' @ (''('' @ json_quote (fst fd) @ '')'') @ '' * '') @ show_number x @ (if fs_unit (snd fd) = Some UnitToken then '' / 1000000'' else []))"
    using assms by (intro plus_free_append plus_free_tame numeric_plus tame_append tame_bracket tame_json
        tame_flat [of _ "''u''"] tame_flat [of _ "'' * ''"] tame_flat [of _ "if _ then _ else _"])
      (simp_all add: task_text_def quote_CHR)
  then show "plus_free (price_text show_number fd x)" by (simp add: price_text_def)
  have "\<not> space_char (last (show_number x))" "show_number x \<noteq> []"
    using numeric_number_char [OF assms(2)] number_char_plain by (auto simp: list_all_iff)
  then show "trimmed (price_text show_number fd x)"
    by (simp add: price_text_def trimmed_def space_char_def space_unit_def)
qed

lemma number_plus_free:
  assumes "isNumericLiteral w"
  shows "plus_free w" "trimmed w"
  using numeric_plus [OF assms] numeric_number_char [OF assms] number_char_plain
  by (auto simp: trimmed_def list_all_iff)

lemma terms_split:
  assumes "tier_law show_number tier" "fields_ok schema nf" "tier_normal nf tier" "nf \<noteq> []"
  shows "splitTaskTopLevelPlus ('' '' @ join '' + '' (tier_terms show_number nf tier)) = tier_terms show_number nf tier"
proof -
  let ?ts = "tier_terms show_number nf tier"
  have num: "isNumericLiteral (show_number (price_of (vt_unitPrices tier) f))" for f
    using price_law [OF assms(1)] by (simp add: number_law_def)
  have "plus_free t \<and> trimmed t" if "t \<in> set ?ts" for t
  proof (cases "t = show_number (vt_constant tier) \<and> vt_constant tier > 0")
    case True
    then have "isNumericLiteral t" using constant_law [OF assms(1)] by (simp add: number_law_def)
    then show ?thesis using number_plus_free by blast
  next
    case False
    with that obtain fd where "fd \<in> set nf" "t = price_text show_number fd (price_of (vt_unitPrices tier) (fst fd))"
      by (auto simp: tier_terms_def price_term_text split: if_splits)
    with price_plus_free [of fd show_number] num assms(2) show ?thesis
      by (auto simp: fields_ok_def list_all_iff field_plain_def)
  qed
  then have ok: "list_all plus_free ?ts" "list_all trimmed ?ts" by (simp_all add: list_all_iff)
  have "?ts \<noteq> []" using assms(4) by (simp add: tier_terms_def)
  with ok have "map trim (split_plus 0 False False '' '' (join '' + '' ?ts)) = ?ts" by (intro split_plus_join) auto
  moreover have "split_plus 0 False False [] ('' '' @ join '' + '' ?ts) = split_plus 0 False False '' '' (join '' + '' ?ts)"
    by (simp add: quote_CHR)
  moreover have "filter (\<lambda>p. p \<noteq> []) ?ts = ?ts" using ok(2) by (auto simp: filter_id_conv list_all_iff trimmed_def)
  ultimately show ?thesis by (simp only: splitTaskTopLevelPlus_def)
qed

lemma call_text:
  "generateTaskTierCall show_number tier nf = ''tier('' @ json_quote (vt_label tier) @ '', '' @ join '' + '' (tier_terms show_number nf tier) @ '')''"
  by (simp add: generateTaskTierCall_def generateTaskTierBody_def tier_terms_def)

lemma call_parsed:
  assumes "json_law parse" "tier_law show_number tier" "fields_ok schema nf" "tier_normal nf tier" "nf \<noteq> []" "task_text (vt_label tier)"
  shows "parseTaskTierCall parse (generateTaskTierCall show_number tier nf) (vt_conditions tier) schema = Some tier"
proof -
  let ?call = "generateTaskTierCall show_number tier nf" and ?q = "json_quote (vt_label tier)"
  let ?rest = "'' '' @ join '' + '' (tier_terms show_number nf tier)"
  have "trimmed ?call" by (simp add: call_text trimmed_def space_char_def space_unit_def)
  then have trim: "trim ?call = ?call" by (rule trim_trimmed)
  have inner: "butlast (drop 5 ?call) = ?q @ CHR '','' # ?rest" by (simp add: call_text butlast_append)
  have plain: "plain_text (vt_label tier)" using assms(6) by (simp add: task_text_def)
  have comma: "findTaskTopLevelCharacter (?q @ CHR '','' # ?rest) (CHR '','') = Some (length ?q)"
    using find_top_found [OF tame_json [OF plain], of "CHR '',''"] by (simp add: quote_CHR)
  have "prefix ''tier('' ?call" "suffix '')'' ?call" by (simp_all add: call_text suffix_def)
  moreover have "parse_string parse (trim ?q) = Some (vt_label tier)"
    using assms(1) plain trim_trimmed [OF trimmed_json_quote] by (simp add: parse_string_def json_law_def)
  moreover have "vt_unitPrices tier \<noteq> []" using assms(4,5) by (auto simp: tier_normal_def)
  ultimately show ?thesis
    using terms_split [OF assms(2-5)] terms_parsed [OF assms(1-4)] comma
    by (simp add: parseTaskTierCall_def Let_def trim inner del: append_Cons)
qed

section \<open>Chains of tiers\<close>

lemma tame_join: "tame P sep \<Longrightarrow> list_all (tame P) ps \<Longrightarrow> tame P (join sep ps)"
  by (induction ps rule: induct_list012) (auto intro: tame_append tame_Nil)

lemma term_tame:
  assumes "tier_law show_number tier" "fields_ok schema nf" "t \<in> set (tier_terms show_number nf tier)"
  shows "tame (\<lambda>_. True) t"
proof (cases "t = show_number (vt_constant tier)")
  case True
  then have "isNumericLiteral t" using constant_law [OF assms(1)] by (simp add: number_law_def)
  then show ?thesis by (intro tame_number numeric_number_char) auto
next
  case False
  with assms(3) obtain fd where fd: "fd \<in> set nf" "t = price_text show_number fd (price_of (vt_unitPrices tier) (fst fd))"
    by (auto simp: tier_terms_def price_term_text split: if_splits)
  have "tame (\<lambda>_. True) (show_number (price_of (vt_unitPrices tier) (fst fd)))"
    using price_law [OF assms(1)] by (intro tame_number numeric_number_char) (auto simp: number_law_def)
  then have "tame (\<lambda>_. True) ((''u'' @ (''('' @ json_quote (fst fd) @ '')'') @ '' * '') @
      show_number (price_of (vt_unitPrices tier) (fst fd)) @ (if fs_unit (snd fd) = Some UnitToken then '' / 1000000'' else []))"
    using fd(1) assms(2) by (intro tame_append tame_bracket tame_json tame_flat [of _ "''u''"] tame_flat [of _ "'' * ''"]
        tame_flat [of _ "if _ then _ else _"])
      (auto simp: fields_ok_def list_all_iff field_plain_def task_text_def quote_CHR)
  then show ?thesis by (simp add: fd(2) price_text_def)
qed

lemma call_tame:
  assumes "tier_law show_number tier" "fields_ok schema nf" "task_text (vt_label tier)"
  obtains v where "generateTaskTierCall show_number tier nf = ''tier'' @ (''('' @ v @ '')'')" "tame (\<lambda>_. True) v"
proof
  show "generateTaskTierCall show_number tier nf = ''tier'' @ (''('' @ (json_quote (vt_label tier) @ '', '' @ join '' + '' (tier_terms show_number nf tier)) @ '')'')"
    by (simp add: call_text)
  show "tame (\<lambda>_. True) (json_quote (vt_label tier) @ '', '' @ join '' + '' (tier_terms show_number nf tier))"
    using assms term_tame [OF assms(1,2)]
    by (intro tame_append tame_json tame_join tame_flat [of _ "'', ''"] tame_flat [of _ "'' + ''"])
      (simp_all add: task_text_def quote_CHR list_all_iff)
qed

text \<open>What a tier of a readable configuration is, and how the tiers follow each other.\<close>

definition condition_ok :: "BillingUsageSchema \<Rightarrow> TaskVisualCondition \<Rightarrow> bool" where
  "condition_ok schema c \<longleftrightarrow> condition_plain c \<and>
    (case map_of schema (vc_field c) of None \<Rightarrow> False | Some d \<Rightarrow> vc_value c \<in> set (enum_values d))"

definition tier_ok :: "(number \<Rightarrow> string) \<Rightarrow> BillingUsageSchema \<Rightarrow> BillingUsageSchema \<Rightarrow> TaskVisualTier \<Rightarrow> bool" where
  "tier_ok show_number schema nf tier \<longleftrightarrow> tier_law show_number tier \<and> tier_normal nf tier \<and> task_text (vt_label tier) \<and>
    list_all (condition_ok schema) (vt_conditions tier)"

fun chained :: "TaskVisualTier list \<Rightarrow> bool" where
  "chained [] = False"
| "chained [tier] = (vt_conditions tier = [])"
| "chained (tier # tier' # tiers) = (vt_conditions tier \<noteq> [] \<and> chained (tier' # tiers))"

fun chain_text :: "(number \<Rightarrow> string) \<Rightarrow> BillingUsageSchema \<Rightarrow> TaskVisualTier list \<Rightarrow> string" where
  "chain_text show_number nf [] = []"
| "chain_text show_number nf [tier] = generateTaskTierCall show_number tier nf"
| "chain_text show_number nf (tier # tier' # tiers) =
    (generateTaskCondition (vt_conditions tier) @ '' '') @ CHR ''?'' # ('' '' @ generateTaskTierCall show_number tier nf @ '' '') @
      CHR '':'' # ('' '' @ chain_text show_number nf (tier' # tiers))"

lemma condition_ok_plain: "list_all (condition_ok schema) cs \<Longrightarrow> list_all condition_plain cs"
  by (auto simp: list_all_iff condition_ok_def)

lemma hd_condition: "cs \<noteq> [] \<Longrightarrow> trimmed (generateTaskCondition cs)"
proof -
  assume "cs \<noteq> []"
  have "trimmed (join '' && '' (map condition_text cs))" using \<open>cs \<noteq> []\<close>
  proof (induction cs rule: induct_list012)
    case (3 c c' cs)
    then show ?case using condition_trimmed [of c] by (auto simp: trimmed_def)
  qed (simp_all add: condition_trimmed)
  then show ?thesis by (simp add: generateTaskCondition_def condition_text_def [abs_def])
qed

lemma condition_nonempty: "cs \<noteq> [] \<Longrightarrow> generateTaskCondition cs \<noteq> []"
  using hd_condition by (simp add: trimmed_def)

text \<open>The parts of a text around two characters.\<close>

lemma text_slices:
  assumes "x = u @ a # w @ b # r"
  shows "take (length u) x = u" "drop (length u + 1) (take (length u + 1 + length w) x) = w" "drop (length u + 1 + length w + 1) x = r"
  using assms by (simp_all add: take_Cons' drop_Cons')

lemma chain_generated: "chained ts \<Longrightarrow> map_option (join '' : '') (generate_parts show_number nf ts) = Some (chain_text show_number nf ts)"
proof (induction ts rule: induct_list012)
  case (3 t t' ts)
  then obtain ps where ps: "generate_parts show_number nf (t' # ts) = Some ps" "join '' : '' ps = chain_text show_number nf (t' # ts)"
    by auto
  have "ps \<noteq> []" using ps(1) by (cases ts) (auto split: if_splits)
  with 3 ps condition_nonempty show ?case by (cases ps) auto
qed simp_all

lemma call_trimmed: "trimmed (generateTaskTierCall show_number tier nf)"
  by (simp add: call_text trimmed_def space_char_def space_unit_def)

lemma chain_trimmed: "chained ts \<Longrightarrow> trimmed (chain_text show_number nf ts)"
proof (induction ts rule: induct_list012)
  case (3 t t' ts)
  then show ?case using hd_condition [of "vt_conditions t"] by (auto simp: trimmed_def)
qed (simp_all add: call_trimmed)

lemma condition_list_tame:
  assumes "list_all condition_plain cs" "P CHR ''u''" "P CHR '' ''" "P CHR ''=''" "P CHR ''&''"
  shows "tame P (generateTaskCondition cs)"
proof -
  have "tame P (join '' && '' (map condition_text cs))"
    using assms by (intro tame_join tame_flat [of _ "'' && ''"]) (auto simp: list_all_iff quote_CHR intro: condition_tame)
  then show ?thesis by (simp add: generateTaskCondition_def condition_text_def [abs_def])
qed

lemma chain_parsed:
  assumes "json_law parse" "fields_ok schema nf" "nf \<noteq> []" "list_all (tier_ok show_number schema nf) ts" "chained ts"
  shows "parse_tiers parse schema (chain_text show_number nf ts) = Some ts"
  using assms(4,5)
proof (induction ts rule: induct_list012)
  case (2 t)
  then have t: "tier_law show_number t" "tier_normal nf t" "task_text (vt_label t)" "vt_conditions t = []"
    by (simp_all add: tier_ok_def)
  obtain v where v: "generateTaskTierCall show_number t nf = ''tier'' @ (''('' @ v @ '')'')" "tame (\<lambda>_. True) v"
    using call_tame [OF t(1) assms(2) t(3)] .
  have "findTaskTopLevelCharacter (generateTaskTierCall show_number t nf) CHR ''?'' = None"
    unfolding v(1) using v(2) by (intro find_top_absent tame_append tame_bracket tame_flat [of _ "''tier''"]) (simp_all add: quote_CHR)
  with call_parsed [OF assms(1) t(1) assms(2) t(2) assms(3) t(3)] t(4) v(1) show ?case by (simp add: parse_tiers.simps)
next
  case (3 t t' ts)
  then have t: "tier_law show_number t" "tier_normal nf t" "task_text (vt_label t)" "vt_conditions t \<noteq> []"
    and cs: "list_all (condition_ok schema) (vt_conditions t)" and ch: "chained (t' # ts)"
    by (simp_all add: tier_ok_def)
  let ?c = "generateTaskCondition (vt_conditions t)" and ?call = "generateTaskTierCall show_number t nf"
  let ?rest = "chain_text show_number nf (t' # ts)" and ?text = "chain_text show_number nf (t # t' # ts)"
  let ?q = "length (?c @ '' '')" and ?w = "'' '' @ ?call @ '' ''"
  obtain v where v: "?call = ''tier'' @ (''('' @ v @ '')'')" "tame (\<lambda>_. True) v"
    using call_tame [OF t(1) assms(2) t(3)] .
  have "findTaskTopLevelCharacter ((?c @ '' '') @ CHR ''?'' # ?w @ CHR '':'' # '' '' @ ?rest) CHR ''?'' = Some ?q"
    using condition_ok_plain [OF cs]
    by (intro find_top_found tame_append condition_list_tame tame_flat [of _ "'' ''"]) (simp_all add: quote_CHR)
  then have question: "findTaskTopLevelCharacter ?text CHR ''?'' = Some ?q" by simp
  have "tame (\<lambda>c. c \<notin> {CHR ''?'', CHR '':''}) ?w"
    unfolding v(1) using v(2)
    by (intro tame_append tame_bracket tame_flat [of _ "'' ''"] tame_flat [of _ "''tier''"]) (simp_all add: quote_CHR)
  from find_colon_found [OF this refl, of "?c @ '' ''" "'' '' @ ?rest"]
  have colon: "findTaskTernaryColon ?text ?q = Some (?q + 1 + length ?w)" by simp
  note slices = text_slices [OF chain_text.simps(3) [of show_number nf t t' ts]]
  have "trim (?c @ '' '') = ?c" "trim ?w = ?call" "trim ('' '' @ ?rest) = ?rest"
    using trim_blank [OF hd_condition [OF t(4)], of "[]" "'' ''"] trim_blank [OF call_trimmed, of "'' ''" "'' ''"]
      trim_blank [OF chain_trimmed [OF ch], of "'' ''" "[]"] by simp_all
  moreover have "parseTaskConditions parse ?c schema = Some (vt_conditions t)"
    using cs t(4) by (intro task_conditions_parsed assms(1) condition_ok_plain [OF cs])
      (auto simp: list_all_iff condition_ok_def split: option.splits)
  moreover have "?text \<noteq> []" by simp
  moreover have "parse_tiers parse schema ?rest = Some (t' # ts)" using 3 by simp
  ultimately show ?case
    using call_parsed [OF assms(1) t(1) assms(2) t(2) assms(3) t(3)] question colon
    by (subst parse_tiers.simps) (simp only: slices if_False option.case option.map)
qed simp

section \<open>Configurations\<close>

text \<open>The splitting at multiplications, which knows parentheses and no quotes, leaves a text whole.\<close>

definition star_free :: "string \<Rightarrow> bool" where
  "star_free s \<longleftrightarrow> (\<forall>n. n \<noteq> CHR ''*'' \<longrightarrow> no_sep CHR '' '' CHR ''*'' 0 s n) \<and> paren_sum s = 0 \<and> hd (s @ '' '') \<noteq> CHR ''*''"

lemma star_free_append:
  assumes "star_free u" "star_free v"
  shows "star_free (u @ v)"
proof -
  have "hd (v @ [n]) \<noteq> CHR ''*''" if "n \<noteq> CHR ''*''" for n using assms(2) that by (cases v) (auto simp: star_free_def)
  moreover have "hd ((u @ v) @ '' '') \<noteq> CHR ''*''" using assms by (cases u) (auto simp: star_free_def)
  ultimately show ?thesis using assms by (auto simp: star_free_def no_sep_append)
qed

lemma star_free_flat: "CHR ''*'' \<notin> set s \<Longrightarrow> balanced s \<Longrightarrow> star_free s"
  unfolding star_free_def using no_sep_absent [of "CHR ''*''" s] by (cases s) (simp_all add: balanced_def del: no_sep.simps, metis)

lemma star_free_parens: "balanced s \<Longrightarrow> star_free (''('' @ s @ '')'')"
proof -
  assume s: "balanced s"
  have "no_sep CHR '' '' CHR ''*'' 1 s (CHR '')'')" using s by (intro no_sep_inside) (auto simp: balanced_def)
  with s show ?thesis by (simp add: star_free_def no_sep_append paren_step_def balanced_def)
qed

lemma star_free_whole: "star_free s \<Longrightarrow> trimmed s \<Longrightarrow> splitTopLevelMultiply s = [s]"
proof -
  assume s: "star_free s" "trimmed s"
  then have "sep_free CHR '' '' CHR ''*'' s" by (simp add: star_free_def sep_free_def)
  with s have "split_parts '' * '' (join '' * '' [s]) = [s]" by (intro split_parts_join) (simp_all add: paren_step_def)
  then show ?thesis by (simp add: splitTopLevelMultiply_def)
qed

lemma flat_text: "list_all (\<lambda>c. c \<notin> set ''()*'') s \<Longrightarrow> star_free s"
  by (intro star_free_flat balanced_flat) (simp_all add: list_all_iff paren_step_def, blast)

lemma star_quote: "plain_text q \<Longrightarrow> CHR ''*'' \<notin> set q \<Longrightarrow> CHR ''*'' \<notin> set (json_quote q)"
  by (simp add: json_quote_plain quote_CHR)

lemma condition_star_free:
  assumes "list_all condition_plain cs"
  shows "star_free (generateTaskCondition cs)"
proof (rule star_free_flat)
  show "balanced (generateTaskCondition cs)"
    using condition_list_tame [OF assms, of "\<lambda>_. True"] tame_balanced by simp
  have "CHR ''*'' \<notin> set (join '' && '' (map condition_text cs))" using assms
    by (induction cs rule: induct_list012) (auto simp: condition_text_def condition_plain_def task_text_def dest: star_quote)
  then show "CHR ''*'' \<notin> set (generateTaskCondition cs)" by (simp add: generateTaskCondition_def condition_text_def [abs_def])
qed

lemma chain_star_free:
  assumes "fields_ok schema nf" "list_all (tier_ok show_number schema nf) ts"
  shows "star_free (chain_text show_number nf ts)"
proof -
  have call: "star_free (generateTaskTierCall show_number t nf)" if t: "tier_ok show_number schema nf t" for t
  proof -
    obtain v where v: "generateTaskTierCall show_number t nf = ''tier'' @ (''('' @ v @ '')'')" "tame (\<lambda>_. True) v"
      by (rule call_tame [of show_number t schema nf]) (use t assms(1) in \<open>simp_all add: tier_ok_def\<close>)
    then show ?thesis
      unfolding v(1) by (intro star_free_append star_free_parens tame_balanced flat_text) simp_all
  qed
  show ?thesis using assms(2)
  proof (induction ts rule: induct_list012)
    case (3 t t' ts)
    have "star_free (generateTaskCondition (vt_conditions t))"
      using 3(3) by (intro condition_star_free condition_ok_plain [of schema]) (simp add: tier_ok_def)
    moreover have "star_free '' ? ''" "star_free '' : ''" by (rule flat_text, simp)+
    moreover have "star_free (chain_text show_number nf (t' # ts))" using 3 by simp
    moreover have "chain_text show_number nf (t # t' # ts) = generateTaskCondition (vt_conditions t) @ '' ? '' @
        generateTaskTierCall show_number t nf @ '' : '' @ chain_text show_number nf (t' # ts)" by simp
    ultimately show ?case using call [of t] 3(3) by (simp only: list.pred_inject star_free_append)
  qed (use call in \<open>simp_all add: flat_text\<close>)
qed

lemma chain_unversioned: "chained ts \<Longrightarrow> snd (stripExprVersion (chain_text show_number nf ts)) = chain_text show_number nf ts"
proof -
  assume ch: "chained ts"
  have "hd (chain_text show_number nf ts) \<noteq> CHR ''v''"
  proof (cases ts rule: chained.cases)
    case (3 t t' ts')
    with ch obtain c cs where "vt_conditions t = c # cs" by (cases "vt_conditions t") auto
    with 3 show ?thesis by (cases cs) (simp_all add: generateTaskCondition_def)
  qed (use ch in \<open>simp_all add: call_text\<close>)
  then show ?thesis by (cases "chain_text show_number nf ts") (simp_all add: stripExprVersion_def Let_def)
qed

lemma chain_tiers:
  assumes "json_law parse" "fields_ok schema nf" "nf \<noteq> []" "list_all (tier_ok show_number schema nf) ts" "chained ts"
    and "schema \<noteq> []"
  shows "parseTaskTiersFromExpr parse show_number (chain_text show_number nf ts) schema = ts"
proof -
  let ?e = "chain_text show_number nf ts"
  have tr: "trimmed ?e" "trim ?e = ?e" using chain_trimmed [OF assms(5)] trim_trimmed by blast+
  have "splitBillingExprAndRequestRules parse show_number ?e = Inr (?e, [])"
    using star_free_whole [OF chain_star_free [OF assms(2,4)] tr(1)] tr by (simp add: splitBillingExprAndRequestRules_def trimmed_def)
  then show ?thesis
    using tr assms(6) chain_unversioned [OF assms(5)] chain_parsed [OF assms(1-5)]
    by (simp add: parseTaskTiersFromExpr_def trimmed_def nullish_def)
qed

text \<open>Names and values a price may mention, and the laws for its schema.\<close>

definition schema_plain :: "BillingUsageSchema \<Rightarrow> bool" where
  "schema_plain schema \<longleftrightarrow> list_all (\<lambda>fd. field_plain fd \<and> list_all (\<lambda>v. v \<noteq> [] \<and> task_text v) (enum_values (snd fd))) schema"

lemma number_fields_ok:
  assumes "schema_ok schema" "schema_plain schema"
  shows "fields_ok schema (getTaskNumberFields rank schema)"
proof -
  have "fd \<in> set schema \<Longrightarrow> map_of schema (fst fd) = Some (snd fd)" for fd
    using assms(1) by (simp add: schema_ok_def)
  then show ?thesis
    using number_fields_distinct [OF assms(1)] assms(2)
    by (force simp: fields_ok_def list_all_iff schema_plain_def getTaskNumberFields_def)
qed

lemma schema_condition:
  assumes "schema_ok schema" "schema_plain schema" "map_of (getTaskEnumFields rank schema) (vc_field c) = Some d" "vc_value c \<in> set (enum_values d)"
  shows "condition_ok schema c"
proof -
  have fd: "(vc_field c, d) \<in> set schema" using map_of_SomeD [OF assms(3)] enum_fields_ok(3) [OF assms(1)] by blast
  then have "map_of schema (vc_field c) = Some d" using assms(1) by (simp add: schema_ok_def)
  with fd assms(2,4) show ?thesis by (force simp: condition_ok_def condition_plain_def schema_plain_def list_all_iff field_plain_def)
qed

lemma price_of_map: "distinct (map fst nf) \<Longrightarrow> (f, d) \<in> set nf \<Longrightarrow> price_of (map (\<lambda>(f, d). (f, h f)) nf) f = h f"
  by (induction nf) (auto simp: price_of_def nullish_def rev_image_eqI)

text \<open>A tier of a normalized configuration.\<close>

definition normal_tier :: "(string \<Rightarrow> string) \<Rightarrow> BillingUsageSchema \<Rightarrow> TaskVisualTier \<Rightarrow> bool" where
  "normal_tier rank schema tier \<longleftrightarrow> vt_label tier \<noteq> [] \<and> tier_normal (getTaskNumberFields rank schema) tier \<and>
    list_all (\<lambda>c. case map_of (getTaskEnumFields rank schema) (vc_field c) of
      None \<Rightarrow> False | Some d \<Rightarrow> vc_value c \<in> set (enum_values d)) (vt_conditions tier)"

definition normalized_tier :: "(string \<Rightarrow> string) \<Rightarrow> BillingUsageSchema \<Rightarrow> nat \<Rightarrow> TaskVisualTier \<Rightarrow> TaskVisualTier" where
  "normalized_tier rank schema i tier =
    \<lparr>vt_label = (if vt_label tier \<noteq> [] then vt_label tier else if i = 0 then ''base'' else ''tier_'' @ show_nat (i + 1)),
     vt_conditions = filter (\<lambda>c. case map_of (getTaskEnumFields rank schema) (vc_field c) of
        None \<Rightarrow> False | Some d \<Rightarrow> vc_value c \<in> set (enum_values d)) (vt_conditions tier),
     vt_constant = (if vt_constant tier \<ge> 0 then vt_constant tier else 0),
     vt_unitPrices = map (\<lambda>(f, d). (f, case map_of (vt_unitPrices tier) f of None \<Rightarrow> 0 | Some v \<Rightarrow> if v \<ge> 0 then v else 0))
       (getTaskNumberFields rank schema)\<rparr>"

lemma normalize_tiers:
  "tiers \<noteq> [] \<Longrightarrow> normalizeTaskVisualConfig rank tiers schema = map (\<lambda>(i, tier). normalized_tier rank schema i tier) (enumerate 0 tiers)"
  by (simp only: normalizeTaskVisualConfig_def normalized_tier_def if_False)

lemma normalized_tiers:
  assumes "schema_ok schema"
  shows "list_all (normal_tier rank schema) (normalizeTaskVisualConfig rank tiers schema)"
proof -
  let ?nf = "getTaskNumberFields rank schema"
  note nd = number_fields_distinct [OF assms, of rank]
  have prices: "tier_normal ?nf \<lparr>vt_label = l, vt_conditions = cs, vt_constant = (if x \<ge> 0 then x else 0), vt_unitPrices = map (\<lambda>(f, d). (f, h f)) ?nf\<rparr>"
    if "\<And>f. h f \<ge> 0" for l cs x h
    using that price_of_map [OF nd] by (auto simp: tier_normal_def list_all_iff)
  show ?thesis
  proof (cases "tiers = []")
    case True
    then show ?thesis
      using prices [of "\<lambda>_. 0" "''base''" "[]" 0]
      by (simp add: normalizeTaskVisualConfig_def createDefaultTaskVisualConfig_def zero_prices_def normal_tier_def)
  next
    case False
    have "normal_tier rank schema (normalized_tier rank schema i t)" for i t
      using prices [where h = "\<lambda>f. case map_of (vt_unitPrices t) f of None \<Rightarrow> 0 | Some v \<Rightarrow> if v \<ge> 0 then v else 0"]
      by (simp add: normal_tier_def normalized_tier_def list_all_iff split: option.split)
    with False show ?thesis by (simp add: normalize_tiers list_all_iff split_beta)
  qed
qed

lemma normal_tier_kept:
  assumes "list_all (normal_tier rank schema) tiers" "tiers \<noteq> []"
  shows "normalizeTaskVisualConfig rank tiers schema = tiers"
proof -
  let ?nf = "getTaskNumberFields rank schema"
  have "normalized_tier rank schema i t = t" if "normal_tier rank schema t" for i t
  proof -
    have "(case map_of (vt_unitPrices t) f of None \<Rightarrow> 0 | Some v \<Rightarrow> if v \<ge> 0 then v else 0) = price_of (vt_unitPrices t) f" for f
      using that by (auto simp: price_of_def nullish_def normal_tier_def tier_normal_def list_all_iff split: option.splits dest!: map_of_SomeD)
    moreover have "map (\<lambda>(f, d). (f, price_of (vt_unitPrices t) f)) ?nf = vt_unitPrices t"
      using that by (simp add: normal_tier_def tier_normal_def)
    ultimately show ?thesis
      using that by (simp add: normal_tier_def tier_normal_def filter_id_conv list_all_iff normalized_tier_def)
  qed
  moreover have "t \<in> set tiers" if "(i, t) \<in> set (enumerate 0 tiers)" for i t
    using that by (auto simp: in_set_enumerate_eq)
  ultimately have "map (\<lambda>(i, tier). normalized_tier rank schema i tier) (enumerate 0 tiers) = map snd (enumerate 0 tiers)"
    using assms(1) by (intro map_cong refl) (auto simp: list_all_iff)
  then show ?thesis using assms(2) by (simp add: normalize_tiers)
qed

end
