(* ===== verification/Billing_Roundtrip.thy ===== *)
theory Billing_Roundtrip
  imports Billing_Matching
begin

text \<open>
  The round trips of the rule editor: rows to text to rows, and price and rules combined and taken
  apart; and the rows that do not survive.
\<close>

section \<open>Reading rows back\<close>

text \<open>What the time parser sees in the first part of a condition.\<close>

definition lower_bound :: "TimeCondition \<Rightarrow> TimeCondition" where
  "lower_bound t = t\<lparr>tc_mode := MATCH_GTE, tc_value := tc_rangeStart t, tc_rangeStart := [], tc_rangeEnd := []\<rparr>"

primrec head_time :: "RequestCondition \<Rightarrow> TimeCondition option" where
  "head_time (TimeCond t) = Some (if tc_mode t = MATCH_RANGE \<and> within_day t then lower_bound t else t)"
| "head_time (ParamHeaderCond _) = None"

lemma no_time_ph:
  "tryParseTimeCondition (hd (cond_parts (ParamHeaderCond h)) @ r) = None" "time_call (hd (cond_parts (ParamHeaderCond h)) @ r) = None"
  using no_time_source no_time_has time_call_source time_call_other(3) by auto

lemma parse_head:
  assumes "cond_normal c"
  shows "tryParseTimeCondition (hd (cond_parts c)) = head_time c"
proof (cases c)
  case (TimeCond t)
  with assms have "time_normal t" by simp
  then show ?thesis
  proof (cases rule: time_mode_cases)
    case 1
    then show ?thesis
      using TimeCond parse_scalar [OF 1(5,3), of MATCH_GTE] parse_range(2) [OF 1(5,3,4), of "'' || ''"]
      by (auto simp: Let_def lower_bound_def range_text_def)
  next
    case 2
    then show ?thesis using TimeCond parse_scalar [OF 2(6,5,2)] by (simp add: Let_def)
  qed
qed (use no_time_ph(1) [of _ "[]"] in simp)

lemma parse_single:
  assumes "cond_normal c" "cond_parts c = [p]" "json_law parse"
  shows "tryParseRequestCondition parse sn p = Inr (Some c)"
proof (cases c)
  case (TimeCond t)
  with assms(1) parse_head [of c] assms(2) have "tryParseTimeCondition p = Some t"
    by (auto simp: Let_def split: if_splits)
  with TimeCond show ?thesis by (simp add: tryParseRequestCondition_def)
next
  case (ParamHeaderCond h)
  with assms(1) have h: "ph_normal h" by simp
  have c: "c = ph_cond (ph_source h) (ph_path h) (ph_mode h) (ph_value h)" by (simp add: ParamHeaderCond ph_cond_def)
  have p: "p = hd (cond_parts (ParamHeaderCond h))" using assms(2) ParamHeaderCond by simp
  have path: "path_ok (ph_path h)" using h by (simp add: ph_normal_def)
  from h consider (ex) "ph_mode h = MATCH_EXISTS" "ph_value h = []" | (eq) "ph_mode h = MATCH_EQ" "value_ok (ph_value h)"
    | (has) "ph_mode h = MATCH_CONTAINS" "ph_source h = SourceHeader" "value_ok (ph_value h)"
    by (auto simp: ph_normal_def)
  then show ?thesis
  proof cases
    case ex
    with parse_exists [OF path, of parse sn] show ?thesis unfolding p c by (cases "ph_source h") simp_all
  next
    case eq
    with parse_equals [OF path eq(2) assms(3), of sn "ph_source h"] show ?thesis unfolding p c by (simp add: match_defs)
  next
    case has
    with parse_contains [OF path has(3) assms(3), of sn] show ?thesis unfolding p c by (simp add: match_defs)
  qed
qed

lemma parse_pair:
  assumes "time_normal t" "tc_mode t = MATCH_RANGE" "within_day t"
  shows "cond_parts (TimeCond t) = [scalar_text (tc_timeFunc t) (tc_timezone t) MATCH_GTE (tc_rangeStart t),
      scalar_text (tc_timeFunc t) (tc_timezone t) MATCH_LT (tc_rangeEnd t)]"
    and "tryParseTimeRangePair (scalar_text (tc_timeFunc t) (tc_timezone t) MATCH_GTE (tc_rangeStart t))
      (scalar_text (tc_timeFunc t) (tc_timezone t) MATCH_LT (tc_rangeEnd t)) = Some (TimeCond t)"
proof -
  show "cond_parts (TimeCond t) = [scalar_text (tc_timeFunc t) (tc_timezone t) MATCH_GTE (tc_rangeStart t),
      scalar_text (tc_timeFunc t) (tc_timezone t) MATCH_LT (tc_rangeEnd t)]"
    using assms by (simp add: Let_def)
  have t: "zone_ok (tc_timezone t)" "isTimeValueInRange (tc_timeFunc t) (tc_rangeStart t)"
    "isTimeValueInRange (tc_timeFunc t) (tc_rangeEnd t)" "tc_value t = []"
    using assms by (simp_all add: time_normal_def)
  show "tryParseTimeRangePair (scalar_text (tc_timeFunc t) (tc_timezone t) MATCH_GTE (tc_rangeStart t))
      (scalar_text (tc_timeFunc t) (tc_timezone t) MATCH_LT (tc_rangeEnd t)) = Some (TimeCond t)"
    using parse_scalar [OF t(1,2), of MATCH_GTE] parse_scalar [OF t(1,3), of MATCH_LT] t(4) assms(2)
    by (simp add: tryParseTimeRangePair_def)
qed

lemma pair_apart:
  assumes "cond_normal c" "cond_normal d" "\<not> bounds_meet c d" "cond_parts c = [p]"
  shows "tryParseTimeRangePair p (hd (cond_parts d)) = None"
proof -
  have p: "tryParseTimeCondition p = head_time c" using parse_head [OF assms(1)] assms(4) by simp
  have c: "c = TimeCond t \<Longrightarrow> head_time c = Some t" for t
    using assms(4) by (auto simp: Let_def split: if_splits)
  have d: "d = TimeCond t \<Longrightarrow> head_time d = Some t \<or> head_time d = Some (lower_bound t)" for t by auto
  show ?thesis
    using assms(3) p c d parse_head [OF assms(2)]
    by (cases c; cases d) (auto simp: tryParseTimeRangePair_def lower_bound_def match_defs)
qed

lemma parse_parts:
  assumes "list_all cond_normal cs" "no_bounds_meet cs" "json_law parse"
  shows "parse_and_parts parse sn (concat (map cond_parts cs)) = Inr (Some cs)"
  using assms(1,2)
proof (induction cs)
  case (Cons c cs)
  let ?rest = "concat (map cond_parts cs)"
  have c: "cond_normal c" and cs: "list_all cond_normal cs" using Cons.prems by simp_all
  have IH: "parse_and_parts parse sn ?rest = Inr (Some cs)"
    using Cons.prems by (intro Cons.IH) (cases cs; simp)+
  have trims: "trim p = p" if "p \<in> set (cond_parts d)" "cond_normal d" for p d
    using parts_facts [OF that(2,1)] trim_trimmed by blast
  show ?case
  proof (cases "\<exists>t. c = TimeCond t \<and> tc_mode t = MATCH_RANGE \<and> within_day t")
    case True
    then obtain t where t: "c = TimeCond t" "time_normal t" "tc_mode t = MATCH_RANGE" "within_day t" using c by auto
    note pair = parse_pair [OF t(2-4)]
    have tr: "trim (scalar_text (tc_timeFunc t) (tc_timezone t) MATCH_GTE (tc_rangeStart t)) = scalar_text (tc_timeFunc t) (tc_timezone t) MATCH_GTE (tc_rangeStart t)"
      "trim (scalar_text (tc_timeFunc t) (tc_timezone t) MATCH_LT (tc_rangeEnd t)) = scalar_text (tc_timeFunc t) (tc_timezone t) MATCH_LT (tc_rangeEnd t)"
      using trims [of _ c] pair(1) c t(1) by simp_all
    have "scalar_text (tc_timeFunc t) (tc_timezone t) MATCH_LT (tc_rangeEnd t) \<noteq> []"
      using call_text_head [of "tc_timeFunc t" "tc_timezone t"] by (auto simp: scalar_text_def)
    with pair tr IH t(1) show ?thesis by simp
  next
    case False
    then have "length (cond_parts c) = 1" by (cases c) (auto simp: Let_def)
    then obtain p where p: "cond_parts c = [p]" by (auto simp: length_Suc_conv)
    have one: "tryParseRequestCondition parse sn (trim p) = Inr (Some c)"
      using parse_single [OF c p assms(3)] trims [of p c] p c by simp
    show ?thesis
    proof (cases cs)
      case Nil
      with p one show ?thesis by simp
    next
      case (Cons d ds)
      then obtain q qs where q: "?rest = q # qs" "q = hd (cond_parts d)" "q \<in> set (cond_parts d)"
        by (cases "cond_parts d") auto
      have "tryParseTimeRangePair (trim p) (trim q) = None"
        using pair_apart [OF c _ _ p, of d] trims [of p c] trims [of q d] p q c cs Cons.prems \<open>cs = d # ds\<close> by simp
      with p q(1) one IH show ?thesis by (simp only: list.map concat.simps append.simps parse_and_parts.simps) simp
    qed
  qed
qed simp

lemma join_Cons: "join sep (p # ps) = p @ (if ps = [] then [] else sep @ join sep ps)"
  by (cases ps) simp_all

lemma time_range_scalar_rest:
  assumes "zone_ok z" "isNumericLiteral v" "mode \<in> {MATCH_EQ, MATCH_GTE, MATCH_LT}"
    and "mode = MATCH_GTE \<longrightarrow> eat (call_text f z @ '' < '') u = None"
  shows "time_range (scalar_text f z mode v @ '' && '' @ u) = None"
proof (cases "mode = MATCH_GTE")
  case True
  have "stops ('' && '' @ u)" by (simp add: stops_def number_char_def is_digit_def char_digit_def)
  from time_range_fn [OF assms(1,2) this, of f] True assms(4) show ?thesis
    by (simp add: scalar_text_def time_op_def)
next
  case False
  with time_range_not_lower [OF assms(1)] assms(3) show ?thesis by auto
qed

lemma scalar_rest_no_time:
  assumes "zone_ok z" "isNumericLiteral v" "mode \<in> {MATCH_EQ, MATCH_GTE, MATCH_LT}"
    and "\<forall>g y a b r. time_range (scalar_text f z mode v @ '' && '' @ u) = Some (g, y, a, b, r) \<longrightarrow> r \<noteq> []"
  shows "tryParseTimeCondition (scalar_text f z mode v @ '' && '' @ u) = None"
proof -
  have "stops ('' && '' @ u)" by (simp add: stops_def number_char_def is_digit_def char_digit_def)
  from scalar_match_built [OF assms(1,2) this assms(3), of f]
  have "scalar_match (scalar_text f z mode v @ '' && '' @ u) = None" by simp
  moreover have "range_match (scalar_text f z mode v @ '' && '' @ u) = None"
    using assms(4) unfolding range_match_def by (auto simp: scalar_text_def split: option.split prod.split list.split)
  ultimately show ?thesis by (simp add: tryParseTimeCondition_def)
qed

lemma head_part_time:
  assumes "time_normal u"
  obtains (paren) "hd (cond_parts (TimeCond u)) = ''('' @ range_text '' || '' u @ '')''"
  | (scalar) mode v where "hd (cond_parts (TimeCond u)) = scalar_text (tc_timeFunc u) (tc_timezone u) mode v"
      "mode = MATCH_LT \<longrightarrow> tc_mode u = MATCH_LT" "mode \<in> {MATCH_EQ, MATCH_GTE, MATCH_LT}"
proof (cases "tc_mode u = MATCH_RANGE")
  case True
  then show ?thesis
  proof (cases "within_day u")
    case True
    with \<open>tc_mode u = MATCH_RANGE\<close> scalar [of MATCH_GTE "tc_rangeStart u"] show ?thesis by (simp add: Let_def match_defs)
  next
    case False
    with \<open>tc_mode u = MATCH_RANGE\<close> paren show ?thesis by (simp add: Let_def)
  qed
next
  case False
  with assms scalar [of "tc_mode u" "tc_value u"] show ?thesis by (simp add: Let_def time_normal_def)
qed

lemma bound_not_continued:
  assumes "zone_ok (tc_timezone t)" "cond_normal d" "\<not> bounds_meet (TimeCond t) d" "tc_mode t = MATCH_GTE"
  shows "eat (call_text (tc_timeFunc t) (tc_timezone t) @ '' < '') (hd (cond_parts d) @ r) = None"
proof (rule ccontr)
  let ?f = "tc_timeFunc t" and ?z = "tc_timezone t"
  assume "\<not> ?thesis"
  then obtain r' where eq: "hd (cond_parts d) @ r = call_text ?f ?z @ '' < '' @ r'" by (auto simp: eat_Some_iff)
  show False
  proof (cases d)
    case (ParamHeaderCond h)
    have "timeFunc_name ?f @ ''('' @ [quote_char] @ ?z @ [quote_char] @ '')'' @ '' < '' @ r' = hd (cond_parts d) @ r"
      using eq by (simp add: call_text_def)
    then have "prefix (timeFunc_name ?f @ ''('') (hd (cond_parts d) @ r)"
      by (metis append.assoc prefixI)
    moreover have "\<not> prefix (timeFunc_name ?f @ ''('') (hd (cond_parts (ParamHeaderCond h)) @ r)"
      by (cases ?f; cases "ph_source h") (auto simp: source_text_def)
    ultimately show False using ParamHeaderCond by simp
  next
    case (TimeCond u)
    then have u: "time_normal u" using assms(2) by simp
    then have z: "zone_ok (tc_timezone u)" by (simp add: time_normal_def)
    from u show False
    proof (cases rule: head_part_time)
      case paren
      with eq TimeCond call_text_head [of ?f ?z] show False by auto
    next
      case (scalar mode v)
      have whole: "hd (cond_parts d) @ r = call_text (tc_timeFunc u) (tc_timezone u) @ '' '' @ time_op mode @ '' '' @ v @ r"
        using scalar(1) TimeCond by (simp add: scalar_text_def)
      have "Some (?f, ?z, '' < '' @ r') = time_call (hd (cond_parts d) @ r)"
        unfolding eq by (rule time_call_fn [OF assms(1), symmetric])
      also have "\<dots> = Some (tc_timeFunc u, tc_timezone u, '' '' @ time_op mode @ '' '' @ v @ r)"
        unfolding whole by (rule time_call_fn [OF z])
      finally have same: "?f = tc_timeFunc u" "?z = tc_timezone u" "'' < '' @ r' = '' '' @ time_op mode @ '' '' @ v @ r"
        by (simp_all only: option.inject prod.inject)
      from same(3) scalar(3) have "mode = MATCH_LT" by (auto simp: time_op_def match_defs)
      with same(1,2) scalar(2) assms(3,4) TimeCond show False by simp
    qed
  qed
qed

lemma several_no_time:
  assumes "cond_normal c" "cond_normal d" "\<not> bounds_meet c d"
  shows "tryParseTimeCondition (join '' && '' (cond_parts c @ cond_parts d @ ps)) = None"
proof -
  define u where "u = join '' && '' (cond_parts d @ ps)"
  obtain r where u: "u = hd (cond_parts d) @ r"
    unfolding u_def by (cases "cond_parts d") (auto simp: join_Cons)
  have cut: "join '' && '' (cond_parts c @ cond_parts d @ ps) = join '' && '' (cond_parts c) @ '' && '' @ u"
    using join_concat [of "[cond_parts c, cond_parts d @ ps]" "'' && ''"] by (simp add: u_def)
  show ?thesis
  proof (cases c)
    case (ParamHeaderCond h)
    have "join '' && '' (cond_parts c) = hd (cond_parts c)" using ParamHeaderCond by simp
    with cut no_time_ph(1) [of h "'' && '' @ u"] ParamHeaderCond show ?thesis by (simp only:)
  next
    case (TimeCond t)
    then have t: "time_normal t" using assms(1) by simp
    let ?f = "tc_timeFunc t" and ?z = "tc_timezone t"
    from t show ?thesis
    proof (cases rule: time_mode_cases)
      case 2
      have cont: "tc_mode t = MATCH_GTE \<longrightarrow> eat (call_text ?f ?z @ '' < '') u = None"
        using bound_not_continued [OF 2(6) assms(2)] assms(3) TimeCond unfolding u by blast
      have "join '' && '' (cond_parts c) = scalar_text ?f ?z (tc_mode t) (tc_value t)"
        using TimeCond 2 by (simp add: Let_def)
      with cut scalar_rest_no_time [OF 2(6) in_range_numeric [OF 2(5)] 2(2)]
        time_range_scalar_rest [OF 2(6) in_range_numeric [OF 2(5)] 2(2) cont] show ?thesis by simp
    next
      case 1
      note num = in_range_numeric [OF 1(3)] in_range_numeric [OF 1(4)]
      have stop: "stops ('' && '' @ u)" "stops ('')'' @ '' && '' @ u)"
        by (simp_all add: stops_def number_char_def is_digit_def char_digit_def)
      show ?thesis
      proof (cases "within_day t")
        case True
        let ?v = "scalar_text ?f ?z MATCH_LT (tc_rangeEnd t) @ '' && '' @ u"
        have whole: "join '' && '' (cond_parts c @ cond_parts d @ ps) = scalar_text ?f ?z MATCH_GTE (tc_rangeStart t) @ '' && '' @ ?v"
          unfolding cut using TimeCond 1 True by (simp add: Let_def)
        have "time_range (scalar_text ?f ?z MATCH_GTE (tc_rangeStart t) @ '' && '' @ ?v) = Some (?f, ?z, tc_rangeStart t, tc_rangeEnd t, '' && '' @ u)"
          using time_range_built [OF 1(5) num stop(1), of "'' && ''" ?f] by (simp add: scalar_text_def time_op_def match_defs)
        then show ?thesis
          unfolding whole using scalar_rest_no_time [OF 1(5) num(1), of MATCH_GTE ?f ?v] by simp
      next
        case False
        have whole: "join '' && '' (cond_parts c @ cond_parts d @ ps) = ''('' @ range_text '' || '' t @ '')'' @ '' && '' @ u"
          unfolding cut using TimeCond 1 False by (simp add: Let_def)
        have none: "time_call (''('' @ range_text '' || '' t @ '')'' @ '' && '' @ u) = None" by (rule time_call_other(4))
        have "time_range (range_text '' || '' t @ '')'' @ '' && '' @ u) = Some (?f, ?z, tc_rangeStart t, tc_rangeEnd t, '')'' @ '' && '' @ u)"
          using time_range_built [OF 1(5) num stop(2), of "'' || ''" ?f] by (simp add: range_text_def)
        then have "range_match (''('' @ range_text '' || '' t @ '')'' @ '' && '' @ u) = None"
          using time_range_other [OF none] by (simp add: range_match_def)
        then show ?thesis
          unfolding whole using scalar_match_other [OF none] by (simp add: tryParseTimeCondition_def)
      qed
    qed
  qed
qed

definition combined_text :: "RequestCondition list \<Rightarrow> string" where
  "combined_text cs = (if length cs = 1 then buildRequestConditionExpr (hd cs) else join '' && '' (concat (map cond_parts cs)))"

lemma split_and_parts:
  assumes "list_all cond_normal cs" "cs \<noteq> []"
  shows "splitTopLevelAnd (join '' && '' (concat (map cond_parts cs))) = concat (map cond_parts cs)"
proof -
  let ?ps = "concat (map cond_parts cs)"
  have "list_all (sep_free (CHR '' '') (CHR ''&'')) ?ps" "list_all trimmed ?ps"
    using assms(1) parts_facts by (auto simp: list_all_iff intro: calm_sep_free)
  moreover have "?ps \<noteq> []" using assms(2) by (cases cs) auto
  ultimately show ?thesis
    unfolding splitTopLevelAnd_def by (intro split_parts_join) (simp_all add: paren_step_def)
qed

lemma trim_parts:
  assumes "list_all cond_normal cs" "cs \<noteq> []"
  shows "trimmed (join '' && '' (concat (map cond_parts cs)))"
proof (rule trimmed_join)
  show "concat (map cond_parts cs) \<noteq> []" using assms(2) by (cases cs) auto
  show "list_all trimmed (concat (map cond_parts cs))" using assms(1) parts_facts by (auto simp: list_all_iff)
qed

lemma parse_conditions:
  assumes "list_all cond_normal cs" "no_bounds_meet cs" "cs \<noteq> []" "json_law parse"
  shows "tryParseRequestConditions parse sn (combined_text cs) = Inr (Some cs)"
proof -
  have split: "tryParseRequestConditions parse sn (join '' && '' (concat (map cond_parts cs))) = Inr (Some cs)"
    if "tryParseTimeCondition (join '' && '' (concat (map cond_parts cs))) = None"
    using that trim_trimmed [OF trim_parts [OF assms(1,3)]] split_and_parts [OF assms(1,3)] parse_parts [OF assms(1,2,4), of sn] assms(3)
    by (cases cs) (simp_all add: tryParseRequestConditions_def)
  show ?thesis
  proof (cases "length cs = 1")
    case False
    then obtain c d ds where cs: "cs = c # d # ds" using assms(3) by (metis One_nat_def length_Cons list.size(3) neq_Nil_conv)
    with assms(1,2) several_no_time [of c d "concat (map cond_parts ds)"] split False show ?thesis
      by (simp add: combined_text_def)
  next
    case True
    then obtain c where cs: "cs = [c]" by (auto simp: length_Suc_conv)
    then have c: "cond_normal c" using assms(1) by simp
    show ?thesis
    proof (cases c)
      case (ParamHeaderCond h)
      with c have h: "ph_normal h" by simp
      have "combined_text cs = join '' && '' (concat (map cond_parts cs))"
        using build_ph [OF h] cs ParamHeaderCond by (simp add: combined_text_def del: cond_parts.simps buildRequestConditionExpr.simps) simp
      moreover have "tryParseTimeCondition (join '' && '' (concat (map cond_parts cs))) = None"
        using no_time_ph(1) [of h "[]"] cs ParamHeaderCond by simp
      ultimately show ?thesis using split by simp
    next
      case (TimeCond t)
      with c have t: "time_normal t" by simp
      have build: "combined_text cs = buildTimeConditionExpr t" using cs TimeCond by (simp add: combined_text_def)
      from t have "tryParseTimeCondition (buildTimeConditionExpr t) = Some t \<and> trimmed (buildTimeConditionExpr t)"
      proof (cases rule: time_mode_cases)
        case 1
        have "\<not> space_char (last (tc_rangeEnd t))" "tc_rangeEnd t \<noteq> []"
          using numeric_number_char [OF in_range_numeric [OF 1(4)]] by (auto simp: list_all_iff dest: number_char_plain)
        then have "trimmed (range_text sep t)" for sep
          using call_text_head [of "tc_timeFunc t" "tc_timezone t"] by (auto simp: range_text_def trimmed_def)
        moreover have "tryParseTimeCondition (range_text sep t) = Some t" if "sep = '' && '' \<or> sep = '' || ''" for sep
          using parse_range(1) [OF 1(5,3,4) that] 1 by (simp add: range_text_def)
        ultimately show ?thesis using build_time [OF t] 1 by simp
      next
        case 2
        then show ?thesis
          using build_time [OF t] parse_scalar [OF 2(6,5,2)] scalar_text_facts(3) [OF 2(6) in_range_numeric [OF 2(5)]] by simp
      qed
      with build cs TimeCond show ?thesis by (simp add: tryParseRequestConditions_def trim_trimmed)
    qed
  qed
qed

section \<open>Round trips\<close>

lemma balanced_literals: "balanced '' && ''" "balanced '' >= ''" "balanced '' < ''" "balanced '' || ''" "balanced '' ? ''" "balanced '' : 1''"
  by (rule balanced_flat, simp add: paren_step_def)+

lemma calm_balanced: "calm s \<Longrightarrow> balanced s"
  by (simp add: calm_def)

lemma build_balanced:
  assumes "cond_normal c"
  shows "balanced (buildRequestConditionExpr c)"
proof (cases c)
  case (TimeCond t)
  with assms have t: "time_normal t" by simp
  then show ?thesis
  proof (cases rule: time_mode_cases)
    case 1
    have nums: "balanced (tc_rangeStart t)" "balanced (tc_rangeEnd t)"
      using calm_balanced [OF calm_numeric] in_range_numeric 1(3,4) by blast+
    have "balanced (range_text sep t)" if "balanced sep" for sep
      unfolding range_text_def using that
      by (intro balanced_append balanced_literals calm_balanced [OF calm_texts(1) [OF 1(5)]] nums)
    note this [OF balanced_literals(1)] this [OF balanced_literals(4)]
    with build_time [OF t] 1 TimeCond show ?thesis by simp
  next
    case 2
    with build_time [OF t] TimeCond show ?thesis
      using calm_balanced [OF scalar_text_facts(1) [OF 2(6) in_range_numeric [OF 2(5)]]] by simp
  qed
next
  case (ParamHeaderCond h)
  with assms build_ph [of h] calm_balanced [OF ph_part_facts(1) [of h]] show ?thesis
    by (simp del: cond_parts.simps buildRequestConditionExpr.simps)
qed

lemma build_nonempty: "cond_normal c \<Longrightarrow> buildRequestConditionExpr c \<noteq> []"
  using build_parts [of c] trim_parts [of "[c]"] by (auto simp: trimmed_def no_bar split: if_splits)

lemma combined_built:
  assumes "list_all cond_normal cs" "cs \<noteq> []"
  shows "(let es = filter (\<lambda>e. e \<noteq> []) (map buildRequestConditionExpr cs) in
     if length es = 1 then hd es
     else join '' && '' (map (\<lambda>e. if contains e '' || '' then ''('' @ e @ '')'' else e) es)) = combined_text cs"
proof -
  have es: "filter (\<lambda>e. e \<noteq> []) (map buildRequestConditionExpr cs) = map buildRequestConditionExpr cs"
    using assms(1) build_nonempty by (auto simp: filter_id_conv list_all_iff)
  have "map (\<lambda>e. if contains e '' || '' then ''('' @ e @ '')'' else e) (map buildRequestConditionExpr cs) = map (join '' && '') (map cond_parts cs)"
    using assms(1) build_parts by (auto simp: list_all_iff)
  moreover have "join '' && '' (map (join '' && '') (map cond_parts cs)) = join '' && '' (concat (map cond_parts cs))"
    by (rule join_concat) (simp add: list_all_iff)
  ultimately show ?thesis
    using es assms(2) by (auto simp: combined_text_def Let_def hd_map simp del: map_map)
qed

lemma combined_balanced:
  assumes "list_all cond_normal cs" "cs \<noteq> []"
  shows "balanced (combined_text cs)"
proof (cases "length cs = 1")
  case True
  with assms build_balanced [of "hd cs"] show ?thesis by (cases cs) (simp_all add: combined_text_def)
next
  case False
  have "list_all balanced (concat (map cond_parts cs))"
    using assms(1) parts_facts calm_balanced by (auto simp: list_all_iff)
  with False balanced_join [OF balanced_literals(1)] show ?thesis by (simp add: combined_text_def)
qed

lemma combined_nonempty: "list_all cond_normal cs \<Longrightarrow> cs \<noteq> [] \<Longrightarrow> combined_text cs \<noteq> []"
  using trim_parts [of cs] build_nonempty by (cases cs) (auto simp: combined_text_def trimmed_def)

definition factor_text :: "RequestRuleGroup \<Rightarrow> string" where
  "factor_text g = ''('' @ (combined_text (rg_conditions g) @ '' ? '' @ rg_multiplier g @ '' : 1'') @ '')''"

lemma factor_built: "group_normal g \<Longrightarrow> buildRuleGroupFactor g = factor_text g"
  using combined_built [of "rg_conditions g"] combined_nonempty [of "rg_conditions g"] build_nonempty [of "hd (rg_conditions g)"] numeric_trim [of "rg_multiplier g"]
  by (cases "rg_conditions g") (auto simp: group_normal_def buildRuleGroupFactor_def factor_text_def Let_def)

lemma factor_match_built:
  assumes "isNumericLiteral m" "t \<noteq> []"
  shows "factor_match (''('' @ (t @ '' ? '' @ m @ '' : 1'') @ '')'') = Some (t, m)"
proof -
  have m: "list_all number_char (rev m)" "rev m \<noteq> []" using numeric_number_char [OF assms(1)] by (simp_all add: list_all_rev)
  have "\<not> number_char (hd (rev '' ? '' @ rev t))" by (simp add: number_char_def is_digit_def char_digit_def)
  with span1_append [OF m, of "rev '' ? '' @ rev t"] assms(2) show ?thesis
    by (simp add: factor_match_def)
qed

lemma parse_factor:
  assumes "group_normal g" "json_law parse"
  shows "tryParseRuleGroupFactor parse sn (factor_text g) = Inr (Some g)"
proof -
  have g: "list_all cond_normal (rg_conditions g)" "rg_conditions g \<noteq> []" "no_bounds_meet (rg_conditions g)" "isNumericLiteral (rg_multiplier g)"
    using assms(1) by (simp_all add: group_normal_def)
  show ?thesis
    using factor_match_built [OF g(4) combined_nonempty [OF g(1,2)]] parse_conditions [OF g(1,3,2) assms(2), of sn]
    by (simp add: tryParseRuleGroupFactor_def factor_text_def)
qed

lemma factor_facts:
  assumes "group_normal g"
  shows "sep_free (CHR '' '') (CHR ''*'') (factor_text g)" "trimmed (factor_text g)"
proof -
  have "balanced (combined_text (rg_conditions g) @ '' ? '' @ rg_multiplier g @ '' : 1'')"
    using assms combined_balanced calm_balanced [OF calm_numeric]
    by (intro balanced_append balanced_literals) (auto simp: group_normal_def)
  then show "sep_free (CHR '' '') (CHR ''*'') (factor_text g)"
    unfolding factor_text_def by (rule sep_free_parens) simp_all
  show "trimmed (factor_text g)" by (simp add: factor_text_def trimmed_def space_char_def space_unit_def)
qed

lemma rules_built: "list_all group_normal gs \<Longrightarrow> buildRequestRuleExpr gs = join '' * '' (map factor_text gs)"
proof -
  assume gs: "list_all group_normal gs"
  have "filter (\<lambda>f. f \<noteq> []) (map buildRuleGroupFactor gs) = map factor_text gs"
    using gs factor_built by (induction gs) (auto simp: factor_text_def)
  then show ?thesis by (simp add: buildRequestRuleExpr_def)
qed

lemma parse_factors_built:
  "list_all group_normal gs \<Longrightarrow> json_law parse \<Longrightarrow> parse_factors parse sn (map factor_text gs) = Inr (Some gs)"
  by (induction gs) (simp_all add: parse_factor)

lemma split_factors:
  assumes "list_all group_normal gs" "gs \<noteq> []"
  shows "splitTopLevelMultiply (join '' * '' (map factor_text gs)) = map factor_text gs"
    and "trimmed (join '' * '' (map factor_text gs))"
proof -
  have facts: "list_all (sep_free (CHR '' '') (CHR ''*'')) (map factor_text gs)" "list_all trimmed (map factor_text gs)"
    using assms(1) factor_facts by (auto simp: list_all_iff)
  then show "splitTopLevelMultiply (join '' * '' (map factor_text gs)) = map factor_text gs"
    unfolding splitTopLevelMultiply_def using assms(2) by (intro split_parts_join) (simp_all add: paren_step_def)
  from facts assms(2) show "trimmed (join '' * '' (map factor_text gs))" by (intro trimmed_join) simp_all
qed

lemma rules_read_back:
  assumes "json_law parse" "list_all group_normal gs"
  shows "tryParseRequestRuleExpr parse show_number (buildRequestRuleExpr gs) = Inr (Some gs)"
proof (cases "gs = []")
  case True
  then show ?thesis by (simp add: buildRequestRuleExpr_def tryParseRequestRuleExpr_def)
next
  case False
  note split = split_factors [OF assms(2) False]
  then have "trim (buildRequestRuleExpr gs) = buildRequestRuleExpr gs" "buildRequestRuleExpr gs \<noteq> []"
    using rules_built [OF assms(2)] trim_trimmed [OF split(2)] by (auto simp: trimmed_def)
  then show ?thesis
    using rules_built [OF assms(2)] split(1) parse_factors_built [OF assms(2,1), of show_number]
    by (simp add: tryParseRequestRuleExpr_def)
qed

text \<open>C36: What the rule editor writes is what it reads: the text built from rows in normal form (plain
  texts, time values in range, no comparison on a parameter, no neighbouring bounds that a range
  would express) is parsed into exactly these rows, group by group, overnight and within-day
  ranges included.\<close>

theorem request_rules_roundtrip:
  assumes "json_law parse" "list_all group_normal gs"
  shows "tryParseRequestRuleExpr parse show_number (buildRequestRuleExpr gs) = Inr (Some gs)"
  by (rule rules_read_back [OF assms])

lemma classify_rules:
  "list_all (\<lambda>p. is_rule_part parse sn p = Inr True) ps \<Longrightarrow> classify_parts parse sn ps = Inr (ps, [])"
  by (induction ps) simp_all

lemma factor_is_rule:
  assumes "group_normal g" "json_law parse"
  shows "is_rule_part parse sn (factor_text g) = Inr True"
proof -
  have gs: "list_all group_normal [g]" "[g] \<noteq> []" using assms(1) by simp_all
  have "trim (factor_text g) = factor_text g" "factor_text g \<noteq> []"
    using trim_trimmed [OF factor_facts(2) [OF assms(1)]] by (simp_all add: factor_text_def)
  then show ?thesis
    using split_factors(1) [OF gs] parse_factor [OF assms, of sn] by (simp add: is_rule_part_def tryParseRequestRuleExpr_def)
qed

lemma not_closed_early:
  assumes "\<forall>i \<le> length s. d + paren_sum (take i s) > 0" "d > 0"
  shows "\<not> parens_closed_early d (s @ [c])"
  using assms
proof (induction s arbitrary: d)
  case (Cons b s)
  have pos: "d + paren_step b > 0" using Cons.prems(1) by (auto dest: spec [of _ 1])
  have "d + paren_step b + paren_sum (take i s) > 0" if "i \<le> length s" for i
    using Cons.prems(1) that by (auto dest: spec [of _ "Suc i"] simp: add.assoc)
  with Cons.IH [OF _ pos] have "\<not> parens_closed_early (d + paren_step b) (s @ [c])" by simp
  moreover obtain e t where "s @ [c] = e # t" by (cases s) auto
  ultimately show ?case using pos by simp
qed simp

lemma full_outer_parens:
  assumes "balanced s"
  shows "hasFullOuterParens (''('' @ s @ '')'')"
proof -
  have "\<not> parens_closed_early 1 (s @ '')'')"
    using assms by (intro not_closed_early) (auto simp: balanced_def)
  moreover obtain e t where "s @ '')'' = e # t" by (cases s) auto
  ultimately have "\<not> parens_closed_early 0 (''('' @ s @ '')'')" by (simp add: paren_step_def)
  moreover have "paren_sum (''('' @ s @ '')'') = 0" using assms by (simp add: balanced_def paren_step_def)
  ultimately show ?thesis by (simp add: hasFullOuterParens_def paren_sum_def suffix_def)
qed

lemma unwrap_parens: "balanced s \<Longrightarrow> unwrapOuterParens (''('' @ s @ '')'') = unwrapOuterParens s"
proof -
  assume s: "balanced s"
  have "trim (''('' @ s @ '')'') = ''('' @ s @ '')''"
    by (rule trim_trimmed) (simp add: trimmed_def space_char_def space_unit_def)
  moreover have "butlast (tl (''('' @ s @ '')'')) = s" by simp
  ultimately show ?thesis
    unfolding unwrapOuterParens_def using unwrap_loop.simps [of "''('' @ s @ '')''"] full_outer_parens [OF s] by simp
qed

lemma combined_taken_apart:
  assumes "json_law parse" "list_all group_normal gs" "gs \<noteq> []"
    and "balanced base" "trimmed base" "is_rule_part parse show_number (''('' @ base @ '')'') = Inr False"
  shows "splitBillingExprAndRequestRules parse show_number (combineBillingExpr base (buildRequestRuleExpr gs)) =
    Inr (unwrapOuterParens base, buildRequestRuleExpr gs)"
proof -
  let ?price = "''('' @ base @ '')''" and ?rules = "map factor_text gs"
  note split = split_factors [OF assms(2,3)]
  have rules: "buildRequestRuleExpr gs = join '' * '' ?rules" by (rule rules_built [OF assms(2)])
  have whole: "combineBillingExpr base (buildRequestRuleExpr gs) = join '' * '' (?price # ?rules)"
    using assms(3,5) trim_trimmed [OF split(2)] split(2) unfolding rules
    by (auto simp: combineBillingExpr_def trim_trimmed trimmed_def Let_def join_Cons)
  have facts: "list_all (sep_free (CHR '' '') (CHR ''*'')) (?price # ?rules)" "list_all trimmed (?price # ?rules)"
    using assms(2) factor_facts sep_free_parens [OF assms(4), of "CHR '' ''" "CHR ''*''"]
    by (auto simp: list_all_iff trimmed_def space_char_def space_unit_def)
  have parts: "splitTopLevelMultiply (join '' * '' (?price # ?rules)) = ?price # ?rules"
    unfolding splitTopLevelMultiply_def using facts by (intro split_parts_join) (simp_all add: paren_step_def)
  have "trimmed (join '' * '' (?price # ?rules))" using facts(2) by (intro trimmed_join) simp_all
  then have trims: "trim (join '' * '' (?price # ?rules)) = join '' * '' (?price # ?rules)" by (rule trim_trimmed)
  have "classify_parts parse show_number ?rules = Inr (?rules, [])"
    using assms(1,2) factor_is_rule by (intro classify_rules) (auto simp: list_all_iff)
  then have "classify_parts parse show_number (?price # ?rules) = Inr (?rules, [?price])"
    using assms(6) by simp
  then show ?thesis
    unfolding whole splitBillingExprAndRequestRules_def Let_def trims parts
    using assms(3) rules unwrap_parens [OF assms(4)] by (simp add: join_Cons)
qed

text \<open>A price and its request rules that were combined are taken apart again: the rules come back
  as they were built, the price without redundant outer parentheses.\<close>

theorem combined_expr_splits:
  assumes "json_law parse" "list_all group_normal gs" "gs \<noteq> []"
    and "balanced base" "trimmed base" "is_rule_part parse show_number (''('' @ base @ '')'') = Inr False"
  shows "splitBillingExprAndRequestRules parse show_number (combineBillingExpr base (buildRequestRuleExpr gs)) =
    Inr (unwrapOuterParens base, buildRequestRuleExpr gs)"
  by (rule combined_taken_apart [OF assms])

section \<open>Rows that do not survive\<close>

lemma no_condition:
  assumes "path_ok p" "\<And>t. t \<in> {'' != nil'', '' != '' @ [quote_char, quote_char]} \<Longrightarrow> r \<noteq> t"
    and "eat '' != nil && '' r = None" "eat '' == '' r = None"
  shows "tryParseRequestCondition parse sn (source_text SourceParam p @ r) = Inr None"
proof -
  have call: "source_call SourceParam (source_text SourceParam p @ r) = Some (p, r)"
    "source_call SourceHeader (source_text SourceParam p @ r) = None"
    using source_call_text [OF assms(1)] source_call_other by simp_all
  have r: "r \<noteq> '' != nil''" using assms(2) by blast
  have "prefix ''param('' (source_text SourceParam p @ r)" by (simp add: source_text_def)
  then have "equals_match (source_text SourceParam p @ r) = None"
    using call assms(4) by (simp add: equals_match_def)
  moreover have "has_match src (source_text SourceParam p @ r) = None" for src by (simp add: has_match_def)
  moreover have "guarded_match (has_match SourceParam) (source_text SourceParam p @ r) = None"
    "guarded_match compare_match (source_text SourceParam p @ r) = None"
    using call assms(3) by (simp_all add: guarded_match_def)
  moreover have "exists_match SourceHeader t (source_text SourceParam p @ r) = None" for t
    using call(2) by (simp add: exists_match_def)
  moreover have "exists_match SourceParam '' != nil'' (source_text SourceParam p @ r) = None"
    using call(1) r by (simp add: exists_match_def)
  ultimately show ?thesis by (simp add: tryParseRequestCondition_def no_time_source)
qed

lemma guarded_unreadable:
  assumes "path_ok p" "calm t" "trimmed t" "tryParseRequestCondition parse sn t = Inr None"
    and "tryParseTimeCondition t = None"
  shows "tryParseRequestConditions parse sn (source_text SourceParam p @ '' != nil && '' @ t) = Inr None"
proof -
  let ?s = "source_text SourceParam p @ '' != nil''"
  obtain h u where "source_text SourceParam p = h # u" "\<not> space_char h"
    using source_text_head by blast
  then have "trimmed ?s" by (simp add: trimmed_def) (simp add: space_char_def space_unit_def)
  with calm_append [OF calm_texts(2) [OF assms(1)] calm_spaces(6)] have s: "calm ?s" "trimmed ?s" by blast+
  have cut: "source_text SourceParam p @ '' != nil && '' @ t = join '' && '' [?s, t]" by simp
  have "splitTopLevelAnd (join '' && '' [?s, t]) = [?s, t]"
    unfolding splitTopLevelAnd_def using s assms(2,3)
    by (intro split_parts_join) (simp_all add: paren_step_def calm_sep_free)
  moreover have "tryParseTimeCondition (trim (join '' && '' [?s, t])) = None"
    using trim_trimmed [OF trimmed_join [of "[?s, t]" "'' && ''"]] s assms(3) no_time_source [of SourceParam p "'' != nil && '' @ t"] by simp
  moreover have "tryParseTimeRangePair ?s t = None" using no_time_source by (simp add: tryParseTimeRangePair_def)
  ultimately show ?thesis
    unfolding cut tryParseRequestConditions_def
    using trim_trimmed [OF s(2)] trim_trimmed [OF assms(3)] parse_exists(2) [OF assms(1), of parse sn] assms(3,4)
    by (simp add: trimmed_def)
qed

definition one_rule :: "RequestCondition \<Rightarrow> string \<Rightarrow> RequestRuleGroup" where
  "one_rule c m = \<lparr>rg_conditions = [c], rg_multiplier = m\<rparr>"

lemma one_rule_built:
  assumes "isNumericLiteral m" "buildRequestConditionExpr c = t" "t \<noteq> []"
  shows "buildRequestRuleExpr [one_rule c m] = ''('' @ (t @ '' ? '' @ m @ '' : 1'') @ '')''"
  using assms numeric_trim [OF assms(1)] by (simp add: buildRequestRuleExpr_def buildRuleGroupFactor_def one_rule_def Let_def)

lemma one_rule_unreadable:
  assumes "isNumericLiteral m" "buildRequestConditionExpr c = t" "t \<noteq> []" "balanced t"
    and "tryParseRequestConditions parse sn t = Inr None"
  shows "tryParseRequestRuleExpr parse sn (buildRequestRuleExpr [one_rule c m]) = Inr None"
proof -
  let ?f = "''('' @ (t @ '' ? '' @ m @ '' : 1'') @ '')''"
  have "balanced (t @ '' ? '' @ m @ '' : 1'')"
    using assms(4) calm_balanced [OF calm_numeric [OF assms(1)]] by (intro balanced_append balanced_literals)
  then have f: "sep_free (CHR '' '') (CHR ''*'') ?f" by (rule sep_free_parens) simp_all
  have tr: "trimmed ?f" by (simp add: trimmed_def space_char_def space_unit_def)
  have "splitTopLevelMultiply (join '' * '' [?f]) = [?f]"
    unfolding splitTopLevelMultiply_def using f tr by (intro split_parts_join) (simp_all add: paren_step_def)
  moreover have "tryParseRuleGroupFactor parse sn ?f = Inr None"
    using factor_match_built [OF assms(1,3)] assms(5) by (simp add: tryParseRuleGroupFactor_def)
  ultimately show ?thesis
    unfolding one_rule_built [OF assms(1-3)] tryParseRequestRuleExpr_def using trim_trimmed [OF tr] by simp
qed

text \<open>
  A parameter that is compared, or searched for a text, is guarded against its absence; the parser splits at the \<open>&&\<close> of the guard,
  and the second half matches no pattern.
\<close>

definition comparison_value :: "string \<Rightarrow> string \<Rightarrow> bool" where
  "comparison_value mode v \<longleftrightarrow>
    mode = MATCH_CONTAINS \<and> plain_text v \<and> trim v = v \<or> mode \<in> {MATCH_GT, MATCH_GTE, MATCH_LT, MATCH_LTE} \<and> isNumericLiteral v"

lemma guarded_condition:
  assumes "path_ok p" "comparison_value mode v"
  shows "buildRequestConditionExpr (ph_cond SourceParam p mode v) \<noteq> []"
    "balanced (buildRequestConditionExpr (ph_cond SourceParam p mode v))"
    "tryParseRequestConditions parse sn (buildRequestConditionExpr (ph_cond SourceParam p mode v)) = Inr None"
proof -
  let ?s = "source_text SourceParam p"
  have p: "trim p = p" "p \<noteq> []" using assms(1) by (auto simp: path_ok_def trim_trimmed trimmed_def)
  have src: "source_name SourceParam @ ''('' @ json_quote p @ '')'' = ?s" by (rule json_source [OF assms(1)])
  define t where "t = (if mode = MATCH_CONTAINS then ''has'' @ ''('' @ (?s @ '', '' @ json_quote v) @ '')'' else ?s @ '' '' @ comparison_op mode @ '' '' @ v)"
  have built: "buildRequestConditionExpr (ph_cond SourceParam p mode v) = ?s @ '' != nil && '' @ t"
    using assms(2) [unfolded comparison_value_def]
  proof
    assume "mode = MATCH_CONTAINS \<and> plain_text v \<and> trim v = v"
    with p src show ?thesis by (simp add: ph_cond_def t_def Let_def match_defs buildExprLiteral_def)
  next
    assume v: "mode \<in> {MATCH_GT, MATCH_GTE, MATCH_LT, MATCH_LTE} \<and> isNumericLiteral v"
    then have "mode \<in> set (getRequestRuleMatchOptions SourceParam)" "mode \<noteq> MATCH_EXISTS" "mode \<noteq> MATCH_CONTAINS"
      by (auto simp: match_defs)
    with v p src numeric_trim [of v] show ?thesis
      by (simp add: ph_cond_def t_def Let_def del: getRequestRuleMatchOptions.simps)
  qed
  have t: "calm t \<and> trimmed t \<and> tryParseRequestCondition parse sn t = Inr None \<and> tryParseTimeCondition t = None"
    using assms(2) [unfolded comparison_value_def]
  proof
    assume v: "mode = MATCH_CONTAINS \<and> plain_text v \<and> trim v = v"
    let ?r = "?s @ '', '' @ json_quote v @ '')''"
    have eq: "t = ''has('' @ ?r" using v by (simp add: t_def)
    have "calm (''has'' @ ''('' @ (?s @ '', '' @ json_quote v) @ '')'')"
      using v calm_texts(2) [OF assms(1)] calm_texts(3) calm_spaces(7,8) by (blast intro: calm_append calm_parens)
    then have "calm t" using v by (simp add: t_def)
    moreover have "trimmed t" unfolding eq by (simp add: trimmed_def space_char_def space_unit_def)
    moreover have none: "source_call src t = None" "tryParseTimeCondition t = None" for src
      unfolding eq by (rule source_call_has) (rule no_time_has)
    moreover have "has_match SourceHeader t = None"
      using source_call_other [of SourceHeader SourceParam p] unfolding eq by (simp add: has_match_def)
    moreover have "equals_match t = None" using none(1) by (simp add: equals_match_def Let_def)
    ultimately show ?thesis by (simp add: tryParseRequestCondition_def exists_match_def guarded_match_def)
  next
    assume v: "mode \<in> {MATCH_GT, MATCH_GTE, MATCH_LT, MATCH_LTE} \<and> isNumericLiteral v"
    then have eq: "t = ?s @ '' '' @ comparison_op mode @ '' '' @ v" by (auto simp: t_def match_defs)
    have "calm (comparison_op mode)" by (simp add: comparison_op_def calm_flat)
    then have "calm t" unfolding eq using calm_texts(2) [OF assms(1)] calm_numeric v calm_spaces(1) by (intro calm_append) blast+
    moreover obtain h u where head: "?s = h # u" "\<not> space_char h" using source_text_head by blast
    have "v \<noteq> []" "\<not> space_char (last v)"
      using v numeric_number_char [of v] by (auto simp: list_all_iff dest: number_char_plain)
    then have "trimmed t" unfolding eq using head by (simp add: trimmed_def)
    moreover have "tryParseRequestCondition parse sn t = Inr None"
      unfolding eq by (rule no_condition [OF assms(1)]) (auto simp: comparison_op_def)
    moreover have "tryParseTimeCondition t = None" unfolding eq by (rule no_time_source)
    ultimately show ?thesis by blast
  qed
  have "balanced '' != nil && ''" by (rule balanced_flat) (simp add: paren_step_def)
  then have "balanced (?s @ '' != nil && '' @ t)"
    using calm_balanced [OF calm_texts(2) [OF assms(1)]] t calm_balanced by (blast intro: balanced_append)
  moreover have "tryParseRequestConditions parse sn (?s @ '' != nil && '' @ t) = Inr None"
    using guarded_unreadable [OF assms(1)] t by blast
  ultimately show "buildRequestConditionExpr (ph_cond SourceParam p mode v) \<noteq> []"
    "balanced (buildRequestConditionExpr (ph_cond SourceParam p mode v))"
    "tryParseRequestConditions parse sn (buildRequestConditionExpr (ph_cond SourceParam p mode v)) = Inr None"
    using built by simp_all
qed

text \<open>A rule that compares a request parameter, or looks for a text in it, is written but cannot be read back.\<close>

theorem parameter_rules_unreadable:
  assumes "path_ok p" "isNumericLiteral m" "comparison_value mode v"
  shows "buildRequestRuleExpr [one_rule (ph_cond SourceParam p mode v) m] \<noteq> [] \<and>
    tryParseRequestRuleExpr parse show_number (buildRequestRuleExpr [one_rule (ph_cond SourceParam p mode v) m]) = Inr None"
proof -
  note c = guarded_condition [OF assms(1,3)]
  show ?thesis using one_rule_unreadable [OF assms(2) refl c(1,2,3)] one_rule_built [OF assms(2) refl c(1)] by simp
qed

text \<open>A group of one such rule; its factor stands for no rule when an expression is taken apart.\<close>

definition compares_parameter :: "RequestRuleGroup \<Rightarrow> bool" where
  "compares_parameter g \<longleftrightarrow> isNumericLiteral (rg_multiplier g) \<and>
    (case rg_conditions g of
       [ParamHeaderCond c] \<Rightarrow> ph_source c = SourceParam \<and> path_ok (ph_path c) \<and> comparison_value (ph_mode c) (ph_value c)
     | _ \<Rightarrow> False)"

lemma compares_parameter_rule:
  assumes "compares_parameter g"
  obtains p mode v m where "g = one_rule (ph_cond SourceParam p mode v) m" "path_ok p" "isNumericLiteral m" "comparison_value mode v"
proof -
  obtain c where "rg_conditions g = [ParamHeaderCond c]" "ph_source c = SourceParam" "path_ok (ph_path c)"
      "comparison_value (ph_mode c) (ph_value c)" "isNumericLiteral (rg_multiplier g)"
    using assms unfolding compares_parameter_def
    by (cases "rg_conditions g"; cases "hd (rg_conditions g)"; cases "tl (rg_conditions g)") auto
  then show ?thesis by (intro that [of "ph_path c" "ph_mode c" "ph_value c" "rg_multiplier g"]) (simp_all add: one_rule_def ph_cond_def)
qed

lemma comparing_not_normal: "compares_parameter g \<Longrightarrow> \<not> group_normal g"
proof (erule compares_parameter_rule)
  fix p mode v m
  assume g: "g = one_rule (ph_cond SourceParam p mode v) m" and cv: "comparison_value mode v"
  have "mode \<in> {MATCH_CONTAINS, MATCH_GT, MATCH_GTE, MATCH_LT, MATCH_LTE}" using cv unfolding comparison_value_def by blast
  then have "mode \<noteq> MATCH_EXISTS" "mode \<noteq> MATCH_EQ" by (auto simp: match_defs)
  then show "\<not> group_normal g" unfolding g by (simp add: group_normal_def one_rule_def ph_cond_def ph_normal_def)
qed

lemma comparing_factor:
  assumes "compares_parameter g"
  shows "buildRuleGroupFactor g \<noteq> []" "sep_free (CHR '' '') (CHR ''*'') (buildRuleGroupFactor g)" "trimmed (buildRuleGroupFactor g)"
    "is_rule_part parse sn (buildRuleGroupFactor g) = Inr False"
proof -
  obtain p mode v m where g: "g = one_rule (ph_cond SourceParam p mode v) m" "path_ok p" "isNumericLiteral m" "comparison_value mode v"
    using compares_parameter_rule [OF assms] .
  let ?t = "buildRequestConditionExpr (ph_cond SourceParam p mode v)"
  let ?f = "''('' @ (?t @ '' ? '' @ m @ '' : 1'') @ '')''"
  note c = guarded_condition [OF g(2,4)]
  have built: "buildRuleGroupFactor g = ?f"
    using c(1) numeric_trim [OF g(3)] g(3) by (simp add: g(1) buildRuleGroupFactor_def one_rule_def Let_def)
  have "balanced (?t @ '' ? '' @ m @ '' : 1'')"
    using c(2) calm_balanced [OF calm_numeric [OF g(3)]] by (intro balanced_append balanced_literals)
  then show "sep_free (CHR '' '') (CHR ''*'') (buildRuleGroupFactor g)" unfolding built by (rule sep_free_parens) simp_all
  show "buildRuleGroupFactor g \<noteq> []" "trimmed (buildRuleGroupFactor g)"
    unfolding built by (simp_all add: trimmed_def space_char_def space_unit_def)
  have "buildRequestRuleExpr [g] = buildRuleGroupFactor g"
    using one_rule_built [OF g(3) refl c(1)] built by (simp add: g(1))
  with parameter_rules_unreadable [OF g(2,3,4), of parse sn] show "is_rule_part parse sn (buildRuleGroupFactor g) = Inr False"
    by (simp add: is_rule_part_def g(1))
qed

text \<open>Where one group compares a parameter, no rule is found at all.\<close>

lemma comparing_rules_lost:
  assumes "json_law parse" "list_all (\<lambda>g. group_normal g \<or> compares_parameter g) gs" "\<not> list_all group_normal gs"
    and "balanced base" "trimmed base" "is_rule_part parse show_number (''('' @ base @ '')'') = Inr False"
  defines "whole \<equiv> combineBillingExpr base (buildRequestRuleExpr gs)"
  shows "splitBillingExprAndRequestRules parse show_number whole = Inr (whole, [])"
proof -
  let ?price = "''('' @ base @ '')''" and ?rules = "map buildRuleGroupFactor gs"
  have each: "buildRuleGroupFactor g \<noteq> [] \<and> sep_free (CHR '' '') (CHR ''*'') (buildRuleGroupFactor g) \<and> trimmed (buildRuleGroupFactor g) \<and>
      is_rule_part parse show_number (buildRuleGroupFactor g) = Inr (group_normal g)" if "group_normal g \<or> compares_parameter g" for g
    using that comparing_factor [of g] comparing_not_normal [of g] factor_facts [of g] factor_is_rule [OF _ assms(1), of g show_number] factor_built [of g]
    by (auto simp: factor_text_def)
  then have all: "\<forall>g \<in> set gs. buildRuleGroupFactor g \<noteq> [] \<and> sep_free (CHR '' '') (CHR ''*'') (buildRuleGroupFactor g) \<and>
      trimmed (buildRuleGroupFactor g) \<and> is_rule_part parse show_number (buildRuleGroupFactor g) = Inr (group_normal g)"
    using assms(2) by (auto simp: list_all_iff)
  have ne: "gs \<noteq> []" using assms(3) by auto
  have "filter (\<lambda>f. f \<noteq> []) ?rules = ?rules" using all by (auto simp: filter_id_conv)
  then have rules: "buildRequestRuleExpr gs = join '' * '' ?rules" by (simp add: buildRequestRuleExpr_def)
  have tr: "list_all trimmed ?rules" using all by (auto simp: list_all_iff)
  with ne have "trimmed (join '' * '' ?rules)" by (intro trimmed_join) simp_all
  then have w: "whole = join '' * '' (?price # ?rules)"
    using assms(5) ne unfolding whole_def rules
    by (auto simp: combineBillingExpr_def trim_trimmed trimmed_def Let_def join_Cons)
  have facts: "list_all (sep_free (CHR '' '') (CHR ''*'')) (?price # ?rules)" "list_all trimmed (?price # ?rules)"
    using all tr sep_free_parens [OF assms(4), of "CHR '' ''" "CHR ''*''"] by (auto simp: list_all_iff trimmed_def space_char_def space_unit_def)
  have parts: "splitTopLevelMultiply whole = ?price # ?rules"
    unfolding w splitTopLevelMultiply_def using facts by (intro split_parts_join) (simp_all add: paren_step_def)
  have trims: "trim whole = whole" unfolding w using trimmed_join [OF _ facts(2)] by (intro trim_trimmed) simp
  have "classify_parts parse show_number (map buildRuleGroupFactor hs) =
      Inr (map buildRuleGroupFactor (filter group_normal hs), map buildRuleGroupFactor (filter (\<lambda>g. \<not> group_normal g) hs))"
    if "set hs \<subseteq> set gs" for hs using that all by (induction hs) auto
  then have "classify_parts parse show_number (?price # ?rules) =
      Inr (map buildRuleGroupFactor (filter group_normal gs), ?price # map buildRuleGroupFactor (filter (\<lambda>g. \<not> group_normal g) gs))"
    using assms(6) by simp
  moreover have "filter (\<lambda>g. \<not> group_normal g) gs \<noteq> []" using assms(3) by (auto simp: list_all_iff filter_empty_conv)
  ultimately show ?thesis
    unfolding splitBillingExprAndRequestRules_def Let_def trims parts using ne w by simp
qed

section \<open>Instances\<close>

text \<open>A reader of plain string literals.\<close>

definition sample_literals :: "string \<Rightarrow> json option" where
  "sample_literals s = (if length s \<ge> 2 \<and> hd s = quote_char \<and> last s = quote_char then Some (JStr (butlast (tl s))) else None)"

lemma sample_literals_law: "json_law sample_literals"
  by (simp add: json_law_def sample_literals_def json_quote_plain)

definition peak_rules :: "RequestRuleGroup list" where
  "peak_rules =
    [\<lparr>rg_conditions = [ph_cond SourceParam ''service_tier'' MATCH_EQ ''fast'',
        TimeCond \<lparr>tc_timeFunc = Hour, tc_timezone = ''Asia/Shanghai'', tc_mode = MATCH_RANGE, tc_value = [], tc_rangeStart = ''9'', tc_rangeEnd = ''12''\<rparr>],
      rg_multiplier = ''2''\<rparr>,
     \<lparr>rg_conditions = [TimeCond \<lparr>tc_timeFunc = Hour, tc_timezone = ''UTC'', tc_mode = MATCH_RANGE, tc_value = [], tc_rangeStart = ''21'', tc_rangeEnd = ''6''\<rparr>,
        ph_cond SourceHeader ''x-beta'' MATCH_CONTAINS ''fast mode''],
      rg_multiplier = ''1.5''\<rparr>]"

lemma peak_rules_normal: "list_all group_normal peak_rules"
  by code_simp

theorem request_rules_roundtrip_witness:
  "json_law sample_literals \<and> list_all group_normal peak_rules \<and> buildRequestRuleExpr peak_rules \<noteq> [] \<and>
   tryParseRequestRuleExpr sample_literals (\<lambda>_. []) (buildRequestRuleExpr peak_rules) = Inr (Some peak_rules)"
  using request_rules_roundtrip [OF sample_literals_law peak_rules_normal] sample_literals_law peak_rules_normal
    split_factors(2) [OF peak_rules_normal] rules_built [OF peak_rules_normal] by (auto simp: trimmed_def peak_rules_def)

theorem combined_expr_splits_witness:
  "splitBillingExprAndRequestRules sample_literals (\<lambda>_. []) (combineBillingExpr ''(tier(1) + 2)'' (buildRequestRuleExpr peak_rules)) =
    Inr (''tier(1) + 2'', buildRequestRuleExpr peak_rules)"
proof -
  have flat: "balanced ''tier''" "balanced ''1''" "balanced '' + 2''" by (rule balanced_flat, simp add: paren_step_def)+
  from balanced_append [OF flat(1) balanced_append [OF balanced_parens [OF flat(2)] flat(3)]]
  have inner: "balanced ''tier(1) + 2''" by simp
  from balanced_parens [OF this] have price: "balanced ''(tier(1) + 2)''" by simp
  have base: "trimmed ''(tier(1) + 2)''" "peak_rules \<noteq> []"
    "is_rule_part sample_literals (\<lambda>_. []) (''('' @ ''(tier(1) + 2)'' @ '')'') = Inr False"
    by code_simp+
  have "\<not> hasFullOuterParens ''tier(1) + 2''" "trim ''tier(1) + 2'' = ''tier(1) + 2''"
    by code_simp+
  with inner have "unwrapOuterParens ''(tier(1) + 2)'' = ''tier(1) + 2''"
    using unwrap_parens [of "''tier(1) + 2''"] unwrap_loop.simps [of "''tier(1) + 2''"] by (simp add: unwrapOuterParens_def)
  with combined_expr_splits [OF sample_literals_law peak_rules_normal base(2) price base(1,3)] show ?thesis by simp
qed

theorem parameter_rules_unreadable_witness:
  "tryParseRequestRuleExpr sample_literals (\<lambda>_. []) (buildRequestRuleExpr [one_rule (ph_cond SourceParam ''n'' MATCH_GT ''5'') ''2'']) = Inr None"
proof -
  have "path_ok ''n''" "isNumericLiteral ''2''" "comparison_value MATCH_GT ''5''" by code_simp+
  with parameter_rules_unreadable [of "''n''" "''2''" MATCH_GT "''5''" sample_literals "\<lambda>_. []"] show ?thesis by simp
qed

end
