(* ===== verification/Task_Configs.thy ===== *)
theory Task_Configs
  imports Task_Roundtrip Billing_Roundtrip
begin

text \<open>
  A task price survives its text: the tiers of a configuration in normal form, and with them the price
  matrix of the editor, are read back from the expression that is generated for them.
\<close>

section \<open>Round trips\<close>

lemma generated_chain:
  assumes "ts = normalizeTaskVisualConfig rank tiers schema" "chained ts" "getTaskNumberFields rank schema \<noteq> []"
  shows "generateTaskExprFromConfig rank show_number tiers schema = chain_text show_number (getTaskNumberFields rank schema) ts"
proof (cases ts rule: chained.cases)
  case (3 t t' ts')
  have "generateTaskExprFromConfig rank show_number tiers schema =
      (case generate_parts show_number (getTaskNumberFields rank schema) ts of None \<Rightarrow> [] | Some parts \<Rightarrow> join '' : '' parts)"
    using assms(3) unfolding generateTaskExprFromConfig_def Let_def assms(1) [symmetric] 3 by (simp only: if_False list.case)
  with chain_generated [OF assms(2), of show_number "getTaskNumberFields rank schema"] show ?thesis
    by (cases "generate_parts show_number (getTaskNumberFields rank schema) ts") simp_all
next
  case (2 t)
  with assms(3) show ?thesis unfolding generateTaskExprFromConfig_def Let_def assms(1) [symmetric] by simp
qed (use assms(2) in simp)

lemma generated_parsed:
  assumes "json_law parse" "schema_ok schema" "schema_plain schema" "getTaskNumberFields rank schema \<noteq> []"
    and "ts = normalizeTaskVisualConfig rank tiers schema" "chained ts"
    and "list_all (\<lambda>t. task_text (vt_label t) \<and> tier_law show_number t) ts"
  shows "parseTaskTiersFromExpr parse show_number (generateTaskExprFromConfig rank show_number tiers schema) schema = ts"
    "generateTaskExprFromConfig rank show_number tiers schema \<noteq> []"
proof -
  have "list_all (normal_tier rank schema) ts" using normalized_tiers [OF assms(2)] assms(5) by simp
  with assms(7) have "list_all (tier_ok show_number schema (getTaskNumberFields rank schema)) ts"
    using schema_condition [OF assms(2,3)] by (fastforce simp: list_all_iff normal_tier_def tier_ok_def split: option.splits)
  moreover have "schema \<noteq> []" using assms(4) by (auto simp: getTaskNumberFields_def)
  ultimately show "parseTaskTiersFromExpr parse show_number (generateTaskExprFromConfig rank show_number tiers schema) schema = ts"
    unfolding generated_chain [OF assms(5,6,4)]
    using chain_tiers [OF assms(1) number_fields_ok [OF assms(2,3)] assms(4)] assms(6) by simp
  show "generateTaskExprFromConfig rank show_number tiers schema \<noteq> []"
    unfolding generated_chain [OF assms(5,6,4)] using chain_trimmed [OF assms(6)] by (simp add: trimmed_def)
qed

text \<open>C14: A task price survives its text: the expression generated for a configuration whose tiers
  have conditions down to a last one without is read back as exactly the normalized configuration:
  the labels, the conditions, the constants and the price of every number field, tokens per million
  included.\<close>

theorem task_expr_roundtrip:
  assumes "json_law parse" "schema_ok schema" "schema_plain schema" "getTaskNumberFields rank schema \<noteq> []"
    and "ts = normalizeTaskVisualConfig rank tiers schema" "chained ts"
    and "list_all (\<lambda>t. task_text (vt_label t) \<and> tier_law show_number t) ts"
  shows "tryParseTaskVisualConfig rank parse show_number (generateTaskExprFromConfig rank show_number tiers schema) schema = Some ts"
proof -
  have ne: "ts \<noteq> []" using assms(6) by auto
  have "list_all (normal_tier rank schema) ts" using normalized_tiers [OF assms(2)] assms(5) by simp
  with ne generated_parsed [OF assms] show ?thesis by (simp add: tryParseTaskVisualConfig_def normal_tier_kept)
qed

text \<open>The numbers of a row of the price matrix.\<close>

definition row_law :: "(number \<Rightarrow> string) \<Rightarrow> TaskMatrixRow \<Rightarrow> bool" where
  "row_law show_number row \<longleftrightarrow> list_all (\<lambda>x. x \<ge> 0 \<and> number_law show_number x) (0 # mx_constant row # map snd (mx_unitPrices row))"

lemma row_price_law: "row_law show_number row \<Longrightarrow> (f, x) \<in> set (row_prices nf (mx_unitPrices row)) \<Longrightarrow> x \<ge> 0 \<and> number_law show_number x"
  by (auto simp: row_law_def row_prices_def nullish_def list_all_iff split: option.splits dest!: map_of_SomeD bspec)

lemma row_tier_normal:
  assumes "schema_ok schema" "row_law show_number row" "vt_constant tier = mx_constant row"
    and "vt_unitPrices tier = row_prices (getTaskNumberFields rank schema) (mx_unitPrices row)"
  shows "tier_normal (getTaskNumberFields rank schema) tier" "tier_law show_number tier"
proof -
  have up: "vt_unitPrices tier = map (\<lambda>(f, d). (f, nullish (map_of (mx_unitPrices row) f) 0)) (getTaskNumberFields rank schema)"
    using assms(4) by (simp add: row_prices_def)
  have "map (\<lambda>(f, d). (f, price_of (vt_unitPrices tier) f)) (getTaskNumberFields rank schema) = vt_unitPrices tier"
    unfolding up using price_of_map [OF number_fields_distinct [OF assms(1)]] by auto
  then show "tier_normal (getTaskNumberFields rank schema) tier" "tier_law show_number tier"
    using row_price_law [OF assms(2)] assms(2-4) by (auto simp: tier_normal_def tier_law_def list_all_iff row_law_def)
qed

lemma task_text_join: "list_all task_text ps \<Longrightarrow> task_text (join [char_of (183 :: nat)] ps)"
proof (induction ps rule: induct_list012)
  case (3 p q ps)
  have "task_text [char_of (183 :: nat)]" by code_simp
  with 3 show ?case by (simp add: task_text_def plain_text_def)
qed (simp_all add: task_text_def plain_text_def)

lemma join_nonempty: "list_all (\<lambda>p. p \<noteq> []) ps \<Longrightarrow> ps \<noteq> [] \<Longrightarrow> join sep ps \<noteq> []"
  by (induction ps rule: induct_list012) simp_all

lemma combination_texts:
  assumes "schema_ok schema" "schema_plain schema" "combination_of (getTaskEnumFields rank schema) c" "(f, v) \<in> set c"
  shows "v \<noteq> [] \<and> task_text v" "\<exists>d. map_of (getTaskEnumFields rank schema) f = Some d \<and> v \<in> set (enum_values d)"
proof -
  obtain d where d: "(f, d) \<in> set (getTaskEnumFields rank schema)" "v \<in> set (enum_values d)"
    using assms(3,4) by (force simp: combination_of_def in_set_conv_nth list_all2_conv_all_nth)
  then show "\<exists>d. map_of (getTaskEnumFields rank schema) f = Some d \<and> v \<in> set (enum_values d)"
    using enum_fields_ok(1) [OF assms(1)] by (auto intro: map_of_is_SomeI)
  from d enum_fields_ok(3) [OF assms(1), of rank] assms(2) show "v \<noteq> [] \<and> task_text v"
    by (fastforce simp: schema_plain_def list_all_iff)
qed

lemma row_tier_ok:
  assumes "schema_ok schema" "schema_plain schema" "combination_of (getTaskEnumFields rank schema) (mx_combination row)"
    and "row_law show_number row"
  shows "normal_tier rank schema (row_tier rank (getTaskNumberFields rank schema) b row)"
    "task_text (vt_label (row_tier rank (getTaskNumberFields rank schema) b row))"
    "tier_law show_number (row_tier rank (getTaskNumberFields rank schema) b row)"
proof -
  let ?t = "row_tier rank (getTaskNumberFields rank schema) b row"
  let ?vs = "map snd (sort_key (rank \<circ> fst) (mx_combination row))"
  note texts = combination_texts [OF assms(1-3)]
  have vs: "list_all (\<lambda>v. v \<noteq> [] \<and> task_text v) ?vs" using texts(1) by (auto simp: list_all_iff)
  have "task_text ''base''" by code_simp
  with vs show "task_text (vt_label ?t)"
    using task_text_join [of ?vs] by (simp add: row_tier_def taskMatrixRowLabel_def Let_def list_all_iff)
  have "vt_label ?t \<noteq> []"
    using vs join_nonempty [of ?vs] by (simp add: row_tier_def taskMatrixRowLabel_def Let_def list_all_iff)
  moreover have "list_all (\<lambda>c. case map_of (getTaskEnumFields rank schema) (vc_field c) of
      None \<Rightarrow> False | Some d \<Rightarrow> vc_value c \<in> set (enum_values d)) (vt_conditions ?t)"
    using texts(2) by (force simp: list_all_iff row_tier_def combination_conditions_def)
  moreover note normal = row_tier_normal [OF assms(1,4), of ?t rank]
  ultimately show "normal_tier rank schema ?t" "tier_law show_number ?t"
    by (simp_all add: normal_tier_def) (simp_all add: row_tier_def)
qed

lemma chained_append: "ts \<noteq> [] \<Longrightarrow> list_all (\<lambda>t. vt_conditions t \<noteq> []) us \<Longrightarrow> chained ts \<Longrightarrow> chained (us @ ts)"
proof (induction us)
  case (Cons u us)
  then show ?case by (cases "us @ ts") auto
qed simp

lemma combination_nonempty:
  assumes "schema_ok schema" "matrix_for rank schema rows" "length rows > 1" "row \<in> set rows"
  shows "mx_combination row \<noteq> []"
proof
  assume "mx_combination row = []"
  moreover have "combination_of (getTaskEnumFields rank schema) (mx_combination row)"
    using row_keys_distinct(2) [OF assms(1,2)] assms(4) by (simp add: list_all_iff)
  ultimately have "getTaskEnumFields rank schema = []" by (simp add: combination_of_def)
  then have "getTaskEnumCombinations rank schema = [[]]" by (simp add: getTaskEnumCombinations_def)
  with assms(2,3) show False by (auto simp: matrix_for_def)
qed

lemma sort_empty: "sort_key k xs = [] \<longleftrightarrow> xs = []"
  by (metis length_0_conv length_sort)

lemma matrix_tiers_ok:
  assumes "schema_ok schema" "schema_plain schema" "matrix_for rank schema rows" "rows \<noteq> []"
    and "getTaskNumberFields rank schema \<noteq> []" "list_all (row_law show_number) rows" "ts = taskMatrixToTiers rank rows schema"
  shows "chained ts" "list_all (normal_tier rank schema) ts" "list_all (\<lambda>t. task_text (vt_label t) \<and> tier_law show_number t) ts"
proof -
  let ?nf = "getTaskNumberFields rank schema"
  obtain r rs where rows: "rows = r # rs" using assms(4) by (cases rows) auto
  have row: "combination_of (getTaskEnumFields rank schema) (mx_combination row)" "row_law show_number row" if "row \<in> set rows" for row
    using row_keys_distinct(2) [OF assms(1,3)] assms(6) that by (simp_all add: list_all_iff)
  note ok = row_tier_ok [OF assms(1,2) row]
  have "chained ts \<and> list_all (normal_tier rank schema) ts \<and> list_all (\<lambda>t. task_text (vt_label t) \<and> tier_law show_number t) ts"
  proof (cases "uniform_rows ?nf r rows")
    case True
    define base where "base = \<lparr>vt_label = ''base'', vt_conditions = [], vt_constant = mx_constant r, vt_unitPrices = row_prices ?nf (mx_unitPrices r)\<rparr>"
    have "ts = [base]" using True rows assms(5,7) by (simp add: taskMatrixToTiers_def base_def)
    moreover have "tier_normal ?nf base" "tier_law show_number base"
      using row_tier_normal [OF assms(1) row(2) [of r], of base rank] rows by (simp_all add: base_def)
    moreover have "task_text ''base''" by code_simp
    ultimately show ?thesis by (simp add: normal_tier_def base_def)
  next
    case False
    have ts: "ts = map (row_tier rank ?nf False) (butlast rows) @ [row_tier rank ?nf True (last rows)]"
      using tiers_of_rows [OF rows False assms(5)] assms(7) by simp
    have "uniform_rows ?nf r [r]" by (auto simp: uniform_rows_def list_all_iff)
    with False rows have "length rows > 1" by (cases rs) auto
    then have "vt_conditions (row_tier rank ?nf False row) \<noteq> []" if "row \<in> set (butlast rows)" for row
      using combination_nonempty [OF assms(1,3) _ in_set_butlastD [OF that]] by (simp add: row_tier_def combination_conditions_def sort_empty)
    moreover have "chained [row_tier rank ?nf True (last rows)]" by (simp add: row_tier_def)
    ultimately have "chained ts" unfolding ts by (intro chained_append) (auto simp: list_all_iff)
    with ok assms(4) show ?thesis unfolding ts by (auto simp: list_all_iff dest: in_set_butlastD)
  qed
  then show "chained ts" "list_all (normal_tier rank schema) ts" "list_all (\<lambda>t. task_text (vt_label t) \<and> tier_law show_number t) ts"
    by blast+
qed

text \<open>C20: A price matrix survives being stored as text: the expression generated from a full matrix of
  prices, shortened to one tier when all rows agree and with the last combination left to the
  fallback, is read back as exactly the rows it was made from.\<close>

theorem matrix_expr_roundtrip:
  assumes "json_law parse" "schema_ok schema" "schema_plain schema" "getTaskNumberFields rank schema \<noteq> []"
    and "matrix_for rank schema rows" "rows \<noteq> []" "list_all (row_normal (getTaskNumberFields rank schema)) rows"
    and "list_all (row_law show_number) rows"
  shows "tryParseTaskMatrixConfig rank parse show_number
    (generateTaskExprFromConfig rank show_number (taskMatrixToTiers rank rows schema) schema) schema = Some rows"
proof -
  define ts where "ts = taskMatrixToTiers rank rows schema"
  note ok = matrix_tiers_ok [OF assms(2,3,5,6,4,8) ts_def]
  have "ts \<noteq> []" using ok(1) by auto
  then have "ts = normalizeTaskVisualConfig rank ts schema" using normal_tier_kept [OF ok(2)] by simp
  from generated_parsed [OF assms(1-4) this ok(1,3)]
  show ?thesis
    using price_matrix_roundtrip [OF assms(2,5,6,4,7)] by (simp add: tryParseTaskMatrixConfig_def ts_def)
qed

text \<open>The prices of the video plugin, shown as digits.\<close>

definition show_price :: "number \<Rightarrow> string" where
  "show_price x = show_nat (nat \<lfloor>x\<rfloor>)"

lemma video_plain: "schema_plain video_schema" "list_all (row_law show_price) video_rows"
  by code_simp+

lemma video_tiers:
  "chained (normalizeTaskVisualConfig (\<lambda>s. s) (taskMatrixToTiers (\<lambda>s. s) video_rows video_schema) video_schema)"
  "list_all (\<lambda>t. task_text (vt_label t) \<and> tier_law show_price t)
    (normalizeTaskVisualConfig (\<lambda>s. s) (taskMatrixToTiers (\<lambda>s. s) video_rows video_schema) video_schema)"
  by code_simp+

theorem task_expr_roundtrip_witness:
  "tryParseTaskVisualConfig (\<lambda>s. s) sample_literals show_price
    (generateTaskExprFromConfig (\<lambda>s. s) show_price (taskMatrixToTiers (\<lambda>s. s) video_rows video_schema) video_schema) video_schema =
   Some (normalizeTaskVisualConfig (\<lambda>s. s) (taskMatrixToTiers (\<lambda>s. s) video_rows video_schema) video_schema)"
  using task_expr_roundtrip [OF sample_literals_law video_ok(1) video_plain(1) video_ok(3) refl video_tiers] .

theorem matrix_expr_roundtrip_witness:
  "tryParseTaskMatrixConfig (\<lambda>s. s) sample_literals show_price
    (generateTaskExprFromConfig (\<lambda>s. s) show_price (taskMatrixToTiers (\<lambda>s. s) video_rows video_schema) video_schema) video_schema =
   Some video_rows"
  by (rule matrix_expr_roundtrip [OF sample_literals_law video_ok(1) video_plain(1) video_ok(3,2)])
    (use video_ok video_plain in \<open>simp_all add: video_rows_def\<close>)

end
