(* ===== verification/Ordered_Map.thy ===== *)
theory Ordered_Map
  imports Prelude
begin

text \<open>
  A JavaScript \<open>Map\<close> or \<open>Set\<close> in its insertion order, and the loop that adds the elements of a list up
  under their keys.  The locales \<open>accumulator\<close> and \<open>accumulator_tag\<close> are the contract such a loop has
  with its callers.
\<close>

section \<open>Maps and sets\<close>

text \<open>\<open>new Set(xs)\<close> in the order of first insertion.\<close>

definition unique :: "'a list \<Rightarrow> 'a list" where
  "unique xs = rev (remdups (rev xs))"

text \<open>\<open>map.set(k, f(map.get(k) ?? d))\<close>.\<close>

definition upsert :: "'k \<Rightarrow> 'v \<Rightarrow> ('v \<Rightarrow> 'v) \<Rightarrow> ('k \<times> 'v) list \<Rightarrow> ('k \<times> 'v) list" where
  "upsert k d f m =
    (if k \<in> fst ` set m then map (\<lambda>(k', v). if k' = k then (k', f v) else (k', v)) m else m @ [(k, f d)])"

section \<open>Accumulating into a map\<close>

definition accumulate :: "('x \<Rightarrow> 'k) \<Rightarrow> ('x \<Rightarrow> 'v) \<Rightarrow> ('x \<Rightarrow> 'v \<Rightarrow> 'v) \<Rightarrow> 'x list \<Rightarrow> ('k \<times> 'v) list" where
  "accumulate key fresh grow xs = foldl (\<lambda>m x. upsert (key x) (fresh x) (grow x) m) [] xs"

lemma accumulate_Nil [simp]: "accumulate key fresh grow [] = []"
  by (simp add: accumulate_def)

lemma accumulate_snoc: "accumulate key fresh grow (xs @ [x]) = upsert (key x) (fresh x) (grow x) (accumulate key fresh grow xs)"
  by (simp add: accumulate_def)

lemma upsert_keys: "map fst (upsert k d f m) = (if k \<in> fst ` set m then map fst m else map fst m @ [k])"
  by (auto simp: upsert_def case_prod_beta)

lemma set_unique [simp]: "set (unique xs) = set xs"
  by (simp add: unique_def)

lemma distinct_unique [simp]: "distinct (unique xs)"
  by (simp add: unique_def)

lemma unique_snoc: "unique (xs @ [x]) = (if x \<in> set xs then unique xs else unique xs @ [x])"
  by (simp add: unique_def)

lemma accumulate_keys: "map fst (accumulate key fresh grow xs) = unique (map key xs)"
proof (induction xs rule: rev_induct)
  case (snoc x xs)
  have "fst ` set (accumulate key fresh grow xs) = set (map fst (accumulate key fresh grow xs))" by simp
  then show ?case by (simp add: accumulate_snoc upsert_keys unique_snoc snoc)
qed (simp add: unique_def)

lemma accumulate_distinct: "distinct (map fst (accumulate key fresh grow xs))"
  by (simp add: accumulate_keys)

lemma accumulate_key_set: "fst ` set (accumulate key fresh grow xs) = key ` set xs"
  using arg_cong [OF accumulate_keys [of key fresh grow xs], of set] by simp

text \<open>The contract of an accumulator: what is added under a key is what its entry amounts to.\<close>

locale accumulator =
  fixes key :: "'x \<Rightarrow> 'k" and fresh :: "'x \<Rightarrow> 'v" and grow :: "'x \<Rightarrow> 'v \<Rightarrow> 'v"
    and amount :: "'v \<Rightarrow> number" and weight :: "'x \<Rightarrow> number"
  assumes amount_fresh: "amount (fresh x) = 0"
    and amount_grow: "amount (grow x v) = amount v + weight x"
begin

lemma upsert_sum:
  assumes "distinct (map fst m)"
  shows "sum_list (map (\<lambda>kv. amount (snd kv)) (filter (\<lambda>kv. P (fst kv)) (upsert (key x) (fresh x) (grow x) m))) =
    sum_list (map (\<lambda>kv. amount (snd kv)) (filter (\<lambda>kv. P (fst kv)) m)) + (if P (key x) then weight x else 0)"
proof (cases "key x \<in> fst ` set m")
  case True
  have "sum_list (map (\<lambda>kv. amount (snd kv)) (filter (\<lambda>kv. P (fst kv)) (map (\<lambda>(k', v). if k' = key x then (k', grow x v) else (k', v)) m))) =
      sum_list (map (\<lambda>kv. amount (snd kv)) (filter (\<lambda>kv. P (fst kv)) m)) + (if P (key x) then weight x else 0)"
    using assms True
  proof (induction m)
    case (Cons kv m)
    show ?case
    proof (cases "fst kv = key x")
      case True
      with Cons.prems have "key x \<notin> fst ` set m" by simp
      then have "map (\<lambda>(k', v). if k' = key x then (k', grow x v) else (k', v)) m = m"
        by (intro map_idI) (auto simp: rev_image_eqI)
      moreover obtain v where "kv = (key x, v)" using True by (cases kv) simp
      ultimately show ?thesis by (simp add: amount_grow)
    next
      case False
      with Cons show ?thesis by (cases kv) simp
    qed
  qed simp
  with True show ?thesis by (simp add: upsert_def)
next
  case False
  then show ?thesis by (simp add: upsert_def amount_fresh amount_grow)
qed

lemma accumulated_sum:
  "sum_list (map (\<lambda>kv. amount (snd kv)) (filter (\<lambda>kv. P (fst kv)) (accumulate key fresh grow xs))) = sum_list (map weight (filter (\<lambda>x. P (key x)) xs))"
  by (induction xs rule: rev_induct) (simp_all add: accumulate_snoc upsert_sum [OF accumulate_distinct])

end

text \<open>The contract of what an entry keeps from the element that made it.\<close>

locale accumulator_tag =
  fixes key :: "'x \<Rightarrow> 'k" and fresh :: "'x \<Rightarrow> 'v" and grow :: "'x \<Rightarrow> 'v \<Rightarrow> 'v"
    and tag :: "'v \<Rightarrow> 't" and tag_of :: "'x \<Rightarrow> 't"
  assumes tag_fresh: "tag (fresh x) = tag_of x"
    and tag_grow: "tag (grow x v) = tag v"
begin

lemma accumulated_tag:
  assumes "(k, v) \<in> set (accumulate key fresh grow xs)"
  shows "\<exists>x \<in> set xs. key x = k \<and> tag v = tag_of x"
  using assms
proof (induction xs arbitrary: v rule: rev_induct)
  case (snoc x xs)
  let ?m = "accumulate key fresh grow xs"
  consider "(k, v) \<in> set ?m" | w where "(k, w) \<in> set ?m" "v = grow x w" | "k = key x" "v = grow x (fresh x)"
    using snoc.prems by (auto simp: accumulate_snoc upsert_def split: if_splits prod.splits)
  then show ?case
  proof cases
    case 1
    with snoc.IH show ?thesis by fastforce
  next
    case (2 w)
    with snoc.IH [of w] show ?thesis by (auto simp: tag_grow)
  next
    case 3
    then show ?thesis by (simp add: tag_fresh tag_grow)
  qed
qed simp

end

end
