(* ===== verification/Flow_Graph.thy ===== *)
theory Flow_Graph
  imports Ordered_Map "HOL-Library.Char_ord" "HOL-Library.List_Lexorder" "HOL-Library.Product_Lexorder"
begin

text \<open>
  The flow chart of the dashboard (\<open>features/dashboard/lib/flow.ts\<close>): usage rows are turned into paths
  through the visible stages (user, node, token, group, model, channel), the paths are added up
  into nodes and links, nodes beyond a limit are merged or hidden, labels are masked, and a selected
  node or link is highlighted.

  A \<open>Map\<close> is an association list in insertion order.  The environment holds what comes from outside:
  the collation key behind \<open>localeCompare\<close>, the texts of numbers, the colours of the chart library, and
  the mask text, whose bullets are no characters below 256.
\<close>

section \<open>Data\<close>

datatype FlowMetric = MetricQuota | MetricTokens | MetricRequests
datatype FlowOverflowMode = OverflowAggregate | OverflowHide
datatype FlowRole = FlowUser | FlowAdmin | FlowRoot
datatype FlowNodeKind = KindUser | KindNode | KindToken | KindGroup | KindModel | KindChannel

record FlowQuotaDataItem =
  fq_user_id :: "number option"
  fq_username :: "string option"
  fq_node_name :: "string option"
  fq_use_group :: "string option"
  fq_token_id :: "number option"
  fq_token_name :: "string option"
  fq_channel_id :: "number option"
  fq_channel_name :: "string option"
  fq_model_name :: "string option"
  fq_token_used :: "number option"
  fq_count :: "number option"
  fq_quota :: "number option"

record FlowMetrics =
  fm_quota :: number
  fm_tokens :: number
  fm_requests :: number

record FlowPathNode =
  pn_id :: string
  pn_label :: string
  pn_kind :: FlowNodeKind

record FlowNodeFilter =
  nf_kind :: FlowNodeKind
  nf_id :: string

record FlowLinkSelection =
  ls_source :: string
  ls_target :: string

record DashboardFlowNode =
  fn_id :: string
  fn_label :: string
  fn_kind :: FlowNodeKind
  fn_value :: number
  fn_requests :: number
  fn_quota :: number
  fn_tokens :: number
  fn_color :: string
  fn_colorKey :: string
  fn_highlighted :: "bool option"
  fn_dimmed :: "bool option"

record DashboardFlowLink =
  fl_source :: string
  fl_target :: string
  fl_value :: number
  fl_requests :: number
  fl_quota :: number
  fl_tokens :: number
  fl_sourceLabel :: string
  fl_targetLabel :: string
  fl_color :: string
  fl_linkColor :: string
  fl_linkAlpha :: number
  fl_hoverColor :: string
  fl_colorKey :: string
  fl_share :: number
  fl_highlighted :: "bool option"
  fl_dimmed :: "bool option"

record DashboardFlowGraph =
  fg_nodes :: "DashboardFlowNode list"
  fg_links :: "DashboardFlowLink list"

record PreparedFlowPath =
  pp_path :: "FlowPathNode list"
  pp_metrics :: FlowMetrics

record FlowNodeRank =
  nr_node :: FlowPathNode
  nr_value :: number

record FlowPathContext =
  fc_deletedTokenLabel :: "(number \<Rightarrow> string) option"

record FlowGraphOptions =
  go_topNodeLimit :: "number option"
  go_overflowMode :: "FlowOverflowMode option"
  go_otherNodeLabel :: "(FlowNodeKind \<Rightarrow> string) option"
  go_activeNode :: "FlowNodeFilter option"
  go_activeLink :: "FlowLinkSelection option"
  go_maskSensitive :: bool

record FlowBuildOptions = FlowGraphOptions +
  bo_role :: "FlowRole option"
  bo_selectedUsers :: "string list option"
  bo_selectedNodes :: "FlowNodeFilter list option"
  bo_colorPalette :: "string list option"
  bo_visibleStages :: "FlowNodeKind list option"
  bo_deletedTokenLabel :: "(number \<Rightarrow> string) option"

record FlowSummary =
  su_quota :: number
  su_tokens :: number
  su_requests :: number

record FlowUserFilterOption =
  fo_value :: string
  fo_label :: string
  fo_valueLabel :: string
  fo_valueRaw :: number
  fo_color :: string

record FlowNodeFilterOption = FlowUserFilterOption +
  fo_kind :: FlowNodeKind

record FlowFilterOptions =
  ff_users :: "FlowUserFilterOption list"
  ff_nodes :: "FlowNodeFilterOption list"

record ProcessedFlowData =
  pf_summary :: FlowSummary
  pf_flow :: DashboardFlowGraph
  pf_filterOptions :: FlowFilterOptions

record FlowEnv =
  fe_rank :: "string \<Rightarrow> string"
  fe_show :: "number \<Rightarrow> string"
  fe_format :: "number \<Rightarrow> string"
  fe_fixed2 :: "number \<Rightarrow> string"
  fe_colors :: "nat \<Rightarrow> string list"
  fe_mask :: string

definition DEFAULT_FLOW_CHART_COLOR :: string where "DEFAULT_FLOW_CHART_COLOR = ''#1664FF''"
definition MIN_FLOW_STAGES :: nat where "MIN_FLOW_STAGES = 2"
definition SENSITIVE_FLOW_KINDS :: "FlowNodeKind set" where
  "SENSITIVE_FLOW_KINDS = {KindUser, KindNode, KindToken, KindGroup, KindChannel}"

fun kind_name :: "FlowNodeKind \<Rightarrow> string" where
  "kind_name KindUser = ''user''"
| "kind_name KindNode = ''node''"
| "kind_name KindToken = ''token''"
| "kind_name KindGroup = ''group''"
| "kind_name KindModel = ''model''"
| "kind_name KindChannel = ''channel''"

definition OTHER_FLOW_NODE_IDS :: "FlowNodeKind \<Rightarrow> string" where
  "OTHER_FLOW_NODE_IDS kind = kind_name kind @ '':__other__''"

definition DEFAULT_OTHER_FLOW_NODE_LABELS :: "FlowNodeKind \<Rightarrow> string" where
  "DEFAULT_OTHER_FLOW_NODE_LABELS kind = ''Other '' @ kind_name kind @ ''s''"

definition FLOW_NODE_KINDS :: "FlowNodeKind list" where
  "FLOW_NODE_KINDS = [KindUser, KindNode, KindToken, KindGroup, KindModel, KindChannel]"

definition OTHER_FLOW_NODE_ID_SET :: "string list" where
  "OTHER_FLOW_NODE_ID_SET = map OTHER_FLOW_NODE_IDS FLOW_NODE_KINDS"

section \<open>Paths\<close>

definition numberValue :: "number option \<Rightarrow> number" where
  "numberValue v = nullish v 0"

definition rowMetrics :: "FlowQuotaDataItem \<Rightarrow> FlowMetrics" where
  "rowMetrics row = \<lparr>fm_quota = numberValue (fq_quota row), fm_tokens = numberValue (fq_token_used row),
    fm_requests = numberValue (fq_count row)\<rparr>"

fun metricValue :: "FlowMetrics \<Rightarrow> FlowMetric \<Rightarrow> number" where
  "metricValue m MetricRequests = fm_requests m"
| "metricValue m MetricTokens = fm_tokens m"
| "metricValue m MetricQuota = fm_quota m"

definition userNode :: "FlowEnv \<Rightarrow> FlowQuotaDataItem \<Rightarrow> FlowPathNode" where
  "userNode env row =
    (let userID = numberValue (fq_user_id row) in
     \<lparr>pn_id = ''user:'' @ (if userID > 0 then fe_show env userID else or_string (fq_username row) ''unknown''),
      pn_label = or_string (fq_username row) (if userID > 0 then ''user-'' @ fe_show env userID else ''Unknown User''),
      pn_kind = KindUser\<rparr>)"

definition nodeNameNode :: "FlowQuotaDataItem \<Rightarrow> FlowPathNode" where
  "nodeNameNode row =
    (let nodeName = or_string (fq_node_name row) ''default-node'' in
     \<lparr>pn_id = ''node:'' @ nodeName, pn_label = nodeName, pn_kind = KindNode\<rparr>)"

definition deletedTokenLabel :: "FlowEnv \<Rightarrow> number \<Rightarrow> FlowPathContext \<Rightarrow> string" where
  "deletedTokenLabel env tokenID ctx =
    (if tokenID \<le> 0 then ''Unknown Token''
     else case fc_deletedTokenLabel ctx of Some f \<Rightarrow> f tokenID | None \<Rightarrow> ''token-'' @ fe_show env tokenID)"

definition tokenNode :: "FlowEnv \<Rightarrow> FlowQuotaDataItem \<Rightarrow> FlowPathContext \<Rightarrow> FlowPathNode" where
  "tokenNode env row ctx =
    (let tokenID = numberValue (fq_token_id row) in
     \<lparr>pn_id = ''token:'' @ (if tokenID > 0 then fe_show env tokenID else or_string (fq_token_name row) ''unknown''),
      pn_label = or_string (fq_token_name row) (deletedTokenLabel env tokenID ctx),
      pn_kind = KindToken\<rparr>)"

definition groupNode :: "FlowQuotaDataItem \<Rightarrow> FlowPathNode" where
  "groupNode row =
    (let useGroup = or_string (fq_use_group row) ''unknown'' in
     \<lparr>pn_id = ''group:'' @ useGroup, pn_label = useGroup, pn_kind = KindGroup\<rparr>)"

definition modelNode :: "FlowQuotaDataItem \<Rightarrow> FlowPathNode" where
  "modelNode row =
    \<lparr>pn_id = ''model:'' @ or_string (fq_model_name row) ''unknown'',
     pn_label = or_string (fq_model_name row) ''Unknown Model'', pn_kind = KindModel\<rparr>"

definition channelNode :: "FlowEnv \<Rightarrow> FlowQuotaDataItem \<Rightarrow> FlowPathNode" where
  "channelNode env row =
    (let channelID = numberValue (fq_channel_id row) in
     \<lparr>pn_id = ''channel:'' @ (if channelID > 0 then fe_show env channelID else or_string (fq_channel_name row) ''unknown''),
      pn_label = or_string (fq_channel_name row) (if channelID > 0 then ''channel-'' @ fe_show env channelID else ''Unknown''),
      pn_kind = KindChannel\<rparr>)"

fun NODE_BUILDERS :: "FlowEnv \<Rightarrow> FlowNodeKind \<Rightarrow> FlowQuotaDataItem \<Rightarrow> FlowPathContext \<Rightarrow> FlowPathNode" where
  "NODE_BUILDERS env KindUser row ctx = userNode env row"
| "NODE_BUILDERS env KindNode row ctx = nodeNameNode row"
| "NODE_BUILDERS env KindToken row ctx = tokenNode env row ctx"
| "NODE_BUILDERS env KindGroup row ctx = groupNode row"
| "NODE_BUILDERS env KindModel row ctx = modelNode row"
| "NODE_BUILDERS env KindChannel row ctx = channelNode env row"

fun getFlowStages :: "FlowRole \<Rightarrow> FlowNodeKind list" where
  "getFlowStages FlowRoot = [KindUser, KindNode, KindToken, KindGroup, KindModel, KindChannel]"
| "getFlowStages FlowAdmin = [KindUser, KindGroup, KindModel, KindChannel]"
| "getFlowStages FlowUser = [KindToken, KindModel]"

definition resolveVisibleStages :: "FlowRole \<Rightarrow> FlowNodeKind list option \<Rightarrow> FlowNodeKind list" where
  "resolveVisibleStages role visibleStages =
    (let stages = getFlowStages role in
     case visibleStages of
       None \<Rightarrow> stages
     | Some visible \<Rightarrow>
         (let filtered = filter (\<lambda>s. s \<in> set visible) stages in
          if length filtered \<ge> MIN_FLOW_STAGES then filtered else stages))"

definition flowPathForStages :: "FlowEnv \<Rightarrow> FlowQuotaDataItem \<Rightarrow> FlowNodeKind list \<Rightarrow> FlowPathContext \<Rightarrow> FlowPathNode list" where
  "flowPathForStages env row stages ctx = map (\<lambda>stage. NODE_BUILDERS env stage row ctx) stages"

section \<open>Colours\<close>

definition given_palette :: "string list option \<Rightarrow> string list option" where
  "given_palette palette = (case palette of Some (c # cs) \<Rightarrow> Some (c # cs) | _ \<Rightarrow> None)"

definition colorAt :: "FlowEnv \<Rightarrow> nat \<Rightarrow> string list option \<Rightarrow> string" where
  "colorAt env i palette =
    (let colors = nullish (given_palette palette) (fe_colors env (i + 1)) in
     if colors = [] then DEFAULT_FLOW_CHART_COLOR else colors ! (i mod length colors))"

definition colorPalette :: "FlowEnv \<Rightarrow> nat \<Rightarrow> string list option \<Rightarrow> string list" where
  "colorPalette env colorCount palette =
    (case given_palette palette of
      Some p \<Rightarrow> p
    | None \<Rightarrow> if fe_colors env colorCount \<noteq> [] then fe_colors env colorCount else [DEFAULT_FLOW_CHART_COLOR])"

definition hex_value :: "char \<Rightarrow> nat option" where
  "hex_value c = (let n = of_char c :: nat in
     if 48 \<le> n \<and> n \<le> 57 then Some (n - 48)
     else if 97 \<le> n \<and> n \<le> 102 then Some (n - 87)
     else if 65 \<le> n \<and> n \<le> 70 then Some (n - 55)
     else None)"

definition hex_pair :: "char \<Rightarrow> char \<Rightarrow> string" where
  "hex_pair a b = show_nat (16 * nullish (hex_value a) 0 + nullish (hex_value b) 0)"

definition alphaColor :: "FlowEnv \<Rightarrow> string \<Rightarrow> number \<Rightarrow> string \<times> number" where
  "alphaColor env color alpha =
    (let normalized = trim color;
         hex = (if prefix ''#'' normalized then drop 1 normalized else normalized) in
     if length hex = 6 \<and> list_all (\<lambda>c. hex_value c \<noteq> None) hex then
       (''rgba('' @ hex_pair (hex ! 0) (hex ! 1) @ '', '' @ hex_pair (hex ! 2) (hex ! 3) @ '', '' @
        hex_pair (hex ! 4) (hex ! 5) @ '', '' @ fe_fixed2 env alpha @ '')'', 1)
     else (normalized, alpha))"

definition stableColorMap :: "FlowEnv \<Rightarrow> string list \<Rightarrow> string list option \<Rightarrow> (string \<times> string) list" where
  "stableColorMap env keys palette =
    (let uniqueKeys = unique keys; colors = colorPalette env (length uniqueKeys) palette in
     map (\<lambda>(i, key). (key, colorAt env i (Some colors))) (enumerate 0 uniqueKeys))"

section \<open>Filters\<close>

definition filterRows :: "FlowEnv \<Rightarrow> FlowQuotaDataItem list \<Rightarrow> string list option \<Rightarrow> FlowQuotaDataItem list" where
  "filterRows env rows selectedUsers =
    (let selected = nullish selectedUsers [] in
     if selected = [] then rows else filter (\<lambda>row. pn_id (userNode env row) \<in> set selected) rows)"

definition NUL :: char where "NUL = char_of (0 :: nat)"

definition nodeFilterKey :: "FlowNodeFilter \<Rightarrow> string" where
  "nodeFilterKey f = kind_name (nf_kind f) @ [NUL] @ nf_id f"

definition normalizeSelectedNodeFilters ::
    "FlowNodeFilter list option \<Rightarrow> FlowNodeKind list \<Rightarrow> (FlowNodeKind \<times> string list) list" where
  "normalizeSelectedNodeFilters selectedNodes stages =
    foldl (\<lambda>filters f. if nf_kind f \<in> set stages then upsert (nf_kind f) [] (\<lambda>ids. unique (ids @ [nf_id f])) filters else filters)
      [] (nullish selectedNodes [])"

definition path_ids :: "FlowPathNode list \<Rightarrow> FlowNodeKind \<Rightarrow> string list" where
  "path_ids path kind = map pn_id (filter (\<lambda>n. pn_kind n = kind) path)"

definition pathMatchesNodeFilters :: "FlowPathNode list \<Rightarrow> (FlowNodeKind \<times> string list) list \<Rightarrow> bool" where
  "pathMatchesNodeFilters path filters =
    list_all (\<lambda>(kind, selectedIds). path_ids path kind \<noteq> [] \<and> list_ex (\<lambda>i. i \<in> set (path_ids path kind)) selectedIds) filters"

definition filterRowsByNodes ::
    "FlowEnv \<Rightarrow> FlowQuotaDataItem list \<Rightarrow> FlowNodeFilter list option \<Rightarrow> FlowNodeKind list \<Rightarrow> FlowPathContext \<Rightarrow> FlowQuotaDataItem list" where
  "filterRowsByNodes env rows selectedNodes stages ctx =
    (let filters = normalizeSelectedNodeFilters selectedNodes stages in
     if filters = [] then rows
     else filter (\<lambda>row. pathMatchesNodeFilters (flowPathForStages env row stages ctx) filters) rows)"

definition selectedNodeFiltersExceptKind :: "FlowNodeFilter list option \<Rightarrow> FlowNodeKind \<Rightarrow> FlowNodeFilter list option" where
  "selectedNodeFiltersExceptKind selectedNodes kind =
    (let filtered = filter (\<lambda>f. nf_kind f \<noteq> kind) (nullish selectedNodes []) in
     if filtered \<noteq> [] then Some filtered else None)"

section \<open>Nodes and links\<close>

definition new_node :: "FlowPathNode \<Rightarrow> string \<Rightarrow> string \<Rightarrow> DashboardFlowNode" where
  "new_node n color colorKey =
    \<lparr>fn_id = pn_id n, fn_label = pn_label n, fn_kind = pn_kind n, fn_value = 0, fn_requests = 0, fn_quota = 0, fn_tokens = 0,
     fn_color = color, fn_colorKey = colorKey, fn_highlighted = None, fn_dimmed = None\<rparr>"

definition grow_node :: "FlowMetrics \<Rightarrow> FlowMetric \<Rightarrow> DashboardFlowNode \<Rightarrow> DashboardFlowNode" where
  "grow_node metrics metric n =
    n\<lparr>fn_value := fn_value n + metricValue metrics metric, fn_requests := fn_requests n + fm_requests metrics,
      fn_quota := fn_quota n + fm_quota metrics, fn_tokens := fn_tokens n + fm_tokens metrics\<rparr>"

definition addNode ::
    "(string \<times> DashboardFlowNode) list \<Rightarrow> FlowPathNode \<Rightarrow> FlowMetrics \<Rightarrow> FlowMetric \<Rightarrow> string \<Rightarrow> string \<Rightarrow>
     (string \<times> DashboardFlowNode) list" where
  "addNode m pathNode metrics metric color colorKey =
    upsert (pn_id pathNode) (new_node pathNode color colorKey) (grow_node metrics metric) m"

definition pathLinkKey :: "FlowPathNode \<Rightarrow> FlowPathNode \<Rightarrow> string" where
  "pathLinkKey source target = pn_id source @ [NUL] @ pn_id target"

definition new_link :: "FlowPathNode \<Rightarrow> FlowPathNode \<Rightarrow> string \<Rightarrow> string \<Rightarrow> DashboardFlowLink" where
  "new_link source target color colorKey =
    \<lparr>fl_source = pn_id source, fl_target = pn_id target, fl_value = 0, fl_requests = 0, fl_quota = 0, fl_tokens = 0,
     fl_sourceLabel = pn_label source, fl_targetLabel = pn_label target, fl_color = color, fl_linkColor = color,
     fl_linkAlpha = 1, fl_hoverColor = color, fl_colorKey = colorKey, fl_share = 0, fl_highlighted = None, fl_dimmed = None\<rparr>"

definition grow_link :: "FlowMetrics \<Rightarrow> FlowMetric \<Rightarrow> DashboardFlowLink \<Rightarrow> DashboardFlowLink" where
  "grow_link metrics metric l =
    l\<lparr>fl_value := fl_value l + metricValue metrics metric, fl_requests := fl_requests l + fm_requests metrics,
      fl_quota := fl_quota l + fm_quota metrics, fl_tokens := fl_tokens l + fm_tokens metrics\<rparr>"

definition addLink ::
    "(string \<times> DashboardFlowLink) list \<Rightarrow> FlowPathNode \<Rightarrow> FlowPathNode \<Rightarrow> FlowMetrics \<Rightarrow> FlowMetric \<Rightarrow> string \<Rightarrow> string \<Rightarrow>
     (string \<times> DashboardFlowLink) list" where
  "addLink m source target metrics metric color colorKey =
    upsert (pathLinkKey source target) (new_link source target color colorKey) (grow_link metrics metric) m"

definition linkStableKey :: "DashboardFlowLink \<Rightarrow> string" where
  "linkStableKey l = fl_source l @ [NUL] @ fl_target l"

text \<open>The links of one source, strongest first, get increasing opacities.\<close>

definition source_links :: "FlowEnv \<Rightarrow> DashboardFlowLink list \<Rightarrow> string \<Rightarrow> DashboardFlowLink list" where
  "source_links env links source =
    sort_key (\<lambda>l. (- fl_value l, fe_rank env (linkStableKey l))) (filter (\<lambda>l. fl_source l = source) links)"

definition link_alpha :: "nat \<Rightarrow> nat \<Rightarrow> number" where
  "link_alpha n i = (if n = 1 then 34 / 100 else 24 / 100 + (of_nat i / of_nat (max (n - 1) 1)) * (20 / 100))"

definition display_link :: "FlowEnv \<Rightarrow> DashboardFlowLink list \<Rightarrow> DashboardFlowLink \<Rightarrow> DashboardFlowLink" where
  "display_link env links l =
    (let sortedLinks = source_links env links (fl_source l);
         i = nullish (find_index (\<lambda>k. linkStableKey k = linkStableKey l) sortedLinks) 0;
         (color, alpha) = alphaColor env (fl_color l) (link_alpha (length sortedLinks) i) in
     l\<lparr>fl_linkColor := color, fl_linkAlpha := alpha, fl_hoverColor := fl_color l\<rparr>)"

definition assignLinkDisplayColors :: "FlowEnv \<Rightarrow> DashboardFlowLink list \<Rightarrow> DashboardFlowLink list" where
  "assignLinkDisplayColors env links = map (display_link env links) links"

definition buildSummary :: "FlowQuotaDataItem list \<Rightarrow> FlowSummary" where
  "buildSummary rows =
    foldl (\<lambda>s row. let m = rowMetrics row in
        s\<lparr>su_quota := su_quota s + fm_quota m, su_tokens := su_tokens s + fm_tokens m, su_requests := su_requests s + fm_requests m\<rparr>)
      \<lparr>su_quota = 0, su_tokens = 0, su_requests = 0\<rparr> rows"

section \<open>The largest nodes\<close>

definition normalizeTopNodeLimit :: "number option \<Rightarrow> nat option" where
  "normalizeTopNodeLimit limit = (case limit of None \<Rightarrow> None | Some l \<Rightarrow> if \<lfloor>l\<rfloor> > 0 then Some (nat \<lfloor>l\<rfloor>) else None)"

definition otherFlowNode :: "FlowNodeKind \<Rightarrow> (FlowNodeKind \<Rightarrow> string) option \<Rightarrow> FlowPathNode" where
  "otherFlowNode kind labeler =
    \<lparr>pn_id = OTHER_FLOW_NODE_IDS kind,
     pn_label = (case labeler of Some f \<Rightarrow> f kind | None \<Rightarrow> DEFAULT_OTHER_FLOW_NODE_LABELS kind), pn_kind = kind\<rparr>"

type_synonym stage_totals = "(FlowNodeKind \<times> (string \<times> FlowNodeRank) list) list"

definition rank_node :: "stage_totals \<Rightarrow> FlowPathNode \<times> number \<Rightarrow> stage_totals" where
  "rank_node totals nv =
    map (\<lambda>(kind, ranks). (kind,
      if kind = pn_kind (fst nv)
      then upsert (pn_id (fst nv)) \<lparr>nr_node = fst nv, nr_value = 0\<rparr> (\<lambda>r. r\<lparr>nr_value := nr_value r + snd nv\<rparr>) ranks
      else ranks)) totals"

definition rank_row :: "FlowEnv \<Rightarrow> FlowMetric \<Rightarrow> FlowNodeKind list \<Rightarrow> FlowPathContext \<Rightarrow> stage_totals \<Rightarrow> FlowQuotaDataItem \<Rightarrow> stage_totals" where
  "rank_row env metric stages ctx totals row =
    foldl rank_node totals (map (\<lambda>n. (n, metricValue (rowMetrics row) metric)) (flowPathForStages env row stages ctx))"

definition top_ids :: "FlowEnv \<Rightarrow> nat \<Rightarrow> (string \<times> FlowNodeRank) list \<Rightarrow> string list" where
  "top_ids env limit ranks =
    map (pn_id \<circ> nr_node) (take limit
      (sort_key (\<lambda>r. (- nr_value r, fe_rank env (pn_label (nr_node r)), fe_rank env (pn_id (nr_node r)))) (map snd ranks)))"

definition buildTopNodeSets ::
    "FlowEnv \<Rightarrow> FlowQuotaDataItem list \<Rightarrow> FlowMetric \<Rightarrow> FlowNodeKind list \<Rightarrow> nat option \<Rightarrow> FlowPathContext \<Rightarrow>
     (FlowNodeKind \<times> string list) list option" where
  "buildTopNodeSets env rows metric stages limit ctx =
    (case limit of
      None \<Rightarrow> None
    | Some l \<Rightarrow>
        Some (map (\<lambda>(kind, ranks). (kind, top_ids env l ranks))
          (foldl (rank_row env metric stages ctx) (map (\<lambda>s. (s, [])) stages) rows)))"

definition isTopFlowNode :: "FlowPathNode \<Rightarrow> (FlowNodeKind \<times> string list) list option \<Rightarrow> bool" where
  "isTopFlowNode n topNodeSets =
    (case Option.bind topNodeSets (\<lambda>s. map_of s (pn_kind n)) of None \<Rightarrow> True | Some ids \<Rightarrow> pn_id n \<in> set ids)"

definition applyTopNodeLimit ::
    "FlowPathNode list \<Rightarrow> (FlowNodeKind \<times> string list) list option \<Rightarrow> FlowOverflowMode \<Rightarrow> (FlowNodeKind \<Rightarrow> string) option \<Rightarrow>
     FlowPathNode list option" where
  "applyTopNodeLimit path topNodeSets mode labeler =
    (if topNodeSets = None then Some path
     else if \<not> list_ex (\<lambda>n. \<not> isTopFlowNode n topNodeSets) path then Some path
     else if mode = OverflowHide then None
     else Some (map (\<lambda>n. if isTopFlowNode n topNodeSets then n else otherFlowNode (pn_kind n) labeler) path))"

section \<open>Highlights and masks\<close>

text \<open>The steps of a path, from each node to the next.\<close>

definition path_links :: "'a list \<Rightarrow> ('a \<times> 'a) list" where
  "path_links path = zip path (tl path)"

definition pathContainsFlowNode :: "FlowPathNode list \<Rightarrow> FlowNodeFilter \<Rightarrow> bool" where
  "pathContainsFlowNode path f = list_ex (\<lambda>n. pn_kind n = nf_kind f \<and> pn_id n = nf_id f) path"

definition pathContainsFlowLink :: "FlowPathNode list \<Rightarrow> FlowLinkSelection \<Rightarrow> bool" where
  "pathContainsFlowLink path link = list_ex (\<lambda>(a, b). pn_id a = ls_source link \<and> pn_id b = ls_target link) (path_links path)"

definition matchesPath :: "FlowNodeFilter option \<Rightarrow> FlowLinkSelection option \<Rightarrow> FlowPathNode list \<Rightarrow> bool" where
  "matchesPath activeNode activeLink path =
    (case activeLink of
      Some link \<Rightarrow> pathContainsFlowLink path link
    | None \<Rightarrow> (case activeNode of Some f \<Rightarrow> pathContainsFlowNode path f | None \<Rightarrow> False))"

definition buildFlowHighlightSets ::
    "PreparedFlowPath list \<Rightarrow> FlowNodeFilter option \<Rightarrow> FlowLinkSelection option \<Rightarrow> FlowNodeKind list \<Rightarrow> (string set \<times> string set) option" where
  "buildFlowHighlightSets preparedPaths activeNode activeLink stages =
    (let nodeActive = (case activeNode of Some f \<Rightarrow> nf_kind f \<in> set stages | None \<Rightarrow> False);
         matching = filter (matchesPath activeNode activeLink) (map pp_path preparedPaths);
         highlightedNodes = set (map pn_id (concat matching));
         highlightedLinks = set (map (\<lambda>(a, b). pathLinkKey a b) (concat (map path_links matching))) in
     if \<not> nodeActive \<and> activeLink = None then None
     else if highlightedNodes = {} then None
     else Some (highlightedNodes, highlightedLinks))"

definition maskFlowLabel :: "FlowEnv \<Rightarrow> string \<Rightarrow> string" where
  "maskFlowLabel env label = (if label = [] then label else fe_mask env)"

definition masked_node :: "DashboardFlowNode \<Rightarrow> bool" where
  "masked_node n \<longleftrightarrow> fn_kind n \<in> SENSITIVE_FLOW_KINDS \<and> fn_id n \<notin> set OTHER_FLOW_NODE_ID_SET"

definition mask_link :: "(string \<times> string) list \<Rightarrow> DashboardFlowLink \<Rightarrow> DashboardFlowLink" where
  "mask_link maskedById l =
    l\<lparr>fl_sourceLabel := nullish (map_of maskedById (fl_source l)) (fl_sourceLabel l),
      fl_targetLabel := nullish (map_of maskedById (fl_target l)) (fl_targetLabel l)\<rparr>"

definition maskFlowGraphLabels ::
    "FlowEnv \<Rightarrow> (string \<times> DashboardFlowNode) list \<Rightarrow> (string \<times> DashboardFlowLink) list \<Rightarrow>
     (string \<times> DashboardFlowNode) list \<times> (string \<times> DashboardFlowLink) list" where
  "maskFlowGraphLabels env nodes links =
    (let maskedById = map (\<lambda>(k, n). (fn_id n, maskFlowLabel env (fn_label n))) (filter (\<lambda>(k, n). masked_node n) nodes) in
     (map (\<lambda>(k, n). (k, if masked_node n then n\<lparr>fn_label := maskFlowLabel env (fn_label n)\<rparr> else n)) nodes,
      map (\<lambda>(k, l). (k, mask_link maskedById l)) links))"

definition highlight_node :: "(string set \<times> string set) option \<Rightarrow> DashboardFlowNode \<Rightarrow> DashboardFlowNode" where
  "highlight_node highlightSets n =
    (case highlightSets of
      None \<Rightarrow> n
    | Some (nodes, links) \<Rightarrow> n\<lparr>fn_highlighted := Some (fn_id n \<in> nodes), fn_dimmed := Some (fn_id n \<notin> nodes)\<rparr>)"

definition highlight_link :: "(string set \<times> string set) option \<Rightarrow> DashboardFlowLink \<Rightarrow> DashboardFlowLink" where
  "highlight_link highlightSets l =
    (case highlightSets of
      None \<Rightarrow> l
    | Some (nodes, links) \<Rightarrow> l\<lparr>fl_highlighted := Some (linkStableKey l \<in> links), fl_dimmed := Some (linkStableKey l \<notin> links)\<rparr>)"

section \<open>The graph\<close>

definition preparePaths ::
    "FlowEnv \<Rightarrow> FlowQuotaDataItem list \<Rightarrow> FlowMetric \<Rightarrow> FlowNodeKind list \<Rightarrow> FlowPathContext \<Rightarrow> FlowGraphOptions \<Rightarrow> PreparedFlowPath list" where
  "preparePaths env rows metric stages ctx options =
    (let topNodeSets = buildTopNodeSets env rows metric stages (normalizeTopNodeLimit (go_topNodeLimit options)) ctx;
         overflowMode = nullish (go_overflowMode options) OverflowAggregate in
     List.map_filter (\<lambda>row.
       map_option (\<lambda>path. \<lparr>pp_path = path, pp_metrics = rowMetrics row\<rparr>)
         (applyTopNodeLimit (flowPathForStages env row stages ctx) topNodeSets overflowMode (go_otherNodeLabel options))) rows)"

definition first_ids :: "PreparedFlowPath list \<Rightarrow> string list" where
  "first_ids preparedPaths =
    List.map_filter (\<lambda>p. case pp_path p of n # _ \<Rightarrow> (if pn_id n \<noteq> [] then Some (pn_id n) else None) | [] \<Rightarrow> None) preparedPaths"

type_synonym flow_maps = "(string \<times> DashboardFlowNode) list \<times> (string \<times> DashboardFlowLink) list"

definition add_path ::
    "FlowEnv \<Rightarrow> FlowMetric \<Rightarrow> (string \<times> string) list \<Rightarrow> string list option \<Rightarrow> flow_maps \<Rightarrow> PreparedFlowPath \<Rightarrow> flow_maps" where
  "add_path env metric colors palette maps prepared =
    (case pp_path prepared of
      [] \<Rightarrow> maps
    | start # _ \<Rightarrow>
        (let color = nullish (map_of colors (pn_id start)) (colorAt env 0 palette) in
         (foldl (\<lambda>m n. addNode m n (pp_metrics prepared) metric color (pn_id start)) (fst maps) (pp_path prepared),
          foldl (\<lambda>m ab. addLink m (fst ab) (snd ab) (pp_metrics prepared) metric color (pn_id start)) (snd maps) (path_links (pp_path prepared)))))"

definition share_links :: "string list \<Rightarrow> DashboardFlowLink list \<Rightarrow> DashboardFlowLink list" where
  "share_links firstStepSources flowLinks =
    (let t = sum_list (map fl_value (filter (\<lambda>l. fl_source l \<in> set firstStepSources) flowLinks)) in
     map (\<lambda>l. l\<lparr>fl_share := (if t > 0 then fl_value l / t else 0)\<rparr>) flowLinks)"

definition buildFlowGraph ::
    "FlowEnv \<Rightarrow> FlowQuotaDataItem list \<Rightarrow> FlowMetric \<Rightarrow> FlowRole \<Rightarrow> string list option \<Rightarrow> FlowNodeKind list option \<Rightarrow> FlowPathContext \<Rightarrow>
     FlowGraphOptions \<Rightarrow> DashboardFlowGraph" where
  "buildFlowGraph env rows metric role palette visibleStages ctx options =
    (let stages = resolveVisibleStages role visibleStages;
         preparedPaths = preparePaths env rows metric stages ctx options;
         colors = stableColorMap env (sort_key (fe_rank env) (first_ids preparedPaths)) palette;
         built = foldl (add_path env metric colors palette) ([], []) preparedPaths;
         shown = (if go_maskSensitive options then maskFlowGraphLabels env (fst built) (snd built) else built);
         highlightSets = buildFlowHighlightSets preparedPaths (go_activeNode options) (go_activeLink options) stages;
         nodes = map (highlight_node highlightSets \<circ> snd) (fst shown);
         links = map (highlight_link highlightSets \<circ> snd) (snd shown);
         flowLinks = sort_key (\<lambda>l. (fe_rank env (fl_source l), fe_rank env (fl_target l))) links in
     \<lparr>fg_nodes = sort_key (\<lambda>n. (- fn_value n, fe_rank env (fn_label n))) nodes,
      fg_links = assignLinkDisplayColors env (share_links (first_ids preparedPaths) flowLinks)\<rparr>)"

section \<open>Filter options\<close>

definition buildUserFilterOptions ::
    "FlowEnv \<Rightarrow> FlowQuotaDataItem list \<Rightarrow> FlowMetric \<Rightarrow> string list option \<Rightarrow> FlowUserFilterOption list" where
  "buildUserFilterOptions env rows metric palette =
    (let colors = stableColorMap env (sort_key (fe_rank env) (map (\<lambda>row. pn_id (userNode env row)) rows)) palette;
         users = foldl (\<lambda>m row.
           if numberValue (fq_user_id row) = 0 \<and> \<not> truthy_string (fq_username row) then m
           else let user = userNode env row in
             upsert (pn_id user) (pn_label user, 0, nullish (map_of colors (pn_id user)) (colorAt env 0 palette))
               (\<lambda>(label, v, color). (label, v + metricValue (rowMetrics row) metric, color)) m) [] rows in
     sort_key (\<lambda>o1. (- fo_valueRaw o1, fe_rank env (fo_label o1)))
       (map (\<lambda>(v, label, raw, color). \<lparr>fo_value = v, fo_label = label, fo_valueLabel = fe_format env raw, fo_valueRaw = raw, fo_color = color\<rparr>) users))"

definition stage_options ::
    "FlowEnv \<Rightarrow> FlowQuotaDataItem list \<Rightarrow> FlowMetric \<Rightarrow> FlowNodeKind list \<Rightarrow> FlowPathContext \<Rightarrow> FlowNodeFilter list option \<Rightarrow>
     FlowNodeKind \<Rightarrow> (string \<times> FlowNodeRank) list" where
  "stage_options env rows metric stages ctx selectedNodes stage =
    foldl (\<lambda>m row. let n = NODE_BUILDERS env stage row ctx in
        upsert (nodeFilterKey \<lparr>nf_kind = pn_kind n, nf_id = pn_id n\<rparr>) \<lparr>nr_node = n, nr_value = 0\<rparr>
          (\<lambda>r. r\<lparr>nr_value := nr_value r + metricValue (rowMetrics row) metric\<rparr>) m)
      [] (filterRowsByNodes env rows (selectedNodeFiltersExceptKind selectedNodes stage) stages ctx)"

definition buildNodeFilterOptions ::
    "FlowEnv \<Rightarrow> FlowQuotaDataItem list \<Rightarrow> FlowMetric \<Rightarrow> FlowRole \<Rightarrow> FlowNodeKind list option \<Rightarrow> string list option \<Rightarrow> FlowPathContext \<Rightarrow>
     FlowNodeFilter list option \<Rightarrow> FlowNodeFilterOption list" where
  "buildNodeFilterOptions env rows metric role visibleStages palette ctx selectedNodes =
    (let stages = resolveVisibleStages role visibleStages;
         colorIds = unique (concat (map (\<lambda>row. map pn_id (flowPathForStages env row stages ctx)) rows));
         colors = stableColorMap env (sort_key (fe_rank env) colorIds) palette;
         options = concat (map (\<lambda>stage. map (\<lambda>(k, rank).
             \<lparr>fo_value = pn_id (nr_node rank), fo_label = pn_label (nr_node rank), fo_valueLabel = fe_format env (nr_value rank),
              fo_valueRaw = nr_value rank, fo_color = nullish (map_of colors (pn_id (nr_node rank))) (colorAt env 0 palette),
              fo_kind = pn_kind (nr_node rank)\<rparr>)
           (stage_options env rows metric stages ctx selectedNodes stage)) stages) in
     sort_key (\<lambda>o1. (nullish (find_index (\<lambda>s. s = fo_kind o1) stages) 0, - fo_valueRaw o1, fe_rank env (fo_label o1), fe_rank env (fo_value o1))) options)"

definition buildFlowFilterOptions ::
    "FlowEnv \<Rightarrow> FlowQuotaDataItem list \<Rightarrow> FlowMetric \<Rightarrow> string list option \<Rightarrow> FlowRole \<Rightarrow> FlowNodeKind list option \<Rightarrow>
     FlowNodeFilter list option \<Rightarrow> FlowFilterOptions" where
  "buildFlowFilterOptions env rows metric palette role visibleStages selectedNodes =
    \<lparr>ff_users = buildUserFilterOptions env rows metric palette,
     ff_nodes = buildNodeFilterOptions env rows metric role visibleStages palette \<lparr>fc_deletedTokenLabel = None\<rparr> selectedNodes\<rparr>"

definition buildDashboardFlowData :: "FlowEnv \<Rightarrow> FlowQuotaDataItem list \<Rightarrow> FlowMetric \<Rightarrow> FlowBuildOptions \<Rightarrow> ProcessedFlowData" where
  "buildDashboardFlowData env rows metric options =
    (let role = nullish (bo_role options) FlowUser;
         palette = bo_colorPalette options;
         ctx = \<lparr>fc_deletedTokenLabel = bo_deletedTokenLabel options\<rparr>;
         stages = resolveVisibleStages role (bo_visibleStages options);
         userFilteredRows = filterRows env rows (bo_selectedUsers options);
         filteredRows = filterRowsByNodes env userFilteredRows (bo_selectedNodes options) stages ctx in
     \<lparr>pf_summary = buildSummary filteredRows,
      pf_flow = buildFlowGraph env filteredRows metric role palette (bo_visibleStages options) ctx (FlowGraphOptions.truncate options),
      pf_filterOptions =
        \<lparr>ff_users = buildUserFilterOptions env rows metric palette,
         ff_nodes = buildNodeFilterOptions env userFilteredRows metric role (bo_visibleStages options) palette ctx (bo_selectedNodes options)\<rparr>\<rparr>)"

section \<open>The links drawn\<close>

text \<open>The links the chart gets, in drawing order, each with its layer.  A link is flagged when the
  graph has highlights and no link is when it has none, so that a missing flag counts as unset.\<close>

definition is_set :: "bool option \<Rightarrow> bool" where
  "is_set b \<longleftrightarrow> b = Some True"

definition sankey_links :: "FlowEnv \<Rightarrow> DashboardFlowGraph \<Rightarrow> (DashboardFlowLink \<times> nat) list" where
  "sankey_links env flow =
    map (\<lambda>(i, l). (l, if is_set (fl_highlighted l) then 1000000 + i else if is_set (fl_dimmed l) then i else 100000 + i))
      (enumerate 0 (sort_key (\<lambda>l. (is_set (fl_dimmed l), \<not> is_set (fl_highlighted l), - fl_value l, fe_rank env (linkStableKey l)))
        (filter (\<lambda>l. fl_value l > 0) (fg_links flow))))"

end
