(* ===== verification/Flow_Conservation.thy ===== *)
theory Flow_Conservation
  imports Flow_Graph "HOL-Library.Multiset"
begin

text \<open>
  What the flow chart shows of the usage rows: the maps of nodes and links are sums over the prepared
  paths, so that flow is conserved at every node, every stage carries the whole usage, and shares,
  limits, masks and highlights mean what they say.
\<close>

section \<open>The maps as sums\<close>

lemma foldl_concat_map: "foldl f a (concat (map h xs)) = foldl (\<lambda>a x. foldl f a (h x)) a xs"
  by (induction xs arbitrary: a) simp_all

type_synonym node_item = "FlowPathNode \<times> FlowMetrics \<times> string \<times> string"
type_synonym link_item = "(FlowPathNode \<times> FlowPathNode) \<times> FlowMetrics \<times> string \<times> string"

definition path_color :: "FlowEnv \<Rightarrow> (string \<times> string) list \<Rightarrow> string list option \<Rightarrow> PreparedFlowPath \<Rightarrow> string" where
  "path_color env colors palette p = nullish (map_of colors (pn_id (hd (pp_path p)))) (colorAt env 0 palette)"

definition node_items :: "FlowEnv \<Rightarrow> (string \<times> string) list \<Rightarrow> string list option \<Rightarrow> PreparedFlowPath \<Rightarrow> node_item list" where
  "node_items env colors palette p =
    map (\<lambda>n. (n, pp_metrics p, path_color env colors palette p, pn_id (hd (pp_path p)))) (pp_path p)"

definition link_items :: "FlowEnv \<Rightarrow> (string \<times> string) list \<Rightarrow> string list option \<Rightarrow> PreparedFlowPath \<Rightarrow> link_item list" where
  "link_items env colors palette p =
    map (\<lambda>ab. (ab, pp_metrics p, path_color env colors palette p, pn_id (hd (pp_path p)))) (path_links (pp_path p))"

definition node_map :: "FlowMetric \<Rightarrow> node_item list \<Rightarrow> (string \<times> DashboardFlowNode) list" where
  "node_map metric = accumulate (\<lambda>(n, m, c, k). pn_id n) (\<lambda>(n, m, c, k). new_node n c k) (\<lambda>(n, m, c, k). grow_node m metric)"

definition link_map :: "FlowMetric \<Rightarrow> link_item list \<Rightarrow> (string \<times> DashboardFlowLink) list" where
  "link_map metric = accumulate (\<lambda>(ab, m, c, k). pathLinkKey (fst ab) (snd ab)) (\<lambda>(ab, m, c, k). new_link (fst ab) (snd ab) c k) (\<lambda>(ab, m, c, k). grow_link m metric)"

lemma add_path_items:
  "add_path env metric colors palette (ns, ls) p =
    (foldl (\<lambda>m x. upsert ((\<lambda>(n, m, c, k). pn_id n) x) ((\<lambda>(n, m, c, k). new_node n c k) x) ((\<lambda>(n, m, c, k). grow_node m metric) x) m)
       ns (node_items env colors palette p),
     foldl (\<lambda>m x. upsert ((\<lambda>(ab, m, c, k). pathLinkKey (fst ab) (snd ab)) x) ((\<lambda>(ab, m, c, k). new_link (fst ab) (snd ab) c k) x)
        ((\<lambda>(ab, m, c, k). grow_link m metric) x) m) ls (link_items env colors palette p))"
  by (cases "pp_path p")
    (simp_all add: add_path_def node_items_def link_items_def path_links_def path_color_def foldl_map addNode_def addLink_def case_prod_beta Let_def)

lemma built_maps:
  "foldl (add_path env metric colors palette) ([], []) ps =
    (node_map metric (concat (map (node_items env colors palette) ps)), link_map metric (concat (map (link_items env colors palette) ps)))"
proof (induction ps rule: rev_induct)
  case (snoc p ps)
  then show ?case by (simp add: add_path_items node_map_def link_map_def accumulate_def)
qed (simp add: node_map_def link_map_def)

interpretation node_values: accumulator "\<lambda>(n, m, c, k). pn_id n" "\<lambda>(n, m, c, k). new_node n c k" "\<lambda>(n, m, c, k). grow_node m metric"
    fn_value "\<lambda>(n, m, c, k). metricValue m metric" for metric
  by unfold_locales (auto simp: new_node_def grow_node_def)

interpretation link_values: accumulator "\<lambda>(ab, m, c, k). pathLinkKey (fst ab) (snd ab)" "\<lambda>(ab, m, c, k). new_link (fst ab) (snd ab) c k"
    "\<lambda>(ab, m, c, k). grow_link m metric" fl_value "\<lambda>(ab, m, c, k). metricValue m metric" for metric
  by unfold_locales (auto simp: new_link_def grow_link_def)

interpretation node_tags: accumulator_tag "\<lambda>(n, m, c, k). pn_id n" "\<lambda>(n, m, c, k). new_node n c k" "\<lambda>(n, m, c, k). grow_node m metric"
    "\<lambda>n. (fn_id n, fn_kind n, fn_label n)" "\<lambda>(n, m, c, k). (pn_id n, pn_kind n, pn_label n)" for metric
  by unfold_locales (auto simp: new_node_def grow_node_def)

interpretation link_tags: accumulator_tag "\<lambda>(ab, m, c, k). pathLinkKey (fst ab) (snd ab)" "\<lambda>(ab, m, c, k). new_link (fst ab) (snd ab) c k"
    "\<lambda>(ab, m, c, k). grow_link m metric" "\<lambda>l. (fl_source l, fl_target l, fl_sourceLabel l, fl_targetLabel l)"
    "\<lambda>(ab, m, c, k). (pn_id (fst ab), pn_id (snd ab), pn_label (fst ab), pn_label (snd ab))" for metric
  by unfold_locales (auto simp: new_link_def grow_link_def)

text \<open>What a list of paths carries through the nodes, or over the steps, of a kind.\<close>

definition node_flow :: "FlowMetric \<Rightarrow> (FlowPathNode \<Rightarrow> bool) \<Rightarrow> PreparedFlowPath list \<Rightarrow> number" where
  "node_flow metric P ps = (\<Sum>p\<leftarrow>ps. \<Sum>n\<leftarrow>filter P (pp_path p). metricValue (pp_metrics p) metric)"

definition link_flow :: "FlowMetric \<Rightarrow> (FlowPathNode \<times> FlowPathNode \<Rightarrow> bool) \<Rightarrow> PreparedFlowPath list \<Rightarrow> number" where
  "link_flow metric P ps = (\<Sum>p\<leftarrow>ps. \<Sum>ab\<leftarrow>filter P (path_links (pp_path p)). metricValue (pp_metrics p) metric)"

lemma sum_list_concat_map: "sum_list (map f (filter P (concat (map h xs)))) = (\<Sum>x\<leftarrow>xs. sum_list (map f (filter P (h x))))"
  by (induction xs) simp_all

lemma node_map_sum:
  "(\<Sum>kn\<leftarrow>filter (\<lambda>kn. P (fst kn)) (node_map metric (concat (map (node_items env colors palette) ps))). fn_value (snd kn)) =
    node_flow metric (\<lambda>n. P (pn_id n)) ps"
  unfolding node_map_def node_values.accumulated_sum sum_list_concat_map node_flow_def
  by (simp add: node_items_def filter_map comp_def)

lemma link_map_sum:
  "(\<Sum>kl\<leftarrow>filter (\<lambda>kl. P (fst kl)) (link_map metric (concat (map (link_items env colors palette) ps))). fl_value (snd kl)) =
    link_flow metric (\<lambda>ab. P (pathLinkKey (fst ab) (snd ab))) ps"
  unfolding link_map_def link_values.accumulated_sum sum_list_concat_map link_flow_def
  by (simp add: link_items_def filter_map comp_def case_prod_beta)

section \<open>From the maps to the graph\<close>

lemma sum_filter_sort:
  "(\<Sum>x\<leftarrow>filter P (sort_key k xs). (f x :: number)) = (\<Sum>x\<leftarrow>filter P xs. f x)"
  unfolding filter_sort by (metis mset_map mset_sort sum_mset_sum_list)

lemma node_map_tag:
  assumes "(k, n) \<in> set (node_map metric (concat (map (node_items env colors palette) ps)))"
  obtains p a where "p \<in> set ps" "a \<in> set (pp_path p)" "k = pn_id a" "fn_id n = pn_id a" "fn_kind n = pn_kind a" "fn_label n = pn_label a"
  using node_tags.accumulated_tag [OF assms [unfolded node_map_def]] by (auto simp: node_items_def)

lemma link_map_tag:
  assumes "(k, l) \<in> set (link_map metric (concat (map (link_items env colors palette) ps)))"
  obtains p a b where "p \<in> set ps" "(a, b) \<in> set (path_links (pp_path p))" "k = pathLinkKey a b" "fl_source l = pn_id a" "fl_target l = pn_id b"
    "fl_sourceLabel l = pn_label a" "fl_targetLabel l = pn_label b"
  using link_tags.accumulated_tag [OF assms [unfolded link_map_def]] by (auto simp: link_items_def)

text \<open>The fields that masks, highlights, shares and colours leave alone.\<close>

lemma highlight_node_frame [frame]:
  "fn_id (highlight_node h n) = fn_id n" "fn_kind (highlight_node h n) = fn_kind n" "fn_value (highlight_node h n) = fn_value n"
  "fn_label (highlight_node h n) = fn_label n" "fn_quota (highlight_node h n) = fn_quota n"
  by (auto simp: highlight_node_def split: option.splits)

lemma highlight_link_frame [frame]:
  "fl_source (highlight_link h l) = fl_source l" "fl_target (highlight_link h l) = fl_target l" "fl_value (highlight_link h l) = fl_value l"
  "fl_sourceLabel (highlight_link h l) = fl_sourceLabel l" "fl_targetLabel (highlight_link h l) = fl_targetLabel l"
  by (auto simp: highlight_link_def split: option.splits)

lemma display_link_frame [frame]:
  "fl_source (display_link env ls l) = fl_source l" "fl_target (display_link env ls l) = fl_target l"
  "fl_value (display_link env ls l) = fl_value l" "fl_share (display_link env ls l) = fl_share l"
  "fl_sourceLabel (display_link env ls l) = fl_sourceLabel l" "fl_targetLabel (display_link env ls l) = fl_targetLabel l"
  "fl_highlighted (display_link env ls l) = fl_highlighted l" "fl_dimmed (display_link env ls l) = fl_dimmed l"
  by (simp_all add: display_link_def Let_def case_prod_beta)

lemma mask_link_frame [frame]:
  "fl_source (mask_link mk l) = fl_source l" "fl_target (mask_link mk l) = fl_target l" "fl_value (mask_link mk l) = fl_value l"
  by (simp_all add: mask_link_def)

text \<open>The nodes and links of the graph before they are sorted.\<close>

abbreviation graph_stages :: "FlowRole \<Rightarrow> FlowNodeKind list option \<Rightarrow> FlowNodeKind list" where
  "graph_stages role vis \<equiv> resolveVisibleStages role vis"

definition graph_colors :: "FlowEnv \<Rightarrow> PreparedFlowPath list \<Rightarrow> string list option \<Rightarrow> (string \<times> string) list" where
  "graph_colors env ps palette = stableColorMap env (sort_key (fe_rank env) (first_ids ps)) palette"

definition raw_nodes :: "FlowEnv \<Rightarrow> FlowMetric \<Rightarrow> string list option \<Rightarrow> PreparedFlowPath list \<Rightarrow> (string \<times> DashboardFlowNode) list" where
  "raw_nodes env metric palette ps = node_map metric (concat (map (node_items env (graph_colors env ps palette) palette) ps))"

definition raw_links :: "FlowEnv \<Rightarrow> FlowMetric \<Rightarrow> string list option \<Rightarrow> PreparedFlowPath list \<Rightarrow> (string \<times> DashboardFlowLink) list" where
  "raw_links env metric palette ps = link_map metric (concat (map (link_items env (graph_colors env ps palette) palette) ps))"

definition mask_table :: "FlowEnv \<Rightarrow> (string \<times> DashboardFlowNode) list \<Rightarrow> (string \<times> string) list" where
  "mask_table env nodes = map (\<lambda>(k, n). (fn_id n, maskFlowLabel env (fn_label n))) (filter (\<lambda>(k, n). masked_node n) nodes)"

definition shown_node :: "FlowEnv \<Rightarrow> bool \<Rightarrow> (string set \<times> string set) option \<Rightarrow> DashboardFlowNode \<Rightarrow> DashboardFlowNode" where
  "shown_node env msk h n =
    highlight_node h (if msk \<and> masked_node n then n\<lparr>fn_label := maskFlowLabel env (fn_label n)\<rparr> else n)"

definition shown_link :: "(string \<times> string) list \<Rightarrow> bool \<Rightarrow> (string set \<times> string set) option \<Rightarrow> DashboardFlowLink \<Rightarrow> DashboardFlowLink" where
  "shown_link table msk h l = highlight_link h (if msk then mask_link table l else l)"

lemma shown_node_frame [frame]:
  "fn_id (shown_node env msk h n) = fn_id n" "fn_kind (shown_node env msk h n) = fn_kind n" "fn_value (shown_node env msk h n) = fn_value n"
  by (simp_all add: shown_node_def frame)

lemma shown_link_frame [frame]:
  "fl_source (shown_link t msk h l) = fl_source l" "fl_target (shown_link t msk h l) = fl_target l" "fl_value (shown_link t msk h l) = fl_value l"
  by (simp_all add: shown_link_def frame)

lemma built_raw:
  "foldl (add_path env metric (graph_colors env ps palette) palette) ([], []) ps = (raw_nodes env metric palette ps, raw_links env metric palette ps)"
  by (simp add: built_maps raw_nodes_def raw_links_def)

text \<open>The highlight sets of a graph.\<close>

definition graph_highlights :: "PreparedFlowPath list \<Rightarrow> FlowGraphOptions \<Rightarrow> FlowNodeKind list \<Rightarrow> (string set \<times> string set) option" where
  "graph_highlights ps options stages = buildFlowHighlightSets ps (go_activeNode options) (go_activeLink options) stages"

lemma graph_nodes:
  assumes "ps = preparePaths env rows metric (graph_stages role vis) ctx options"
  shows "fg_nodes (buildFlowGraph env rows metric role palette vis ctx options) =
    sort_key (\<lambda>n. (- fn_value n, fe_rank env (fn_label n)))
      (map (\<lambda>kn. shown_node env (go_maskSensitive options) (graph_highlights ps options (graph_stages role vis)) (snd kn)) (raw_nodes env metric palette ps))"
  using built_raw [of env metric ps palette]
  by (auto simp: buildFlowGraph_def Let_def assms [symmetric] graph_colors_def [symmetric] graph_highlights_def [symmetric]
      maskFlowGraphLabels_def shown_node_def case_prod_beta intro!: arg_cong [of _ _ "sort_key _"])

definition unsorted_links ::
    "FlowEnv \<Rightarrow> FlowMetric \<Rightarrow> string list option \<Rightarrow> PreparedFlowPath list \<Rightarrow> FlowGraphOptions \<Rightarrow> FlowNodeKind list \<Rightarrow> DashboardFlowLink list" where
  "unsorted_links env metric palette ps options stages =
    map (\<lambda>kl. shown_link (mask_table env (raw_nodes env metric palette ps)) (go_maskSensitive options)
      (graph_highlights ps options stages) (snd kl)) (raw_links env metric palette ps)"

lemma graph_links:
  assumes "ps = preparePaths env rows metric (graph_stages role vis) ctx options"
  shows "fg_links (buildFlowGraph env rows metric role palette vis ctx options) =
    assignLinkDisplayColors env (share_links (first_ids ps)
      (sort_key (\<lambda>l. (fe_rank env (fl_source l), fe_rank env (fl_target l)))
        (unsorted_links env metric palette ps options (graph_stages role vis))))"
  using built_raw [of env metric ps palette]
  by (auto simp: buildFlowGraph_def Let_def assms [symmetric] graph_colors_def [symmetric] graph_highlights_def [symmetric]
      maskFlowGraphLabels_def shown_link_def unsorted_links_def mask_table_def case_prod_beta
      intro!: arg_cong [of _ _ "\<lambda>ls. assignLinkDisplayColors env (share_links (first_ids ps) (sort_key _ ls))"])

lemma graph_node_sum:
  assumes "ps = preparePaths env rows metric (graph_stages role vis) ctx options"
  shows "(\<Sum>n\<leftarrow>filter (\<lambda>n. P (fn_id n)) (fg_nodes (buildFlowGraph env rows metric role palette vis ctx options)). fn_value n) =
    node_flow metric (\<lambda>n. P (pn_id n)) ps"
proof -
  have "filter (\<lambda>kn. P (fn_id (snd kn))) (raw_nodes env metric palette ps) = filter (\<lambda>kn. P (fst kn)) (raw_nodes env metric palette ps)"
    by (rule filter_cong [OF refl]) (auto simp: raw_nodes_def elim!: node_map_tag)
  then show ?thesis
    unfolding graph_nodes [OF assms] sum_filter_sort filter_map
    using node_map_sum [of P metric env "graph_colors env ps palette" palette ps]
    by (simp add: comp_def frame raw_nodes_def)
qed

text \<open>The key of a link tells its ends apart when the names hold no NUL.\<close>

definition nul_free :: "PreparedFlowPath list \<Rightarrow> bool" where
  "nul_free ps \<longleftrightarrow> (\<forall>p \<in> set ps. \<forall>n \<in> set (pp_path p). NUL \<notin> set (pn_id n))"

definition key_source :: "string \<Rightarrow> string" where "key_source k = takeWhile (\<lambda>c. c \<noteq> NUL) k"
definition key_target :: "string \<Rightarrow> string" where "key_target k = tl (dropWhile (\<lambda>c. c \<noteq> NUL) k)"

lemma key_ends: "NUL \<notin> set (pn_id a) \<Longrightarrow> key_source (pathLinkKey a b) = pn_id a \<and> key_target (pathLinkKey a b) = pn_id b"
  unfolding key_source_def key_target_def pathLinkKey_def
  by (subst takeWhile_append2 dropWhile_append2; auto)+

lemma path_links_nodes: "(a, b) \<in> set (path_links path) \<Longrightarrow> a \<in> set path \<and> b \<in> set path"
  unfolding path_links_def by (cases path) (auto dest: set_zip_leftD set_zip_rightD)

lemma link_flow_cong:
  "(\<And>p a b. p \<in> set ps \<Longrightarrow> (a, b) \<in> set (path_links (pp_path p)) \<Longrightarrow> P (a, b) = Q (a, b)) \<Longrightarrow> link_flow metric P ps = link_flow metric Q ps"
  unfolding link_flow_def by (intro arg_cong [of _ _ sum_list] map_cong refl arg_cong [of _ _ "map _"] filter_cong) auto

lemma shared_links_frame:
  "map (\<lambda>l. (fl_source l, fl_target l, fl_value l)) (assignLinkDisplayColors env (share_links fs ls)) = map (\<lambda>l. (fl_source l, fl_target l, fl_value l)) ls"
  by (simp add: assignLinkDisplayColors_def share_links_def Let_def frame comp_def)

lemma link_sum_by_ends:
  "(\<Sum>l\<leftarrow>filter (\<lambda>l. P (fl_source l) (fl_target l)) ls. fl_value l) =
    (\<Sum>x\<leftarrow>filter (\<lambda>(s, t, v). P s t) (map (\<lambda>l. (fl_source l, fl_target l, fl_value l)) ls). snd (snd x))"
  by (induction ls) simp_all

lemma graph_link_sum:
  assumes "ps = preparePaths env rows metric (graph_stages role vis) ctx options" "nul_free ps"
  shows "(\<Sum>l\<leftarrow>filter (\<lambda>l. P (fl_source l) (fl_target l)) (fg_links (buildFlowGraph env rows metric role palette vis ctx options)). fl_value l) =
    link_flow metric (\<lambda>ab. P (pn_id (fst ab)) (pn_id (snd ab))) ps"
proof -
  let ?raw = "raw_links env metric palette ps"
  have "filter (\<lambda>kl. P (fl_source (snd kl)) (fl_target (snd kl))) ?raw = filter (\<lambda>kl. P (key_source (fst kl)) (key_target (fst kl))) ?raw"
  proof (rule filter_cong [OF refl])
    fix kl assume "kl \<in> set ?raw"
    then obtain k l where kl: "kl = (k, l)" "(k, l) \<in> set ?raw" by (metis surj_pair)
    then obtain p a b where "p \<in> set ps" "(a, b) \<in> set (path_links (pp_path p))" "k = pathLinkKey a b" "fl_source l = pn_id a" "fl_target l = pn_id b"
      by (auto simp: raw_links_def elim!: link_map_tag)
    with assms(2) path_links_nodes key_ends show "P (fl_source (snd kl)) (fl_target (snd kl)) = P (key_source (fst kl)) (key_target (fst kl))"
      by (metis fst_conv kl(1) nul_free_def snd_conv)
  qed
  then have "(\<Sum>l\<leftarrow>filter (\<lambda>l. P (fl_source l) (fl_target l)) (unsorted_links env metric palette ps options (graph_stages role vis)). fl_value l) =
      link_flow metric (\<lambda>ab. P (key_source (pathLinkKey (fst ab) (snd ab))) (key_target (pathLinkKey (fst ab) (snd ab)))) ps"
    using link_map_sum [of "\<lambda>k. P (key_source k) (key_target k)" metric env "graph_colors env ps palette" palette ps]
    by (simp add: unsorted_links_def filter_map comp_def frame raw_links_def)
  also have "\<dots> = link_flow metric (\<lambda>ab. P (pn_id (fst ab)) (pn_id (snd ab))) ps"
    using assms(2) by (intro link_flow_cong) (auto simp: nul_free_def key_ends dest!: path_links_nodes)
  finally show ?thesis
    unfolding graph_links [OF assms(1)] by (subst link_sum_by_ends) (simp only: shared_links_frame link_sum_by_ends [symmetric] sum_filter_sort)
qed

section \<open>Prepared paths\<close>

lemma stages_distinct: "distinct (getFlowStages role)" and stages_length: "length (getFlowStages role) \<ge> 2"
  by (cases role; simp)+

lemma visible_stages: "distinct (graph_stages role vis)" "length (graph_stages role vis) \<ge> 2"
  by (auto simp: resolveVisibleStages_def Let_def MIN_FLOW_STAGES_def stages_distinct stages_length split: option.splits)

text \<open>An id names the kind of its node.\<close>

definition id_kind :: "string \<Rightarrow> string" where "id_kind i = takeWhile (\<lambda>c. c \<noteq> CHR '':'') i"

definition node_ok :: "FlowPathNode \<Rightarrow> bool" where "node_ok n \<longleftrightarrow> id_kind (pn_id n) = kind_name (pn_kind n)"

lemma kind_name_inject: "kind_name k = kind_name k' \<longleftrightarrow> k = k'"
  by (cases k; cases k'; simp)

lemma built_node: "pn_kind (NODE_BUILDERS env s row ctx) = s" "node_ok (NODE_BUILDERS env s row ctx)"
  by (cases s; simp add: node_ok_def id_kind_def userNode_def nodeNameNode_def tokenNode_def groupNode_def modelNode_def channelNode_def Let_def)+

lemma other_node: "pn_kind (otherFlowNode s lab) = s" "node_ok (otherFlowNode s lab)" "NUL \<notin> set (pn_id (otherFlowNode s lab))"
  by (cases s; simp add: node_ok_def id_kind_def otherFlowNode_def OTHER_FLOW_NODE_IDS_def NUL_def char_of_def)+

text \<open>Rows and numbers whose texts hold no NUL.\<close>

definition text_plain :: "string option \<Rightarrow> bool" where "text_plain t \<longleftrightarrow> (case t of None \<Rightarrow> True | Some s \<Rightarrow> NUL \<notin> set s)"

definition row_plain :: "FlowQuotaDataItem \<Rightarrow> bool" where
  "row_plain row \<longleftrightarrow> text_plain (fq_username row) \<and> text_plain (fq_node_name row) \<and> text_plain (fq_use_group row) \<and>
    text_plain (fq_token_name row) \<and> text_plain (fq_channel_name row) \<and> text_plain (fq_model_name row)"

definition numbers_plain :: "FlowEnv \<Rightarrow> bool" where "numbers_plain env \<longleftrightarrow> (\<forall>n. NUL \<notin> set (fe_show env n))"

lemma NUL_char: "NUL = CHR 0x00"
  by (simp add: NUL_def char_of_def)

lemma or_string_plain: "text_plain t \<Longrightarrow> NUL \<notin> set d \<Longrightarrow> NUL \<notin> set (or_string t d)"
  by (simp add: text_plain_def or_string_def split: option.splits)

lemma built_node_plain:
  assumes "row_plain row" "numbers_plain env"
  shows "NUL \<notin> set (pn_id (NODE_BUILDERS env s row ctx))"
  using assms
  by (cases s) (simp_all add: row_plain_def numbers_plain_def userNode_def nodeNameNode_def tokenNode_def groupNode_def modelNode_def
      channelNode_def Let_def or_string_plain [unfolded NUL_char] NUL_char)

definition path_ok :: "FlowNodeKind list \<Rightarrow> FlowPathNode list \<Rightarrow> bool" where
  "path_ok stages path \<longleftrightarrow> map pn_kind path = stages \<and> list_all node_ok path"

lemma limited_path:
  assumes "applyTopNodeLimit (flowPathForStages env row stages ctx) tops mode lab = Some path"
  shows "path = map (\<lambda>n. if isTopFlowNode n tops then n else otherFlowNode (pn_kind n) lab) (flowPathForStages env row stages ctx)"
  using assms by (auto simp: applyTopNodeLimit_def isTopFlowNode_def list_ex_iff split: if_splits intro!: map_idI [symmetric])

lemma prepared_path:
  assumes "p \<in> set (preparePaths env rows metric stages ctx options)"
  obtains row tops where "row \<in> set rows" "pp_metrics p = rowMetrics row"
    "tops = buildTopNodeSets env rows metric stages (normalizeTopNodeLimit (go_topNodeLimit options)) ctx"
    "pp_path p = map (\<lambda>n. if isTopFlowNode n tops then n else otherFlowNode (pn_kind n) (go_otherNodeLabel options)) (flowPathForStages env row stages ctx)"
proof -
  let ?tops = "buildTopNodeSets env rows metric stages (normalizeTopNodeLimit (go_topNodeLimit options)) ctx"
  from assms obtain row path where "row \<in> set rows" "p = \<lparr>pp_path = path, pp_metrics = rowMetrics row\<rparr>"
    "applyTopNodeLimit (flowPathForStages env row stages ctx) ?tops (nullish (go_overflowMode options) OverflowAggregate) (go_otherNodeLabel options) = Some path"
    by (auto simp: preparePaths_def Let_def List.map_filter_def)
  with limited_path show thesis by (intro that [of row ?tops]) simp_all
qed

lemma prepared_ok: "p \<in> set (preparePaths env rows metric stages ctx options) \<Longrightarrow> path_ok stages (pp_path p)"
  by (elim prepared_path) (auto simp: path_ok_def flowPathForStages_def list_all_iff built_node other_node comp_def intro!: map_idI)

lemma prepared_nul_free:
  assumes "list_all row_plain rows" "numbers_plain env"
  shows "nul_free (preparePaths env rows metric stages ctx options)"
  unfolding nul_free_def
proof (intro ballI)
  fix p n assume p: "p \<in> set (preparePaths env rows metric stages ctx options)" and n: "n \<in> set (pp_path p)"
  from p obtain row tops where row: "row \<in> set rows"
    "pp_path p = map (\<lambda>n. if isTopFlowNode n tops then n else otherFlowNode (pn_kind n) (go_otherNodeLabel options)) (flowPathForStages env row stages ctx)"
    by (elim prepared_path) blast
  with n obtain s where "n = NODE_BUILDERS env s row ctx \<or> n = otherFlowNode s (go_otherNodeLabel options)"
    by (auto simp: flowPathForStages_def built_node split: if_splits)
  with row(1) assms built_node_plain other_node(3) show "NUL \<notin> set (pn_id n)" by (auto simp: list_all_iff)
qed

section \<open>Conservation\<close>

lemma path_links_fst: "map fst (path_links path) = butlast path"
  by (simp add: path_links_def butlast_conv_take map_fst_zip_take)

lemma path_links_snd: "map snd (path_links path) = tl path"
  by (simp add: path_links_def map_snd_zip_take)

lemma sum_filter_fst: "(\<Sum>x\<leftarrow>filter (\<lambda>x. P (f x)) xs. (c :: number)) = (\<Sum>y\<leftarrow>filter P (map f xs). c)"
  by (induction xs) simp_all

lemma filter_butlast: "xs \<noteq> [] \<Longrightarrow> \<not> P (last xs) \<Longrightarrow> filter P (butlast xs) = filter P xs"
  by (induction xs) auto

lemma flow_out:
  assumes "\<And>p. p \<in> set ps \<Longrightarrow> pp_path p \<noteq> [] \<and> \<not> P (last (pp_path p))"
  shows "link_flow metric (\<lambda>ab. P (fst ab)) ps = node_flow metric P ps"
proof -
  have "(\<Sum>ab\<leftarrow>filter (\<lambda>ab. P (fst ab)) (path_links (pp_path p)). metricValue (pp_metrics p) metric) =
      (\<Sum>n\<leftarrow>filter P (pp_path p). metricValue (pp_metrics p) metric)" if "p \<in> set ps" for p
  proof -
    have "filter P (butlast (pp_path p)) = filter P (pp_path p)" using assms [OF that] filter_butlast by blast
    then show ?thesis by (simp only: sum_filter_fst path_links_fst)
  qed
  then show ?thesis unfolding link_flow_def node_flow_def by (simp cong: map_cong)
qed

lemma flow_in:
  assumes "\<And>p. p \<in> set ps \<Longrightarrow> pp_path p \<noteq> [] \<and> \<not> P (hd (pp_path p))"
  shows "link_flow metric (\<lambda>ab. P (snd ab)) ps = node_flow metric P ps"
proof -
  have "filter P (tl (pp_path p)) = filter P (pp_path p)" if "p \<in> set ps" for p
    using assms [OF that] by (cases "pp_path p") simp_all
  then have "(\<Sum>ab\<leftarrow>filter (\<lambda>ab. P (snd ab)) (path_links (pp_path p)). metricValue (pp_metrics p) metric) =
      (\<Sum>n\<leftarrow>filter P (pp_path p). metricValue (pp_metrics p) metric)" if "p \<in> set ps" for p
    using that by (simp only: sum_filter_fst path_links_snd)
  then show ?thesis unfolding link_flow_def node_flow_def by (simp cong: map_cong)
qed

text \<open>The ids of the nodes are distinct, and an id is of the kind of its node.\<close>

lemma distinct_map_sort: "distinct (map f (sort_key k xs)) = distinct (map f xs)"
  by (simp add: distinct_map)

lemma graph_ids_distinct: "distinct (map fn_id (fg_nodes (buildFlowGraph env rows metric role palette vis ctx options)))"
proof -
  define ps where "ps = preparePaths env rows metric (graph_stages role vis) ctx options"
  have "map (\<lambda>kn. fn_id (snd kn)) (raw_nodes env metric palette ps) = map fst (raw_nodes env metric palette ps)"
    by (rule map_cong [OF refl]) (auto simp: raw_nodes_def elim!: node_map_tag)
  moreover have "distinct (map fst (raw_nodes env metric palette ps))"
    unfolding raw_nodes_def node_map_def by (rule accumulate_distinct)
  ultimately have "distinct (map (\<lambda>kn. fn_id (snd kn)) (raw_nodes env metric palette ps))" by (simp only:)
  then have "distinct (map fn_id (map (\<lambda>kn. shown_node env (go_maskSensitive options) (graph_highlights ps options (graph_stages role vis)) (snd kn)) (raw_nodes env metric palette ps)))"
    by (simp add: comp_def frame)
  then show ?thesis
    unfolding graph_nodes [OF ps_def] distinct_map_sort .
qed

lemma graph_node_origin:
  assumes "n \<in> set (fg_nodes (buildFlowGraph env rows metric role palette vis ctx options))"
  obtains p a where "p \<in> set (preparePaths env rows metric (graph_stages role vis) ctx options)" "a \<in> set (pp_path p)"
    "fn_id n = pn_id a" "fn_kind n = pn_kind a"
  using assms unfolding graph_nodes [OF refl] by (auto simp: frame raw_nodes_def elim!: node_map_tag)

lemma graph_node_kind:
  assumes "n \<in> set (fg_nodes (buildFlowGraph env rows metric role palette vis ctx options))"
  shows "id_kind (fn_id n) = kind_name (fn_kind n)" "fn_kind n \<in> set (graph_stages role vis)"
proof -
  obtain p a where pa: "p \<in> set (preparePaths env rows metric (graph_stages role vis) ctx options)" "a \<in> set (pp_path p)"
    "fn_id n = pn_id a" "fn_kind n = pn_kind a" using assms by (rule graph_node_origin)
  with prepared_ok [OF pa(1)] show "id_kind (fn_id n) = kind_name (fn_kind n)" by (auto simp: path_ok_def list_all_iff node_ok_def)
  have "pn_kind a \<in> set (map pn_kind (pp_path p))" using pa(2) by simp
  with prepared_ok [OF pa(1)] pa(4) show "fn_kind n \<in> set (graph_stages role vis)" by (simp add: path_ok_def)
qed

lemma sum_filter_single:
  assumes "distinct (map f xs)" "x \<in> set xs"
  shows "(\<Sum>y\<leftarrow>filter (\<lambda>y. f y = f x) xs. (g y :: number)) = g x"
proof -
  have "filter (\<lambda>y. f y = f x) xs = [x]"
    using assms by (induction xs) (auto simp: filter_empty_conv image_iff)
  then show ?thesis by simp
qed

lemma node_value_flow:
  assumes "ps = preparePaths env rows metric (graph_stages role vis) ctx options"
    and "n \<in> set (fg_nodes (buildFlowGraph env rows metric role palette vis ctx options))"
  shows "fn_value n = node_flow metric (\<lambda>a. pn_id a = fn_id n) ps"
  using sum_filter_single [OF graph_ids_distinct assms(2), of fn_value] graph_node_sum [OF assms(1), of "\<lambda>i. i = fn_id n" palette] by simp

lemma other_stage:
  assumes "path_ok stages path" "a \<in> set path" "id_kind i = kind_name s" "pn_kind a \<noteq> s"
  shows "pn_id a \<noteq> i"
  using assms by (auto simp: path_ok_def list_all_iff node_ok_def kind_name_inject)

lemma path_ends:
  assumes "path_ok stages path" "stages \<noteq> []"
  shows "path \<noteq> []" "pn_kind (last path) = last stages" "pn_kind (hd path) = hd stages"
proof -
  have path: "map pn_kind path = stages" using assms(1) by (simp add: path_ok_def)
  then show ne: "path \<noteq> []" using assms(2) by auto
  show "pn_kind (last path) = last stages" "pn_kind (hd path) = hd stages"
    unfolding path [symmetric] using ne by (simp_all add: last_map hd_map)
qed

text \<open>C12: Flow is conserved in the chart: whatever filters, limits, masks and highlights are on, the links
  that leave a node of any stage but the last carry together exactly the value of the node, and so do the
  links that enter a node of any stage but the first.\<close>

theorem flow_conserved:
  assumes "list_all row_plain rows" "numbers_plain env"
    and "n \<in> set (fg_nodes (buildFlowGraph env rows metric role palette vis ctx options))"
  shows "(fn_kind n \<noteq> last (graph_stages role vis) \<longrightarrow>
      (\<Sum>l\<leftarrow>filter (\<lambda>l. fl_source l = fn_id n) (fg_links (buildFlowGraph env rows metric role palette vis ctx options)). fl_value l) = fn_value n) \<and>
    (fn_kind n \<noteq> hd (graph_stages role vis) \<longrightarrow>
      (\<Sum>l\<leftarrow>filter (\<lambda>l. fl_target l = fn_id n) (fg_links (buildFlowGraph env rows metric role palette vis ctx options)). fl_value l) = fn_value n)"
proof (intro conjI impI)
  define ps where "ps = preparePaths env rows metric (graph_stages role vis) ctx options"
  note sums = graph_link_sum [OF ps_def prepared_nul_free [OF assms(1,2), where metric = metric and stages = "graph_stages role vis" and ctx = ctx and options = options, folded ps_def], where palette = palette]
  note v = node_value_flow [OF ps_def assms(3)]
  have ok: "path_ok (graph_stages role vis) (pp_path p)" if "p \<in> set ps" for p using that prepared_ok unfolding ps_def by blast
  have ne: "graph_stages role vis \<noteq> []" using visible_stages(2) [of role vis] by auto
  note kind = graph_node_kind(1) [OF assms(3)]
  { assume "fn_kind n \<noteq> last (graph_stages role vis)"
    then have "pp_path p \<noteq> [] \<and> \<not> pn_id (last (pp_path p)) = fn_id n" if "p \<in> set ps" for p
      using path_ends [OF ok [OF that] ne] other_stage [OF ok [OF that] last_in_set kind] by metis
    from flow_out [of ps "\<lambda>a. pn_id a = fn_id n", OF this] sums [of "\<lambda>s t. s = fn_id n"] v
    show "(\<Sum>l\<leftarrow>filter (\<lambda>l. fl_source l = fn_id n) (fg_links (buildFlowGraph env rows metric role palette vis ctx options)). fl_value l) = fn_value n"
      by simp }
  { assume "fn_kind n \<noteq> hd (graph_stages role vis)"
    then have "pp_path p \<noteq> [] \<and> \<not> pn_id (hd (pp_path p)) = fn_id n" if "p \<in> set ps" for p
      using path_ends [OF ok [OF that] ne] other_stage [OF ok [OF that] hd_in_set kind] by metis
    from flow_in [of ps "\<lambda>a. pn_id a = fn_id n", OF this] sums [of "\<lambda>s t. t = fn_id n"] v
    show "(\<Sum>l\<leftarrow>filter (\<lambda>l. fl_target l = fn_id n) (fg_links (buildFlowGraph env rows metric role palette vis ctx options)). fl_value l) = fn_value n"
      by simp }
qed

section \<open>Stages and shares\<close>

lemma one_of_stage:
  assumes "path_ok stages path" "distinct stages" "s \<in> set stages"
  shows "\<exists>a. filter (\<lambda>a. id_kind (pn_id a) = kind_name s) path = [a]"
proof -
  have "filter (\<lambda>a. id_kind (pn_id a) = kind_name s) path = filter (\<lambda>a. pn_kind a = s) path"
    using assms(1) by (intro filter_cong) (auto simp: path_ok_def list_all_iff node_ok_def kind_name_inject)
  moreover have "length (filter (\<lambda>a. pn_kind a = s) path) = length (filter (\<lambda>k. k = s) (map pn_kind path))"
    by (induction path) simp_all
  moreover have "filter (\<lambda>k. k = s) stages = [s]"
    using assms(2,3) by (induction stages) (auto simp: filter_empty_conv)
  moreover have "map pn_kind path = stages" using assms(1) by (simp add: path_ok_def)
  ultimately have "length (filter (\<lambda>a. id_kind (pn_id a) = kind_name s) path) = 1" by (simp only: list.size)
  then show ?thesis by (simp add: length_Suc_conv)
qed

definition paths_total :: "FlowMetric \<Rightarrow> PreparedFlowPath list \<Rightarrow> number" where
  "paths_total metric ps = (\<Sum>p\<leftarrow>ps. metricValue (pp_metrics p) metric)"

lemma stage_flow:
  assumes "\<And>p. p \<in> set ps \<Longrightarrow> path_ok stages (pp_path p)" "distinct stages" "s \<in> set stages"
  shows "node_flow metric (\<lambda>a. id_kind (pn_id a) = kind_name s) ps = paths_total metric ps"
proof -
  have "(\<Sum>n\<leftarrow>filter (\<lambda>a. id_kind (pn_id a) = kind_name s) (pp_path p). metricValue (pp_metrics p) metric) = metricValue (pp_metrics p) metric"
    if p: "p \<in> set ps" for p
  proof -
    from one_of_stage [OF assms(1) [OF p] assms(2,3)] obtain a where "filter (\<lambda>a. id_kind (pn_id a) = kind_name s) (pp_path p) = [a]" by blast
    then show ?thesis by simp
  qed
  then show ?thesis unfolding node_flow_def paths_total_def by (simp cong: map_cong)
qed

definition stage_value :: "DashboardFlowGraph \<Rightarrow> FlowNodeKind \<Rightarrow> number" where
  "stage_value g s = (\<Sum>n\<leftarrow>filter (\<lambda>n. fn_kind n = s) (fg_nodes g). fn_value n)"

lemma stage_value_total:
  assumes "ps = preparePaths env rows metric (graph_stages role vis) ctx options" "s \<in> set (graph_stages role vis)"
  shows "stage_value (buildFlowGraph env rows metric role palette vis ctx options) s = paths_total metric ps"
proof -
  let ?g = "buildFlowGraph env rows metric role palette vis ctx options"
  have "filter (\<lambda>n. fn_kind n = s) (fg_nodes ?g) = filter (\<lambda>n. id_kind (fn_id n) = kind_name s) (fg_nodes ?g)"
    by (rule filter_cong [OF refl]) (simp add: graph_node_kind(1) kind_name_inject)
  then have "stage_value ?g s = node_flow metric (\<lambda>a. id_kind (pn_id a) = kind_name s) ps"
    unfolding stage_value_def by (simp only: graph_node_sum [OF assms(1), of "\<lambda>i. id_kind i = kind_name s"])
  then show ?thesis using stage_flow [OF _ visible_stages(1) assms(2), of ps metric] prepared_ok assms(1) by metis
qed

fun summary_value :: "FlowSummary \<Rightarrow> FlowMetric \<Rightarrow> number" where
  "summary_value s MetricQuota = su_quota s"
| "summary_value s MetricTokens = su_tokens s"
| "summary_value s MetricRequests = su_requests s"

lemma summary_sum: "summary_value (buildSummary rows) metric = (\<Sum>row\<leftarrow>rows. metricValue (rowMetrics row) metric)"
proof -
  have "summary_value (foldl (\<lambda>s row. let m = rowMetrics row in
        s\<lparr>su_quota := su_quota s + fm_quota m, su_tokens := su_tokens s + fm_tokens m, su_requests := su_requests s + fm_requests m\<rparr>) s0 rows) metric =
      summary_value s0 metric + (\<Sum>row\<leftarrow>rows. metricValue (rowMetrics row) metric)" for s0
    by (induction rows arbitrary: s0; cases metric) (simp_all add: Let_def add.assoc)
  then show ?thesis by (cases metric) (simp_all add: buildSummary_def)
qed

text \<open>Rows are merged, not hidden.\<close>

definition keeps_rows :: "'a FlowGraphOptions_scheme \<Rightarrow> bool" where
  "keeps_rows options \<longleftrightarrow> normalizeTopNodeLimit (go_topNodeLimit options) = None \<or> go_overflowMode options \<noteq> Some OverflowHide"

lemma prepared_all:
  assumes "keeps_rows options"
  shows "map pp_metrics (preparePaths env rows metric stages ctx options) = map rowMetrics rows"
proof -
  let ?tops = "buildTopNodeSets env rows metric stages (normalizeTopNodeLimit (go_topNodeLimit options)) ctx"
  let ?mode = "nullish (go_overflowMode options) OverflowAggregate"
  have "?tops = None \<or> ?mode \<noteq> OverflowHide"
    using assms by (auto simp: keeps_rows_def buildTopNodeSets_def nullish_def split: option.splits)
  then have some: "\<exists>path. applyTopNodeLimit path0 ?tops ?mode lab = Some path" for path0 lab
    by (auto simp: applyTopNodeLimit_def)
  have "map pp_metrics (List.map_filter (\<lambda>row. map_option (\<lambda>path. \<lparr>pp_path = path, pp_metrics = rowMetrics row\<rparr>)
      (applyTopNodeLimit (f row) ?tops ?mode (go_otherNodeLabel options))) rows') = map rowMetrics rows'" for f rows'
  proof (induction rows')
    case (Cons row rows')
    obtain path where "applyTopNodeLimit (f row) ?tops ?mode (go_otherNodeLabel options) = Some path" using some by blast
    with Cons show ?case by (simp add: map_filter_simps)
  qed (simp add: map_filter_simps)
  then show ?thesis by (simp add: preparePaths_def Let_def)
qed

text \<open>C19: Every visible stage of the chart carries the whole usage: unless rows are hidden, the values of the
  nodes of any one stage add up to the total that the summary shows for the selected rows.\<close>

theorem stages_carry_summary:
  assumes "keeps_rows options" "d = buildDashboardFlowData env rows metric options"
    and "s \<in> set (resolveVisibleStages (nullish (bo_role options) FlowUser) (bo_visibleStages options))"
  shows "stage_value (pf_flow d) s = summary_value (pf_summary d) metric"
proof -
  have trunc: "keeps_rows (FlowGraphOptions.truncate options)" using assms(1) by (simp add: keeps_rows_def FlowGraphOptions.defs)
  have "paths_total metric (preparePaths env rows' metric stages ctx (FlowGraphOptions.truncate options)) =
      summary_value (buildSummary rows') metric" for rows' stages ctx
  proof -
    have "paths_total metric ps = (\<Sum>m\<leftarrow>map pp_metrics ps. metricValue m metric)" for ps
      by (simp add: paths_total_def comp_def)
    then have "paths_total metric (preparePaths env rows' metric stages ctx (FlowGraphOptions.truncate options)) =
        (\<Sum>m\<leftarrow>map rowMetrics rows'. metricValue m metric)" by (simp only: prepared_all [OF trunc])
    then show ?thesis by (simp add: summary_sum comp_def)
  qed
  then show ?thesis
    unfolding assms(2) buildDashboardFlowData_def Let_def by (simp add: stage_value_total [OF refl assms(3)])
qed

lemma set_first_ids: "i \<in> set (first_ids ps) \<longleftrightarrow> i \<noteq> [] \<and> (\<exists>p \<in> set ps. pp_path p \<noteq> [] \<and> i = pn_id (hd (pp_path p)))"
proof (induction ps)
  case (Cons p ps)
  then show ?case by (cases "pp_path p") (auto simp: first_ids_def map_filter_simps)
qed (simp add: first_ids_def map_filter_simps)

lemma first_ids_iff:
  assumes "\<And>p. p \<in> set ps \<Longrightarrow> path_ok stages (pp_path p)" "distinct stages" "stages \<noteq> []" "p \<in> set ps" "a \<in> set (pp_path p)"
  shows "pn_id a \<in> set (first_ids ps) \<longleftrightarrow> id_kind (pn_id a) = kind_name (hd stages)"
proof
  assume "pn_id a \<in> set (first_ids ps)"
  then obtain q where q: "q \<in> set ps" "pp_path q \<noteq> []" "pn_id a = pn_id (hd (pp_path q))"
    by (auto simp: set_first_ids)
  with path_ends(3) [OF assms(1) [OF q(1)] assms(3)] assms(1) [OF q(1)] show "id_kind (pn_id a) = kind_name (hd stages)"
    by (auto simp: path_ok_def list_all_iff node_ok_def)
next
  assume a: "id_kind (pn_id a) = kind_name (hd stages)"
  note ok = assms(1) [OF assms(4)]
  note ends = path_ends [OF ok assms(3)]
  have both: "a \<in> set (filter (\<lambda>a. id_kind (pn_id a) = kind_name (hd stages)) (pp_path p))"
    "hd (pp_path p) \<in> set (filter (\<lambda>a. id_kind (pn_id a) = kind_name (hd stages)) (pp_path p))"
    using a assms(5) ends ok by (auto simp: path_ok_def list_all_iff node_ok_def)
  have "hd stages \<in> set stages" using assms(3) by simp
  from one_of_stage [OF ok assms(2) this] obtain b where "filter (\<lambda>a. id_kind (pn_id a) = kind_name (hd stages)) (pp_path p) = [b]" ..
  with both have "a = hd (pp_path p)" by (simp only: list.set singleton_iff)
  moreover have "pn_id a \<noteq> []" using a by (cases "hd stages") (auto simp: id_kind_def)
  ultimately show "pn_id a \<in> set (first_ids ps)"
    using assms(4) ends(1) by (auto simp: set_first_ids)
qed

text \<open>The share of a link is its part of all the usage in the chart: its value divided by what the first
  stage carries, and zero when that is nothing.\<close>

theorem link_share:
  assumes "list_all row_plain rows" "numbers_plain env"
    and "g = buildFlowGraph env rows metric role palette vis ctx options" "l \<in> set (fg_links g)"
  shows "fl_share l = (if stage_value g (hd (graph_stages role vis)) > 0 then fl_value l / stage_value g (hd (graph_stages role vis)) else 0)"
proof -
  define ps where "ps = preparePaths env rows metric (graph_stages role vis) ctx options"
  let ?st = "graph_stages role vis" and ?F = "set (first_ids ps)"
  have ne: "?st \<noteq> []" "hd ?st \<noteq> last ?st" "hd ?st \<in> set ?st"
    using visible_stages [of role vis] by (cases ?st; auto)+
  have ok: "path_ok ?st (pp_path p)" if "p \<in> set ps" for p using that prepared_ok unfolding ps_def by blast
  have nf: "nul_free ps" unfolding ps_def by (rule prepared_nul_free [OF assms(1,2)])
  have kind: "pn_id a \<in> ?F \<longleftrightarrow> id_kind (pn_id a) = kind_name (hd ?st)" if "p \<in> set ps" "a \<in> set (pp_path p)" for p a
    using first_ids_iff [OF ok visible_stages(1) ne(1) that] .
  have "pp_path p \<noteq> [] \<and> pn_id (last (pp_path p)) \<notin> ?F" if p: "p \<in> set ps" for p
    using path_ends [OF ok [OF p] ne(1)] kind [OF p last_in_set] ok [OF p] ne(2)
    by (auto simp: path_ok_def list_all_iff node_ok_def kind_name_inject)
  from flow_out [of ps "\<lambda>a. pn_id a \<in> ?F", OF this]
  have "link_flow metric (\<lambda>ab. pn_id (fst ab) \<in> ?F) ps = node_flow metric (\<lambda>a. pn_id a \<in> ?F) ps" .
  also have "\<dots> = node_flow metric (\<lambda>a. id_kind (pn_id a) = kind_name (hd ?st)) ps"
    unfolding node_flow_def using kind by (simp cong: map_cong filter_cong)
  also have "\<dots> = stage_value g (hd ?st)"
    using stage_flow [OF ok visible_stages(1) ne(3)] stage_value_total [OF ps_def ne(3)] assms(3) by simp
  finally have tot: "link_flow metric (\<lambda>ab. pn_id (fst ab) \<in> ?F) ps = stage_value g (hd ?st)" .
  define ls where "ls = sort_key (\<lambda>l. (fe_rank env (fl_source l), fe_rank env (fl_target l))) (unsorted_links env metric palette ps options ?st)"
  have g: "fg_links g = assignLinkDisplayColors env (share_links (first_ids ps) ls)" unfolding assms(3) ls_def by (rule graph_links [OF ps_def])
  have "(\<Sum>l\<leftarrow>filter (\<lambda>l. fl_source l \<in> ?F) (fg_links g). fl_value l) = (\<Sum>l\<leftarrow>filter (\<lambda>l. fl_source l \<in> ?F) ls. fl_value l)"
    unfolding g by (subst link_sum_by_ends [of "\<lambda>s t. s \<in> ?F"]) (simp only: shared_links_frame link_sum_by_ends [of "\<lambda>s t. s \<in> ?F", symmetric])
  with graph_link_sum [OF ps_def nf, of "\<lambda>s t. s \<in> ?F" palette] assms(3) tot
  have "(\<Sum>l\<leftarrow>filter (\<lambda>l. fl_source l \<in> ?F) ls. fl_value l) = stage_value g (hd ?st)" by simp
  then show ?thesis
    using assms(4) unfolding g assignLinkDisplayColors_def share_links_def Let_def by (auto simp: frame)
qed

section \<open>A small chart\<close>

definition usage_row :: "string \<Rightarrow> string \<Rightarrow> number \<Rightarrow> FlowQuotaDataItem" where
  "usage_row token m q =
    \<lparr>fq_user_id = Some 1, fq_username = Some ''ann'', fq_node_name = None, fq_use_group = None, fq_token_id = None, fq_token_name = Some token,
     fq_channel_id = None, fq_channel_name = None, fq_model_name = Some m, fq_token_used = None, fq_count = Some 1, fq_quota = Some q\<rparr>"

definition usage_rows :: "FlowQuotaDataItem list" where
  "usage_rows = [usage_row ''a'' ''m1'' 5, usage_row ''b'' ''m1'' 3, usage_row ''a'' ''m2'' 2, usage_row ''c'' ''m2'' 1]"

definition flow_env :: FlowEnv where
  "flow_env = \<lparr>fe_rank = (\<lambda>s. s), fe_show = (\<lambda>n. ''1''), fe_format = (\<lambda>n. ''1''), fe_fixed2 = (\<lambda>n. ''0.24''), fe_colors = (\<lambda>n. [''#112233'']), fe_mask = ''****''\<rparr>"

definition flow_options :: FlowBuildOptions where
  "flow_options =
    \<lparr>go_topNodeLimit = Some 2, go_overflowMode = None, go_otherNodeLabel = None, go_activeNode = None, go_activeLink = None, go_maskSensitive = True,
     bo_role = None, bo_selectedUsers = None, bo_selectedNodes = None, bo_colorPalette = None, bo_visibleStages = None, bo_deletedTokenLabel = None\<rparr>"

abbreviation usage_graph :: DashboardFlowGraph where
  "usage_graph \<equiv> buildFlowGraph flow_env usage_rows MetricQuota FlowUser None None \<lparr>fc_deletedTokenLabel = None\<rparr> (FlowGraphOptions.truncate flow_options)"

lemma usage_plain: "list_all row_plain usage_rows" "numbers_plain flow_env"
  by (simp_all add: usage_rows_def usage_row_def row_plain_def text_plain_def numbers_plain_def flow_env_def NUL_char)

lemma usage_node:
  "fg_nodes usage_graph ! 1 \<in> set (fg_nodes usage_graph)" "fn_id (fg_nodes usage_graph ! 1) = ''token:a''"
  "fn_kind (fg_nodes usage_graph ! 1) \<noteq> last (graph_stages FlowUser None)" "fn_value (fg_nodes usage_graph ! 1) = 7"
  by code_simp+

theorem flow_conserved_witness:
  "(\<Sum>l\<leftarrow>filter (\<lambda>l. fl_source l = ''token:a'') (fg_links usage_graph). fl_value l) = 7"
  using flow_conserved [OF usage_plain usage_node(1)] usage_node(3) by (simp only: usage_node(2,4) simp_thms)

theorem stages_carry_summary_witness:
  "stage_value (pf_flow (buildDashboardFlowData flow_env usage_rows MetricQuota flow_options)) KindModel = 11"
proof -
  have "keeps_rows flow_options" "KindModel \<in> set (resolveVisibleStages (nullish (bo_role flow_options) FlowUser) (bo_visibleStages flow_options))"
    by code_simp+
  moreover have "summary_value (pf_summary (buildDashboardFlowData flow_env usage_rows MetricQuota flow_options)) MetricQuota = 11" by code_simp
  ultimately show ?thesis using stages_carry_summary [of flow_options, OF _ refl] by metis
qed

theorem link_share_witness: "fl_share (fg_links usage_graph ! 1) = 5 / 11"
proof -
  have "fg_links usage_graph ! 1 \<in> set (fg_links usage_graph)" "fl_value (fg_links usage_graph ! 1) = 5"
    "stage_value usage_graph (hd (graph_stages FlowUser None)) = 11" by code_simp+
  with link_share [OF usage_plain refl, of "fg_links usage_graph ! 1"] show ?thesis by simp
qed

end
