(* ===== verification/Flow_Display.thy ===== *)
theory Flow_Display
  imports Flow_Conservation
begin

text \<open>
  What the flow chart leaves out or hides: the nodes that keep their place under a limit are the largest
  and no more than the limit, and masks hide the sensitive names and nothing else.
\<close>

section \<open>The largest nodes\<close>

text \<open>The node a row passes at a stage, and what all rows together carry through the node with an id.\<close>

definition row_id :: "FlowEnv \<Rightarrow> FlowPathContext \<Rightarrow> FlowNodeKind \<Rightarrow> FlowQuotaDataItem \<Rightarrow> string" where
  "row_id env ctx s row = pn_id (NODE_BUILDERS env s row ctx)"

definition id_total :: "FlowEnv \<Rightarrow> FlowPathContext \<Rightarrow> FlowMetric \<Rightarrow> FlowNodeKind \<Rightarrow> FlowQuotaDataItem list \<Rightarrow> string \<Rightarrow> number" where
  "id_total env ctx metric s rows i = (\<Sum>row\<leftarrow>filter (\<lambda>row. row_id env ctx s row = i) rows. metricValue (rowMetrics row) metric)"

definition rank_map :: "(FlowPathNode \<times> number) list \<Rightarrow> (string \<times> FlowNodeRank) list" where
  "rank_map = accumulate (\<lambda>nv. pn_id (fst nv)) (\<lambda>nv. \<lparr>nr_node = fst nv, nr_value = 0\<rparr>) (\<lambda>nv r. r\<lparr>nr_value := nr_value r + snd nv\<rparr>)"

interpretation rank_values: accumulator "\<lambda>nv. pn_id (fst nv)" "\<lambda>nv. \<lparr>nr_node = fst nv, nr_value = 0\<rparr>"
    "\<lambda>nv r. r\<lparr>nr_value := nr_value r + snd nv\<rparr>" nr_value snd
  by unfold_locales simp_all

interpretation rank_tags: accumulator_tag "\<lambda>nv. pn_id (fst nv)" "\<lambda>nv. \<lparr>nr_node = fst nv, nr_value = 0\<rparr>"
    "\<lambda>nv r. r\<lparr>nr_value := nr_value r + snd nv\<rparr>" nr_node fst
  by unfold_locales simp_all

text \<open>The loop over all nodes of all rows fills the map of each stage on its own.\<close>

lemma rank_nodes:
  "foldl rank_node (map (\<lambda>s. (s, [])) stages) nvs = map (\<lambda>s. (s, rank_map (filter (\<lambda>nv. pn_kind (fst nv) = s) nvs))) stages"
proof (induction nvs rule: rev_induct)
  case (snoc nv nvs)
  then show ?case by (auto simp: rank_node_def rank_map_def accumulate_snoc)
qed (simp add: rank_map_def)

lemma rank_rows:
  "foldl (rank_row env metric stages ctx) t rows =
    foldl rank_node t (concat (map (\<lambda>row. map (\<lambda>n. (n, metricValue (rowMetrics row) metric)) (flowPathForStages env row stages ctx)) rows))"
  by (simp add: foldl_concat_map rank_row_def [abs_def])

definition stage_items :: "FlowEnv \<Rightarrow> FlowPathContext \<Rightarrow> FlowMetric \<Rightarrow> FlowNodeKind \<Rightarrow> FlowQuotaDataItem list \<Rightarrow> (FlowPathNode \<times> number) list" where
  "stage_items env ctx metric s rows = map (\<lambda>row. (NODE_BUILDERS env s row ctx, metricValue (rowMetrics row) metric)) rows"

lemma stage_filter:
  assumes "distinct stages" "s \<in> set stages"
  shows "filter (\<lambda>nv. pn_kind (fst nv) = s)
      (concat (map (\<lambda>row. map (\<lambda>n. (n, metricValue (rowMetrics row) metric)) (flowPathForStages env row stages ctx)) rows)) =
    stage_items env ctx metric s rows"
proof (induction rows)
  case (Cons row rows)
  have "filter (\<lambda>nv. pn_kind (fst nv) = s) (map (\<lambda>n. (n, metricValue (rowMetrics row) metric)) (flowPathForStages env row stages ctx)) =
      map (\<lambda>s. (NODE_BUILDERS env s row ctx, metricValue (rowMetrics row) metric)) (filter (\<lambda>k. k = s) stages)"
    by (simp add: flowPathForStages_def filter_map comp_def built_node)
  moreover have "filter (\<lambda>k. k = s) stages = [s]"
    using assms by (induction stages) (auto simp: filter_empty_conv)
  ultimately show ?case using Cons by (simp add: stage_items_def)
qed (simp add: stage_items_def)

lemma top_sets:
  assumes "distinct stages" "s \<in> set stages"
  shows "\<exists>tops. buildTopNodeSets env rows metric stages (Some l) ctx = Some tops \<and>
    map_of tops s = Some (top_ids env l (rank_map (stage_items env ctx metric s rows)))"
proof -
  have "map_of (map (\<lambda>s. (s, f s)) stages) s = Some (f s)" for f :: "FlowNodeKind \<Rightarrow> string list"
    using assms(2) by (simp add: map_of_map_restrict)
  then show ?thesis
    using stage_filter [OF assms] by (simp add: buildTopNodeSets_def rank_rows rank_nodes comp_def)
qed

lemma top_node_iff:
  assumes "distinct stages" "pn_kind n \<in> set stages"
  shows "isTopFlowNode n (buildTopNodeSets env rows metric stages (Some l) ctx) \<longleftrightarrow>
    pn_id n \<in> set (top_ids env l (rank_map (stage_items env ctx metric (pn_kind n) rows)))"
  using top_sets [OF assms, of env rows metric l ctx] by (auto simp: isTopFlowNode_def)

lemma top_ids_length: "length (top_ids env l ranks) \<le> l"
  by (simp add: top_ids_def)

lemma limited_id:
  assumes "normalizeTopNodeLimit (go_topNodeLimit options) = Some limit"
    and "n \<in> set (fg_nodes (buildFlowGraph env rows metric role palette vis ctx options))"
    and kept: "kept = top_ids env limit (rank_map (stage_items env ctx metric (fn_kind n) rows))"
  shows "fn_id n \<in> set kept \<union> (if go_overflowMode options = Some OverflowHide then {} else {OTHER_FLOW_NODE_IDS (fn_kind n)})"
proof -
  let ?st = "graph_stages role vis" and ?hide = "go_overflowMode options = Some OverflowHide"
  let ?tops = "buildTopNodeSets env rows metric ?st (Some limit) ctx"
  obtain p a where pa: "p \<in> set (preparePaths env rows metric ?st ctx options)" "a \<in> set (pp_path p)" "fn_id n = pn_id a" "fn_kind n = pn_kind a"
    using assms(2) by (rule graph_node_origin)
  have s: "fn_kind n \<in> set ?st" using assms(2) by (rule graph_node_kind(2))
  have tops: "isTopFlowNode b ?tops \<longleftrightarrow> pn_id b \<in> set kept" if "pn_kind b = fn_kind n" for b
    using top_node_iff [OF visible_stages(1), of b role vis env rows metric limit ctx] s that by (simp add: kept)
  obtain row path where row: "applyTopNodeLimit (flowPathForStages env row ?st ctx) ?tops (nullish (go_overflowMode options) OverflowAggregate)
      (go_otherNodeLabel options) = Some path" "p = \<lparr>pp_path = path, pp_metrics = rowMetrics row\<rparr>"
    using pa(1) assms(1) by (auto simp: preparePaths_def Let_def List.map_filter_def)
  have a: "a \<in> set path" using pa(2) row(2) by simp
  show ?thesis
  proof (cases "isTopFlowNode a ?tops")
    case True
    with tops pa(3,4) show ?thesis by simp
  next
    case False
    with row(1) a have "\<not> ?hide"
      by (auto simp: applyTopNodeLimit_def nullish_def list_ex_iff isTopFlowNode_def split: if_splits)
    moreover obtain b where "a = (if isTopFlowNode b ?tops then b else otherFlowNode (pn_kind b) (go_otherNodeLabel options))"
      using a unfolding limited_path [OF row(1)] set_map by blast
    with False have "a = otherFlowNode (pn_kind a) (go_otherNodeLabel options)" by (auto simp: other_node split: if_splits)
    then have "pn_id a = OTHER_FLOW_NODE_IDS (pn_kind a)" by (metis otherFlowNode_def FlowPathNode.select_convs(1))
    ultimately show ?thesis using pa(3,4) by simp
  qed
qed

text \<open>The chart respects its limit: with a limit in force, a stage has at most that many nodes and one
  more for the rest, and no such node when the rest is hidden.\<close>

theorem top_limit_respected:
  assumes "normalizeTopNodeLimit (go_topNodeLimit options) = Some limit"
  shows "length (filter (\<lambda>n. fn_kind n = s) (fg_nodes (buildFlowGraph env rows metric role palette vis ctx options))) \<le>
    (if go_overflowMode options = Some OverflowHide then limit else limit + 1)"
proof -
  let ?ns = "filter (\<lambda>n. fn_kind n = s) (fg_nodes (buildFlowGraph env rows metric role palette vis ctx options))"
  let ?other = "if go_overflowMode options = Some OverflowHide then {} else {OTHER_FLOW_NODE_IDS s}"
  define kept where "kept = top_ids env limit (rank_map (stage_items env ctx metric s rows))"
  have ids: "fn_id n \<in> set kept \<union> ?other" if "n \<in> set ?ns" for n
  proof -
    have n: "n \<in> set (fg_nodes (buildFlowGraph env rows metric role palette vis ctx options))" "fn_kind n = s" using that by simp_all
    from limited_id [OF assms n(1) refl] show ?thesis unfolding n(2) kept_def .
  qed
  have "distinct (map fn_id ?ns)" using graph_ids_distinct distinct_map_filter by blast
  then have "length ?ns = card (set (map fn_id ?ns))" by (metis distinct_card length_map)
  also have "\<dots> \<le> card (set kept \<union> ?other)"
  proof (rule card_mono)
    show "set (map fn_id ?ns) \<subseteq> set kept \<union> ?other" unfolding set_map by (rule image_subsetI) (rule ids)
  qed simp
  also have "\<dots> \<le> card (set kept) + card ?other" by (rule card_Un_le)
  also have "card (set kept) \<le> limit" using card_length [of kept] top_ids_length [of env limit] unfolding kept_def by (meson order_trans)
  finally show ?thesis by (simp split: if_splits)
qed

lemma sorted_take_drop:
  assumes "x \<in> set (take n (sort_key k xs))" "y \<in> set xs" "y \<notin> set (take n (sort_key k xs))"
  shows "k x \<le> k y"
proof -
  let ?s = "sort_key k xs"
  have "y \<in> set (take n ?s @ drop n ?s)" using assms(2) by simp
  then have y: "y \<in> set (drop n ?s)" using assms(3) unfolding set_append by blast
  have "sorted (map k (take n ?s @ drop n ?s))" by simp
  then have "\<forall>a \<in> set (map k (take n ?s)). \<forall>b \<in> set (map k (drop n ?s)). a \<le> b" unfolding map_append sorted_append by blast
  with assms(1) y show ?thesis by (simp only: set_map) blast
qed

lemma rank_entry:
  assumes "(i, r) \<in> set (rank_map (stage_items env ctx metric s rows))"
  shows "pn_id (nr_node r) = i" "nr_value r = id_total env ctx metric s rows i"
proof -
  let ?m = "rank_map (stage_items env ctx metric s rows)"
  show "pn_id (nr_node r) = i" using rank_tags.accumulated_tag [OF assms [unfolded rank_map_def]] by auto
  have "nr_value (snd (i, r)) = (\<Sum>kr\<leftarrow>filter (\<lambda>kr. fst kr = fst (i, r)) ?m. nr_value (snd kr))"
    using sum_filter_single [of fst ?m "(i, r)" "\<lambda>kr. nr_value (snd kr)"] assms by (simp add: rank_map_def accumulate_distinct)
  also have "\<dots> = (\<Sum>nv\<leftarrow>filter (\<lambda>nv. pn_id (fst nv) = i) (stage_items env ctx metric s rows). snd nv)"
    unfolding rank_map_def using rank_values.accumulated_sum [of "\<lambda>k. k = i"] by simp
  also have "\<dots> = id_total env ctx metric s rows i"
    by (simp add: stage_items_def filter_map comp_def id_total_def row_id_def)
  finally show "nr_value r = id_total env ctx metric s rows i" by simp
qed

text \<open>The nodes that keep their place are the largest: what is merged or hidden at a stage carries no more
  than any node that is shown there under its own name.\<close>

theorem top_nodes_largest:
  assumes "s \<in> set stages" "distinct stages" "r2 \<in> set rows"
    and "isTopFlowNode (NODE_BUILDERS env s r1 ctx) (buildTopNodeSets env rows metric stages (Some limit) ctx)"
    and "\<not> isTopFlowNode (NODE_BUILDERS env s r2 ctx) (buildTopNodeSets env rows metric stages (Some limit) ctx)"
  shows "id_total env ctx metric s rows (row_id env ctx s r2) \<le> id_total env ctx metric s rows (row_id env ctx s r1)"
proof -
  let ?m = "rank_map (stage_items env ctx metric s rows)"
  let ?k = "\<lambda>r. (- nr_value r, fe_rank env (pn_label (nr_node r)), fe_rank env (pn_id (nr_node r)))"
  have keys: "fst ` set ?m = row_id env ctx s ` set rows"
    by (simp add: rank_map_def accumulate_key_set stage_items_def image_image row_id_def)
  then have "row_id env ctx s r2 \<in> fst ` set ?m" using assms(3) by simp
  then obtain e2 where e: "(row_id env ctx s r2, e2) \<in> set ?m" by auto
  have kept: "isTopFlowNode (NODE_BUILDERS env s row ctx) (buildTopNodeSets env rows metric stages (Some limit) ctx) \<longleftrightarrow>
      row_id env ctx s row \<in> set (top_ids env limit ?m)" for row
    using top_node_iff [OF assms(2), of "NODE_BUILDERS env s row ctx"] assms(1) by (simp add: built_node row_id_def)
  then obtain e where e': "e \<in> set (take limit (sort_key ?k (map snd ?m)))" "pn_id (nr_node e) = row_id env ctx s r1"
    using assms(4) by (auto simp: top_ids_def)
  have "e \<in> set (map snd ?m)" using in_set_takeD [OF e'(1)] by simp
  then obtain i where i: "(i, e) \<in> set ?m" by auto
  have "e2 \<notin> set (take limit (sort_key ?k (map snd ?m)))"
    using assms(5) kept rank_entry(1) [OF e] by (force simp: top_ids_def)
  moreover have "e2 \<in> set (map snd ?m)" using e by force
  ultimately have "?k e \<le> ?k e2" using sorted_take_drop [OF e'(1)] by blast
  then have "nr_value e2 \<le> nr_value e" by (simp add: less_eq_prod_def split: if_splits) linarith
  with rank_entry [OF e] rank_entry [OF i] e'(2) show ?thesis by simp
qed

section \<open>Masks\<close>

text \<open>What a node or a link tells apart from its labels.\<close>

definition unlabelled_node :: "DashboardFlowNode \<Rightarrow> DashboardFlowNode" where
  "unlabelled_node n = n\<lparr>fn_label := []\<rparr>"

definition unlabelled_link :: "DashboardFlowLink \<Rightarrow> DashboardFlowLink" where
  "unlabelled_link l = l\<lparr>fl_sourceLabel := [], fl_targetLabel := []\<rparr>"

definition sensitive_id :: "string \<Rightarrow> bool" where
  "sensitive_id i \<longleftrightarrow> (\<exists>k \<in> SENSITIVE_FLOW_KINDS. id_kind i = kind_name k) \<and> i \<notin> set OTHER_FLOW_NODE_ID_SET"

lemma masked_node_id:
  assumes "id_kind (fn_id n) = kind_name (fn_kind n)"
  shows "masked_node n \<longleftrightarrow> sensitive_id (fn_id n)"
  using assms by (auto simp: masked_node_def sensitive_id_def kind_name_inject)

lemma raw_node_kind:
  assumes "(k, n) \<in> set (raw_nodes env metric palette (preparePaths env rows metric stages ctx options))"
  shows "id_kind (fn_id n) = kind_name (fn_kind n)" "k = fn_id n"
  using assms prepared_ok by (fastforce simp: raw_nodes_def path_ok_def list_all_iff node_ok_def elim!: node_map_tag)+

lemma masked_label: "maskFlowLabel env s \<in> {[], fe_mask env}"
  by (simp add: maskFlowLabel_def)

lemma link_end_node:
  assumes "p \<in> set ps" "a \<in> set (pp_path p)"
  obtains n where "(pn_id a, n) \<in> set (raw_nodes env metric palette ps)"
proof -
  have "pn_id a \<in> fst ` set (raw_nodes env metric palette ps)"
    using assms by (force simp: raw_nodes_def node_map_def accumulate_key_set node_items_def)
  then show thesis using that by auto
qed

lemma mask_table_entry:
  assumes "ps = preparePaths env rows metric stages ctx options" "p \<in> set ps" "a \<in> set (pp_path p)" "sensitive_id (pn_id a)"
  shows "\<exists>t \<in> {[], fe_mask env}. map_of (mask_table env (raw_nodes env metric palette ps)) (pn_id a) = Some t"
proof -
  obtain n where n: "(pn_id a, n) \<in> set (raw_nodes env metric palette ps)" using link_end_node [OF assms(2,3)] .
  with raw_node_kind [of "pn_id a" n env metric palette rows stages ctx options] assms(1,4) have "masked_node n" "fn_id n = pn_id a"
    by (simp_all add: masked_node_id)
  with n have "(pn_id a, maskFlowLabel env (fn_label n)) \<in> set (mask_table env (raw_nodes env metric palette ps))"
    by (force simp: mask_table_def)
  from weak_map_of_SomeI [OF this] obtain t where t: "map_of (mask_table env (raw_nodes env metric palette ps)) (pn_id a) = Some t" ..
  from map_of_SomeD [OF this] have "t \<in> {[], fe_mask env}" using masked_label by (auto simp: mask_table_def)
  with t show ?thesis by blast
qed

text \<open>C21: Masking hides every sensitive name: with masks on, no node and no end of a link that stands for a
  user, a node, a token, a group or a channel shows another label than the mask or an empty one, the merged
  rest apart.\<close>

theorem masked_names_hidden:
  assumes "go_maskSensitive options" "g = buildFlowGraph env rows metric role palette vis ctx options"
  shows "(\<forall>n \<in> set (fg_nodes g). fn_kind n \<in> SENSITIVE_FLOW_KINDS \<longrightarrow> fn_id n \<notin> set OTHER_FLOW_NODE_ID_SET \<longrightarrow> fn_label n \<in> {[], fe_mask env}) \<and>
    (\<forall>l \<in> set (fg_links g). (sensitive_id (fl_source l) \<longrightarrow> fl_sourceLabel l \<in> {[], fe_mask env}) \<and>
      (sensitive_id (fl_target l) \<longrightarrow> fl_targetLabel l \<in> {[], fe_mask env}))"
proof (intro conjI ballI)
  define ps where "ps = preparePaths env rows metric (graph_stages role vis) ctx options"
  { fix n assume "n \<in> set (fg_nodes g)"
    then obtain m h where n: "n = shown_node env True h m" unfolding assms(2) graph_nodes [OF refl] using assms(1) by auto
    then show "fn_kind n \<in> SENSITIVE_FLOW_KINDS \<longrightarrow> fn_id n \<notin> set OTHER_FLOW_NODE_ID_SET \<longrightarrow> fn_label n \<in> {[], fe_mask env}"
      using masked_label [of env "fn_label m"] by (auto simp: shown_node_def masked_node_def frame split: if_splits) }
  fix l assume "l \<in> set (fg_links g)"
  then obtain r h k where l: "fl_source l = fl_source r" "fl_target l = fl_target r" "(k, r) \<in> set (raw_links env metric palette ps)"
    "fl_sourceLabel l = fl_sourceLabel (mask_link (mask_table env (raw_nodes env metric palette ps)) r)"
    "fl_targetLabel l = fl_targetLabel (mask_link (mask_table env (raw_nodes env metric palette ps)) r)"
    unfolding assms(2) graph_links [OF ps_def] using assms(1)
    by (auto simp: assignLinkDisplayColors_def share_links_def Let_def unsorted_links_def shown_link_def frame)
  then obtain p a b where r: "p \<in> set ps" "(a, b) \<in> set (path_links (pp_path p))" "fl_source r = pn_id a" "fl_target r = pn_id b"
    by (auto simp: raw_links_def elim!: link_map_tag)
  note ab = path_links_nodes [OF r(2)]
  show "sensitive_id (fl_source l) \<longrightarrow> fl_sourceLabel l \<in> {[], fe_mask env}"
    using mask_table_entry [OF ps_def r(1) conjunct1 [OF ab], of palette] l r by (auto simp: mask_link_def nullish_def)
  show "sensitive_id (fl_target l) \<longrightarrow> fl_targetLabel l \<in> {[], fe_mask env}"
    using mask_table_entry [OF ps_def r(1) conjunct2 [OF ab], of palette] l r by (auto simp: mask_link_def nullish_def)
qed

lemma insort_key_map: "insort_key k (f x) (map f xs) = map f (insort_key (\<lambda>x. k (f x)) x xs)"
  by (induction xs) simp_all

lemma sort_key_map: "sort_key k (map f xs) = map f (sort_key (\<lambda>x. k (f x)) xs)"
  by (induction xs) (simp_all add: insort_key_map)

lemma find_index_map: "find_index P (map f xs) = find_index (\<lambda>x. P (f x)) xs"
  by (induction xs) simp_all

lemma unlabelled_link_frame [frame]:
  "fl_source (unlabelled_link l) = fl_source l" "fl_target (unlabelled_link l) = fl_target l" "fl_value (unlabelled_link l) = fl_value l"
  "fl_color (unlabelled_link l) = fl_color l" "linkStableKey (unlabelled_link l) = linkStableKey l"
  by (simp_all add: unlabelled_link_def linkStableKey_def)

lemma source_links_unlabelled: "source_links env (map unlabelled_link ls) s = map unlabelled_link (source_links env ls s)"
  by (simp add: source_links_def filter_map sort_key_map comp_def frame)

lemma display_unlabelled: "unlabelled_link (display_link env ls l) = display_link env (map unlabelled_link ls) (unlabelled_link l)"
proof -
  have "length (source_links env (map unlabelled_link ls) s) = length (source_links env ls s)" for s
    by (simp add: source_links_unlabelled)
  then show ?thesis
    by (simp add: display_link_def Let_def case_prod_beta frame source_links_unlabelled find_index_map) (simp add: unlabelled_link_def)
qed

lemma share_unlabelled: "map unlabelled_link (share_links fs ls) = share_links fs (map unlabelled_link ls)"
  by (simp add: share_links_def Let_def filter_map comp_def frame) (simp add: unlabelled_link_def)

lemma shown_link_unlabelled: "unlabelled_link (shown_link t b h l) = highlight_link h (unlabelled_link l)"
  by (cases h) (auto simp: shown_link_def highlight_link_def mask_link_def unlabelled_link_def linkStableKey_def)

lemma links_unlabelled:
  "map unlabelled_link (assignLinkDisplayColors env (share_links fs (sort_key (\<lambda>l. (r (fl_source l), r (fl_target l))) ls))) =
    assignLinkDisplayColors env (share_links fs (sort_key (\<lambda>l. (r (fl_source l), r (fl_target l))) (map unlabelled_link ls)))"
  by (simp add: assignLinkDisplayColors_def display_unlabelled comp_def sort_key_map frame share_unlabelled [symmetric])

lemma shown_node_unlabelled: "unlabelled_node (shown_node env b h n) = highlight_node h (unlabelled_node n)"
  by (cases h) (auto simp: shown_node_def highlight_node_def unlabelled_node_def)

text \<open>Masking changes nothing but labels: the nodes of the masked and of the plain chart are the same up to
  order, and the links are the same in the same order, values, shares, colours and highlights included.\<close>

theorem mask_keeps_shape:
  "mset (map unlabelled_node (fg_nodes (buildFlowGraph env rows metric role palette vis ctx (options\<lparr>go_maskSensitive := True\<rparr>)))) =
     mset (map unlabelled_node (fg_nodes (buildFlowGraph env rows metric role palette vis ctx (options\<lparr>go_maskSensitive := False\<rparr>)))) \<and>
   map unlabelled_link (fg_links (buildFlowGraph env rows metric role palette vis ctx (options\<lparr>go_maskSensitive := True\<rparr>))) =
     map unlabelled_link (fg_links (buildFlowGraph env rows metric role palette vis ctx (options\<lparr>go_maskSensitive := False\<rparr>)))"
proof -
  let ?st = "graph_stages role vis"
  define ps where "ps = preparePaths env rows metric ?st ctx options"
  have ps: "ps = preparePaths env rows metric ?st ctx (options\<lparr>go_maskSensitive := b\<rparr>)" for b
    by (simp add: ps_def preparePaths_def)
  have h: "graph_highlights ps (options\<lparr>go_maskSensitive := b\<rparr>) ?st = graph_highlights ps options ?st" for b
    by (simp add: graph_highlights_def)
  have "mset (map unlabelled_node (fg_nodes (buildFlowGraph env rows metric role palette vis ctx (options\<lparr>go_maskSensitive := b\<rparr>)))) =
      mset (map (\<lambda>kn. highlight_node (graph_highlights ps options ?st) (unlabelled_node (snd kn))) (raw_nodes env metric palette ps))" for b
    unfolding graph_nodes [OF ps] by (simp add: h shown_node_unlabelled comp_def image_mset.compositionality)
  moreover have "map unlabelled_link (unsorted_links env metric palette ps (options\<lparr>go_maskSensitive := b\<rparr>) ?st) =
      map (\<lambda>kl. highlight_link (graph_highlights ps options ?st) (unlabelled_link (snd kl))) (raw_links env metric palette ps)" for b
    by (simp add: unsorted_links_def h shown_link_unlabelled)
  ultimately show ?thesis unfolding graph_links [OF ps] links_unlabelled by (simp only:) 
qed

section \<open>The small chart\<close>

theorem top_limit_respected_witness:
  "length (filter (\<lambda>n. fn_kind n = KindToken) (fg_nodes usage_graph)) \<le> 3"
proof -
  have "normalizeTopNodeLimit (go_topNodeLimit (FlowGraphOptions.truncate flow_options)) = Some 2"
    "go_overflowMode (FlowGraphOptions.truncate flow_options) = None" by code_simp+
  with top_limit_respected [of "FlowGraphOptions.truncate flow_options" 2 KindToken flow_env usage_rows MetricQuota FlowUser None None "\<lparr>fc_deletedTokenLabel = None\<rparr>"]
  show ?thesis by simp
qed

theorem top_nodes_largest_witness:
  "id_total flow_env \<lparr>fc_deletedTokenLabel = None\<rparr> MetricQuota KindToken usage_rows ''token:c'' \<le>
    id_total flow_env \<lparr>fc_deletedTokenLabel = None\<rparr> MetricQuota KindToken usage_rows ''token:a''"
proof -
  let ?ctx = "\<lparr>fc_deletedTokenLabel = None\<rparr> :: FlowPathContext"
  have "usage_rows ! 3 \<in> set usage_rows"
    "isTopFlowNode (NODE_BUILDERS flow_env KindToken (usage_rows ! 0) ?ctx) (buildTopNodeSets flow_env usage_rows MetricQuota [KindToken, KindModel] (Some 2) ?ctx)"
    "\<not> isTopFlowNode (NODE_BUILDERS flow_env KindToken (usage_rows ! 3) ?ctx) (buildTopNodeSets flow_env usage_rows MetricQuota [KindToken, KindModel] (Some 2) ?ctx)"
    by code_simp+
  moreover have "row_id flow_env ?ctx KindToken (usage_rows ! 3) = ''token:c''" "row_id flow_env ?ctx KindToken (usage_rows ! 0) = ''token:a''"
    by code_simp+
  ultimately show ?thesis
    using top_nodes_largest [of KindToken "[KindToken, KindModel]" "usage_rows ! 3" usage_rows flow_env "usage_rows ! 0" ?ctx MetricQuota 2] by simp
qed

theorem masked_names_hidden_witness: "fn_label (fg_nodes usage_graph ! 1) \<in> {[], ''****''}"
proof -
  let ?n = "fg_nodes usage_graph ! 1"
  have "go_maskSensitive (FlowGraphOptions.truncate flow_options)" "fn_kind ?n \<in> SENSITIVE_FLOW_KINDS"
    "fn_id ?n \<notin> set OTHER_FLOW_NODE_ID_SET" "fe_mask flow_env = ''****''" by code_simp+
  with masked_names_hidden [of "FlowGraphOptions.truncate flow_options" usage_graph, OF _ refl] usage_node(1) show ?thesis by metis
qed

end
