(* ===== verification/Custom_Routes.thy ===== *)
theory Custom_Routes
  imports Ordered_Map
begin

text \<open>
  The routes of an advanced custom channel (\<open>advanced-custom.ts\<close>): which incoming paths and client models
  are forwarded to which upstream path, through which converter and with which credentials.  Two
  management routes, for the list of models and for the balance, live in the same list.  \<open>JSON.parse\<close>,
  \<open>JSON.stringify\<close> and the URL parser are the arguments \<open>parse\<close>, \<open>stringify\<close> and \<open>url\<close>.
\<close>

section \<open>Data\<close>

record AdvancedCustomRouteAuth =
  aa_type :: "string option"
  aa_name :: "string option"
  aa_value :: "string option"

record AdvancedCustomRoute =
  ar_incoming_path :: "string option"
  ar_upstream_path :: "string option"
  ar_converter :: "string option"
  ar_models :: "string list option"
  ar_auth :: "AdvancedCustomRouteAuth option"

record AdvancedCustomConfig =
  ac_advanced_routes :: "AdvancedCustomRoute list option"

record AdvancedCustomValidationError =
  ve_message :: string
  ve_routeIndex :: "nat option"

definition ADVANCED_CUSTOM_MODEL_LIST_PATH :: string where
  "ADVANCED_CUSTOM_MODEL_LIST_PATH = ''/v1/models''"

definition ADVANCED_CUSTOM_MODEL_LIST_LABEL :: string where
  "ADVANCED_CUSTOM_MODEL_LIST_LABEL = ''OpenAI Models''"

definition ADVANCED_CUSTOM_BALANCE_PATH :: string where
  "ADVANCED_CUSTOM_BALANCE_PATH = ''/v1/dashboard/billing/credit_grants''"

definition ADVANCED_CUSTOM_BALANCE_LABEL :: string where
  "ADVANCED_CUSTOM_BALANCE_LABEL = ''Balance Query''"

definition ADVANCED_CUSTOM_CONVERTER_OPTIONS :: "string list" where
  "ADVANCED_CUSTOM_CONVERTER_OPTIONS =
    [''none'', ''anthropic_messages_to_openai_chat_completions'', ''openai_chat_completions_to_anthropic_messages'',
     ''openai_chat_completions_to_openai_responses'', ''openai_responses_to_openai_chat_completions'',
     ''openai_responses_to_gemini_generate_content'', ''gemini_generate_content_to_openai_chat_completions'',
     ''openai_chat_completions_to_gemini_generate_content'']"

text \<open>An incoming path with its label.\<close>

definition ADVANCED_CUSTOM_INCOMING_PATH_OPTIONS :: "(string \<times> string) list" where
  "ADVANCED_CUSTOM_INCOMING_PATH_OPTIONS =
    [(''/v1/chat/completions'', ''OpenAI Chat''), (''/v1/responses'', ''OpenAI Responses''),
     (''/v1/responses/compact'', ''OpenAI Responses Compact''), (''/v1/alpha/search'', ''Codex Alpha Search''),
     (''/v1/embeddings'', ''OpenAI Embeddings''), (''/v1/images/generations'', ''OpenAI Image Generations''),
     (''/v1/images/edits'', ''OpenAI Image Edits''), (''/v1/completions'', ''OpenAI Completions''),
     (''/v1/audio/speech'', ''OpenAI Audio Speech''), (''/v1/audio/transcriptions'', ''OpenAI Audio Transcriptions''),
     (''/v1/audio/translations'', ''OpenAI Audio Translations''), (''/v1/rerank'', ''Rerank''),
     (''/v1/realtime'', ''OpenAI Realtime''), (''/v1/messages'', ''Claude Messages''),
     (''/v1beta/models/{model}:generateContent'', ''Gemini Generate Content''),
     (''/v1beta/models/{model}:embedContent'', ''Gemini Embed Content''),
     (''/v1beta/models/{model}:batchEmbedContents'', ''Gemini Batch Embed Contents'')]"

definition ADVANCED_CUSTOM_ROUTE_SUMMARY_LABELS :: "(string \<times> string) list" where
  "ADVANCED_CUSTOM_ROUTE_SUMMARY_LABELS =
    [(''/v1/chat/completions'', ''OpenAI Chat''), (ADVANCED_CUSTOM_MODEL_LIST_PATH, ADVANCED_CUSTOM_MODEL_LIST_LABEL),
     (ADVANCED_CUSTOM_BALANCE_PATH, ADVANCED_CUSTOM_BALANCE_LABEL)]"

definition ADVANCED_CUSTOM_MODEL_REGEX_PREFIX :: string where
  "ADVANCED_CUSTOM_MODEL_REGEX_PREFIX = ''re:''"

definition openAIChatPath :: string where "openAIChatPath = ''/v1/chat/completions''"

definition openAIResponsesPath :: string where "openAIResponsesPath = ''/v1/responses''"

definition claudeMessagesPath :: string where "claudeMessagesPath = ''/v1/messages''"

definition geminiGenerateContentPath :: string where
  "geminiGenerateContentPath = ''/v1beta/models/{model}:generateContent''"

definition bearerHeaderAuth :: AdvancedCustomRouteAuth where
  "bearerHeaderAuth = \<lparr>aa_type = Some ''header'', aa_name = Some ''Authorization'', aa_value = Some ''Bearer {api_key}''\<rparr>"

definition apiKeyHeaderAuth :: AdvancedCustomRouteAuth where
  "apiKeyHeaderAuth = \<lparr>aa_type = Some ''header'', aa_name = Some ''x-api-key'', aa_value = Some ''{api_key}''\<rparr>"

definition geminiQueryAuth :: AdvancedCustomRouteAuth where
  "geminiQueryAuth = \<lparr>aa_type = Some ''query'', aa_name = Some ''key'', aa_value = Some ''{api_key}''\<rparr>"

section \<open>Templates\<close>

definition native_route :: "AdvancedCustomRouteAuth \<Rightarrow> string \<Rightarrow> AdvancedCustomRoute" where
  "native_route auth path =
    \<lparr>ar_incoming_path = Some path, ar_upstream_path = Some path, ar_converter = Some ''none'', ar_models = None, ar_auth = Some auth\<rparr>"

definition createOpenAINativeRoutes :: "AdvancedCustomRoute list" where
  "createOpenAINativeRoutes = map (native_route bearerHeaderAuth)
    [''/v1/chat/completions'', ''/v1/completions'', ''/v1/responses'', ''/v1/responses/compact'', ''/v1/embeddings'',
     ''/v1/images/generations'', ''/v1/images/edits'', ''/v1/audio/speech'', ''/v1/audio/transcriptions'',
     ''/v1/audio/translations'', ''/v1/realtime'']"

definition createClaudeNativeRoutes :: "AdvancedCustomRoute list" where
  "createClaudeNativeRoutes = [native_route apiKeyHeaderAuth ''/v1/messages'']"

definition createGeminiNativeRoutes :: "AdvancedCustomRoute list" where
  "createGeminiNativeRoutes = map (native_route geminiQueryAuth)
    [''/v1beta/models/{model}:generateContent'', ''/v1beta/models/{model}:embedContent'', ''/v1beta/models/{model}:batchEmbedContents'']"

definition createGatewayNativeRoutes :: "AdvancedCustomRoute list" where
  "createGatewayNativeRoutes = map (native_route bearerHeaderAuth) [''/v1/alpha/search'', ''/v1/rerank'']"

definition ADVANCED_CUSTOM_TEMPLATE_OPTIONS :: "(string \<times> AdvancedCustomConfig) list" where
  "ADVANCED_CUSTOM_TEMPLATE_OPTIONS =
    [(''all_protocols'', \<lparr>ac_advanced_routes = Some (createOpenAINativeRoutes @ createClaudeNativeRoutes @ createGeminiNativeRoutes @ createGatewayNativeRoutes)\<rparr>),
     (''openai_only'', \<lparr>ac_advanced_routes = Some createOpenAINativeRoutes\<rparr>),
     (''claude_only'', \<lparr>ac_advanced_routes = Some createClaudeNativeRoutes\<rparr>),
     (''gemini_only'', \<lparr>ac_advanced_routes = Some createGeminiNativeRoutes\<rparr>)]"

definition getAdvancedCustomTemplateConfig :: "string \<Rightarrow> AdvancedCustomConfig" where
  "getAdvancedCustomTemplateConfig templateKey =
    (case map_of ADVANCED_CUSTOM_TEMPLATE_OPTIONS templateKey of
      Some config \<Rightarrow> config
    | None \<Rightarrow> snd (hd ADVANCED_CUSTOM_TEMPLATE_OPTIONS))"

section \<open>Normal form\<close>

definition normalizeAdvancedCustomRouteModels :: "string list option \<Rightarrow> string list" where
  "normalizeAdvancedCustomRouteModels models = filter (\<lambda>m. m \<noteq> []) (map trim (nullish models []))"

definition getAdvancedCustomRouteUpstreamPath :: "AdvancedCustomRoute \<Rightarrow> string" where
  "getAdvancedCustomRouteUpstreamPath route = trim (or_string (ar_upstream_path route) [])"

definition normalizeAdvancedCustomRoute :: "AdvancedCustomRoute \<Rightarrow> AdvancedCustomRoute" where
  "normalizeAdvancedCustomRoute route =
    \<lparr>ar_incoming_path = Some (or_string (ar_incoming_path route) []),
     ar_upstream_path = Some (getAdvancedCustomRouteUpstreamPath route),
     ar_converter = Some (or_string (ar_converter route) ''none''),
     ar_models = (let models = normalizeAdvancedCustomRouteModels (ar_models route) in if models \<noteq> [] then Some models else None),
     ar_auth = map_option (\<lambda>a. \<lparr>aa_type = aa_type a, aa_name = Some (or_string (aa_name a) []), aa_value = Some (or_string (aa_value a) [])\<rparr>) (ar_auth route)\<rparr>"

definition normalizeAdvancedCustomConfig :: "AdvancedCustomConfig \<Rightarrow> AdvancedCustomConfig" where
  "normalizeAdvancedCustomConfig config =
    \<lparr>ac_advanced_routes = Some (map normalizeAdvancedCustomRoute (nullish (ac_advanced_routes config) []))\<rparr>"

text \<open>\<open>normalizeAdvancedCustomConfig(config).advanced_routes || []\<close>, as the callers write it.\<close>

abbreviation normalized_routes :: "AdvancedCustomConfig \<Rightarrow> AdvancedCustomRoute list" where
  "normalized_routes config \<equiv> nullish (ac_advanced_routes (normalizeAdvancedCustomConfig config)) []"

text \<open>\<open>route.incoming_path?.trim() || ''\<close>.\<close>

definition route_path :: "AdvancedCustomRoute \<Rightarrow> string" where
  "route_path route = trim (nullish (ar_incoming_path route) [])"

section \<open>Management and forwarding routes\<close>

definition isAdvancedCustomManagementPath :: "string \<Rightarrow> bool" where
  "isAdvancedCustomManagementPath path \<longleftrightarrow> path = ADVANCED_CUSTOM_MODEL_LIST_PATH \<or> path = ADVANCED_CUSTOM_BALANCE_PATH"

definition getAdvancedCustomManagementRoute :: "AdvancedCustomConfig \<Rightarrow> string \<Rightarrow> AdvancedCustomRoute option" where
  "getAdvancedCustomManagementRoute config path = find (\<lambda>route. map_option trim (ar_incoming_path route) = Some path) (normalized_routes config)"

definition management_route :: "string \<Rightarrow> AdvancedCustomRoute \<Rightarrow> AdvancedCustomRoute" where
  "management_route path route =
    \<lparr>ar_incoming_path = Some path, ar_upstream_path = Some (or_string (ar_upstream_path route) []), ar_converter = Some ''none'',
     ar_models = Some [], ar_auth = ar_auth route\<rparr>"

definition replaceAdvancedCustomManagementRoute :: "AdvancedCustomConfig \<Rightarrow> string \<Rightarrow> AdvancedCustomRoute option \<Rightarrow> AdvancedCustomConfig" where
  "replaceAdvancedCustomManagementRoute config path route =
    (let routes = normalized_routes config;
         index = find_index (\<lambda>candidate. map_option trim (ar_incoming_path candidate) = Some path) routes in
     \<lparr>ac_advanced_routes = Some
       (case route of
         None \<Rightarrow> (case index of None \<Rightarrow> routes | Some i \<Rightarrow> take i routes @ drop (i + 1) routes)
       | Some r \<Rightarrow> (case index of None \<Rightarrow> routes @ [management_route path r] | Some i \<Rightarrow> routes[i := management_route path r]))\<rparr>)"

definition replaceAdvancedCustomForwardingRoutes :: "AdvancedCustomConfig \<Rightarrow> AdvancedCustomRoute list \<Rightarrow> AdvancedCustomConfig" where
  "replaceAdvancedCustomForwardingRoutes config forwardingRoutes =
    (let routes = normalized_routes config; management = (\<lambda>route. isAdvancedCustomManagementPath (route_path route)) in
     \<lparr>ac_advanced_routes = Some
       (case find_index (\<lambda>route. \<not> management route) routes of
         None \<Rightarrow> filter management routes @ forwardingRoutes
       | Some i \<Rightarrow> filter management (take i routes) @ forwardingRoutes @ filter management (drop i routes))\<rparr>)"

definition createAdvancedCustomRoute :: AdvancedCustomRoute where
  "createAdvancedCustomRoute =
    \<lparr>ar_incoming_path = Some openAIChatPath, ar_upstream_path = Some openAIChatPath, ar_converter = Some ''none'', ar_models = None, ar_auth = None\<rparr>"

definition createAdvancedCustomConfig :: AdvancedCustomConfig where
  "createAdvancedCustomConfig = \<lparr>ac_advanced_routes = Some [createAdvancedCustomRoute]\<rparr>"

definition createAdvancedCustomManagementRoute :: "string \<Rightarrow> AdvancedCustomRoute" where
  "createAdvancedCustomManagementRoute path =
    \<lparr>ar_incoming_path = Some path, ar_upstream_path = Some path, ar_converter = Some ''none'', ar_models = Some [], ar_auth = None\<rparr>"

section \<open>Converters\<close>

definition isAdvancedCustomConverter :: "string \<Rightarrow> bool" where
  "isAdvancedCustomConverter v \<longleftrightarrow> v \<in> set ADVANCED_CUSTOM_CONVERTER_OPTIONS"

definition isConverterPathAllowed :: "string \<Rightarrow> string \<Rightarrow> bool" where
  "isConverterPathAllowed incomingPath converter =
    (if converter = ''none'' then True
     else if incomingPath = ''/v1/alpha/search'' then False
     else if converter = ''anthropic_messages_to_openai_chat_completions'' then incomingPath = ''/v1/messages''
     else if converter \<in> {''openai_chat_completions_to_anthropic_messages'', ''openai_chat_completions_to_openai_responses'',
         ''openai_chat_completions_to_gemini_generate_content''} then incomingPath = ''/v1/chat/completions''
     else if converter = ''openai_responses_to_openai_chat_completions'' then incomingPath = ''/v1/responses''
     else if converter = ''openai_responses_to_gemini_generate_content'' then incomingPath = ''/v1/responses''
     else contains incomingPath '':generateContent'' \<or> contains incomingPath '':streamGenerateContent'')"

definition isAdvancedCustomIncomingPathAllowed :: "string \<Rightarrow> string \<Rightarrow> bool" where
  "isAdvancedCustomIncomingPathAllowed incomingPath converter = isConverterPathAllowed incomingPath converter"

definition getAdvancedCustomIncomingPathOptions :: "string \<Rightarrow> (string \<times> string) list" where
  "getAdvancedCustomIncomingPathOptions converter =
    filter (\<lambda>option. isConverterPathAllowed (fst option) converter) ADVANCED_CUSTOM_INCOMING_PATH_OPTIONS"

definition getDefaultAdvancedCustomIncomingPath :: "string \<Rightarrow> string" where
  "getDefaultAdvancedCustomIncomingPath converter =
    (case getAdvancedCustomIncomingPathOptions converter of (p, _) # _ \<Rightarrow> if p \<noteq> [] then p else ''/v1/chat/completions'' | [] \<Rightarrow> ''/v1/chat/completions'')"

definition getAdvancedCustomNativeAuth :: "string \<Rightarrow> AdvancedCustomRouteAuth" where
  "getAdvancedCustomNativeAuth incomingPath =
    (if incomingPath = claudeMessagesPath then apiKeyHeaderAuth
     else if contains incomingPath '':generateContent'' \<or> contains incomingPath '':streamGenerateContent'' \<or>
         contains incomingPath '':embedContent'' \<or> contains incomingPath '':batchEmbedContents'' then geminiQueryAuth
     else bearerHeaderAuth)"

text \<open>The upstream path and the credentials a converter comes with.\<close>

definition getAdvancedCustomConverterDefaults :: "string \<Rightarrow> string \<Rightarrow> string \<times> AdvancedCustomRouteAuth" where
  "getAdvancedCustomConverterDefaults converter incomingPath =
    (let normalizedIncomingPath = (if trim incomingPath \<noteq> [] then trim incomingPath else getDefaultAdvancedCustomIncomingPath converter) in
     if converter = ''none'' then (normalizedIncomingPath, getAdvancedCustomNativeAuth normalizedIncomingPath)
     else if converter \<in> {''anthropic_messages_to_openai_chat_completions'', ''gemini_generate_content_to_openai_chat_completions'',
         ''openai_responses_to_openai_chat_completions''} then (openAIChatPath, bearerHeaderAuth)
     else if converter = ''openai_chat_completions_to_openai_responses'' then (openAIResponsesPath, bearerHeaderAuth)
     else if converter = ''openai_chat_completions_to_anthropic_messages'' then (claudeMessagesPath, apiKeyHeaderAuth)
     else if converter \<in> {''openai_chat_completions_to_gemini_generate_content'', ''openai_responses_to_gemini_generate_content''} then
       (geminiGenerateContentPath, geminiQueryAuth)
     else (if normalizedIncomingPath \<noteq> [] then normalizedIncomingPath else openAIChatPath, getAdvancedCustomNativeAuth normalizedIncomingPath))"

definition getAdvancedCustomUpstreamPathPlaceholder :: "string \<Rightarrow> string option \<Rightarrow> string" where
  "getAdvancedCustomUpstreamPathPlaceholder converter incomingPath =
    fst (getAdvancedCustomConverterDefaults converter (nullish incomingPath (getDefaultAdvancedCustomIncomingPath converter)))"

definition getAdvancedCustomConverterOptions :: "string \<Rightarrow> string list" where
  "getAdvancedCustomConverterOptions incomingPath =
    filter (\<lambda>option. option = ''none'' \<or> isConverterPathAllowed (trim incomingPath) option) ADVANCED_CUSTOM_CONVERTER_OPTIONS"

definition getAdvancedCustomIncomingPathLabel :: "string \<Rightarrow> string" where
  "getAdvancedCustomIncomingPathLabel v = or_string (map_of ADVANCED_CUSTOM_INCOMING_PATH_OPTIONS v) v"

definition getAdvancedCustomAuthMode :: "AdvancedCustomRoute \<Rightarrow> string" where
  "getAdvancedCustomAuthMode route = or_string (Option.bind (ar_auth route) aa_type) ''default''"

definition buildAdvancedCustomAuth :: "string \<Rightarrow> AdvancedCustomRouteAuth option \<Rightarrow> AdvancedCustomRouteAuth option" where
  "buildAdvancedCustomAuth mode previousAuth =
    (let name = Option.bind previousAuth aa_name; v = Option.bind previousAuth aa_value in
     if mode = ''default'' then None
     else if mode = ''none'' then Some \<lparr>aa_type = Some ''none'', aa_name = None, aa_value = None\<rparr>
     else if mode = ''header'' then
       Some \<lparr>aa_type = Some ''header'', aa_name = Some (or_string name ''Authorization''), aa_value = Some (or_string v ''Bearer {api_key}'')\<rparr>
     else Some \<lparr>aa_type = Some ''query'', aa_name = Some (or_string name ''api_key''), aa_value = Some (or_string v ''{api_key}'')\<rparr>)"

section \<open>Validation\<close>

text \<open>Whether a URL has a host and the protocol \<open>http:\<close> or \<open>https:\<close>; \<open>url\<close> gives host and protocol, or fails.\<close>

definition isFullHttpURLOrAbsolutePath :: "(string \<Rightarrow> (string \<times> string) option) \<Rightarrow> string \<Rightarrow> bool" where
  "isFullHttpURLOrAbsolutePath url v =
    (if prefix ''/'' v then \<not> prefix ''//'' v
     else case url v of None \<Rightarrow> False | Some (host, protocol) \<Rightarrow> host \<noteq> [] \<and> protocol \<in> {''http:'', ''https:''})"

definition validateRouteAuth :: "AdvancedCustomRouteAuth option \<Rightarrow> string option" where
  "validateRouteAuth auth =
    (case auth of
      None \<Rightarrow> None
    | Some a \<Rightarrow>
        if aa_type a = Some ''none'' then None
        else if aa_type a \<noteq> Some ''header'' \<and> aa_type a \<noteq> Some ''query'' then Some ''Auth type is invalid''
        else if trim (nullish (aa_name a) []) = [] then Some ''Auth name is required''
        else if trim (nullish (aa_value a) []) = [] then Some ''Auth value is required''
        else None)"

definition getAdvancedCustomModelRuleKind :: "string \<Rightarrow> string" where
  "getAdvancedCustomModelRuleKind modelRule = (if prefix ADVANCED_CUSTOM_MODEL_REGEX_PREFIX modelRule then ''regex'' else ''exact'')"

definition getAdvancedCustomRegexModelPattern :: "string \<Rightarrow> string" where
  "getAdvancedCustomRegexModelPattern modelRule = drop (length ADVANCED_CUSTOM_MODEL_REGEX_PREFIX) modelRule"

text \<open>What is known of the routes of one incoming path.\<close>

record path_models =
  pm_catchAllIndex :: "nat option"
  pm_models :: "string \<rightharpoonup> nat"

definition route_error :: "nat \<Rightarrow> string \<Rightarrow> AdvancedCustomValidationError" where
  "route_error routeIndex message = \<lparr>ve_message = message, ve_routeIndex = Some routeIndex\<rparr>"

fun add_models :: "nat \<Rightarrow> string list \<Rightarrow> (string \<rightharpoonup> nat) \<Rightarrow> string list \<Rightarrow> AdvancedCustomValidationError + (string \<rightharpoonup> nat)" where
  "add_models routeIndex seenInRoute models [] = Inr models"
| "add_models routeIndex seenInRoute models (model # rest) =
    (if getAdvancedCustomModelRuleKind model = ''regex'' \<and> getAdvancedCustomRegexModelPattern model = [] then
       Inl (route_error routeIndex ''Model regex cannot be empty'')
     else if model \<in> set seenInRoute then Inl (route_error routeIndex ''Duplicate model in route models'')
     else if models model \<noteq> None then Inl (route_error routeIndex ''Route models must be unique for the same incoming path'')
     else add_models routeIndex (model # seenInRoute) (models(model \<mapsto> routeIndex)) rest)"

definition validateAdvancedCustomRouteModels ::
    "nat \<Rightarrow> string \<Rightarrow> string list \<Rightarrow> (string \<rightharpoonup> path_models) \<Rightarrow> AdvancedCustomValidationError + (string \<rightharpoonup> path_models)" where
  "validateAdvancedCustomRouteModels routeIndex incomingPath models routeModelsByPath =
    (let state = nullish (routeModelsByPath incomingPath) \<lparr>pm_catchAllIndex = None, pm_models = Map.empty\<rparr> in
     if models = [] then
       (if pm_catchAllIndex state \<noteq> None then Inl (route_error routeIndex ''Only one catch-all route is allowed for the same incoming path'')
        else Inr (routeModelsByPath(incomingPath \<mapsto> state\<lparr>pm_catchAllIndex := Some routeIndex\<rparr>)))
     else if pm_catchAllIndex state \<noteq> None then Inl (route_error routeIndex ''Catch-all route must be last for the same incoming path'')
     else case add_models routeIndex [] (pm_models state) models of
       Inl e \<Rightarrow> Inl e
     | Inr ms \<Rightarrow> Inr (routeModelsByPath(incomingPath \<mapsto> state\<lparr>pm_models := ms\<rparr>)))"

record validation_state =
  vs_routeModelsByPath :: "string \<rightharpoonup> path_models"
  vs_modelListRouteIndex :: "nat option"
  vs_balanceRouteIndex :: "nat option"

text \<open>The checks on a management route.\<close>

definition validate_management ::
    "nat \<Rightarrow> string \<Rightarrow> string \<Rightarrow> string \<Rightarrow> string list \<Rightarrow> validation_state \<Rightarrow> AdvancedCustomValidationError + validation_state" where
  "validate_management index incomingPath upstreamPath converter routeModels st =
    (if \<not> isAdvancedCustomManagementPath incomingPath then Inr st
     else
       let isModelListRoute = incomingPath = ADVANCED_CUSTOM_MODEL_LIST_PATH;
           existingIndex = (if isModelListRoute then vs_modelListRouteIndex st else vs_balanceRouteIndex st);
           routeLabel = (if isModelListRoute then ''OpenAI Models'' else ''Balance Query'') in
       if existingIndex \<noteq> None then Inl (route_error index (''Only one '' @ routeLabel @ '' route is allowed''))
       else if routeModels \<noteq> [] then Inl (route_error index (routeLabel @ '' route does not support client model rules''))
       else if converter \<noteq> ''none'' then Inl (route_error index (routeLabel @ '' route must use native forwarding''))
       else if contains upstreamPath ''{model}'' then Inl (route_error index (routeLabel @ '' upstream path must not contain {model}''))
       else Inr (if isModelListRoute then st\<lparr>vs_modelListRouteIndex := Some index\<rparr> else st\<lparr>vs_balanceRouteIndex := Some index\<rparr>))"

definition validate_route ::
    "(string \<Rightarrow> (string \<times> string) option) \<Rightarrow> nat \<Rightarrow> AdvancedCustomRoute \<Rightarrow> validation_state \<Rightarrow> AdvancedCustomValidationError + validation_state" where
  "validate_route url index route st =
    (let incomingPath = route_path route; upstreamPath = getAdvancedCustomRouteUpstreamPath route;
         converter = or_string (ar_converter route) ''none''; routeModels = normalizeAdvancedCustomRouteModels (ar_models route) in
     if incomingPath = [] then Inl (route_error index ''Incoming path is required'')
     else if \<not> prefix ''/'' incomingPath then Inl (route_error index ''Incoming path must start with /'')
     else if contains incomingPath ''?'' then Inl (route_error index ''Incoming path must not include query'')
     else case validate_management index incomingPath upstreamPath converter routeModels st of
       Inl e \<Rightarrow> Inl e
     | Inr st \<Rightarrow> (case validateAdvancedCustomRouteModels index incomingPath routeModels (vs_routeModelsByPath st) of
         Inl e \<Rightarrow> Inl e
       | Inr byPath \<Rightarrow>
           if upstreamPath = [] then Inl (route_error index ''Upstream path is required'')
           else if \<not> isFullHttpURLOrAbsolutePath url upstreamPath then
             Inl (route_error index ''Upstream path must be a full URL or a path starting with /'')
           else if \<not> isAdvancedCustomConverter converter then Inl (route_error index ''Converter is not registered'')
           else if \<not> isConverterPathAllowed incomingPath converter then Inl (route_error index ''Converter does not match incoming path'')
           else (case validateRouteAuth (ar_auth route) of
             Some authError \<Rightarrow> Inl (route_error index authError)
           | None \<Rightarrow> Inr (st\<lparr>vs_routeModelsByPath := byPath\<rparr>))))"

fun validate_routes ::
    "(string \<Rightarrow> (string \<times> string) option) \<Rightarrow> nat \<Rightarrow> AdvancedCustomRoute list \<Rightarrow> validation_state \<Rightarrow> AdvancedCustomValidationError option" where
  "validate_routes url index [] st = None"
| "validate_routes url index (route # routes) st =
    (case validate_route url index route st of Inl e \<Rightarrow> Some e | Inr st' \<Rightarrow> validate_routes url (index + 1) routes st')"

definition validateAdvancedCustomConfig ::
    "(string \<Rightarrow> (string \<times> string) option) \<Rightarrow> AdvancedCustomConfig option \<Rightarrow> AdvancedCustomValidationError option" where
  "validateAdvancedCustomConfig url config =
    (case config of
      None \<Rightarrow> Some \<lparr>ve_message = ''Advanced custom configuration is required'', ve_routeIndex = None\<rparr>
    | Some c \<Rightarrow>
        if normalized_routes c = [] then
          Some \<lparr>ve_message = ''Advanced custom configuration requires at least one route'', ve_routeIndex = None\<rparr>
        else validate_routes url 0 (normalized_routes c)
          \<lparr>vs_routeModelsByPath = Map.empty, vs_modelListRouteIndex = None, vs_balanceRouteIndex = None\<rparr>)"

definition hasValidAdvancedCustomModelListRoute :: "(string \<Rightarrow> (string \<times> string) option) \<Rightarrow> AdvancedCustomConfig option \<Rightarrow> bool" where
  "hasValidAdvancedCustomModelListRoute url config =
    (case config of
      None \<Rightarrow> False
    | Some c \<Rightarrow> validateAdvancedCustomConfig url config = None \<and>
        list_ex (\<lambda>route. map_option trim (ar_incoming_path route) = Some ADVANCED_CUSTOM_MODEL_LIST_PATH) (normalized_routes c))"

definition advancedCustomConfigUsesRelativeUpstreamPath :: "AdvancedCustomConfig option \<Rightarrow> bool" where
  "advancedCustomConfigUsesRelativeUpstreamPath config =
    (case config of None \<Rightarrow> False | Some c \<Rightarrow> list_ex (\<lambda>route. prefix ''/'' (getAdvancedCustomRouteUpstreamPath route)) (normalized_routes c))"

section \<open>Text\<close>

text \<open>A parsed value as a configuration.  A member that is not read as a string where the code calls \<open>trim\<close>
  throws, and the whole text is refused; so is a truthy member of another type than declared, which the code
  would pass on.\<close>

definition text_member :: "json \<Rightarrow> string \<Rightarrow> string option option" where
  "text_member j k =
    (case prop_of j k of None \<Rightarrow> Some None | Some (JStr s) \<Rightarrow> Some (Some s) | Some v \<Rightarrow> if json_truthy v then None else Some None)"

fun texts_of :: "json list \<Rightarrow> string list option" where
  "texts_of [] = Some []"
| "texts_of (JStr s # js) = map_option ((#) s) (texts_of js)"
| "texts_of (_ # js) = None"

definition models_member :: "json \<Rightarrow> string list option option" where
  "models_member j = (case prop_of j ''models'' of Some (JArr js) \<Rightarrow> map_option Some (texts_of js) | _ \<Rightarrow> Some None)"

definition auth_member :: "json \<Rightarrow> AdvancedCustomRouteAuth option option" where
  "auth_member j =
    (case prop_of j ''auth'' of
      None \<Rightarrow> Some None
    | Some a \<Rightarrow>
        if \<not> json_truthy a then Some None
        else (case (text_member a ''type'', text_member a ''name'', text_member a ''value'') of
          (Some t, Some n, Some v) \<Rightarrow> Some (Some \<lparr>aa_type = t, aa_name = n, aa_value = v\<rparr>)
        | _ \<Rightarrow> None))"

definition route_of_json :: "json \<Rightarrow> AdvancedCustomRoute option" where
  "route_of_json j =
    (if j = JNull then None
     else case (text_member j ''incoming_path'', text_member j ''upstream_path'', text_member j ''converter'', models_member j, auth_member j) of
       (Some i, Some u, Some c, Some m, Some a) \<Rightarrow>
         Some \<lparr>ar_incoming_path = i, ar_upstream_path = u, ar_converter = c, ar_models = m, ar_auth = a\<rparr>
     | _ \<Rightarrow> None)"

fun routes_of :: "json list \<Rightarrow> AdvancedCustomRoute list option" where
  "routes_of [] = Some []"
| "routes_of (j # js) = (case (route_of_json j, routes_of js) of (Some r, Some rs) \<Rightarrow> Some (r # rs) | _ \<Rightarrow> None)"

definition parseAdvancedCustomConfig :: "(string \<Rightarrow> json option) \<Rightarrow> string option \<Rightarrow> AdvancedCustomConfig option" where
  "parseAdvancedCustomConfig parse v =
    (if trim (nullish v []) = [] then None
     else case parse (nullish v []) of
       Some (JObj kvs) \<Rightarrow>
         (case prop_of (JObj kvs) ''advanced_routes'' of
           Some (JArr js) \<Rightarrow> map_option (\<lambda>rs. normalizeAdvancedCustomConfig \<lparr>ac_advanced_routes = Some rs\<rparr>) (routes_of js)
         | _ \<Rightarrow> Some (normalizeAdvancedCustomConfig \<lparr>ac_advanced_routes = None\<rparr>))
     | _ \<Rightarrow> None)"

text \<open>A configuration as \<open>JSON.stringify\<close> sees it: members that are \<open>undefined\<close> are left out.\<close>

definition text_field :: "string \<Rightarrow> string option \<Rightarrow> (string \<times> json) list" where
  "text_field k v = (case v of None \<Rightarrow> [] | Some s \<Rightarrow> [(k, JStr s)])"

definition auth_json :: "AdvancedCustomRouteAuth \<Rightarrow> json" where
  "auth_json a = JObj (text_field ''type'' (aa_type a) @ text_field ''name'' (aa_name a) @ text_field ''value'' (aa_value a))"

definition route_json :: "AdvancedCustomRoute \<Rightarrow> json" where
  "route_json r = JObj
    (text_field ''incoming_path'' (ar_incoming_path r) @ text_field ''upstream_path'' (ar_upstream_path r) @
     text_field ''converter'' (ar_converter r) @ (case ar_models r of None \<Rightarrow> [] | Some ms \<Rightarrow> [(''models'', JArr (map JStr ms))]) @
     (case ar_auth r of None \<Rightarrow> [] | Some a \<Rightarrow> [(''auth'', auth_json a)]))"

definition custom_config_json :: "AdvancedCustomConfig \<Rightarrow> json" where
  "custom_config_json c = JObj (case ac_advanced_routes c of None \<Rightarrow> [] | Some rs \<Rightarrow> [(''advanced_routes'', JArr (map route_json rs))])"

definition stringifyAdvancedCustomConfig :: "(json \<Rightarrow> string) \<Rightarrow> AdvancedCustomConfig \<Rightarrow> string" where
  "stringifyAdvancedCustomConfig stringify config = stringify (custom_config_json (normalizeAdvancedCustomConfig config))"

definition parseAdvancedCustomRouteModels :: "string \<Rightarrow> string list" where
  "parseAdvancedCustomRouteModels v = unique (filter (\<lambda>m. m \<noteq> []) (map trim (split_on CHR '','' v)))"

definition getAdvancedCustomRouteSummaryLabel :: "AdvancedCustomRoute \<Rightarrow> string option" where
  "getAdvancedCustomRouteSummaryLabel route =
    (if route_path route = [] then None
     else Some (or_string (map_of ADVANCED_CUSTOM_ROUTE_SUMMARY_LABELS (route_path route)) (getAdvancedCustomIncomingPathLabel (route_path route))))"

record AdvancedCustomStats =
  as_routeCount :: nat
  as_valid :: bool
  as_routeTypeLabels :: "string list"

definition getAdvancedCustomStats ::
    "(string \<Rightarrow> (string \<times> string) option) \<Rightarrow> (string \<Rightarrow> json option) \<Rightarrow> string option \<Rightarrow> AdvancedCustomStats" where
  "getAdvancedCustomStats url parse v =
    (case parseAdvancedCustomConfig parse v of
      None \<Rightarrow> \<lparr>as_routeCount = 0, as_valid = False, as_routeTypeLabels = []\<rparr>
    | Some config \<Rightarrow>
        \<lparr>as_routeCount = length (normalized_routes config),
         as_valid = (validateAdvancedCustomConfig url (Some (normalizeAdvancedCustomConfig config)) = None),
         as_routeTypeLabels = unique (filter (\<lambda>l. l \<noteq> []) (List.map_filter getAdvancedCustomRouteSummaryLabel (normalized_routes config)))\<rparr>)"

end
