(* ===== verification/Custom_Validation.thy ===== *)
theory Custom_Validation
  imports Custom_Routes
begin

text \<open>
  What the validation of an advanced custom configuration accepts, and which route it blames: the loop keeps
  \<open>loop_inv\<close>, by which its variables say all that matters of the routes it has passed.
\<close>

section \<open>What validation accepts\<close>

abbreviation route_models :: "AdvancedCustomRoute \<Rightarrow> string list" where
  "route_models r \<equiv> normalizeAdvancedCustomRouteModels (ar_models r)"

definition auth_ok :: "AdvancedCustomRouteAuth \<Rightarrow> bool" where
  "auth_ok a \<longleftrightarrow> aa_type a = Some ''none'' \<or>
    aa_type a \<in> {Some ''header'', Some ''query''} \<and> trim (nullish (aa_name a) []) \<noteq> [] \<and> trim (nullish (aa_value a) []) \<noteq> []"

text \<open>A route that is right by itself.\<close>

definition route_ok :: "(string \<Rightarrow> (string \<times> string) option) \<Rightarrow> AdvancedCustomRoute \<Rightarrow> bool" where
  "route_ok url r \<longleftrightarrow>
    prefix ''/'' (route_path r) \<and> \<not> contains (route_path r) ''?'' \<and>
    distinct (route_models r) \<and> ADVANCED_CUSTOM_MODEL_REGEX_PREFIX \<notin> set (route_models r) \<and>
    isFullHttpURLOrAbsolutePath url (getAdvancedCustomRouteUpstreamPath r) \<and> getAdvancedCustomRouteUpstreamPath r \<noteq> [] \<and>
    isAdvancedCustomConverter (or_string (ar_converter r) ''none'') \<and>
    isConverterPathAllowed (route_path r) (or_string (ar_converter r) ''none'') \<and>
    (case ar_auth r of None \<Rightarrow> True | Some a \<Rightarrow> auth_ok a) \<and>
    (isAdvancedCustomManagementPath (route_path r) \<longrightarrow> route_models r = [] \<and> or_string (ar_converter r) ''none'' = ''none'' \<and>
      \<not> contains (getAdvancedCustomRouteUpstreamPath r) ''{model}'')"

text \<open>A route and one behind it: on the same path the first must not catch all, and no rule may be in both.\<close>

definition compatible :: "AdvancedCustomRoute \<Rightarrow> AdvancedCustomRoute \<Rightarrow> bool" where
  "compatible r r' \<longleftrightarrow> (route_path r = route_path r' \<longrightarrow> route_models r \<noteq> [] \<and> set (route_models r) \<inter> set (route_models r') = {})"

definition routes_ok :: "(string \<Rightarrow> (string \<times> string) option) \<Rightarrow> AdvancedCustomRoute list \<Rightarrow> bool" where
  "routes_ok url rs \<longleftrightarrow> list_all (route_ok url) rs \<and> sorted_wrt compatible rs"

section \<open>The checks\<close>

lemma empty_pattern:
  "getAdvancedCustomModelRuleKind m = ''regex'' \<and> getAdvancedCustomRegexModelPattern m = [] \<longleftrightarrow> m = ADVANCED_CUSTOM_MODEL_REGEX_PREFIX"
  by (auto simp: getAdvancedCustomModelRuleKind_def getAdvancedCustomRegexModelPattern_def prefix_def)

lemma add_models_ok:
  assumes "ADVANCED_CUSTOM_MODEL_REGEX_PREFIX \<notin> set ms" "distinct ms" "set ms \<inter> set seen = {}" "set ms \<inter> dom models = {}"
  shows "\<exists>models'. add_models i seen models ms = Inr models' \<and> dom models' = dom models \<union> set ms"
  using assms
proof (induction ms arbitrary: seen models)
  case (Cons m ms)
  have "\<exists>models'. add_models i (m # seen) (models(m \<mapsto> i)) ms = Inr models' \<and> dom models' = dom (models(m \<mapsto> i)) \<union> set ms"
    using Cons.prems by (intro Cons.IH) (auto split: if_splits)
  moreover have "\<not> (getAdvancedCustomModelRuleKind m = ''regex'' \<and> getAdvancedCustomRegexModelPattern m = [])" "m \<notin> set seen" "models m = None"
    using Cons.prems by (auto simp: empty_pattern)
  ultimately show ?case by auto
qed simp

lemma add_models_bad:
  assumes "\<not> (ADVANCED_CUSTOM_MODEL_REGEX_PREFIX \<notin> set ms \<and> distinct ms \<and> set ms \<inter> dom models = {})" "set seen \<subseteq> dom models"
  shows "\<exists>m. add_models i seen models ms = Inl (route_error i m)"
  using assms
proof (induction ms arbitrary: seen models)
  case (Cons m ms)
  show ?case
  proof (cases "m = ADVANCED_CUSTOM_MODEL_REGEX_PREFIX \<or> m \<in> set seen \<or> models m \<noteq> None")
    case False
    then have "\<exists>msg. add_models i (m # seen) (models(m \<mapsto> i)) ms = Inl (route_error i msg)"
      using Cons.prems by (intro Cons.IH) auto
    with False show ?thesis by (auto simp: empty_pattern [simplified])
  qed (auto simp: empty_pattern [simplified])
qed simp

lemma auth_checked: "validateRouteAuth auth = None \<longleftrightarrow> (case auth of None \<Rightarrow> True | Some a \<Rightarrow> auth_ok a)"
  by (auto simp: validateRouteAuth_def auth_ok_def split: option.split)

section \<open>The loop\<close>

definition path_state :: "(string \<rightharpoonup> path_models) \<Rightarrow> string \<Rightarrow> path_models" where
  "path_state byPath p = nullish (byPath p) \<lparr>pm_catchAllIndex = None, pm_models = Map.empty\<rparr>"

lemma path_state_upd: "path_state (byPath(p \<mapsto> s)) q = (if q = p then s else path_state byPath q)"
  by (simp add: path_state_def nullish_def)

text \<open>What the variables of the loop say of the routes behind it.\<close>

definition paths_inv :: "AdvancedCustomRoute list \<Rightarrow> (string \<rightharpoonup> path_models) \<Rightarrow> bool" where
  "paths_inv rs byPath \<longleftrightarrow>
    (\<forall>p. pm_catchAllIndex (path_state byPath p) \<noteq> None \<longleftrightarrow> (\<exists>r \<in> set rs. route_path r = p \<and> route_models r = [])) \<and>
    (\<forall>p. dom (pm_models (path_state byPath p)) = {m. \<exists>r \<in> set rs. route_path r = p \<and> m \<in> set (route_models r)})"

definition loop_inv :: "AdvancedCustomRoute list \<Rightarrow> validation_state \<Rightarrow> bool" where
  "loop_inv rs st \<longleftrightarrow> paths_inv rs (vs_routeModelsByPath st) \<and>
    (vs_modelListRouteIndex st \<noteq> None \<longleftrightarrow> (\<exists>r \<in> set rs. route_path r = ADVANCED_CUSTOM_MODEL_LIST_PATH)) \<and>
    (vs_balanceRouteIndex st \<noteq> None \<longleftrightarrow> (\<exists>r \<in> set rs. route_path r = ADVANCED_CUSTOM_BALANCE_PATH))"

definition models_ok :: "AdvancedCustomRoute list \<Rightarrow> AdvancedCustomRoute \<Rightarrow> bool" where
  "models_ok rs r \<longleftrightarrow> (\<forall>r' \<in> set rs. compatible r' r) \<and> distinct (route_models r) \<and> ADVANCED_CUSTOM_MODEL_REGEX_PREFIX \<notin> set (route_models r)"

text \<open>The rules of a route against the routes before it.\<close>

lemma paths_compatible:
  assumes "paths_inv rs byPath"
  shows "(\<forall>r' \<in> set rs. compatible r' r) \<longleftrightarrow> pm_catchAllIndex (path_state byPath (route_path r)) = None \<and>
    set (route_models r) \<inter> dom (pm_models (path_state byPath (route_path r))) = {}"
  using assms unfolding paths_inv_def compatible_def by blast

lemma models_checked:
  assumes "paths_inv rs byPath" "models_ok rs r"
  shows "\<exists>byPath'. validateAdvancedCustomRouteModels i (route_path r) (route_models r) byPath = Inr byPath' \<and> paths_inv (rs @ [r]) byPath'"
proof -
  let ?st = "path_state byPath (route_path r)" and ?ms = "route_models r"
  have c: "pm_catchAllIndex ?st = None" "set ?ms \<inter> dom (pm_models ?st) = {}"
    using assms(2) paths_compatible [OF assms(1), of r] by (simp_all add: models_ok_def)
  note inv = assms(1) [unfolded paths_inv_def, THEN conjunct1, rule_format] assms(1) [unfolded paths_inv_def, THEN conjunct2, rule_format]
  show ?thesis
  proof (cases "?ms = []")
    case True
    let ?b = "byPath(route_path r \<mapsto> ?st\<lparr>pm_catchAllIndex := Some i\<rparr>)"
    have "paths_inv (rs @ [r]) ?b" unfolding paths_inv_def path_state_upd using inv True by auto
    with True c show ?thesis by (simp add: validateAdvancedCustomRouteModels_def Let_def path_state_def)
  next
    case False
    obtain ms' where ms': "add_models i [] (pm_models ?st) ?ms = Inr ms'" "dom ms' = dom (pm_models ?st) \<union> set ?ms"
      using add_models_ok [of ?ms "[]" "pm_models ?st" i] c(2) assms(2) by (auto simp: models_ok_def)
    let ?b = "byPath(route_path r \<mapsto> ?st\<lparr>pm_models := ms'\<rparr>)"
    have "paths_inv (rs @ [r]) ?b" unfolding paths_inv_def path_state_upd using inv False ms'(2) by auto
    with False c ms'(1) show ?thesis by (simp add: validateAdvancedCustomRouteModels_def Let_def path_state_def)
  qed
qed

lemma models_refused:
  assumes "paths_inv rs byPath" "\<not> models_ok rs r"
  shows "\<exists>m. validateAdvancedCustomRouteModels i (route_path r) (route_models r) byPath = Inl (route_error i m)"
proof -
  let ?st = "path_state byPath (route_path r)" and ?ms = "route_models r"
  have bad: "pm_catchAllIndex ?st \<noteq> None \<or> \<not> (ADVANCED_CUSTOM_MODEL_REGEX_PREFIX \<notin> set ?ms \<and> distinct ?ms \<and> set ?ms \<inter> dom (pm_models ?st) = {})"
    using assms(2) paths_compatible [OF assms(1), of r] by (auto simp: models_ok_def)
  show ?thesis
  proof (cases "pm_catchAllIndex ?st = None")
    case True
    with bad have "?ms \<noteq> []" "\<exists>m. add_models i [] (pm_models ?st) ?ms = Inl (route_error i m)" by (auto intro!: add_models_bad)
    with True show ?thesis by (auto simp: validateAdvancedCustomRouteModels_def Let_def path_state_def)
  qed (auto simp: validateAdvancedCustomRouteModels_def Let_def path_state_def)
qed

lemma paths_differ: "ADVANCED_CUSTOM_MODEL_LIST_PATH \<noteq> ADVANCED_CUSTOM_BALANCE_PATH"
  by code_simp

lemma management_checked:
  assumes "loop_inv rs st" "list_all (route_ok url) rs" "p = route_path r"
  shows "(isAdvancedCustomManagementPath p \<longrightarrow> (\<forall>r' \<in> set rs. compatible r' r) \<and> ms = [] \<and> c = ''none'' \<and> \<not> contains u ''{model}'') \<Longrightarrow>
      \<exists>st'. validate_management i p u c ms st = Inr st' \<and> vs_routeModelsByPath st' = vs_routeModelsByPath st \<and>
        (\<forall>b. paths_inv (rs @ [r]) b \<longrightarrow> loop_inv (rs @ [r]) (st'\<lparr>vs_routeModelsByPath := b\<rparr>))"
    and "isAdvancedCustomManagementPath p \<Longrightarrow> ms \<noteq> [] \<or> c \<noteq> ''none'' \<or> contains u ''{model}'' \<Longrightarrow>
      \<exists>m. validate_management i p u c ms st = Inl (route_error i m)"
proof -
  have free: "\<not> (\<exists>r' \<in> set rs. route_path r' = p)" if "isAdvancedCustomManagementPath p" "\<forall>r' \<in> set rs. compatible r' r"
    using assms(2,3) that by (fastforce simp: list_all_iff route_ok_def compatible_def)
  assume ok: "isAdvancedCustomManagementPath p \<longrightarrow> (\<forall>r' \<in> set rs. compatible r' r) \<and> ms = [] \<and> c = ''none'' \<and> \<not> contains u ''{model}''"
  show "\<exists>st'. validate_management i p u c ms st = Inr st' \<and> vs_routeModelsByPath st' = vs_routeModelsByPath st \<and>
      (\<forall>b. paths_inv (rs @ [r]) b \<longrightarrow> loop_inv (rs @ [r]) (st'\<lparr>vs_routeModelsByPath := b\<rparr>))"
  proof (cases "isAdvancedCustomManagementPath p")
    case True
    with ok free assms(1,3) paths_differ show ?thesis
      by (auto simp: validate_management_def Let_def loop_inv_def isAdvancedCustomManagementPath_def)
  next
    case False
    with assms(1,3) show ?thesis
      by (auto simp: validate_management_def loop_inv_def isAdvancedCustomManagementPath_def)
  qed
next
  assume "isAdvancedCustomManagementPath p" "ms \<noteq> [] \<or> c \<noteq> ''none'' \<or> contains u ''{model}''"
  then show "\<exists>m. validate_management i p u c ms st = Inl (route_error i m)"
    by (auto simp: validate_management_def Let_def)
qed

lemma management_refused_or:
  "(\<exists>m. validate_management i p u c ms st = Inl (route_error i m)) \<or> (\<exists>st'. validate_management i p u c ms st = Inr st' \<and> vs_routeModelsByPath st' = vs_routeModelsByPath st)"
  by (auto simp: validate_management_def Let_def)

lemma route_checked:
  assumes "loop_inv rs st" "list_all (route_ok url) rs" "route_ok url r" "\<forall>r' \<in> set rs. compatible r' r"
  shows "\<exists>st'. validate_route url i r st = Inr st' \<and> loop_inv (rs @ [r]) st'"
proof -
  let ?u = "getAdvancedCustomRouteUpstreamPath r" and ?c = "or_string (ar_converter r) ''none''"
  have ok: "models_ok rs r" "prefix ''/'' (route_path r)" "\<not> contains (route_path r) ''?''" "?u \<noteq> []" "isFullHttpURLOrAbsolutePath url ?u"
    "isAdvancedCustomConverter ?c" "isConverterPathAllowed (route_path r) ?c" "validateRouteAuth (ar_auth r) = None"
    "isAdvancedCustomManagementPath (route_path r) \<longrightarrow> (\<forall>r' \<in> set rs. compatible r' r) \<and> route_models r = [] \<and> ?c = ''none'' \<and> \<not> contains ?u ''{model}''"
    using assms(3,4) unfolding route_ok_def models_ok_def auth_checked by blast+
  obtain st1 where st1: "validate_management i (route_path r) ?u ?c (route_models r) st = Inr st1" "vs_routeModelsByPath st1 = vs_routeModelsByPath st"
    "\<And>b. paths_inv (rs @ [r]) b \<Longrightarrow> loop_inv (rs @ [r]) (st1\<lparr>vs_routeModelsByPath := b\<rparr>)"
    using management_checked(1) [OF assms(1,2) refl, of r _ ?c ?u i] ok(9) by blast
  have "paths_inv rs (vs_routeModelsByPath st)" using assms(1) by (simp add: loop_inv_def)
  from models_checked [OF this ok(1)] obtain b where
    b: "validateAdvancedCustomRouteModels i (route_path r) (route_models r) (vs_routeModelsByPath st) = Inr b" "paths_inv (rs @ [r]) b" by blast
  have "route_path r \<noteq> []" using ok(2) by auto
  with ok st1(1,2) b(1) have "validate_route url i r st = Inr (st1\<lparr>vs_routeModelsByPath := b\<rparr>)"
    by (simp add: validate_route_def Let_def)
  with st1(3) [OF b(2)] show ?thesis by blast
qed

lemma route_refused:
  assumes "loop_inv rs st" "list_all (route_ok url) rs" "\<not> (route_ok url r \<and> (\<forall>r' \<in> set rs. compatible r' r))"
  shows "\<exists>m. validate_route url i r st = Inl (route_error i m)"
proof -
  let ?u = "getAdvancedCustomRouteUpstreamPath r" and ?c = "or_string (ar_converter r) ''none''"
  let ?mgmt = "validate_management i (route_path r) ?u ?c (route_models r) st"
  let ?ms = "validateAdvancedCustomRouteModels i (route_path r) (route_models r) (vs_routeModelsByPath st)"
  have inv: "paths_inv rs (vs_routeModelsByPath st)" using assms(1) by (simp add: loop_inv_def)
  consider (path) "\<not> (prefix ''/'' (route_path r) \<and> \<not> contains (route_path r) ''?'')"
    | (management) m where "?mgmt = Inl (route_error i m)"
    | (models) m st1 where "?mgmt = Inr st1" "vs_routeModelsByPath st1 = vs_routeModelsByPath st" "?ms = Inl (route_error i m)"
    | (rest) st1 b where "?mgmt = Inr st1" "vs_routeModelsByPath st1 = vs_routeModelsByPath st" "?ms = Inr b"
      "prefix ''/'' (route_path r)" "\<not> contains (route_path r) ''?''"
  proof (cases "\<exists>m. ?mgmt = Inl (route_error i m)")
    case False
    then obtain st1 where st1: "?mgmt = Inr st1" "vs_routeModelsByPath st1 = vs_routeModelsByPath st"
      using management_refused_or by blast
    then show ?thesis
      using models_checked [OF inv, of r i] models_refused [OF inv, of r i] path models rest by (cases "models_ok rs r") blast+
  qed (use management in blast)
  then show ?thesis
  proof cases
    case (rest st1 b)
    have "models_ok rs r" using models_refused [OF inv, of r i] rest(3) by auto
    moreover have "isAdvancedCustomManagementPath (route_path r) \<longrightarrow> route_models r = [] \<and> ?c = ''none'' \<and> \<not> contains ?u ''{model}''"
      using management_checked(2) [OF assms(1,2) refl, of r "route_models r" ?c ?u i] rest(1) by auto
    ultimately have "?u = [] \<or> \<not> isFullHttpURLOrAbsolutePath url ?u \<or> \<not> isAdvancedCustomConverter ?c \<or>
        \<not> isConverterPathAllowed (route_path r) ?c \<or> validateRouteAuth (ar_auth r) \<noteq> None"
      using assms(3) rest(4,5) unfolding route_ok_def models_ok_def auth_checked by blast
    moreover have "route_path r \<noteq> []" using rest(4) by auto
    ultimately show ?thesis using rest by (auto simp: validate_route_def Let_def split: option.split)
  qed (auto simp: validate_route_def Let_def)
qed

lemma routes_ok_take: "routes_ok url rs \<Longrightarrow> routes_ok url (take k rs)"
  by (auto simp: routes_ok_def list_all_iff sorted_wrt_take dest: in_set_takeD)

lemma validate_loop:
  assumes "loop_inv rs st" "routes_ok url rs"
  shows "case validate_routes url (length rs) rest st of
      None \<Rightarrow> routes_ok url (rs @ rest)
    | Some e \<Rightarrow> \<exists>k m. e = route_error k m \<and> k < length (rs @ rest) \<and> routes_ok url (take k (rs @ rest)) \<and> \<not> routes_ok url (take (k + 1) (rs @ rest))"
  using assms
proof (induction rest arbitrary: rs st)
  case (Cons r rest)
  have all: "list_all (route_ok url) rs" using Cons.prems(2) by (simp add: routes_ok_def)
  have step: "routes_ok url (rs @ [r]) \<longleftrightarrow> route_ok url r \<and> (\<forall>r' \<in> set rs. compatible r' r)"
    using Cons.prems(2) by (auto simp: routes_ok_def sorted_wrt_append)
  show ?case
  proof (cases "routes_ok url (rs @ [r])")
    case True
    then obtain st' where "validate_route url (length rs) r st = Inr st'" "loop_inv (rs @ [r]) st'"
      using route_checked [OF Cons.prems(1) all, of r "length rs"] step by blast
    moreover have "(rs @ [r]) @ rest = rs @ r # rest" by simp
    ultimately show ?thesis using Cons.IH [of "rs @ [r]" st'] True by (simp only: validate_routes.simps sum.case length_append list.size) simp
  next
    case False
    then obtain m where "validate_route url (length rs) r st = Inl (route_error (length rs) m)"
      using route_refused [OF Cons.prems(1) all, of r "length rs"] step by blast
    moreover have "routes_ok url (take (length rs) (rs @ r # rest))" "\<not> routes_ok url (take (length rs + 1) (rs @ r # rest))"
      using Cons.prems(2) False by simp_all
    ultimately show ?thesis by auto
  qed
qed simp

lemma loop_start: "loop_inv [] \<lparr>vs_routeModelsByPath = Map.empty, vs_modelListRouteIndex = None, vs_balanceRouteIndex = None\<rparr>"
  by (simp add: loop_inv_def paths_inv_def path_state_def nullish_def)

text \<open>C28: Validation accepts exactly the sound routings: a configuration passes just when it has a route, every
  route is right by itself, and on every incoming path no model rule occurs twice and a route without rules,
  which catches every model, comes last and only once.  A management path then has one route at most.\<close>

theorem validation_exact:
  "validateAdvancedCustomConfig url (Some c) = None \<longleftrightarrow> normalized_routes c \<noteq> [] \<and> routes_ok url (normalized_routes c)"
proof -
  let ?rs = "normalized_routes c"
  have "routes_ok url []" by (simp add: routes_ok_def)
  from validate_loop [OF loop_start this, of ?rs] show ?thesis
    by (auto simp: validateAdvancedCustomConfig_def routes_ok_take split: option.splits)
qed

text \<open>C33: The error names the first route that is at fault: the routes before it are sound together, and with
  it they are not.\<close>

theorem first_fault_named:
  assumes "validateAdvancedCustomConfig url (Some c) = Some e" "normalized_routes c \<noteq> []"
  shows "\<exists>k. ve_routeIndex e = Some k \<and> k < length (normalized_routes c) \<and>
    routes_ok url (take k (normalized_routes c)) \<and> \<not> routes_ok url (take (k + 1) (normalized_routes c))"
proof -
  have "routes_ok url []" by (simp add: routes_ok_def)
  from validate_loop [OF loop_start this, of "normalized_routes c"] assms show ?thesis
    by (auto simp: validateAdvancedCustomConfig_def route_error_def)
qed

definition repeated_config :: AdvancedCustomConfig where
  "repeated_config = \<lparr>ac_advanced_routes = Some (createClaudeNativeRoutes @ [createAdvancedCustomRoute, native_route apiKeyHeaderAuth '' /v1/messages''])\<rparr>"

theorem first_fault_named_witness:
  "\<exists>k. map_option ve_routeIndex (validateAdvancedCustomConfig (\<lambda>_. None) (Some repeated_config)) = Some (Some k) \<and>
    k < length (normalized_routes repeated_config) \<and> routes_ok (\<lambda>_. None) (take k (normalized_routes repeated_config)) \<and>
    \<not> routes_ok (\<lambda>_. None) (take (k + 1) (normalized_routes repeated_config))"
proof -
  have "validateAdvancedCustomConfig (\<lambda>_. None) (Some repeated_config) =
      Some (route_error 2 ''Only one catch-all route is allowed for the same incoming path'')" "normalized_routes repeated_config \<noteq> []"
    by code_simp+
  from first_fault_named [OF this] this(1) show ?thesis by auto
qed

end
