(* ===== verification/Custom_Editing.thy ===== *)
theory Custom_Editing
  imports Custom_Validation
begin

text \<open>
  What editing an advanced custom configuration and storing it as text keep.  The locale \<open>registers\<close> is the
  contract of a state whose parts are written one at a time; it is interpreted on the editing functions.
\<close>

section \<open>Normal form\<close>

declare trim_trim [simp]

lemma models_normal: "normalizeAdvancedCustomRouteModels (Some (normalizeAdvancedCustomRouteModels ms)) = normalizeAdvancedCustomRouteModels ms"
  by (simp add: normalizeAdvancedCustomRouteModels_def nullish_def filter_map comp_def)

lemma or_string_Nil: "or_string a [] = nullish a []"
  by (simp add: or_string_def nullish_def split: option.split)

lemma or_string_Some: "or_string (Some s) d = (if s = [] then d else s)"
  by (simp add: or_string_def)

lemma route_normal: "normalizeAdvancedCustomRoute (normalizeAdvancedCustomRoute r) = normalizeAdvancedCustomRoute r"
proof -
  have "normalizeAdvancedCustomRouteModels None = []" by (simp add: normalizeAdvancedCustomRouteModels_def nullish_def)
  moreover have "or_string (ar_converter r) ''none'' \<noteq> []" by (simp add: or_string_def split: option.split)
  ultimately show ?thesis
    by (auto simp: normalizeAdvancedCustomRoute_def getAdvancedCustomRouteUpstreamPath_def or_string_Some Let_def option.map_comp comp_def
        models_normal intro!: option.map_cong)
qed

lemma routes_normal: "normalized_routes c = map normalizeAdvancedCustomRoute (nullish (ac_advanced_routes c) [])"
  by (simp add: normalizeAdvancedCustomConfig_def nullish_def)

lemma routes_built [simp]: "normalized_routes \<lparr>ac_advanced_routes = Some rs\<rparr> = map normalizeAdvancedCustomRoute rs"
  by (simp add: normalizeAdvancedCustomConfig_def nullish_def)

lemma normalized_again: "r \<in> set (normalized_routes c) \<Longrightarrow> normalizeAdvancedCustomRoute r = r"
  by (auto simp: routes_normal route_normal)

lemma config_normal: "normalizeAdvancedCustomConfig (normalizeAdvancedCustomConfig c) = normalizeAdvancedCustomConfig c"
  by (simp add: normalizeAdvancedCustomConfig_def nullish_def route_normal)

lemma route_path_normal [simp]: "route_path (normalizeAdvancedCustomRoute r) = route_path r"
  by (simp add: route_path_def normalizeAdvancedCustomRoute_def or_string_Nil nullish_def)

lemma incoming_path: "r \<in> set (normalized_routes c) \<Longrightarrow> map_option trim (ar_incoming_path r) = Some (route_path r)"
  unfolding routes_normal by (auto simp: normalizeAdvancedCustomRoute_def route_path_def or_string_Nil nullish_def split: option.split)

section \<open>Editing\<close>

text \<open>Registers that are written one at a time: the contract of a state whose parts are edited apart.\<close>

locale registers =
  fixes rd :: "'s \<Rightarrow> 'k \<Rightarrow> 'v" and wr :: "'s \<Rightarrow> 'e \<Rightarrow> 's" and target :: "'e \<Rightarrow> 'k" and content :: "'e \<Rightarrow> 'v"
    and inv :: "'s \<Rightarrow> bool" and ok :: "'e \<Rightarrow> bool"
  assumes inv_wr: "inv s \<Longrightarrow> ok e \<Longrightarrow> inv (wr s e)"
    and rd_wr: "inv s \<Longrightarrow> ok e \<Longrightarrow> rd (wr s e) k = (if target e = k then content e else rd s k)"
begin

lemma registers_run: "inv s \<Longrightarrow> list_all ok es \<Longrightarrow> inv (foldl wr s es)"
  by (induction es arbitrary: s) (simp_all add: inv_wr)

text \<open>A register holds what was written to it last.\<close>

lemma last_write:
  assumes "inv s" "list_all ok es"
  shows "rd (foldl wr s es) k = (case filter (\<lambda>e. target e = k) (rev es) of [] \<Rightarrow> rd s k | e # _ \<Rightarrow> content e)"
  using assms(2)
proof (induction es rule: rev_induct)
  case (snoc e es)
  then have "inv (foldl wr s es)" using registers_run [OF assms(1)] by simp
  with snoc show ?case by (simp add: rd_wr)
qed simp

end

datatype management = ModelListRoute | BalanceRoute

datatype route_part = ForwardingPart | ManagementPart management

fun management_path :: "management \<Rightarrow> string" where
  "management_path ModelListRoute = ADVANCED_CUSTOM_MODEL_LIST_PATH"
| "management_path BalanceRoute = ADVANCED_CUSTOM_BALANCE_PATH"

datatype route_edit = EditForwarding "AdvancedCustomRoute list" | EditManagement management "AdvancedCustomRoute option"

fun apply_edit :: "AdvancedCustomConfig \<Rightarrow> route_edit \<Rightarrow> AdvancedCustomConfig" where
  "apply_edit c (EditForwarding fs) = replaceAdvancedCustomForwardingRoutes c fs"
| "apply_edit c (EditManagement m r) = replaceAdvancedCustomManagementRoute c (management_path m) r"

fun in_part :: "route_part \<Rightarrow> AdvancedCustomRoute \<Rightarrow> bool" where
  "in_part ForwardingPart r = (\<not> isAdvancedCustomManagementPath (route_path r))"
| "in_part (ManagementPart m) r = (route_path r = management_path m)"

definition part_routes :: "AdvancedCustomConfig \<Rightarrow> route_part \<Rightarrow> AdvancedCustomRoute list" where
  "part_routes c part = filter (in_part part) (normalized_routes c)"

fun edited_part :: "route_edit \<Rightarrow> route_part" where
  "edited_part (EditForwarding _) = ForwardingPart"
| "edited_part (EditManagement m _) = ManagementPart m"

fun edited_routes :: "route_edit \<Rightarrow> AdvancedCustomRoute list" where
  "edited_routes (EditForwarding fs) = map normalizeAdvancedCustomRoute fs"
| "edited_routes (EditManagement m None) = []"
| "edited_routes (EditManagement m (Some r)) = [normalizeAdvancedCustomRoute (management_route (management_path m) r)]"

fun forwards :: "route_edit \<Rightarrow> bool" where
  "forwards (EditForwarding fs) = list_all (in_part ForwardingPart) fs"
| "forwards _ = True"

definition single_management :: "AdvancedCustomConfig \<Rightarrow> bool" where
  "single_management c \<longleftrightarrow> (\<forall>m. length (part_routes c (ManagementPart m)) \<le> 1)"

lemma management_paths: "management_path m = management_path m' \<longleftrightarrow> m = m'" "isAdvancedCustomManagementPath (management_path m)"
  using paths_differ by (cases m; cases m'; force) (cases m; simp add: isAdvancedCustomManagementPath_def)

lemma trim_management: "trim (management_path m) = management_path m"
proof (cases m)
  case ModelListRoute
  moreover have "trim ADVANCED_CUSTOM_MODEL_LIST_PATH = ADVANCED_CUSTOM_MODEL_LIST_PATH" by code_simp
  ultimately show ?thesis by simp
next
  case BalanceRoute
  moreover have "trim ADVANCED_CUSTOM_BALANCE_PATH = ADVANCED_CUSTOM_BALANCE_PATH" by code_simp
  ultimately show ?thesis by simp
qed

lemma management_route_path: "route_path (management_route (management_path m) r) = management_path m"
  by (simp add: route_path_def management_route_def nullish_def trim_management)

lemma map_normal: "(\<And>r. r \<in> set rs \<Longrightarrow> normalizeAdvancedCustomRoute r = r) \<Longrightarrow> map normalizeAdvancedCustomRoute rs = rs"
  by (rule map_idI)

lemma other_part: "in_part k (x :: AdvancedCustomRoute) \<Longrightarrow> in_part k' x \<Longrightarrow> k = k'"
  using management_paths by (cases k; cases k') auto

text \<open>Where the edited route stands.\<close>

lemma filter_split:
  assumes "find_index P xs = Some i"
  obtains u x v where "xs = u @ x # v" "length u = i" "P x" "\<forall>y \<in> set u. \<not> P y"
proof -
  note i = find_index_Some [OF assms]
  then have "\<forall>y \<in> set (take i xs). \<not> P y" by (auto simp: in_set_conv_nth)
  with i id_take_nth_drop [of i xs] that [of "take i xs" "xs ! i" "drop (Suc i) xs"] show thesis by simp
qed

lemma find_index_cong: "(\<And>x. x \<in> set xs \<Longrightarrow> P x = Q x) \<Longrightarrow> find_index P xs = find_index Q xs"
  by (induction xs) auto

lemma management_index:
  "find_index (\<lambda>r. map_option trim (ar_incoming_path r) = Some p) (normalized_routes c) = find_index (\<lambda>r. route_path r = p) (normalized_routes c)"
  by (rule find_index_cong) (simp only: incoming_path option.inject)

lemma forwarding_edited:
  assumes "list_all (in_part ForwardingPart) fs"
  shows "part_routes (replaceAdvancedCustomForwardingRoutes c fs) k =
    (if k = ForwardingPart then map normalizeAdvancedCustomRoute fs else part_routes c k)"
proof -
  let ?rs = "normalized_routes c" and ?mgmt = "\<lambda>r. isAdvancedCustomManagementPath (route_path r)"
  obtain u v where uv: "?rs = u @ v"
    "normalized_routes (replaceAdvancedCustomForwardingRoutes c fs) = map normalizeAdvancedCustomRoute (filter ?mgmt u @ fs @ filter ?mgmt v)"
  proof (cases "find_index (\<lambda>r. \<not> ?mgmt r) ?rs")
    case None
    then show ?thesis using that [of ?rs "[]"] by (simp add: replaceAdvancedCustomForwardingRoutes_def Let_def)
  next
    case (Some i)
    then show ?thesis using that [of "take i ?rs" "drop i ?rs"]
      by (simp add: replaceAdvancedCustomForwardingRoutes_def Let_def)
  qed
  have "map normalizeAdvancedCustomRoute (filter ?mgmt u) = filter ?mgmt u" "map normalizeAdvancedCustomRoute (filter ?mgmt v) = filter ?mgmt v"
    using normalized_again [of _ c] uv(1) by (auto intro!: map_normal)
  then have new: "normalized_routes (replaceAdvancedCustomForwardingRoutes c fs) = filter ?mgmt u @ map normalizeAdvancedCustomRoute fs @ filter ?mgmt v"
    using uv(2) by simp
  show ?thesis
  proof (cases k)
    case ForwardingPart
    with assms show ?thesis by (auto simp: part_routes_def new filter_empty_conv list_all_iff intro!: filter_True)
  next
    case (ManagementPart m)
    have "filter (in_part k) (filter ?mgmt w) = filter (in_part k) w" for w
      using ManagementPart management_paths(2) by (auto intro!: filter_cong)
    moreover have "filter (in_part k) (map normalizeAdvancedCustomRoute fs) = []"
      using assms ManagementPart management_paths(2) [of m] by (auto simp: filter_empty_conv list_all_iff)
    ultimately show ?thesis using ManagementPart by (simp add: part_routes_def new uv(1) del: in_part.simps)
  qed
qed

lemma replace_management:
  "replaceAdvancedCustomManagementRoute c p route =
    \<lparr>ac_advanced_routes = Some
      (case route of
        None \<Rightarrow> (case find_index (\<lambda>r. route_path r = p) (normalized_routes c) of
          None \<Rightarrow> normalized_routes c | Some i \<Rightarrow> take i (normalized_routes c) @ drop (i + 1) (normalized_routes c))
      | Some r \<Rightarrow> (case find_index (\<lambda>r. route_path r = p) (normalized_routes c) of
          None \<Rightarrow> normalized_routes c @ [management_route p r] | Some i \<Rightarrow> (normalized_routes c)[i := management_route p r]))\<rparr>"
  unfolding replaceAdvancedCustomManagementRoute_def Let_def management_index ..

lemma management_edited:
  assumes "single_management c"
  shows "part_routes (replaceAdvancedCustomManagementRoute c (management_path m) r) k =
    (if k = ManagementPart m then edited_routes (EditManagement m r) else part_routes c k)"
proof -
  let ?rs = "normalized_routes c" and ?P = "\<lambda>x. route_path x = management_path m"
  let ?new = "map_option (management_route (management_path m)) r"
  have norm: "map normalizeAdvancedCustomRoute w = w" if "set w \<subseteq> set ?rs" for w using that normalized_again [of _ c] by (auto intro!: map_normal)
  have new: "in_part k' (normalizeAdvancedCustomRoute x) \<longleftrightarrow> k' = ManagementPart m" if "?new = Some x" for k' x
    using that management_route_path management_paths by (cases k') auto
  show ?thesis
  proof (cases "find_index ?P ?rs")
    case None
    then have none: "filter (in_part (ManagementPart m)) ?rs = []" by (simp add: find_index_None filter_empty_conv)
    have "normalized_routes (replaceAdvancedCustomManagementRoute c (management_path m) r) =
        ?rs @ (case ?new of None \<Rightarrow> [] | Some x \<Rightarrow> [normalizeAdvancedCustomRoute x])"
      using None norm [of ?rs] by (simp add: replace_management split: option.split)
    then show ?thesis using none new by (cases r) (auto simp: part_routes_def)
  next
    case (Some i)
    then obtain u x v where x: "?rs = u @ x # v" "length u = i" "?P x" "\<forall>y \<in> set u. \<not> ?P y" by (rule filter_split)
    have uv: "map normalizeAdvancedCustomRoute u = u" "map normalizeAdvancedCustomRoute v = v" using norm x(1) by auto
    have "length (filter ?P ?rs) \<le> 1" using assms by (simp add: single_management_def part_routes_def flip: in_part.simps(2))
    then have v: "\<forall>y \<in> set v. \<not> ?P y" using x(3) by (auto simp: x(1) filter_empty_conv)
    have "normalized_routes (replaceAdvancedCustomManagementRoute c (management_path m) r) =
        u @ (case ?new of None \<Rightarrow> [] | Some x \<Rightarrow> [normalizeAdvancedCustomRoute x]) @ v"
      using Some uv x(1,2)
      by (simp add: replace_management list_update_append split: option.split)
    moreover have "in_part k x \<longleftrightarrow> k = ManagementPart m" using x(3) management_paths by (cases k) auto
    ultimately show ?thesis using x v new by (cases r) (auto simp: part_routes_def filter_empty_conv)
  qed
qed

interpretation editing: registers part_routes apply_edit edited_part edited_routes single_management forwards
proof
  fix c e k assume inv: "single_management c" and ok: "forwards e"
  show rd: "part_routes (apply_edit c e) k = (if edited_part e = k then edited_routes e else part_routes c k)" for k
    using forwarding_edited management_edited [OF inv] ok by (cases e) auto
  show "single_management (apply_edit c e)"
    unfolding single_management_def rd using inv by (cases e rule: edited_routes.cases) (auto simp: single_management_def)
qed

lemma catch_all_once:
  assumes "sorted_wrt compatible rs" "\<And>r. r \<in> set rs \<Longrightarrow> route_models r = [] \<and> route_path r = p"
  shows "length rs \<le> 1"
proof (cases rs)
  case (Cons r rest)
  then show ?thesis using assms by (cases rest) (auto simp: compatible_def)
qed simp

lemma validated_single:
  assumes "validateAdvancedCustomConfig url (Some c) = None"
  shows "single_management c"
proof -
  let ?rs = "normalized_routes c"
  have "validate_routes url 0 ?rs \<lparr>vs_routeModelsByPath = Map.empty, vs_modelListRouteIndex = None, vs_balanceRouteIndex = None\<rparr> = None"
    using assms by (simp add: validateAdvancedCustomConfig_def split: if_splits)
  then have ok: "routes_ok url ?rs" using validate_loop [OF loop_start, of url ?rs] by (simp add: routes_ok_def)
  have "length (filter (in_part (ManagementPart m)) ?rs) \<le> 1" for m
  proof -
    have "sorted_wrt compatible (filter (in_part (ManagementPart m)) ?rs)" using ok by (intro sorted_wrt_filter) (simp add: routes_ok_def)
    moreover have "route_models r = [] \<and> route_path r = management_path m" if "r \<in> set (filter (in_part (ManagementPart m)) ?rs)" for r
      using that ok management_paths(2) [of m] by (auto simp: routes_ok_def list_all_iff route_ok_def)
    ultimately show ?thesis by (rule catch_all_once)
  qed
  then show ?thesis by (simp add: single_management_def part_routes_def)
qed

text \<open>C32: The parts of a configuration are edited apart: starting from a valid configuration, after any
  sequence of edits of the forwarding routes, the model list route and the balance route, each of the three
  is what the last edit of it made it, and is untouched when there was none.\<close>

theorem edits_independent:
  assumes "validateAdvancedCustomConfig url (Some c) = None" "list_all forwards es"
  shows "part_routes (foldl apply_edit c es) k =
    (case filter (\<lambda>e. edited_part e = k) (rev es) of [] \<Rightarrow> part_routes c k | e # _ \<Rightarrow> edited_routes e)"
  using editing.last_write [OF validated_single [OF assms(1)] assms(2)] .

section \<open>Text\<close>

lemma text_member_field:
  "text_member (JObj (text_field k v @ kvs)) k = (case v of Some s \<Rightarrow> Some (Some s) | None \<Rightarrow> text_member (JObj kvs) k)"
  "k' \<noteq> k \<Longrightarrow> text_member (JObj (text_field k v @ kvs)) k' = text_member (JObj kvs) k'"
  "k' \<noteq> k \<Longrightarrow> prop_of (JObj (text_field k v @ kvs)) k' = prop_of (JObj kvs) k'"
  by (simp_all add: text_member_def text_field_def split: option.split)

lemma text_member_none: "prop_of j k = None \<Longrightarrow> text_member j k = Some None"
  by (simp add: text_member_def)

lemma texts_of_JStr: "texts_of (map JStr ms) = Some ms"
  by (induction ms) simp_all

lemma auth_read: "prop_of j ''auth'' = Some (auth_json a) \<Longrightarrow> auth_member j = Some (Some a)"
  by (simp add: auth_member_def auth_json_def text_member_field text_member_none text_field_def text_member_def split: option.split)

lemma route_read:
  assumes "normalizeAdvancedCustomRoute r = r"
  shows "route_of_json (route_json r) = Some r"
proof -
  obtain i u c m a where r: "r = \<lparr>ar_incoming_path = Some i, ar_upstream_path = Some u, ar_converter = Some c, ar_models = m, ar_auth = a\<rparr>"
  proof -
    have "ar_incoming_path (normalizeAdvancedCustomRoute r) \<noteq> None" "ar_upstream_path (normalizeAdvancedCustomRoute r) \<noteq> None"
      "ar_converter (normalizeAdvancedCustomRoute r) \<noteq> None" by (simp_all add: normalizeAdvancedCustomRoute_def)
    with assms that show thesis by (cases r) auto
  qed
  let ?ms = "case m of None \<Rightarrow> [] | Some ms \<Rightarrow> [(''models'', JArr (map JStr ms))]" and ?as = "case a of None \<Rightarrow> [] | Some a \<Rightarrow> [(''auth'', auth_json a)]"
  have j: "route_json r = JObj ((''incoming_path'', JStr i) # (''upstream_path'', JStr u) # (''converter'', JStr c) # ?ms @ ?as)"
    by (simp add: r route_json_def text_field_def)
  have "models_member (route_json r) = Some m"
    unfolding j by (cases m; cases a) (simp_all add: models_member_def texts_of_JStr)
  moreover have "auth_member (route_json r) = Some a"
  proof (cases a)
    case (Some x)
    then show ?thesis unfolding j by (cases m) (simp_all add: auth_read)
  qed (unfold j, cases m, simp_all add: auth_member_def)
  moreover have "text_member (route_json r) ''incoming_path'' = Some (Some i)" "text_member (route_json r) ''upstream_path'' = Some (Some u)"
    "text_member (route_json r) ''converter'' = Some (Some c)"
    unfolding j by (simp_all add: text_member_def)
  moreover have "route_json r \<noteq> JNull" by (simp add: route_json_def)
  ultimately show ?thesis by (simp add: route_of_json_def r)
qed

lemma routes_read: "(\<And>r. r \<in> set rs \<Longrightarrow> normalizeAdvancedCustomRoute r = r) \<Longrightarrow> routes_of (map route_json rs) = Some rs"
  by (induction rs) (simp_all add: route_read)

text \<open>C31: A configuration survives its text: what is stringified for the server is parsed back as exactly the
  normal form of the configuration, routes, rules and credentials in order.\<close>

theorem config_text_roundtrip:
  assumes "parse (stringify (custom_config_json (normalizeAdvancedCustomConfig c))) = Some (custom_config_json (normalizeAdvancedCustomConfig c))"
    and "trim (stringify (custom_config_json (normalizeAdvancedCustomConfig c))) \<noteq> []"
  shows "parseAdvancedCustomConfig parse (Some (stringifyAdvancedCustomConfig stringify c)) = Some (normalizeAdvancedCustomConfig c)"
proof -
  define rs where "rs = normalized_routes c"
  have c: "normalizeAdvancedCustomConfig c = \<lparr>ac_advanced_routes = Some rs\<rparr>"
    by (simp add: rs_def normalizeAdvancedCustomConfig_def nullish_def)
  then have j: "custom_config_json (normalizeAdvancedCustomConfig c) = JObj [(''advanced_routes'', JArr (map route_json rs))]"
    by (simp add: custom_config_json_def)
  have "routes_of (map route_json rs) = Some rs" using normalized_again unfolding rs_def by (rule routes_read)
  moreover have "normalizeAdvancedCustomConfig \<lparr>ac_advanced_routes = Some rs\<rparr> = normalizeAdvancedCustomConfig c"
    using config_normal [of c] unfolding c .
  ultimately show ?thesis
    using assms unfolding parseAdvancedCustomConfig_def stringifyAdvancedCustomConfig_def j by (simp add: nullish_def)
qed

section \<open>Defaults and samples\<close>

definition default_route :: "string \<Rightarrow> string \<Rightarrow> AdvancedCustomRoute" where
  "default_route converter path =
    (case getAdvancedCustomConverterDefaults converter path of (upstream, auth) \<Rightarrow>
      \<lparr>ar_incoming_path = Some path, ar_upstream_path = Some upstream, ar_converter = Some converter, ar_models = None, ar_auth = Some auth\<rparr>)"

lemma validate_url:
  assumes "list_all (\<lambda>r. prefix ''/'' (getAdvancedCustomRouteUpstreamPath r)) rs"
  shows "validate_routes url i rs st = validate_routes url' i rs st"
  using assms
proof (induction rs arbitrary: i st)
  case (Cons r rs)
  then have "isFullHttpURLOrAbsolutePath url (getAdvancedCustomRouteUpstreamPath r) = isFullHttpURLOrAbsolutePath url' (getAdvancedCustomRouteUpstreamPath r)"
    by (simp add: isFullHttpURLOrAbsolutePath_def)
  then have "validate_route url i r st = validate_route url' i r st" by (simp only: validate_route_def Let_def)
  with Cons show ?case by (simp split: sum.split)
qed simp

lemma validate_relative:
  assumes "list_all (\<lambda>r. prefix ''/'' (getAdvancedCustomRouteUpstreamPath r)) (normalized_routes c)"
  shows "validateAdvancedCustomConfig url (Some c) = validateAdvancedCustomConfig url' (Some c)"
  using validate_url [OF assms] by (simp add: validateAdvancedCustomConfig_def)

definition default_valid :: "AdvancedCustomConfig \<Rightarrow> bool" where
  "default_valid c \<longleftrightarrow> list_all (\<lambda>r. prefix ''/'' (getAdvancedCustomRouteUpstreamPath r)) (normalized_routes c) \<and>
    validateAdvancedCustomConfig (\<lambda>_. None) (Some c) = None"

lemma templates_valid: "list_all (\<lambda>(k, c). default_valid c) ADVANCED_CUSTOM_TEMPLATE_OPTIONS"
  by code_simp

lemma converters_valid: "list_all (\<lambda>converter. list_all (\<lambda>(path, label). default_valid \<lparr>ac_advanced_routes = Some [default_route converter path]\<rparr>)
     (getAdvancedCustomIncomingPathOptions converter)) ADVANCED_CUSTOM_CONVERTER_OPTIONS"
  by code_simp

text \<open>The editor's defaults are valid: every template passes validation, and so does a route with any
  registered converter, any incoming path that is offered for it, and the upstream path and credentials the
  converter comes with.\<close>

theorem defaults_valid:
  "list_all (\<lambda>(k, c). validateAdvancedCustomConfig url (Some c) = None) ADVANCED_CUSTOM_TEMPLATE_OPTIONS \<and>
   list_all (\<lambda>converter. list_all (\<lambda>(path, label).
       validateAdvancedCustomConfig url (Some \<lparr>ac_advanced_routes = Some [default_route converter path]\<rparr>) = None)
     (getAdvancedCustomIncomingPathOptions converter)) ADVANCED_CUSTOM_CONVERTER_OPTIONS"
proof -
  have valid: "validateAdvancedCustomConfig url (Some c) = None" if "default_valid c" for c
    using that validate_relative [of c url "\<lambda>_. None"] by (simp add: default_valid_def)
  show ?thesis
    using templates_valid converters_valid valid unfolding list_all_iff by (fastforce split: prod.splits)
qed

definition sample_edits :: "route_edit list" where
  "sample_edits =
    [EditManagement ModelListRoute (Some (createAdvancedCustomManagementRoute ADVANCED_CUSTOM_MODEL_LIST_PATH)),
     EditForwarding createClaudeNativeRoutes, EditManagement ModelListRoute None, EditForwarding createGatewayNativeRoutes]"

theorem edits_independent_witness:
  "part_routes (foldl apply_edit createAdvancedCustomConfig sample_edits) ForwardingPart = map normalizeAdvancedCustomRoute createGatewayNativeRoutes"
proof -
  have "validateAdvancedCustomConfig (\<lambda>_. None) (Some createAdvancedCustomConfig) = None" "list_all forwards sample_edits" by code_simp+
  from edits_independent [OF this, of ForwardingPart] show ?thesis by (simp add: sample_edits_def)
qed

theorem config_text_roundtrip_witness:
  "parseAdvancedCustomConfig (\<lambda>_. Some (custom_config_json (normalizeAdvancedCustomConfig createAdvancedCustomConfig)))
    (Some (stringifyAdvancedCustomConfig (\<lambda>_. ''{}'') createAdvancedCustomConfig)) = Some (normalizeAdvancedCustomConfig createAdvancedCustomConfig)"
  by (rule config_text_roundtrip) code_simp+

end
