(* ===== verification/Js_Regex.thy ===== *)
theory Js_Regex
  imports Js_Text
begin

text \<open>
  Regular expressions as JavaScript runs them.  A pattern takes a text and the groups captured so far to the
  list of all ways to match a prefix of the text, in the order in which the backtracking search tries them;
  the first is the match.  Quantifiers are greedy, and an iteration that consumes nothing ends a repetition.
\<close>

section \<open>Patterns\<close>

datatype rx =
    Chr "char \<Rightarrow> bool"
  | Eps
  | End
  | Seq rx rx
  | Alt rx rx
  | Opt rx
  | Many rx
  | Cap nat rx

text \<open>The rest of the text and the captured groups.\<close>

type_synonym rx_state = "string \<times> (nat \<rightharpoonup> string)"

primrec many :: "(rx_state \<Rightarrow> rx_state list) \<Rightarrow> nat \<Rightarrow> rx_state \<Rightarrow> rx_state list" where
  "many f 0 x = [x]"
| "many f (Suc n) x = concat (map (many f n) (filter (\<lambda>y. length (fst y) < length (fst x)) (f x))) @ [x]"

primrec rx_run :: "rx \<Rightarrow> rx_state \<Rightarrow> rx_state list" where
  "rx_run (Chr P) x = (case fst x of [] \<Rightarrow> [] | c # s \<Rightarrow> if P c then [(s, snd x)] else [])"
| "rx_run Eps x = [x]"
| "rx_run End x = (if fst x = [] then [x] else [])"
| "rx_run (Seq a b) x = concat (map (rx_run b) (rx_run a x))"
| "rx_run (Alt a b) x = rx_run a x @ rx_run b x"
| "rx_run (Opt a) x = rx_run a x @ [x]"
| "rx_run (Many a) x = many (rx_run a) (length (fst x)) x"
| "rx_run (Cap n a) x = map (\<lambda>y. (fst y, (snd y)(n \<mapsto> take (length (fst x) - length (fst y)) (fst x)))) (rx_run a x)"

definition rx_first :: "rx \<Rightarrow> string \<Rightarrow> rx_state option" where
  "rx_first r s = (case rx_run r (s, Map.empty) of [] \<Rightarrow> None | x # _ \<Rightarrow> Some x)"

fun seq :: "rx list \<Rightarrow> rx" where
  "seq [] = Eps"
| "seq (r # rs) = Seq r (seq rs)"

fun alts :: "rx list \<Rightarrow> rx" where
  "alts [] = Chr (\<lambda>_. False)"
| "alts [r] = r"
| "alts (r # rs) = Alt r (alts rs)"

definition lit :: "string \<Rightarrow> rx" where
  "lit w = seq (map (\<lambda>c. Chr (\<lambda>d. d = c)) w)"

definition spaces :: rx where
  "spaces = Many (Chr space_char)"

definition some_of :: "(char \<Rightarrow> bool) \<Rightarrow> rx" where
  "some_of P = Seq (Chr P) (Many (Chr P))"

section \<open>Searching\<close>

text \<open>The groups of all matches of \<open>exec\<close> with the flag \<open>g\<close>, for a pattern that never matches the empty text.\<close>

function rx_all :: "rx \<Rightarrow> string \<Rightarrow> (nat \<rightharpoonup> string) list" where
  "rx_all r s =
    (case rx_first r s of
      Some (rest, groups) \<Rightarrow> if length rest < length s then groups # rx_all r rest else []
    | None \<Rightarrow> (case s of [] \<Rightarrow> [] | _ # s' \<Rightarrow> rx_all r s'))"
  by pat_completeness auto
termination by (relation "measure (\<lambda>(r, s). length s)") auto

declare rx_all.simps [simp del]

text \<open>\<open>s.split(r)\<close>, likewise.\<close>

function rx_split :: "rx \<Rightarrow> string \<Rightarrow> string \<Rightarrow> string list" where
  "rx_split r cur s =
    (case s of
      [] \<Rightarrow> [cur]
    | c # s' \<Rightarrow> (case rx_first r s of
        Some (rest, _) \<Rightarrow> if length rest < length s then cur # rx_split r [] rest else rx_split r (cur @ [c]) s'
      | None \<Rightarrow> rx_split r (cur @ [c]) s'))"
  by pat_completeness auto
termination by (relation "measure (\<lambda>(r, cur, s). length s)") auto

declare rx_split.simps [simp del]

section \<open>What a pattern matches first\<close>

lemma concat_map_concat: "concat (map f (concat xss)) = concat (map (\<lambda>xs. concat (map f xs)) xss)"
  by (induction xss) simp_all

definition takes :: "rx \<Rightarrow> rx_state \<Rightarrow> rx_state \<Rightarrow> bool" where
  "takes r x y \<longleftrightarrow> (\<exists>ys. rx_run r x = y # ys)"

definition fails :: "rx \<Rightarrow> rx_state \<Rightarrow> bool" where
  "fails r x \<longleftrightarrow> rx_run r x = []"

lemma takes_Seq: "takes a x y \<Longrightarrow> takes b y z \<Longrightarrow> takes (Seq a b) x z"
  by (auto simp: takes_def)

lemma takes_Seq_later:
  assumes "rx_run a x = ys @ y # zs" "\<forall>y' \<in> set ys. fails b y'" "takes b y z"
  shows "takes (Seq a b) x z"
proof -
  have "concat (map (rx_run b) ys) = []" using assms(2) by (simp add: fails_def)
  moreover obtain zs' where "rx_run b y = z # zs'" using assms(3) by (auto simp: takes_def)
  ultimately show ?thesis using assms(1) by (simp add: takes_def del: concat_eq_Nil_conv)
qed

lemma fails_Seq: "fails a x \<Longrightarrow> fails (Seq a b) x"
  by (simp add: fails_def)

lemma fails_Seq_all: "(\<And>y. y \<in> set (rx_run a x) \<Longrightarrow> fails b y) \<Longrightarrow> fails (Seq a b) x"
  by (simp add: fails_def)

lemma takes_Eps: "takes Eps x x"
  by (simp add: takes_def)

lemma takes_End: "takes End ([], g) ([], g)"
  by (simp add: takes_def)

lemma takes_Opt: "takes a x y \<Longrightarrow> takes (Opt a) x y"
  by (auto simp: takes_def)

lemma takes_Opt_skip: "fails a x \<Longrightarrow> takes (Opt a) x x"
  by (simp add: takes_def fails_def)

lemma takes_Cap: "takes a (s, g) (s', g') \<Longrightarrow> w = take (length s - length s') s \<Longrightarrow> takes (Cap n a) (s, g) (s', g'(n \<mapsto> w))"
  by (auto simp: takes_def)

lemma takes_lit: "takes (lit w) (w @ s, g) (s, g)"
  by (induction w) (simp_all add: lit_def takes_def)

lemma lit_run: "rx_run (lit w) (s, g) = (if prefix w s then [(drop (length w) s, g)] else [])"
proof (induction w arbitrary: s)
  case (Cons c w)
  then show ?case by (cases s) (auto simp: lit_def)
qed (simp add: lit_def)

section \<open>Repetitions\<close>

lemma many_fuel: "length (fst x) \<le> m \<Longrightarrow> length (fst x) \<le> n \<Longrightarrow> many f m x = many f n x"
proof (induction m arbitrary: n x)
  case 0
  then show ?case by (cases n) (auto simp: filter_empty_conv)
next
  case (Suc m)
  show ?case
  proof (cases n)
    case 0
    with Suc.prems show ?thesis by (auto simp: filter_empty_conv)
  next
    case n: (Suc k)
    have "many f m y = many f k y" if "length (fst y) < length (fst x)" for y
      using that Suc.prems n by (intro Suc.IH) auto
    then show ?thesis using n by (auto intro!: arg_cong [of _ _ concat] map_cong)
  qed
qed

lemma Many_run:
  "rx_run (Many a) x = concat (map (rx_run (Many a)) (filter (\<lambda>y. length (fst y) < length (fst x)) (rx_run a x))) @ [x]"
proof (cases "length (fst x)")
  case (Suc n)
  have "many (rx_run a) n y = many (rx_run a) (length (fst y)) y" if "length (fst y) < length (fst x)" for y
    using that Suc by (intro many_fuel) auto
  then show ?thesis using Suc by (auto intro!: arg_cong [of _ _ concat] map_cong)
qed (auto simp: filter_empty_conv)

lemma takes_Many: "takes a x y \<Longrightarrow> length (fst y) < length (fst x) \<Longrightarrow> takes (Many a) y z \<Longrightarrow> takes (Many a) x z"
  unfolding takes_def by (subst Many_run) auto

lemma takes_Many_stop: "fails a x \<Longrightarrow> takes (Many a) x x"
  unfolding takes_def fails_def by (subst Many_run) simp

lemma Many_stop_run: "fails a x \<Longrightarrow> rx_run (Many a) x = [x]"
  unfolding fails_def by (subst Many_run) simp

lemma fails_Chr: "s = [] \<or> \<not> P (hd s) \<Longrightarrow> fails (Chr P) (s, g)"
  by (cases s) (auto simp: fails_def)

lemma greedy:
  assumes "list_all P w" "s = [] \<or> \<not> P (hd s)"
  shows "takes (Many (Chr P)) (w @ s, g) (s, g)"
  using assms(1)
proof (induction w)
  case (Cons c w)
  have "takes (Chr P) ((c # w) @ s, g) (w @ s, g)" using Cons.prems by (simp add: takes_def)
  then show ?case by (rule takes_Many) (use Cons in auto)
qed (use assms(2) in \<open>simp add: takes_Many_stop fails_Chr\<close>)

lemma some_greedy:
  assumes "list_all P w" "w \<noteq> []" "s = [] \<or> \<not> P (hd s)"
  shows "takes (some_of P) (w @ s, g) (s, g)"
proof -
  obtain c w' where w: "w = c # w'" using assms(2) by (cases w) auto
  have "takes (Chr P) (w @ s, g) (w' @ s, g)" using w assms(1) by (simp add: takes_def)
  then show ?thesis unfolding some_of_def using greedy [of P w' s g] assms w by (auto intro: takes_Seq)
qed

lemma fails_some_of: "s = [] \<or> \<not> P (hd s) \<Longrightarrow> fails (some_of P) (s, g)"
  unfolding some_of_def by (intro fails_Seq fails_Chr)

lemma spaces_run:
  "s = [] \<or> \<not> space_char (hd s) \<Longrightarrow> rx_run spaces (s, g) = [(s, g)]"
  "s = [] \<or> \<not> space_char (hd s) \<Longrightarrow> rx_run spaces (CHR '' '' # s, g) = [(s, g), (CHR '' '' # s, g)]"
proof -
  assume s: "s = [] \<or> \<not> space_char (hd s)"
  then show e: "rx_run spaces (s, g) = [(s, g)]" unfolding spaces_def by (intro Many_stop_run fails_Chr)
  have "space_char CHR '' ''" by code_simp
  with e show "rx_run spaces (CHR '' '' # s, g) = [(s, g), (CHR '' '' # s, g)]"
    unfolding spaces_def by (subst Many_run) simp
qed

lemma takes_spaces:
  "s = [] \<or> \<not> space_char (hd s) \<Longrightarrow> takes spaces (s, g) (s, g)"
  "s = [] \<or> \<not> space_char (hd s) \<Longrightarrow> takes spaces (CHR '' '' # s, g) (s, g)"
  by (simp_all add: takes_def spaces_run)

lemma rx_firstI: "takes r (s, Map.empty) x \<Longrightarrow> rx_first r s = Some x"
  by (auto simp: takes_def rx_first_def)

lemma rx_first_None: "fails r (s, Map.empty) \<Longrightarrow> rx_first r s = None"
  by (simp add: fails_def rx_first_def)

lemma rx_all_match: "takes r (s, Map.empty) (rest, g) \<Longrightarrow> length rest < length s \<Longrightarrow> rx_all r s = g # rx_all r rest"
  by (subst rx_all.simps) (simp add: rx_firstI)

lemma rx_all_skip: "fails r (c # s, Map.empty) \<Longrightarrow> rx_all r (c # s) = rx_all r s"
  by (subst rx_all.simps) (simp add: rx_first_None)

section \<open>Word boundaries\<close>

definition word_char :: "char \<Rightarrow> bool" where
  "word_char c \<longleftrightarrow> (let n = of_char c :: nat in 97 \<le> n \<and> n \<le> 122 \<or> 65 \<le> n \<and> n \<le> 90 \<or> 48 \<le> n \<and> n \<le> 57 \<or> n = 95)"

text \<open>\<open>\b\<close> between the character before, if there is one, and the rest.\<close>

definition boundary :: "char option \<Rightarrow> string \<Rightarrow> bool" where
  "boundary before s \<longleftrightarrow> (case before of None \<Rightarrow> False | Some c \<Rightarrow> word_char c) \<noteq> (case s of [] \<Rightarrow> False | c # _ \<Rightarrow> word_char c)"

text \<open>The groups of all matches of \<open>\b\<close> followed by a pattern that never matches the empty text.\<close>

function rx_words :: "rx \<Rightarrow> char option \<Rightarrow> string \<Rightarrow> (nat \<rightharpoonup> string) list" where
  "rx_words r before s =
    (case s of
      [] \<Rightarrow> []
    | c # s' \<Rightarrow> (case (if boundary before s then rx_first r s else None) of
        Some (rest, groups) \<Rightarrow>
          if length rest < length s then groups # rx_words r (Some (s ! (length s - length rest - 1))) rest else rx_words r (Some c) s'
      | None \<Rightarrow> rx_words r (Some c) s'))"
  by pat_completeness auto
termination by (relation "measure (\<lambda>(r, before, s). length s)") auto

declare rx_words.simps [simp del]

lemma rx_words_Nil: "rx_words r before [] = []"
  by (subst rx_words.simps) simp

lemma rx_words_skip: "fails r (c # s, Map.empty) \<Longrightarrow> rx_words r before (c # s) = rx_words r (Some c) s"
  by (subst rx_words.simps) (simp add: rx_first_None)

lemma rx_words_match:
  assumes "takes r (w @ s, Map.empty) (s, g)" "w \<noteq> []" "boundary before (w @ s)"
  shows "rx_words r before (w @ s) = g # rx_words r (Some (last w)) s"
proof -
  have "(w @ s) ! (length (w @ s) - length s - 1) = last w" using assms(2) by (simp add: nth_append last_conv_nth)
  moreover obtain c w' where "w = c # w'" using assms(2) by (cases w) auto
  ultimately show ?thesis using assms(3) rx_firstI [OF assms(1)] by (subst rx_words.simps) simp
qed

end
