(* ===== verification/Tier_Expr.thy ===== *)
theory Tier_Expr
  imports Js_Regex Task_Expr
begin

text \<open>
  Tier expressions of models (\<open>tier-expr.ts\<close> and the tier parser of \<open>billing-expr.ts\<close>), such as
  \<open>len <= 200000 ? tier("short", p * 3 + c * 15) : tier("long", p * 6 + c * 22.5 + cr * 0.6)\<close>.  The parsers
  are regular expressions, which run on \<open>Js_Regex\<close>.  \<open>show_number\<close> is \<open>String\<close> on numbers; \<open>NaN\<close> is \<open>None\<close>.
\<close>

section \<open>Data\<close>

datatype ExtraCost = CacheRead | CacheCreate | CacheCreate1h | ImageIn | ImageOut | AudioIn | AudioOut

text \<open>The variables of \<open>BILLING_CACHE_VAR_MAP\<close> in their order.\<close>

definition BILLING_CACHE_VAR_MAP :: "(ExtraCost \<times> string) list" where
  "BILLING_CACHE_VAR_MAP =
    [(CacheRead, ''cr''), (CacheCreate, ''cc''), (CacheCreate1h, ''cc1h''), (ImageIn, ''img''), (ImageOut, ''img_o''),
     (AudioIn, ''ai''), (AudioOut, ''ao'')]"

datatype cond_value = NumValue "number option" | TextValue string

record TierConditionInput =
  tc_var :: string
  tc_op :: string
  tc_value :: cond_value

definition CACHE_MODE_TIMED :: string where "CACHE_MODE_TIMED = ''timed''"

definition CACHE_MODE_GENERIC :: string where "CACHE_MODE_GENERIC = ''generic''"

record VisualTier =
  vi_label :: string
  vi_conditions :: "TierConditionInput list"
  vi_input :: "number option"
  vi_output :: "number option"
  vi_cache_mode :: string
  vi_extra :: "ExtraCost \<Rightarrow> number option"

text \<open>\<open>Partial<VisualTier>\<close>: the outer \<open>None\<close> is a member that is not there.\<close>

record PartialTier =
  pa_label :: "string option"
  pa_conditions :: "TierConditionInput list option"
  pa_input :: "number option option"
  pa_output :: "number option option"
  pa_cache_mode :: "string option"
  pa_extra :: "ExtraCost \<Rightarrow> number option option"

definition whole :: "VisualTier \<Rightarrow> PartialTier" where
  "whole t = \<lparr>pa_label = Some (vi_label t), pa_conditions = Some (vi_conditions t), pa_input = Some (vi_input t),
    pa_output = Some (vi_output t), pa_cache_mode = Some (vi_cache_mode t), pa_extra = (\<lambda>f. Some (vi_extra t f))\<rparr>"

section \<open>Normal form\<close>

text \<open>\<open>Number(x) || 0\<close>.\<close>

definition or_zero :: "number option option \<Rightarrow> number option" where
  "or_zero x = (case x of Some (Some v) \<Rightarrow> Some v | _ \<Rightarrow> Some 0)"

definition getTierCacheMode :: "PartialTier \<Rightarrow> string" where
  "getTierCacheMode tier =
    (if pa_cache_mode tier = Some CACHE_MODE_TIMED then CACHE_MODE_TIMED
     else if pa_cache_mode tier = Some CACHE_MODE_GENERIC then CACHE_MODE_GENERIC
     else case pa_extra tier CacheCreate1h of
       Some (Some v) \<Rightarrow> if v > 0 then CACHE_MODE_TIMED else CACHE_MODE_GENERIC
     | _ \<Rightarrow> CACHE_MODE_GENERIC)"

definition normalizeVisualTier :: "PartialTier \<Rightarrow> VisualTier" where
  "normalizeVisualTier tier =
    \<lparr>vi_label = nullish (pa_label tier) [], vi_conditions = nullish (pa_conditions tier) [],
     vi_input = nullish (pa_input tier) (Some 0), vi_output = nullish (pa_output tier) (Some 0),
     vi_cache_mode = nullish (pa_cache_mode tier) (getTierCacheMode tier), vi_extra = (\<lambda>f. or_zero (pa_extra tier f))\<rparr>"

definition createDefaultVisualConfig :: "VisualTier list" where
  "createDefaultVisualConfig = [normalizeVisualTier
    \<lparr>pa_label = Some ''base'', pa_conditions = Some [], pa_input = Some (Some 0), pa_output = Some (Some 0),
     pa_cache_mode = Some CACHE_MODE_GENERIC, pa_extra = (\<lambda>_. None)\<rparr>]"

definition normalizeVisualConfig :: "VisualTier list option \<Rightarrow> VisualTier list" where
  "normalizeVisualConfig config =
    (case config of None \<Rightarrow> createDefaultVisualConfig
    | Some tiers \<Rightarrow> if tiers = [] then createDefaultVisualConfig else map (\<lambda>t. normalizeVisualTier (whole t)) tiers)"

section \<open>Generating\<close>

fun value_text :: "(number \<Rightarrow> string) \<Rightarrow> cond_value \<Rightarrow> string" where
  "value_text show_number (NumValue (Some x)) = show_number x"
| "value_text show_number (NumValue None) = ''NaN''"
| "value_text show_number (TextValue s) = s"

definition buildConditionStr :: "(number \<Rightarrow> string) \<Rightarrow> TierConditionInput list \<Rightarrow> string" where
  "buildConditionStr show_number conditions =
    join '' && '' (map (\<lambda>c. tc_var c @ '' '' @ tc_op c @ '' '' @ value_text show_number (tc_value c))
      (filter (\<lambda>c. tc_var c \<noteq> [] \<and> tc_op c \<noteq> [] \<and> tc_value c \<noteq> TextValue []) conditions))"

definition extra_parts :: "(number \<Rightarrow> string) \<Rightarrow> (ExtraCost \<Rightarrow> number option) \<Rightarrow> (ExtraCost \<times> string) list \<Rightarrow> string list" where
  "extra_parts show_number extra vars =
    List.map_filter (\<lambda>(f, v). let x = the (or_zero (Some (extra f))) in if x \<noteq> 0 then Some (v @ '' * '' @ show_number x) else None) vars"

definition buildTierBodyExpr :: "(number \<Rightarrow> string) \<Rightarrow> VisualTier \<Rightarrow> string" where
  "buildTierBodyExpr show_number tier =
    join '' + '' ((''p * '' @ show_number (the (or_zero (Some (vi_input tier))))) #
      (''c * '' @ show_number (the (or_zero (Some (vi_output tier))))) #
      extra_parts show_number (vi_extra tier) BILLING_CACHE_VAR_MAP)"

definition tier_call :: "(number \<Rightarrow> string) \<Rightarrow> string \<Rightarrow> VisualTier \<Rightarrow> string" where
  "tier_call show_number label tier = ''tier('' @ quote_char # label @ quote_char # '', '' @ buildTierBodyExpr show_number tier @ '')''"

fun tier_parts :: "(number \<Rightarrow> string) \<Rightarrow> nat \<Rightarrow> VisualTier list \<Rightarrow> string list" where
  "tier_parts show_number i [] = []"
| "tier_parts show_number i (tier # tiers) =
    (let label = (if vi_label tier \<noteq> [] then vi_label tier else ''tier_'' @ show_nat (i + 1));
         body = tier_call show_number label tier; cond = buildConditionStr show_number (vi_conditions tier) in
     (if tiers \<noteq> [] \<and> cond \<noteq> [] then cond @ '' ? '' @ body else body) # tier_parts show_number (i + 1) tiers)"

definition generateExprFromVisualConfig :: "(number \<Rightarrow> string) \<Rightarrow> VisualTier list option \<Rightarrow> string" where
  "generateExprFromVisualConfig show_number config =
    (case config of
      Some [tier] \<Rightarrow>
        (let body = tier_call show_number (if vi_label tier \<noteq> [] then vi_label tier else ''default'') tier;
             cond = buildConditionStr show_number (vi_conditions tier) in
         if cond \<noteq> [] then cond @ '' ? '' @ body @ '' : p * 0 + c * 0'' else body)
    | Some (t # ts) \<Rightarrow> join '' : '' (tier_parts show_number 0 (t # ts))
    | _ \<Rightarrow> ''p * 0 + c * 0'')"

section \<open>Parsing\<close>

text \<open>The classes \<open>[\d.eE+-]\<close>, which is \<open>number_char\<close>, and \<open>[\d.eE+]\<close>.\<close>

definition bound_char :: "char \<Rightarrow> bool" where
  "bound_char c \<longleftrightarrow> number_char c \<and> c \<noteq> CHR ''-''"

text \<open>\<open>Number\<close> on a text of such characters.\<close>

definition js_Number :: "string \<Rightarrow> number option" where
  "js_Number w =
    (case w of
      c # r \<Rightarrow> if c = CHR ''+'' then (if isNumericLiteral r \<and> \<not> prefix ''-'' r then Some (literal_number r) else None)
        else if isNumericLiteral w then Some (literal_number w) else None
    | [] \<Rightarrow> Some 0)"

definition optional_costs :: "nat \<Rightarrow> (ExtraCost \<times> string) list \<Rightarrow> rx" where
  "optional_costs n vars =
    seq (map (\<lambda>(i, f, v). Opt (seq [spaces, lit ''+'', spaces, lit v, spaces, lit ''*'', spaces, Cap i (some_of number_char)])) (enumerate n vars))"

text \<open>\<open>bodyPat\<close>, whose first group is \<open>n\<close>.\<close>

definition body_pattern :: "nat \<Rightarrow> rx" where
  "body_pattern n =
    seq [lit ''p'', spaces, lit ''*'', spaces, Cap n (some_of number_char), spaces, lit ''+'', spaces,
      lit ''c'', spaces, lit ''*'', spaces, Cap (n + 1) (some_of number_char), optional_costs (n + 2) BILLING_CACHE_VAR_MAP]"

definition call_pattern :: "nat \<Rightarrow> rx" where
  "call_pattern n =
    seq [lit (''tier('' @ [quote_char]), Cap n (Many (Chr (\<lambda>c. c \<noteq> quote_char))), lit [quote_char, CHR '',''], spaces, body_pattern (n + 1), lit '')'']"

definition var_pattern :: rx where
  "var_pattern = alts [lit ''p'', lit ''c'', lit ''len'']"

definition op_pattern :: rx where
  "op_pattern = alts [lit ''<'', lit ''<='', lit ''>'', lit ''>='']"

definition bound_pattern :: rx where
  "bound_pattern = seq [var_pattern, spaces, op_pattern, spaces, some_of bound_char]"

text \<open>\<open>condGroup\<close> and \<open>tierRe\<close> of \<open>tryParseVisualConfig\<close>.\<close>

definition cond_group :: rx where
  "cond_group = Cap 1 (Seq bound_pattern (Many (seq [spaces, lit ''&&'', spaces, bound_pattern])))"

definition tier_pattern :: rx where
  "tier_pattern = Seq (Opt (seq [cond_group, spaces, lit ''?'', spaces])) (call_pattern 2)"

definition parse_bound :: "string \<Rightarrow> TierConditionInput option" where
  "parse_bound cp =
    map_option (\<lambda>(_, g). \<lparr>tc_var = the (g 1), tc_op = the (g 2), tc_value = NumValue (js_Number (the (g 3)))\<rparr>)
      (rx_first (seq [Cap 1 var_pattern, spaces, Cap 2 op_pattern, spaces, Cap 3 (some_of bound_char), End]) (trim cp))"

text \<open>\<open>/\s*&&\s*/\<close>.\<close>

definition and_pattern :: rx where
  "and_pattern = seq [spaces, lit ''&&'', spaces]"

definition parse_bounds :: "string option \<Rightarrow> TierConditionInput list" where
  "parse_bounds condStr =
    (case condStr of
      None \<Rightarrow> []
    | Some s \<Rightarrow> if s = [] then [] else List.map_filter parse_bound (rx_split and_pattern [] s))"

text \<open>The tier of a match whose label is group \<open>n\<close>.\<close>

definition matched_costs :: "nat \<Rightarrow> (nat \<rightharpoonup> string) \<Rightarrow> TierConditionInput list \<Rightarrow> PartialTier" where
  "matched_costs n g conditions =
    \<lparr>pa_label = g n, pa_conditions = Some conditions, pa_input = Some (js_Number (the (g (n + 1)))), pa_output = Some (js_Number (the (g (n + 2)))),
     pa_cache_mode = None,
     pa_extra = (\<lambda>f. case map_of (map (\<lambda>(i, f, v). (f, i)) (enumerate (n + 3) BILLING_CACHE_VAR_MAP)) f of
       None \<Rightarrow> None | Some i \<Rightarrow> map_option js_Number (g i))\<rparr>"

definition tryParseVisualConfig :: "(number \<Rightarrow> string) \<Rightarrow> string \<Rightarrow> VisualTier list option" where
  "tryParseVisualConfig show_number exprStr =
    (if exprStr = [] then None
     else
       let body = snd (stripExprVersion exprStr) in
       case rx_first (Seq (call_pattern 1) End) body of
         Some (_, g) \<Rightarrow> Some (normalizeVisualConfig (Some [normalizeVisualTier (matched_costs 1 g [])]))
       | None \<Rightarrow>
           (let tiers = map (\<lambda>g. normalizeVisualTier (matched_costs 2 g (parse_bounds (g 1)))) (rx_all tier_pattern body);
                cfg = normalizeVisualConfig (Some tiers) in
            if tiers = [] then None
            else if filter (\<lambda>c. \<not> space_char c) (generateExprFromVisualConfig show_number (Some cfg)) \<noteq> filter (\<lambda>c. \<not> space_char c) body then None
            else Some cfg))"

end
