(* ===== verification/Tier_Matching.thy ===== *)
theory Tier_Matching
  imports Tier_Expr
begin

text \<open>
  What the patterns of tier expressions match first on generated texts: prices, optional prices, whole tiers
  and their conditions, with the groups they capture.
\<close>

section \<open>Prices\<close>

lemma seq_append_run: "rx_run (seq (xs @ ys)) x = concat (map (rx_run (seq ys)) (rx_run (seq xs) x))"
proof (induction xs arbitrary: x)
  case (Cons r rs)
  then show ?case by (simp add: Cons [abs_def] concat_map_concat o_def)
qed simp

lemma takes_append: "takes (seq xs) x y \<Longrightarrow> takes (seq ys) y z \<Longrightarrow> takes (seq (xs @ ys)) x z"
  by (auto simp: takes_def seq_append_run)

lemma fails_append: "fails (seq xs) x \<Longrightarrow> fails (seq (xs @ ys)) x"
  by (simp add: fails_def seq_append_run)

lemma takes_Cons: "takes r x y \<Longrightarrow> takes (seq rs) y z \<Longrightarrow> takes (seq (r # rs)) x z"
  by (simp add: takes_Seq)

lemma takes_Nil: "takes (seq []) x x"
  by (simp add: takes_Eps)

lemma takes_one: "takes r x y \<Longrightarrow> takes (seq [r]) x y"
  by (rule takes_Cons [OF _ takes_Nil])

text \<open>A text that starts a word: not empty, and not with a space.\<close>

abbreviation starts :: "string \<Rightarrow> bool" where
  "starts s \<equiv> s \<noteq> [] \<and> \<not> space_char (hd s)"

lemma space_facts [simp]:
  "space_char CHR '' ''" "\<not> space_char CHR ''*''" "\<not> space_char CHR ''+''" "\<not> space_char CHR '')''" "\<not> space_char CHR ''?''" "\<not> space_char CHR ''&''"
  "\<not> space_char CHR ''t''" "\<not> space_char CHR ''p''" "\<not> space_char CHR ''c''" "\<not> space_char CHR ''='' " "\<not> space_char CHR '':''"
  by code_simp+

lemma number_facts [simp]: "\<not> number_char CHR '' ''" "\<not> number_char CHR '')''" "\<not> bound_char CHR '' ''" "\<not> bound_char CHR ''=''"
  by code_simp+

lemma number_starts: "list_all number_char w \<Longrightarrow> w \<noteq> [] \<Longrightarrow> starts (w @ s)"
  using number_char_plain by (cases w) auto

lemma price_taken:
  assumes "list_all number_char w" "w \<noteq> []" "s = [] \<or> \<not> number_char (hd s)"
  shows "takes (seq [lit v, spaces, lit ''*'', spaces, Cap i (some_of number_char)]) (v @ '' * '' @ w @ s, g) (s, g(i \<mapsto> w))"
proof -
  note st = number_starts [OF assms(1,2), of s]
  have "takes (lit v) (v @ '' * '' @ w @ s, g) ('' * '' @ w @ s, g)" by (rule takes_lit)
  moreover have "takes spaces ('' * '' @ w @ s, g) (''* '' @ w @ s, g)" using takes_spaces(2) [of "''* '' @ w @ s" g] by simp
  moreover have "takes (lit ''*'') (''* '' @ w @ s, g) ('' '' @ w @ s, g)" using takes_lit [of "''*''" "'' '' @ w @ s" g] by simp
  moreover have "takes spaces ('' '' @ w @ s, g) (w @ s, g)" using takes_spaces(2) [of "w @ s" g] st by simp
  moreover have "takes (Cap i (some_of number_char)) (w @ s, g) (s, g(i \<mapsto> w))"
    by (rule takes_Cap [OF some_greedy [OF assms]]) simp
  ultimately show ?thesis by (blast intro: takes_Cons takes_one)
qed

lemma plus_taken: "starts s \<Longrightarrow> takes (seq [spaces, lit ''+'', spaces]) ('' + '' @ s, g) (s, g)"
proof -
  assume s: "starts s"
  have "takes spaces ('' + '' @ s, g) (''+ '' @ s, g)" using takes_spaces(2) [of "''+ '' @ s" g] by simp
  moreover have "takes (lit ''+'') (''+ '' @ s, g) ('' '' @ s, g)" using takes_lit [of "''+''" "'' '' @ s" g] by simp
  moreover have "takes spaces ('' '' @ s, g) (s, g)" using takes_spaces(2) [of s g] s by simp
  ultimately show ?thesis by (blast intro: takes_Cons takes_one)
qed

section \<open>Optional prices\<close>

definition price_group :: "nat \<Rightarrow> string \<Rightarrow> rx" where
  "price_group i v = seq [spaces, lit ''+'', spaces, lit v, spaces, lit ''*'', spaces, Cap i (some_of number_char)]"

definition word :: "string \<Rightarrow> bool" where
  "word v \<longleftrightarrow> v \<noteq> [] \<and> list_all (\<lambda>c. \<not> space_char c \<and> c \<noteq> CHR ''*'') v"

lemma word_starts: "word v \<Longrightarrow> starts (v @ s)"
  by (cases v) (auto simp: word_def)

lemma group_taken:
  assumes "word v" "list_all number_char w" "w \<noteq> []" "s = [] \<or> \<not> number_char (hd s)"
  shows "takes (price_group i v) ('' + '' @ v @ '' * '' @ w @ s, g) (s, g(i \<mapsto> w))"
proof -
  have "takes (seq [spaces, lit ''+'', spaces]) ('' + '' @ v @ '' * '' @ w @ s, g) (v @ '' * '' @ w @ s, g)"
    by (rule plus_taken [OF word_starts [OF assms(1)]])
  from takes_append [OF this price_taken [OF assms(2-4)]] show ?thesis by (simp add: price_group_def)
qed

lemma word_mismatch:
  assumes "word v" "word v'" "v \<noteq> v'"
  shows "fails (seq (lit v # spaces # lit ''*'' # rs)) (v' @ '' * '' @ z, g)"
proof (cases "prefix v (v' @ '' * '' @ z)")
  case False
  then show ?thesis by (simp add: fails_def lit_run)
next
  case True
  then consider "prefix v v'" | u where "v = v' @ u" "prefix u ('' * '' @ z)" by (metis prefix_append)
  then obtain u where u: "v' = v @ u" "u \<noteq> []"
  proof cases
    case 1
    then obtain u where "v' = v @ u" by (auto simp: prefix_def)
    with assms(3) that show thesis by auto
  next
    case (2 u)
    show thesis
    proof (cases u)
      case (Cons c u')
      with 2 have "CHR '' '' \<in> set v" by simp
      with assms(1) have "\<not> space_char CHR '' ''" unfolding word_def list_all_iff by blast
      then show thesis by simp
    qed (use 2 assms(3) in simp)
  qed
  obtain c u' where c: "u = c # u'" using u(2) by (cases u) auto
  then have "c \<in> set v'" using u(1) by simp
  with assms(2) have nc: "\<not> space_char c" "c \<noteq> CHR ''*''" unfolding word_def list_all_iff by blast+
  have "rx_run spaces (u @ '' * '' @ z, g) = [(u @ '' * '' @ z, g)]" using c nc by (intro spaces_run(1)) simp
  moreover have "fails (lit ''*'') (u @ '' * '' @ z, g)" using c nc by (simp add: fails_def lit_run)
  ultimately show ?thesis using u(1) by (simp add: fails_def lit_run)
qed

lemma group_fails:
  assumes "word v" "s = [] \<or> hd s = CHR '')'' \<or> (\<exists>v' z. s = '' + '' @ v' @ '' * '' @ z \<and> word v' \<and> v' \<noteq> v)"
  shows "fails (price_group i v) (s, g)"
proof (cases "\<exists>v' z. s = '' + '' @ v' @ '' * '' @ z \<and> word v' \<and> v' \<noteq> v")
  case True
  then obtain v' z where s: "s = CHR '' '' # CHR ''+'' # CHR '' '' # v' @ '' * '' @ z" "word v'" "v' \<noteq> v" by auto
  let ?t = "v' @ '' * '' @ z"
  have run: "rx_run spaces (s, g) = [(CHR ''+'' # CHR '' '' # ?t, g), (s, g)]" unfolding s(1) by (rule spaces_run(2)) simp
  have "rx_run spaces (CHR '' '' # ?t, g) = [(?t, g), (CHR '' '' # ?t, g)]" using word_starts [OF s(2)] by (intro spaces_run(2)) simp
  moreover let ?R = "seq (lit v # spaces # lit ''*'' # [spaces, Cap i (some_of number_char)])"
  have "fails ?R (?t, g)" using word_mismatch assms(1) s(2,3) by blast
  moreover have "fails ?R (CHR '' '' # ?t, g)"
    unfolding seq.simps using assms(1) by (intro fails_Seq) (cases v; auto simp: fails_def lit_run word_def)
  ultimately have "fails (Seq spaces ?R) (CHR '' '' # ?t, g)" by - (rule fails_Seq_all, auto)
  then have "fails (Seq (lit ''+'') (Seq spaces ?R)) (CHR ''+'' # CHR '' '' # ?t, g)"
    by - (rule fails_Seq_all, auto simp: lit_run)
  moreover have "fails (Seq (lit ''+'') (Seq spaces ?R)) (s, g)" by (intro fails_Seq) (simp add: fails_def lit_run s(1))
  ultimately have "fails (Seq spaces (Seq (lit ''+'') (Seq spaces ?R))) (s, g)" using run by - (rule fails_Seq_all, auto)
  then show ?thesis by (simp add: price_group_def)
next
  case False
  with assms(2) have "s = [] \<or> hd s = CHR '')''" by blast
  then have "rx_run spaces (s, g) = [(s, g)]" "fails (lit ''+'') (s, g)"
    by (auto intro!: spaces_run(1) simp: fails_def lit_run) (cases s; simp)
  then show ?thesis by (simp add: price_group_def fails_def)
qed

lemma extra_words: "list_all (\<lambda>(f, v). word v) BILLING_CACHE_VAR_MAP" "distinct (map snd BILLING_CACHE_VAR_MAP)" "distinct (map fst BILLING_CACHE_VAR_MAP)"
  by code_simp+

text \<open>The optional prices of a tier as they stand in its text, and the groups they leave.\<close>

definition extra_cost :: "(ExtraCost \<Rightarrow> number option) \<Rightarrow> ExtraCost \<Rightarrow> number" where
  "extra_cost extra f = the (or_zero (Some (extra f)))"

fun extras_text :: "(number \<Rightarrow> string) \<Rightarrow> (ExtraCost \<Rightarrow> number option) \<Rightarrow> (ExtraCost \<times> string) list \<Rightarrow> string" where
  "extras_text show_number extra [] = []"
| "extras_text show_number extra ((f, v) # vars) =
    (if extra_cost extra f \<noteq> 0 then '' + '' @ v @ '' * '' @ show_number (extra_cost extra f) else []) @ extras_text show_number extra vars"

fun extras_groups :: "(number \<Rightarrow> string) \<Rightarrow> (ExtraCost \<Rightarrow> number option) \<Rightarrow> nat \<Rightarrow> (ExtraCost \<times> string) list \<Rightarrow> (nat \<rightharpoonup> string) \<Rightarrow> (nat \<rightharpoonup> string)" where
  "extras_groups show_number extra n [] g = g"
| "extras_groups show_number extra n ((f, v) # vars) g =
    extras_groups show_number extra (Suc n) vars (if extra_cost extra f \<noteq> 0 then g(n \<mapsto> show_number (extra_cost extra f)) else g)"

definition shown :: "(number \<Rightarrow> string) \<Rightarrow> number \<Rightarrow> bool" where
  "shown show_number x \<longleftrightarrow> list_all number_char (show_number x) \<and> show_number x \<noteq> []"

lemma extras_next:
  "extras_text show_number extra vars @ CHR '')'' # s = CHR '')'' # s \<or>
   (\<exists>f v z. (f, v) \<in> set vars \<and> extras_text show_number extra vars @ CHR '')'' # s = '' + '' @ v @ '' * '' @ z)"
proof (induction vars)
  case (Cons fv vars)
  obtain f v where fv: "fv = (f, v)" by (cases fv)
  show ?case
  proof (cases "extra_cost extra f = 0")
    case True
    with Cons fv show ?thesis by auto
  next
    case False
    then have "extras_text show_number extra (fv # vars) @ CHR '')'' # s =
        '' + '' @ v @ '' * '' @ show_number (extra_cost extra f) @ extras_text show_number extra vars @ CHR '')'' # s" by (simp add: fv)
    with fv show ?thesis by (metis list.set_intros(1))
  qed
qed simp

lemma extras_hd: "\<not> number_char (hd (extras_text show_number extra vars @ CHR '')'' # s))"
  using extras_next [of show_number extra vars s] number_facts by (elim disjE exE conjE) (simp_all del: extras_text.simps)

lemma extras_taken:
  assumes "list_all (\<lambda>(f, v). word v) vars" "distinct (map snd vars)" "\<And>f. shown show_number (extra_cost extra f)"
  shows "takes (optional_costs n vars) (extras_text show_number extra vars @ CHR '')'' # s, g) (CHR '')'' # s, extras_groups show_number extra n vars g)"
  using assms(1,2)
proof (induction vars arbitrary: n g)
  case Nil
  then show ?case by (simp add: optional_costs_def takes_Eps)
next
  case (Cons fv vars)
  obtain f v where fv: "fv = (f, v)" by (cases fv)
  let ?t = "extras_text show_number extra vars @ CHR '')'' # s" and ?x = "extra_cost extra f"
  let ?g = "if ?x \<noteq> 0 then g(n \<mapsto> show_number ?x) else g"
  have v: "word v" using Cons.prems fv by simp
  have "takes (Opt (price_group n v)) (extras_text show_number extra (fv # vars) @ CHR '')'' # s, g) (?t, ?g)"
  proof (cases "?x = 0")
    case True
    have "fails (price_group n v) (?t, g)"
    proof (rule group_fails [OF v])
      show "?t = [] \<or> hd ?t = CHR '')'' \<or> (\<exists>v' z. ?t = '' + '' @ v' @ '' * '' @ z \<and> word v' \<and> v' \<noteq> v)"
        using extras_next [of show_number extra vars s]
      proof (elim disjE exE conjE)
        fix f' v' z assume "(f', v') \<in> set vars" "?t = '' + '' @ v' @ '' * '' @ z"
        moreover from this(1) have "word v'" "v' \<in> snd ` set vars" using Cons.prems by (force simp: list_all_iff)+
        moreover have "v \<notin> snd ` set vars" using Cons.prems(2) fv by simp
        ultimately show ?thesis by blast
      next
        assume "?t = CHR '')'' # s"
        then show ?thesis by (simp only: list.sel)  simp
      qed
    qed
    with True fv show ?thesis by (simp add: takes_Opt_skip)
  next
    case False
    have "takes (price_group n v) ('' + '' @ v @ '' * '' @ show_number ?x @ ?t, g) (?t, g(n \<mapsto> show_number ?x))"
      using assms(3) [of f] extras_hd by (intro group_taken [OF v]) (simp_all only: shown_def simp_thms)
    with False fv show ?thesis by (simp add: takes_Opt)
  qed
  moreover have "takes (optional_costs (Suc n) vars) (?t, ?g) (CHR '')'' # s, extras_groups show_number extra (Suc n) vars ?g)"
    using Cons.prems by (intro Cons.IH) auto
  moreover have "optional_costs n (fv # vars) = Seq (Opt (price_group n v)) (optional_costs (Suc n) vars)"
    by (simp add: optional_costs_def fv price_group_def)
  ultimately show ?case using fv by (simp only: takes_Seq extras_groups.simps)
qed

section \<open>Tiers\<close>

definition cost_text :: "(number \<Rightarrow> string) \<Rightarrow> number option \<Rightarrow> string" where
  "cost_text show_number x = show_number (the (or_zero (Some x)))"

definition call_groups :: "(number \<Rightarrow> string) \<Rightarrow> nat \<Rightarrow> string \<Rightarrow> VisualTier \<Rightarrow> (nat \<rightharpoonup> string) \<Rightarrow> (nat \<rightharpoonup> string)" where
  "call_groups show_number n label t g =
    extras_groups show_number (vi_extra t) (n + 3) BILLING_CACHE_VAR_MAP
      (g(n \<mapsto> label, n + 1 \<mapsto> cost_text show_number (vi_input t), n + 2 \<mapsto> cost_text show_number (vi_output t)))"

definition tier_shown :: "(number \<Rightarrow> string) \<Rightarrow> VisualTier \<Rightarrow> bool" where
  "tier_shown show_number t \<longleftrightarrow> shown show_number (the (or_zero (Some (vi_input t)))) \<and> shown show_number (the (or_zero (Some (vi_output t)))) \<and>
    list_all (\<lambda>f. shown show_number (extra_cost (vi_extra t) f)) (map fst BILLING_CACHE_VAR_MAP)"

lemma all_extras: "list_all P (map fst BILLING_CACHE_VAR_MAP) \<Longrightarrow> P f"
  by (cases f) (simp_all add: BILLING_CACHE_VAR_MAP_def)

lemma extra_parts_text:
  "concat (map (\<lambda>p. '' + '' @ p) (extra_parts show_number extra vars)) = extras_text show_number extra vars"
proof (induction vars)
  case (Cons fv vars)
  then show ?case by (cases fv) (simp add: extra_parts_def map_filter_simps extra_cost_def Let_def)
qed (simp add: extra_parts_def map_filter_simps)

lemma join_plus: "join '' + '' (x # ps) = x @ concat (map (\<lambda>p. '' + '' @ p) ps)"
  by (induction ps arbitrary: x) simp_all

lemma body_text:
  "buildTierBodyExpr show_number t = ''p'' @ '' * '' @ cost_text show_number (vi_input t) @ '' + '' @ ''c'' @ '' * '' @ cost_text show_number (vi_output t) @
    extras_text show_number (vi_extra t) BILLING_CACHE_VAR_MAP"
  using extra_parts_text [of show_number "vi_extra t" BILLING_CACHE_VAR_MAP] by (simp add: buildTierBodyExpr_def join_plus cost_text_def)

lemma body_taken:
  assumes "tier_shown show_number t"
  shows "takes (body_pattern n) (buildTierBodyExpr show_number t @ CHR '')'' # s, g) (CHR '')'' # s,
    extras_groups show_number (vi_extra t) (n + 2) BILLING_CACHE_VAR_MAP (g(n \<mapsto> cost_text show_number (vi_input t), n + 1 \<mapsto> cost_text show_number (vi_output t))))"
proof -
  let ?i = "cost_text show_number (vi_input t)" and ?o = "cost_text show_number (vi_output t)"
  let ?e = "extras_text show_number (vi_extra t) BILLING_CACHE_VAR_MAP @ CHR '')'' # s"
  let ?g = "g(n \<mapsto> ?i)" let ?g' = "g(n \<mapsto> ?i, n + 1 \<mapsto> ?o)"
  have io: "list_all number_char ?i" "?i \<noteq> []" "list_all number_char ?o" "?o \<noteq> []"
    using assms by (simp_all add: tier_shown_def shown_def cost_text_def)
  have "takes (seq [lit ''p'', spaces, lit ''*'', spaces, Cap n (some_of number_char)]) (''p'' @ '' * '' @ ?i @ '' + '' @ ''c'' @ '' * '' @ ?o @ ?e, g)
      ('' + '' @ ''c'' @ '' * '' @ ?o @ ?e, ?g)"
    by (rule price_taken [OF io(1,2)]) simp
  moreover have "takes (seq [spaces, lit ''+'', spaces]) ('' + '' @ ''c'' @ '' * '' @ ?o @ ?e, ?g) (''c'' @ '' * '' @ ?o @ ?e, ?g)"
    by (rule plus_taken) simp
  moreover have "takes (seq [lit ''c'', spaces, lit ''*'', spaces, Cap (n + 1) (some_of number_char)]) (''c'' @ '' * '' @ ?o @ ?e, ?g) (?e, ?g')"
    by (rule price_taken [OF io(3,4)]) (use extras_hd in blast)
  moreover have "takes (seq [optional_costs (n + 2) BILLING_CACHE_VAR_MAP]) (?e, ?g') (CHR '')'' # s, extras_groups show_number (vi_extra t) (n + 2) BILLING_CACHE_VAR_MAP ?g')"
    using assms by (intro takes_one extras_taken extra_words) (auto simp: tier_shown_def intro: all_extras)
  ultimately have "takes (seq ([lit ''p'', spaces, lit ''*'', spaces, Cap n (some_of number_char)] @ [spaces, lit ''+'', spaces] @
      [lit ''c'', spaces, lit ''*'', spaces, Cap (n + 1) (some_of number_char)] @ [optional_costs (n + 2) BILLING_CACHE_VAR_MAP]))
      (''p'' @ '' * '' @ ?i @ '' + '' @ ''c'' @ '' * '' @ ?o @ ?e, g) (CHR '')'' # s, extras_groups show_number (vi_extra t) (n + 2) BILLING_CACHE_VAR_MAP ?g')"
    by (intro takes_append)
  then show ?thesis by (simp add: body_pattern_def body_text)
qed

lemma call_taken:
  assumes "tier_shown show_number t" "quote_char \<notin> set label"
  shows "takes (call_pattern n) (tier_call show_number label t @ s, g) (s, call_groups show_number n label t g)"
proof -
  let ?b = "buildTierBodyExpr show_number t @ '')'' @ s"
  let ?g = "g(n \<mapsto> label)"
  have "takes (lit (''tier('' @ [quote_char])) ((''tier('' @ [quote_char]) @ label @ [quote_char, CHR '',''] @ '' '' @ ?b, g) (label @ [quote_char, CHR '',''] @ '' '' @ ?b, g)"
    by (rule takes_lit)
  moreover have "takes (Cap n (Many (Chr (\<lambda>c. c \<noteq> quote_char)))) (label @ [quote_char, CHR '',''] @ '' '' @ ?b, g) ([quote_char, CHR '',''] @ '' '' @ ?b, ?g)"
    using assms(2) by (intro takes_Cap greedy) (auto simp: list_all_iff)
  moreover have "takes (lit [quote_char, CHR '','']) ([quote_char, CHR '',''] @ '' '' @ ?b, ?g) ('' '' @ ?b, ?g)" by (rule takes_lit)
  moreover have "takes spaces ('' '' @ ?b, ?g) (?b, ?g)" using takes_spaces(2) [of ?b ?g] by (simp add: body_text)
  moreover have "takes (body_pattern (n + 1)) (?b, ?g) ('')'' @ s, call_groups show_number n label t g)"
    using body_taken [OF assms(1), of "n + 1" s ?g] by (simp add: call_groups_def numeral_3_eq_3)
  moreover have "takes (lit '')'') ('')'' @ s, call_groups show_number n label t g) (s, call_groups show_number n label t g)" by (rule takes_lit)
  ultimately have "takes (call_pattern n) ((''tier('' @ [quote_char]) @ label @ [quote_char, CHR '',''] @ '' '' @ ?b, g) (s, call_groups show_number n label t g)"
    unfolding call_pattern_def by (blast intro: takes_Cons takes_one)
  then show ?thesis by (simp add: tier_call_def)
qed

section \<open>Reading a match\<close>

lemma number_law_shown: "number_law show_number x \<Longrightarrow> shown show_number x"
  using numeric_number_char by (auto simp: number_law_def shown_def)

lemma numeric_not_plus: "\<not> isNumericLiteral (CHR ''+'' # r)"
  by (simp add: isNumericLiteral_def mantissa_ok_def is_digit_def char_digit_def)

lemma number_law_Number: "number_law show_number x \<Longrightarrow> js_Number (show_number x) = Some x"
  using numeric_number_char(2) numeric_not_plus by (auto simp: number_law_def js_Number_def split: list.split)

definition tier_laws :: "(number \<Rightarrow> string) \<Rightarrow> VisualTier \<Rightarrow> bool" where
  "tier_laws show_number t \<longleftrightarrow> vi_input t \<noteq> None \<and> vi_output t \<noteq> None \<and> number_law show_number (the (vi_input t)) \<and> number_law show_number (the (vi_output t)) \<and>
    list_all (\<lambda>f. vi_extra t f \<noteq> None \<and> number_law show_number (the (vi_extra t f))) (map fst BILLING_CACHE_VAR_MAP) \<and>
    vi_cache_mode t = (if the (vi_extra t CacheCreate1h) > 0 then CACHE_MODE_TIMED else CACHE_MODE_GENERIC)"

lemma or_zero_Some: "or_zero (Some (Some x)) = Some x"
  by (simp add: or_zero_def)

lemma tier_laws_cost: "tier_laws show_number t \<Longrightarrow> \<exists>x. vi_extra t f = Some x \<and> extra_cost (vi_extra t) f = x \<and> number_law show_number x"
  using all_extras [of "\<lambda>f. vi_extra t f \<noteq> None \<and> number_law show_number (the (vi_extra t f))" f]
  by (auto simp: tier_laws_def extra_cost_def or_zero_Some)

lemma tier_laws_shown: "tier_laws show_number t \<Longrightarrow> tier_shown show_number t"
  using tier_laws_cost [of show_number t] number_law_shown
  by (auto simp: tier_laws_def tier_shown_def or_zero_Some list_all_iff)

lemma call_read:
  assumes "tier_laws show_number t" "\<And>i. i \<ge> n \<Longrightarrow> g i = None"
  shows "normalizeVisualTier (matched_costs n (call_groups show_number n label t g) cs) = t\<lparr>vi_label := label, vi_conditions := cs\<rparr>"
proof -
  define G where "G = call_groups show_number n label t g"
  obtain i out where io: "vi_input t = Some i" "vi_output t = Some out" "number_law show_number i" "number_law show_number out"
    using assms(1) by (auto simp: tier_laws_def)
  have G: "G n = Some label" "G (n + 1) = Some (show_number i)" "G (n + 2) = Some (show_number out)"
    by (simp_all add: G_def call_groups_def BILLING_CACHE_VAR_MAP_def cost_text_def io or_zero_Some)
  have extra: "or_zero (pa_extra (matched_costs n G cs) f) = vi_extra t f" for f
  proof -
    obtain x where x: "vi_extra t f = Some x" "extra_cost (vi_extra t) f = x" "number_law show_number x" using tier_laws_cost [OF assms(1)] by blast
    have "pa_extra (matched_costs n G cs) f = (if x \<noteq> 0 then Some (js_Number (show_number x)) else None)"
      using x(2) assms(2) by (cases f) (simp_all add: matched_costs_def G_def call_groups_def BILLING_CACHE_VAR_MAP_def)
    with x number_law_Number [OF x(3)] show ?thesis by (simp add: or_zero_def)
  qed
  have "pa_extra (matched_costs n G cs) CacheCreate1h = None \<and> the (vi_extra t CacheCreate1h) = 0 \<or>
      pa_extra (matched_costs n G cs) CacheCreate1h = Some (vi_extra t CacheCreate1h) \<and> vi_extra t CacheCreate1h \<noteq> None"
  proof -
    obtain x where x: "vi_extra t CacheCreate1h = Some x" "extra_cost (vi_extra t) CacheCreate1h = x" "number_law show_number x"
      using tier_laws_cost [OF assms(1)] by blast
    then show ?thesis using assms(2) number_law_Number [OF x(3)]
      by (simp add: matched_costs_def G_def call_groups_def BILLING_CACHE_VAR_MAP_def)
  qed
  then have "getTierCacheMode (matched_costs n G cs) = vi_cache_mode t"
    using assms(1) by (auto simp: getTierCacheMode_def tier_laws_def matched_costs_def)
  moreover have "pa_cache_mode (matched_costs n G cs) = None" by (simp add: matched_costs_def)
  ultimately show ?thesis
    unfolding G_def [symmetric] using G io number_law_Number
    by (simp add: normalizeVisualTier_def extra) (simp add: matched_costs_def nullish_def io)
qed

section \<open>Conditions\<close>

definition bound_text :: "(number \<Rightarrow> string) \<Rightarrow> TierConditionInput \<Rightarrow> string" where
  "bound_text show_number c = tc_var c @ '' '' @ tc_op c @ '' '' @ value_text show_number (tc_value c)"

definition bound_ok :: "(number \<Rightarrow> string) \<Rightarrow> TierConditionInput \<Rightarrow> bool" where
  "bound_ok show_number c \<longleftrightarrow> tc_var c \<in> {''p'', ''c'', ''len''} \<and> tc_op c \<in> {''<'', ''<='', ''>'', ''>=''} \<and>
    (case tc_value c of NumValue (Some x) \<Rightarrow> number_law show_number x \<and> CHR ''-'' \<notin> set (show_number x) | _ \<Rightarrow> False)"

lemma var_taken: "v \<in> {''p'', ''c'', ''len''} \<Longrightarrow> takes var_pattern (v @ '' '' @ s, g) ('' '' @ s, g)"
  by (auto simp: var_pattern_def takes_def lit_run)

lemma op_starts: "op \<in> {''<'', ''<='', ''>'', ''>=''} \<Longrightarrow> starts (op @ s)"
proof -
  assume "op \<in> {''<'', ''<='', ''>'', ''>=''}"
  moreover have "\<not> space_char CHR ''<''" "\<not> space_char CHR ''>''" by code_simp+
  ultimately show ?thesis by auto
qed

lemma fails_Cap: "fails r x \<Longrightarrow> fails (Cap n r) x"
  by (simp add: fails_def)

lemma bound_l: "\<not> space_char CHR ''l''"
  by code_simp

lemma bound_value:
  assumes "bound_ok show_number c"
  obtains x where "tc_value c = NumValue (Some x)" "number_law show_number x" "list_all bound_char (show_number x)" "show_number x \<noteq> []"
proof -
  obtain x where x: "tc_value c = NumValue (Some x)" "number_law show_number x" "CHR ''-'' \<notin> set (show_number x)"
    using assms by (auto simp: bound_ok_def split: cond_value.splits option.splits)
  have "list_all bound_char (show_number x)" "show_number x \<noteq> []"
    using number_law_shown [OF x(2)] x(3) unfolding shown_def list_all_iff bound_char_def by blast+
  with x that show thesis by blast
qed

lemma bound_trimmed: "bound_ok show_number c \<Longrightarrow> trimmed (bound_text show_number c)"
proof -
  assume ok: "bound_ok show_number c"
  obtain x where x: "tc_value c = NumValue (Some x)" "list_all bound_char (show_number x)" "show_number x \<noteq> []"
    using bound_value [OF ok] .
  then have "bound_char (last (show_number x))" by (simp add: list_all_iff)
  then have "\<not> space_char (last (show_number x))" using number_char_plain by (simp add: bound_char_def)
  moreover have "starts (tc_var c @ s)" for s
    using ok space_facts(8,9) bound_l by (auto simp: bound_ok_def)
  ultimately show ?thesis using x by (simp add: bound_text_def trimmed_def)
qed

lemma op_taken:
  assumes "rx_run A (op @ '' '' @ s, g) = (if length op = 2 then [(CHR ''='' # '' '' @ s, h)] else []) @ [('' '' @ s, g')]"
    and "takes (seq (spaces # R # rs)) ('' '' @ s, g') z" "\<And>t. fails R (CHR ''='' # t, h)"
  shows "takes (seq (A # spaces # R # rs)) (op @ '' '' @ s, g) z"
proof -
  have "rx_run spaces (CHR ''='' # t, h) = [(CHR ''='' # t, h)]" for t by (rule spaces_run(1)) simp
  moreover have "fails (seq (R # rs)) (CHR ''='' # t, h)" for t using assms(3) by (simp add: fails_Seq)
  ultimately have eq: "fails (seq (spaces # R # rs)) (CHR ''='' # t, h)" for t by (simp add: fails_def)
  have "\<forall>y \<in> set (if length op = 2 then [(CHR ''='' # '' '' @ s, h)] else []). fails (seq (spaces # R # rs)) y" using eq by simp
  from takes_Seq_later [OF assms(1) this assms(2)] show ?thesis by simp
qed

lemma op_run:
  assumes "op \<in> {''<'', ''<='', ''>'', ''>=''}"
  shows "rx_run op_pattern (op @ '' '' @ s, g) = (if length op = 2 then [(CHR ''='' # '' '' @ s, g)] else []) @ [('' '' @ s, g)]"
    and "rx_run (Cap n op_pattern) (op @ '' '' @ s, g) =
      (if length op = 2 then [(CHR ''='' # '' '' @ s, g(n \<mapsto> take 1 op))] else []) @ [('' '' @ s, g(n \<mapsto> op))]"
  using assms by (auto simp: op_pattern_def lit_run)

lemma bound_starts: "list_all bound_char w \<Longrightarrow> w \<noteq> [] \<Longrightarrow> starts (w @ s)"
proof (rule number_starts)
  assume "list_all bound_char w"
  then show "list_all number_char w" by (rule list.pred_mono_strong) (simp add: bound_char_def)
qed

lemma bound_taken:
  assumes "bound_ok show_number c" "s = [] \<or> \<not> bound_char (hd s)"
  shows "takes bound_pattern (bound_text show_number c @ s, g) (s, g)"
proof -
  obtain x where x: "tc_value c = NumValue (Some x)" "list_all bound_char (show_number x)" "show_number x \<noteq> []"
    using bound_value [OF assms(1)] .
  let ?w = "show_number x @ s"
  have ok: "tc_var c \<in> {''p'', ''c'', ''len''}" "tc_op c \<in> {''<'', ''<='', ''>'', ''>=''}" using assms(1) by (simp_all add: bound_ok_def)
  note st = bound_starts [OF x(2,3), of s]
  have "takes spaces ('' '' @ ?w, g) (?w, g)" using takes_spaces(2) [of ?w g] st by simp
  moreover have "takes (some_of bound_char) (?w, g) (s, g)" by (rule some_greedy [OF x(2,3) assms(2)])
  ultimately have "takes (seq (spaces # some_of bound_char # [])) ('' '' @ ?w, g) (s, g)" by (blast intro: takes_Cons takes_one)
  then have "takes (seq (op_pattern # spaces # some_of bound_char # [])) (tc_op c @ '' '' @ ?w, g) (s, g)"
    by (rule op_taken [OF op_run(1) [OF ok(2)]]) (simp add: fails_some_of)
  moreover have "takes spaces ('' '' @ tc_op c @ '' '' @ ?w, g) (tc_op c @ '' '' @ ?w, g)"
    using takes_spaces(2) [of "tc_op c @ '' '' @ ?w" g] op_starts [OF ok(2)] by simp
  moreover have "takes var_pattern (tc_var c @ '' '' @ tc_op c @ '' '' @ ?w, g) ('' '' @ tc_op c @ '' '' @ ?w, g)" by (rule var_taken [OF ok(1)])
  ultimately have "takes bound_pattern (tc_var c @ '' '' @ tc_op c @ '' '' @ ?w, g) (s, g)"
    unfolding bound_pattern_def by (blast intro: takes_Cons)
  then show ?thesis by (simp add: bound_text_def x(1))
qed

lemma bound_parsed:
  assumes "bound_ok show_number c"
  shows "parse_bound (bound_text show_number c) = Some c"
proof -
  obtain x where x: "tc_value c = NumValue (Some x)" "number_law show_number x" "list_all bound_char (show_number x)" "show_number x \<noteq> []"
    using bound_value [OF assms] .
  let ?w = "show_number x" and ?v = "tc_var c" and ?op = "tc_op c"
  have ok: "?v \<in> {''p'', ''c'', ''len''}" "?op \<in> {''<'', ''<='', ''>'', ''>=''}" using assms(1) by (simp_all add: bound_ok_def)
  have st: "starts ?w" using bound_starts [OF x(3,4), of "[]"] by simp
  let ?g1 = "[1 \<mapsto> ?v]" let ?g2 = "?g1(2 \<mapsto> ?op)" let ?g3 = "?g2(3 \<mapsto> ?w)"
  have "takes spaces ('' '' @ ?w, ?g2) (?w, ?g2)" using takes_spaces(2) [of ?w ?g2] st by simp
  moreover have "takes (Cap 3 (some_of bound_char)) (?w, ?g2) ([], ?g3)"
    using some_greedy [OF x(3,4), of "[]" ?g2] by (intro takes_Cap) simp_all
  ultimately have "takes (seq (spaces # Cap 3 (some_of bound_char) # [End])) ('' '' @ ?w, ?g2) ([], ?g3)"
    by (blast intro: takes_Cons takes_one takes_End)
  then have "takes (seq (Cap 2 op_pattern # spaces # Cap 3 (some_of bound_char) # [End])) (?op @ '' '' @ ?w, ?g1) ([], ?g3)"
    by (rule op_taken [OF op_run(2) [OF ok(2)]]) (simp add: fails_some_of fails_Cap)
  moreover have "takes spaces ('' '' @ ?op @ '' '' @ ?w, ?g1) (?op @ '' '' @ ?w, ?g1)"
    using takes_spaces(2) [of "?op @ '' '' @ ?w" ?g1] op_starts [OF ok(2)] by simp
  moreover have "takes (Cap 1 var_pattern) (?v @ '' '' @ ?op @ '' '' @ ?w, Map.empty) ('' '' @ ?op @ '' '' @ ?w, ?g1)"
    by (rule takes_Cap [OF var_taken [OF ok(1)]]) simp
  ultimately have "takes (seq [Cap 1 var_pattern, spaces, Cap 2 op_pattern, spaces, Cap 3 (some_of bound_char), End])
      (?v @ '' '' @ ?op @ '' '' @ ?w, Map.empty) ([], ?g3)" by (blast intro: takes_Cons)
  from rx_firstI [OF this] have f: "rx_first (seq [Cap 1 var_pattern, spaces, Cap 2 op_pattern, spaces, Cap 3 (some_of bound_char), End])
      (bound_text show_number c) = Some ([], ?g3)" by (simp only: bound_text_def x(1) value_text.simps)
  have "trimmed (bound_text show_number c)" using bound_trimmed [OF assms] .
  from trim_trimmed [OF this] show ?thesis
    unfolding parse_bound_def using f x(1) number_law_Number [OF x(2)] by simp
qed

section \<open>Groups of conditions\<close>

abbreviation and_group :: rx where
  "and_group \<equiv> seq [spaces, lit ''&&'', spaces, bound_pattern]"

definition ands_text :: "(number \<Rightarrow> string) \<Rightarrow> TierConditionInput list \<Rightarrow> string" where
  "ands_text show_number cs = concat (map (\<lambda>c. '' && '' @ bound_text show_number c) cs)"

lemma bound_text_starts: "bound_ok show_number c \<Longrightarrow> starts (bound_text show_number c @ s)"
  using bound_trimmed [of show_number c] by (cases "bound_text show_number c") (simp_all add: trimmed_def)

lemma and_taken:
  assumes "bound_ok show_number c" "s = [] \<or> \<not> bound_char (hd s)"
  shows "takes and_group ('' && '' @ bound_text show_number c @ s, g) (s, g)"
proof -
  let ?b = "bound_text show_number c @ s"
  have "takes spaces ('' && '' @ ?b, g) (''&& '' @ ?b, g)" using takes_spaces(2) [of "''&& '' @ ?b" g] by simp
  moreover have "takes (lit ''&&'') (''&& '' @ ?b, g) ('' '' @ ?b, g)" using takes_lit [of "''&&''" "'' '' @ ?b" g] by simp
  moreover have "takes spaces ('' '' @ ?b, g) (?b, g)" using takes_spaces(2) [of ?b g] bound_text_starts [OF assms(1)] by simp
  moreover have "takes bound_pattern (?b, g) (s, g)" by (rule bound_taken [OF assms])
  ultimately show ?thesis by (blast intro: takes_Cons takes_one)
qed

lemma and_stops: "fails and_group ('' ? '' @ s, g)"
proof -
  have "rx_run spaces ('' ? '' @ s, g) = [(''? '' @ s, g), ('' ? '' @ s, g)]" using spaces_run(2) [of "''? '' @ s" g] by simp
  then show ?thesis by (simp add: fails_def lit_run)
qed

lemma ands_taken:
  assumes "list_all (bound_ok show_number) cs"
  shows "takes (Many and_group) (ands_text show_number cs @ '' ? '' @ s, g) ('' ? '' @ s, g)"
  using assms
proof (induction cs)
  case Nil
  then show ?case using takes_Many_stop [OF and_stops] by (simp add: ands_text_def)
next
  case (Cons c cs)
  let ?t = "ands_text show_number cs @ '' ? '' @ s"
  have "?t = [] \<or> \<not> bound_char (hd ?t)" by (cases cs) (simp_all add: ands_text_def)
  then have "takes and_group ('' && '' @ bound_text show_number c @ ?t, g) (?t, g)" using Cons.prems by (intro and_taken) auto
  then have "takes (Many and_group) ('' && '' @ bound_text show_number c @ ?t, g) ('' ? '' @ s, g)"
    by (rule takes_Many) (use Cons in auto)
  then show ?case by (simp add: ands_text_def)
qed

definition conditions_text :: "(number \<Rightarrow> string) \<Rightarrow> TierConditionInput list \<Rightarrow> string" where
  "conditions_text show_number cs = join '' && '' (map (bound_text show_number) cs)"

lemma join_ands: "join '' && '' (map (bound_text show_number) (c # cs)) = bound_text show_number c @ ands_text show_number cs"
  by (induction cs arbitrary: c) (simp_all add: ands_text_def)

lemma conditions_taken:
  assumes "list_all (bound_ok show_number) cs" "cs \<noteq> []"
  shows "takes cond_group (conditions_text show_number cs @ '' ? '' @ s, g) ('' ? '' @ s, g(1 \<mapsto> conditions_text show_number cs))"
proof -
  obtain c cs' where cs: "cs = c # cs'" using assms(2) by (cases cs) auto
  let ?t = "ands_text show_number cs' @ '' ? '' @ s"
  have "?t = [] \<or> \<not> bound_char (hd ?t)" by (cases cs') (simp_all add: ands_text_def)
  then have "takes bound_pattern (bound_text show_number c @ ?t, g) (?t, g)" using assms(1) cs by (intro bound_taken) auto
  moreover have "takes (Many and_group) (?t, g) ('' ? '' @ s, g)" using assms(1) cs by (intro ands_taken) auto
  ultimately have "takes (Seq bound_pattern (Many and_group)) (bound_text show_number c @ ?t, g) ('' ? '' @ s, g)" by (rule takes_Seq)
  moreover have "bound_text show_number c @ ?t = conditions_text show_number cs @ '' ? '' @ s"
    unfolding conditions_text_def cs join_ands by simp
  ultimately have "takes (Seq bound_pattern (Many and_group)) (conditions_text show_number cs @ '' ? '' @ s, g) ('' ? '' @ s, g)" by (simp only:)
  then show ?thesis unfolding cond_group_def by (rule takes_Cap) simp
qed

lemma bound_fails: "s = [] \<or> hd s \<notin> {CHR ''p'', CHR ''c'', CHR ''l''} \<Longrightarrow> fails bound_pattern (s, g)"
  unfolding bound_pattern_def seq.simps by (rule fails_Seq) (cases s; auto simp: var_pattern_def fails_def lit_run)

lemma condition_skipped:
  "s = [] \<or> hd s \<notin> {CHR ''p'', CHR ''c'', CHR ''l''} \<Longrightarrow> takes (Opt (seq [cond_group, spaces, lit ''?'', spaces])) (s, g) (s, g)"
  unfolding cond_group_def seq.simps by (intro takes_Opt_skip fails_Seq fails_Cap bound_fails)

section \<open>Splitting conditions\<close>

lemma amp_fails: "s = [] \<or> hd s \<noteq> CHR ''&'' \<Longrightarrow> starts s \<Longrightarrow> rx_first and_pattern s = None"
proof -
  assume s: "s = [] \<or> hd s \<noteq> CHR ''&''" "starts s"
  then have "rx_run spaces (s, Map.empty) = [(s, Map.empty)]" by (intro spaces_run(1)) simp
  moreover have "\<not> prefix ''&&'' s" using s by (cases s) auto
  ultimately have "fails and_pattern (s, Map.empty)" by (simp add: fails_def lit_run and_pattern_def)
  then show ?thesis by (rule rx_first_None)
qed

lemma amp_fails_space:
  assumes "starts s" "hd s \<noteq> CHR ''&''"
  shows "rx_first and_pattern (CHR '' '' # s) = None"
proof -
  have "rx_run spaces (CHR '' '' # s, Map.empty) = [(s, Map.empty), (CHR '' '' # s, Map.empty)]" using assms by (intro spaces_run(2)) simp
  moreover have "\<not> prefix ''&&'' s" "\<not> prefix ''&&'' (CHR '' '' # s)" using assms by (cases s; auto)+
  ultimately have "fails and_pattern (CHR '' '' # s, Map.empty)" by (simp add: fails_def lit_run and_pattern_def)
  then show ?thesis by (rule rx_first_None)
qed

definition inner_text :: "string \<Rightarrow> bool" where
  "inner_text w \<longleftrightarrow> w \<noteq> [] \<and> list_all (\<lambda>c. \<not> space_char c \<and> c \<noteq> CHR ''&'') w"

lemma split_word: "list_all (\<lambda>c. \<not> space_char c \<and> c \<noteq> CHR ''&'') w \<Longrightarrow>
  rx_split and_pattern cur (w @ s) = rx_split and_pattern (cur @ w) s"
proof (induction w arbitrary: cur)
  case (Cons c w)
  then have "rx_first and_pattern (c # w @ s) = None" by (intro amp_fails) auto
  with Cons show ?case by (subst rx_split.simps) simp
qed simp

lemma split_space: "inner_text w \<Longrightarrow>
  rx_split and_pattern cur ('' '' @ w @ s) = rx_split and_pattern (cur @ '' '' @ w) s"
proof -
  assume w: "inner_text w"
  then have "rx_first and_pattern (CHR '' '' # w @ s) = None"
    by (intro amp_fails_space) (cases w; simp add: inner_text_def)+
  then have "rx_split and_pattern cur ('' '' @ w @ s) = rx_split and_pattern (cur @ '' '') (w @ s)"
    by (subst rx_split.simps) simp
  with w split_word [of w "cur @ '' ''" s] show ?thesis by (simp add: inner_text_def)
qed

lemma split_amp:
  assumes "starts s"
  shows "rx_split and_pattern cur ('' && '' @ s) = cur # rx_split and_pattern [] s"
proof -
  have "takes spaces ('' && '' @ s, Map.empty) (''&& '' @ s, Map.empty)" using takes_spaces(2) [of "''&& '' @ s"] by simp
  moreover have "takes (lit ''&&'') (''&& '' @ s, Map.empty) ('' '' @ s, Map.empty)" using takes_lit [of "''&&''" "'' '' @ s"] by simp
  moreover have "takes spaces ('' '' @ s, Map.empty) (s, Map.empty)" using takes_spaces(2) [of s] assms by simp
  ultimately have "rx_first and_pattern ('' && '' @ s) = Some (s, Map.empty)"
    unfolding and_pattern_def by (blast intro: takes_Cons takes_one rx_firstI)
  then show ?thesis by (subst rx_split.simps) simp
qed

lemma split_bound:
  assumes "bound_ok show_number c"
  shows "rx_split and_pattern [] (bound_text show_number c @ s) = rx_split and_pattern (bound_text show_number c) s"
proof -
  obtain x where x: "tc_value c = NumValue (Some x)" "list_all bound_char (show_number x)" "show_number x \<noteq> []"
    using bound_value [OF assms(1)] .
  have ok: "tc_var c \<in> {''p'', ''c'', ''len''}" "tc_op c \<in> {''<'', ''<='', ''>'', ''>=''}" using assms(1) by (simp_all add: bound_ok_def)
  have words: "list_all (inner_text) [''p'', ''c'', ''len'', ''<'', ''<='', ''>'', ''>='']" by code_simp
  then have v: "inner_text (tc_var c)" "inner_text (tc_op c)" using ok by (auto simp only: list.pred_inject insert_iff empty_iff)
  have "\<not> space_char d \<and> d \<noteq> CHR ''&''" if "bound_char d" for d
    using that number_char_plain [of d] by (auto simp: bound_char_def)
  then have w: "inner_text (show_number x)" using x(2,3) unfolding inner_text_def list_all_iff by blast
  show ?thesis
    unfolding bound_text_def x(1) value_text.simps append_assoc
    using split_word [of "tc_var c" "[]"] v(1) split_space [OF v(2)] split_space [OF w]
    by (simp only: inner_text_def append_assoc append_Nil)
qed

lemma conditions_split:
  assumes "list_all (bound_ok show_number) cs" "cs \<noteq> []"
  shows "rx_split and_pattern [] (conditions_text show_number cs) = map (bound_text show_number) cs"
  using assms
proof (induction cs rule: induct_list012)
  case (2 c)
  then have "rx_split and_pattern [] (bound_text show_number c @ []) = rx_split and_pattern (bound_text show_number c) []"
    by (intro split_bound) simp
  moreover have "rx_split r cur [] = [cur]" for r cur by (subst rx_split.simps) simp
  ultimately show ?case by (simp add: conditions_text_def)
next
  case (3 c c' cs)
  let ?t = "conditions_text show_number (c' # cs)"
  have "starts ?t" unfolding conditions_text_def join_ands using 3(3) bound_text_starts [of show_number c' "ands_text show_number cs"] by simp
  with 3 split_bound [of show_number c "'' && '' @ ?t"] split_amp [of ?t "bound_text show_number c"] show ?case
    by (simp add: conditions_text_def)
qed simp

lemma bounds_parsed:
  assumes "list_all (bound_ok show_number) cs" "cs \<noteq> []"
  shows "parse_bounds (Some (conditions_text show_number cs)) = cs"
proof -
  have "List.map_filter parse_bound (map (bound_text show_number) cs) = cs"
    using assms(1) by (induction cs) (simp_all add: map_filter_simps bound_parsed)
  moreover have "conditions_text show_number cs \<noteq> []"
    using assms bound_text_starts [of show_number "hd cs" "[]"] by (cases cs) (simp_all add: conditions_text_def join_ands del: list.map)
  ultimately show ?thesis by (simp add: parse_bounds_def conditions_split [OF assms])
qed

end
