(* ===== verification/Tier_Roundtrip.thy ===== *)
theory Tier_Roundtrip
  imports Tier_Matching
begin

text \<open>
  The round trip of tier expressions: what \<open>generateExprFromVisualConfig\<close> writes for a list of tiers is read by
  \<open>tryParseVisualConfig\<close> as the same list.
\<close>

section \<open>Tiers with their conditions\<close>

definition visual_ok :: "(number \<Rightarrow> string) \<Rightarrow> VisualTier \<Rightarrow> bool" where
  "visual_ok show_number t \<longleftrightarrow> tier_laws show_number t \<and> vi_label t \<noteq> [] \<and> quote_char \<notin> set (vi_label t) \<and> list_all (bound_ok show_number) (vi_conditions t)"

definition piece :: "(number \<Rightarrow> string) \<Rightarrow> VisualTier \<Rightarrow> string" where
  "piece show_number t =
    (if vi_conditions t = [] then [] else conditions_text show_number (vi_conditions t) @ '' ? '') @ tier_call show_number (vi_label t) t"

definition piece_groups :: "(number \<Rightarrow> string) \<Rightarrow> VisualTier \<Rightarrow> (nat \<rightharpoonup> string)" where
  "piece_groups show_number t =
    call_groups show_number 2 (vi_label t) t
      (if vi_conditions t = [] then Map.empty else [1 \<mapsto> conditions_text show_number (vi_conditions t)])"

lemma call_starts: "tier_call show_number label t @ s = CHR ''t'' # tl (tier_call show_number label t @ s)"
  by (simp add: tier_call_def)

lemma question_taken:
  "starts s \<Longrightarrow> takes (seq [spaces, lit ''?'', spaces]) ('' ? '' @ s, g) (s, g)"
proof -
  assume s: "starts s"
  have "takes spaces ('' ? '' @ s, g) (''? '' @ s, g)" using takes_spaces(2) [of "''? '' @ s" g] by simp
  moreover have "takes (lit ''?'') (''? '' @ s, g) ('' '' @ s, g)" using takes_lit [of "''?''" "'' '' @ s" g] by simp
  moreover have "takes spaces ('' '' @ s, g) (s, g)" using takes_spaces(2) [of s g] s by simp
  ultimately show ?thesis by (blast intro: takes_Cons takes_one)
qed

lemma piece_condition:
  assumes "list_all (bound_ok show_number) (vi_conditions t)"
    and "takes call (tier_call show_number (vi_label t) t @ s,
      if vi_conditions t = [] then Map.empty else [1 \<mapsto> conditions_text show_number (vi_conditions t)]) y"
  shows "takes (Seq (Opt (seq [cond_group, spaces, lit ''?'', spaces])) call) (piece show_number t @ s, Map.empty) y"
proof -
  let ?c = "tier_call show_number (vi_label t) t @ s"
  have st: "starts ?c" by (simp add: tier_call_def)
  show ?thesis
  proof (cases "vi_conditions t = []")
    case True
    have "takes (Opt (seq [cond_group, spaces, lit ''?'', spaces])) (?c, Map.empty) (?c, Map.empty)"
      by (rule condition_skipped) (simp add: tier_call_def)
    from takes_Seq [OF this] show ?thesis using True assms(2) by (simp add: piece_def)
  next
    case False
    let ?g = "[1 \<mapsto> conditions_text show_number (vi_conditions t)]"
    have "takes (seq [cond_group, spaces, lit ''?'', spaces]) (conditions_text show_number (vi_conditions t) @ '' ? '' @ ?c, Map.empty) (?c, ?g)"
      by (rule takes_Cons [OF conditions_taken [OF assms(1) False] question_taken [OF st]])
    from takes_Seq [OF takes_Opt [OF this]] show ?thesis using False assms(2) by (simp add: piece_def)
  qed
qed

lemma piece_taken:
  assumes "visual_ok show_number t"
  shows "takes tier_pattern (piece show_number t @ s, Map.empty) (s, piece_groups show_number t)"
  unfolding tier_pattern_def piece_groups_def using assms tier_laws_shown [of show_number t]
  by (intro piece_condition call_taken) (auto simp: visual_ok_def)

lemma piece_read:
  assumes "visual_ok show_number t"
  shows "normalizeVisualTier (matched_costs 2 (piece_groups show_number t) (parse_bounds (piece_groups show_number t 1))) = t"
proof -
  have "piece_groups show_number t 1 = (if vi_conditions t = [] then None else Some (conditions_text show_number (vi_conditions t)))"
    by (simp add: piece_groups_def call_groups_def BILLING_CACHE_VAR_MAP_def)
  then have "parse_bounds (piece_groups show_number t 1) = vi_conditions t"
    using assms bounds_parsed [of show_number "vi_conditions t"] by (auto simp: visual_ok_def parse_bounds_def)
  with call_read [of show_number t 2 "if vi_conditions t = [] then Map.empty else [1 \<mapsto> conditions_text show_number (vi_conditions t)]" "vi_label t"] assms
  show ?thesis by (simp add: piece_groups_def visual_ok_def)
qed

section \<open>Chains\<close>

lemma fails_Opt_Seq: "fails a x \<Longrightarrow> fails b x \<Longrightarrow> fails (Seq (Opt a) b) x"
  by (simp add: fails_def)

lemma tier_pattern_fails:
  assumes "s = [] \<or> hd s \<notin> {CHR ''p'', CHR ''c'', CHR ''l'', CHR ''t''}"
  shows "fails tier_pattern (s, g)"
proof -
  have "fails (seq [cond_group, spaces, lit ''?'', spaces]) (s, g)"
    unfolding cond_group_def seq.simps using assms by (intro fails_Seq fails_Cap bound_fails) auto
  moreover have "fails (call_pattern 2) (s, g)"
    unfolding call_pattern_def seq.simps using assms by (intro fails_Seq) (cases s; auto simp: fails_def lit_run)
  ultimately show ?thesis unfolding tier_pattern_def by (rule fails_Opt_Seq)
qed

text \<open>What both readers of tier expressions promise: a tier is matched with its condition, and nothing else starts a match.\<close>

locale piece_reader =
  fixes r :: rx and groups :: "(number \<Rightarrow> string) \<Rightarrow> VisualTier \<Rightarrow> (nat \<rightharpoonup> string)"
  assumes tier_match: "visual_ok show_number t \<Longrightarrow> takes r (piece show_number t @ s, Map.empty) (s, groups show_number t)"
    and other_fails: "s = [] \<or> hd s \<notin> {CHR ''p'', CHR ''c'', CHR ''l'', CHR ''t''} \<Longrightarrow> fails r (s, Map.empty)"
begin

lemma colon_skipped: "rx_all r ('' : '' @ s) = rx_all r s"
proof -
  have "rx_all r (c # u) = rx_all r u" if "c \<in> {CHR '' '', CHR '':''}" for c u
    using that by (intro rx_all_skip other_fails) auto
  then show ?thesis by simp
qed

lemma piece_all:
  assumes "visual_ok show_number t"
  shows "rx_all r (piece show_number t @ s) = groups show_number t # rx_all r s"
  by (rule rx_all_match [OF tier_match [OF assms]]) (simp add: piece_def tier_call_def)

lemma empty_all: "rx_all r [] = []"
  by (subst rx_all.simps) (simp add: rx_first_None other_fails)

lemma chain_all:
  assumes "list_all (visual_ok show_number) ts" "ts \<noteq> []"
  shows "rx_all r (join '' : '' (map (piece show_number) ts) @ s) = map (groups show_number) ts @ rx_all r s"
  using assms
proof (induction ts rule: induct_list012)
  case (3 t t' ts)
  then have "rx_all r (piece show_number t @ '' : '' @ join '' : '' (map (piece show_number) (t' # ts)) @ s) =
      groups show_number t # map (groups show_number) (t' # ts) @ rx_all r s"
    by (subst piece_all) (simp_all only: colon_skipped list.pred_inject, simp)
  then show ?case by simp
qed (simp_all add: piece_all)

end

interpretation editor: piece_reader tier_pattern piece_groups
  by unfold_locales (fact piece_taken, rule tier_pattern_fails)

text \<open>The alternative of a lone conditional tier holds no tier.\<close>

lemma otherwise_all: "rx_all tier_pattern '' : p * 0 + c * 0'' = []"
  by code_simp

section \<open>The round trip\<close>

lemma visual_normal: "tier_laws show_number t \<Longrightarrow> normalizeVisualTier (whole t) = t"
proof -
  assume t: "tier_laws show_number t"
  have "or_zero (Some (vi_extra t f)) = vi_extra t f" for f using tier_laws_cost [OF t, of f] by (auto simp: or_zero_Some)
  then show ?thesis by (simp add: normalizeVisualTier_def whole_def nullish_def)
qed

lemma visual_config_normal: "list_all (visual_ok show_number) ts \<Longrightarrow> ts \<noteq> [] \<Longrightarrow> normalizeVisualConfig (Some ts) = ts"
  by (simp add: normalizeVisualConfig_def) (auto simp: list_all_iff visual_ok_def intro!: map_idI visual_normal)

lemma conditions_built: "list_all (bound_ok show_number) cs \<Longrightarrow> buildConditionStr show_number cs = conditions_text show_number cs"
proof -
  assume cs: "list_all (bound_ok show_number) cs"
  then have "filter (\<lambda>c. tc_var c \<noteq> [] \<and> tc_op c \<noteq> [] \<and> tc_value c \<noteq> TextValue []) cs = cs"
    by (intro filter_True) (auto simp: list_all_iff bound_ok_def)
  then show ?thesis by (simp add: buildConditionStr_def conditions_text_def bound_text_def [abs_def])
qed

lemma conditions_text_hd:
  assumes "list_all (bound_ok show_number) cs" "cs \<noteq> []"
  shows "conditions_text show_number cs \<noteq> []" "hd (conditions_text show_number cs @ s) \<in> {CHR ''p'', CHR ''c'', CHR ''l''}"
proof -
  obtain c cs' where cs: "cs = c # cs'" using assms(2) by (cases cs) auto
  then have "tc_var c \<in> {''p'', ''c'', ''len''}" using assms(1) by (simp add: bound_ok_def)
  then have "bound_text show_number c \<noteq> [] \<and> hd (bound_text show_number c @ u) \<in> {CHR ''p'', CHR ''c'', CHR ''l''}" for u
    by (auto simp: bound_text_def)
  then show "conditions_text show_number cs \<noteq> []" "hd (conditions_text show_number cs @ s) \<in> {CHR ''p'', CHR ''c'', CHR ''l''}"
    unfolding conditions_text_def cs join_ands append_assoc by blast+
qed

lemma parts_pieces:
  assumes "list_all (visual_ok show_number) ts" "ts \<noteq> []" "vi_conditions (last ts) = []"
  shows "tier_parts show_number i ts = map (piece show_number) ts"
  using assms
proof (induction ts arbitrary: i)
  case (Cons t ts)
  have t: "vi_label t \<noteq> []" "list_all (bound_ok show_number) (vi_conditions t)" using Cons.prems by (simp_all add: visual_ok_def)
  have "conditions_text show_number (vi_conditions t) = [] \<longleftrightarrow> vi_conditions t = []"
    using conditions_text_hd(1) [OF t(2)] by (auto simp: conditions_text_def)
  with t conditions_built [OF t(2)] have "tier_parts show_number i (t # ts) = piece show_number t # tier_parts show_number (i + 1) ts"
    using Cons.prems(3) by (auto simp: piece_def Let_def)
  with Cons show ?case by (cases ts) auto
qed simp

lemma pieces_generated:
  assumes "list_all (visual_ok show_number) ts" "length ts > 1" "vi_conditions (last ts) = []"
  shows "generateExprFromVisualConfig show_number (Some ts) = join '' : '' (map (piece show_number) ts)"
proof -
  obtain t t' us where ts: "ts = t # t' # us" using assms(2) by (cases ts; cases "tl ts") auto
  with parts_pieces [OF assms(1) _ assms(3), of 0] show ?thesis by (simp add: generateExprFromVisualConfig_def del: tier_parts.simps)
qed

lemma single_generated:
  assumes "visual_ok show_number t"
  shows "generateExprFromVisualConfig show_number (Some [t]) = piece show_number t @ (if vi_conditions t = [] then [] else '' : p * 0 + c * 0'')"
proof -
  have t: "vi_label t \<noteq> []" "list_all (bound_ok show_number) (vi_conditions t)" using assms by (simp_all add: visual_ok_def)
  have "conditions_text show_number (vi_conditions t) = [] \<longleftrightarrow> vi_conditions t = []"
    using conditions_text_hd(1) [OF t(2)] by (auto simp: conditions_text_def)
  with t conditions_built [OF t(2)] show ?thesis by (auto simp: generateExprFromVisualConfig_def piece_def Let_def)
qed

lemma unversioned: "s \<noteq> [] \<Longrightarrow> hd s \<noteq> CHR ''v'' \<Longrightarrow> snd (stripExprVersion s) = s"
  by (cases s) (simp_all add: stripExprVersion_def Let_def)

text \<open>A text that starts with a condition is not a lone call; a text whose tiers are read in order is read as these tiers.\<close>

lemma chain_read:
  assumes "list_all (visual_ok show_number) ts" "ts \<noteq> []" "hd s \<in> {CHR ''p'', CHR ''c'', CHR ''l''}" "s \<noteq> []"
    and "rx_all tier_pattern s = map (piece_groups show_number) ts" "generateExprFromVisualConfig show_number (Some ts) = s"
  shows "tryParseVisualConfig show_number s = Some ts"
proof -
  have "snd (stripExprVersion s) = s" using assms(3,4) by (intro unversioned) auto
  moreover have "fails (Seq (call_pattern 1) End) (s, Map.empty)"
    unfolding call_pattern_def seq.simps using assms(3,4) by (intro fails_Seq) (cases s; auto simp: fails_def lit_run)
  then have "rx_first (Seq (call_pattern 1) End) s = None" by (rule rx_first_None)
  moreover have "map ((\<lambda>g. normalizeVisualTier (matched_costs 2 g (parse_bounds (g 1)))) \<circ> piece_groups show_number) ts = ts"
    using assms(1) by (intro map_idI) (auto simp: list_all_iff piece_read simp del: One_nat_def)
  ultimately show ?thesis
    unfolding tryParseVisualConfig_def Let_def using assms(2,4-6) visual_config_normal [OF assms(1,2)] by simp
qed

lemma lone_read:
  assumes "visual_ok show_number t" "vi_conditions t = []"
  shows "tryParseVisualConfig show_number (piece show_number t) = Some [t]"
proof -
  have s: "piece show_number t = tier_call show_number (vi_label t) t" by (simp add: piece_def assms(2))
  have t: "tier_laws show_number t" "tier_shown show_number t" "quote_char \<notin> set (vi_label t)"
    using assms(1) tier_laws_shown by (auto simp: visual_ok_def)
  have "snd (stripExprVersion (piece show_number t)) = piece show_number t" by (rule unversioned) (simp_all add: s tier_call_def)
  moreover have "takes (Seq (call_pattern 1) End) (piece show_number t, Map.empty) ([], call_groups show_number 1 (vi_label t) t Map.empty)"
    using call_taken [OF t(2,3), of 1 "[]" Map.empty] by (auto simp: s intro: takes_Seq takes_End)
  then have "rx_first (Seq (call_pattern 1) End) (piece show_number t) = Some ([], call_groups show_number 1 (vi_label t) t Map.empty)" by (rule rx_firstI)
  moreover have "normalizeVisualTier (matched_costs 1 (call_groups show_number 1 (vi_label t) t Map.empty) []) = t"
    using call_read [OF t(1), of 1 Map.empty "vi_label t" "[]"] assms(2) by simp
  moreover have "piece show_number t \<noteq> []" by (simp add: s tier_call_def)
  ultimately show ?thesis
    unfolding tryParseVisualConfig_def Let_def using visual_config_normal [of show_number "[t]"] assms(1) by simp
qed

text \<open>C29: An expression generated from tiers is parsed into the same tiers.  This needs labels that are not empty and
  without quotation marks, prices that \<open>String\<close> shows as literals of their value, conditions without negative
  bounds, and, for several tiers, a condition on the first and none on the last.\<close>

theorem tier_expr_roundtrip:
  assumes "list_all (visual_ok show_number) tiers" "tiers \<noteq> []"
    and "length tiers = 1 \<or> vi_conditions (hd tiers) \<noteq> [] \<and> vi_conditions (last tiers) = []"
  shows "tryParseVisualConfig show_number (generateExprFromVisualConfig show_number (Some tiers)) = Some tiers"
proof (cases "length tiers = 1")
  case True
  then obtain t where ts: "tiers = [t]" by (auto simp: length_Suc_conv)
  with assms(1) have t: "visual_ok show_number t" by simp
  show ?thesis
  proof (cases "vi_conditions t = []")
    case True
    with lone_read [OF t] ts single_generated [OF t] show ?thesis by simp
  next
    case False
    let ?s = "piece show_number t @ '' : p * 0 + c * 0''"
    have "hd ?s \<in> {CHR ''p'', CHR ''c'', CHR ''l''}"
      unfolding piece_def using False t conditions_text_hd(2) [of show_number "vi_conditions t"] by (simp add: visual_ok_def)
    with False show ?thesis
      unfolding ts single_generated [OF t] using t editor.piece_all [OF t] otherwise_all single_generated [OF t]
      by (simp only: if_False) (rule chain_read; simp)
  qed
next
  case False
  with assms(2,3) have len: "length tiers > 1" "vi_conditions (hd tiers) \<noteq> []" "vi_conditions (last tiers) = []" by (cases tiers; auto)+
  note gen = pieces_generated [OF assms(1) len(1,3)]
  obtain t t' us where ts: "tiers = t # t' # us" using len(1) by (cases tiers; cases "tl tiers") auto
  have "list_all (bound_ok show_number) (vi_conditions t)" "vi_conditions t \<noteq> []" using assms(1) len(2) by (simp_all add: ts visual_ok_def)
  note h = conditions_text_hd [OF this]
  let ?s = "join '' : '' (map (piece show_number) tiers)"
  have "hd ?s \<in> {CHR ''p'', CHR ''c'', CHR ''l''}" "?s \<noteq> []" using h len(2) by (simp_all add: ts piece_def)
  moreover have "rx_all tier_pattern ?s = map (piece_groups show_number) tiers"
    using editor.chain_all [OF assms(1,2), of "[]"] editor.empty_all by simp
  ultimately show ?thesis unfolding gen using assms(1,2) gen by (intro chain_read)
qed

definition plain_number :: "number \<Rightarrow> string" where
  "plain_number x = show_nat (nat \<lfloor>x\<rfloor>)"

definition long_context :: "VisualTier list" where
  "long_context =
    [\<lparr>vi_label = ''short'', vi_conditions = [\<lparr>tc_var = ''len'', tc_op = ''<='', tc_value = NumValue (Some 200000)\<rparr>],
      vi_input = Some 3, vi_output = Some 15, vi_cache_mode = CACHE_MODE_TIMED, vi_extra = (\<lambda>_. Some 6)\<rparr>,
     \<lparr>vi_label = ''long'', vi_conditions = [], vi_input = Some 6, vi_output = Some 22, vi_cache_mode = CACHE_MODE_GENERIC, vi_extra = (\<lambda>_. Some 0)\<rparr>]"

lemma long_context_ok: "list_all (visual_ok plain_number) long_context"
  by code_simp

theorem tier_expr_roundtrip_witness:
  "tryParseVisualConfig plain_number (generateExprFromVisualConfig plain_number (Some long_context)) = Some long_context"
  by (rule tier_expr_roundtrip [OF long_context_ok]) (simp_all add: long_context_def)

text \<open>The label is put between quotation marks as it is, so a label with a quotation mark gives an expression that the
  parser refuses.\<close>

lemma quoted_label_unreadable:
  "tryParseVisualConfig plain_number (generateExprFromVisualConfig plain_number (Some [\<lparr>vi_label = ''6'' @ [quote_char] @ '' input'',
    vi_conditions = [], vi_input = Some 3, vi_output = Some 15, vi_cache_mode = CACHE_MODE_GENERIC, vi_extra = (\<lambda>_. Some 0)\<rparr>])) = None"
  by code_simp

end
