(* ===== verification/Tier_Display.thy ===== *)
theory Tier_Display
  imports Tier_Roundtrip
begin

text \<open>
  The tiers a price table shows (\<open>parseTiersFromExpr\<close> of \<open>billing-expr.ts\<close>): a looser reader of the same expressions, which takes
  the body of a tier apart by its variables.
\<close>

section \<open>Tiers of the price table\<close>

datatype PriceField = InputPrice | OutputPrice | ExtraPrice ExtraCost

definition BILLING_PRICING_VARS :: "(PriceField \<times> string) list" where
  "BILLING_PRICING_VARS = (InputPrice, ''p'') # (OutputPrice, ''c'') # map (\<lambda>(f, v). (ExtraPrice f, v)) BILLING_CACHE_VAR_MAP"

record ParsedTier =
  pt_label :: string
  pt_conditions :: "TierConditionInput list"
  pt_price :: "PriceField \<Rightarrow> number"

text \<open>\<open>BILLING_VAR_REGEX\<close> behind its \<open>\b\<close>.\<close>

definition BILLING_VAR_REGEX :: rx where
  "BILLING_VAR_REGEX =
    seq [Cap 1 (alts (map lit (map snd BILLING_PRICING_VARS))), spaces, lit ''*'', spaces, Cap 2 (some_of number_char)]"

fun add_coeff :: "(string \<rightharpoonup> number option) \<Rightarrow> (nat \<rightharpoonup> string) \<Rightarrow> (string \<rightharpoonup> number option)" where
  "add_coeff coeffs m = (if coeffs (the (m 1)) = None then coeffs(the (m 1) \<mapsto> js_Number (the (m 2))) else coeffs)"

definition parseTierBody :: "string \<Rightarrow> PriceField \<Rightarrow> number" where
  "parseTierBody bodyStr field =
    (let coeffs = foldl add_coeff Map.empty (rx_words BILLING_VAR_REGEX None bodyStr) in
     case map_of BILLING_PRICING_VARS field of None \<Rightarrow> 0 | Some v \<Rightarrow> the (or_zero (coeffs v)))"

definition table_call :: rx where
  "table_call =
    seq [lit (''tier('' @ [quote_char]), Cap 2 (Many (Chr (\<lambda>c. c \<noteq> quote_char))), lit [quote_char, CHR '',''], spaces,
      Cap 3 (some_of (\<lambda>c. c \<noteq> CHR '')'')), lit '')'']"

definition table_pattern :: rx where
  "table_pattern = Seq (Opt (seq [cond_group, spaces, lit ''?'', spaces])) table_call"

definition parseTiersFromExpr :: "string \<Rightarrow> ParsedTier list" where
  "parseTiersFromExpr exprStr =
    (if exprStr = [] then []
     else map (\<lambda>m. \<lparr>pt_label = the (m 2), pt_conditions = parse_bounds (m 1), pt_price = parseTierBody (the (m 3))\<rparr>)
       (rx_all table_pattern (snd (stripExprVersion exprStr))))"

section \<open>Prices of a body\<close>

lemma alts_run: "rx_run (alts rs) x = concat (map (\<lambda>r. rx_run r x) rs)"
  by (induction rs rule: alts.induct) (simp_all split: list.split)

lemma Cap_lit_run: "rx_run (Cap n (lit w)) (s, g) = (if prefix w s then [(drop (length w) s, g(n \<mapsto> w))] else [])"
  by (auto simp: lit_run prefix_def)

lemma pricing_words: "list_all (\<lambda>(f, v). word v \<and> word_char (hd v)) BILLING_PRICING_VARS" "distinct (map snd BILLING_PRICING_VARS)" "distinct (map fst BILLING_PRICING_VARS)"
  by code_simp+

lemma key_word: "v \<in> snd ` set BILLING_PRICING_VARS \<Longrightarrow> word v \<and> word_char (hd v)"
  using pricing_words(1) by (auto simp: list_all_iff)

text \<open>Of the alternatives only the variable itself is followed by an asterisk.\<close>

lemma key_taken:
  assumes "v \<in> set ks" "list_all word ks" "takes b ('' * '' @ z, g(1 \<mapsto> v)) y" "b = seq (spaces # lit ''*'' # rs)"
  shows "takes (Seq (Cap 1 (alts (map lit ks))) b) (v @ '' * '' @ z, g) y"
proof -
  let ?x = "(v @ '' * '' @ z, g)"
  have run: "rx_run (Seq (Cap 1 (alts (map lit ks))) b) ?x = concat (map (\<lambda>k. rx_run (Seq (Cap 1 (lit k)) b) ?x) ks)"
    by (simp add: alts_run concat_map_concat o_def)
  have v: "takes (Seq (Cap 1 (lit v)) b) ?x y" using assms(3) by (auto simp: takes_def Cap_lit_run simp del: rx_run.simps(8))
  have other: "rx_run (Seq (Cap 1 (lit k)) b) ?x = []" if "k \<in> set ks" "k \<noteq> v" for k
  proof -
    have "word k" "word v" using assms(1,2) that(1) by (auto simp: list_all_iff)
    then have "fails (Seq (lit k) b) (v @ '' * '' @ z, g(1 \<mapsto> k))" using word_mismatch [OF _ _ that(2)] by (simp add: assms(4))
    then show ?thesis unfolding fails_def rx_run.simps(4) lit_run Cap_lit_run by (simp split: if_splits)
  qed
  show ?thesis unfolding takes_def run using assms(1) other
  proof (induction ks)
    case (Cons k ks)
    with v show ?case by (cases "k = v") (auto simp: takes_def simp del: rx_run.simps)
  qed simp
qed

definition term_groups :: "string \<times> string \<Rightarrow> (nat \<rightharpoonup> string)" where
  "term_groups t = [1 \<mapsto> fst t, 2 \<mapsto> snd t]"

lemma var_price_taken:
  assumes "v \<in> snd ` set BILLING_PRICING_VARS" "list_all number_char w" "w \<noteq> []" "s = [] \<or> \<not> number_char (hd s)"
  shows "takes BILLING_VAR_REGEX (v @ '' * '' @ w @ s, Map.empty) (s, term_groups (v, w))"
proof -
  let ?b = "seq (spaces # lit ''*'' # [spaces, Cap 2 (some_of number_char)])"
  have "takes (seq ([lit []] @ [spaces, lit ''*'', spaces, Cap 2 (some_of number_char)])) ([] @ '' * '' @ w @ s, [1 \<mapsto> v]) (s, [1 \<mapsto> v, 2 \<mapsto> w])"
    using price_taken [OF assms(2-4), of "[]" 2 "[1 \<mapsto> v]"] by simp
  then have "takes ?b ('' * '' @ w @ s, [1 \<mapsto> v]) (s, [1 \<mapsto> v, 2 \<mapsto> w])" by (simp add: takes_def lit_def)
  moreover have "v \<in> set (map snd BILLING_PRICING_VARS)" "list_all word (map snd BILLING_PRICING_VARS)"
    using assms(1) pricing_words(1) by (auto simp: list_all_iff)
  ultimately have "takes (Seq (Cap 1 (alts (map lit (map snd BILLING_PRICING_VARS)))) ?b) (v @ '' * '' @ w @ s, Map.empty) (s, [1 \<mapsto> v, 2 \<mapsto> w])"
    by (intro key_taken [OF _ _ _ refl])
  then show ?thesis unfolding BILLING_VAR_REGEX_def term_groups_def by simp
qed

lemma var_price_fails:
  assumes "c \<in> {CHR '' '', CHR ''+''}"
  shows "fails BILLING_VAR_REGEX (c # s, Map.empty)"
proof -
  have "list_all (\<lambda>(f, v). hd v \<notin> {CHR '' '', CHR ''+''} \<and> v \<noteq> []) BILLING_PRICING_VARS" by code_simp
  then have "\<not> prefix v (c # s)" if "(f, v) \<in> set BILLING_PRICING_VARS" for f v
    using that assms unfolding list_all_iff by (cases v) auto
  then have "rx_run (alts (map lit (map snd BILLING_PRICING_VARS))) (c # s, Map.empty) = []" by (auto simp: alts_run lit_run)
  then show ?thesis by (simp add: BILLING_VAR_REGEX_def fails_def)
qed

definition terms_text :: "(string \<times> string) list \<Rightarrow> string" where
  "terms_text ts = join '' + '' (map (\<lambda>(v, w). v @ '' * '' @ w) ts)"

definition term_ok :: "string \<times> string \<Rightarrow> bool" where
  "term_ok t \<longleftrightarrow> fst t \<in> snd ` set BILLING_PRICING_VARS \<and> list_all number_char (snd t) \<and> snd t \<noteq> []"

definition outside :: "char option \<Rightarrow> bool" where
  "outside before \<longleftrightarrow> (case before of None \<Rightarrow> True | Some c \<Rightarrow> \<not> word_char c)"

lemma plus_skipped: "rx_words BILLING_VAR_REGEX before ('' + '' @ s) = rx_words BILLING_VAR_REGEX (Some CHR '' '') s"
  by (simp add: rx_words_skip var_price_fails)

lemma term_read:
  assumes "term_ok (v, w)" "outside before" "s = [] \<or> \<not> number_char (hd s)"
  shows "rx_words BILLING_VAR_REGEX before (v @ '' * '' @ w @ s) = term_groups (v, w) # rx_words BILLING_VAR_REGEX (Some (last w)) s"
proof -
  have t: "v \<in> snd ` set BILLING_PRICING_VARS" "list_all number_char w" "w \<noteq> []" using assms(1) by (simp_all add: term_ok_def)
  have "word_char (hd v)" "v \<noteq> []" using key_word [OF t(1)] by (simp_all add: word_def)
  then have "boundary before ((v @ '' * '' @ w) @ s)"
    using assms(2) by (cases v) (auto simp: boundary_def outside_def split: option.splits)
  moreover have "takes BILLING_VAR_REGEX ((v @ '' * '' @ w) @ s, Map.empty) (s, term_groups (v, w))"
    using var_price_taken [OF t assms(3)] by simp
  ultimately have "rx_words BILLING_VAR_REGEX before ((v @ '' * '' @ w) @ s) = term_groups (v, w) # rx_words BILLING_VAR_REGEX (Some (last (v @ '' * '' @ w))) s"
    using t(3) by (intro rx_words_match) auto
  then show ?thesis using t(3) by simp
qed

lemma terms_read:
  "list_all term_ok ts \<Longrightarrow> outside before \<Longrightarrow>
    rx_words BILLING_VAR_REGEX before (terms_text ts) = map term_groups ts"
proof (induction ts arbitrary: before rule: induct_list012)
  case 1
  then show ?case by (simp add: terms_text_def rx_words_Nil)
next
  case (2 t)
  obtain v w where t: "t = (v, w)" by (cases t)
  from 2 term_read [of v w before "[]"] t show ?case by (simp add: terms_text_def rx_words_Nil)
next
  case (3 t t' ts)
  obtain v w where t: "t = (v, w)" by (cases t)
  have "\<not> word_char CHR '' ''" by code_simp
  then have "rx_words BILLING_VAR_REGEX (Some CHR '' '') (terms_text (t' # ts)) = map term_groups (t' # ts)"
    using 3 by (simp add: outside_def)
  moreover have "rx_words BILLING_VAR_REGEX before (v @ '' * '' @ w @ '' + '' @ terms_text (t' # ts)) =
      term_groups (v, w) # rx_words BILLING_VAR_REGEX (Some (last w)) ('' + '' @ terms_text (t' # ts))"
    using 3(3,4) t by (intro term_read) auto
  ultimately show ?case unfolding plus_skipped by (simp add: terms_text_def t)
qed

lemma coeffs_read: "foldl add_coeff m (map term_groups ts) = map_of (map (\<lambda>(v, w). (v, js_Number w)) ts) ++ m"
proof (induction ts arbitrary: m)
  case (Cons t ts)
  obtain v w where t: "t = (v, w)" by (cases t)
  show ?case unfolding list.map foldl_Cons Cons.IH
    by (rule ext) (auto simp: t term_groups_def map_add_def split: option.splits)
qed simp

lemma body_terms_read:
  assumes "list_all term_ok ts" "map_of BILLING_PRICING_VARS field = Some v"
  shows "parseTierBody (terms_text ts) field = the (or_zero (map_option js_Number (map_of ts v)))"
proof -
  have "map_of (map (\<lambda>(v, w). (v, js_Number w)) ts) v = map_option js_Number (map_of ts v)" by (induction ts) auto
  then show ?thesis using assms terms_read [OF assms(1), of None] coeffs_read [of Map.empty ts] by (simp add: parseTierBody_def outside_def Let_def)
qed

section \<open>What the table shows\<close>

text \<open>The terms of the body of a tier.\<close>

definition table_terms :: "(number \<Rightarrow> string) \<Rightarrow> VisualTier \<Rightarrow> (string \<times> string) list" where
  "table_terms show_number t = (''p'', cost_text show_number (vi_input t)) # (''c'', cost_text show_number (vi_output t)) #
    List.map_filter (\<lambda>(f, v). if extra_cost (vi_extra t) f \<noteq> 0 then Some (v, show_number (extra_cost (vi_extra t) f)) else None) BILLING_CACHE_VAR_MAP"

lemma body_is_terms: "buildTierBodyExpr show_number t = terms_text (table_terms show_number t)"
proof -
  have "map (\<lambda>(v, w). v @ '' * '' @ w) (List.map_filter (\<lambda>(f, v). if extra_cost (vi_extra t) f \<noteq> 0 then Some (v, show_number (extra_cost (vi_extra t) f)) else None) vars)
      = extra_parts show_number (vi_extra t) vars" for vars
    by (induction vars) (auto simp: extra_parts_def map_filter_simps extra_cost_def Let_def)
  then show ?thesis by (simp add: buildTierBodyExpr_def terms_text_def table_terms_def cost_text_def)
qed

lemma table_terms_ok:
  assumes "tier_laws show_number t"
  shows "list_all term_ok (table_terms show_number t)"
proof -
  note sh = tier_laws_shown [OF assms]
  have ex: "shown show_number (extra_cost (vi_extra t) f)" for f
    using sh by (auto simp: tier_shown_def intro: all_extras)
  have "v \<in> snd ` set BILLING_PRICING_VARS" if "(f, v) \<in> set BILLING_CACHE_VAR_MAP" for f v
    using that by (force simp: BILLING_PRICING_VARS_def)
  with ex have "list_all term_ok (List.map_filter (\<lambda>(f, v). if extra_cost (vi_extra t) f \<noteq> 0 then Some (v, show_number (extra_cost (vi_extra t) f)) else None) BILLING_CACHE_VAR_MAP)"
    by (auto simp: list_all_iff map_filter_def term_ok_def shown_def)
  moreover have "''p'' \<in> snd ` set BILLING_PRICING_VARS" "''c'' \<in> snd ` set BILLING_PRICING_VARS" by (simp_all add: BILLING_PRICING_VARS_def)
  ultimately show ?thesis using sh by (simp add: table_terms_def term_ok_def tier_shown_def shown_def cost_text_def)
qed

lemma map_of_kept:
  "distinct (map snd vars) \<Longrightarrow> (f, v) \<in> set vars \<Longrightarrow>
    map_of (List.map_filter (\<lambda>(f, v). if P f then Some (v, h f) else None) vars) v = (if P f then Some (h f) else None)"
proof (induction vars)
  case (Cons fv vars)
  obtain f' v' where fv: "fv = (f', v')" by (cases fv)
  have none: "map_of (List.map_filter (\<lambda>(f, v). if P f then Some (v, h f) else None) vars) u = None" if "u \<notin> snd ` set vars" for u
    using that by (induction vars) (auto simp: map_filter_simps)
  show ?case
  proof (cases "(f, v) = fv")
    case True
    with Cons.prems none [of v] fv show ?thesis by (auto simp: map_filter_simps)
  next
    case False
    with Cons.prems have "(f, v) \<in> set vars" by auto
    moreover from this Cons.prems(1) fv have "v \<noteq> v'" by force
    ultimately show ?thesis using Cons fv by (simp add: map_filter_simps)
  qed
qed simp

text \<open>The tier of the table for a tier of the editor.\<close>

definition table_tier :: "VisualTier \<Rightarrow> ParsedTier" where
  "table_tier t = \<lparr>pt_label = vi_label t, pt_conditions = vi_conditions t,
    pt_price = (\<lambda>field. case field of InputPrice \<Rightarrow> the (vi_input t) | OutputPrice \<Rightarrow> the (vi_output t) | ExtraPrice f \<Rightarrow> the (vi_extra t f))\<rparr>"

lemma body_read:
  assumes "tier_laws show_number t"
  shows "parseTierBody (buildTierBodyExpr show_number t) = pt_price (table_tier t)"
proof
  fix field
  note read = body_terms_read [OF table_terms_ok [OF assms]]
  obtain i out where io: "vi_input t = Some i" "vi_output t = Some out" "number_law show_number i" "number_law show_number out"
    using assms by (auto simp: tier_laws_def)
  show "parseTierBody (buildTierBodyExpr show_number t) field = pt_price (table_tier t) field"
  proof (cases field)
    case InputPrice
    have "map_of BILLING_PRICING_VARS field = Some ''p''" by (simp add: InputPrice BILLING_PRICING_VARS_def)
    from read [OF this] show ?thesis unfolding body_is_terms
      by (simp add: table_terms_def cost_text_def io or_zero_Some number_law_Number InputPrice table_tier_def)
  next
    case OutputPrice
    have "map_of BILLING_PRICING_VARS field = Some ''c''" by (simp add: OutputPrice BILLING_PRICING_VARS_def)
    from read [OF this] show ?thesis unfolding body_is_terms
      by (simp add: table_terms_def cost_text_def io or_zero_Some number_law_Number OutputPrice table_tier_def)
  next
    case (ExtraPrice f)
    obtain x where x: "vi_extra t f = Some x" "extra_cost (vi_extra t) f = x" "number_law show_number x" using tier_laws_cost [OF assms] by blast
    obtain v where v: "map_of BILLING_CACHE_VAR_MAP f = Some v" "v \<noteq> ''p''" "v \<noteq> ''c''" by (cases f) (simp_all add: BILLING_CACHE_VAR_MAP_def)
    then have "map_of BILLING_PRICING_VARS field = Some v"
      by (simp add: ExtraPrice BILLING_PRICING_VARS_def) (cases f; simp add: BILLING_CACHE_VAR_MAP_def)
    moreover have "map_of (table_terms show_number t) v = (if x \<noteq> 0 then Some (show_number x) else None)"
      using v x(2) map_of_kept [OF extra_words(2) map_of_SomeD [OF v(1)], of "\<lambda>f. extra_cost (vi_extra t) f \<noteq> 0" "\<lambda>f. show_number (extra_cost (vi_extra t) f)"] by (simp add: table_terms_def)
    ultimately show ?thesis using read [of field v] x number_law_Number [OF x(3)] unfolding body_is_terms
      by (simp add: or_zero_def ExtraPrice table_tier_def)
  qed
qed

definition table_groups :: "(number \<Rightarrow> string) \<Rightarrow> VisualTier \<Rightarrow> (nat \<rightharpoonup> string)" where
  "table_groups show_number t =
    (if vi_conditions t = [] then Map.empty else [1 \<mapsto> conditions_text show_number (vi_conditions t)])
      (2 \<mapsto> vi_label t, 3 \<mapsto> buildTierBodyExpr show_number t)"

text \<open>The characters of a body.\<close>

lemma body_chars:
  assumes "tier_shown show_number t" "\<And>c. number_char c \<Longrightarrow> P c" "list_all P '' *+pc''" "list_all (\<lambda>(f, v). list_all P v) BILLING_CACHE_VAR_MAP"
  shows "list_all P (buildTierBodyExpr show_number t)"
proof -
  have w: "list_all P (show_number x)" if "shown show_number x" for x
    using that assms(2) unfolding shown_def list_all_iff by blast
  have "list_all P (extras_text show_number (vi_extra t) vars)" if "list_all (\<lambda>(f, v). list_all P v) vars" for vars
    using that
  proof (induction vars)
    case (Cons fv vars)
    obtain f v where fv: "fv = (f, v)" by (cases fv)
    have "shown show_number (extra_cost (vi_extra t) f)" using assms(1) by (auto simp: tier_shown_def intro: all_extras)
    from w [OF this] Cons fv assms(3) show ?case by simp
  qed simp
  from this [OF assms(4)] have "list_all P (extras_text show_number (vi_extra t) BILLING_CACHE_VAR_MAP)" .
  moreover have "list_all P (cost_text show_number (vi_input t))" "list_all P (cost_text show_number (vi_output t))"
    using assms(1) w by (simp_all add: tier_shown_def cost_text_def)
  ultimately show ?thesis using assms(3) by (simp add: body_text)
qed

lemma body_open: "tier_shown show_number t \<Longrightarrow> list_all (\<lambda>c. c \<noteq> CHR '')'') (buildTierBodyExpr show_number t)"
proof (erule body_chars)
  show "c \<noteq> CHR '')''" if "number_char c" for c using that number_facts(2) by blast
qed code_simp+

lemma table_call_taken:
  assumes "tier_shown show_number t" "quote_char \<notin> set label"
  shows "takes table_call (tier_call show_number label t @ s, g) (s, g(2 \<mapsto> label, 3 \<mapsto> buildTierBodyExpr show_number t))"
proof -
  let ?body = "buildTierBodyExpr show_number t" let ?b = "?body @ '')'' @ s"
  have ne: "?body \<noteq> []" by (simp add: body_text)
  let ?g = "g(2 \<mapsto> label)" let ?g' = "g(2 \<mapsto> label, 3 \<mapsto> ?body)"
  have "takes (lit (''tier('' @ [quote_char])) ((''tier('' @ [quote_char]) @ label @ [quote_char, CHR '',''] @ '' '' @ ?b, g) (label @ [quote_char, CHR '',''] @ '' '' @ ?b, g)"
    by (rule takes_lit)
  moreover have "takes (Cap 2 (Many (Chr (\<lambda>c. c \<noteq> quote_char)))) (label @ [quote_char, CHR '',''] @ '' '' @ ?b, g) ([quote_char, CHR '',''] @ '' '' @ ?b, ?g)"
    using assms(2) by (intro takes_Cap greedy) (auto simp: list_all_iff)
  moreover have "takes (lit [quote_char, CHR '','']) ([quote_char, CHR '',''] @ '' '' @ ?b, ?g) ('' '' @ ?b, ?g)" by (rule takes_lit)
  moreover have "takes spaces ('' '' @ ?b, ?g) (?b, ?g)" using takes_spaces(2) [of ?b ?g] by (simp add: body_text)
  moreover have "takes (Cap 3 (some_of (\<lambda>c. c \<noteq> CHR '')''))) (?b, ?g) ('')'' @ s, ?g')"
    using body_open [OF assms(1)] ne by (intro takes_Cap some_greedy) (auto simp: list_all_iff)
  moreover have "takes (lit '')'') ('')'' @ s, ?g') (s, ?g')" by (rule takes_lit)
  ultimately have "takes table_call ((''tier('' @ [quote_char]) @ label @ [quote_char, CHR '',''] @ '' '' @ ?b, g) (s, ?g')"
    unfolding table_call_def by (blast intro: takes_Cons takes_one)
  then show ?thesis by (simp add: tier_call_def)
qed

lemma table_fails:
  assumes "s = [] \<or> hd s \<notin> {CHR ''p'', CHR ''c'', CHR ''l'', CHR ''t''}"
  shows "fails table_pattern (s, g)"
proof -
  have "fails (seq [cond_group, spaces, lit ''?'', spaces]) (s, g)"
    unfolding cond_group_def seq.simps using assms by (intro fails_Seq fails_Cap bound_fails) auto
  moreover have "fails table_call (s, g)"
    unfolding table_call_def seq.simps using assms by (intro fails_Seq) (cases s; auto simp: fails_def lit_run)
  ultimately show ?thesis unfolding table_pattern_def by (rule fails_Opt_Seq)
qed

lemma table_taken:
  assumes "visual_ok show_number t"
  shows "takes table_pattern (piece show_number t @ s, Map.empty) (s, table_groups show_number t)"
  unfolding table_pattern_def table_groups_def using assms tier_laws_shown [of show_number t]
  by (intro piece_condition table_call_taken) (auto simp: visual_ok_def)

interpretation table: piece_reader table_pattern table_groups
  by unfold_locales (fact table_taken, rule table_fails)

lemma otherwise_no_tier: "rx_all table_pattern '' : p * 0 + c * 0'' = []"
  by code_simp

lemma table_read:
  assumes "visual_ok show_number t"
  shows "\<lparr>pt_label = the (table_groups show_number t 2), pt_conditions = parse_bounds (table_groups show_number t 1),
    pt_price = parseTierBody (the (table_groups show_number t 3))\<rparr> = table_tier t"
proof -
  have "parse_bounds (table_groups show_number t 1) = vi_conditions t"
    using assms bounds_parsed [of show_number "vi_conditions t"] by (auto simp: visual_ok_def parse_bounds_def table_groups_def)
  moreover have "parseTierBody (the (table_groups show_number t 3)) = pt_price (table_tier t)"
    using assms body_read by (simp add: visual_ok_def table_groups_def)
  ultimately show ?thesis by (simp add: table_groups_def table_tier_def)
qed

lemma piece_hd:
  assumes "visual_ok show_number t"
  shows "piece show_number t \<noteq> []" "hd (piece show_number t @ s) \<in> {CHR ''p'', CHR ''c'', CHR ''l'', CHR ''t''}"
  using assms conditions_text_hd(2) [of show_number "vi_conditions t" "'' ? '' @ tier_call show_number (vi_label t) t @ s"]
  by (auto simp: piece_def tier_call_def visual_ok_def)

lemma chain_shown:
  assumes "list_all (visual_ok show_number) ts" "rx_all table_pattern s = map (table_groups show_number) ts" "s \<noteq> []" "hd s \<noteq> CHR ''v''"
  shows "parseTiersFromExpr s = map table_tier ts"
  unfolding parseTiersFromExpr_def using assms unversioned [OF assms(3,4)] table_read
  by (simp add: list_all_iff del: One_nat_def)

lemma tiers_shown:
  assumes "list_all (visual_ok show_number) tiers" "tiers \<noteq> []" "length tiers = 1 \<or> vi_conditions (last tiers) = []"
  shows "parseTiersFromExpr (generateExprFromVisualConfig show_number (Some tiers)) = map table_tier tiers"
proof (cases "length tiers = 1")
  case True
  then obtain t where ts: "tiers = [t]" by (auto simp: length_Suc_conv)
  with assms(1) have t: "visual_ok show_number t" by simp
  show ?thesis unfolding ts single_generated [OF t]
    using t piece_hd [OF t] table.piece_all [OF t] table.empty_all otherwise_no_tier by (intro chain_shown [where show_number = show_number]) auto
next
  case False
  with assms(2,3) have len: "length tiers > 1" "vi_conditions (last tiers) = []" by (cases tiers; auto)+
  obtain t t' us where ts: "tiers = t # t' # us" using len(1) by (cases tiers; cases "tl tiers") auto
  have "visual_ok show_number t" using assms(1) ts by simp
  from piece_hd [OF this] show ?thesis
    unfolding pieces_generated [OF assms(1) len] using assms(1) table.chain_all [OF assms(1,2), of "[]"] table.empty_all ts
    by (intro chain_shown [where show_number = show_number]) auto
qed

end
