(* ===== verification/Pricing_Models.thy ===== *)
theory Pricing_Models
  imports Task_Expr Ordered_Map Js_Regex
begin

text \<open>
  The model list of the pricing page: its models (\<open>pricing/types.ts\<close>), the ratios and prices of a model
  (\<open>model-helpers.ts\<close>, \<open>price.ts\<close>), filters and order (\<open>filters.ts\<close>), and the state of the filters
  (\<open>use-filters.ts\<close>).  \<open>rank\<close> is the collation order of \<open>localeCompare\<close>; \<open>format\<close> is \<open>formatCurrencyFromUSD\<close> with the
  digits of large and small amounts; a number that is not finite is \<open>None\<close>.
\<close>

section \<open>Models\<close>

record VideoPriceRow =
  vp_resolution :: string
  vp_normal_price :: number
  vp_off_peak_price :: number

record PricingModel =
  pm_model_name :: string
  pm_description :: "string option"
  pm_vendor_name :: "string option"
  pm_quota_type :: int
  pm_model_ratio :: number
  pm_completion_ratio :: number
  pm_model_price :: "number option"
  pm_cache_ratio :: "number option"
  pm_create_cache_ratio :: "number option"
  pm_image_ratio :: "number option"
  pm_audio_ratio :: "number option"
  pm_audio_completion_ratio :: "number option"
  pm_enable_groups :: "string list option"
  pm_tags :: "string option"
  pm_supported_endpoint_types :: "string list option"
  pm_group_ratio :: "(string \<rightharpoonup> number) option"
  pm_billing_mode :: "string option"
  pm_billing_expr :: "string option"
  pm_video_prices :: "VideoPriceRow list option"
  pm_billing_usage_schema :: "BillingUsageSchema option"
  pm_billing_usage_examples :: "BillingUsageExample list option"

datatype TokenUnit = UnitM | UnitK

datatype PriceType = PriceInput | PriceOutput | PriceCache | PriceCreateCache | PriceImage | PriceAudioInput | PriceAudioOutput

definition FILTER_ALL :: string where "FILTER_ALL = ''all''"

definition EXCLUDED_GROUPS :: "string list" where "EXCLUDED_GROUPS = [[], ''auto'']"

definition QUOTA_TOKEN :: int where "QUOTA_TOKEN = 0"

definition QUOTA_REQUEST :: int where "QUOTA_REQUEST = 1"

fun TOKEN_UNIT_DIVISORS :: "TokenUnit \<Rightarrow> number" where
  "TOKEN_UNIT_DIVISORS UnitM = 1"
| "TOKEN_UNIT_DIVISORS UnitK = 1000"

definition hasTaskUsageSchema :: "PricingModel \<Rightarrow> bool" where
  "hasTaskUsageSchema model \<longleftrightarrow> nullish (pm_billing_usage_schema model) [] \<noteq> []"

section \<open>Group ratios\<close>

definition getAvailableGroups :: "PricingModel \<Rightarrow> (string \<times> 'a) list \<Rightarrow> string list" where
  "getAvailableGroups model usableGroup =
    filter (\<lambda>g. g \<in> set (nullish (pm_enable_groups model) [])) (filter (\<lambda>g. g \<notin> set EXCLUDED_GROUPS) (map fst usableGroup))"

definition getConfiguredGroupRatio :: "(string \<rightharpoonup> number) \<Rightarrow> string \<Rightarrow> number" where
  "getConfiguredGroupRatio groupRatio grp = nullish (groupRatio grp) 1"

text \<open>The loop for \<open>minRatio\<close>, which is \<open>None\<close> at infinity.\<close>

fun min_ratio :: "(string \<rightharpoonup> number) \<Rightarrow> number option \<Rightarrow> string list \<Rightarrow> number option" where
  "min_ratio groupRatio minRatio [] = minRatio"
| "min_ratio groupRatio minRatio (grp # groups) =
    min_ratio groupRatio
      (case groupRatio grp of
        None \<Rightarrow> minRatio
      | Some r \<Rightarrow> (case minRatio of None \<Rightarrow> Some r | Some m \<Rightarrow> if r < m then Some r else Some m)) groups"

definition getDisplayGroupRatio :: "PricingModel \<Rightarrow> string option \<Rightarrow> number" where
  "getDisplayGroupRatio model selectedGroup =
    (let modelEnableGroups = nullish (pm_enable_groups model) []; groupRatio = nullish (pm_group_ratio model) Map.empty;
         chosen = nullish selectedGroup [] in
     if chosen \<noteq> [] \<and> chosen \<noteq> FILTER_ALL \<and> chosen \<in> set modelEnableGroups then getConfiguredGroupRatio groupRatio chosen
     else if modelEnableGroups = [] then 1
     else nullish (min_ratio groupRatio None modelEnableGroups) 1)"

definition getViewerGroupRatio :: "PricingModel \<Rightarrow> (string \<times> 'a) list \<Rightarrow> (string \<rightharpoonup> number) \<Rightarrow> number" where
  "getViewerGroupRatio model usableGroup groupRatio =
    (let intersection = getAvailableGroups model usableGroup;
         candidates = (if intersection \<noteq> [] then intersection else nullish (pm_enable_groups model) []) in
     nullish (min_ratio groupRatio None candidates) 1)"

definition getViewerModelDiscount :: "(string \<rightharpoonup> number) option \<Rightarrow> string \<Rightarrow> number" where
  "getViewerModelDiscount discounts modelName =
    (case nullish discounts Map.empty modelName of
      None \<Rightarrow> 1
    | Some discount \<Rightarrow> if discount > 0 \<and> discount < 1 then discount else 1)"

definition isTokenBasedModel :: "PricingModel \<Rightarrow> bool" where
  "isTokenBasedModel model \<longleftrightarrow> pm_quota_type model = QUOTA_TOKEN"

section \<open>Prices\<close>

definition ratio_price :: "number \<Rightarrow> number option \<Rightarrow> number option" where
  "ratio_price base ratio = map_option (\<lambda>r. base * r) ratio"

definition calculateTokenPrice :: "PricingModel \<Rightarrow> PriceType \<Rightarrow> number \<Rightarrow> number \<Rightarrow> number option" where
  "calculateTokenPrice model type ratio modelDiscount =
    (let base = pm_model_ratio model * 2 * ratio * modelDiscount in
     case type of
       PriceInput \<Rightarrow> Some base
     | PriceOutput \<Rightarrow> Some (base * pm_completion_ratio model)
     | PriceCache \<Rightarrow> ratio_price base (pm_cache_ratio model)
     | PriceCreateCache \<Rightarrow> ratio_price base (pm_create_cache_ratio model)
     | PriceImage \<Rightarrow> ratio_price base (pm_image_ratio model)
     | PriceAudioInput \<Rightarrow> ratio_price base (pm_audio_ratio model)
     | PriceAudioOutput \<Rightarrow> (case pm_audio_ratio model of
         None \<Rightarrow> None
       | Some a \<Rightarrow> ratio_price (base * a) (pm_audio_completion_ratio model)))"

definition applyRechargeRate :: "number option \<Rightarrow> bool \<Rightarrow> number \<Rightarrow> number \<Rightarrow> number option" where
  "applyRechargeRate price showWithRecharge priceRate usdExchangeRate =
    (if \<not> showWithRecharge then price
     else if usdExchangeRate = 0 then None
     else map_option (\<lambda>p. p * priceRate / usdExchangeRate) price)"

definition token_price_text :: "(nat \<Rightarrow> nat \<Rightarrow> number option \<Rightarrow> string) \<Rightarrow> number option \<Rightarrow> TokenUnit \<Rightarrow> bool \<Rightarrow> number \<Rightarrow> number \<Rightarrow> string" where
  "token_price_text format priceInUSD tokenUnit showWithRecharge priceRate usdExchangeRate =
    format 4 6 (map_option (\<lambda>p. p / TOKEN_UNIT_DIVISORS tokenUnit) (applyRechargeRate priceInUSD showWithRecharge priceRate usdExchangeRate))"

definition formatPrice ::
    "(nat \<Rightarrow> nat \<Rightarrow> number option \<Rightarrow> string) \<Rightarrow> PricingModel \<Rightarrow> PriceType \<Rightarrow> TokenUnit \<Rightarrow> bool \<Rightarrow> number \<Rightarrow> number \<Rightarrow> string option \<Rightarrow> number \<Rightarrow> string" where
  "formatPrice format model type tokenUnit showWithRecharge priceRate usdExchangeRate selectedGroup modelDiscount =
    (if pm_quota_type model = QUOTA_REQUEST then ''-''
     else token_price_text format (calculateTokenPrice model type (getDisplayGroupRatio model selectedGroup) modelDiscount)
       tokenUnit showWithRecharge priceRate usdExchangeRate)"

definition formatGroupPrice ::
    "(nat \<Rightarrow> nat \<Rightarrow> number option \<Rightarrow> string) \<Rightarrow> PricingModel \<Rightarrow> string \<Rightarrow> PriceType \<Rightarrow> TokenUnit \<Rightarrow> bool \<Rightarrow> number \<Rightarrow> number \<Rightarrow>
     (string \<rightharpoonup> number) \<Rightarrow> number \<Rightarrow> string" where
  "formatGroupPrice format model grp type tokenUnit showWithRecharge priceRate usdExchangeRate groupRatio modelDiscount =
    (if pm_quota_type model = QUOTA_REQUEST then ''-''
     else token_price_text format (calculateTokenPrice model type (getConfiguredGroupRatio groupRatio grp) modelDiscount)
       tokenUnit showWithRecharge priceRate usdExchangeRate)"

definition request_price_text :: "(nat \<Rightarrow> nat \<Rightarrow> number option \<Rightarrow> string) \<Rightarrow> PricingModel \<Rightarrow> number \<Rightarrow> bool \<Rightarrow> number \<Rightarrow> number \<Rightarrow> number \<Rightarrow> string" where
  "request_price_text format model ratio showWithRecharge priceRate usdExchangeRate modelDiscount =
    format 4 4 (applyRechargeRate (Some (nullish (pm_model_price model) 0 * ratio * modelDiscount)) showWithRecharge priceRate usdExchangeRate)"

definition formatFixedPrice ::
    "(nat \<Rightarrow> nat \<Rightarrow> number option \<Rightarrow> string) \<Rightarrow> PricingModel \<Rightarrow> string \<Rightarrow> bool \<Rightarrow> number \<Rightarrow> number \<Rightarrow> (string \<rightharpoonup> number) \<Rightarrow> number \<Rightarrow> string" where
  "formatFixedPrice format model grp showWithRecharge priceRate usdExchangeRate groupRatio modelDiscount =
    (if pm_quota_type model \<noteq> QUOTA_REQUEST then ''-''
     else request_price_text format model (getConfiguredGroupRatio groupRatio grp) showWithRecharge priceRate usdExchangeRate modelDiscount)"

definition formatRequestPrice ::
    "(nat \<Rightarrow> nat \<Rightarrow> number option \<Rightarrow> string) \<Rightarrow> PricingModel \<Rightarrow> bool \<Rightarrow> number \<Rightarrow> number \<Rightarrow> string option \<Rightarrow> number \<Rightarrow> string" where
  "formatRequestPrice format model showWithRecharge priceRate usdExchangeRate selectedGroup modelDiscount =
    (if pm_quota_type model \<noteq> QUOTA_REQUEST then ''-''
     else request_price_text format model (getDisplayGroupRatio model selectedGroup) showWithRecharge priceRate usdExchangeRate modelDiscount)"

section \<open>Filters\<close>

definition lower :: "string \<Rightarrow> string" where
  "lower s = map lower_char s"

definition text_matches :: "string \<Rightarrow> string option \<Rightarrow> bool" where
  "text_matches lowerQuery t \<longleftrightarrow> (case t of None \<Rightarrow> False | Some s \<Rightarrow> contains (lower s) lowerQuery)"

definition filterBySearch :: "PricingModel list \<Rightarrow> string \<Rightarrow> PricingModel list" where
  "filterBySearch models query =
    (if query = [] then models
     else filter (\<lambda>m. list_ex (text_matches (lower query)) [Some (pm_model_name m), pm_description m, pm_tags m, pm_vendor_name m]) models)"

definition filterByVendor :: "PricingModel list \<Rightarrow> string \<Rightarrow> PricingModel list" where
  "filterByVendor models vendor = (if vendor = FILTER_ALL then models else filter (\<lambda>m. pm_vendor_name m = Some vendor) models)"

definition filterByGroup :: "PricingModel list \<Rightarrow> string \<Rightarrow> PricingModel list" where
  "filterByGroup models grp = (if grp = FILTER_ALL then models else filter (\<lambda>m. grp \<in> set (nullish (pm_enable_groups m) [])) models)"

definition QUOTA_TYPES_ALL :: string where "QUOTA_TYPES_ALL = ''all''"

definition filterByQuotaType :: "PricingModel list \<Rightarrow> string \<Rightarrow> PricingModel list" where
  "filterByQuotaType models quotaType =
    (if quotaType = QUOTA_TYPES_ALL then models
     else if quotaType = ''task'' then filter hasTaskUsageSchema models
     else let targetType = (if quotaType = ''token'' then QUOTA_TOKEN else QUOTA_REQUEST) in
       filter (\<lambda>m. pm_quota_type m = targetType \<and> \<not> hasTaskUsageSchema m) models)"

definition ENDPOINT_ALL :: string where "ENDPOINT_ALL = ''all''"

definition ENDPOINT_VIDEO :: string where "ENDPOINT_VIDEO = ''video''"

definition VIDEO_STYLES :: "string list" where "VIDEO_STYLES = [''openai-video'', ''ark-video'', ''video-generation'']"

definition matchesEndpointType :: "PricingModel \<Rightarrow> string \<Rightarrow> bool" where
  "matchesEndpointType model endpointType \<longleftrightarrow>
    (let wanted = (if endpointType = ENDPOINT_VIDEO then VIDEO_STYLES else [endpointType]) in
     if endpointType = ENDPOINT_VIDEO \<and> pm_video_prices model \<noteq> None then True
     else list_ex (\<lambda>type. type \<in> set (nullish (pm_supported_endpoint_types model) [])) wanted)"

definition filterByEndpointType :: "PricingModel list \<Rightarrow> string \<Rightarrow> PricingModel list" where
  "filterByEndpointType models endpointType =
    (if endpointType = ENDPOINT_ALL then models else filter (\<lambda>m. matchesEndpointType m endpointType) models)"

definition getModelPrice :: "PricingModel \<Rightarrow> number" where
  "getModelPrice model = (if pm_quota_type model = 0 then pm_model_ratio model else nullish (pm_model_price model) 0)"

definition SORT_NAME :: string where "SORT_NAME = ''name''"

definition sortModels :: "(string \<Rightarrow> string) \<Rightarrow> PricingModel list \<Rightarrow> string \<Rightarrow> PricingModel list" where
  "sortModels rank models sortBy =
    (if sortBy = SORT_NAME then sort_key (\<lambda>m. rank (pm_model_name m)) models
     else if sortBy = ''price-low'' then sort_key getModelPrice models
     else if sortBy = ''price-high'' then sort_key (\<lambda>m. - getModelPrice m) models
     else models)"

definition tag_separator :: "char \<Rightarrow> bool" where
  "tag_separator c \<longleftrightarrow> c \<in> set '',;|'' \<or> space_char c"

definition parseTags :: "string option \<Rightarrow> string list" where
  "parseTags tagsString =
    (case tagsString of
      None \<Rightarrow> []
    | Some s \<Rightarrow> if s = [] then [] else filter (\<lambda>t. t \<noteq> []) (map trim (rx_split (some_of tag_separator) [] s)))"

definition filterByTag :: "PricingModel list \<Rightarrow> string \<Rightarrow> PricingModel list" where
  "filterByTag models tag =
    (if tag = FILTER_ALL then models else filter (\<lambda>m. lower tag \<in> set (map lower (parseTags (pm_tags m)))) models)"

definition extractAllTags :: "(string \<Rightarrow> string) \<Rightarrow> PricingModel list \<Rightarrow> string list" where
  "extractAllTags rank models = sort_key rank (unique (concat (map (\<lambda>m. map lower (parseTags (pm_tags m))) models)))"

record ModelFilters =
  mf_search :: string
  mf_vendor :: string
  mf_group :: string
  mf_quotaType :: string
  mf_endpointType :: string
  mf_tag :: string
  mf_sortBy :: string

definition filterAndSortModels :: "(string \<Rightarrow> string) \<Rightarrow> PricingModel list \<Rightarrow> ModelFilters \<Rightarrow> PricingModel list" where
  "filterAndSortModels rank models filters =
    (let result = filterBySearch models (mf_search filters);
         result = filterByVendor result (mf_vendor filters);
         result = filterByGroup result (mf_group filters);
         result = filterByQuotaType result (mf_quotaType filters);
         result = filterByEndpointType result (mf_endpointType filters);
         result = filterByTag result (mf_tag filters) in
     sortModels rank result (mf_sortBy filters))"

section \<open>The state of the filters\<close>

datatype ViewMode = CardView | TableView

text \<open>A member that is not there is \<open>None\<close>.\<close>

record FilterState =
  fs_search :: "string option"
  fs_sort :: "string option"
  fs_vendor :: "string option"
  fs_group :: "string option"
  fs_quotaType :: "string option"
  fs_endpointType :: "string option"
  fs_tag :: "string option"
  fs_tokenUnit :: "TokenUnit option"
  fs_view :: "ViewMode option"
  fs_rechargePrice :: "bool option"

definition SHOW_SORT_CONTROL :: bool where "SHOW_SORT_CONTROL = False"

definition SHOW_PRICE_SORT :: bool where "SHOW_PRICE_SORT = False"

definition SHOW_GROUP_FILTER :: bool where "SHOW_GROUP_FILTER = False"

definition SHOW_QUOTA_TYPE_FILTER :: bool where "SHOW_QUOTA_TYPE_FILTER = False"

definition SHOW_RECHARGE_PRICE_MODE :: bool where "SHOW_RECHARGE_PRICE_MODE = False"

text \<open>\<open>x || d\<close> on texts.\<close>

definition text_or :: "string option \<Rightarrow> string \<Rightarrow> string" where
  "text_or x d = (case x of None \<Rightarrow> d | Some s \<Rightarrow> if s = [] then d else s)"

definition sortBy :: "FilterState \<Rightarrow> string" where
  "sortBy st =
    (let requestedSort = text_or (fs_sort st) SORT_NAME;
         sortOffered = SHOW_SORT_CONTROL \<and> (requestedSort = SORT_NAME \<or> SHOW_PRICE_SORT) in
     if sortOffered then requestedSort else SORT_NAME)"

definition vendorFilter :: "FilterState \<Rightarrow> string" where
  "vendorFilter st = text_or (fs_vendor st) FILTER_ALL"

definition groupFilter :: "FilterState \<Rightarrow> string" where
  "groupFilter st = (if SHOW_GROUP_FILTER then text_or (fs_group st) FILTER_ALL else FILTER_ALL)"

definition quotaTypeFilter :: "FilterState \<Rightarrow> string" where
  "quotaTypeFilter st = (if SHOW_QUOTA_TYPE_FILTER then text_or (fs_quotaType st) QUOTA_TYPES_ALL else QUOTA_TYPES_ALL)"

definition endpointTypeFilter :: "FilterState \<Rightarrow> string" where
  "endpointTypeFilter st = text_or (fs_endpointType st) ENDPOINT_ALL"

definition tagFilter :: "FilterState \<Rightarrow> string" where
  "tagFilter st = text_or (fs_tag st) FILTER_ALL"

definition tokenUnit :: "FilterState \<Rightarrow> TokenUnit" where
  "tokenUnit st = (if fs_tokenUnit st = Some UnitK then UnitK else UnitM)"

definition normalizeViewMode :: "ViewMode option \<Rightarrow> ViewMode" where
  "normalizeViewMode v = (if v = Some TableView then TableView else CardView)"

definition showRechargePrice :: "FilterState \<Rightarrow> bool" where
  "showRechargePrice st \<longleftrightarrow> SHOW_RECHARGE_PRICE_MODE \<and> fs_rechargePrice st = Some True"

definition unless_default :: "'a \<Rightarrow> 'a \<Rightarrow> 'a option" where
  "unless_default d v = (if v = d then None else Some v)"

datatype filter_event =
    SetSearch string | SetSort string | SetVendor string | SetGroup string | SetQuotaType string | SetEndpointType string
  | SetTag string | SetTokenUnit TokenUnit | SetView ViewMode | SetRecharge bool | ClearFilters | ClearSearch

fun filter_step :: "FilterState \<Rightarrow> filter_event \<Rightarrow> FilterState" where
  "filter_step st (SetSearch v) = st\<lparr>fs_search := unless_default [] v\<rparr>"
| "filter_step st (SetSort v) = st\<lparr>fs_sort := unless_default SORT_NAME v\<rparr>"
| "filter_step st (SetVendor v) = st\<lparr>fs_vendor := unless_default FILTER_ALL v\<rparr>"
| "filter_step st (SetGroup v) = st\<lparr>fs_group := unless_default FILTER_ALL v\<rparr>"
| "filter_step st (SetQuotaType v) = st\<lparr>fs_quotaType := unless_default QUOTA_TYPES_ALL v\<rparr>"
| "filter_step st (SetEndpointType v) = st\<lparr>fs_endpointType := unless_default ENDPOINT_ALL v\<rparr>"
| "filter_step st (SetTag v) = st\<lparr>fs_tag := unless_default FILTER_ALL v\<rparr>"
| "filter_step st (SetTokenUnit v) = st\<lparr>fs_tokenUnit := unless_default UnitM v\<rparr>"
| "filter_step st (SetView v) = st\<lparr>fs_view := unless_default CardView v\<rparr>"
| "filter_step st (SetRecharge v) = st\<lparr>fs_rechargePrice := unless_default False v\<rparr>"
| "filter_step st ClearFilters = st\<lparr>fs_vendor := None, fs_group := None, fs_quotaType := None, fs_endpointType := None, fs_tag := None\<rparr>"
| "filter_step st ClearSearch = st\<lparr>fs_search := None\<rparr>"

text \<open>The list for the debounced search text.\<close>

definition filteredModels :: "(string \<Rightarrow> string) \<Rightarrow> PricingModel list option \<Rightarrow> string \<Rightarrow> FilterState \<Rightarrow> PricingModel list" where
  "filteredModels rank models debouncedSearchInput st =
    (if nullish models [] = [] then []
     else filterAndSortModels rank (nullish models [])
       \<lparr>mf_search = debouncedSearchInput, mf_vendor = vendorFilter st, mf_group = groupFilter st, mf_quotaType = quotaTypeFilter st,
        mf_endpointType = endpointTypeFilter st, mf_tag = tagFilter st, mf_sortBy = sortBy st\<rparr>)"

definition hasActiveFilters :: "FilterState \<Rightarrow> bool" where
  "hasActiveFilters st \<longleftrightarrow> vendorFilter st \<noteq> FILTER_ALL \<or> groupFilter st \<noteq> FILTER_ALL \<or> quotaTypeFilter st \<noteq> QUOTA_TYPES_ALL \<or>
    endpointTypeFilter st \<noteq> ENDPOINT_ALL \<or> tagFilter st \<noteq> FILTER_ALL"

definition activeFilterCount :: "FilterState \<Rightarrow> nat" where
  "activeFilterCount st = (if vendorFilter st \<noteq> FILTER_ALL then 1 else 0) + (if groupFilter st \<noteq> FILTER_ALL then 1 else 0) +
    (if quotaTypeFilter st \<noteq> QUOTA_TYPES_ALL then 1 else 0) + (if endpointTypeFilter st \<noteq> ENDPOINT_ALL then 1 else 0) +
    (if tagFilter st \<noteq> FILTER_ALL then 1 else 0)"

section \<open>What the list shows\<close>

definition model_matches :: "string \<Rightarrow> FilterState \<Rightarrow> PricingModel \<Rightarrow> bool" where
  "model_matches query st m \<longleftrightarrow>
    (query = [] \<or> (\<exists>t. Some t \<in> {Some (pm_model_name m), pm_description m, pm_tags m, pm_vendor_name m} \<and> contains (lower t) (lower query))) \<and>
    (vendorFilter st = FILTER_ALL \<or> pm_vendor_name m = Some (vendorFilter st)) \<and>
    (endpointTypeFilter st = ENDPOINT_ALL \<or> matchesEndpointType m (endpointTypeFilter st)) \<and>
    (tagFilter st = FILTER_ALL \<or> (\<exists>t \<in> set (parseTags (pm_tags m)). lower (tagFilter st) = lower t))"

lemma search_matches:
  "filterBySearch models query = filter (\<lambda>m. query = [] \<or>
    (\<exists>t. Some t \<in> {Some (pm_model_name m), pm_description m, pm_tags m, pm_vendor_name m} \<and> contains (lower t) (lower query))) models"
proof -
  have "list_ex (text_matches q) ts \<longleftrightarrow> (\<exists>t. Some t \<in> set ts \<and> contains (lower t) q)" for q ts
    by (induction ts) (auto simp: text_matches_def split: option.splits)
  then show ?thesis unfolding filterBySearch_def by (simp only: list.set) simp
qed

lemma hidden_controls: "groupFilter st = FILTER_ALL" "quotaTypeFilter st = QUOTA_TYPES_ALL" "sortBy st = SORT_NAME"
  by (simp_all add: groupFilter_def SHOW_GROUP_FILTER_def quotaTypeFilter_def SHOW_QUOTA_TYPE_FILTER_def sortBy_def SHOW_SORT_CONTROL_def Let_def)

lemma list_matches: "filteredModels rank models query st = sort_key (\<lambda>m. rank (pm_model_name m)) (filter (model_matches query st) (nullish models []))"
proof (cases "nullish models [] = []")
  case False
  have "filterByTag ms tag = filter (\<lambda>m. tag = FILTER_ALL \<or> (\<exists>t \<in> set (parseTags (pm_tags m)). lower tag = lower t)) ms" for ms tag
    by (simp add: filterByTag_def image_iff)
  moreover have "filterByVendor ms v = filter (\<lambda>m. v = FILTER_ALL \<or> pm_vendor_name m = Some v) ms" for ms v
    by (simp add: filterByVendor_def)
  moreover have "filterByEndpointType ms e = filter (\<lambda>m. e = ENDPOINT_ALL \<or> matchesEndpointType m e) ms" for ms e
    by (simp add: filterByEndpointType_def)
  ultimately show ?thesis using False
    by (simp add: filteredModels_def filterAndSortModels_def hidden_controls filterByGroup_def filterByQuotaType_def sortModels_def search_matches
        model_matches_def [abs_def] conj_ac Let_def)
qed (simp add: filteredModels_def)

text \<open>C30: The list of models follows the filters on the screen and nothing else: it holds, in the order of their names, exactly
  the models that match the search text, the vendor, the endpoint and the tag, whatever group, pricing type or order a link
  has asked for; with no filter counted as active and no search text it holds all models, and so it does after the filters are cleared.\<close>

theorem list_follows_filters:
  "filteredModels rank models query st = sort_key (\<lambda>m. rank (pm_model_name m)) (filter (model_matches query st) (nullish models [])) \<and>
   (activeFilterCount st = 0 \<longrightarrow> filteredModels rank models [] st = sort_key (\<lambda>m. rank (pm_model_name m)) (nullish models [])) \<and>
   filteredModels rank models [] (filter_step (foldl filter_step st es) ClearFilters) = sort_key (\<lambda>m. rank (pm_model_name m)) (nullish models [])"
proof -
  have all: "filteredModels rank models [] s = sort_key (\<lambda>m. rank (pm_model_name m)) (nullish models [])" if "activeFilterCount s = 0" for s
    using that unfolding list_matches by (auto simp: activeFilterCount_def model_matches_def split: if_splits)
  moreover have "activeFilterCount (filter_step s ClearFilters) = 0" for s
    by (simp add: activeFilterCount_def vendorFilter_def endpointTypeFilter_def tagFilter_def hidden_controls text_or_def)
  ultimately show ?thesis by (simp add: list_matches)
qed

section \<open>Which ratio is shown\<close>

lemma min_ratio_min:
  "min_ratio groupRatio m groups =
    (let rs = set_option m \<union> {r. \<exists>g \<in> set groups. groupRatio g = Some r} in if rs = {} then None else Some (Min rs))"
proof (induction groups arbitrary: m)
  case Nil
  then show ?case by (cases m) (simp_all add: Let_def)
next
  case (Cons grp groups)
  define m' where "m' = (case groupRatio grp of None \<Rightarrow> m | Some r \<Rightarrow> (case m of None \<Rightarrow> Some r | Some k \<Rightarrow> if r < k then Some r else Some k))"
  let ?R = "\<lambda>groups. {r. \<exists>g \<in> set groups. groupRatio g = Some r}"
  have fin: "finite (?R groups)" for groups
    by (rule finite_surj [of "set groups" _ "\<lambda>g. the (groupRatio g)"]) force+
  have step: "?R (grp # groups) = set_option (groupRatio grp) \<union> ?R groups" by (auto; force)
  have "min_ratio groupRatio m (grp # groups) = min_ratio groupRatio m' groups" by (simp add: m'_def)
  moreover have "(set_option m' \<union> ?R groups = {}) = (set_option m \<union> ?R (grp # groups) = {})"
    unfolding step by (auto simp: m'_def split: option.splits if_splits)
  moreover have "Min (set_option m' \<union> ?R groups) = Min (set_option m \<union> ?R (grp # groups))" if "set_option m' \<union> ?R groups \<noteq> {}"
  proof (cases "groupRatio grp")
    case (Some r)
    show ?thesis
    proof (cases m)
      case m: (Some k)
      have "m' = Some (min r k)" using Some m by (simp add: m'_def min_def)
      then show ?thesis unfolding step using Some m fin [of groups]
        by (cases "?R groups = {}") (simp_all add: Min_insert min.assoc min.commute min.left_commute)
    next
      case None
      have "m' = Some r" using Some None by (simp add: m'_def)
      then show ?thesis unfolding step using Some None by (simp only: option.set Un_empty_left)
    qed
  next
    case None
    then show ?thesis unfolding step m'_def by (simp only: option.case option.set Un_empty_left)
  qed
  ultimately show ?case unfolding Cons.IH Let_def by simp
qed

text \<open>The ratio behind the price of a model: that of the chosen group if the model has it, and otherwise the lowest
  ratio configured for any of its groups, 1 if there is none.\<close>

theorem display_ratio_exact:
  "getDisplayGroupRatio model selectedGroup =
    (let groups = set (nullish (pm_enable_groups model) []); groupRatio = nullish (pm_group_ratio model) Map.empty;
         rs = {r. \<exists>g \<in> groups. groupRatio g = Some r} in
     case selectedGroup of
       Some g \<Rightarrow> if g \<notin> {[], FILTER_ALL} \<and> g \<in> groups then nullish (groupRatio g) 1 else if rs = {} then 1 else Min rs
     | None \<Rightarrow> if rs = {} then 1 else Min rs)"
  by (auto simp: getDisplayGroupRatio_def getConfiguredGroupRatio_def min_ratio_min nullish_def Let_def split: option.splits)

text \<open>Without a chosen group the comment promises the best price; a group without a configured ratio, which counts as 1, is left out of
  the comparison.\<close>

definition two_groups :: PricingModel where
  "two_groups = \<lparr>pm_model_name = ''m'', pm_description = None, pm_vendor_name = None, pm_quota_type = 0, pm_model_ratio = 1, pm_completion_ratio = 1,
    pm_model_price = None, pm_cache_ratio = None, pm_create_cache_ratio = None, pm_image_ratio = None, pm_audio_ratio = None,
    pm_audio_completion_ratio = None, pm_enable_groups = Some [''vip'', ''default''], pm_tags = None, pm_supported_endpoint_types = None,
    pm_group_ratio = Some [''vip'' \<mapsto> 2], pm_billing_mode = None, pm_billing_expr = None, pm_video_prices = None,
    pm_billing_usage_schema = None, pm_billing_usage_examples = None\<rparr>"

lemma display_ratio_not_best: "getDisplayGroupRatio two_groups None = 2 \<and> getDisplayGroupRatio two_groups (Some ''default'') = 1"
  by code_simp

definition no_filters :: FilterState where
  "no_filters = \<lparr>fs_search = None, fs_sort = Some ''price-low'', fs_vendor = None, fs_group = Some ''vip'', fs_quotaType = None, fs_endpointType = Some [],
    fs_tag = None, fs_tokenUnit = None, fs_view = None, fs_rechargePrice = None\<rparr>"

definition two_models :: "PricingModel list" where
  "two_models = [two_groups\<lparr>pm_model_name := ''n''\<rparr>, two_groups]"

theorem list_follows_filters_witness:
  "activeFilterCount no_filters = 0 \<and> filteredModels (\<lambda>s. s) (Some two_models) [] no_filters = rev two_models"
proof -
  have c: "activeFilterCount no_filters = 0" by code_simp
  from list_follows_filters [of "\<lambda>s. s" "Some two_models" "[]" no_filters "[]"] c
  have "filteredModels (\<lambda>s. s) (Some two_models) [] no_filters = sort_key (\<lambda>m. pm_model_name m) (nullish (Some two_models) [])" by blast
  moreover have "sort_key (\<lambda>m. pm_model_name m) two_models = rev two_models" by (simp add: two_models_def two_groups_def)
  ultimately show ?thesis using c by (simp add: nullish_def)
qed

end
