(* ===== verification/Dynamic_Price.thy ===== *)
theory Dynamic_Price
  imports Tier_Display Pricing_Models Task_Configs
begin

text \<open>
  The summary of a model with a price expression (\<open>dynamic-price.ts\<close>): its tiers, the prices of the tier that is shown, their ranges,
  and the example price of a card.  \<open>format\<close> is \<open>formatBillingCurrencyFromUSD\<close> with its digits.  An expression whose rules make the
  JSON parser throw is \<open>Inl\<close>.
\<close>

section \<open>Entries\<close>

record DynamicPriceOptions =
  do_tokenUnit :: TokenUnit
  do_showRechargePrice :: "bool option"
  do_priceRate :: "number option"
  do_usdExchangeRate :: "number option"
  do_groupRatioMultiplier :: "number option"
  do_usageSchema :: "BillingUsageSchema option"

datatype DynamicPriceLabelKind = LabelI18n | LabelSchema

text \<open>A token price of a chat model has the unit \<open>token\<close> and a variable.\<close>

datatype entry_unit = EntryUsage BillingUsageUnit | EntryRequest

record DynamicPriceEntry =
  de_key :: string
  de_field :: string
  de_label :: string
  de_shortLabel :: string
  de_labelKind :: DynamicPriceLabelKind
  de_value :: number
  de_formatted :: string
  de_formattedRange :: "string option"
  de_unit :: entry_unit
  de_variable :: "PriceField option"

datatype DynamicPricingTier = TokenTier ParsedTier | TaskTier TaskVisualTier

record DynamicPricingSummary =
  ds_tiers :: "DynamicPricingTier list"
  ds_tier :: "DynamicPricingTier option"
  ds_tierCount :: nat
  ds_hasRequestRules :: bool
  ds_isSpecialExpression :: bool
  ds_rawExpression :: string
  ds_entries :: "DynamicPriceEntry list"
  ds_primaryEntries :: "DynamicPriceEntry list"
  ds_secondaryEntries :: "DynamicPriceEntry list"
  ds_isTaskUsage :: bool

text \<open>\<open>field\<close>, \<open>label\<close> and \<open>shortLabel\<close> of \<open>BILLING_VARS\<close>.\<close>

fun billing_var :: "PriceField \<Rightarrow> string \<times> string \<times> string" where
  "billing_var InputPrice = (''inputPrice'', ''Input price'', ''Input'')"
| "billing_var OutputPrice = (''outputPrice'', ''Completion price'', ''Output'')"
| "billing_var (ExtraPrice CacheRead) = (''cacheReadPrice'', ''Cache read price'', ''Cache Read'')"
| "billing_var (ExtraPrice CacheCreate) = (''cacheCreatePrice'', ''Cache create price'', ''Cache Write'')"
| "billing_var (ExtraPrice CacheCreate1h) = (''cacheCreate1hPrice'', ''Cache create (1h) price'', ''Cache Write (1h)'')"
| "billing_var (ExtraPrice ImageIn) = (''imagePrice'', ''Image input price'', ''Image In'')"
| "billing_var (ExtraPrice ImageOut) = (''imageOutputPrice'', ''Image output price'', ''Image Out'')"
| "billing_var (ExtraPrice AudioIn) = (''audioInputPrice'', ''Audio input price'', ''Audio In'')"
| "billing_var (ExtraPrice AudioOut) = (''audioOutputPrice'', ''Audio output price'', ''Audio Out'')"

fun getTaskUsageQuantityUnitLabelKey :: "BillingUsageUnit option \<Rightarrow> string" where
  "getTaskUsageQuantityUnitLabelKey (Some UnitSecond) = ''s''"
| "getTaskUsageQuantityUnitLabelKey (Some UnitToken) = ''token (unit)''"
| "getTaskUsageQuantityUnitLabelKey (Some UnitCredit) = ''credit''"
| "getTaskUsageQuantityUnitLabelKey _ = ''unit''"

fun getTaskUsagePriceUnitLabelKey :: "BillingUsageUnit option \<Rightarrow> string" where
  "getTaskUsagePriceUnitLabelKey (Some UnitSecond) = ''second''"
| "getTaskUsagePriceUnitLabelKey (Some UnitToken) = ''1M token''"
| "getTaskUsagePriceUnitLabelKey (Some UnitCredit) = ''credit''"
| "getTaskUsagePriceUnitLabelKey _ = ''unit''"

definition getDynamicPriceUnitLabelKey :: "DynamicPriceEntry \<Rightarrow> string option" where
  "getDynamicPriceUnitLabelKey entry =
    (case de_unit entry of
      EntryUsage UnitSecond \<Rightarrow> Some ''s''
    | EntryUsage UnitCount \<Rightarrow> Some ''unit''
    | EntryUsage UnitCredit \<Rightarrow> Some ''credit''
    | EntryUsage UnitToken \<Rightarrow> if de_variable entry = None then Some ''1M token'' else None
    | EntryRequest \<Rightarrow> Some ''request'')"

section \<open>Kinds of models\<close>

definition isDynamicPricingModel :: "PricingModel \<Rightarrow> bool" where
  "isDynamicPricingModel model \<longleftrightarrow> pm_billing_mode model = Some ''tiered_expr'' \<and> nullish (pm_billing_expr model) [] \<noteq> []"

definition isTaskUsagePricingModel :: "PricingModel \<Rightarrow> bool" where
  "isTaskUsagePricingModel model \<longleftrightarrow> pm_billing_mode model = Some ''tiered_expr'' \<and> hasTaskUsageSchema model"

definition isUnconfiguredTaskUsageModel :: "PricingModel \<Rightarrow> bool" where
  "isUnconfiguredTaskUsageModel model \<longleftrightarrow> pm_quota_type model \<noteq> 1 \<and> hasTaskUsageSchema model \<and> \<not> isDynamicPricingModel model"

definition getTaskPricingUnit :: "(string \<Rightarrow> string) \<Rightarrow> PricingModel \<Rightarrow> BillingUsageUnit option" where
  "getTaskPricingUnit rank model =
    (case getTaskNumberFields rank (nullish (pm_billing_usage_schema model) []) of [] \<Rightarrow> None | fd # _ \<Rightarrow> fs_unit (snd fd))"

section \<open>Prices\<close>

type_synonym currency = "nat \<Rightarrow> nat \<Rightarrow> number option \<Rightarrow> string"

definition recharged :: "DynamicPriceOptions \<Rightarrow> number \<Rightarrow> number option" where
  "recharged options priceUSD =
    applyRechargeRate (Some priceUSD) (nullish (do_showRechargePrice options) False) (nullish (do_priceRate options) 1) (nullish (do_usdExchangeRate options) 1)"

definition formatDynamicUnitPrice :: "currency \<Rightarrow> number \<Rightarrow> DynamicPriceOptions \<Rightarrow> string" where
  "formatDynamicUnitPrice format valuePerMillionTokens options =
    format 4 6 (recharged options (valuePerMillionTokens * nullish (do_groupRatioMultiplier options) 1 / TOKEN_UNIT_DIVISORS (do_tokenUnit options)))"

definition formatTaskUsageUnitPrice :: "currency \<Rightarrow> number \<Rightarrow> DynamicPriceOptions \<Rightarrow> string" where
  "formatTaskUsageUnitPrice format valuePerUnit options =
    format 4 6 (recharged options (valuePerUnit * nullish (do_groupRatioMultiplier options) 1))"

definition getDynamicPricingTiers ::
    "(string \<Rightarrow> json option) \<Rightarrow> (number \<Rightarrow> string) \<Rightarrow> PricingModel \<Rightarrow> unit + DynamicPricingTier list" where
  "getDynamicPricingTiers parse show_number model =
    (if \<not> isDynamicPricingModel model then Inr []
     else case splitBillingExprAndRequestRules parse show_number (nullish (pm_billing_expr model) []) of
       Inl e \<Rightarrow> Inl e
     | Inr (billingExpr, _) \<Rightarrow>
         if isTaskUsagePricingModel model
         then Inr (map TaskTier (parseTaskTiersFromExpr parse show_number billingExpr (nullish (pm_billing_usage_schema model) [])))
         else Inr (map TokenTier (parseTiersFromExpr billingExpr)))"

definition hasDynamicRequestRules :: "(string \<Rightarrow> json option) \<Rightarrow> (number \<Rightarrow> string) \<Rightarrow> PricingModel \<Rightarrow> unit + bool" where
  "hasDynamicRequestRules parse show_number model =
    (if \<not> isDynamicPricingModel model then Inr False
     else case splitBillingExprAndRequestRules parse show_number (nullish (pm_billing_expr model) []) of
       Inl e \<Rightarrow> Inl e
     | Inr (_, requestRuleExpr) \<Rightarrow> (case tryParseRequestRuleExpr parse show_number requestRuleExpr of
         Inl e \<Rightarrow> Inl e | Inr None \<Rightarrow> Inr False | Inr (Some gs) \<Rightarrow> Inr (gs \<noteq> [])))"

definition usage_entry :: "currency \<Rightarrow> DynamicPriceOptions \<Rightarrow> TaskVisualTier \<Rightarrow> string \<times> BillingUsageFieldSchema \<Rightarrow> DynamicPriceEntry option" where
  "usage_entry format options tier fd =
    (case (map_of (vt_unitPrices tier) (fst fd), fs_unit (snd fd)) of
      (Some v, Some u) \<Rightarrow> if v \<le> 0 then None
        else Some \<lparr>de_key = fst fd, de_field = fst fd, de_label = fst fd, de_shortLabel = fst fd, de_labelKind = LabelSchema, de_value = v,
          de_formatted = formatTaskUsageUnitPrice format v options, de_formattedRange = None, de_unit = EntryUsage u, de_variable = None\<rparr>
    | _ \<Rightarrow> None)"

definition constant_entry :: "currency \<Rightarrow> DynamicPriceOptions \<Rightarrow> TaskVisualTier \<Rightarrow> DynamicPriceEntry" where
  "constant_entry format options tier =
    \<lparr>de_key = ''constant'', de_field = ''constant'', de_label = ''Base charge'', de_shortLabel = ''Base'', de_labelKind = LabelI18n,
     de_value = vt_constant tier, de_formatted = formatTaskUsageUnitPrice format (vt_constant tier) options, de_formattedRange = None,
     de_unit = EntryRequest, de_variable = None\<rparr>"

definition token_entry :: "currency \<Rightarrow> DynamicPriceOptions \<Rightarrow> (PriceField \<Rightarrow> number) \<Rightarrow> PriceField \<times> string \<Rightarrow> DynamicPriceEntry option" where
  "token_entry format options price fv =
    (let v = price (fst fv); (field, label, shortLabel) = billing_var (fst fv) in
     if v \<le> 0 then None
     else Some \<lparr>de_key = snd fv, de_field = field, de_label = label, de_shortLabel = shortLabel, de_labelKind = LabelI18n, de_value = v,
       de_formatted = formatDynamicUnitPrice format v options, de_formattedRange = None, de_unit = EntryUsage UnitToken, de_variable = Some (fst fv)\<rparr>)"

definition PRIMARY_DYNAMIC_FIELDS :: "string list" where
  "PRIMARY_DYNAMIC_FIELDS = [''inputPrice'', ''outputPrice'']"

text \<open>A task tier that is read without a schema has none of the price fields.\<close>

definition getDynamicPriceEntries :: "(string \<Rightarrow> string) \<Rightarrow> currency \<Rightarrow> DynamicPricingTier option \<Rightarrow> DynamicPriceOptions \<Rightarrow> DynamicPriceEntry list" where
  "getDynamicPriceEntries rank format tier options =
    (case tier of
      None \<Rightarrow> []
    | Some (TaskTier t) \<Rightarrow> (case do_usageSchema options of
        None \<Rightarrow> []
      | Some schema \<Rightarrow> List.map_filter (usage_entry format options t) (getTaskNumberFields rank schema) @
          (if vt_constant t > 0 then [constant_entry format options t] else []))
    | Some (TokenTier t) \<Rightarrow>
        sort_key (\<lambda>e. if de_field e \<in> set PRIMARY_DYNAMIC_FIELDS then 0 else 1 :: nat)
          (List.map_filter (token_entry format options (pt_price t)) BILLING_PRICING_VARS))"

section \<open>The summary\<close>

fun task_prices :: "string \<Rightarrow> DynamicPricingTier list \<Rightarrow> number list" where
  "task_prices field [] = []"
| "task_prices field (TokenTier t # tiers) = task_prices field tiers"
| "task_prices field (TaskTier t # tiers) =
    (case map_of (vt_unitPrices t) field of
      Some v \<Rightarrow> if v \<le> 0 then task_prices field tiers else v # task_prices field tiers
    | None \<Rightarrow> task_prices field tiers)"

definition price_range :: "(string \<Rightarrow> string) \<Rightarrow> BillingUsageSchema \<Rightarrow> DynamicPricingTier list \<Rightarrow> string \<Rightarrow> (number \<times> number) option" where
  "price_range rank schema tiers field =
    (if field \<notin> fst ` set (getTaskNumberFields rank schema) then None
     else case task_prices field tiers of [] \<Rightarrow> None | v # vs \<Rightarrow> Some (foldl min v vs, foldl max v vs))"

text \<open>The dash between the ends of a range is beyond the characters of the model and is the parameter \<open>dash\<close>.\<close>

definition with_range :: "string \<Rightarrow> currency \<Rightarrow> DynamicPriceOptions \<Rightarrow> (string \<Rightarrow> (number \<times> number) option) \<Rightarrow> DynamicPriceEntry \<Rightarrow> DynamicPriceEntry" where
  "with_range dash format options ranges entry =
    (case ranges (de_field entry) of
      None \<Rightarrow> entry
    | Some (lo, hi) \<Rightarrow> if lo = hi then entry
        else entry\<lparr>de_formattedRange := Some (formatTaskUsageUnitPrice format lo options @ dash @ formatTaskUsageUnitPrice format hi options)\<rparr>)"

definition getDynamicPricingSummary ::
    "(string \<Rightarrow> string) \<Rightarrow> (string \<Rightarrow> json option) \<Rightarrow> (number \<Rightarrow> string) \<Rightarrow> string \<Rightarrow> currency \<Rightarrow> PricingModel \<Rightarrow> DynamicPriceOptions \<Rightarrow>
     unit + DynamicPricingSummary option" where
  "getDynamicPricingSummary rank parse show_number dash format model options =
    (if \<not> isDynamicPricingModel model then Inr None
     else case getDynamicPricingTiers parse show_number model of
       Inl e \<Rightarrow> Inl e
     | Inr tiers \<Rightarrow>
         (let isTaskUsage = isTaskUsagePricingModel model;
              tier = (if tiers = [] then None else if isTaskUsage then Some (last tiers) else Some (hd tiers));
              priced = getDynamicPriceEntries rank format tier (options\<lparr>do_usageSchema := pm_billing_usage_schema model\<rparr>);
              entries = (if isTaskUsage
                then map (with_range dash format options (price_range rank (nullish (pm_billing_usage_schema model) []) tiers)) priced else priced);
              rawExpression = nullish (pm_billing_expr model) [];
              primary = (\<lambda>e. if isTaskUsage then de_unit e \<noteq> EntryRequest else de_field e \<in> set PRIMARY_DYNAMIC_FIELDS) in
          case hasDynamicRequestRules parse show_number model of
            Inl e \<Rightarrow> Inl e
          | Inr hasRequestRules \<Rightarrow> Inr (Some
              \<lparr>ds_tiers = tiers, ds_tier = tier, ds_tierCount = length tiers, ds_hasRequestRules = hasRequestRules,
               ds_isSpecialExpression = (trim rawExpression \<noteq> [] \<and> tiers = []), ds_rawExpression = rawExpression, ds_entries = entries,
               ds_primaryEntries = filter primary entries, ds_secondaryEntries = filter (\<lambda>e. \<not> primary e) entries,
               ds_isTaskUsage = isTaskUsage\<rparr>)))"

definition getCardExamplePrice ::
    "(string \<Rightarrow> string) \<Rightarrow> (string \<Rightarrow> json option) \<Rightarrow> (number \<Rightarrow> string) \<Rightarrow> (string \<Rightarrow> number option) \<Rightarrow> currency \<Rightarrow> PricingModel \<Rightarrow>
     DynamicPriceOptions \<Rightarrow> unit + (string \<times> string) option" where
  "getCardExamplePrice rank parse show_number to_number format model options =
    (if \<not> isTaskUsagePricingModel model then Inr None
     else case (pm_billing_usage_schema model, nullish (pm_billing_usage_examples model) []) of
       (Some schema, firstExample # _) \<Rightarrow>
         (case splitBillingExprAndRequestRules parse show_number (nullish (pm_billing_expr model) []) of
           Inl e \<Rightarrow> Inl e
         | Inr (billingExpr, _) \<Rightarrow> Inr (
             case tryParseTaskVisualConfig rank parse show_number billingExpr schema of
               None \<Rightarrow> None
             | Some config \<Rightarrow> map_option (\<lambda>r. (ue_label firstExample, formatTaskUsageUnitPrice format (pr_total r) options))
                 (evaluateTaskVisualConfig to_number config (ue_facts firstExample) (Some schema))))
     | _ \<Rightarrow> Inr None)"

end
