(* ===== verification/Price_Summary.thy ===== *)
theory Price_Summary
  imports Dynamic_Price
begin

text \<open>
  From the price editor to the pricing page: an expression that was generated from tiers and combined with request rules is split, parsed
  and summarised as the tiers and rules it was made from.
\<close>

section \<open>Generated expressions and request rules\<close>

definition flat_label :: "VisualTier \<Rightarrow> bool" where
  "flat_label t \<longleftrightarrow> list_all (\<lambda>c. paren_step c = 0) (vi_label t)"

definition flat :: "char \<Rightarrow> bool" where
  "flat c \<longleftrightarrow> c \<notin> set ''()*''"

lemma number_flat: "number_char c \<Longrightarrow> flat c"
proof -
  have "list_all (\<lambda>d. \<not> number_char d) ''()*''" by code_simp
  then show "number_char c \<Longrightarrow> flat c" unfolding list_all_iff flat_def by blast
qed

lemma flat_step: "flat c \<Longrightarrow> paren_step c = 0"
  by (simp add: paren_step_def flat_def)

lemma flat_inside:
  assumes "tier_shown show_number t" "flat_label t"
  shows "balanced (quote_char # vi_label t @ quote_char # '', '' @ buildTierBodyExpr show_number t)"
proof (rule balanced_flat)
  have "list_all (\<lambda>c. paren_step c = 0) (buildTierBodyExpr show_number t)"
    using assms(1)
  proof (rule body_chars)
    show "paren_step c = 0" if "number_char c" for c using flat_step [OF number_flat [OF that]] .
  qed code_simp+
  moreover have "paren_step quote_char = 0" "list_all (\<lambda>c. paren_step c = 0) '', ''" by code_simp+
  ultimately show "list_all (\<lambda>c. paren_step c = 0) (quote_char # vi_label t @ quote_char # '', '' @ buildTierBodyExpr show_number t)"
    using assms(2) by (simp add: flat_label_def)
qed

lemma call_shape: "tier_call show_number label t = ''tier'' @ ''('' @ (quote_char # label @ quote_char # '', '' @ buildTierBodyExpr show_number t) @ '')''"
  by (simp add: tier_call_def)

lemma flat_conditions:
  assumes "list_all (bound_ok show_number) cs"
  shows "list_all flat (conditions_text show_number cs)"
proof -
  have b: "list_all flat (bound_text show_number c)" if c: "bound_ok show_number c" for c
  proof -
    obtain x where x: "tc_value c = NumValue (Some x)" "list_all bound_char (show_number x)" using bound_value [OF c] .
    have "list_all flat (show_number x)"
      using x(2) number_flat unfolding list_all_iff bound_char_def by blast
    moreover have "list_all (list_all flat) [''p'', ''c'', ''len'', ''<'', ''<='', ''>'', ''>='']" by code_simp
    then have "list_all flat (tc_var c)" "list_all flat (tc_op c)" using c unfolding bound_ok_def by (auto simp only: list.pred_inject insert_iff empty_iff)
    moreover have "flat CHR '' ''" by code_simp
    ultimately show ?thesis by (simp add: bound_text_def x(1))
  qed
  have "flat CHR '' ''" "flat CHR ''&''" by code_simp+
  with assms show ?thesis unfolding conditions_text_def
    by (induction cs rule: induct_list012) (simp_all add: b)
qed

text \<open>The text of a tier is balanced and has no multiplication outside parentheses.\<close>

lemma piece_whole:
  assumes "visual_ok show_number t" "flat_label t"
  shows "star_free (piece show_number t)" "balanced (piece show_number t)" "trimmed (piece show_number t)"
proof -
  have t: "tier_shown show_number t" "list_all (bound_ok show_number) (vi_conditions t)" using assms(1) tier_laws_shown by (auto simp: visual_ok_def)
  note inside = flat_inside [OF t(1) assms(2)] and conds = flat_conditions [OF t(2)]
  have "list_all (\<lambda>c. paren_step c = 0) (conditions_text show_number (vi_conditions t))"
    using conds by (rule list.pred_mono_strong) (rule flat_step)
  then have c: "star_free (conditions_text show_number (vi_conditions t))" "balanced (conditions_text show_number (vi_conditions t))"
    using conds by (auto simp: flat_def [abs_def] intro: flat_text balanced_flat)
  have lits: "star_free ''tier''" "star_free '' ? ''" "balanced ''tier''" "balanced '' ? ''"
    by (rule flat_text balanced_flat, code_simp)+
  have call: "star_free (tier_call show_number (vi_label t) t)" "balanced (tier_call show_number (vi_label t) t)"
    unfolding call_shape by (intro star_free_append star_free_parens balanced_append balanced_parens lits inside)+
  let ?cond = "if vi_conditions t = [] then [] else conditions_text show_number (vi_conditions t) @ '' ? ''"
  have "star_free ?cond" "balanced ?cond"
    using star_free_append [OF c(1) lits(2)] balanced_append [OF c(2) lits(4)] flat_text [of "[]"] balanced_flat [of "[]"] by simp_all
  then show "star_free (piece show_number t)" "balanced (piece show_number t)"
    unfolding piece_def using call by (simp_all only: star_free_append balanced_append)
  have "\<not> space_char (hd (piece show_number t @ []))" using piece_hd(2) [OF assms(1), of "[]"] bound_l by auto
  moreover have "last (piece show_number t) = CHR '')''" by (simp add: piece_def call_shape)
  ultimately show "trimmed (piece show_number t)" using piece_hd(1) [OF assms(1)] by (simp add: trimmed_def)
qed

lemma not_a_rule:
  assumes "star_free s" "trimmed s" "factor_match s = None"
  shows "is_rule_part parse show_number s = Inr False"
  using star_free_whole [OF assms(1,2)] trim_trimmed [OF assms(2)] assms(2,3)
  by (simp add: is_rule_part_def tryParseRequestRuleExpr_def tryParseRuleGroupFactor_def trimmed_def)

lemma open_no_factor: "hd s \<noteq> CHR ''('' \<Longrightarrow> factor_match s = None"
  by (cases s) (simp_all add: factor_match_def eat_def)

lemma wrapped_no_factor: "s \<noteq> [] \<Longrightarrow> last s \<noteq> CHR ''1'' \<Longrightarrow> factor_match (''('' @ s @ '')'') = None"
  by (cases s rule: rev_cases) (simp_all add: factor_match_def eat_def)

text \<open>What the splitting at multiplications relies on.\<close>

definition whole_price :: "string \<Rightarrow> bool" where
  "whole_price s \<longleftrightarrow> balanced s \<and> trimmed s \<and> hd s \<noteq> CHR ''('' \<and> last s \<noteq> CHR ''1''"

lemma price_alone: "whole_price s \<Longrightarrow> star_free s \<Longrightarrow> splitBillingExprAndRequestRules parse show_number s = Inr (s, [])"
  using star_free_whole [of s] trim_trimmed [of s] by (simp add: splitBillingExprAndRequestRules_def whole_price_def trimmed_def Let_def)

lemma price_with_rules:
  assumes "whole_price s" "json_law parse" "list_all group_normal gs" "gs \<noteq> []"
  shows "splitBillingExprAndRequestRules parse show_number (combineBillingExpr s (buildRequestRuleExpr gs)) = Inr (s, buildRequestRuleExpr gs)"
proof -
  have s: "balanced s" "trimmed s" "s \<noteq> []" "last s \<noteq> CHR ''1''" "hd s \<noteq> CHR ''(''" using assms(1) by (auto simp: whole_price_def trimmed_def)
  have "trimmed (''('' @ s @ '')'')" by (simp add: trimmed_def space_char_def space_unit_def)
  from not_a_rule [OF star_free_parens [OF s(1)] this wrapped_no_factor [OF s(3,4)]]
  have "is_rule_part parse show_number (''('' @ s @ '')'') = Inr False" .
  note apart = combined_taken_apart [OF assms(2-4) s(1,2) this]
  have "\<not> hasFullOuterParens s" using s(3,5) by (cases s) (simp_all add: hasFullOuterParens_def)
  then have "unwrapOuterParens s = s"
    unfolding unwrapOuterParens_def trim_trimmed [OF s(2)] using unwrap_loop.simps [of s] by simp
  with apart show ?thesis by simp
qed

lemma split_star_free:
  assumes "list_all star_free ps" "list_all trimmed ps" "ps \<noteq> []"
  shows "splitTopLevelMultiply (join '' * '' ps) = ps"
proof -
  have "list_all (sep_free CHR '' '' CHR ''*'') ps"
    using assms(1) by (rule list.pred_mono_strong) (simp add: star_free_def sep_free_def)
  with assms(2,3) show ?thesis unfolding splitTopLevelMultiply_def by (intro split_parts_join) (simp_all add: paren_step_def)
qed

lemma classify_none: "list_all (\<lambda>p. is_rule_part parse sn p = Inr False) ps \<Longrightarrow> classify_parts parse sn ps = Inr ([], ps)"
  by (induction ps) simp_all

lemma pieces_whole:
  assumes "list_all (visual_ok show_number) ts" "list_all flat_label ts" "ts \<noteq> []"
  shows "star_free (join '' : '' (map (piece show_number) ts))" "whole_price (join '' : '' (map (piece show_number) ts))"
proof -
  have ps: "list_all star_free (map (piece show_number) ts)" "list_all balanced (map (piece show_number) ts)" "list_all trimmed (map (piece show_number) ts)"
    using assms(1,2) piece_whole by (auto simp: list_all_iff)
  have sep: "star_free '' : ''" "balanced '' : ''" by (rule flat_text balanced_flat, code_simp)+
  have "star_free (join '' : '' ws)" if "list_all star_free ws" for ws
    using that
  proof (induction ws rule: induct_list012)
    case (3 x y zs)
    then show ?case using star_free_append [OF _ star_free_append [OF sep(1)], of x "join '' : '' (y # zs)"] by simp
  qed (simp_all add: flat_text)
  with ps(1) show "star_free (join '' : '' (map (piece show_number) ts))" by blast
  have "last (join '' : '' (map (piece show_number) us)) = CHR '')'' \<and> join '' : '' (map (piece show_number) us) \<noteq> []" if "us \<noteq> []" for us
    using that by (induction us rule: induct_list012) (simp_all add: piece_def call_shape)
  moreover obtain t us where ts: "ts = t # us" using assms(3) by (cases ts) auto
  have "hd (join '' : '' (map (piece show_number) ts)) \<noteq> CHR ''(''"
    using piece_hd [of show_number t] assms(1) ts by (cases us) (auto simp: hd_append)
  ultimately show "whole_price (join '' : '' (map (piece show_number) ts))"
    using balanced_join [OF sep(2) ps(2)] trimmed_join [OF _ ps(3)] assms(3) by (auto simp: whole_price_def)
qed

lemma conditional_price:
  assumes "visual_ok show_number t" "flat_label t"
  shows "whole_price (piece show_number t @ '' : p * 0 + c * 0'')"
    "splitBillingExprAndRequestRules parse sn (piece show_number t @ '' : p * 0 + c * 0'') = Inr (piece show_number t @ '' : p * 0 + c * 0'', [])"
proof -
  note w = piece_whole [OF assms]
  let ?s = "piece show_number t @ '' : p * 0 + c * 0''" and ?ps = "[piece show_number t @ '' : p'', ''0 + c'', ''0'']"
  have hd: "hd (piece show_number t @ u) \<noteq> CHR ''(''" "\<not> space_char (hd (piece show_number t @ u))" for u
    using piece_hd(2) [OF assms(1), of u] bound_l by auto
  have "balanced '' : p * 0 + c * 0''" "star_free '' : p''" "star_free ''0 + c''" "star_free ''0''" by (rule balanced_flat flat_text, code_simp)+
  note lits = this
  have zero: "\<not> space_char CHR ''0''" by code_simp
  show p: "whole_price ?s"
    using balanced_append [OF w(2) lits(1)] hd [of "'' : p * 0 + c * 0''"] zero by (simp add: whole_price_def trimmed_def)
  have "trimmed (piece show_number t @ '' : p'')" using hd(2) [of "'' : p''"] piece_hd(1) [OF assms(1)] by (simp add: trimmed_def)
  then have parts: "list_all star_free ?ps" "list_all trimmed ?ps"
    using star_free_append [OF w(1) lits(2)] lits zero by (simp_all add: trimmed_def)
  have "list_all (\<lambda>p. is_rule_part parse sn p = Inr False) ?ps"
    using parts hd(1) [of "'' : p''"] by (simp add: not_a_rule open_no_factor)
  from classify_none [OF this] have "classify_parts parse sn ?ps = Inr ([], ?ps)" .
  moreover have "splitTopLevelMultiply ?s = ?ps" using split_star_free [OF parts] by simp
  moreover have "trim ?s = ?s" "?s \<noteq> []" using p trim_trimmed [of ?s] by (simp_all add: whole_price_def)
  ultimately show "splitBillingExprAndRequestRules parse sn ?s = Inr (?s, [])"
    by (simp only: splitBillingExprAndRequestRules_def Let_def) simp
qed

lemma generated_price:
  assumes "list_all (visual_ok show_number) tiers" "list_all flat_label tiers" "tiers \<noteq> []" "length tiers = 1 \<or> vi_conditions (last tiers) = []"
  shows "whole_price (generateExprFromVisualConfig show_number (Some tiers))"
    "splitBillingExprAndRequestRules parse sn (generateExprFromVisualConfig show_number (Some tiers)) = Inr (generateExprFromVisualConfig show_number (Some tiers), [])"
proof -
  let ?e = "generateExprFromVisualConfig show_number (Some tiers)"
  have "whole_price ?e \<and> splitBillingExprAndRequestRules parse sn ?e = Inr (?e, [])"
  proof (cases "length tiers > 1")
    case True
    then have "?e = join '' : '' (map (piece show_number) tiers)" using assms(1,4) by (intro pieces_generated) auto
    with pieces_whole [OF assms(1-3)] price_alone show ?thesis by simp
  next
    case False
    then obtain t where ts: "tiers = [t]" using assms(3) by (cases tiers) auto
    with assms(1,2) have t: "visual_ok show_number t" "flat_label t" by simp_all
    show ?thesis
    proof (cases "vi_conditions t = []")
      case True
      with single_generated [OF t(1)] pieces_whole [OF assms(1-3)] price_alone ts show ?thesis by simp
    next
      case False
      with single_generated [OF t(1)] conditional_price [OF t] ts show ?thesis by simp
    qed
  qed
  then show "whole_price ?e" "splitBillingExprAndRequestRules parse sn ?e = Inr (?e, [])" by blast+
qed

lemma generated_split:
  assumes "list_all (visual_ok show_number) tiers" "list_all flat_label tiers" "tiers \<noteq> []" "length tiers = 1 \<or> vi_conditions (last tiers) = []"
    and "json_law parse" "list_all group_normal gs"
  defines "E \<equiv> generateExprFromVisualConfig show_number (Some tiers)"
  shows "splitBillingExprAndRequestRules parse sn (combineBillingExpr E (buildRequestRuleExpr gs)) = Inr (E, buildRequestRuleExpr gs)"
    and "combineBillingExpr E (buildRequestRuleExpr gs) \<noteq> []"
proof -
  note price = generated_price [OF assms(1-4), folded E_def]
  have tr: "trim E = E" "E \<noteq> []" using price(1) trim_trimmed by (auto simp: whole_price_def trimmed_def)
  then show "combineBillingExpr E (buildRequestRuleExpr gs) \<noteq> []" by (simp add: combineBillingExpr_def Let_def)
  show "splitBillingExprAndRequestRules parse sn (combineBillingExpr E (buildRequestRuleExpr gs)) = Inr (E, buildRequestRuleExpr gs)"
  proof (cases "gs = []")
    case True
    then have "buildRequestRuleExpr gs = []" by (simp add: buildRequestRuleExpr_def)
    with tr price(2) show ?thesis by (simp add: combineBillingExpr_def)
  next
    case False
    with price_with_rules [OF price(1) assms(5,6)] show ?thesis by blast
  qed
qed

text \<open>Where a rule compares a parameter, the whole expression is taken for the price.\<close>

lemma price_without_rules:
  assumes "whole_price s" "json_law parse" "list_all (\<lambda>g. group_normal g \<or> compares_parameter g) gs" "\<not> list_all group_normal gs"
  shows "splitBillingExprAndRequestRules parse show_number (combineBillingExpr s (buildRequestRuleExpr gs)) =
    Inr (combineBillingExpr s (buildRequestRuleExpr gs), [])"
proof -
  have s: "balanced s" "trimmed s" "s \<noteq> []" "last s \<noteq> CHR ''1''" using assms(1) by (auto simp: whole_price_def trimmed_def)
  have "trimmed (''('' @ s @ '')'')" by (simp add: trimmed_def space_char_def space_unit_def)
  from not_a_rule [OF star_free_parens [OF s(1)] this wrapped_no_factor [OF s(3,4)]]
  show ?thesis by (rule comparing_rules_lost [OF assms(2-4) s(1,2)])
qed

section \<open>What the summary shows\<close>

lemma token_entries:
  "getDynamicPriceEntries rank format (Some (TokenTier t)) options =
    List.map_filter (token_entry format options (pt_price t)) BILLING_PRICING_VARS"
proof -
  let ?key = "\<lambda>e. if de_field e \<in> set PRIMARY_DYNAMIC_FIELDS then 0 else 1 :: nat"
  define k where "k = (\<lambda>(f, v :: string). case f of ExtraPrice _ \<Rightarrow> 1 :: nat | _ \<Rightarrow> 0)"
  have key: "fst (billing_var f) \<in> set PRIMARY_DYNAMIC_FIELDS \<longleftrightarrow> f = InputPrice \<or> f = OutputPrice" for f
  proof (cases f)
    case (ExtraPrice e)
    then show ?thesis by (cases e) (simp_all add: PRIMARY_DYNAMIC_FIELDS_def)
  qed (simp_all add: PRIMARY_DYNAMIC_FIELDS_def)
  have "map ?key (List.map_filter (token_entry format options (pt_price t)) vars) = map k (filter (\<lambda>(f, v). pt_price t f > 0) vars)" for vars
  proof (induction vars)
    case (Cons fv vars)
    obtain f v where fv: "fv = (f, v)" by (cases fv)
    have "(if fst (billing_var f) \<in> set PRIMARY_DYNAMIC_FIELDS then 0 else 1) = k (f, v)" unfolding key by (cases f) (simp_all add: k_def)
    with Cons fv show ?case by (auto simp: map_filter_simps token_entry_def Let_def split: prod.splits)
  qed (simp add: map_filter_simps)
  moreover have "sorted (map k BILLING_PRICING_VARS)" by (simp add: k_def BILLING_PRICING_VARS_def BILLING_CACHE_VAR_MAP_def)
  ultimately have "sorted (map ?key (List.map_filter (token_entry format options (pt_price t)) BILLING_PRICING_VARS))"
    by (simp add: sorted_filter)
  from sort_key_id_if_sorted [OF this] show ?thesis by (simp add: getDynamicPriceEntries_def)
qed

lemma entries_shown:
  "map (\<lambda>e. (de_variable e, de_value e, de_formatted e)) (List.map_filter (token_entry format options price) vars) =
    map (\<lambda>(f, v). (Some f, price f, formatDynamicUnitPrice format (price f) options)) (filter (\<lambda>(f, v). price f > 0) vars)"
proof (induction vars)
  case (Cons fv vars)
  then show ?case by (cases fv) (auto simp: map_filter_simps token_entry_def Let_def split: prod.splits)
qed (simp add: map_filter_simps)

lemma schema_irrelevant: "formatDynamicUnitPrice format x (options\<lparr>do_usageSchema := u\<rparr>) = formatDynamicUnitPrice format x options"
  by (simp add: formatDynamicUnitPrice_def recharged_def)

lemma combined_nonempty_price: "whole_price s \<Longrightarrow> combineBillingExpr s r \<noteq> []"
  using trim_trimmed [of s] by (auto simp: combineBillingExpr_def whole_price_def trimmed_def Let_def)

lemma rules_reported:
  assumes price: "whole_price E" "splitBillingExprAndRequestRules parse show_number E = Inr (E, [])"
    and "json_law parse" "list_all (\<lambda>g. group_normal g \<or> compares_parameter g) gs" "isDynamicPricingModel model"
    and "pm_billing_expr model = Some (combineBillingExpr E (buildRequestRuleExpr gs))"
  shows "hasDynamicRequestRules parse show_number model = Inr (gs \<noteq> [] \<and> list_all group_normal gs)"
proof -
  have none: "tryParseRequestRuleExpr parse show_number [] = Inr (Some [])" by (simp add: tryParseRequestRuleExpr_def)
  consider "gs = []" | "gs \<noteq> []" "list_all group_normal gs" | "\<not> list_all group_normal gs" by blast
  then show ?thesis
  proof cases
    case 1
    have "combineBillingExpr E [] = E" using price(1) trim_trimmed by (auto simp: combineBillingExpr_def whole_price_def)
    with 1 price(2) none assms(5,6) show ?thesis by (simp add: hasDynamicRequestRules_def nullish_def buildRequestRuleExpr_def)
  next
    case 2
    with price_with_rules [OF price(1) assms(3)] rules_read_back [OF assms(3)] assms(5,6) show ?thesis
      by (simp add: hasDynamicRequestRules_def nullish_def)
  next
    case 3
    with price_without_rules [OF price(1) assms(3,4)] none assms(5,6) show ?thesis by (simp add: hasDynamicRequestRules_def nullish_def)
  qed
qed

text \<open>C13: The pricing page shows what the price editor holds, but for rules on parameters.  For a model whose expression was generated
  from tiers and combined with request rules in the normal form of the editor, or with rules that compare a request parameter or
  search it for a text, the page says that there are rules exactly when there are some and none of them is of the second kind:
  one such rule hides all of them.  When there is none of the second kind, the summary has exactly the tiers, with their
  labels, conditions and prices, says whether there are rules, and lists for the first tier every positive price, input and
  output first, formatted for the chosen unit, group ratio and recharge rate.  The tiers are those that can be read back: labels
  that are not empty and without quotation marks and brackets, prices that \<open>String\<close> shows as literals of their value, conditions
  without negative bounds, and, for several tiers, no condition on the last.\<close>

theorem summary_shows_editor:
  assumes "list_all (visual_ok show_number) tiers" "list_all flat_label tiers" "tiers \<noteq> []" "length tiers = 1 \<or> vi_conditions (last tiers) = []"
    and "json_law parse" "list_all (\<lambda>g. group_normal g \<or> compares_parameter g) gs"
    and "pm_billing_mode model = Some ''tiered_expr''" "\<not> hasTaskUsageSchema model"
    and "pm_billing_expr model = Some (combineBillingExpr (generateExprFromVisualConfig show_number (Some tiers)) (buildRequestRuleExpr gs))"
  shows "hasDynamicRequestRules parse show_number model = Inr (gs \<noteq> [] \<and> list_all group_normal gs) \<and>
    (list_all group_normal gs \<longrightarrow>
      (\<exists>summary. getDynamicPricingSummary rank parse show_number dash format model options = Inr (Some summary) \<and>
        ds_tiers summary = map (\<lambda>t. TokenTier (table_tier t)) tiers \<and> ds_hasRequestRules summary = (gs \<noteq> []) \<and> \<not> ds_isSpecialExpression summary \<and>
        map (\<lambda>e. (de_variable e, de_value e, de_formatted e)) (ds_entries summary) =
          map (\<lambda>(f, v). (Some f, pt_price (table_tier (hd tiers)) f, formatDynamicUnitPrice format (pt_price (table_tier (hd tiers)) f) options))
            (filter (\<lambda>(f, v). pt_price (table_tier (hd tiers)) f > 0) BILLING_PRICING_VARS)))"
proof (intro conjI impI)
  note price = generated_price [OF assms(1-4)]
  have dyn: "isDynamicPricingModel model" "\<not> isTaskUsagePricingModel model"
    using assms(7-9) combined_nonempty_price [OF price(1)] by (simp_all add: isDynamicPricingModel_def isTaskUsagePricingModel_def nullish_def)
  show rules: "hasDynamicRequestRules parse show_number model = Inr (gs \<noteq> [] \<and> list_all group_normal gs)"
    by (rule rules_reported [OF price assms(5,6) dyn(1) assms(9)])
  assume normal: "list_all group_normal gs"
  note split = generated_split(1) [OF assms(1-5) normal, of show_number]
  have tiers: "getDynamicPricingTiers parse show_number model = Inr (map (\<lambda>t. TokenTier (table_tier t)) tiers)"
    using dyn split assms(9) tiers_shown [OF assms(1,3,4)] by (simp add: getDynamicPricingTiers_def nullish_def)
  have "hd (map (\<lambda>t. TokenTier (table_tier t)) tiers) = TokenTier (table_tier (hd tiers))" using assms(3) by (simp add: hd_map)
  then show "\<exists>summary. getDynamicPricingSummary rank parse show_number dash format model options = Inr (Some summary) \<and>
        ds_tiers summary = map (\<lambda>t. TokenTier (table_tier t)) tiers \<and> ds_hasRequestRules summary = (gs \<noteq> []) \<and> \<not> ds_isSpecialExpression summary \<and>
        map (\<lambda>e. (de_variable e, de_value e, de_formatted e)) (ds_entries summary) =
          map (\<lambda>(f, v). (Some f, pt_price (table_tier (hd tiers)) f, formatDynamicUnitPrice format (pt_price (table_tier (hd tiers)) f) options))
            (filter (\<lambda>(f, v). pt_price (table_tier (hd tiers)) f > 0) BILLING_PRICING_VARS)"
    unfolding getDynamicPricingSummary_def using dyn tiers rules normal assms(3)
    by (simp add: Let_def token_entries entries_shown schema_irrelevant)
qed

definition priced_model :: PricingModel where
  "priced_model = two_groups\<lparr>pm_billing_mode := Some ''tiered_expr'',
    pm_billing_expr := Some (combineBillingExpr (generateExprFromVisualConfig plain_number (Some long_context)) (buildRequestRuleExpr peak_rules))\<rparr>"

definition million :: DynamicPriceOptions where
  "million = \<lparr>do_tokenUnit = UnitM, do_showRechargePrice = None, do_priceRate = None, do_usdExchangeRate = None, do_groupRatioMultiplier = Some 2,
    do_usageSchema = None\<rparr>"

lemma sample_tiers: "list_all flat_label long_context" "long_context \<noteq> []" "vi_conditions (last long_context) = []"
  by code_simp+

text \<open>The same price with the normal rules, and with one more rule that compares a parameter.\<close>

definition hidden_rules :: "RequestRuleGroup list" where
  "hidden_rules = peak_rules @ [one_rule (ph_cond SourceParam ''n'' MATCH_GT ''5'') ''2'']"

definition hidden_model :: PricingModel where
  "hidden_model = priced_model\<lparr>pm_billing_expr :=
    Some (combineBillingExpr (generateExprFromVisualConfig plain_number (Some long_context)) (buildRequestRuleExpr hidden_rules))\<rparr>"

theorem summary_shows_editor_witness:
  "(\<exists>summary. getDynamicPricingSummary (\<lambda>s. s) sample_literals plain_number ''-'' (\<lambda>_ _ _. ''$'') priced_model million = Inr (Some summary) \<and>
    ds_tiers summary = map (\<lambda>t. TokenTier (table_tier t)) long_context \<and> ds_hasRequestRules summary \<and> length (ds_entries summary) = 9) \<and>
   hasDynamicRequestRules sample_literals plain_number hidden_model = Inr False"
proof -
  have task: "\<not> hasTaskUsageSchema priced_model" "\<not> hasTaskUsageSchema hidden_model"
    by (simp_all add: hidden_model_def priced_model_def two_groups_def hasTaskUsageSchema_def nullish_def)
  have normal: "list_all (\<lambda>g. group_normal g \<or> compares_parameter g) peak_rules" using peak_rules_normal by (auto simp: list_all_iff)
  have "compares_parameter (one_rule (ph_cond SourceParam ''n'' MATCH_GT ''5'') ''2'')" by code_simp
  then have hidden: "list_all (\<lambda>g. group_normal g \<or> compares_parameter g) hidden_rules" "\<not> list_all group_normal hidden_rules"
    using normal comparing_not_normal by (auto simp: hidden_rules_def)
  have "peak_rules \<noteq> []" by code_simp
  with summary_shows_editor [OF long_context_ok sample_tiers(1,2) disjI2 [OF sample_tiers(3)] sample_literals_law normal, of priced_model "\<lambda>s. s" "''-''" "\<lambda>_ _ _. ''$''" million]
    peak_rules_normal task(1)
  obtain summary where s: "getDynamicPricingSummary (\<lambda>s. s) sample_literals plain_number ''-'' (\<lambda>_ _ _. ''$'') priced_model million = Inr (Some summary)"
    "ds_tiers summary = map (\<lambda>t. TokenTier (table_tier t)) long_context" "ds_hasRequestRules summary"
    "map (\<lambda>e. (de_variable e, de_value e, de_formatted e)) (ds_entries summary) =
      map (\<lambda>(f, v). (Some f, pt_price (table_tier (hd long_context)) f, formatDynamicUnitPrice (\<lambda>_ _ _. ''$'') (pt_price (table_tier (hd long_context)) f) million))
        (filter (\<lambda>(f, v). pt_price (table_tier (hd long_context)) f > 0) BILLING_PRICING_VARS)"
    by (auto simp: priced_model_def)
  have "length (filter (\<lambda>(f, v). pt_price (table_tier (hd long_context)) f > 0) BILLING_PRICING_VARS) = 9" by code_simp
  with arg_cong [OF s(4), of length] have "length (ds_entries summary) = 9" by simp
  moreover have "hasDynamicRequestRules sample_literals plain_number hidden_model = Inr False"
    using summary_shows_editor [OF long_context_ok sample_tiers(1,2) disjI2 [OF sample_tiers(3)] sample_literals_law hidden(1), of hidden_model]
      hidden(2) task(2) by (simp add: hidden_model_def priced_model_def)
  ultimately show ?thesis using s(1-3) by blast
qed

end
