(* ===== verification/Organization_Pages.thy ===== *)
theory Organization_Pages
  imports Prelude
begin

text \<open>
  The tables of an organization: reading a whole filtered set page by page (\<open>organization-pagination.ts\<close>) and the text filters of a table
  (\<open>organization-table-state.ts\<close>).  The endpoint is the parameter \<open>fetchPage\<close>, which may reject; the loop over its pages
  may not end, which is \<open>None\<close>.
\<close>

section \<open>Pages\<close>

definition ORGANIZATION_DEFAULT_PAGE_SIZE :: int where "ORGANIZATION_DEFAULT_PAGE_SIZE = 10"

definition ORGANIZATION_MAX_PAGE_SIZE :: int where "ORGANIZATION_MAX_PAGE_SIZE = 100"

definition ORGANIZATION_EXPORT_MAX_ROWS :: nat where "ORGANIZATION_EXPORT_MAX_ROWS = 5000"

record 'a PagedResult =
  res_page :: nat
  res_page_size :: int
  res_total :: "nat option"
  res_items :: "'a list option"

record 'a CollectedRows =
  cr_items :: "'a list"
  cr_total :: nat
  cr_truncated :: bool

definition emptyPagedResult :: "int option \<Rightarrow> 'a PagedResult" where
  "emptyPagedResult pageSize =
    \<lparr>res_page = 1, res_page_size = nullish pageSize ORGANIZATION_DEFAULT_PAGE_SIZE, res_total = Some 0, res_items = Some []\<rparr>"

definition collected :: "'a list \<Rightarrow> nat \<Rightarrow> 'a CollectedRows" where
  "collected items count = \<lparr>cr_items = items, cr_total = count, cr_truncated = (count > length items)\<rparr>"

text \<open>The loop.\<close>

partial_function (option) collect_pages ::
    "(nat \<Rightarrow> int \<Rightarrow> 'e + 'a PagedResult) \<Rightarrow> int \<Rightarrow> nat \<Rightarrow> nat \<Rightarrow> 'a list \<Rightarrow> nat \<Rightarrow> ('e + 'a CollectedRows) option" where
  "collect_pages fetchPage pageSize maxRows page items count =
    (if length items \<ge> maxRows then Some (Inr (collected items count))
     else case fetchPage page pageSize of
       Inl e \<Rightarrow> Some (Inl e)
     | Inr result \<Rightarrow>
         (let count' = nullish (res_total result) 0; batch = nullish (res_items result) [];
              items' = items @ take (maxRows - length items) batch;
              answered = (if res_page_size result > 0 then res_page_size result else pageSize) in
          if int (length batch) < answered then Some (Inr (collected items' count'))
          else if count' > 0 \<and> length items' \<ge> count' then Some (Inr (collected items' count'))
          else collect_pages fetchPage pageSize maxRows (page + 1) items' count'))"

definition collectOrganizationRows ::
    "(nat \<Rightarrow> int \<Rightarrow> 'e + 'a PagedResult) \<Rightarrow> int option \<Rightarrow> nat option \<Rightarrow> ('e + 'a CollectedRows) option" where
  "collectOrganizationRows fetchPage pageSize maxRows =
    collect_pages fetchPage (min (nullish pageSize ORGANIZATION_MAX_PAGE_SIZE) ORGANIZATION_MAX_PAGE_SIZE)
      (nullish maxRows ORGANIZATION_EXPORT_MAX_ROWS) 1 [] 0"

section \<open>Filters\<close>

datatype filter_value = FilterText string | FilterTexts "string list" | FilterOther

definition organizationColumnFilterValue :: "(string \<times> filter_value) list \<Rightarrow> string \<Rightarrow> string option" where
  "organizationColumnFilterValue columnFilters columnId =
    (let chosen = (case map_of columnFilters columnId of
        Some (FilterText s) \<Rightarrow> Some s | Some (FilterTexts (s # _)) \<Rightarrow> Some s | _ \<Rightarrow> None) in
     case chosen of None \<Rightarrow> None | Some s \<Rightarrow> if trim s = [] then None else Some (trim s))"

definition setOrganizationTextFilter :: "(string \<times> filter_value) list \<Rightarrow> string \<Rightarrow> string \<Rightarrow> (string \<times> filter_value) list" where
  "setOrganizationTextFilter current columnId v =
    (let others = filter (\<lambda>f. fst f \<noteq> columnId) current in
     if trim v \<noteq> [] then others @ [(columnId, FilterText (trim v))] else others)"

lemma map_of_others: "map_of (filter (\<lambda>f. fst f \<noteq> k) xs) j = (if j = k then None else map_of xs j)"
  by (induction xs) auto

lemma filter_written:
  "organizationColumnFilterValue (setOrganizationTextFilter current columnId v) columnId' =
    (if columnId' = columnId then if trim v = [] then None else Some (trim v) else organizationColumnFilterValue current columnId')"
proof -
  show ?thesis
    by (simp add: trim_trim organizationColumnFilterValue_def setOrganizationTextFilter_def map_of_others map_add_def Let_def split: option.split)
qed

section \<open>What an export holds\<close>

text \<open>A page that does not end the walk adds a row.\<close>

lemma page_grows:
  assumes "length items < maxRows" "\<not> int (length batch) < answered" "answered \<ge> 1"
  shows "length (items @ take (maxRows - length items) batch) > length items"
  using assms by (cases batch) auto

lemma collect_returns:
  assumes "pageSize \<ge> 1" "length items \<le> maxRows"
  shows "\<exists>r. collect_pages fetchPage pageSize maxRows page items count = Some r \<and> (\<forall>c. r = Inr c \<longrightarrow> length (cr_items c) \<le> maxRows)"
  using assms(2)
proof (induction "maxRows - length items" arbitrary: page items count rule: less_induct)
  case less
  show ?case
  proof (cases "length items \<ge> maxRows")
    case True
    then show ?thesis using less.prems by (subst collect_pages.simps) (simp add: collected_def)
  next
    case False
    show ?thesis
    proof (cases "fetchPage page pageSize")
      case (Inl e)
      with False show ?thesis by (subst collect_pages.simps) simp
    next
      case (Inr result)
      define batch where "batch = nullish (res_items result) []"
      define answered where "answered = (if res_page_size result > 0 then res_page_size result else pageSize)"
      define items' where "items' = items @ take (maxRows - length items) batch"
      have len: "length items' \<le> maxRows" using less.prems by (simp add: items'_def)
      have "length items' > length items" if "\<not> int (length batch) < answered"
      proof -
        have "answered \<ge> 1" using assms(1) by (simp add: answered_def)
        then show ?thesis unfolding items'_def using False that by (intro page_grows [of items maxRows batch answered]) auto
      qed
      then have "\<exists>r. collect_pages fetchPage pageSize maxRows (page + 1) items' c = Some r \<and> (\<forall>c. r = Inr c \<longrightarrow> length (cr_items c) \<le> maxRows)"
        if "\<not> int (length batch) < answered" for c
        using that len False by (intro less.hyps) auto
      with False Inr len show ?thesis
        by (subst collect_pages.simps) (simp add: Let_def collected_def flip: batch_def answered_def items'_def)
    qed
  qed
qed

text \<open>
  An endpoint over the filtered set \<open>rows\<close>, asked for pages of \<open>asked\<close> rows: it answers in pages of \<open>n\<close> rows (the
  backend clamps the size it is asked for), says so in \<open>page_size\<close>, and may report the size of the set.
\<close>

definition serves_pages :: "(nat \<Rightarrow> int \<Rightarrow> 'e + 'a PagedResult) \<Rightarrow> int \<Rightarrow> nat \<Rightarrow> nat option \<Rightarrow> 'a list \<Rightarrow> bool" where
  "serves_pages fetchPage asked n reported rows \<longleftrightarrow>
    n > 0 \<and> (reported = None \<or> reported = Some (length rows)) \<and>
    (\<forall>q. fetchPage (Suc q) asked =
      Inr \<lparr>res_page = Suc q, res_page_size = int n, res_total = reported, res_items = Some (take n (drop (q * n) rows))\<rparr>)"

lemma take_next: "take k rows @ take (m - k) (take n (drop k rows)) = take (min m (k + n)) rows" if "k \<le> m" "k \<le> length rows"
proof (cases "k + n \<le> m")
  case False
  then have "take m rows = take k rows @ take (m - k) (drop k rows)" using that take_add [of k "m - k" rows] by simp
  with False show ?thesis by (simp add: min_def)
qed (use that in \<open>simp add: take_add min_def\<close>)

lemma collect_all:
  assumes server: "serves_pages fetchPage asked n reported rows" and m: "m > 0"
  shows "items = take (min m (q * n)) rows \<Longrightarrow> q * n \<le> length rows \<Longrightarrow> (q > 0 \<Longrightarrow> count = nullish reported 0) \<Longrightarrow>
    collect_pages fetchPage asked m (Suc q) items count = Some (Inr (collected (take m rows) (nullish reported 0)))"
proof (induction "m - length items" arbitrary: q items count rule: less_induct)
  case less
  have n: "n > 0" and rep: "reported = None \<or> reported = Some (length rows)" using server by (simp_all add: serves_pages_def)
  have len: "length items = min m (q * n)" using less.prems by simp
  show ?case
  proof (cases "length items \<ge> m")
    case True
    then have "m \<le> q * n" "q > 0" using len m by (auto intro: gr0I)
    then show ?thesis using True less.prems by (subst collect_pages.simps) simp
  next
    case False
    then have qn: "q * n < m" and items: "items = take (q * n) rows" using len less.prems(1) by (auto simp: min_def split: if_splits)
    define batch where "batch = take n (drop (q * n) rows)"
    define items' where "items' = items @ take (m - length items) batch"
    have items': "items' = take (min m (Suc q * n)) rows"
      using take_next [of "q * n" m rows n] qn less.prems(2) len by (simp add: items'_def batch_def items add.commute)
    have fetched: "fetchPage (Suc q) asked = Inr \<lparr>res_page = Suc q, res_page_size = int n, res_total = reported, res_items = Some batch\<rparr>"
      using server by (simp add: serves_pages_def batch_def)
    have unfolded: "collect_pages fetchPage asked m (Suc q) items count =
      (if length batch < n \<or> nullish reported 0 > 0 \<and> length items' \<ge> nullish reported 0
       then Some (Inr (collected items' (nullish reported 0)))
       else collect_pages fetchPage asked m (Suc (Suc q)) items' (nullish reported 0))"
      using False n by (subst collect_pages.simps) (simp add: fetched Let_def items'_def nullish_def)
    show ?thesis
    proof (cases "length batch < n \<or> nullish reported 0 > 0 \<and> length items' \<ge> nullish reported 0")
      case True
      then have "length rows \<le> Suc q * n \<or> length rows \<le> min m (Suc q * n)"
        using rep by (auto simp: batch_def items' nullish_def)
      then have "items' = take m rows" by (auto simp: items' min_def)
      with True unfolded show ?thesis by simp
    next
      case more: False
      then have "Suc q * n \<le> length rows" using less.prems(2) by (auto simp: batch_def)
      moreover have "m - length items' < m - length items"
        using False qn n len \<open>Suc q * n \<le> length rows\<close> by (auto simp: items' min_def)
      ultimately have "collect_pages fetchPage asked m (Suc (Suc q)) items' (nullish reported 0) =
          Some (Inr (collected (take m rows) (nullish reported 0)))"
        by (intro less.hyps) (auto simp: items')
      with unfolded show ?thesis unfolding if_not_P [OF more] by simp
    qed
  qed
qed

text \<open>
  C24: An export is complete.  Against an endpoint that serves a filtered set in pages, whatever page size it clamps the request to,
  \<open>collectOrganizationRows\<close> returns the set up to the cap, in order and without a repetition or a gap, with the endpoint's own
  count when it reports one, and it says that the set was cut exactly when the endpoint reported more rows than the cap.
\<close>

theorem export_complete:
  assumes "serves_pages fetchPage (min (nullish pageSize ORGANIZATION_MAX_PAGE_SIZE) ORGANIZATION_MAX_PAGE_SIZE) n reported rows"
    and "nullish maxRows ORGANIZATION_EXPORT_MAX_ROWS = m" "m > 0"
  shows "collectOrganizationRows fetchPage pageSize maxRows =
    Some (Inr \<lparr>cr_items = take m rows, cr_total = nullish reported 0, cr_truncated = (reported \<noteq> None \<and> length rows > m)\<rparr>)"
proof -
  have "reported = None \<or> reported = Some (length rows)" using assms(1) by (simp add: serves_pages_def)
  then show ?thesis
    using collect_all [OF assms(1,3), where q = 0 and items = "[]" and count = 0] assms(2)
    by (auto simp: collectOrganizationRows_def collected_def nullish_def)
qed

definition sample_endpoint :: "nat \<Rightarrow> int \<Rightarrow> string + nat PagedResult" where
  "sample_endpoint page asked =
    Inr \<lparr>res_page = page, res_page_size = 2, res_total = Some 5, res_items = Some (take 2 (drop ((page - 1) * 2) [11, 12, 13, 14, 15]))\<rparr>"

theorem export_complete_witness:
  "serves_pages sample_endpoint 100 2 (Some 5) [11, 12, 13, 14, 15] \<and>
   collectOrganizationRows sample_endpoint None (Some 4) = Some (Inr \<lparr>cr_items = [11, 12, 13, 14], cr_total = 5, cr_truncated = True\<rparr>)"
proof -
  have "serves_pages sample_endpoint 100 2 (Some 5) [11, 12, 13, 14, 15]"
    by (simp add: serves_pages_def sample_endpoint_def)
  then show ?thesis
    using export_complete [of sample_endpoint None 2 "Some 5" "[11, 12, 13, 14, 15]" "Some 4" 4]
    by (simp add: nullish_def ORGANIZATION_MAX_PAGE_SIZE_def)
qed

text \<open>
  C25: An export ends.  For every endpoint, also one that repeats pages, reports a wrong count or never runs out of rows,
  \<open>collectOrganizationRows\<close> returns when it asks for at least one row a page: with an error of the endpoint, or with at most
  the capped number of rows.
\<close>

theorem export_returns:
  assumes "nullish pageSize ORGANIZATION_MAX_PAGE_SIZE \<ge> 1"
  shows "\<exists>r. collectOrganizationRows fetchPage pageSize maxRows = Some r \<and>
    (\<forall>c. r = Inr c \<longrightarrow> length (cr_items c) \<le> nullish maxRows ORGANIZATION_EXPORT_MAX_ROWS)"
  using collect_returns [of "min (nullish pageSize ORGANIZATION_MAX_PAGE_SIZE) ORGANIZATION_MAX_PAGE_SIZE" "[]"] assms
  by (simp add: collectOrganizationRows_def ORGANIZATION_MAX_PAGE_SIZE_def)

definition endless_endpoint :: "nat \<Rightarrow> int \<Rightarrow> string + nat PagedResult" where
  "endless_endpoint page asked = Inr \<lparr>res_page = 1, res_page_size = 0, res_total = None, res_items = Some (replicate (nat asked) 7)\<rparr>"

theorem export_returns_witness:
  "\<exists>r. collectOrganizationRows endless_endpoint (Some 3) (Some 10) = Some r \<and> (\<forall>c. r = Inr c \<longrightarrow> length (cr_items c) \<le> 10)"
  using export_returns [of "Some 3" endless_endpoint "Some 10"] by (simp add: nullish_def)

end
