(* ===== verification/Quota_Display.thy ===== *)
theory Quota_Display
  imports Prelude
begin

text \<open>
  Amounts of quota on the page: the currency configuration and the formats of \<open>lib/currency.ts\<close>, and the conversions between
  stored quota units and the amount in an input field of \<open>lib/format.ts\<close>.  The store's configuration is an argument.  Numbers
  are doubles here, and the conversions divide and multiply them: \<open>fl\<close> rounds the exact result of an operation to a double, and
  \<open>double_law\<close> is what IEEE 754 says of it.  \<open>Intl.NumberFormat\<close> is the parameter \<open>intl\<close>.
\<close>

section \<open>Configuration\<close>

datatype CurrencyDisplayType = USD | CNY | TOKENS | CUSTOM

record CurrencyConfig =
  displayInCurrency :: bool
  quotaDisplayType :: CurrencyDisplayType
  quotaPerUnit :: number
  usdExchangeRate :: number
  customCurrencySymbol :: string
  customCurrencyExchangeRate :: number

definition DEFAULT_CURRENCY_CONFIG :: CurrencyConfig where
  "DEFAULT_CURRENCY_CONFIG = \<lparr>displayInCurrency = True, quotaDisplayType = USD, quotaPerUnit = 500000, usdExchangeRate = 1,
    customCurrencySymbol = [char_of (164 :: nat)], customCurrencyExchangeRate = 1\<rparr>"

datatype DisplayMeta =
    CurrencyMeta (meta_symbol: string) (meta_code: string) (meta_rate: number)
  | CustomMeta (meta_symbol: string) (meta_rate: number)
  | TokensMeta number

definition isCurrencyDisplayType :: "json \<Rightarrow> bool" where
  "isCurrencyDisplayType v \<longleftrightarrow> v \<in> {JStr ''USD'', JStr ''CNY'', JStr ''TOKENS'', JStr ''CUSTOM''}"

definition parseCurrencyDisplayType :: "json \<Rightarrow> CurrencyDisplayType option \<Rightarrow> CurrencyDisplayType" where
  "parseCurrencyDisplayType v fallback =
    (if v = JStr ''USD'' then USD else if v = JStr ''CNY'' then CNY else if v = JStr ''TOKENS'' then TOKENS
     else if v = JStr ''CUSTOM'' then CUSTOM else nullish fallback USD)"

definition positive_or :: "number \<Rightarrow> number \<Rightarrow> number" where
  "positive_or x d = (if x \<noteq> 0 \<and> x > 0 then x else d)"

definition normalizeCurrencyConfig :: "CurrencyConfig option \<Rightarrow> CurrencyConfig" where
  "normalizeCurrencyConfig currency = (let source = nullish currency DEFAULT_CURRENCY_CONFIG in
    source\<lparr>quotaPerUnit := positive_or (quotaPerUnit source) (quotaPerUnit DEFAULT_CURRENCY_CONFIG),
      usdExchangeRate := positive_or (usdExchangeRate source) (usdExchangeRate DEFAULT_CURRENCY_CONFIG),
      customCurrencyExchangeRate := positive_or (customCurrencyExchangeRate source) (customCurrencyExchangeRate DEFAULT_CURRENCY_CONFIG),
      customCurrencySymbol := or_string (Some (trim (customCurrencySymbol source))) (customCurrencySymbol DEFAULT_CURRENCY_CONFIG)\<rparr>)"

definition getDisplayMeta :: "CurrencyConfig \<Rightarrow> DisplayMeta" where
  "getDisplayMeta config = (case quotaDisplayType config of
      CNY \<Rightarrow> CurrencyMeta [char_of (165 :: nat)] ''CNY'' (usdExchangeRate config)
    | CUSTOM \<Rightarrow> CustomMeta (customCurrencySymbol config) (customCurrencyExchangeRate config)
    | TOKENS \<Rightarrow> TokensMeta (quotaPerUnit config)
    | USD \<Rightarrow> CurrencyMeta ''$'' ''USD'' 1)"

definition getBillingDisplayMeta :: "CurrencyConfig \<Rightarrow> DisplayMeta" where
  "getBillingDisplayMeta config =
    (case getDisplayMeta config of TokensMeta _ \<Rightarrow> CurrencyMeta ''$'' ''USD'' 1 | meta \<Rightarrow> meta)"

definition getCurrencyDisplay :: "CurrencyConfig option \<Rightarrow> CurrencyConfig \<times> DisplayMeta" where
  "getCurrencyDisplay store = (let config = normalizeCurrencyConfig store in (config, getDisplayMeta config))"

definition getCurrencyLabel :: "CurrencyConfig option \<Rightarrow> string" where
  "getCurrencyLabel store = (let (config, meta) = getCurrencyDisplay store in
    case meta of TokensMeta _ \<Rightarrow> ''Tokens''
    | _ \<Rightarrow> (case quotaDisplayType config of
        CNY \<Rightarrow> ''CNY'' | CUSTOM \<Rightarrow> (case meta of CustomMeta symbol _ \<Rightarrow> symbol | _ \<Rightarrow> ''Custom'') | _ \<Rightarrow> ''USD''))"

definition isCurrencyDisplayEnabled :: "CurrencyConfig option \<Rightarrow> bool" where
  "isCurrencyDisplayEnabled store = (case snd (getCurrencyDisplay store) of TokensMeta _ \<Rightarrow> False | _ \<Rightarrow> True)"

record BillingCurrencyMeta =
  billing_custom :: bool
  billing_symbol :: string
  billing_rate :: number

definition billingCurrencyMeta :: "CurrencyConfig \<Rightarrow> BillingCurrencyMeta" where
  "billingCurrencyMeta config = (let meta = getBillingDisplayMeta config in
    \<lparr>billing_custom = (case meta of CustomMeta _ _ \<Rightarrow> True | _ \<Rightarrow> False), billing_symbol = meta_symbol meta,
     billing_rate = (if meta_rate meta > 0 then meta_rate meta else 1)\<rparr>)"

definition getBillingCurrency :: "CurrencyConfig option \<Rightarrow> BillingCurrencyMeta" where
  "getBillingCurrency store = billingCurrencyMeta (normalizeCurrencyConfig store)"

section \<open>Conversions\<close>

definition math_round :: "number \<Rightarrow> int" where
  "math_round x = \<lfloor>x + 1 / 2\<rfloor>"

definition usdToLocalNumber :: "(number \<Rightarrow> number) \<Rightarrow> CurrencyConfig option \<Rightarrow> number \<Rightarrow> number" where
  "usdToLocalNumber fl store usd = fl (usd * billing_rate (getBillingCurrency store))"

definition localToUsdNumber :: "(number \<Rightarrow> number) \<Rightarrow> CurrencyConfig option \<Rightarrow> number \<Rightarrow> number" where
  "localToUsdNumber fl store amount = fl (amount / billing_rate (getBillingCurrency store))"

definition parseQuotaFromDollars :: "(number \<Rightarrow> number) \<Rightarrow> CurrencyConfig option \<Rightarrow> number \<Rightarrow> int" where
  "parseQuotaFromDollars fl store amount = (let (config, meta) = getCurrencyDisplay store in
    case meta of
      TokensMeta _ \<Rightarrow> math_round amount
    | _ \<Rightarrow> (let exchangeRate = meta_rate meta; usdAmount = (if exchangeRate > 0 then fl (amount / exchangeRate) else amount) in
        math_round (fl (usdAmount * quotaPerUnit config))))"

definition quotaUnitsToDisplayAmount :: "(number \<Rightarrow> number) \<Rightarrow> number \<Rightarrow> number \<Rightarrow> DisplayMeta \<Rightarrow> number" where
  "quotaUnitsToDisplayAmount fl units perUnit meta =
    (case meta of TokensMeta _ \<Rightarrow> units | _ \<Rightarrow> fl (fl (units / perUnit) * meta_rate meta))"

definition quotaUnitsToDollars :: "(number \<Rightarrow> number) \<Rightarrow> CurrencyConfig option \<Rightarrow> number \<Rightarrow> number" where
  "quotaUnitsToDollars fl store units = (let (config, meta) = getCurrencyDisplay store in
    quotaUnitsToDisplayAmount fl units (quotaPerUnit config) meta)"

section \<open>Formats\<close>

record CurrencyFormatOptions =
  opt_digitsLarge :: "nat option"
  opt_digitsSmall :: "nat option"
  opt_abbreviate :: "bool option"
  opt_minimumNonZero :: "number option"
  opt_compact :: "bool option"
  opt_showSymbol :: "bool option"
  opt_locale :: "string option"

record ResolvedCurrencyFormatOptions =
  digitsLarge :: nat
  digitsSmall :: nat
  abbreviate :: bool
  minimumNonZero :: number
  compact :: bool
  showSymbol :: bool
  fmt_locale :: "string option"

definition DEFAULT_FORMAT_OPTIONS :: ResolvedCurrencyFormatOptions where
  "DEFAULT_FORMAT_OPTIONS = \<lparr>digitsLarge = 2, digitsSmall = 4, abbreviate = True, minimumNonZero = 0, compact = False,
    showSymbol = True, fmt_locale = None\<rparr>"

definition mergeOptions :: "CurrencyFormatOptions option \<Rightarrow> ResolvedCurrencyFormatOptions" where
  "mergeOptions options = (case options of None \<Rightarrow> DEFAULT_FORMAT_OPTIONS
    | Some opts \<Rightarrow>
       \<lparr>digitsLarge = nullish (opt_digitsLarge opts) (digitsLarge DEFAULT_FORMAT_OPTIONS),
        digitsSmall = nullish (opt_digitsSmall opts) (digitsSmall DEFAULT_FORMAT_OPTIONS),
        abbreviate = nullish (opt_abbreviate opts) (abbreviate DEFAULT_FORMAT_OPTIONS),
        minimumNonZero = nullish (opt_minimumNonZero opts) (minimumNonZero DEFAULT_FORMAT_OPTIONS),
        compact = nullish (opt_compact opts) (compact DEFAULT_FORMAT_OPTIONS),
        showSymbol = nullish (opt_showSymbol opts) (showSymbol DEFAULT_FORMAT_OPTIONS),
        fmt_locale = nullish_opt (opt_locale opts) (fmt_locale DEFAULT_FORMAT_OPTIONS)\<rparr>)"

definition getFractionDigits :: "number \<Rightarrow> nat \<Rightarrow> nat \<Rightarrow> nat" where
  "getFractionDigits v large small = (if \<bar>v\<bar> \<ge> 1 then large else small)"

definition getCurrencyFractionDigits :: "number \<Rightarrow> CurrencyFormatOptions option \<Rightarrow> nat" where
  "getCurrencyFractionDigits v options = (let merged = mergeOptions options in
    getFractionDigits v (digitsLarge merged) (digitsSmall merged))"

text \<open>
  \<open>x.toFixed(d)\<close> below \<open>10\<^sup>2\<^sup>1\<close>: the nearest number with \<open>d\<close> decimals, the larger one of two in absolute value.  A number
  whose text has no digit but zeros keeps its minus sign.
\<close>

definition fixed_units :: "nat \<Rightarrow> number \<Rightarrow> nat" where
  "fixed_units d x = nat \<lfloor>\<bar>x\<bar> * 10 ^ d + 1 / 2\<rfloor>"

definition to_fixed :: "nat \<Rightarrow> number \<Rightarrow> string" where
  "to_fixed d x = (let n = fixed_units d x; fraction = show_nat (n mod 10 ^ d) in
    (if x < 0 then ''-'' else []) @ show_nat (n div 10 ^ d) @
    (if d = 0 then [] else ''.'' @ replicate (d - length fraction) (CHR ''0'') @ fraction))"

text \<open>
  \<open>removeTrailingZeros\<close>: its pattern can only match from the last point to the end, over digits that end in zeros; the second
  replacement drops a point left at the end.
\<close>

definition is_digit_char :: "char \<Rightarrow> bool" where
  "is_digit_char c \<longleftrightarrow> 48 \<le> (of_char c :: nat) \<and> (of_char c :: nat) \<le> 57"

definition after_last_point :: "string \<Rightarrow> string" where
  "after_last_point s = rev (takeWhile (\<lambda>c. c \<noteq> CHR ''.'') (rev s))"

definition removeTrailingZeros :: "string \<Rightarrow> string" where
  "removeTrailingZeros str =
    (if CHR ''.'' \<notin> set str then str
     else let cut = (if list_all is_digit_char (after_last_point str) then rev (dropWhile (\<lambda>c. c = CHR ''0'') (rev str)) else str) in
       if last cut = CHR ''.'' then butlast cut else cut)"

definition formatNumberWithSuffix :: "(number \<Rightarrow> number) \<Rightarrow> number \<Rightarrow> nat \<Rightarrow> nat \<Rightarrow> bool \<Rightarrow> string" where
  "formatNumberWithSuffix fl v large small abbrev =
    (if abbrev \<and> \<bar>v\<bar> \<ge> 1000 then removeTrailingZeros (to_fixed 1 (fl (v / 1000))) @ ''k''
     else removeTrailingZeros (to_fixed (getFractionDigits v large small) v))"

definition adjustForMinimum :: "(number \<Rightarrow> number) \<Rightarrow> number \<Rightarrow> nat \<Rightarrow> number \<Rightarrow> number" where
  "adjustForMinimum fl v digits minimum =
    (if v = 0 then v
     else let threshold = (if minimum > 0 then minimum else fl (1 / 10 ^ digits)) in
       if \<bar>v\<bar> > 0 \<and> \<bar>v\<bar> < threshold then if v > 0 then threshold else - threshold else v)"

text \<open>The options a format is built from; a currency is given by its code, with its narrow symbol.\<close>

record IntlOptions =
  intl_locale :: "string option"
  intl_currency :: "string option"
  intl_compact :: bool
  intl_minDigits :: "nat option"
  intl_maxDigits :: nat

type_synonym intl = "IntlOptions \<Rightarrow> number \<Rightarrow> string"

definition formatCurrencyValue :: "(number \<Rightarrow> number) \<Rightarrow> intl \<Rightarrow> number \<Rightarrow> ResolvedCurrencyFormatOptions \<Rightarrow> DisplayMeta \<Rightarrow> string" where
  "formatCurrencyValue fl intl v opts meta =
    (let digits = getFractionDigits v (digitsLarge opts) (digitsSmall opts);
         adjusted = adjustForMinimum fl v digits (minimumNonZero opts);
         plain = \<lparr>intl_locale = fmt_locale opts, intl_currency = None, intl_compact = compact opts, intl_minDigits = Some 0,
           intl_maxDigits = (if compact opts then 1 else digits)\<rparr> in
     case meta of
       TokensMeta _ \<Rightarrow>
         (if compact opts
          then intl \<lparr>intl_locale = fmt_locale opts, intl_currency = None, intl_compact = True, intl_minDigits = None, intl_maxDigits = 1\<rparr> v
          else formatNumberWithSuffix fl v (digitsLarge opts) (digitsSmall opts) (abbreviate opts))
     | CurrencyMeta _ code _ \<Rightarrow>
         (if \<not> showSymbol opts then intl plain adjusted else intl (plain\<lparr>intl_currency := Some code\<rparr>) adjusted)
     | CustomMeta symbol _ \<Rightarrow>
         (if showSymbol opts then symbol @ '' '' @ intl plain adjusted else intl plain adjusted))"

definition formatCurrencyFromUSD ::
    "(number \<Rightarrow> number) \<Rightarrow> intl \<Rightarrow> CurrencyConfig option \<Rightarrow> number option \<Rightarrow> CurrencyFormatOptions option \<Rightarrow> string" where
  "formatCurrencyFromUSD fl intl store amountUSD options = (case amountUSD of None \<Rightarrow> ''-''
    | Some usd \<Rightarrow>
      (let (config, meta) = getCurrencyDisplay store; merged = mergeOptions options in
       case meta of
         TokensMeta _ \<Rightarrow>
           (let tokens = fl (usd * quotaPerUnit config) in
            if compact merged
            then intl \<lparr>intl_locale = fmt_locale merged, intl_currency = None, intl_compact = True, intl_minDigits = None, intl_maxDigits = 1\<rparr> tokens
            else formatNumberWithSuffix fl tokens 0 (digitsSmall merged) (abbreviate merged))
       | _ \<Rightarrow> formatCurrencyValue fl intl (fl (usd * meta_rate meta)) merged meta))"

definition formatBillingCurrencyFromUSD ::
    "(number \<Rightarrow> number) \<Rightarrow> intl \<Rightarrow> CurrencyConfig option \<Rightarrow> number option \<Rightarrow> CurrencyFormatOptions option \<Rightarrow> string" where
  "formatBillingCurrencyFromUSD fl intl store amountUSD options = (case amountUSD of None \<Rightarrow> ''-''
    | Some usd \<Rightarrow>
      (let meta = getBillingDisplayMeta (fst (getCurrencyDisplay store)) in
       formatCurrencyValue fl intl (fl (usd * meta_rate meta)) (mergeOptions options) meta))"

definition formatQuotaWithCurrency ::
    "(number \<Rightarrow> number) \<Rightarrow> intl \<Rightarrow> CurrencyConfig option \<Rightarrow> number option \<Rightarrow> CurrencyFormatOptions option \<Rightarrow> string" where
  "formatQuotaWithCurrency fl intl store quota options = (case quota of None \<Rightarrow> ''-''
    | Some units \<Rightarrow> formatCurrencyFromUSD fl intl store (Some (fl (units / quotaPerUnit (fst (getCurrencyDisplay store))))) options)"

definition formatQuotaToCents :: "(number \<Rightarrow> number) \<Rightarrow> intl \<Rightarrow> CurrencyConfig option \<Rightarrow> number option \<Rightarrow> string" where
  "formatQuotaToCents fl intl store quota = (case quota of None \<Rightarrow> ''-''
    | Some units \<Rightarrow>
      (let (config, meta) = getCurrencyDisplay store; amount = fl (fl (units / quotaPerUnit config) * meta_rate meta);
           cents = \<lparr>intl_locale = None, intl_currency = None, intl_compact = False, intl_minDigits = Some 2, intl_maxDigits = 2\<rparr> in
       case meta of
         TokensMeta _ \<Rightarrow> formatQuotaWithCurrency fl intl store (Some units) None
       | CurrencyMeta _ code _ \<Rightarrow> intl (cents\<lparr>intl_currency := Some code\<rparr>) amount
       | CustomMeta symbol _ \<Rightarrow> symbol @ '' '' @ intl cents amount))"

definition formatLocalCurrencyAmount ::
    "(number \<Rightarrow> number) \<Rightarrow> intl \<Rightarrow> CurrencyConfig option \<Rightarrow> number option \<Rightarrow> CurrencyFormatOptions option \<Rightarrow> string" where
  "formatLocalCurrencyAmount fl intl store amount options = (case amount of None \<Rightarrow> ''-''
    | Some v \<Rightarrow> formatCurrencyValue fl intl v (mergeOptions options) (getBillingDisplayMeta (fst (getCurrencyDisplay store))))"

definition formatQuota :: "(number \<Rightarrow> number) \<Rightarrow> intl \<Rightarrow> CurrencyConfig option \<Rightarrow> number \<Rightarrow> string" where
  "formatQuota fl intl store quota = formatQuotaWithCurrency fl intl store (Some quota)
    (Some \<lparr>opt_digitsLarge = Some 2, opt_digitsSmall = Some 4, opt_abbreviate = Some True, opt_minimumNonZero = None,
      opt_compact = None, opt_showSymbol = None, opt_locale = None\<rparr>)"

definition fixed_value :: "nat \<Rightarrow> number \<Rightarrow> number" where
  "fixed_value d x = (if x < 0 then - 1 else 1) * of_nat (fixed_units d x) / 10 ^ d"

definition quotaUnitsToEditableAmount :: "(number \<Rightarrow> number) \<Rightarrow> CurrencyConfig option \<Rightarrow> number \<Rightarrow> number" where
  "quotaUnitsToEditableAmount fl store units =
    (let (config, meta) = getCurrencyDisplay store; amount = quotaUnitsToDisplayAmount fl units (quotaPerUnit config) meta in
     case meta of TokensMeta _ \<Rightarrow> of_int (math_round amount)
     | _ \<Rightarrow> fl (fixed_value (getCurrencyFractionDigits amount None) amount))"

definition getEditableQuotaStep :: "(number \<Rightarrow> number) \<Rightarrow> CurrencyConfig option \<Rightarrow> number" where
  "getEditableQuotaStep fl store = (case snd (getCurrencyDisplay store) of TokensMeta _ \<Rightarrow> 1
    | _ \<Rightarrow> fl (1 / 10 ^ getCurrencyFractionDigits 0 None))"

section \<open>Doubles\<close>

text \<open>
  \<open>in_scale k x\<close>: \<open>x\<close> is between \<open>2\<^sup>-\<^sup>k\<close> and \<open>2\<^sup>k\<close> in absolute value.  Rounding to a double is exact at zero and has a relative
  error of at most \<open>2\<^sup>-\<^sup>5\<^sup>3\<close> in the range of normal numbers.
\<close>

definition in_scale :: "nat \<Rightarrow> number \<Rightarrow> bool" where
  "in_scale k x \<longleftrightarrow> 1 \<le> \<bar>x\<bar> * 2 ^ k \<and> \<bar>x\<bar> \<le> 2 ^ k"

definition double_law :: "(number \<Rightarrow> number) \<Rightarrow> bool" where
  "double_law fl \<longleftrightarrow> fl 0 = 0 \<and> (\<forall>x. in_scale 1022 x \<longrightarrow> \<bar>fl x - x\<bar> * 2 ^ 53 \<le> \<bar>x\<bar>)"

lemma scale_mono: "in_scale k x \<Longrightarrow> k \<le> j \<Longrightarrow> in_scale j x"
proof -
  assume w: "in_scale k x" and kj: "k \<le> j"
  have p: "(2 :: number) ^ k \<le> 2 ^ j" using kj by (simp add: power_increasing)
  have "1 \<le> \<bar>x\<bar> * 2 ^ k" using w by (simp add: in_scale_def)
  also have "\<dots> \<le> \<bar>x\<bar> * 2 ^ j" using p by (simp add: mult_left_mono)
  finally show ?thesis using w order_trans [OF _ p] by (simp add: in_scale_def)
qed

lemma scale_mult: "in_scale (k + j) (x * y)" if "in_scale k x" "in_scale j y"
proof -
  have "1 * 1 \<le> (\<bar>x\<bar> * 2 ^ k) * (\<bar>y\<bar> * 2 ^ j)" using that by (intro mult_mono) (auto simp: in_scale_def)
  moreover have "\<bar>x\<bar> * \<bar>y\<bar> \<le> 2 ^ k * 2 ^ j" using that by (intro mult_mono) (auto simp: in_scale_def)
  ultimately show ?thesis by (simp add: in_scale_def abs_mult power_add algebra_simps)
qed

lemma scale_inverse: "in_scale k (1 / x)" if "in_scale k x"
proof -
  have "\<bar>x\<bar> > 0" using that by (auto simp: in_scale_def)
  with that show ?thesis by (simp add: in_scale_def field_simps)
qed

lemma scale_divide: "in_scale k x \<Longrightarrow> in_scale j y \<Longrightarrow> in_scale (k + j) (x / y)"
  using scale_mult [OF _ scale_inverse, of k x j y] by simp

lemma rounded:
  assumes "double_law fl" "in_scale k x" "k \<le> 1022"
  obtains d where "fl x = x * (1 + d)" "\<bar>d\<bar> * 2 ^ 53 \<le> 1" "in_scale (Suc k) (fl x)"
proof
  define d where "d = (fl x - x) / x"
  have x: "\<bar>x\<bar> > 0" using assms(2) by (auto simp: in_scale_def)
  show fl: "fl x = x * (1 + d)" using x by (auto simp: d_def field_simps)
  have "\<bar>fl x - x\<bar> * 2 ^ 53 \<le> \<bar>x\<bar>" using assms scale_mono [OF assms(2,3)] by (simp add: double_law_def)
  then show d: "\<bar>d\<bar> * 2 ^ 53 \<le> 1" using x by (simp add: d_def field_simps)
  then have "\<bar>1 + d\<bar> * 2 ^ 1 \<ge> 1" "\<bar>1 + d\<bar> \<le> 2 ^ 1" by auto
  then have "in_scale 1 (1 + d)" by (simp add: in_scale_def)
  from scale_mult [OF assms(2) this] show "in_scale (Suc k) (fl x)" by (simp add: fl)
qed

lemma four_errors:
  fixes a b c d e :: number
  assumes "\<bar>a\<bar> \<le> e" "\<bar>b\<bar> \<le> e" "\<bar>c\<bar> \<le> e" "\<bar>d\<bar> \<le> e" "e \<le> 1 / 100"
  shows "\<bar>(1 + a) * (1 + b) * (1 + c) * (1 + d) - 1\<bar> \<le> 5 * e"
proof -
  have two: "\<bar>(1 + p) * (1 + q) - 1\<bar> \<le> r + s + r * s" if "\<bar>p\<bar> \<le> r" "\<bar>q\<bar> \<le> s" for p q r s :: number
  proof -
    have "\<bar>p * q\<bar> \<le> r * s" using that by (simp add: abs_mult mult_mono)
    then show ?thesis using that by (auto simp: algebra_simps)
  qed
  have ab: "\<bar>((1 + a) * (1 + b) - 1)\<bar> \<le> 2 * e + e * e" and cd: "\<bar>((1 + c) * (1 + d) - 1)\<bar> \<le> 2 * e + e * e"
    using two [OF assms(1,2)] two [OF assms(3,4)] by simp_all
  have e: "0 \<le> e" "e * e \<le> e / 100" using assms(1,5) mult_left_mono [of e "1 / 100" e] by auto
  define z where "z = 2 * e + e * e"
  have z: "0 \<le> z" "z \<le> 201 / 100 * e" using e by (auto simp: z_def)
  have "z * z \<le> (201 / 100 * (1 / 100)) * (201 / 100 * e)" using z e assms(5) by (intro mult_mono) auto
  then show ?thesis using two [OF ab cd] z e unfolding z_def [symmetric] by (simp add: mult.assoc)
qed

section \<open>Amounts in an input field\<close>

definition sane_config :: "CurrencyConfig option \<Rightarrow> bool" where
  "sane_config store \<longleftrightarrow> (let config = normalizeCurrencyConfig store in
    in_scale 100 (quotaPerUnit config) \<and> in_scale 100 (usdExchangeRate config) \<and> in_scale 100 (customCurrencyExchangeRate config))"

lemma normalized_positive:
  "quotaPerUnit (normalizeCurrencyConfig store) > 0" "usdExchangeRate (normalizeCurrencyConfig store) > 0"
  "customCurrencyExchangeRate (normalizeCurrencyConfig store) > 0"
  by (simp_all add: normalizeCurrencyConfig_def Let_def positive_or_def DEFAULT_CURRENCY_CONFIG_def)

lemma display_rate:
  assumes "sane_config store"
  shows "(\<exists>q. getDisplayMeta (normalizeCurrencyConfig store) = TokensMeta q) \<or>
    meta_rate (getDisplayMeta (normalizeCurrencyConfig store)) > 0 \<and> in_scale 100 (meta_rate (getDisplayMeta (normalizeCurrencyConfig store)))"
  using assms normalized_positive [of store]
  by (cases "quotaDisplayType (normalizeCurrencyConfig store)") (simp_all add: getDisplayMeta_def sane_config_def Let_def in_scale_def)

lemma math_round_int [simp]: "math_round (of_int n) = n"
  unfolding math_round_def by (rule floor_unique) simp_all

lemma math_round_zero [simp]: "math_round 0 = 0"
  using math_round_int [of 0] by simp

lemma through_doubles:
  assumes law: "double_law fl" and q: "in_scale 100 q" and r: "in_scale 100 r" and u: "\<bar>u\<bar> \<le> 2 ^ 49"
  shows "math_round (fl (fl (fl (fl (of_int u / q) * r) / r) * q)) = u"
proof (cases "u = 0")
  case True
  with law show ?thesis by (simp add: double_law_def)
next
  case False
  have u1: "\<bar>of_int u :: number\<bar> \<ge> 1" using False by (cases "u > 0") auto
  have "(of_int \<bar>u\<bar> :: number) \<le> of_int (2 ^ 49)" using u by (simp only: of_int_le_iff)
  then have u2: "\<bar>of_int u :: number\<bar> \<le> 2 ^ 49" by simp
  have "in_scale 49 (of_int u)" using u1 u2 by (simp add: in_scale_def)
  from rounded [OF law scale_divide [OF this q]] obtain d1 where
    1: "fl (of_int u / q) = of_int u / q * (1 + d1)" "\<bar>d1\<bar> * 2 ^ 53 \<le> 1" "in_scale 150 (fl (of_int u / q))" by auto
  from rounded [OF law scale_mult [OF 1(3) r]] obtain d2 where
    2: "fl (fl (of_int u / q) * r) = fl (of_int u / q) * r * (1 + d2)" "\<bar>d2\<bar> * 2 ^ 53 \<le> 1" "in_scale 251 (fl (fl (of_int u / q) * r))" by auto
  define a where "a = fl (fl (of_int u / q) * r)"
  from rounded [OF law scale_divide [OF 2(3) r]] obtain d3 where
    3: "fl (a / r) = a / r * (1 + d3)" "\<bar>d3\<bar> * 2 ^ 53 \<le> 1" "in_scale 352 (fl (a / r))" by (auto simp: a_def)
  from rounded [OF law scale_mult [OF 3(3) q]] obtain d4 where
    4: "fl (fl (a / r) * q) = fl (a / r) * q * (1 + d4)" "\<bar>d4\<bar> * 2 ^ 53 \<le> 1" by auto
  have nz: "q \<noteq> 0" "r \<noteq> 0" using q r by (auto simp: in_scale_def)
  define p where "p = (1 + d1) * (1 + d2) * (1 + d3) * (1 + d4)"
  have "a = of_int u / q * (1 + d1) * r * (1 + d2)" unfolding a_def by (subst 2(1), subst 1(1)) (rule refl)
  then have "fl (fl (a / r) * q) = of_int u * p" unfolding p_def using nz by (subst 4(1), subst 3(1)) simp
  moreover have "\<bar>p - 1\<bar> \<le> 5 * (1 / 2 ^ 53)"
    unfolding p_def using 1(2) 2(2) 3(2) 4(2) by (intro four_errors) (simp_all add: field_simps)
  then have "\<bar>of_int u\<bar> * \<bar>p - 1\<bar> \<le> 2 ^ 49 * (5 * (1 / 2 ^ 53))" using u2 by (intro mult_mono) auto
  then have "\<bar>of_int u * p - of_int u\<bar> \<le> 5 / 16" by (simp add: abs_mult [symmetric] algebra_simps)
  ultimately have "\<bar>fl (fl (a / r) * q) - of_int u\<bar> \<le> 5 / 16" by simp
  then show ?thesis unfolding math_round_def a_def [symmetric] by (intro floor_unique) linarith+
qed

lemma units_through_input:
  assumes "double_law fl" "sane_config store" "\<bar>units\<bar> \<le> 2 ^ 49"
  shows "parseQuotaFromDollars fl store (quotaUnitsToDollars fl store (of_int units)) = units"
proof -
  have q: "in_scale 100 (quotaPerUnit (normalizeCurrencyConfig store))" using assms(2) by (simp add: sane_config_def Let_def)
  show ?thesis
    using display_rate [OF assms(2)] through_doubles [OF assms(1) q _ assms(3)]
    by (cases "getDisplayMeta (normalizeCurrencyConfig store)")
      (auto simp: parseQuotaFromDollars_def quotaUnitsToDollars_def quotaUnitsToDisplayAmount_def getCurrencyDisplay_def Let_def)
qed

text \<open>
  C23: An amount of quota survives the input field.  For every currency configuration the administrator can store, after
  normalisation and with rates between \<open>2\<^sup>-\<^sup>1\<^sup>0\<^sup>0\<close> and \<open>2\<^sup>1\<^sup>0\<^sup>0\<close>, and every number of units up to \<open>2\<^sup>4\<^sup>9\<close>, reading back the amount
  \<open>quotaUnitsToDollars\<close> shows gives exactly the units it was computed from, although the two conversions round four times in
  double precision.
\<close>

theorem quota_amount_roundtrip:
  assumes "double_law fl" "sane_config store" "\<bar>units\<bar> \<le> 2 ^ 49"
  shows "parseQuotaFromDollars fl store (quotaUnitsToDollars fl store (of_int units)) = units"
  using assms by (rule units_through_input)

definition sample_currency :: CurrencyConfig where
  "sample_currency = DEFAULT_CURRENCY_CONFIG\<lparr>quotaDisplayType := CNY, usdExchangeRate := 73 / 10\<rparr>"

lemma exact_doubles: "double_law (\<lambda>x. x)"
  by (simp add: double_law_def)

lemma sample_sane: "sane_config (Some sample_currency)"
  by (simp add: sane_config_def Let_def normalizeCurrencyConfig_def positive_or_def sample_currency_def DEFAULT_CURRENCY_CONFIG_def nullish_def
    in_scale_def)

theorem quota_amount_roundtrip_witness:
  "parseQuotaFromDollars (\<lambda>x. x) (Some sample_currency) (quotaUnitsToDollars (\<lambda>x. x) (Some sample_currency) (of_int 1234567)) = 1234567"
  using quota_amount_roundtrip [OF exact_doubles sample_sane, of 1234567] by simp

section \<open>Displayed amounts\<close>

text \<open>An amount other than zero is not shown as zero: it is raised to the last digit the format has.\<close>

lemma small_amount_raised:
  assumes "v \<noteq> 0" "minimum \<le> 0" "fl (1 / 10 ^ digits) > 0"
  shows "\<bar>adjustForMinimum fl v digits minimum\<bar> \<ge> fl (1 / 10 ^ digits)" "adjustForMinimum fl v digits minimum > 0 \<longleftrightarrow> v > 0"
  using assms by (auto simp: adjustForMinimum_def Let_def)

text \<open>Prices are never shown as a number of tokens.\<close>

lemma billing_meta_rate: "meta_rate (getBillingDisplayMeta (normalizeCurrencyConfig store)) > 0"
  using normalized_positive [of store]
  by (cases "quotaDisplayType (normalizeCurrencyConfig store)") (simp_all add: getBillingDisplayMeta_def getDisplayMeta_def)

lemma local_amount_roundtrip:
  "localToUsdNumber (\<lambda>x. x) store (usdToLocalNumber (\<lambda>x. x) store usd) = usd"
  using billing_meta_rate [of store]
  by (simp add: localToUsdNumber_def usdToLocalNumber_def getBillingCurrency_def billingCurrencyMeta_def Let_def)

end
