(* ===== verification/Organization_Keys.thy ===== *)
theory Organization_Keys
  imports Account_Context Quota_Display
begin

text \<open>
  What a member may do in an organization and with its keys: the sections and row actions of \<open>organization-center.ts\<close>, the
  display and the authority over a key of \<open>organization-token.ts\<close>, the form of a key and the bodies it sends of
  \<open>organization-token-form.ts\<close>, and the state of an invitation of \<open>organization-invite.ts\<close>.
\<close>

section \<open>Sections\<close>

definition ORGANIZATION_DETAIL_TAB_KEYS :: "string list" where
  "ORGANIZATION_DETAIL_TAB_KEYS =
    [''overview'', ''members'', ''invitations'', ''tokens'', ''logs'', ''usage'', ''tasks'', ''audit-logs'', ''settings'']"

definition ORGANIZATION_DEFAULT_TAB :: string where "ORGANIZATION_DEFAULT_TAB = ''overview''"

definition ORGANIZATION_LEGACY_TAB_ALIASES :: "(string \<times> string) list" where
  "ORGANIZATION_LEGACY_TAB_ALIASES = [(''invites'', ''invitations''), (''billing'', ''usage''), (''audit'', ''audit-logs'')]"

definition ORGANIZATION_TAB_LABEL_KEYS :: "(string \<times> string) list" where
  "ORGANIZATION_TAB_LABEL_KEYS =
    [(''overview'', ''Overview''), (''members'', ''Members''), (''invitations'', ''Invitations''), (''tokens'', ''API Keys''),
     (''logs'', ''Usage Logs''), (''usage'', ''Usage''), (''tasks'', ''Task Logs''), (''audit-logs'', ''Audit Logs''),
     (''settings'', ''Settings'')]"

definition ORGANIZATION_ACCESS_MODE_READ_ONLY :: string where "ORGANIZATION_ACCESS_MODE_READ_ONLY = ''read_only''"

definition lower_text :: "string \<Rightarrow> string" where
  "lower_text s = map lower_char s"

definition lastPathSegment :: "string option \<Rightarrow> string" where
  "lastPathSegment v = (let raw = trim (nullish v []) in
    if raw = [] then []
    else let segments = filter (\<lambda>s. s \<noteq> []) (split_on (CHR ''/'') raw) in if segments = [] then [] else last segments)"

definition normalizeOrganizationTabKey :: "string option \<Rightarrow> string" where
  "normalizeOrganizationTabKey v =
    (let segment = lastPathSegment v; canonical = nullish (map_of ORGANIZATION_LEGACY_TAB_ALIASES segment) segment in
     if canonical \<in> set ORGANIZATION_DETAIL_TAB_KEYS then canonical else ORGANIZATION_DEFAULT_TAB)"

definition getOrganizationDetailPath :: "string \<Rightarrow> string option \<Rightarrow> string" where
  "getOrganizationDetailPath organizationId tabKey =
    ''/organizations/'' @ organizationId @ ''/'' @ normalizeOrganizationTabKey (Some (nullish tabKey ORGANIZATION_DEFAULT_TAB))"

section \<open>Access\<close>

record OrganizationAccessInput =
  in_capabilities :: OrganizationCapabilities
  in_status :: "string option"
  in_accessMode :: "string option"
  in_readOnly :: "bool option"

datatype OrganizationReadOnlyReason = ReasonDissolved | ReasonDisabled | ReasonReadOnly

record OrganizationReadOnlyState =
  state_readOnly :: bool
  state_reason :: "OrganizationReadOnlyReason option"

definition getOrganizationReadOnlyState :: "OrganizationAccessInput \<Rightarrow> OrganizationReadOnlyState" where
  "getOrganizationReadOnlyState input = (let status = lower_text (nullish (in_status input) []) in
    if status = ''dissolved'' then \<lparr>state_readOnly = True, state_reason = Some ReasonDissolved\<rparr>
    else if status = ''disabled'' then \<lparr>state_readOnly = True, state_reason = Some ReasonDisabled\<rparr>
    else if in_readOnly input = Some True \<or> in_accessMode input = Some ORGANIZATION_ACCESS_MODE_READ_ONLY
    then \<lparr>state_readOnly = True, state_reason = Some ReasonReadOnly\<rparr>
    else \<lparr>state_readOnly = False, state_reason = None\<rparr>)"

record OrganizationListActionFlags =
  act_enter :: bool
  act_edit :: bool
  act_disable :: bool
  act_enable :: bool
  act_dissolve :: bool

definition getOrganizationListActionFlags :: "OrganizationCapabilities \<Rightarrow> OrganizationListActionFlags" where
  "getOrganizationListActionFlags caps =
    \<lparr>act_enter = can_view_organization caps, act_edit = can_update_organization caps, act_disable = can_disable_organization caps,
     act_enable = can_enable_organization caps, act_dissolve = can_dissolve_organization caps\<rparr>"

definition isOrganizationEnterable :: "string option \<Rightarrow> string option \<Rightarrow> bool" where
  "isOrganizationEnterable status accessMode \<longleftrightarrow>
    lower_text (nullish status []) = ''active'' \<and> accessMode \<noteq> Some ORGANIZATION_ACCESS_MODE_READ_ONLY"

record OrganizationTabSpec =
  tab_key :: string
  tab_labelKey :: "string option"
  tab_limitedView :: bool
  tab_readOnly :: bool

text \<open>The sections in the order of the page: key, whether it is visible, whether its view is limited.\<close>

definition tab_specs :: "OrganizationCapabilities \<Rightarrow> bool \<Rightarrow> (string \<times> bool \<times> bool) list" where
  "tab_specs caps readOnly =
    (let wide = can_view_organization_wide_data caps; limitedView = (\<not> wide) in
     [(''overview'', wide, False),
      (''members'', wide, \<not> can_manage_members caps),
      (''invitations'', can_view_invites caps, False),
      (''tokens'', can_view_organization_tokens caps, \<not> can_manage_all_tokens caps),
      (''usage'', can_view_organization_usage caps \<and> wide, limitedView),
      (''logs'', can_view_organization_logs caps \<and> wide, limitedView),
      (''tasks'', can_view_organization_logs caps \<and> wide, limitedView),
      (''audit-logs'', can_view_audit caps, False),
      (''settings'', \<not> readOnly \<and> (can_manage_members caps \<or> can_dissolve_organization caps \<or> can_update_organization caps), False)])"

definition getOrganizationTabs :: "OrganizationAccessInput \<Rightarrow> OrganizationTabSpec list" where
  "getOrganizationTabs input =
    (let readOnly = state_readOnly (getOrganizationReadOnlyState input) in
     map (\<lambda>(key, visible, limited).
         \<lparr>tab_key = key, tab_labelKey = map_of ORGANIZATION_TAB_LABEL_KEYS key, tab_limitedView = limited, tab_readOnly = readOnly\<rparr>)
       (filter (\<lambda>(key, visible, limited). visible) (tab_specs (in_capabilities input) readOnly)))"

section \<open>Members\<close>

record OrganizationMemberActionFlags =
  canChangeRole :: bool
  canChangeStatus :: bool
  canRemove :: bool

record OrganizationMemberActionInput =
  actorRole :: "string option"
  targetRole :: "string option"
  canManageMembers :: bool
  input_readOnly :: bool
  isCurrentUser :: bool
  platformAdministrator :: bool

definition normalizeRole :: "string option \<Rightarrow> string" where
  "normalizeRole role = lower_text (nullish role [])"

definition denied :: OrganizationMemberActionFlags where
  "denied = \<lparr>canChangeRole = False, canChangeStatus = False, canRemove = False\<rparr>"

definition granted :: OrganizationMemberActionFlags where
  "granted = \<lparr>canChangeRole = True, canChangeStatus = True, canRemove = True\<rparr>"

definition getOrganizationMemberActionFlags :: "OrganizationMemberActionInput \<Rightarrow> OrganizationMemberActionFlags" where
  "getOrganizationMemberActionFlags input =
    (if \<not> canManageMembers input \<or> input_readOnly input \<or> isCurrentUser input then denied
     else let target = normalizeRole (targetRole input) in
       if platformAdministrator input then if target = ''owner'' then denied else granted
       else let actor = normalizeRole (actorRole input);
                canManageTarget = (actor = ''owner'' \<and> (target = ''admin'' \<or> target = ''member'') \<or> actor = ''admin'' \<and> target = ''member'') in
         if \<not> canManageTarget then denied else granted)"

definition isOrganizationMemberDemotion :: "string option \<Rightarrow> string option \<Rightarrow> bool" where
  "isOrganizationMemberDemotion memberRole nextRole \<longleftrightarrow> normalizeRole memberRole = ''admin'' \<and> normalizeRole nextRole = ''member''"

record OrganizationMemberRoleUpdatePayload =
  upd_role :: string
  upd_transfer_to_user_id :: "int option"
  upd_reason :: "string option"

definition buildOrganizationMemberRoleUpdatePayload ::
    "string option \<Rightarrow> string \<Rightarrow> int option \<Rightarrow> string option \<Rightarrow> OrganizationMemberRoleUpdatePayload" where
  "buildOrganizationMemberRoleUpdatePayload memberRole nextRole transferToUserId reason =
    (let payload = \<lparr>upd_role = nextRole, upd_transfer_to_user_id = None, upd_reason = None\<rparr> in
     if \<not> isOrganizationMemberDemotion memberRole (Some nextRole) then payload
     else let targetUserId = nullish transferToUserId 0 in
       payload\<lparr>upd_transfer_to_user_id := (if targetUserId > 0 then Some targetUserId else None),
         upd_reason := Some (trim (nullish reason []))\<rparr>)"

record MemberOptionSource =
  mem_user_id :: "int option"
  mem_role :: "string option"
  mem_status :: "string option"
  mem_username :: "string option"
  mem_display_name :: "string option"
  mem_email :: "string option"
  mem_user_status :: "int option"

record OrganizationMemberOption =
  option_label :: string
  option_value :: int

definition hasEnabledActiveAccount :: "MemberOptionSource \<Rightarrow> bool" where
  "hasEnabledActiveAccount m \<longleftrightarrow>
    nullish (mem_user_id m) 0 > 0 \<and> lower_text (nullish (mem_status m) []) = ''active'' \<and> nullish (mem_user_status m) 1 = 1"

text \<open>Only of a member with a user id.\<close>

definition toMemberOption :: "MemberOptionSource \<Rightarrow> OrganizationMemberOption" where
  "toMemberOption m =
    \<lparr>option_label = or_string (mem_username m) (or_string (mem_display_name m) (or_string (mem_email m) (show_int (nullish (mem_user_id m) 0)))),
     option_value = nullish (mem_user_id m) 0\<rparr>"

definition getOrganizationTransferMemberOptions :: "MemberOptionSource list \<Rightarrow> int option \<Rightarrow> OrganizationMemberOption list" where
  "getOrganizationTransferMemberOptions members excludedUserId =
    (let excluded = nullish excludedUserId 0 in
     map toMemberOption (filter (\<lambda>m. hasEnabledActiveAccount m \<and> nullish (mem_user_id m) 0 \<noteq> excluded \<and>
       normalizeRole (mem_role m) \<in> {''owner'', ''admin''}) members))"

definition getOrganizationTokenResponsibleOptions :: "MemberOptionSource list \<Rightarrow> string \<Rightarrow> OrganizationMemberOption list" where
  "getOrganizationTokenResponsibleOptions members visibility =
    (let publicKey = (visibility = ''public'') in
     map toMemberOption (filter (\<lambda>m. hasEnabledActiveAccount m \<and> (\<not> publicKey \<or> normalizeRole (mem_role m) \<in> {''owner'', ''admin''})) members))"

section \<open>Keys\<close>

record OrganizationTokenRow =
  tok_id :: int
  tok_user_id :: int
  tok_key :: "string option"
  tok_key_preview :: "string option"
  tok_status :: int
  tok_name :: string
  tok_expired_time :: int
  tok_remain_quota :: int
  tok_unlimited_quota :: bool
  tok_model_limits_enabled :: bool
  tok_model_limits :: string
  tok_allow_ips :: "string option"
  tok_group :: string
  tok_cross_group_retry :: bool
  tok_visibility :: string
  tok_creator_user_id :: "int option"
  tok_responsible_user_id :: "int option"
  tok_creator_username :: "string option"
  tok_creator_display_name :: "string option"

definition organizationTokenStatusMeta :: "int option \<Rightarrow> string \<times> string" where
  "organizationTokenStatusMeta status = nullish
    (map_of [(1, (''Enabled'', ''success'')), (2, (''Disabled'', ''warning'')), (3, (''Expired'', ''neutral'')), (4, (''Exhausted'', ''danger''))]
      (nullish status 0)) (''Unknown status'', ''neutral'')"

definition KEY_PREFIX :: string where "KEY_PREFIX = ''sk-''"

definition KEY_MASK_DOTS :: string where "KEY_MASK_DOTS = ''**********''"

definition prefixed_key :: "string \<Rightarrow> string" where
  "prefixed_key full = (if take (length KEY_PREFIX) full = KEY_PREFIX then full else KEY_PREFIX @ full)"

definition maskOrganizationTokenKey :: "string option \<Rightarrow> string" where
  "maskOrganizationTokenKey key = (let full = trim (nullish key []) in
    if full = [] then []
    else let prefixed = prefixed_key full; body = drop (length KEY_PREFIX) prefixed in
      if length body \<le> 8 then prefixed else KEY_PREFIX @ take 4 body @ KEY_MASK_DOTS @ last_n 4 body)"

definition organizationTokenKeyPreview :: "OrganizationTokenRow \<Rightarrow> string" where
  "organizationTokenKeyPreview t = or_string (map_option trim (tok_key_preview t)) (maskOrganizationTokenKey (tok_key t))"

definition organizationTokenFullKey :: "OrganizationTokenRow \<Rightarrow> string" where
  "organizationTokenFullKey t = (let key = trim (nullish (tok_key t) []) in if key = [] then [] else prefixed_key key)"

definition organizationTokenOwnerName :: "OrganizationTokenRow \<Rightarrow> string" where
  "organizationTokenOwnerName t = or_string (tok_creator_username t) (or_string (tok_creator_display_name t) ''-'')"

record OrganizationTokenActionFlags =
  canEdit :: bool
  canDelete :: bool
  canCopy :: bool

record OrganizationTokenActionContext =
  canManageAllTokens :: bool
  currentUserId :: int
  ctx_readOnly :: bool

definition or_id :: "int option \<Rightarrow> int \<Rightarrow> int" where
  "or_id a b = (case a of None \<Rightarrow> b | Some n \<Rightarrow> if n = 0 then b else n)"

definition responsibleUserIdOf :: "OrganizationTokenRow \<Rightarrow> int" where
  "responsibleUserIdOf t = or_id (tok_responsible_user_id t) (or_id (Some (tok_user_id t)) 0)"

definition getOrganizationTokenActionFlags :: "OrganizationTokenRow \<Rightarrow> OrganizationTokenActionContext \<Rightarrow> OrganizationTokenActionFlags" where
  "getOrganizationTokenActionFlags t ctx =
    (let hasKey = (trim (nullish (tok_key t) []) \<noteq> []);
         responsibleUserId = or_id (tok_responsible_user_id t) (or_id (Some (tok_user_id t)) 0);
         isResponsible = (responsibleUserId > 0 \<and> responsibleUserId = currentUserId ctx);
         creatorUserId = nullish (tok_creator_user_id t) 0;
         isCreator = (creatorUserId > 0 \<and> creatorUserId = currentUserId ctx);
         isPublic = (tok_visibility t = ''public'') in
     if canManageAllTokens ctx
     then \<lparr>canEdit = (\<not> ctx_readOnly ctx), canDelete = (\<not> ctx_readOnly ctx), canCopy = hasKey\<rparr>
     else \<lparr>canEdit = (\<not> ctx_readOnly ctx \<and> isCreator \<and> \<not> isPublic), canDelete = (\<not> ctx_readOnly ctx \<and> isCreator \<and> \<not> isPublic),
           canCopy = (hasKey \<and> (isResponsible \<or> isCreator \<or> isPublic))\<rparr>)"

record OrganizationTokenBatchDeletePlan =
  selectedCount :: nat
  unauthorizedCount :: nat
  plan_request :: "int list option"

definition getOrganizationTokenBatchDeletePlan ::
    "OrganizationTokenRow list \<Rightarrow> (OrganizationTokenRow \<Rightarrow> bool) \<Rightarrow> OrganizationTokenBatchDeletePlan" where
  "getOrganizationTokenBatchDeletePlan selectedKeys canDeleteToken =
    (let ids = map tok_id selectedKeys; unauthorized = length (filter (\<lambda>t. \<not> canDeleteToken t) selectedKeys) in
     \<lparr>selectedCount = length ids, unauthorizedCount = unauthorized,
      plan_request = (if length ids > 0 \<and> unauthorized = 0 then Some ids else None)\<rparr>)"

record OrganizationTokenErrorBody =
  body_code :: "string option"
  body_message :: "string option"

definition ORGANIZATION_TOKEN_ERROR_MESSAGE_KEYS :: "(string \<times> string) list" where
  "ORGANIZATION_TOKEN_ERROR_MESSAGE_KEYS =
    [(''organization_token_responsible_member_disabled'',
      ''The responsible member for this key is disabled. Enable the member before enabling the key.''),
     (''organization_token_responsible_user_disabled'',
      ''The responsible user for this key is disabled by the platform. Enable the user before enabling the key.''),
     (''organization_token_enable_forbidden'',
      ''This key was disabled by a higher-privilege administrator. Your account cannot enable it.''),
     (''insufficient_organization_member_quota'',
      ''Member quota is exhausted. Ask an organization administrator to raise it before creating new keys.''),
     (''insufficient_organization_quota'', ''The organization has no available quota.'')]"

definition organizationTokenErrorMessageKey :: "OrganizationTokenErrorBody option \<Rightarrow> string option" where
  "organizationTokenErrorMessageKey body = (case Option.bind body body_code of None \<Rightarrow> None
    | Some code \<Rightarrow> if code = [] then None else map_of ORGANIZATION_TOKEN_ERROR_MESSAGE_KEYS code)"

definition organizationTokenErrorText :: "(string \<Rightarrow> string) \<Rightarrow> OrganizationTokenErrorBody option \<Rightarrow> string \<Rightarrow> string" where
  "organizationTokenErrorText translate body fallback =
    (case organizationTokenErrorMessageKey body of
       Some specific \<Rightarrow> if specific \<noteq> [] then translate specific else or_string (Option.bind body body_message) fallback
     | None \<Rightarrow> or_string (Option.bind body body_message) fallback)"

section \<open>The form of a key\<close>

text \<open>A date is its time in milliseconds.\<close>

record OrganizationTokenFormValues =
  form_name :: string
  form_token_count :: number
  form_visibility :: string
  form_responsible_user_id :: "int option"
  form_unlimited_quota :: bool
  form_remain_quota_dollars :: "number option"
  form_expired_time :: "int option"
  form_model_limits :: "string list"
  form_allow_ips :: "string option"
  form_group :: "string option"
  form_cross_group_retry :: bool

definition ORGANIZATION_TOKEN_MAX_BATCH :: number where "ORGANIZATION_TOKEN_MAX_BATCH = 100"

definition ORGANIZATION_TOKEN_FORM_DEFAULT_VALUES :: OrganizationTokenFormValues where
  "ORGANIZATION_TOKEN_FORM_DEFAULT_VALUES =
    \<lparr>form_name = [], form_token_count = 1, form_visibility = ''private'', form_responsible_user_id = None, form_unlimited_quota = True,
     form_remain_quota_dollars = Some 0, form_expired_time = None, form_model_limits = [], form_allow_ips = Some [],
     form_group = Some [], form_cross_group_retry = False\<rparr>"

definition transformOrganizationTokenToFormDefaults ::
    "(number \<Rightarrow> number) \<Rightarrow> CurrencyConfig option \<Rightarrow> OrganizationTokenRow \<Rightarrow> OrganizationTokenFormValues" where
  "transformOrganizationTokenToFormDefaults fl store t =
    \<lparr>form_name = tok_name t, form_token_count = 1,
     form_visibility = (if tok_visibility t = ''public'' then ''public'' else ''private''),
     form_responsible_user_id = Some (nullish (tok_responsible_user_id t) (tok_user_id t)),
     form_unlimited_quota = tok_unlimited_quota t,
     form_remain_quota_dollars = Some (if tok_unlimited_quota t then 0 else quotaUnitsToDollars fl store (of_int (tok_remain_quota t))),
     form_expired_time = (if tok_expired_time t > 0 then Some (tok_expired_time t * 1000) else None),
     form_model_limits = (if tok_model_limits t \<noteq> [] then filter (\<lambda>s. s \<noteq> []) (split_on (CHR '','') (tok_model_limits t)) else []),
     form_allow_ips = Some (nullish (tok_allow_ips t) []), form_group = Some (tok_group t),
     form_cross_group_retry = tok_cross_group_retry t\<rparr>"

record OrganizationTokenPayload =
  pay_name :: string
  pay_status :: int
  pay_expired_time :: int
  pay_remain_quota :: int
  pay_unlimited_quota :: bool
  pay_model_limits_enabled :: bool
  pay_model_limits :: string
  pay_allow_ips :: string
  pay_group :: string
  pay_cross_group_retry :: bool
  pay_visibility :: string
  pay_responsible_user_id :: "int option"

definition transformOrganizationTokenFormToPayload ::
    "(number \<Rightarrow> number) \<Rightarrow> CurrencyConfig option \<Rightarrow> OrganizationTokenFormValues \<Rightarrow> bool \<Rightarrow> OrganizationTokenRow option \<Rightarrow>
     OrganizationTokenPayload" where
  "transformOrganizationTokenFormToPayload fl store values canManageAll editing =
    \<lparr>pay_name = trim (form_name values),
     pay_status = (case editing of Some t \<Rightarrow> tok_status t | None \<Rightarrow> 1),
     pay_expired_time = (case form_expired_time values of Some ms \<Rightarrow> ms div 1000 | None \<Rightarrow> - 1),
     pay_remain_quota = (if form_unlimited_quota values then 0 else parseQuotaFromDollars fl store (nullish (form_remain_quota_dollars values) 0)),
     pay_unlimited_quota = form_unlimited_quota values,
     pay_model_limits_enabled = (length (form_model_limits values) > 0),
     pay_model_limits = join '','' (form_model_limits values),
     pay_allow_ips = nullish (form_allow_ips values) [],
     pay_group = nullish (form_group values) [],
     pay_cross_group_retry = (if form_group values = Some ''auto'' then form_cross_group_retry values else False),
     pay_visibility = (if canManageAll then form_visibility values
       else case editing of Some t \<Rightarrow> tok_visibility t | None \<Rightarrow> ''private''),
     pay_responsible_user_id = (if canManageAll then form_responsible_user_id values
       else case editing of Some t \<Rightarrow> Some (responsibleUserIdOf t) | None \<Rightarrow> None)\<rparr>"

definition buildOrganizationTokenStatusPayload :: "OrganizationTokenRow \<Rightarrow> int \<Rightarrow> OrganizationTokenPayload" where
  "buildOrganizationTokenStatusPayload t status =
    \<lparr>pay_name = tok_name t, pay_status = status, pay_expired_time = tok_expired_time t, pay_remain_quota = tok_remain_quota t,
     pay_unlimited_quota = tok_unlimited_quota t, pay_model_limits_enabled = tok_model_limits_enabled t,
     pay_model_limits = tok_model_limits t, pay_allow_ips = nullish (tok_allow_ips t) [], pay_group = tok_group t,
     pay_cross_group_retry = tok_cross_group_retry t, pay_visibility = tok_visibility t,
     pay_responsible_user_id = Some (responsibleUserIdOf t)\<rparr>"

definition isOrganizationTokenHandover :: "OrganizationTokenRow \<Rightarrow> int option \<Rightarrow> bool" where
  "isOrganizationTokenHandover t responsibleUserId =
    (case responsibleUserId of None \<Rightarrow> False | Some n \<Rightarrow> n \<noteq> 0 \<and> n \<noteq> responsibleUserIdOf t)"

text \<open>What the schema accepts at the time \<open>now\<close>, with the name it hands on.\<close>

definition fields_accepted :: "OrganizationTokenFormValues \<Rightarrow> bool" where
  "fields_accepted values \<longleftrightarrow>
    trim (form_name values) \<noteq> [] \<and> of_int \<lfloor>form_token_count values\<rfloor> = form_token_count values \<and>
    1 \<le> form_token_count values \<and> form_token_count values \<le> ORGANIZATION_TOKEN_MAX_BATCH \<and>
    form_visibility values \<in> {''private'', ''public''}"

definition refinement_accepted :: "int \<Rightarrow> OrganizationTokenFormValues \<Rightarrow> bool" where
  "refinement_accepted now values \<longleftrightarrow>
    \<not> (\<not> form_unlimited_quota values \<and> (case form_remain_quota_dollars values of None \<Rightarrow> True | Some a \<Rightarrow> a < 0)) \<and>
    \<not> (case form_expired_time values of None \<Rightarrow> False | Some ms \<Rightarrow> ms \<le> now)"

definition organizationTokenFormSchema :: "int \<Rightarrow> OrganizationTokenFormValues \<Rightarrow> OrganizationTokenFormValues option" where
  "organizationTokenFormSchema now values =
    (if fields_accepted values \<and> refinement_accepted now values then Some (values\<lparr>form_name := trim (form_name values)\<rparr>) else None)"

section \<open>Invitations\<close>

text \<open>A status the page does not know is passed on as it is, and has no badge.\<close>

definition organizationInviteDisplayStatus :: "string option \<Rightarrow> string option \<Rightarrow> string" where
  "organizationInviteDisplayStatus status deliveryStatus =
    (if status \<noteq> Some ''pending'' then or_string status ''unknown''
     else if deliveryStatus = Some ''sent'' then ''pending''
     else if deliveryStatus = Some ''pending'' then ''sending''
     else if deliveryStatus = Some ''rejected'' then ''rejected''
     else if deliveryStatus = Some ''unknown'' then ''deliveryUnknown''
     else ''failed'')"

definition ORGANIZATION_INVITE_STATUS_META :: "(string \<times> string \<times> string) list" where
  "ORGANIZATION_INVITE_STATUS_META =
    [(''accepted'', ''Accepted'', ''success''), (''pending'', ''Pending'', ''info''), (''sending'', ''Sending'', ''cyan''),
     (''failed'', ''Email delivery failed'', ''danger''), (''rejected'', ''Email undeliverable'', ''danger''),
     (''deliveryUnknown'', ''Delivery status unknown'', ''warning''), (''expired'', ''Expired'', ''warning''),
     (''revoked'', ''Revoked'', ''neutral''), (''unknown'', ''Unknown status'', ''neutral'')]"

definition organizationInviteStatusMeta :: "string option \<Rightarrow> string option \<Rightarrow> (string \<times> string) option" where
  "organizationInviteStatusMeta status deliveryStatus =
    map_of ORGANIZATION_INVITE_STATUS_META (organizationInviteDisplayStatus status deliveryStatus)"

definition organizationInviteCanRetry :: "(string option \<times> string option) option \<Rightarrow> bool \<Rightarrow> bool \<Rightarrow> bool" where
  "organizationInviteCanRetry invite canCreateInvite readOnly =
    (if \<not> canCreateInvite \<or> readOnly then False
     else let displayStatus = (case invite of None \<Rightarrow> organizationInviteDisplayStatus None None
            | Some (status, delivery) \<Rightarrow> organizationInviteDisplayStatus status delivery) in
       displayStatus = ''failed'' \<or> displayStatus = ''deliveryUnknown'')"

record OrganizationInviteErrorBody =
  err_code :: "string option"
  err_delivery_status :: "string option"
  err_message :: "string option"

definition organizationInviteDeliveryErrorMessageKey :: "OrganizationInviteErrorBody option \<Rightarrow> string option" where
  "organizationInviteDeliveryErrorMessageKey body = (case body of None \<Rightarrow> None
    | Some data \<Rightarrow>
      if err_code data = Some ''organization_invite_delivery_failed''
      then if err_delivery_status data = Some ''unknown'' then Some ''Delivery status is unknown; you can retry manually later''
        else if err_delivery_status data = Some ''rejected''
        then Some ''The email address is undeliverable; revoke the invite and enter another address''
        else Some ''Email delivery failed; the invite record was retained''
      else if err_code data = Some ''organization_invite_delivery_in_progress''
      then Some ''The invitation email is being sent; refresh again shortly''
      else if err_code data = Some ''organization_invite_recipient_rejected''
      then Some ''The email address is undeliverable; revoke the invite and enter another address''
      else None)"

datatype OrganizationInviteCreateFailure =
    DeliveryFailure string | ConfirmResend | KnownDeliveryFailure string | UserAlreadyJoined | GenericFailure

definition organizationInviteCreateFailureAction :: "OrganizationInviteErrorBody option \<Rightarrow> OrganizationInviteCreateFailure" where
  "organizationInviteCreateFailureAction body =
    (let messageKey = organizationInviteDeliveryErrorMessageKey body; code = Option.bind body err_code;
         message = nullish (Option.bind body err_message) [] in
     case messageKey of
       Some key \<Rightarrow>
         (if code = Some ''organization_invite_delivery_failed'' then DeliveryFailure key
          else if code = Some ''organization_invite_already_sent'' then ConfirmResend
          else KnownDeliveryFailure key)
     | None \<Rightarrow>
         (if code = Some ''organization_invite_already_sent'' then ConfirmResend
          else if contains message ''already joined'' then UserAlreadyJoined else GenericFailure))"

section \<open>Who may do what\<close>

text \<open>The rows a member manages are those of a lower rank; nobody manages an owner.\<close>

definition role_rank :: "string option \<Rightarrow> nat option" where
  "role_rank role = map_of [(''owner'', 2), (''admin'', 1), (''member'', 0)] (normalizeRole role)"

definition outranks :: "string option \<Rightarrow> string option \<Rightarrow> bool" where
  "outranks a b \<longleftrightarrow> (case (role_rank a, role_rank b) of (Some i, Some j) \<Rightarrow> j < i | _ \<Rightarrow> False)"

lemma outranks_iff:
  "outranks a b \<longleftrightarrow>
    normalizeRole a = ''owner'' \<and> (normalizeRole b = ''admin'' \<or> normalizeRole b = ''member'') \<or>
    normalizeRole a = ''admin'' \<and> normalizeRole b = ''member''"
  by (simp add: outranks_def role_rank_def)

lemma member_actions_by_rank:
  "getOrganizationMemberActionFlags input =
    (if canManageMembers input \<and> \<not> input_readOnly input \<and> \<not> isCurrentUser input \<and>
        (if platformAdministrator input then normalizeRole (targetRole input) \<noteq> ''owner'' else outranks (actorRole input) (targetRole input))
     then granted else denied)"
  unfolding getOrganizationMemberActionFlags_def outranks_iff Let_def by argo

lemma outranks_asym: "outranks a b \<Longrightarrow> \<not> outranks b a"
  by (auto simp: outranks_def split: option.splits)

text \<open>A batch is deleted as a whole, and a member without the wide authority deletes only private keys of their own making.\<close>

definition own_private :: "OrganizationTokenActionContext \<Rightarrow> OrganizationTokenRow \<Rightarrow> bool" where
  "own_private ctx t \<longleftrightarrow> tok_creator_user_id t = Some (currentUserId ctx) \<and> currentUserId ctx > 0 \<and> tok_visibility t \<noteq> ''public''"

lemma may_delete: "canDelete (getOrganizationTokenActionFlags t ctx) \<longleftrightarrow> \<not> ctx_readOnly ctx \<and> (canManageAllTokens ctx \<or> own_private ctx t)"
  by (auto simp: getOrganizationTokenActionFlags_def own_private_def Let_def nullish_def split: option.splits)

lemma batch_deletes_own_keys:
  assumes "plan_request (getOrganizationTokenBatchDeletePlan selected (\<lambda>t. canDelete (getOrganizationTokenActionFlags t ctx))) = Some ids"
  shows "ids = map tok_id selected \<and> selected \<noteq> [] \<and> \<not> ctx_readOnly ctx \<and>
    (canManageAllTokens ctx \<or> (\<forall>t \<in> set selected. own_private ctx t))"
  using assms by (cases selected) (auto simp: getOrganizationTokenBatchDeletePlan_def may_delete Let_def filter_empty_conv split: if_splits)

text \<open>A section that is shown is one a link to it reaches, with a label.\<close>

lemma tab_keys_normal: "list_all (\<lambda>k. normalizeOrganizationTabKey (Some k) = k \<and> map_of ORGANIZATION_TAB_LABEL_KEYS k \<noteq> None) ORGANIZATION_DETAIL_TAB_KEYS"
  by code_simp

lemma tab_specs_known: "fst ` set (tab_specs caps ro) \<subseteq> set ORGANIZATION_DETAIL_TAB_KEYS"
  by (simp add: tab_specs_def ORGANIZATION_DETAIL_TAB_KEYS_def Let_def)

lemma tabs_reachable:
  assumes "t \<in> set (getOrganizationTabs input)"
  shows "normalizeOrganizationTabKey (Some (tab_key t)) = tab_key t \<and> tab_labelKey t \<noteq> None"
proof -
  obtain key visible limited where spec: "(key, visible, limited) \<in> set (tab_specs (in_capabilities input) (state_readOnly (getOrganizationReadOnlyState input)))"
    and t: "tab_key t = key" "tab_labelKey t = map_of ORGANIZATION_TAB_LABEL_KEYS key"
    using assms by (force simp: getOrganizationTabs_def Let_def)
  from imageI [OF spec, of fst] have "key \<in> set ORGANIZATION_DETAIL_TAB_KEYS" using tab_specs_known by auto
  from bspec [OF tab_keys_normal [unfolded list_all_iff] this] show ?thesis unfolding t .
qed

text \<open>A long key is shown by its first and its last four characters only.\<close>

definition key_body :: "string \<Rightarrow> string" where
  "key_body key = drop (length KEY_PREFIX) (prefixed_key (trim key))"

lemma mask_shows_ends:
  assumes "length (key_body key) > 8"
  shows "maskOrganizationTokenKey (Some key) = KEY_PREFIX @ take 4 (key_body key) @ KEY_MASK_DOTS @ last_n 4 (key_body key)"
proof -
  have "trim key \<noteq> []" using assms by (auto simp: key_body_def prefixed_key_def KEY_PREFIX_def)
  with assms show ?thesis by (simp add: maskOrganizationTokenKey_def key_body_def Let_def nullish_def)
qed

section \<open>Saving a key\<close>

text \<open>A member without the wide authority neither publishes nor hands over a key.\<close>

lemma member_save_keeps_holder:
  "\<not> isOrganizationTokenHandover t (pay_responsible_user_id (transformOrganizationTokenFormToPayload fl store values False (Some t))) \<and>
   pay_visibility (transformOrganizationTokenFormToPayload fl store values False (Some t)) = tok_visibility t \<and>
   pay_visibility (transformOrganizationTokenFormToPayload fl store values False None) = ''private''"
  by (simp add: isOrganizationTokenHandover_def transformOrganizationTokenFormToPayload_def)

text \<open>
  The keys an untouched form leaves alone.  The endpoints store the fields as they are sent, so a key may have other values, written
  by another client.
\<close>

definition form_models :: "string \<Rightarrow> string list" where
  "form_models m = (if m \<noteq> [] then filter (\<lambda>s. s \<noteq> []) (split_on (CHR '','') m) else [])"

definition kept_by_save :: "bool \<Rightarrow> OrganizationTokenRow \<Rightarrow> bool" where
  "kept_by_save canManageAll t \<longleftrightarrow>
    trim (tok_name t) = tok_name t \<and> (tok_expired_time t > 0 \<or> tok_expired_time t = - 1) \<and>
    (tok_unlimited_quota t \<longrightarrow> tok_remain_quota t = 0) \<and>
    (tok_model_limits t = [] \<or> [] \<notin> set (split_on (CHR '','') (tok_model_limits t))) \<and>
    (tok_model_limits_enabled t \<longleftrightarrow> tok_model_limits t \<noteq> []) \<and>
    (tok_cross_group_retry t \<longrightarrow> tok_group t = ''auto'') \<and>
    (canManageAll \<longrightarrow> (tok_visibility t = ''private'' \<or> tok_visibility t = ''public'') \<and> (tok_responsible_user_id t = Some 0 \<longrightarrow> tok_user_id t = 0))"

lemma form_models_empty: "form_models m = [] \<longleftrightarrow> m = [] \<or> (\<forall>s \<in> set (split_on (CHR '','') m). s = [])"
  by (auto simp: form_models_def filter_empty_conv)

lemma models_kept_iff: "join '','' (form_models m) = m \<longleftrightarrow> m = [] \<or> [] \<notin> set (split_on (CHR '','') m)"
proof (cases "m = []")
  case False
  let ?ps = "filter (\<lambda>s. s \<noteq> []) (split_on (CHR '','') m)"
  have "split_on (CHR '','') m = ?ps" if eq: "join '','' ?ps = m"
  proof -
    have "?ps \<noteq> []"
    proof
      assume "?ps = []"
      then have "join '','' ?ps = []" by simp
      with eq False show False by simp
    qed
    then have "split_on (CHR '','') (join [CHR '',''] ?ps) = ?ps" by (intro split_on_join) (auto dest: split_on_no_sep)
    with eq show ?thesis by simp
  qed
  then have "[] \<notin> set (split_on (CHR '','') m)" if "join '','' ?ps = m"
  proof -
    have "[] \<notin> set ?ps" by simp
    with \<open>join '','' ?ps = m \<Longrightarrow> split_on (CHR '','') m = ?ps\<close> [OF that] show ?thesis by (simp only: not_False_eq_True)
  qed
  moreover have "join '','' ?ps = m" if "[] \<notin> set (split_on (CHR '','') m)"
  proof -
    have "\<forall>w \<in> set (split_on (CHR '','') m). w \<noteq> []" using that by auto
    then have "?ps = split_on (CHR '','') m" unfolding filter_id_conv .
    then show ?thesis using join_split_on [of "CHR '',''" m] by (simp only:)
  qed
  ultimately show ?thesis using False by (auto simp: form_models_def)
qed (simp add: form_models_def)

lemma models_enabled:
  "m = [] \<or> [] \<notin> set (split_on (CHR '','') m) \<Longrightarrow> form_models m \<noteq> [] \<longleftrightarrow> m \<noteq> []"
proof -
  assume m: "m = [] \<or> [] \<notin> set (split_on (CHR '','') m)"
  obtain w ws where "split_on (CHR '','') m = w # ws" using split_on_not_Nil [of "CHR '',''" m] by (cases "split_on (CHR '','') m") (simp, blast)
  with m show ?thesis unfolding form_models_empty by (cases "m = []") auto
qed

text \<open>The body of an untouched form, field by field.\<close>

lemma untouched_body:
  assumes "double_law fl" "sane_config store" "\<bar>tok_remain_quota t\<bar> \<le> 2 ^ 49"
  shows "transformOrganizationTokenFormToPayload fl store (transformOrganizationTokenToFormDefaults fl store t) canManageAll (Some t) =
    (buildOrganizationTokenStatusPayload t (tok_status t))
     \<lparr>pay_name := trim (tok_name t), pay_expired_time := (if tok_expired_time t > 0 then tok_expired_time t else - 1),
      pay_remain_quota := (if tok_unlimited_quota t then 0 else tok_remain_quota t),
      pay_model_limits_enabled := (form_models (tok_model_limits t) \<noteq> []), pay_model_limits := join '','' (form_models (tok_model_limits t)),
      pay_cross_group_retry := (tok_group t = ''auto'' \<and> tok_cross_group_retry t),
      pay_visibility := (if canManageAll then if tok_visibility t = ''public'' then ''public'' else ''private'' else tok_visibility t),
      pay_responsible_user_id := Some (if canManageAll then nullish (tok_responsible_user_id t) (tok_user_id t) else responsibleUserIdOf t)\<rparr>"
  using units_through_input [OF assms]
  by (simp add: transformOrganizationTokenFormToPayload_def transformOrganizationTokenToFormDefaults_def
    buildOrganizationTokenStatusPayload_def form_models_def nullish_def)

lemma holder_kept: "nullish (tok_responsible_user_id t) (tok_user_id t) = responsibleUserIdOf t \<longleftrightarrow>
    (tok_responsible_user_id t = Some 0 \<longrightarrow> tok_user_id t = 0)"
  by (auto simp: responsibleUserIdOf_def or_id_def nullish_def split: option.splits)

lemma payload_kept:
  "p\<lparr>pay_name := n, pay_expired_time := e, pay_remain_quota := q, pay_model_limits_enabled := en, pay_model_limits := ms,
     pay_cross_group_retry := r, pay_visibility := v, pay_responsible_user_id := u\<rparr> = (p :: OrganizationTokenPayload) \<longleftrightarrow>
   n = pay_name p \<and> e = pay_expired_time p \<and> q = pay_remain_quota p \<and> en = pay_model_limits_enabled p \<and> ms = pay_model_limits p \<and>
   r = pay_cross_group_retry p \<and> v = pay_visibility p \<and> u = pay_responsible_user_id p"
  by (cases p) auto

text \<open>
  C22: What saving a form nobody touched does to a key.  For every stored key with at most \<open>2\<^sup>4\<^sup>9\<close> units, the save keeps its status,
  group, addresses, its kind of quota and a limited quota itself (through the amount in the input field and its double
  arithmetic), and a deadline; a member without the wide authority also keeps the visibility and the holder.  The whole key is
  sent back as it is stored exactly when it is \<open>kept_by_save\<close>: its name is trimmed, it never expires by \<open>-1\<close>, an unlimited one
  holds no quota, its models are listed without empty names and are in force exactly when there are some, a retry across
  groups comes with the group \<open>auto\<close>, and, for a manager, the visibility is a known one and the holder is not zeroed.
\<close>

theorem untouched_edit_keeps_key:
  assumes "double_law fl" "sane_config store" "\<bar>tok_remain_quota t\<bar> \<le> 2 ^ 49"
    and "p = transformOrganizationTokenFormToPayload fl store (transformOrganizationTokenToFormDefaults fl store t) canManageAll (Some t)"
  shows "pay_status p = tok_status t \<and> pay_group p = tok_group t \<and> pay_allow_ips p = nullish (tok_allow_ips t) [] \<and>
    pay_unlimited_quota p = tok_unlimited_quota t \<and> (\<not> tok_unlimited_quota t \<longrightarrow> pay_remain_quota p = tok_remain_quota t) \<and>
    (tok_expired_time t > 0 \<longrightarrow> pay_expired_time p = tok_expired_time t) \<and>
    (\<not> canManageAll \<longrightarrow> pay_visibility p = tok_visibility t \<and> pay_responsible_user_id p = Some (responsibleUserIdOf t)) \<and>
    (p = buildOrganizationTokenStatusPayload t (tok_status t) \<longleftrightarrow> kept_by_save canManageAll t)"
proof -
  let ?b = "buildOrganizationTokenStatusPayload t (tok_status t)"
  note p = untouched_body [OF assms(1-3), of canManageAll, folded assms(4)]
  have fields: "pay_name ?b = tok_name t" "pay_expired_time ?b = tok_expired_time t" "pay_remain_quota ?b = tok_remain_quota t"
    "pay_model_limits_enabled ?b = tok_model_limits_enabled t" "pay_model_limits ?b = tok_model_limits t"
    "pay_cross_group_retry ?b = tok_cross_group_retry t" "pay_visibility ?b = tok_visibility t"
    "pay_responsible_user_id ?b = Some (responsibleUserIdOf t)"
    by (simp_all add: buildOrganizationTokenStatusPayload_def)
  have enabled: "join '','' (form_models (tok_model_limits t)) = tok_model_limits t \<Longrightarrow>
      (form_models (tok_model_limits t) \<noteq> []) = tok_model_limits_enabled t \<longleftrightarrow> (tok_model_limits_enabled t \<longleftrightarrow> tok_model_limits t \<noteq> [])"
    using models_enabled [of "tok_model_limits t"] models_kept_iff [of "tok_model_limits t"] by blast
  have visible: "(if canManageAll then if tok_visibility t = ''public'' then ''public'' else ''private'' else tok_visibility t) = tok_visibility t \<longleftrightarrow>
      (canManageAll \<longrightarrow> tok_visibility t = ''private'' \<or> tok_visibility t = ''public'')" by metis
  have retry: "(tok_group t = ''auto'' \<and> tok_cross_group_retry t) = tok_cross_group_retry t \<longleftrightarrow> (tok_cross_group_retry t \<longrightarrow> tok_group t = ''auto'')" by blast
  have deadline: "(if tok_expired_time t > 0 then tok_expired_time t else - 1) = tok_expired_time t \<longleftrightarrow> tok_expired_time t > 0 \<or> tok_expired_time t = - 1"
    by auto
  have units: "(if tok_unlimited_quota t then 0 else tok_remain_quota t) = tok_remain_quota t \<longleftrightarrow> (tok_unlimited_quota t \<longrightarrow> tok_remain_quota t = 0)"
    by auto
  have holder: "Some (if canManageAll then nullish (tok_responsible_user_id t) (tok_user_id t) else responsibleUserIdOf t) = Some (responsibleUserIdOf t) \<longleftrightarrow>
      (canManageAll \<longrightarrow> tok_responsible_user_id t = Some 0 \<longrightarrow> tok_user_id t = 0)" using holder_kept [of t] by simp
  have "p = ?b \<longleftrightarrow> kept_by_save canManageAll t"
    unfolding p payload_kept fields kept_by_save_def visible retry deadline units holder models_kept_iff [symmetric]
    using enabled by blast
  then show ?thesis unfolding p by (simp add: buildOrganizationTokenStatusPayload_def)
qed

definition sample_key :: OrganizationTokenRow where
  "sample_key = \<lparr>tok_id = 4, tok_user_id = 7, tok_key = None, tok_key_preview = Some ''sk-ab**cd'', tok_status = 2, tok_name = ''ci'',
    tok_expired_time = 1800000000, tok_remain_quota = 1234567, tok_unlimited_quota = False, tok_model_limits_enabled = True,
    tok_model_limits = ''gpt-4o,o3'', tok_allow_ips = None, tok_group = ''auto'', tok_cross_group_retry = True,
    tok_visibility = ''public'', tok_creator_user_id = Some 7, tok_responsible_user_id = None, tok_creator_username = None,
    tok_creator_display_name = None\<rparr>"

text \<open>A key that is kept, and the same key with its models stored but not in force, which is not.\<close>

theorem untouched_edit_keeps_key_witness:
  "transformOrganizationTokenFormToPayload (\<lambda>x. x) (Some sample_currency)
      (transformOrganizationTokenToFormDefaults (\<lambda>x. x) (Some sample_currency) sample_key) True (Some sample_key) =
    buildOrganizationTokenStatusPayload sample_key (tok_status sample_key) \<and>
   transformOrganizationTokenFormToPayload (\<lambda>x. x) (Some sample_currency)
      (transformOrganizationTokenToFormDefaults (\<lambda>x. x) (Some sample_currency) (sample_key\<lparr>tok_model_limits_enabled := False\<rparr>)) True
      (Some (sample_key\<lparr>tok_model_limits_enabled := False\<rparr>)) \<noteq>
    buildOrganizationTokenStatusPayload (sample_key\<lparr>tok_model_limits_enabled := False\<rparr>) (tok_status (sample_key\<lparr>tok_model_limits_enabled := False\<rparr>))"
proof -
  have k: "kept_by_save True sample_key" "\<not> kept_by_save True (sample_key\<lparr>tok_model_limits_enabled := False\<rparr>)" by code_simp+
  have q: "\<bar>tok_remain_quota sample_key\<bar> \<le> 2 ^ 49" "\<bar>tok_remain_quota (sample_key\<lparr>tok_model_limits_enabled := False\<rparr>)\<bar> \<le> 2 ^ 49"
    by (simp_all add: sample_key_def)
  show ?thesis
    using untouched_edit_keeps_key [OF exact_doubles sample_sane q(1) refl, of True]
      untouched_edit_keeps_key [OF exact_doubles sample_sane q(2) refl, of True] k by blast
qed

text \<open>A list of models that is stored but not in force is put in force by any save of the form.\<close>

lemma edit_enforces_dormant_models:
  "\<exists>t. \<not> tok_model_limits_enabled t \<and>
    pay_model_limits_enabled (transformOrganizationTokenFormToPayload fl store (transformOrganizationTokenToFormDefaults fl store t) True (Some t))"
proof (intro exI conjI)
  show "\<not> tok_model_limits_enabled (sample_key\<lparr>tok_model_limits_enabled := False\<rparr>)" by simp
  show "pay_model_limits_enabled (transformOrganizationTokenFormToPayload fl store
      (transformOrganizationTokenToFormDefaults fl store (sample_key\<lparr>tok_model_limits_enabled := False\<rparr>)) True
      (Some (sample_key\<lparr>tok_model_limits_enabled := False\<rparr>)))"
    by (simp add: transformOrganizationTokenFormToPayload_def transformOrganizationTokenToFormDefaults_def sample_key_def)
qed

section \<open>Invitations that can be sent again\<close>

text \<open>A retry is offered only for a pending invitation whose mail was not delivered; a status the page does not know has no badge.\<close>

lemma retry_only_undelivered:
  assumes "organizationInviteCanRetry (Some (status, delivery)) canCreate readOnly" "status \<notin> {Some ''failed'', Some ''deliveryUnknown''}"
  shows "canCreate \<and> \<not> readOnly \<and> status = Some ''pending'' \<and> delivery \<notin> {Some ''sent'', Some ''pending'', Some ''rejected''}"
  using assms
  by (auto simp: organizationInviteCanRetry_def organizationInviteDisplayStatus_def or_string_def Let_def split: if_splits option.splits)

lemma unknown_invite_without_badge: "organizationInviteStatusMeta (Some ''archived'') delivery = None"
  by (simp add: organizationInviteStatusMeta_def organizationInviteDisplayStatus_def or_string_def ORGANIZATION_INVITE_STATUS_META_def)

end
