(* ===== verification/Spec2Isabelle.thy ===== *)
theory Spec2Isabelle
  imports Status_Rules Playground_Options Conversation Playground_State Chat_Turn Http_Client Access_Rules Organization_Idempotency Image_Jobs
    Task_Configs Flow_Display Custom_Editing Price_Summary Refresh_Sharing Organization_Pages Organization_Keys
begin

text \<open>
  A verification development for CubeRouter, a gateway for language model APIs with a web
  dashboard.  The development covers the logic of the dashboard (\<open>web/src\<close>, TypeScript); the
  gateway itself, written in Go, is what the dashboard talks to and is not modelled.

  \<^bold>\<open>The parts and how they interact.\<close>  The dashboard is a React application.  Five of its parts
  carry state whose correctness depends on the order of asynchronous events, and they are
  modelled together with the data they work on:

  \<^item> the \<^bold>\<open>playground\<close> (\<open>features/playground\<close>), a chat page.  The user edits a conversation
    (\<open>use-playground-conversation\<close>), the chat handler (\<open>use-chat-handler\<close>) sends it either as
    one request or through the stream controller (\<open>use-stream-request\<close>), the chunks of the
    reply are batched, flushed into the last message by updaters that React runs later, and
    the page state (\<open>use-playground-state\<close>) is saved to and reloaded from the browser's
    storage;
  \<^item> the \<^bold>\<open>login session\<close> (\<open>lib/auth-session\<close>, \<open>stores/auth-store\<close>) and the \<^bold>\<open>account context\<close>
    (\<open>stores/account-context-store\<close>), personal or an organization, that every request names;
  \<^item> the \<^bold>\<open>HTTP client\<close> (\<open>lib/http-client\<close>), which puts both into the headers of a request,
    shares GET requests in flight, refreshes the session on a 401 and retries;
  \<^item> the \<^bold>\<open>image jobs\<close> of the media studio (\<open>features/media-studio\<close>): every tab of an account shares
    one record in IndexedDB, which is claimed before a job is posted, followed by polling,
    and removed once the result is saved and acknowledged;
  \<^item> the \<^bold>\<open>retry keys\<close> of organization requests (\<open>organization-idempotency\<close>), kept in memory and
    in the session storage until the request they name has succeeded.

  Beside them stand pure libraries: the \<^bold>\<open>status code rules\<close> (\<open>lib/http-status-code-rules\<close>) an
  administrator types to say which upstream answers disable a channel; the \<^bold>\<open>prices\<close>
  (\<open>features/pricing/lib\<close>), which are edited as forms (tiers of a model, a matrix or tiers of an
  asynchronous task, rules on the request) and stored as expressions that the forms must be
  able to read again; the \<^bold>\<open>routing of a custom channel\<close> (\<open>features/channels/lib/advanced-custom\<close>),
  edited in parts, stored as JSON and validated as a whole; the \<^bold>\<open>usage flow\<close> of the dashboard
  (\<open>features/dashboard/lib/flow\<close>), which turns rows of usage into nodes and links; roles,
  permissions and navigation modules; the \<^bold>\<open>organization\<close> pages
  (\<open>features/organization/lib\<close>), with the tables, the keys and their forms, and the \<^bold>\<open>amounts\<close> of
  quota and currency (\<open>lib/currency\<close>, \<open>lib/format\<close>); and the path functions \<open>lib/base-path\<close> and
  \<open>lib/legacy-route\<close>.

  \<^bold>\<open>Which theory models what.\<close>

  \<^item> \<open>Prelude\<close>: the JavaScript string, array and JSON operations the sources call, with their
    lemmas; the locale \<open>normaliser\<close> of an idempotent normal form.
  \<^item> \<open>Status_Rules\<close>: \<open>parseToken\<close>, \<open>mergeRanges\<close> and \<open>parseHttpStatusCodeRules\<close> as functions
    on code units.  A rule text is given the meaning \<open>codes_of\<close>, a set of status codes; the
    lemmas show that parsing keeps exactly that set, that the normal form is canonical and
    parses back to itself, and which texts are rejected.
  \<^item> \<open>Playground_Types\<close>: the records of \<open>types.ts\<close> and the constants of \<open>constants.ts\<close>.
  \<^item> \<open>Message_Core\<close> and \<open>Message_Streaming\<close>: \<open>lib/message/*\<close>, one function each.  The lemmas
    show what the \<open><think>\<close> parser does to any text (a grammar of visible pieces and think
    blocks, with a round trip), what a stream of chunks leaves in a message, and what
    completing, failing and repairing a message keep.  The locale \<open>message_update\<close> is the
    contract of every update of the last reply.
  \<^item> \<open>Conversation\<close>: send, regenerate, edit and delete; keys stay unique along every history of
    operations (\<open>conversation_reachable\<close>).
  \<^item> \<open>Chat_Wire\<close>: the request payload, the pieces of a stream message, and the plugin events.
  \<^item> \<open>Playground_Options\<close>: model and group fallbacks and the parsing of the sampling
    parameters, with JavaScript's \<open>Number()\<close> on decimal literals.
  \<^item> \<open>Playground_Storage\<close> and \<open>Playground_State\<close>: the versioned, validated and trimmed storage
    with its save and load, and the page with its loading timer, its debounced save and its
    unmount.  The locale \<open>stored_entry\<close> is the contract of one storage entry; the lemmas
    show that what is saved is what is loaded, within the limits the code sets.
  \<^item> \<open>Stream_Controller\<close>: \<open>createStreamRequestController\<close> as a state machine over the events of
    its environment; every run keeps \<open>controller_inv\<close>, from which the callback protocol
    follows (one terminal callback at most, nothing behind it, nothing from a superseded
    request).
  \<^item> \<open>Chat_Handler\<close> and \<open>Chat_Turn\<close>: the handler composed with that machine and with React's
    queue of updaters, and the text a whole turn leaves, for every stream and every interleaving:
    the pieces merged in batches, which is their concatenation or the last snapshot for servers
    that send increments or snapshots.
  \<^item> \<open>Account_Context\<close>, \<open>Auth_Session\<close>: the two stores, the session refresh with its epochs and
    retries against an arbitrary server and arbitrary interference, the headers.  The
    locale \<open>refresh_contract\<close> is what every refresh keeps; its interpretations give the
    epoch discipline, the bound on requests and the agreement of outcome and store.
    \<open>Refresh_Sharing\<close> is the machine in which callers share the running refresh; it refines the
    refresh of a single caller.
  \<^item> \<open>Routing\<close> and \<open>Http_Client\<close>: paths, request headers, deduplication, interceptors; every
    request ends and is sent at most twice.
  \<^item> \<open>Access_Rules\<close>: \<open>roles\<close>, \<open>role-guards\<close>, \<open>admin-permissions\<close> and \<open>nav-modules\<close>; the lemmas show
    which pages the stored settings close, whatever their form (\<open>says_off\<close>, \<open>says_on\<close>), and that
    the modules survive being written and read.
  \<^item> \<open>Organization_Idempotency\<close>: the slot of an intent, its key, and the requests in flight, as a
    step function over calls, answers, failures and reloads; a retry sends the key of the
    first attempt, and a key sent for one intent is never sent for another.
  \<^item> \<open>Quota_Display\<close>: the currency configuration and formats of \<open>currency.ts\<close> and the conversions of
    \<open>format.ts\<close> between quota units and the amount in an input field, in doubles; the amount shown is
    read back as the units it came from.
  \<^item> \<open>Organization_Pages\<close>: \<open>organization-pagination.ts\<close>, whose export loop returns and collects the
    whole set up to its cap, and the text filters of \<open>organization-table-state.ts\<close>.
  \<^item> \<open>Organization_Keys\<close>: sections, row actions and authority over keys (\<open>organization-center.ts\<close>,
    \<open>organization-token.ts\<close>), the form of a key and the bodies it sends (\<open>organization-token-form.ts\<close>) and
    invitations (\<open>organization-invite.ts\<close>); the lemmas show which fields of a key an untouched edit
    keeps and exactly which keys it leaves as they are (\<open>kept_by_save\<close>).
  \<^item> \<open>Studio_Storage\<close> and \<open>Image_Jobs\<close>: the database of the studio with its limits, and any
    number of tabs whose promises settle in any order.  The locale \<open>exclusive_slot\<close> is the
    contract of the shared record, interpreted on \<open>pendingStudioImage\<close>; the lemmas show that
    jobs do not overlap, are posted once, are not lost before they are saved, and are
    recovered by a reload.
  \<^item> \<open>Js_Text\<close>: numeric literals, quoted strings and the splitting of an expression at its top
    level.  \<open>Billing_Rules\<close> models the request rules of \<open>billing-expr.ts\<close>, each regular
    expression as the steps of its match; \<open>Billing_Matching\<close> shows what each pattern matches and
    \<open>Billing_Roundtrip\<close> that rules are read back as they were built, and which are not.
  \<^item> \<open>Task_Pricing\<close>: \<open>task-expr.ts\<close>, from the declared fields to the combinations, the matrix, its
    tiers and the preview; tiers charge as the matrix says and give it back.  \<open>Task_Expr\<close> adds
    the text of task prices, generated and parsed; \<open>Task_Scanning\<close> holds the scanners of
    brackets and quotes, whose common contract is the locale \<open>scanner\<close>, and \<open>Task_Roundtrip\<close> and
    \<open>Task_Configs\<close> show that tiers and full matrices are read back as they were.
  \<^item> \<open>Js_Regex\<close>: JavaScript's regular expressions as a backtracking search, with the search for all
    matches and the splitting of a text.  \<open>Tier_Expr\<close> models \<open>tier-expr.ts\<close> on it, its patterns
    built as the source builds them; \<open>Tier_Matching\<close> shows what each pattern matches first, and
    which groups it leaves, and \<open>Tier_Roundtrip\<close> that the tiers are read back.  \<open>Tier_Display\<close> models the
    looser reader behind price tables; the locale \<open>piece_reader\<close> is what both readers promise for the
    text of a tier.
  \<^item> \<open>Pricing_Models\<close>: the models of the pricing page, their ratios and prices (\<open>model-helpers.ts\<close>,
    \<open>price.ts\<close>), filters and order (\<open>filters.ts\<close>) and the state of the filters (\<open>use-filters.ts\<close>).
    \<open>Dynamic_Price\<close> is \<open>dynamic-price.ts\<close>, the summary of a model with an expression; \<open>Price_Summary\<close>
    follows a price from the editor through generation, combination with request rules,
    splitting and parsing to that summary.
  \<^item> \<open>Ordered_Map\<close>, \<open>Flow_Graph\<close>, \<open>Flow_Conservation\<close> and \<open>Flow_Display\<close>: \<open>flow.ts\<close>, from the rows to
    the graph, its filters, limits, masks, highlights and colours.  The locales \<open>accumulator\<close> and
    \<open>accumulator_tag\<close> are the contract of a map that adds up values under keys; the lemmas show
    that every node carries what its links carry, that each stage carries the summary, and
    what limits and masks do.
  \<^item> \<open>Custom_Routes\<close>, \<open>Custom_Validation\<close> and \<open>Custom_Editing\<close>: \<open>advanced-custom.ts\<close>.  Validation is shown
    equivalent to a predicate on the list of routes (\<open>routes_ok\<close>), the parts of a routing are
    the registers of the locale \<open>registers\<close>, which edits write independently, and the text is a
    round trip.

  \<^bold>\<open>State and errors.\<close>  A store, a hook's refs and states, or a closure's variables are one record,
  and an operation is a function on it.  A hook or a closure whose handlers are called by
  the environment is a step function on events, and a run is a list of events.  A thrown
  error or a rejected promise is a value of an option or a sum.  The clock and the generated
  ids are arguments.

  \<^bold>\<open>Parameters.\<close>  Code outside the repository is an argument of the definitions: \<open>JSON.parse\<close> and
  \<open>JSON.stringify\<close>, zod's \<open>schema.parse\<close> (with \<open>zod_laws\<close>, which the executable \<open>zod_ref\<close>
  satisfies), the translation function, the quota of \<open>localStorage\<close>, the answers of the
  server, \<open>String\<close> on numbers (with \<open>number_law\<close>), the order of \<open>localeCompare\<close>, the URL parser, \<open>Intl.NumberFormat\<close>, the rounding of doubles
  (with \<open>double_law\<close>), the pages of an endpoint,
  the palette and the texts of the flow chart, and the moments at which promises settle, timers fire and React runs updaters.

  \<^bold>\<open>Idealisations.\<close>  Strings hold characters below 256, except in \<open>Status_Rules\<close>, whose texts are
  lists of code units.  Numbers are rationals; the sources only compare them, take minima and
  maxima, and add or scale values that doubles hold exactly; \<open>Quota_Display\<close> and \<open>Organization_Keys\<close>,
  which divide, round every operation by \<open>fl\<close>.  Objects read by key only are maps.  A location is its parsed parts.
  The texts a stream carries are strings, as the types of the source say.

  \<^bold>\<open>Termination.\<close>  The loops of the source are structural or come with a measure, but for two that
  the environment drives, the repetition of a request (\<open>api_request\<close>) and the export over pages
  (\<open>collect_pages\<close>): they are partial functions into an option, and that they return is proved.  Only a
  repetition in a regular expression has fuel, the length of the text that is left, which is
  enough because every round consumes a character (\<open>many_fuel\<close>).  A refresh sends at most eight requests (three delays, one mismatch retry,
  three delays again) and a request is repeated at most once; both are proved.

  \<^bold>\<open>Not modelled.\<close>  The React components (\<open>.tsx\<close>), the routes, styles and translations; the
  transport of session events between tabs; the preparation of the studio's request
  bodies, masks and videos; the evaluator of tier expressions, which compiles them as
  JavaScript; the chart specification around the flow data; the payment, user, key and settings features, forms and
  tables over the server, with their model mappings and organization policies, and the date
  formats.
\<close>

end
